(* ===== verification/RC_Prelude.thy ===== *)
theory RC_Prelude
  imports Main "HOL-Library.Char_ord" "HOL-Library.List_Lexorder" "HOL-Library.Product_Lexorder"
begin

section \<open>Prelude: Python idioms, keyed tables and claims\<close>

text \<open>
  What the components share: Python's truthiness and string helpers, tables of rows with a
  primary key, the string-valued enumerations of the domain layer, and the conditional
  UPDATE by which the program takes exclusive ownership of a row.

  Times are integers (microseconds since the epoch). SQLite hands back naive datetimes and
  the code reads every naive value as UTC, so one integer per instant is enough.
\<close>

named_theorems py_simps \<open>Python truthiness and string helpers\<close>
named_theorems table_simps \<open>lookup and update in keyed tables\<close>

type_synonym time = int

subsection \<open>Truthiness\<close>

text \<open>An optional string is false when it is None or empty.\<close>

definition py_truthy :: "string option \<Rightarrow> bool" where
  "py_truthy s = (case s of None \<Rightarrow> False | Some t \<Rightarrow> t \<noteq> [])"

text \<open>\<open>a or b\<close> on an optional string.\<close>

definition py_or :: "string option \<Rightarrow> string \<Rightarrow> string" where
  "py_or s d = (case s of None \<Rightarrow> d | Some t \<Rightarrow> if t = [] then d else t)"

text \<open>\<open>a or b\<close> on an optional instant (a datetime is always true).\<close>

definition time_or :: "time option \<Rightarrow> time \<Rightarrow> time option" where
  "time_or t d = (case t of None \<Rightarrow> Some d | Some u \<Rightarrow> Some u)"

lemma py_truthy_simps [simp, py_simps]:
  "\<not> py_truthy None" "py_truthy (Some s) \<longleftrightarrow> s \<noteq> []"
  by (auto simp: py_truthy_def)

lemma py_or_None [simp, py_simps]: "py_or None d = d"
  by (simp add: py_or_def)

lemma py_or_Some [simp, py_simps]: "s \<noteq> [] \<Longrightarrow> py_or (Some s) d = s"
  by (simp add: py_or_def)

lemma time_or_simps [simp, py_simps]: "time_or None d = Some d" "time_or (Some t) d = Some t"
  by (auto simp: time_or_def)

lemma time_or_neq_None [simp]: "time_or t d \<noteq> None"
  by (cases t) auto

subsection \<open>Strings\<close>

text \<open>\<open>str.strip\<close> on ASCII text.\<close>

definition is_space :: "char \<Rightarrow> bool" where
  "is_space c \<longleftrightarrow> (let n = (of_char c :: nat) in (9 \<le> n \<and> n \<le> 13) \<or> (28 \<le> n \<and> n \<le> 32))"

definition strip :: "string \<Rightarrow> string" where
  "strip s = rev (dropWhile is_space (rev (dropWhile is_space s)))"

text \<open>\<open>dict.fromkeys\<close>: without repetitions, first occurrences kept.\<close>

fun first_keys :: "'a list \<Rightarrow> 'a list" where
  "first_keys [] = []"
| "first_keys (x # xs) = x # filter (\<lambda>y. y \<noteq> x) (first_keys xs)"

lemma set_first_keys [simp]: "set (first_keys xs) = set xs"
  by (induction xs) auto

lemma distinct_first_keys [simp]: "distinct (first_keys xs)"
  by (induction xs) auto

definition digit_char :: "nat \<Rightarrow> char" where
  "digit_char d = char_of (48 + d)"

fun str_of_nat :: "nat \<Rightarrow> string" where
  "str_of_nat n = (if n < 10 then [digit_char n]
     else str_of_nat (n div 10) @ [digit_char (n mod 10)])"

declare str_of_nat.simps [simp del]

definition str_of_int :: "int \<Rightarrow> string" where
  "str_of_int i = (if i < 0 then CHR ''-'' # str_of_nat (nat (- i)) else str_of_nat (nat i))"

text \<open>Case conversion on ASCII letters; other characters are left alone.\<close>

definition lower_char :: "char \<Rightarrow> char" where
  "lower_char c = (let n = (of_char c :: nat) in if 65 \<le> n \<and> n \<le> 90 then char_of (n + 32) else c)"

definition upper_char :: "char \<Rightarrow> char" where
  "upper_char c = (let n = (of_char c :: nat) in if 97 \<le> n \<and> n \<le> 122 then char_of (n - 32) else c)"

definition lower :: "string \<Rightarrow> string" where
  "lower = map lower_char"

definition capitalize :: "string \<Rightarrow> string" where
  "capitalize s = (case s of [] \<Rightarrow> [] | c # cs \<Rightarrow> upper_char c # lower cs)"

text \<open>\<open>s.rstrip(c)\<close> for one character, and \<open>sep.join(parts)\<close>.\<close>

definition rstrip :: "char \<Rightarrow> string \<Rightarrow> string" where
  "rstrip c s = rev (dropWhile (\<lambda>x. x = c) (rev s))"

fun join :: "string \<Rightarrow> string list \<Rightarrow> string" where
  "join sep [] = []"
| "join sep [s] = s"
| "join sep (s # t # ss) = s @ sep @ join sep (t # ss)"

lemma lower_char_idem [simp]: "lower_char (lower_char c) = lower_char c"
proof -
  have "\<And>n::nat. 65 \<le> n \<Longrightarrow> n \<le> 90 \<Longrightarrow> (of_char (char_of (n + 32) :: char) :: nat) = n + 32"
    by (simp add: of_char_of)
  then show ?thesis by (auto simp: lower_char_def Let_def)
qed

lemma lower_idem [simp]: "lower (lower s) = lower s"
  by (simp add: lower_def)

lemma rstrip_idem [simp]: "rstrip c (rstrip c s) = rstrip c s"
proof -
  have "dropWhile P (dropWhile P xs) = dropWhile P xs" for P and xs :: "char list"
    by (induction xs) auto
  then show ?thesis by (simp add: rstrip_def)
qed

lemma rstrip_last: "rstrip c s \<noteq> [] \<Longrightarrow> last (rstrip c s) \<noteq> c"
  using hd_dropWhile [of "\<lambda>x. x = c" "rev s"] by (auto simp: rstrip_def last_rev)

lemma rstrip_append_char [simp]: "rstrip c (s @ [c]) = rstrip c s"
  by (simp add: rstrip_def)

subsection \<open>Tables: lists of rows with a primary key\<close>

definition find_row :: "('r \<Rightarrow> 'k) \<Rightarrow> 'k \<Rightarrow> 'r list \<Rightarrow> 'r option" where
  "find_row key k t = List.find (\<lambda>r. key r = k) t"

definition upd_row :: "('r \<Rightarrow> 'k) \<Rightarrow> 'k \<Rightarrow> ('r \<Rightarrow> 'r) \<Rightarrow> 'r list \<Rightarrow> 'r list" where
  "upd_row key k f t = map (\<lambda>r. if key r = k then f r else r) t"

definition keyed :: "('r \<Rightarrow> 'k) \<Rightarrow> 'r list \<Rightarrow> bool" where
  "keyed key t = distinct (map key t)"

lemma find_row_Nil [simp, table_simps]: "find_row key k [] = None"
  by (simp add: find_row_def)

lemma find_row_Cons [simp, table_simps]:
  "find_row key k (r # t) = (if key r = k then Some r else find_row key k t)"
  by (simp add: find_row_def)

lemma find_row_append [table_simps]:
  "find_row key k (t @ u) = (case find_row key k t of None \<Rightarrow> find_row key k u | Some r \<Rightarrow> Some r)"
  by (induction t) auto

lemma find_row_Some: "find_row key k t = Some r \<Longrightarrow> r \<in> set t \<and> key r = k"
  by (induction t) (auto split: if_splits)

lemma find_row_None: "find_row key k t = None \<longleftrightarrow> k \<notin> key ` set t"
  by (induction t) auto

lemma find_row_keyed: "keyed key t \<Longrightarrow> r \<in> set t \<Longrightarrow> find_row key (key r) t = Some r"
  by (induction t) (auto simp: keyed_def rev_image_eqI)

lemma upd_row_Nil [simp]: "upd_row key k f [] = []"
  by (simp add: upd_row_def)

lemma upd_row_Cons [simp]:
  "upd_row key k f (r # t) = (if key r = k then f r else r) # upd_row key k f t"
  by (simp add: upd_row_def)

lemma length_upd_row [simp]: "length (upd_row key k f t) = length t"
  by (simp add: upd_row_def)

lemma upd_row_keys [simp, table_simps]:
  assumes "\<And>r. key (f r) = key r"
  shows "map key (upd_row key k f t) = map key t"
  using assms by (induction t) auto

lemma filter_keyed:
  "keyed key rs \<Longrightarrow> filter (\<lambda>r. key r = k \<and> P r) rs =
     (case find_row key k rs of None \<Rightarrow> [] | Some r \<Rightarrow> if P r then [r] else [])"
proof (induction rs)
  case (Cons a rs)
  have "key a \<notin> key ` set rs" using Cons.prems by (simp add: keyed_def)
  then have "key a = k \<Longrightarrow> filter (\<lambda>r. key r = k \<and> P r) rs = []"
    by (auto simp: filter_empty_conv) (metis imageI)
  then show ?case using Cons by (auto simp: keyed_def)
qed simp

lemma keyed_upd_row [simp, table_simps]:
  assumes "\<And>r. key (f r) = key r"
  shows "keyed key (upd_row key k f t) = keyed key t"
  using assms by (simp add: keyed_def)

lemma find_row_upd_same [simp, table_simps]:
  assumes "\<And>r. key (f r) = key r"
  shows "find_row key k (upd_row key k f t) = map_option f (find_row key k t)"
  using assms by (induction t) auto

lemma find_row_upd_other [simp, table_simps]:
  assumes "\<And>r. key (f r) = key r" and "j \<noteq> k"
  shows "find_row key j (upd_row key k f t) = find_row key j t"
  using assms by (induction t) auto

lemma upd_row_id: "find_row key k t = None \<Longrightarrow> upd_row key k f t = t"
  by (induction t) (auto split: if_splits)

lemma upd_row_upd_row [simp]:
  assumes "\<And>r. key (f r) = key r"
  shows "upd_row key k g (upd_row key k f t) = upd_row key k (g \<circ> f) t"
  using assms by (induction t) auto

lemma filter_upd_row_le:
  assumes "\<And>r. P (f r) \<Longrightarrow> P r"
  shows "length (filter P (upd_row key k f t)) \<le> length (filter P t)"
  using assms by (induction t) auto

end
