(* ===== verification/Orch_Types.thy ===== *)
theory Orch_Types
  imports RC_Prelude
begin

section \<open>Value objects: string enumerations and workflow stages\<close>

text \<open>
  The enumerations of app/domain/*/value_objects. Each is a Python \<open>class X(str, enum.Enum)\<close>:
  a member has a string value, that value is what a column stores and an event carries, and
  \<open>X(value)\<close> reads it back or raises ValueError. The locale states what such an
  enumeration promises; every enumeration of the model is an interpretation of it.
\<close>

definition enum_of :: "('e \<Rightarrow> string) \<Rightarrow> 'e list \<Rightarrow> string \<Rightarrow> 'e option" where
  "enum_of enum_value members s = List.find (\<lambda>m. enum_value m = s) members"

locale str_enum =
  fixes enum_value :: "'e \<Rightarrow> string" and members :: "'e list"
  assumes members_complete: "m \<in> set members"
    and values_distinct: "distinct (map enum_value members)"
begin

lemma enum_value_inj: "enum_value a = enum_value b \<longleftrightarrow> a = b"
  using values_distinct members_complete by (auto simp: distinct_map inj_on_def)

lemma enum_roundtrip: "enum_of enum_value members (enum_value m) = Some m"
proof -
  have "List.find (\<lambda>x. enum_value x = enum_value m) ms = Some m" if "m \<in> set ms" for ms
    using that by (induction ms) (auto simp: enum_value_inj)
  then show ?thesis by (simp add: enum_of_def members_complete)
qed

lemma enum_of_Some: "enum_of enum_value members s = Some m \<Longrightarrow> enum_value m = s"
  by (auto simp: enum_of_def find_Some_iff)

lemma enum_of_None: "enum_of enum_value members s = None \<longleftrightarrow> s \<notin> range enum_value"
  using members_complete by (auto simp: enum_of_def find_None_iff)

end

subsection \<open>Deployment, bundle and publish status\<close>

datatype deployment_status =
  DS_WAITING | DS_PROMOTING | DS_DEPLOYING | DS_SUCCESS | DS_FAILED | DS_CANCELLED

fun ds_value :: "deployment_status \<Rightarrow> string" where
  "ds_value DS_WAITING = ''WAITING''"
| "ds_value DS_PROMOTING = ''PROMOTING''"
| "ds_value DS_DEPLOYING = ''DEPLOYING''"
| "ds_value DS_SUCCESS = ''SUCCESS''"
| "ds_value DS_FAILED = ''FAILED''"
| "ds_value DS_CANCELLED = ''CANCELLED''"

definition ds_members :: "deployment_status list" where
  "ds_members = [DS_WAITING, DS_PROMOTING, DS_DEPLOYING, DS_SUCCESS, DS_FAILED, DS_CANCELLED]"

datatype bundle_status =
  BS_PENDING | BS_PROMOTING | BS_DEPLOYING | BS_SUCCESS | BS_FAILED | BS_PARTIAL_FAILURE

fun bs_value :: "bundle_status \<Rightarrow> string" where
  "bs_value BS_PENDING = ''PENDING''"
| "bs_value BS_PROMOTING = ''PROMOTING''"
| "bs_value BS_DEPLOYING = ''DEPLOYING''"
| "bs_value BS_SUCCESS = ''SUCCESS''"
| "bs_value BS_FAILED = ''FAILED''"
| "bs_value BS_PARTIAL_FAILURE = ''PARTIAL_FAILURE''"

definition bs_members :: "bundle_status list" where
  "bs_members = [BS_PENDING, BS_PROMOTING, BS_DEPLOYING, BS_SUCCESS, BS_FAILED, BS_PARTIAL_FAILURE]"

datatype publish_status =
  PS_NOT_PUBLISHED | PS_PUBLISHING | PS_PUBLISHED | PS_FAILED | PS_PARTIAL_FAILURE

fun ps_value :: "publish_status \<Rightarrow> string" where
  "ps_value PS_NOT_PUBLISHED = ''NOT_PUBLISHED''"
| "ps_value PS_PUBLISHING = ''PUBLISHING''"
| "ps_value PS_PUBLISHED = ''PUBLISHED''"
| "ps_value PS_FAILED = ''FAILED''"
| "ps_value PS_PARTIAL_FAILURE = ''PARTIAL_FAILURE''"

definition ps_members :: "publish_status list" where
  "ps_members = [PS_NOT_PUBLISHED, PS_PUBLISHING, PS_PUBLISHED, PS_FAILED, PS_PARTIAL_FAILURE]"

datatype publish_record_status = PR_PUBLISHING | PR_PUBLISHED | PR_FAILED

fun pr_value :: "publish_record_status \<Rightarrow> string" where
  "pr_value PR_PUBLISHING = ''PUBLISHING''"
| "pr_value PR_PUBLISHED = ''PUBLISHED''"
| "pr_value PR_FAILED = ''FAILED''"

definition pr_members :: "publish_record_status list" where
  "pr_members = [PR_PUBLISHING, PR_PUBLISHED, PR_FAILED]"

datatype release_mode = RM_SINGLE | RM_BUNDLE | RM_FRONTEND_ONLY | RM_BACKEND_ONLY

fun rm_value :: "release_mode \<Rightarrow> string" where
  "rm_value RM_SINGLE = ''SINGLE''"
| "rm_value RM_BUNDLE = ''BUNDLE''"
| "rm_value RM_FRONTEND_ONLY = ''FRONTEND_ONLY''"
| "rm_value RM_BACKEND_ONLY = ''BACKEND_ONLY''"

definition rm_members :: "release_mode list" where
  "rm_members = [RM_SINGLE, RM_BUNDLE, RM_FRONTEND_ONLY, RM_BACKEND_ONLY]"

datatype actor_source = AS_SESSION | AS_SCHEDULE | AS_SYSTEM | AS_MCP

fun as_value :: "actor_source \<Rightarrow> string" where
  "as_value AS_SESSION = ''session''"
| "as_value AS_SCHEDULE = ''schedule''"
| "as_value AS_SYSTEM = ''system''"
| "as_value AS_MCP = ''mcp''"

definition as_members :: "actor_source list" where
  "as_members = [AS_SESSION, AS_SCHEDULE, AS_SYSTEM, AS_MCP]"

subsection \<open>Approval, schedule and e-mail status\<close>

datatype release_status = RS_PENDING | RS_APPROVED | RS_REJECTED | RS_DEPLOYING | RS_SUCCESS | RS_FAILED

fun rs_value :: "release_status \<Rightarrow> string" where
  "rs_value RS_PENDING = ''PENDING''"
| "rs_value RS_APPROVED = ''APPROVED''"
| "rs_value RS_REJECTED = ''REJECTED''"
| "rs_value RS_DEPLOYING = ''DEPLOYING''"
| "rs_value RS_SUCCESS = ''SUCCESS''"
| "rs_value RS_FAILED = ''FAILED''"

definition rs_members :: "release_status list" where
  "rs_members = [RS_PENDING, RS_APPROVED, RS_REJECTED, RS_DEPLOYING, RS_SUCCESS, RS_FAILED]"

datatype schedule_status = SS_PENDING | SS_RUNNING | SS_SUCCEEDED | SS_FAILED | SS_CANCELLED

fun ss_value :: "schedule_status \<Rightarrow> string" where
  "ss_value SS_PENDING = ''PENDING''"
| "ss_value SS_RUNNING = ''RUNNING''"
| "ss_value SS_SUCCEEDED = ''SUCCEEDED''"
| "ss_value SS_FAILED = ''FAILED''"
| "ss_value SS_CANCELLED = ''CANCELLED''"

definition ss_members :: "schedule_status list" where
  "ss_members = [SS_PENDING, SS_RUNNING, SS_SUCCEEDED, SS_FAILED, SS_CANCELLED]"

datatype email_status = ES_PENDING | ES_PROCESSING | ES_SENT | ES_FAILED

fun es_value :: "email_status \<Rightarrow> string" where
  "es_value ES_PENDING = ''PENDING''"
| "es_value ES_PROCESSING = ''PROCESSING''"
| "es_value ES_SENT = ''SENT''"
| "es_value ES_FAILED = ''FAILED''"

definition es_members :: "email_status list" where
  "es_members = [ES_PENDING, ES_PROCESSING, ES_SENT, ES_FAILED]"

subsection \<open>Workflow stages and event types\<close>

datatype workflow_stage =
  VALIDATE_FRONTEND | VALIDATE_BACKEND | CREATE_RELEASE_BUNDLE | PROMOTE_BACKEND
| WAIT_BACKEND_DEPLOYMENT | PROMOTE_FRONTEND | WAIT_FRONTEND_DEPLOYMENT | COMPLETE_RELEASE
| COMPLETE_DEPLOYMENT | WAIT_PUBLISH_REQUEST | PREPARE_RELEASE_VERSION | PUBLISH_BACKEND_RELEASE
| PUBLISH_FRONTEND_RELEASE | COMPLETE_PUBLISH | VALIDATE_COMPONENT | PROMOTE_COMPONENT
| WAIT_COMPONENT_DEPLOYMENT | PUBLISH_COMPONENT_RELEASE

fun ws_value :: "workflow_stage \<Rightarrow> string" where
  "ws_value VALIDATE_FRONTEND = ''VALIDATE_FRONTEND''"
| "ws_value VALIDATE_BACKEND = ''VALIDATE_BACKEND''"
| "ws_value CREATE_RELEASE_BUNDLE = ''CREATE_RELEASE_BUNDLE''"
| "ws_value PROMOTE_BACKEND = ''PROMOTE_BACKEND''"
| "ws_value WAIT_BACKEND_DEPLOYMENT = ''WAIT_BACKEND_DEPLOYMENT''"
| "ws_value PROMOTE_FRONTEND = ''PROMOTE_FRONTEND''"
| "ws_value WAIT_FRONTEND_DEPLOYMENT = ''WAIT_FRONTEND_DEPLOYMENT''"
| "ws_value COMPLETE_RELEASE = ''COMPLETE_RELEASE''"
| "ws_value COMPLETE_DEPLOYMENT = ''COMPLETE_DEPLOYMENT''"
| "ws_value WAIT_PUBLISH_REQUEST = ''WAIT_PUBLISH_REQUEST''"
| "ws_value PREPARE_RELEASE_VERSION = ''PREPARE_RELEASE_VERSION''"
| "ws_value PUBLISH_BACKEND_RELEASE = ''PUBLISH_BACKEND_RELEASE''"
| "ws_value PUBLISH_FRONTEND_RELEASE = ''PUBLISH_FRONTEND_RELEASE''"
| "ws_value COMPLETE_PUBLISH = ''COMPLETE_PUBLISH''"
| "ws_value VALIDATE_COMPONENT = ''VALIDATE_COMPONENT''"
| "ws_value PROMOTE_COMPONENT = ''PROMOTE_COMPONENT''"
| "ws_value WAIT_COMPONENT_DEPLOYMENT = ''WAIT_COMPONENT_DEPLOYMENT''"
| "ws_value PUBLISH_COMPONENT_RELEASE = ''PUBLISH_COMPONENT_RELEASE''"

definition ws_members :: "workflow_stage list" where
  "ws_members = [VALIDATE_FRONTEND, VALIDATE_BACKEND, CREATE_RELEASE_BUNDLE, PROMOTE_BACKEND,
     WAIT_BACKEND_DEPLOYMENT, PROMOTE_FRONTEND, WAIT_FRONTEND_DEPLOYMENT, COMPLETE_RELEASE,
     COMPLETE_DEPLOYMENT, WAIT_PUBLISH_REQUEST, PREPARE_RELEASE_VERSION, PUBLISH_BACKEND_RELEASE,
     PUBLISH_FRONTEND_RELEASE, COMPLETE_PUBLISH, VALIDATE_COMPONENT, PROMOTE_COMPONENT,
     WAIT_COMPONENT_DEPLOYMENT, PUBLISH_COMPONENT_RELEASE]"

datatype event_type =
  STAGE_STARTED | STAGE_SUCCEEDED | STAGE_FAILED | DEPLOYMENT_CANCELLED | PROMOTION_CREATED
| DRONE_STATUS_CHANGED | RELEASE_COMPLETED | PUBLISH_REQUESTED | PUBLISH_STAGE_STARTED
| PUBLISH_STAGE_SUCCEEDED | PUBLISH_STAGE_FAILED | GITEA_RELEASE_CREATED
| GITEA_RELEASE_ALREADY_EXISTS | PUBLISH_COMPLETED | PUBLISH_PARTIAL_FAILURE
| UPSTREAM_UNAVAILABLE | UPSTREAM_RECOVERED | PROMOTION_UNCONFIRMED | PROMOTION_RECONCILED
| DEPLOYMENT_RETRIED | PUBLISH_RECONCILED | DEPLOYMENT_RESUMED

fun et_value :: "event_type \<Rightarrow> string" where
  "et_value STAGE_STARTED = ''STAGE_STARTED''"
| "et_value STAGE_SUCCEEDED = ''STAGE_SUCCEEDED''"
| "et_value STAGE_FAILED = ''STAGE_FAILED''"
| "et_value DEPLOYMENT_CANCELLED = ''DEPLOYMENT_CANCELLED''"
| "et_value PROMOTION_CREATED = ''PROMOTION_CREATED''"
| "et_value DRONE_STATUS_CHANGED = ''DRONE_STATUS_CHANGED''"
| "et_value RELEASE_COMPLETED = ''RELEASE_COMPLETED''"
| "et_value PUBLISH_REQUESTED = ''PUBLISH_REQUESTED''"
| "et_value PUBLISH_STAGE_STARTED = ''PUBLISH_STAGE_STARTED''"
| "et_value PUBLISH_STAGE_SUCCEEDED = ''PUBLISH_STAGE_SUCCEEDED''"
| "et_value PUBLISH_STAGE_FAILED = ''PUBLISH_STAGE_FAILED''"
| "et_value GITEA_RELEASE_CREATED = ''GITEA_RELEASE_CREATED''"
| "et_value GITEA_RELEASE_ALREADY_EXISTS = ''GITEA_RELEASE_ALREADY_EXISTS''"
| "et_value PUBLISH_COMPLETED = ''PUBLISH_COMPLETED''"
| "et_value PUBLISH_PARTIAL_FAILURE = ''PUBLISH_PARTIAL_FAILURE''"
| "et_value UPSTREAM_UNAVAILABLE = ''UPSTREAM_UNAVAILABLE''"
| "et_value UPSTREAM_RECOVERED = ''UPSTREAM_RECOVERED''"
| "et_value PROMOTION_UNCONFIRMED = ''PROMOTION_UNCONFIRMED''"
| "et_value PROMOTION_RECONCILED = ''PROMOTION_RECONCILED''"
| "et_value DEPLOYMENT_RETRIED = ''DEPLOYMENT_RETRIED''"
| "et_value PUBLISH_RECONCILED = ''PUBLISH_RECONCILED''"
| "et_value DEPLOYMENT_RESUMED = ''DEPLOYMENT_RESUMED''"

definition et_members :: "event_type list" where
  "et_members = [STAGE_STARTED, STAGE_SUCCEEDED, STAGE_FAILED, DEPLOYMENT_CANCELLED,
     PROMOTION_CREATED, DRONE_STATUS_CHANGED, RELEASE_COMPLETED, PUBLISH_REQUESTED,
     PUBLISH_STAGE_STARTED, PUBLISH_STAGE_SUCCEEDED, PUBLISH_STAGE_FAILED, GITEA_RELEASE_CREATED,
     GITEA_RELEASE_ALREADY_EXISTS, PUBLISH_COMPLETED, PUBLISH_PARTIAL_FAILURE,
     UPSTREAM_UNAVAILABLE, UPSTREAM_RECOVERED, PROMOTION_UNCONFIRMED, PROMOTION_RECONCILED,
     DEPLOYMENT_RETRIED, PUBLISH_RECONCILED, DEPLOYMENT_RESUMED]"

subsection \<open>Connection kind and probe result\<close>

datatype connection_kind = CK_DRONE | CK_GITEA

fun ck_value :: "connection_kind \<Rightarrow> string" where
  "ck_value CK_DRONE = ''drone''"
| "ck_value CK_GITEA = ''gitea''"

definition ck_members :: "connection_kind list" where
  "ck_members = [CK_DRONE, CK_GITEA]"

datatype verify_status = VS_OK | VS_UNAUTHORIZED | VS_UNREACHABLE | VS_KEY_MISMATCH

fun vs_value :: "verify_status \<Rightarrow> string" where
  "vs_value VS_OK = ''ok''"
| "vs_value VS_UNAUTHORIZED = ''unauthorized''"
| "vs_value VS_UNREACHABLE = ''unreachable''"
| "vs_value VS_KEY_MISMATCH = ''key_mismatch''"

definition vs_members :: "verify_status list" where
  "vs_members = [VS_OK, VS_UNAUTHORIZED, VS_UNREACHABLE, VS_KEY_MISMATCH]"

subsection \<open>Every enumeration is one\<close>

interpretation ds: str_enum ds_value ds_members
  by unfold_locales (case_tac m, auto simp: ds_members_def)

interpretation bs: str_enum bs_value bs_members
  by unfold_locales (case_tac m, auto simp: bs_members_def)

interpretation ps: str_enum ps_value ps_members
  by unfold_locales (case_tac m, auto simp: ps_members_def)

interpretation pr: str_enum pr_value pr_members
  by unfold_locales (case_tac m, auto simp: pr_members_def)

interpretation rm: str_enum rm_value rm_members
  by unfold_locales (case_tac m, auto simp: rm_members_def)

interpretation acs: str_enum as_value as_members
  by unfold_locales (case_tac m, auto simp: as_members_def)

interpretation rs: str_enum rs_value rs_members
  by unfold_locales (case_tac m, auto simp: rs_members_def)

interpretation ss: str_enum ss_value ss_members
  by unfold_locales (case_tac m, auto simp: ss_members_def)

interpretation es: str_enum es_value es_members
  by unfold_locales (case_tac m, auto simp: es_members_def)

interpretation ws: str_enum ws_value ws_members
  by unfold_locales (case_tac m, auto simp: ws_members_def)

interpretation et: str_enum et_value et_members
  by unfold_locales (case_tac m, auto simp: et_members_def)

interpretation ck: str_enum ck_value ck_members
  by unfold_locales (case_tac m, auto simp: ck_members_def)

interpretation vs: str_enum vs_value vs_members
  by unfold_locales (case_tac m, auto simp: vs_members_def)

subsection \<open>Which stage a component is in\<close>

text \<open>
  stages.py: the two historical components keep the stage names they always wrote; any
  other key is recorded under the component-agnostic stage.
\<close>

definition FRONTEND_KEY :: string where "FRONTEND_KEY = ''frontend''"
definition BACKEND_KEY :: string where "BACKEND_KEY = ''backend''"

definition promote_stage :: "string \<Rightarrow> workflow_stage" where
  "promote_stage key =
     (if key = FRONTEND_KEY then PROMOTE_FRONTEND
      else if key = BACKEND_KEY then PROMOTE_BACKEND else PROMOTE_COMPONENT)"

definition wait_stage :: "string \<Rightarrow> workflow_stage" where
  "wait_stage key =
     (if key = FRONTEND_KEY then WAIT_FRONTEND_DEPLOYMENT
      else if key = BACKEND_KEY then WAIT_BACKEND_DEPLOYMENT else WAIT_COMPONENT_DEPLOYMENT)"

definition validate_stage :: "string \<Rightarrow> workflow_stage" where
  "validate_stage key =
     (if key = FRONTEND_KEY then VALIDATE_FRONTEND
      else if key = BACKEND_KEY then VALIDATE_BACKEND else VALIDATE_COMPONENT)"

definition publish_stage :: "string \<Rightarrow> workflow_stage" where
  "publish_stage key =
     (if key = FRONTEND_KEY then PUBLISH_FRONTEND_RELEASE
      else if key = BACKEND_KEY then PUBLISH_BACKEND_RELEASE else PUBLISH_COMPONENT_RELEASE)"

lemma ws_value_nonempty [simp]: "ws_value s \<noteq> []"
  by (cases s) auto

lemma stage_distinct [simp]: "promote_stage k \<noteq> wait_stage k'" "wait_stage k \<noteq> promote_stage k'"
  by (auto simp: promote_stage_def wait_stage_def)

end
