(* ===== verification/Deployment_Entity.thy ===== *)
theory Deployment_Entity
  imports Orch_Types
begin

section \<open>The deployment entity: one promotion of one component\<close>

text \<open>
  app/domain/orchestration/entities/deployment.py. The record has the constructor's fields in
  the constructor's order of meaning; every method that changes the entity is a function from
  the record to the record (paired with what it returns). The functions are polymorphic in
  the record's extension, so that they apply to the database row of the same deployment too.
\<close>

record deployment =
  d_id :: string
  d_project_id :: string
  d_component_id :: string
  d_component :: string
  d_drone_connection_id :: string
  d_drone_owner :: string
  d_drone_repository :: string
  d_source_build_number :: int
  d_commit_sha :: string
  d_branch :: string
  d_target :: string
  d_status :: deployment_status
  d_created_at :: time
  d_updated_at :: time
  d_release_bundle_id :: "string option"
  d_promotion_build_number :: "int option"
  d_publish_status :: publish_status
  d_version :: "string option"
  d_gitea_release_id :: "string option"
  d_gitea_release_tag :: "string option"
  d_gitea_release_url :: "string option"
  d_current_stage :: "string option"
  d_failed_stage :: "string option"
  d_error_code :: "string option"
  d_error_message :: "string option"
  d_cancel_reason :: "string option"
  d_poll_error_code :: "string option"
  d_poll_error_message :: "string option"
  d_poll_failure_count :: int
  d_requested_by :: "string option"
  d_started_at :: "time option"
  d_failed_at :: "time option"
  d_cancelled_at :: "time option"
  d_finished_at :: "time option"
  d_publish_started_at :: "time option"
  d_published_at :: "time option"
  d_publish_failed_at :: "time option"
  d_publish_error_code :: "string option"
  d_publish_error_message :: "string option"

definition TERMINAL_STATUSES :: "deployment_status list" where
  "TERMINAL_STATUSES = [DS_SUCCESS, DS_FAILED, DS_CANCELLED]"

definition CLAIMABLE_FOR_PROMOTION :: "deployment_status list" where
  "CLAIMABLE_FOR_PROMOTION = [DS_WAITING]"

definition PROMOTION_UNCONFIRMED_CODE :: string where
  "PROMOTION_UNCONFIRMED_CODE = ''DRONE_PROMOTE_UNCONFIRMED''"

subsection \<open>Judgements\<close>

definition is_terminal :: "'a deployment_scheme \<Rightarrow> bool" where
  "is_terminal d \<longleftrightarrow> d_status d \<in> set TERMINAL_STATUSES"

definition is_claimable :: "'a deployment_scheme \<Rightarrow> bool" where
  "is_claimable d \<longleftrightarrow> d_status d \<in> set CLAIMABLE_FOR_PROMOTION"

definition dep_promote_stage :: "'a deployment_scheme \<Rightarrow> string" where
  "dep_promote_stage d = ws_value (promote_stage (d_component d))"

definition dep_wait_stage :: "'a deployment_scheme \<Rightarrow> string" where
  "dep_wait_stage d = ws_value (wait_stage (d_component d))"

definition active_stage :: "'a deployment_scheme \<Rightarrow> string" where
  "active_stage d = py_or (d_current_stage d) (dep_wait_stage d)"

definition awaits_promotion_outcome :: "'a deployment_scheme \<Rightarrow> bool" where
  "awaits_promotion_outcome d \<longleftrightarrow> d_promotion_build_number d = None"

text \<open>Seconds against microseconds: \<open>(now - started).total_seconds() > timeout_seconds\<close>.\<close>

definition has_timed_out :: "'a deployment_scheme \<Rightarrow> time \<Rightarrow> int \<Rightarrow> bool" where
  "has_timed_out d now timeout_seconds =
     (case d_started_at d of None \<Rightarrow> False
      | Some started \<Rightarrow> now - started > timeout_seconds * 1000000)"

subsection \<open>Transitions\<close>

definition claim_for_promotion :: "time \<Rightarrow> 'a deployment_scheme \<Rightarrow> string \<times> 'a deployment_scheme" where
  "claim_for_promotion at d =
     (let stage = dep_promote_stage d
      in (stage, d\<lparr>d_status := DS_PROMOTING, d_current_stage := Some stage,
            d_started_at := time_or (d_started_at d) at, d_updated_at := at\<rparr>))"

definition record_promotion :: "int \<Rightarrow> time \<Rightarrow> 'a deployment_scheme \<Rightarrow> 'a deployment_scheme" where
  "record_promotion number at d =
     d\<lparr>d_promotion_build_number := Some number, d_status := DS_DEPLOYING,
       d_current_stage := Some (dep_wait_stage d), d_updated_at := at\<rparr>"

definition mark_promotion_unconfirmed ::
    "string \<Rightarrow> time \<Rightarrow> 'a deployment_scheme \<Rightarrow> 'a deployment_scheme" where
  "mark_promotion_unconfirmed code at d =
     d\<lparr>d_poll_error_code := Some PROMOTION_UNCONFIRMED_CODE,
       d_poll_error_message := Some (''Drone did not confirm the promotion request ('' @ code @
         ''). Waiting to reconcile rather than promoting again.''),
       d_poll_failure_count := d_poll_failure_count d + 1,
       d_updated_at := at\<rparr>"

definition record_poll_failure ::
    "string \<Rightarrow> string \<Rightarrow> time \<Rightarrow> 'a deployment_scheme \<Rightarrow> bool \<times> 'a deployment_scheme" where
  "record_poll_failure code message at d =
     (let first_occurrence = (d_poll_error_code d \<noteq> Some code)
      in (first_occurrence,
          d\<lparr>d_poll_error_code := Some code, d_poll_error_message := Some message,
            d_poll_failure_count := d_poll_failure_count d + 1, d_updated_at := at\<rparr>))"

definition clear_poll_failure ::
    "time \<Rightarrow> 'a deployment_scheme \<Rightarrow> string option \<times> 'a deployment_scheme" where
  "clear_poll_failure at d =
     (case d_poll_error_code d of
        None \<Rightarrow> (None, d)
      | Some recovered_from \<Rightarrow>
          (Some recovered_from,
           d\<lparr>d_poll_error_code := None, d_poll_error_message := None,
             d_poll_failure_count := 0, d_updated_at := at\<rparr>))"

definition keep_deploying :: "time \<Rightarrow> 'a deployment_scheme \<Rightarrow> 'a deployment_scheme" where
  "keep_deploying at d = d\<lparr>d_status := DS_DEPLOYING, d_updated_at := at\<rparr>"

definition dep_succeed :: "time \<Rightarrow> 'a deployment_scheme \<Rightarrow> string \<times> 'a deployment_scheme" where
  "dep_succeed at d =
     (active_stage d,
      d\<lparr>d_status := DS_SUCCESS, d_current_stage := None, d_finished_at := Some at,
        d_updated_at := at\<rparr>)"

definition dep_fail ::
    "string \<Rightarrow> string \<Rightarrow> string \<Rightarrow> time \<Rightarrow> 'a deployment_scheme \<Rightarrow> 'a deployment_scheme" where
  "dep_fail failed_stage error_code error_message at d =
     d\<lparr>d_status := DS_FAILED, d_current_stage := None, d_failed_stage := Some failed_stage,
       d_error_code := Some error_code, d_error_message := Some error_message,
       d_failed_at := Some at, d_finished_at := Some at, d_updated_at := at\<rparr>"

definition dep_cancel :: "string \<Rightarrow> time \<Rightarrow> 'a deployment_scheme \<Rightarrow> 'a deployment_scheme" where
  "dep_cancel reason at d =
     d\<lparr>d_status := DS_CANCELLED, d_current_stage := None, d_cancel_reason := Some reason,
       d_cancelled_at := Some at, d_finished_at := Some at, d_updated_at := at\<rparr>"

definition dep_reset_for_retry ::
    "time \<Rightarrow> 'a deployment_scheme \<Rightarrow> (deployment_status \<times> string option) \<times> 'a deployment_scheme" where
  "dep_reset_for_retry at d =
     ((d_status d, d_error_code d),
      d\<lparr>d_status := DS_WAITING, d_current_stage := None, d_promotion_build_number := None,
        d_failed_stage := None, d_error_code := None, d_error_message := None,
        d_cancel_reason := None, d_cancelled_at := None, d_failed_at := None,
        d_finished_at := None, d_poll_error_code := None, d_poll_error_message := None,
        d_poll_failure_count := 0, d_started_at := None, d_updated_at := at\<rparr>)"

lemmas dep_transition_defs =
  claim_for_promotion_def record_promotion_def mark_promotion_unconfirmed_def
  record_poll_failure_def clear_poll_failure_def keep_deploying_def dep_succeed_def
  dep_fail_def dep_cancel_def dep_reset_for_retry_def Let_def

lemmas dep_judgement_defs =
  is_terminal_def is_claimable_def TERMINAL_STATUSES_def CLAIMABLE_FOR_PROMOTION_def
  awaits_promotion_outcome_def

subsection \<open>The entity as a state machine\<close>

text \<open>
  The module's diagram is the protocol of its callers: the methods themselves check nothing.
  The relation below has one rule per arrow, each with the guard its callers establish
  before the call (claim after the conditional UPDATE, record/unconfirmed while PROMOTING,
  the poll outcomes while in flight, cancel of a WAITING sibling, reset of what ended
  without success).
\<close>

inductive dep_step :: "deployment \<Rightarrow> deployment \<Rightarrow> bool" where
  claim: "is_claimable d \<Longrightarrow> dep_step d (snd (claim_for_promotion at d))"
| promoted: "d_status d = DS_PROMOTING \<Longrightarrow> dep_step d (record_promotion n at d)"
| unconfirmed: "d_status d = DS_PROMOTING \<Longrightarrow> dep_step d (mark_promotion_unconfirmed code at d)"
| poll_failed: "d_status d \<in> {DS_PROMOTING, DS_DEPLOYING} \<Longrightarrow>
     dep_step d (snd (record_poll_failure code msg at d))"
| poll_cleared: "d_status d \<in> {DS_PROMOTING, DS_DEPLOYING} \<Longrightarrow>
     dep_step d (snd (clear_poll_failure at d))"
| still_running: "d_status d = DS_DEPLOYING \<Longrightarrow> dep_step d (keep_deploying at d)"
| succeeded: "d_status d = DS_DEPLOYING \<Longrightarrow> dep_step d (snd (dep_succeed at d))"
| failed: "d_status d \<in> {DS_PROMOTING, DS_DEPLOYING} \<Longrightarrow>
     dep_step d (dep_fail stage code msg at d)"
| cancelled: "d_status d = DS_WAITING \<Longrightarrow> dep_step d (dep_cancel reason at d)"
| retried: "d_status d \<in> {DS_FAILED, DS_CANCELLED} \<Longrightarrow>
     dep_step d (snd (dep_reset_for_retry at d))"

text \<open>A freshly created deployment: WAITING, nothing recorded yet.\<close>

definition dep_fresh :: "'a deployment_scheme \<Rightarrow> bool" where
  "dep_fresh d \<longleftrightarrow>
     d_status d = DS_WAITING \<and> d_current_stage d = None \<and> d_promotion_build_number d = None \<and>
     d_failed_stage d = None \<and> d_error_code d = None \<and> d_error_message d = None \<and>
     d_cancel_reason d = None \<and> d_poll_error_code d = None \<and> d_poll_error_message d = None \<and>
     d_poll_failure_count d = 0 \<and> d_started_at d = None \<and> d_failed_at d = None \<and>
     d_cancelled_at d = None \<and> d_finished_at d = None"

inductive dep_reachable :: "deployment \<Rightarrow> bool" where
  created: "dep_fresh d \<Longrightarrow> dep_reachable d"
| stepped: "dep_reachable d \<Longrightarrow> dep_step d e \<Longrightarrow> dep_reachable e"

text \<open>
  What the fields say about the status, whatever has happened: a stage is recorded exactly
  while in flight, \<open>finished_at\<close> exactly when terminal, an error exactly when FAILED, a
  cancel reason exactly when CANCELLED; a WAITING deployment has no promotion build and no
  clock running; a DEPLOYING or SUCCESS one has both.
\<close>

definition dep_inv :: "'a deployment_scheme \<Rightarrow> bool" where
  "dep_inv d \<longleftrightarrow>
     (d_current_stage d = None \<longleftrightarrow> d_status d \<notin> {DS_PROMOTING, DS_DEPLOYING}) \<and>
     (d_status d = DS_PROMOTING \<longrightarrow> d_current_stage d = Some (dep_promote_stage d)) \<and>
     (d_status d = DS_DEPLOYING \<longrightarrow> d_current_stage d = Some (dep_wait_stage d)) \<and>
     (d_finished_at d \<noteq> None \<longleftrightarrow> is_terminal d) \<and>
     (d_error_code d \<noteq> None \<longleftrightarrow> d_status d = DS_FAILED) \<and>
     (d_failed_stage d \<noteq> None \<longleftrightarrow> d_status d = DS_FAILED) \<and>
     (d_failed_at d \<noteq> None \<longleftrightarrow> d_status d = DS_FAILED) \<and>
     (d_cancel_reason d \<noteq> None \<longleftrightarrow> d_status d = DS_CANCELLED) \<and>
     (d_status d \<in> {DS_WAITING, DS_PROMOTING} \<longrightarrow> d_promotion_build_number d = None) \<and>
     (d_status d \<in> {DS_DEPLOYING, DS_SUCCESS} \<longrightarrow> d_promotion_build_number d \<noteq> None) \<and>
     (d_started_at d \<noteq> None \<longleftrightarrow> d_status d \<notin> {DS_WAITING, DS_CANCELLED}) \<and>
     (d_poll_error_code d = None \<longleftrightarrow> d_poll_failure_count d = 0) \<and>
     0 \<le> d_poll_failure_count d"

lemma dep_inv_fresh: "dep_fresh d \<Longrightarrow> dep_inv d"
  by (simp add: dep_fresh_def dep_inv_def dep_judgement_defs)

lemma active_stage_in_flight:
  "dep_inv d \<Longrightarrow> d_status d = DS_DEPLOYING \<Longrightarrow> active_stage d = dep_wait_stage d"
  by (simp add: dep_inv_def active_stage_def dep_wait_stage_def)

text \<open>One preservation lemma per operation, then the step relation.\<close>

lemma dep_inv_claim: "dep_inv d \<Longrightarrow> is_claimable d \<Longrightarrow> dep_inv (snd (claim_for_promotion at d))"
  by (simp add: dep_inv_def claim_for_promotion_def Let_def dep_judgement_defs dep_promote_stage_def)

lemma dep_inv_record_promotion:
  "dep_inv d \<Longrightarrow> d_status d = DS_PROMOTING \<Longrightarrow> dep_inv (record_promotion n at d)"
  by (simp add: dep_inv_def record_promotion_def dep_judgement_defs dep_wait_stage_def)

lemma dep_inv_poll_fields:
  assumes "dep_inv d" and "0 \<le> n" and "c = None \<longleftrightarrow> n = 0"
  shows "dep_inv (d\<lparr>d_poll_error_code := c, d_poll_error_message := m,
           d_poll_failure_count := n, d_updated_at := at\<rparr>)"
  using assms
  by (simp add: dep_inv_def dep_judgement_defs dep_promote_stage_def dep_wait_stage_def)

lemma dep_inv_count: "dep_inv d \<Longrightarrow> 0 \<le> d_poll_failure_count d"
  by (simp add: dep_inv_def)

lemma dep_inv_unconfirmed: "dep_inv d \<Longrightarrow> dep_inv (mark_promotion_unconfirmed code at d)"
  using dep_inv_count [of d] by (simp add: mark_promotion_unconfirmed_def dep_inv_poll_fields)

lemma dep_inv_poll_failure: "dep_inv d \<Longrightarrow> dep_inv (snd (record_poll_failure code msg at d))"
  using dep_inv_count [of d] by (simp add: record_poll_failure_def Let_def dep_inv_poll_fields)

lemma dep_inv_clear: "dep_inv d \<Longrightarrow> dep_inv (snd (clear_poll_failure at d))"
  by (cases "d_poll_error_code d") (simp_all add: clear_poll_failure_def dep_inv_poll_fields)

lemma dep_inv_keep: "dep_inv d \<Longrightarrow> d_status d = DS_DEPLOYING \<Longrightarrow> dep_inv (keep_deploying at d)"
  by (simp add: dep_inv_def keep_deploying_def dep_judgement_defs dep_wait_stage_def)

lemma dep_inv_succeed: "dep_inv d \<Longrightarrow> d_status d = DS_DEPLOYING \<Longrightarrow> dep_inv (snd (dep_succeed at d))"
  by (simp add: dep_inv_def dep_succeed_def dep_judgement_defs)

lemma dep_inv_fail:
  "dep_inv d \<Longrightarrow> d_status d \<in> {DS_PROMOTING, DS_DEPLOYING} \<Longrightarrow> dep_inv (dep_fail stage code msg at d)"
  by (elim insertE) (simp_all add: dep_inv_def dep_fail_def dep_judgement_defs)

lemma dep_inv_cancel: "dep_inv d \<Longrightarrow> d_status d = DS_WAITING \<Longrightarrow> dep_inv (dep_cancel reason at d)"
  by (simp add: dep_inv_def dep_cancel_def dep_judgement_defs)

lemma dep_inv_reset: "dep_inv (snd (dep_reset_for_retry at d))"
  by (simp add: dep_inv_def dep_reset_for_retry_def dep_judgement_defs)

lemmas dep_inv_intros =
  dep_inv_claim dep_inv_record_promotion dep_inv_unconfirmed dep_inv_poll_failure dep_inv_clear
  dep_inv_keep dep_inv_succeed dep_inv_fail dep_inv_cancel dep_inv_reset

lemma dep_step_inv: "dep_step d e \<Longrightarrow> dep_inv d \<Longrightarrow> dep_inv e"
  by (induction rule: dep_step.induct) (blast intro: dep_inv_intros)+

lemma dep_reachable_inv: "dep_reachable d \<Longrightarrow> dep_inv d"
  by (induction rule: dep_reachable.induct) (auto intro: dep_inv_fresh dep_step_inv)

text \<open>Identity, coordinates and the publish side are outside the lifecycle.\<close>

definition dep_identity :: "'a deployment_scheme \<Rightarrow> (string list \<times> int \<times> string option) \<times> time" where
  "dep_identity d =
     (([d_id d, d_project_id d, d_component_id d, d_component d, d_drone_connection_id d,
        d_drone_owner d, d_drone_repository d, d_commit_sha d, d_branch d, d_target d],
       d_source_build_number d, d_release_bundle_id d), d_created_at d)"

definition dep_publish_side :: "'a deployment_scheme \<Rightarrow>
    publish_status \<times> string option list \<times> time option list" where
  "dep_publish_side d =
     (d_publish_status d,
      [d_version d, d_gitea_release_id d, d_gitea_release_tag d, d_gitea_release_url d,
       d_publish_error_code d, d_publish_error_message d],
      [d_publish_started_at d, d_published_at d, d_publish_failed_at d])"

lemma dep_step_frame:
  "dep_step d e \<Longrightarrow> dep_identity e = dep_identity d \<and> dep_publish_side e = dep_publish_side d"
  by (induction rule: dep_step.induct)
    (auto simp: dep_identity_def dep_publish_side_def dep_transition_defs split: option.splits)

text \<open>Which statuses follow which.\<close>

definition dep_arrow :: "deployment_status \<Rightarrow> deployment_status \<Rightarrow> bool" where
  "dep_arrow s t \<longleftrightarrow> t = s \<or>
     (s, t) \<in> {(DS_WAITING, DS_PROMOTING), (DS_WAITING, DS_CANCELLED),
               (DS_PROMOTING, DS_DEPLOYING), (DS_PROMOTING, DS_FAILED),
               (DS_DEPLOYING, DS_SUCCESS), (DS_DEPLOYING, DS_FAILED),
               (DS_FAILED, DS_WAITING), (DS_CANCELLED, DS_WAITING)}"

lemma dep_step_arrow: "dep_step d e \<Longrightarrow> dep_arrow (d_status d) (d_status e)"
  by (induction rule: dep_step.induct)
    (auto simp: dep_arrow_def dep_transition_defs dep_judgement_defs split: option.splits)

lemma success_is_final: "\<not> (\<exists>e. dep_step d e) \<longleftrightarrow> d_status d = DS_SUCCESS"
proof (cases "d_status d")
  case DS_SUCCESS
  then show ?thesis by (auto elim!: dep_step.cases simp: dep_judgement_defs)
qed (auto intro: dep_step.intros simp: dep_judgement_defs)

end
