(* ===== verification/Bundle_Entity.thy ===== *)
theory Bundle_Entity
  imports Deployment_Entity
begin

section \<open>The release bundle entity: a release over several components\<close>

text \<open>
  app/domain/orchestration/entities/release_bundle.py. A bundle has no state machine of its
  own: its status is what its deployments amount to. The module has two rules, what to do
  next (\<open>next_decision\<close>) and which kind of failure this is (\<open>bundle_fail\<close>).
\<close>

record release_bundle =
  b_id :: string
  b_mode :: release_mode
  b_target :: string
  b_status :: bundle_status
  b_deployment_status :: bundle_status
  b_created_at :: time
  b_updated_at :: time
  b_project_id :: "string option"
  b_selected_component_keys :: "string option"
  b_publish_status :: publish_status
  b_version :: "string option"
  b_release_name :: "string option"
  b_release_notes :: "string option"
  b_workflow_instance_id :: "string option"
  b_current_stage :: "string option"
  b_failed_stage :: "string option"
  b_error_code :: "string option"
  b_error_message :: "string option"
  b_requested_by :: "string option"
  b_started_at :: "time option"
  b_failed_at :: "time option"
  b_finished_at :: "time option"
  b_publish_started_at :: "time option"
  b_published_at :: "time option"
  b_publish_failed_at :: "time option"
  b_publish_error_code :: "string option"
  b_publish_error_message :: "string option"

definition IN_FLIGHT_STATUSES :: "deployment_status list" where
  "IN_FLIGHT_STATUSES = [DS_PROMOTING, DS_DEPLOYING]"

text \<open>The decision as data: the action, with the deployment it is about.\<close>

datatype 'd bundle_decision = Refresh 'd | Promote 'd | Fail 'd | Finish | Wait 'd

text \<open>The loop of \<open>next_decision\<close>: stop at the first step that has not succeeded.\<close>

fun next_decision :: "'a deployment_scheme list \<Rightarrow> 'a deployment_scheme bundle_decision" where
  "next_decision [] = Finish"
| "next_decision (step # rest) =
     (if d_status step \<in> set IN_FLIGHT_STATUSES then Refresh step
      else if d_status step = DS_WAITING then Promote step
      else if d_status step = DS_FAILED then Fail step
      else if d_status step \<noteq> DS_SUCCESS then Wait step
      else next_decision rest)"

definition cancellation_reason :: "'a deployment_scheme \<Rightarrow> string" where
  "cancellation_reason failed = capitalize (d_component failed) @ '' deployment failed''"

definition bundle_mirror ::
    "bundle_status \<Rightarrow> string option \<Rightarrow> time \<Rightarrow> 'a release_bundle_scheme \<Rightarrow> 'a release_bundle_scheme" where
  "bundle_mirror status stage at b =
     b\<lparr>b_status := status, b_deployment_status := status, b_current_stage := stage,
       b_started_at := time_or (b_started_at b) at, b_updated_at := at\<rparr>"

definition bundle_fail ::
    "'d deployment_scheme \<Rightarrow> bool \<Rightarrow> time \<Rightarrow> 'a release_bundle_scheme \<Rightarrow> bundle_status \<times> 'a release_bundle_scheme" where
  "bundle_fail failed any_succeeded at b =
     (let status = (if any_succeeded then BS_PARTIAL_FAILURE else BS_FAILED)
      in (status,
          b\<lparr>b_status := status, b_deployment_status := status, b_current_stage := None,
            b_failed_stage := d_failed_stage failed, b_error_code := d_error_code failed,
            b_error_message := d_error_message failed, b_failed_at := Some at,
            b_finished_at := Some at, b_updated_at := at\<rparr>))"

definition bundle_finish_success :: "time \<Rightarrow> 'a release_bundle_scheme \<Rightarrow> 'a release_bundle_scheme" where
  "bundle_finish_success at b =
     b\<lparr>b_status := BS_SUCCESS, b_deployment_status := BS_SUCCESS, b_current_stage := None,
       b_finished_at := Some at, b_updated_at := at\<rparr>"

lemmas bundle_transition_defs =
  bundle_mirror_def bundle_fail_def bundle_finish_success_def Let_def

subsection \<open>What the decision is\<close>

text \<open>
  The specification: look at the first step that has not succeeded. It exists iff the
  decision is not Finish, everything before it has succeeded, and its status alone decides.
\<close>

definition decision_for :: "'a deployment_scheme \<Rightarrow> 'a deployment_scheme bundle_decision" where
  "decision_for d =
     (case d_status d of
        DS_WAITING \<Rightarrow> Promote d | DS_PROMOTING \<Rightarrow> Refresh d | DS_DEPLOYING \<Rightarrow> Refresh d
      | DS_FAILED \<Rightarrow> Fail d | DS_CANCELLED \<Rightarrow> Wait d | DS_SUCCESS \<Rightarrow> Finish)"

lemma next_decision_Cons:
  "next_decision (step # rest) =
     (if d_status step = DS_SUCCESS then next_decision rest else decision_for step)"
  by (cases "d_status step") (simp_all add: IN_FLIGHT_STATUSES_def decision_for_def)

lemma next_decision_spec:
  "next_decision ds =
     (case dropWhile (\<lambda>d. d_status d = DS_SUCCESS) ds of [] \<Rightarrow> Finish | d # _ \<Rightarrow> decision_for d)"
proof (induction ds)
  case Nil
  then show ?case by simp
next
  case (Cons d ds)
  then show ?case by (subst next_decision_Cons) simp
qed

lemma decision_for_not_Finish: "d_status d \<noteq> DS_SUCCESS \<Longrightarrow> decision_for d \<noteq> Finish"
  by (cases "d_status d") (auto simp: decision_for_def)

lemma next_decision_Finish: "next_decision ds = Finish \<longleftrightarrow> (\<forall>d \<in> set ds. d_status d = DS_SUCCESS)"
  by (induction ds)
    (auto simp: next_decision_Cons decision_for_not_Finish simp del: next_decision.simps(2))

lemma next_decision_split:
  assumes "next_decision ds \<noteq> Finish"
  obtains pre d post where "ds = pre @ d # post" "\<forall>p \<in> set pre. d_status p = DS_SUCCESS"
    "d_status d \<noteq> DS_SUCCESS" "next_decision ds = decision_for d"
proof -
  from assms have ne: "dropWhile (\<lambda>d. d_status d = DS_SUCCESS) ds \<noteq> []"
    by (auto simp: next_decision_Finish dropWhile_eq_Nil_conv)
  then obtain d post where dp: "dropWhile (\<lambda>d. d_status d = DS_SUCCESS) ds = d # post"
    by (cases "dropWhile (\<lambda>d. d_status d = DS_SUCCESS) ds") auto
  let ?pre = "takeWhile (\<lambda>d. d_status d = DS_SUCCESS) ds"
  have "ds = ?pre @ d # post"
    using takeWhile_dropWhile_id [of "\<lambda>d. d_status d = DS_SUCCESS" ds] dp by simp
  moreover have "\<forall>p \<in> set ?pre. d_status p = DS_SUCCESS"
    by (auto dest: set_takeWhileD)
  moreover have "d_status d \<noteq> DS_SUCCESS"
    using hd_dropWhile [of "\<lambda>d. d_status d = DS_SUCCESS" ds] dp by auto
  moreover have "next_decision ds = decision_for d"
    using dp by (simp add: next_decision_spec)
  ultimately show thesis by (rule that)
qed

text \<open>Which statuses a bundle holds once it stopped.\<close>

definition bundle_terminal :: "'a release_bundle_scheme \<Rightarrow> bool" where
  "bundle_terminal b \<longleftrightarrow> b_status b \<in> {BS_SUCCESS, BS_FAILED, BS_PARTIAL_FAILURE}"

text \<open>The status and its deployment-side copy are written together by every method.\<close>

lemma bundle_status_in_step:
  "b_status (bundle_mirror s st at b) = b_deployment_status (bundle_mirror s st at b)"
  "b_status (snd (bundle_fail f a at b)) = b_deployment_status (snd (bundle_fail f a at b))"
  "b_status (bundle_finish_success at b) = b_deployment_status (bundle_finish_success at b)"
  by (simp_all add: bundle_transition_defs)

end
