(* ===== verification/RC_Errors.thy ===== *)
theory RC_Errors
  imports Orch_Types
begin

section \<open>Exceptions as values\<close>

text \<open>
  Every exception class the modelled code raises or catches, with the arguments its handlers
  read. A function that can raise returns \<open>exn + 'a\<close>: \<open>Inl\<close> is the raise, \<open>Inr\<close> the
  return. \<open>error_code_of\<close> is \<open>getattr(exc, "error_code", ...)\<close>.
\<close>

datatype drone_error =
  DroneConnectionError | DroneAuthenticationError | DroneNotFoundError | DronePromoteError
| DroneTimeoutError | DroneUnexpectedResponseError

fun drone_error_code :: "drone_error \<Rightarrow> string" where
  "drone_error_code DroneConnectionError = ''DRONE_UNAVAILABLE''"
| "drone_error_code DroneAuthenticationError = ''DRONE_AUTH_FAILED''"
| "drone_error_code DroneNotFoundError = ''BUILD_NOT_FOUND''"
| "drone_error_code DronePromoteError = ''DRONE_PROMOTE_FAILED''"
| "drone_error_code DroneTimeoutError = ''DRONE_TIMEOUT''"
| "drone_error_code DroneUnexpectedResponseError = ''DRONE_UNAVAILABLE''"

datatype gitea_error =
  GiteaConnectionError | GiteaAuthenticationError | GiteaNotFoundError | GiteaConflictError
| GiteaReleaseError | GiteaTimeoutError | GiteaUnexpectedResponseError

fun gitea_error_code :: "gitea_error \<Rightarrow> string" where
  "gitea_error_code GiteaConnectionError = ''GITEA_UNAVAILABLE''"
| "gitea_error_code GiteaAuthenticationError = ''GITEA_AUTH_FAILED''"
| "gitea_error_code GiteaNotFoundError = ''GITEA_REPO_NOT_FOUND''"
| "gitea_error_code GiteaConflictError = ''RELEASE_ALREADY_EXISTS''"
| "gitea_error_code GiteaReleaseError = ''RELEASE_CREATE_FAILED''"
| "gitea_error_code GiteaTimeoutError = ''GITEA_TIMEOUT''"
| "gitea_error_code GiteaUnexpectedResponseError = ''RELEASE_CREATE_FAILED''"

datatype exn =
  DroneError drone_error string
| GiteaError gitea_error string
| DroneConfigurationError string
| BuildNotFoundError
| BuildNotPromotableError string
| TokenDecryptionError
| ComponentNotRegisteredError string
| NoDefaultProjectError string
| ProjectNotRegisteredError string
| ConnectionNotFoundError string
| ConnectionNameTakenError string
| ConnectionInUseError string
| NoDefaultConnectionError string
| ProjectNotFoundError
| ComponentNotFoundError string
| ProjectKeyTakenError string
| ComponentKeyTakenError string
| ComponentSlotConflictError string
| ComponentInUseError string
| DeploymentNotFoundError
| DuplicatePromotionError string
| BundleNotFoundError
| BundleNotRetryableError string
| ComponentNotSelectableError string
| DeploymentNotPublishableError string
| PublishStateError string
| PublishConfigurationError string
| TagAlreadyExistsDifferentCommit string
| ReleaseNotFoundError
| DuplicateReleaseError
| InvalidReleaseTransitionError release_status release_status
| WorkflowStepError string
| ValueError string
| MCPToolError string string
| UpstreamPromotionError string string bool
| UpstreamUnavailable string string
| IntegrityError
| ValidationError
| AttributeError
| AssertionError
| KeyError string
| CIError string int
| ScheduleNotFoundError
| InvalidScheduleTransitionError string
| IndexError
| DuplicateNotificationRecipientError
| NotificationRecipientNotFoundError

fun error_code_of :: "exn \<Rightarrow> string option" where
  "error_code_of (DroneError k _) = Some (drone_error_code k)"
| "error_code_of (GiteaError k _) = Some (gitea_error_code k)"
| "error_code_of (PublishConfigurationError _) = Some ''GITEA_REPO_NOT_FOUND''"
| "error_code_of (TagAlreadyExistsDifferentCommit _) = Some ''TAG_ALREADY_EXISTS_DIFFERENT_COMMIT''"
| "error_code_of (UpstreamPromotionError c _ _) = Some c"
| "error_code_of (UpstreamUnavailable c _) = Some c"
| "error_code_of _ = None"

text \<open>A Python \<open>repr\<close> of a string without quotes or escapes in it.\<close>

definition repr :: "string \<Rightarrow> string" where
  "repr s = CHR 0x27 # s @ [CHR 0x27]"

text \<open>
  The three ways a promote can end without an answer. Matching is by code, so the classes
  that share a code share the verdict.
\<close>

definition UNCONFIRMED_PROMOTE_ERROR_CODES :: "string list" where
  "UNCONFIRMED_PROMOTE_ERROR_CODES =
     [drone_error_code DroneTimeoutError, drone_error_code DroneConnectionError,
      drone_error_code DroneUnexpectedResponseError]"

lemma unconfirmed_codes_iff:
  "drone_error_code k \<in> set UNCONFIRMED_PROMOTE_ERROR_CODES \<longleftrightarrow>
     k \<in> {DroneTimeoutError, DroneConnectionError, DroneUnexpectedResponseError}"
  by (cases k) (auto simp: UNCONFIRMED_PROMOTE_ERROR_CODES_def)

end
