(* ===== verification/Registry_Project.thy ===== *)
theory Registry_Project
  imports RC_Errors "HOL-Library.Multiset"
begin

section \<open>Projects and their components\<close>

text \<open>
  app/domain/registry/entities/project.py. A project is the aggregate root: positions, key
  uniqueness and the promotion-slot conflict are properties of the whole list of components.
  The database row of a component lacks the three values a component inherits from its
  project; the entity is the row extended by them, and a project is its row extended by its
  components.
\<close>

record component_row =
  c_id :: string
  c_project_id :: string
  c_key :: string
  c_display_name :: string
  c_position :: int
  c_drone_owner :: string
  c_drone_repo :: string
  c_promote_target_override :: "string option"
  c_drone_connection_id :: "string option"
  c_publish_enabled :: bool
  c_gitea_owner :: "string option"
  c_gitea_repo :: "string option"
  c_gitea_connection_id :: "string option"
  c_tag_prefix :: string
  c_is_active :: bool
  c_created_at :: time
  c_updated_at :: time

record component = component_row +
  c_project_default_target :: string
  c_project_drone_connection_id :: "string option"
  c_project_gitea_connection_id :: "string option"

record project_row =
  p_id :: string
  p_key :: string
  p_name :: string
  p_description :: "string option"
  p_default_target :: string
  p_drone_connection_id :: "string option"
  p_gitea_connection_id :: "string option"
  p_is_archived :: bool
  p_created_at :: time
  p_updated_at :: time

record project = project_row +
  p_components :: "component list"

definition UNRESOLVED :: string where "UNRESOLVED = ''<unresolved>''"

type_synonym slot_key = "string \<times> string \<times> string \<times> string"

subsection \<open>One component\<close>

definition drone_slug :: "'a component_row_scheme \<Rightarrow> string" where
  "drone_slug c = c_drone_owner c @ ''/'' @ c_drone_repo c"

definition effective_target :: "component \<Rightarrow> string" where
  "effective_target c = py_or (c_promote_target_override c) (c_project_default_target c)"

definition gitea_slug :: "'a component_row_scheme \<Rightarrow> string option" where
  "gitea_slug c =
     (if py_truthy (c_gitea_owner c) \<and> py_truthy (c_gitea_repo c)
      then Some (the (c_gitea_owner c) @ ''/'' @ the (c_gitea_repo c)) else None)"

definition assert_publishable :: "component \<Rightarrow> exn + unit" where
  "assert_publishable c =
     (if c_publish_enabled c \<and> \<not> (py_truthy (c_gitea_owner c) \<and> py_truthy (c_gitea_repo c))
      then Inl (ComponentSlotConflictError (''Component '' @ repr (c_key c) @
        '' has publishing enabled but no Gitea repository. Set gitea_owner and gitea_repo, '' @
        ''or turn publish_enabled off.''))
      else Inr ())"

text \<open>\<open>key.replace("-", " ").title()\<close>: upper case at the start of every run of letters.\<close>

definition is_letter :: "char \<Rightarrow> bool" where
  "is_letter c = (let n = (of_char (lower_char c) :: nat) in 97 \<le> n \<and> n \<le> 122)"

fun title_from :: "bool \<Rightarrow> string \<Rightarrow> string" where
  "title_from _ [] = []"
| "title_from inside (c # cs) =
     (if is_letter c then (if inside then lower_char c else upper_char c) # title_from True cs
      else c # title_from False cs)"

definition default_display_name :: "string \<Rightarrow> string" where
  "default_display_name key = title_from False (map (\<lambda>c. if c = CHR ''-'' then CHR '' '' else c) key)"

text \<open>\<open>Component.create\<close>: the id is the uuid the code draws.\<close>

definition component_create ::
    "string \<Rightarrow> string \<Rightarrow> string \<Rightarrow> string \<Rightarrow> string \<Rightarrow> int \<Rightarrow> string \<Rightarrow> time \<Rightarrow>
     string option \<Rightarrow> string option \<Rightarrow> string option \<Rightarrow> string option \<Rightarrow> string option \<Rightarrow>
     bool \<Rightarrow> string option \<Rightarrow> string option \<Rightarrow> string option \<Rightarrow> string \<Rightarrow> bool \<Rightarrow> exn + component" where
  "component_create new_id project_id key drone_owner drone_repo position project_default_target
     now project_drone_connection_id project_gitea_connection_id display_name
     promote_target_override drone_connection_id publish_enabled gitea_owner gitea_repo
     gitea_connection_id tag_prefix is_active =
     (let c = \<lparr>c_id = new_id, c_project_id = project_id, c_key = key,
         c_display_name = py_or display_name (default_display_name key), c_position = position,
         c_drone_owner = drone_owner, c_drone_repo = drone_repo,
         c_promote_target_override = promote_target_override,
         c_drone_connection_id = drone_connection_id, c_publish_enabled = publish_enabled,
         c_gitea_owner = gitea_owner, c_gitea_repo = gitea_repo,
         c_gitea_connection_id = gitea_connection_id, c_tag_prefix = tag_prefix,
         c_is_active = is_active, c_created_at = now, c_updated_at = now,
         c_project_default_target = project_default_target,
         c_project_drone_connection_id = project_drone_connection_id,
         c_project_gitea_connection_id = project_gitea_connection_id\<rparr>
      in case assert_publishable c of Inl e \<Rightarrow> Inl e | Inr _ \<Rightarrow> Inr c)"

text \<open>The PATCH of a component: None means "leave this field".\<close>

record component_patch =
  cu_display_name :: "string option"
  cu_drone_owner :: "string option"
  cu_drone_repo :: "string option"
  cu_promote_target_override :: "string option"
  cu_clear_promote_target_override :: bool
  cu_drone_connection_id :: "string option"
  cu_publish_enabled :: "bool option"
  cu_gitea_owner :: "string option"
  cu_gitea_repo :: "string option"
  cu_gitea_connection_id :: "string option"
  cu_tag_prefix :: "string option"
  cu_is_active :: "bool option"

text \<open>\<open>if x is not None: field = x\<close>, for an optional and for a plain field.\<close>

definition set_opt :: "'v option \<Rightarrow> 'v option \<Rightarrow> 'v option" where
  "set_opt new old = (case new of None \<Rightarrow> old | Some v \<Rightarrow> Some v)"

definition set_val :: "'v option \<Rightarrow> 'v \<Rightarrow> 'v" where
  "set_val new old = (case new of None \<Rightarrow> old | Some v \<Rightarrow> v)"

lemma set_simps [simp]:
  "set_opt None v = v" "set_opt (Some w) v = Some w" "set_val None u = u" "set_val (Some x) u = x"
  by (auto simp: set_opt_def set_val_def)

definition component_apply_update :: "time \<Rightarrow> component_patch \<Rightarrow> component \<Rightarrow> exn + component" where
  "component_apply_update at u c =
     (let c' = c\<lparr>
         c_drone_connection_id := set_opt (cu_drone_connection_id u) (c_drone_connection_id c),
         c_gitea_connection_id := set_opt (cu_gitea_connection_id u) (c_gitea_connection_id c),
         c_display_name := set_val (cu_display_name u) (c_display_name c),
         c_drone_owner := set_val (cu_drone_owner u) (c_drone_owner c),
         c_drone_repo := set_val (cu_drone_repo u) (c_drone_repo c),
         c_promote_target_override :=
           (if cu_clear_promote_target_override u then None
            else set_opt (cu_promote_target_override u) (c_promote_target_override c)),
         c_publish_enabled := set_val (cu_publish_enabled u) (c_publish_enabled c),
         c_gitea_owner := set_opt (cu_gitea_owner u) (c_gitea_owner c),
         c_gitea_repo := set_opt (cu_gitea_repo u) (c_gitea_repo c),
         c_tag_prefix := set_val (cu_tag_prefix u) (c_tag_prefix c),
         c_is_active := set_val (cu_is_active u) (c_is_active c)\<rparr>
      in case assert_publishable c' of
           Inl e \<Rightarrow> Inl e
         | Inr _ \<Rightarrow> Inr (c'\<lparr>c_updated_at := at\<rparr>))"

definition slot_key :: "string \<Rightarrow> component \<Rightarrow> slot_key" where
  "slot_key connection_id c =
     (connection_id, lower (c_drone_owner c), lower (c_drone_repo c), effective_target c)"

definition set_position :: "int \<Rightarrow> component \<Rightarrow> component" where
  "set_position n c = c\<lparr>c_position := n\<rparr>"

definition inherit_from_project ::
    "string \<Rightarrow> string option \<Rightarrow> string option \<Rightarrow> component \<Rightarrow> component" where
  "inherit_from_project target drone gitea c =
     c\<lparr>c_project_default_target := target, c_project_drone_connection_id := drone,
       c_project_gitea_connection_id := gitea\<rparr>"

definition inherits :: "'a project_row_scheme \<Rightarrow> component \<Rightarrow> component" where
  "inherits p = inherit_from_project (p_default_target p) (p_drone_connection_id p) (p_gitea_connection_id p)"

subsection \<open>The project\<close>

text \<open>The constructor sorts the components by position and hands down the defaults.\<close>

definition project_init :: "project_row \<Rightarrow> component list \<Rightarrow> project" where
  "project_init row cs =
     project_row.extend row
       (project.fields (map (inherits row) (sort_key c_position cs)))"

definition project_create ::
    "string \<Rightarrow> string \<Rightarrow> string \<Rightarrow> string \<Rightarrow> time \<Rightarrow> string option \<Rightarrow> string option \<Rightarrow> string option \<Rightarrow> project" where
  "project_create new_id key name default_target now description drone gitea =
     project_init \<lparr>p_id = new_id, p_key = key, p_name = name, p_description = description,
       p_default_target = default_target, p_drone_connection_id = drone,
       p_gitea_connection_id = gitea, p_is_archived = False, p_created_at = now,
       p_updated_at = now\<rparr> []"

definition project_component :: "string \<Rightarrow> project \<Rightarrow> exn + component" where
  "project_component ref p =
     (case List.find (\<lambda>c. c_id c = ref \<or> c_key c = ref) (p_components p) of
        None \<Rightarrow> Inl (ComponentNotFoundError '''') | Some c \<Rightarrow> Inr c)"

record project_patch =
  pu_name :: "string option"
  pu_description :: "string option"
  pu_default_target :: "string option"
  pu_drone_connection_id :: "string option"
  pu_gitea_connection_id :: "string option"
  pu_is_archived :: "bool option"

definition project_apply_update :: "time \<Rightarrow> project_patch \<Rightarrow> project \<Rightarrow> project" where
  "project_apply_update at u p =
     (let p' = p\<lparr>
         p_drone_connection_id := set_opt (pu_drone_connection_id u) (p_drone_connection_id p),
         p_gitea_connection_id := set_opt (pu_gitea_connection_id u) (p_gitea_connection_id p),
         p_name := set_val (pu_name u) (p_name p),
         p_description := set_opt (pu_description u) (p_description p),
         p_default_target := set_val (pu_default_target u) (p_default_target p)\<rparr>
      in p'\<lparr>p_components := map (inherits p') (p_components p'),
            p_is_archived := set_val (pu_is_archived u) (p_is_archived p),
            p_updated_at := at\<rparr>)"

definition set_archived :: "bool \<Rightarrow> time \<Rightarrow> project \<Rightarrow> project" where
  "set_archived archived at p = p\<lparr>p_is_archived := archived, p_updated_at := at\<rparr>"

text \<open>\<open>requested or size + 1\<close>: zero counts as not given.\<close>

definition clamp_position :: "int option \<Rightarrow> int \<Rightarrow> int" where
  "clamp_position requested sz =
     (let r = (case requested of None \<Rightarrow> sz + 1 | Some n \<Rightarrow> if n = 0 then sz + 1 else n)
      in max 1 (min r (sz + 1)))"

fun renumber_from :: "int \<Rightarrow> component list \<Rightarrow> component list" where
  "renumber_from n [] = []"
| "renumber_from n (c # cs) = set_position n c # renumber_from (n + 1) cs"

definition renumber :: "component list \<Rightarrow> component list" where
  "renumber = renumber_from 1"

text \<open>\<open>list.insert(index, x)\<close> for an index between 0 and the length.\<close>

definition list_insert :: "nat \<Rightarrow> 'x \<Rightarrow> 'x list \<Rightarrow> 'x list" where
  "list_insert i x xs = take i xs @ x # drop i xs"

definition add_component :: "component \<Rightarrow> int option \<Rightarrow> project \<Rightarrow> exn + project" where
  "add_component c requested_position p =
     (if \<exists>e \<in> set (p_components p). c_key e = c_key c
      then Inl (ComponentKeyTakenError (''This project already has a component named '' @ repr (c_key c)))
      else let sz = int (length (p_components p));
               index = clamp_position requested_position sz - 1
           in Inr (p\<lparr>p_components :=
                renumber (list_insert (nat index) (inherits p c) (p_components p))\<rparr>))"

definition remove_component :: "component \<Rightarrow> project \<Rightarrow> project" where
  "remove_component c p =
     p\<lparr>p_components := renumber (filter (\<lambda>e. c_id e \<noteq> c_id c) (p_components p))\<rparr>"

text \<open>The dict \<open>by_id\<close> keeps the last component of an id; \<open>len(by_id)\<close> counts distinct ids.\<close>

definition by_id :: "project \<Rightarrow> string \<Rightarrow> component option" where
  "by_id p i = find_row c_id i (rev (p_components p))"

definition reorder :: "string list \<Rightarrow> project \<Rightarrow> exn + project" where
  "reorder ids p =
     (let keys = remdups (map c_id (p_components p))
      in if set ids \<noteq> set keys \<or> length ids \<noteq> length keys
         then Inl (ComponentNotFoundError
           ''Reordering must list every component of this project exactly once'')
         else Inr (p\<lparr>p_components := renumber (map (\<lambda>i. the (by_id p i)) ids)\<rparr>))"

subsection \<open>Promotion-slot conflicts\<close>

text \<open>\<open>defaultdict(list)\<close> in insertion order.\<close>

fun group_add :: "'k \<Rightarrow> 'v \<Rightarrow> ('k \<times> 'v list) list \<Rightarrow> ('k \<times> 'v list) list" where
  "group_add k v [] = [(k, [v])]"
| "group_add k v ((k', vs) # g) = (if k' = k then (k', vs @ [v]) # g else (k', vs) # group_add k v g)"

definition component_slot :: "(string \<rightharpoonup> string) \<Rightarrow> component \<Rightarrow> slot_key" where
  "component_slot ids c =
     slot_key (case ids (c_id c) of None \<Rightarrow> UNRESOLVED | Some i \<Rightarrow> i) c"

fun group_slots :: "(string \<rightharpoonup> string) \<Rightarrow> component list \<Rightarrow>
    (slot_key \<times> string list) list \<Rightarrow> (slot_key \<times> string list) list" where
  "group_slots ids [] g = g"
| "group_slots ids (c # cs) g =
     group_slots ids cs (if c_is_active c then group_add (component_slot ids c) (c_key c) g else g)"

definition conflict_message :: "slot_key \<times> string list \<Rightarrow> string" where
  "conflict_message g =
     (case g of ((_, owner, repo, target), keys) \<Rightarrow>
        join '', '' (sort keys) @ '' all promote '' @ owner @ ''/'' @ repo @ '' into '' @ repr target)"

definition slot_conflicts :: "(string \<rightharpoonup> string) \<Rightarrow> project \<Rightarrow> string list" where
  "slot_conflicts ids p =
     map conflict_message (filter (\<lambda>(_, keys). length keys > 1) (group_slots ids (p_components p) []))"

definition assert_no_slot_conflict :: "(string \<rightharpoonup> string) \<Rightarrow> project \<Rightarrow> exn + unit" where
  "assert_no_slot_conflict ids p =
     (case slot_conflicts ids p of
        [] \<Rightarrow> Inr ()
      | m # _ \<Rightarrow> Inl (ComponentSlotConflictError (m @
          ''. Two components may share a repository, but not a promotion target: give one of them a promote_target_override.'')))"

end
