(* ===== verification/Registry_Connection.thy ===== *)
theory Registry_Connection
  imports RC_Errors
begin

section \<open>Upstream connections\<close>

text \<open>
  app/domain/registry/entities/connection.py: an address, a credential and the result of the
  last probe. The two rules of the entity are that a trailing slash of the address does not
  count and that replacing the credential throws the probe result away. The record is the
  database row as well: the row has the same columns, the token split into its two parts.
\<close>

record connection =
  n_id :: string
  n_kind :: connection_kind
  n_name :: string
  n_base_url :: string
  n_token_encrypted :: string
  n_token_hint :: string
  n_is_default :: bool
  n_created_at :: time
  n_updated_at :: time
  n_verify_status :: "verify_status option"
  n_verify_detail :: "string option"
  n_verified_at :: "time option"

definition normalise_base_url :: "string \<Rightarrow> string" where
  "normalise_base_url url = rstrip CHR ''/'' url"

text \<open>An encrypted token: the cipher text and the hint.\<close>

type_synonym encrypted_token = "string \<times> string"

text \<open>The constructor normalises the address, of a new entity and of a row read back.\<close>

definition connection_init :: "connection \<Rightarrow> connection" where
  "connection_init n = n\<lparr>n_base_url := normalise_base_url (n_base_url n)\<rparr>"

definition connection_create ::
    "string \<Rightarrow> connection_kind \<Rightarrow> string \<Rightarrow> string \<Rightarrow> encrypted_token \<Rightarrow> bool \<Rightarrow> time \<Rightarrow> connection" where
  "connection_create new_id kind name base_url token is_default now =
     connection_init \<lparr>n_id = new_id, n_kind = kind, n_name = name, n_base_url = base_url,
       n_token_encrypted = fst token, n_token_hint = snd token, n_is_default = is_default,
       n_created_at = now, n_updated_at = now, n_verify_status = None, n_verify_detail = None,
       n_verified_at = None\<rparr>"

definition rename :: "string \<Rightarrow> time \<Rightarrow> connection \<Rightarrow> connection" where
  "rename name at n = n\<lparr>n_name := name, n_updated_at := at\<rparr>"

definition point_at :: "string \<Rightarrow> time \<Rightarrow> connection \<Rightarrow> connection" where
  "point_at base_url at n = n\<lparr>n_base_url := normalise_base_url base_url, n_updated_at := at\<rparr>"

definition replace_token :: "encrypted_token \<Rightarrow> time \<Rightarrow> connection \<Rightarrow> connection" where
  "replace_token token at n =
     n\<lparr>n_token_encrypted := fst token, n_token_hint := snd token, n_verify_status := None,
       n_verify_detail := None, n_verified_at := None, n_updated_at := at\<rparr>"

definition make_default :: "time \<Rightarrow> connection \<Rightarrow> connection" where
  "make_default at n = n\<lparr>n_is_default := True, n_updated_at := at\<rparr>"

definition clear_default :: "time \<Rightarrow> connection \<Rightarrow> connection" where
  "clear_default at n = n\<lparr>n_is_default := False, n_updated_at := at\<rparr>"

definition touch :: "time \<Rightarrow> connection \<Rightarrow> connection" where
  "touch at n = n\<lparr>n_updated_at := at\<rparr>"

definition record_probe ::
    "verify_status \<Rightarrow> string option \<Rightarrow> time \<Rightarrow> connection \<Rightarrow> connection" where
  "record_probe status detail at n =
     n\<lparr>n_verify_status := Some status, n_verify_detail := detail, n_verified_at := Some at,
       n_updated_at := at\<rparr>"

lemmas connection_defs =
  rename_def point_at_def replace_token_def make_default_def clear_default_def touch_def
  record_probe_def connection_init_def connection_create_def

text \<open>
  core/crypto.py, \<open>token_hint\<close>: an ellipsis followed by the last four characters of the
  stripped token, or a dash when it is empty. Both marks are single characters outside the
  model's alphabet, so the result is the tail (\<open>Some\<close>) or the dash (\<open>None\<close>).
\<close>

definition last4 :: "string \<Rightarrow> string" where
  "last4 s = drop (length s - 4) s"

definition token_hint :: "string \<Rightarrow> string option" where
  "token_hint token =
     (let tail = last4 (strip token) in if tail \<noteq> [] then Some tail else None)"

lemma token_hint_short: "strip token = token \<Longrightarrow> token \<noteq> [] \<Longrightarrow> length token \<le> 4 \<Longrightarrow>
    token_hint token = Some token"
  by (simp add: token_hint_def last4_def Let_def)

lemma token_hint_length: "token_hint token = Some t \<Longrightarrow> length t \<le> 4"
  by (auto simp: token_hint_def last4_def Let_def split: if_splits)

text \<open>The address of a connection never ends in a slash, whatever is done to it.\<close>

definition url_normal :: "connection \<Rightarrow> bool" where
  "url_normal n \<longleftrightarrow> normalise_base_url (n_base_url n) = n_base_url n"

lemma normalise_idem [simp]: "normalise_base_url (normalise_base_url u) = normalise_base_url u"
  by (simp add: normalise_base_url_def)

lemma url_normal_ops:
  "url_normal (connection_create i k nm u tok d now)"
  "url_normal (point_at u at n)"
  "url_normal n \<Longrightarrow> url_normal (rename nm at n)"
  "url_normal n \<Longrightarrow> url_normal (replace_token tok at n)"
  "url_normal n \<Longrightarrow> url_normal (make_default at n)"
  "url_normal n \<Longrightarrow> url_normal (clear_default at n)"
  "url_normal n \<Longrightarrow> url_normal (touch at n)"
  "url_normal n \<Longrightarrow> url_normal (record_probe s dt at n)"
  by (simp_all add: url_normal_def connection_defs)

lemma connection_init_id: "url_normal n \<Longrightarrow> connection_init n = n"
  by (simp add: url_normal_def connection_init_def)

end
