(* ===== verification/Release_Entity.thy ===== *)
theory Release_Entity
  imports RC_Errors
begin

section \<open>The approval release entity\<close>

text \<open>
  app/domain/release/entities/release.py. Unlike a deployment, this aggregate checks its own
  state machine: every transition method requires a status, raises when it is another one,
  and returns the required status for the repository's conditional UPDATE. A row of the
  table releases has exactly these columns.
\<close>

record release =
  r_id :: string
  r_repository :: string
  r_branch :: string
  r_commit_sha :: string
  r_environment :: string
  r_status :: release_status
  r_created_at :: time
  r_updated_at :: time
  r_approved_by :: "string option"
  r_approved_at :: "time option"
  r_rejected_by :: "string option"
  r_rejected_at :: "time option"
  r_deploy_started_at :: "time option"
  r_deploy_finished_at :: "time option"
  r_message :: "string option"

definition FINISHED_STATUSES :: "release_status list" where
  "FINISHED_STATUSES = [RS_SUCCESS, RS_FAILED]"

definition release_create ::
    "string \<Rightarrow> string \<Rightarrow> string \<Rightarrow> string \<Rightarrow> string \<Rightarrow> string option \<Rightarrow> time \<Rightarrow> release" where
  "release_create new_id repository branch commit_sha environment message now =
     \<lparr>r_id = new_id, r_repository = repository, r_branch = branch, r_commit_sha = commit_sha,
      r_environment = environment, r_status = RS_PENDING, r_created_at = now,
      r_updated_at = now, r_approved_by = None, r_approved_at = None, r_rejected_by = None,
      r_rejected_at = None, r_deploy_started_at = None, r_deploy_finished_at = None,
      r_message = message\<rparr>"

definition require :: "release_status \<Rightarrow> release \<Rightarrow> exn + release_status" where
  "require expected r =
     (if r_status r \<noteq> expected then Inl (InvalidReleaseTransitionError (r_status r) expected)
      else Inr expected)"

definition rel_approve :: "string option \<Rightarrow> time \<Rightarrow> release \<Rightarrow> exn + (release_status \<times> release)" where
  "rel_approve approver at r =
     (case require RS_PENDING r of
        Inl e \<Rightarrow> Inl e
      | Inr expected \<Rightarrow> Inr (expected,
          r\<lparr>r_status := RS_APPROVED, r_approved_by := approver, r_approved_at := Some at,
            r_updated_at := at\<rparr>))"

definition rel_reject ::
    "string option \<Rightarrow> string option \<Rightarrow> time \<Rightarrow> release \<Rightarrow> exn + (release_status \<times> release)" where
  "rel_reject rejecter message at r =
     (case require RS_PENDING r of
        Inl e \<Rightarrow> Inl e
      | Inr expected \<Rightarrow> Inr (expected,
          r\<lparr>r_status := RS_REJECTED, r_rejected_by := rejecter, r_rejected_at := Some at,
            r_updated_at := at, r_message := message\<rparr>))"

definition rel_start :: "time \<Rightarrow> release \<Rightarrow> exn + (release_status \<times> release)" where
  "rel_start at r =
     (case require RS_APPROVED r of
        Inl e \<Rightarrow> Inl e
      | Inr expected \<Rightarrow> Inr (expected,
          r\<lparr>r_status := RS_DEPLOYING, r_deploy_started_at := Some at, r_updated_at := at\<rparr>))"

definition rel_finish ::
    "release_status \<Rightarrow> string option \<Rightarrow> time \<Rightarrow> release \<Rightarrow> exn + (release_status \<times> release)" where
  "rel_finish status message at r =
     (if status \<notin> set FINISHED_STATUSES
      then Inl (ValueError (''A deployment finishes in SUCCESS or FAILED, not '' @ rs_value status))
      else case require RS_DEPLOYING r of
        Inl e \<Rightarrow> Inl e
      | Inr expected \<Rightarrow> Inr (expected,
          r\<lparr>r_status := status, r_deploy_finished_at := Some at, r_updated_at := at,
            r_message := message\<rparr>))"

lemmas rel_defs = rel_approve_def rel_reject_def rel_start_def rel_finish_def require_def

subsection \<open>The four transitions as data\<close>

text \<open>
  A use case applies one transition at one instant. The datatype names which, with its
  arguments, and \<open>rel_apply\<close> is the callable the use case hands to \<open>run_transition\<close>.
\<close>

datatype transition =
  Approve "string option" | Reject "string option" "string option" | Start
| FinishWith release_status "string option"

fun rel_apply :: "transition \<Rightarrow> time \<Rightarrow> release \<Rightarrow> exn + (release_status \<times> release)" where
  "rel_apply (Approve who) at r = rel_approve who at r"
| "rel_apply (Reject who msg) at r = rel_reject who msg at r"
| "rel_apply Start at r = rel_start at r"
| "rel_apply (FinishWith s msg) at r = rel_finish s msg at r"

text \<open>The state machine of the module's diagram.\<close>

inductive rel_arrow :: "release_status \<Rightarrow> release_status \<Rightarrow> bool" where
  "rel_arrow RS_PENDING RS_APPROVED"
| "rel_arrow RS_PENDING RS_REJECTED"
| "rel_arrow RS_APPROVED RS_DEPLOYING"
| "rel_arrow RS_DEPLOYING RS_SUCCESS"
| "rel_arrow RS_DEPLOYING RS_FAILED"

inductive_simps rel_arrow_simps [simp]:
  "rel_arrow RS_PENDING s" "rel_arrow RS_APPROVED s" "rel_arrow RS_DEPLOYING s"
  "rel_arrow RS_SUCCESS s" "rel_arrow RS_FAILED s" "rel_arrow RS_REJECTED s"

text \<open>Every transition method follows an arrow, and every arrow has its method.\<close>

lemma rel_apply_arrow:
  "rel_apply t at r = Inr (expected, r') \<Longrightarrow> r_status r = expected \<and> rel_arrow expected (r_status r')"
  by (cases t) (auto simp: rel_defs FINISHED_STATUSES_def split: if_splits)

lemma rel_arrow_apply:
  assumes "rel_arrow (r_status r) s"
  shows "\<exists>t r'. rel_apply t at r = Inr (r_status r, r') \<and> r_status r' = s"
proof -
  have "\<exists>t. \<exists>r'. rel_apply t at r = Inr (r_status r, r') \<and> r_status r' = s"
    using assms
  proof (cases rule: rel_arrow.cases)
    case 1
    then show ?thesis by (intro exI [of _ "Approve None"]) (simp add: rel_defs)
  next
    case 2
    then show ?thesis by (intro exI [of _ "Reject None None"]) (simp add: rel_defs)
  next
    case 3
    then show ?thesis by (intro exI [of _ Start]) (simp add: rel_defs)
  next
    case 4
    then show ?thesis
      by (intro exI [of _ "FinishWith RS_SUCCESS None"]) (simp add: rel_defs FINISHED_STATUSES_def)
  next
    case 5
    then show ?thesis
      by (intro exI [of _ "FinishWith RS_FAILED None"]) (simp add: rel_defs FINISHED_STATUSES_def)
  qed
  then show ?thesis by blast
qed

lemma rel_apply_identity:
  "rel_apply t at r = Inr (expected, r') \<Longrightarrow>
     r_id r' = r_id r \<and> r_repository r' = r_repository r \<and> r_branch r' = r_branch r \<and>
     r_commit_sha r' = r_commit_sha r \<and> r_environment r' = r_environment r \<and>
     r_created_at r' = r_created_at r"
  by (cases t) (auto simp: rel_defs split: if_splits)

text \<open>What the fields say about the status.\<close>

definition rel_inv :: "release \<Rightarrow> bool" where
  "rel_inv r \<longleftrightarrow>
     (r_approved_at r \<noteq> None \<longleftrightarrow> r_status r \<in> {RS_APPROVED, RS_DEPLOYING, RS_SUCCESS, RS_FAILED}) \<and>
     (r_rejected_at r \<noteq> None \<longleftrightarrow> r_status r = RS_REJECTED) \<and>
     (r_deploy_started_at r \<noteq> None \<longleftrightarrow> r_status r \<in> {RS_DEPLOYING, RS_SUCCESS, RS_FAILED}) \<and>
     (r_deploy_finished_at r \<noteq> None \<longleftrightarrow> r_status r \<in> {RS_SUCCESS, RS_FAILED})"

lemma rel_inv_create: "rel_inv (release_create i rp b c e m now)"
  by (simp add: rel_inv_def release_create_def)

lemma rel_inv_apply: "rel_inv r \<Longrightarrow> rel_apply t at r = Inr (expected, r') \<Longrightarrow> rel_inv r'"
  by (cases t) (auto simp: rel_inv_def rel_defs FINISHED_STATUSES_def split: if_splits)

end
