(* ===== verification/World.thy ===== *)
theory World
  imports Deployment_Entity Bundle_Entity Registry_Project Registry_Connection Release_Entity
begin

section \<open>The database session, the clock and the outside world\<close>

text \<open>
  What every service shares: the tables (db/models/*.py, one record per ORM model), the
  session over them, the clock and the trace of what other parties can observe.

  A session reads and writes \<open>w_cur\<close>; \<open>commit\<close> makes that durable, \<open>rollback\<close> returns
  to what was durable. The session factory sets autoflush and expire_on_commit off; a row is
  one object of the identity map, so what a method assigns to it is seen by every later read
  of the same object, flushed or not, which is what reading \<open>w_cur\<close> back gives.

  Upstream servers are an oracle: HTTP answers are a function of the trace so far and of the
  request, so that the same request may be answered differently each time. The trace records
  each commit with the tables it made durable and each request sent, in order.
\<close>

subsection \<open>Rows\<close>

text \<open>The four attachment columns of a row; None where no attachment was uploaded.\<close>

record attachment =
  at_filename :: string
  at_content_type :: string
  at_data :: string

record dep_row = deployment +
  d_required_promotion_stages :: "string list option"
  d_attachment :: "attachment option"

record bundle_row = release_bundle +
  b_attachment :: "attachment option"

record publish_record =
  q_id :: string
  q_release_bundle_id :: "string option"
  q_deployment_id :: string
  q_project_id :: "string option"
  q_component_id :: "string option"
  q_component :: string
  q_version :: string
  q_repo_owner :: string
  q_repo_name :: string
  q_commit_sha :: string
  q_tag_name :: string
  q_gitea_release_id :: "string option"
  q_gitea_release_url :: "string option"
  q_status :: publish_record_status
  q_error_code :: "string option"
  q_error_message :: "string option"
  q_requested_by :: "string option"
  q_created_at :: time
  q_updated_at :: time
  q_published_at :: "time option"

text \<open>
  An event id sorts chronologically by construction, so the position in the table stands for
  it; \<open>e_created_at\<close> is the column's default.
\<close>

record workflow_event =
  e_release_bundle_id :: "string option"
  e_deployment_id :: "string option"
  e_workflow_instance_id :: "string option"
  e_stage :: string
  e_event_type :: event_type
  e_status :: "string option"
  e_error_code :: "string option"
  e_message :: "string option"
  e_actor :: string
  e_actor_source :: string
  e_component :: "string option"
  e_target :: "string option"
  e_created_at :: time

record ci_token =
  k_id :: string
  k_name :: string
  k_token_hash :: string
  k_project_id :: string
  k_component_id :: string
  k_target :: string
  k_branch :: string
  k_created_at :: time
  k_expires_at :: time
  k_revoked_at :: "time option"

record ci_policy =
  y_component_id :: string
  y_target :: string
  y_branch :: string
  y_source_stages :: "string list"
  y_promotion_stages :: "string list"

record ci_job =
  j_id :: string
  j_service_token_id :: string
  j_project_id :: string
  j_component_id :: string
  j_target :: string
  j_branch :: string
  j_source_build_number :: int
  j_drone_connection_id :: string
  j_drone_owner :: string
  j_drone_repository :: string
  j_source_stages :: "string list"
  j_promotion_stages :: "string list"
  j_commit_sha :: "string option"
  j_deployment_id :: "string option"
  j_status :: string
  j_error_code :: "string option"
  j_created_at :: time
  j_updated_at :: time
  j_deadline_at :: time
  j_finished_at :: "time option"
  j_lease_id :: "string option"
  j_lease_until :: "time option"

record ci_event =
  ce_request_id :: string
  ce_status :: string
  ce_error_code :: "string option"

text \<open>The snapshot of a release plan: the JSON object of \<open>ReleasePlanService.snapshot\<close>.\<close>

record plan_route =
  pr_component_id :: string
  pr_connection_id :: string
  pr_server :: string
  pr_owner :: string
  pr_repository :: string
  pr_position :: int
  pr_target_override :: "string option"

record plan_action =
  pa_component :: string
  pa_from :: "string option"
  pa_to :: "string option"
  pa_from_deployment_id :: "string option"
  pa_source_deployment_id :: "string option"
  pa_build_number :: "int option"
  pa_commit_sha :: "string option"
  pa_route :: plan_route

record plan_snapshot =
  ps_project_id :: string
  ps_target_environment :: string
  ps_target :: string
  ps_actions :: "plan_action list"
  ps_checks :: "(string \<times> bool) list"
  ps_requires_approval :: bool
  ps_executable :: bool
  ps_blockers :: "string list"

record release_plan =
  pl_id :: string
  pl_project_id :: string
  pl_snapshot :: plan_snapshot
  pl_digest :: string
  pl_status :: string
  pl_created_by :: string
  pl_approved_by :: "string option"
  pl_created_at :: time
  pl_expires_at :: time
  pl_approved_at :: "time option"
  pl_claimed_at :: "time option"
  pl_release_id :: "string option"

record schedule_build =
  sb_component_id :: string
  sb_component_key :: string
  sb_build_number :: int

record schedule =
  s_id :: string
  s_project_id :: "string option"
  s_mode :: release_mode
  s_selected_component_keys :: "string option"
  s_frontend_build_number :: "int option"
  s_backend_build_number :: "int option"
  s_target :: string
  s_scheduled_for_utc :: time
  s_timezone :: string
  s_status :: schedule_status
  s_requested_by :: "string option"
  s_notification_recipients :: "string option"
  s_release_version :: "string option"
  s_release_notes :: "string option"
  s_attachment :: "attachment option"
  s_deployment_id :: "string option"
  s_release_bundle_id :: "string option"
  s_error_message :: "string option"
  s_created_at :: time
  s_updated_at :: time
  s_started_at :: "time option"
  s_finished_at :: "time option"
  s_component_builds :: "schedule_build list"

record email =
  m_id :: string
  m_workflow_event_id :: "nat option"
  m_schedule_id :: "string option"
  m_recipients :: string
  m_subject :: string
  m_body :: string
  m_attachment :: "attachment option"
  m_status :: email_status
  m_attempts :: nat
  m_next_attempt_at :: time
  m_claimed_at :: "time option"
  m_last_error :: "string option"
  m_created_at :: time
  m_updated_at :: time
  m_sent_at :: "time option"

record mail_recipient =
  mr_id :: string
  mr_email :: string
  mr_created_at :: time

text \<open>The cursor of the dispatcher: a time, and the position of the last event seen (None before any).\<close>

type_synonym mail_cursor = "time \<times> nat option"

subsection \<open>Tables, session and environment\<close>

record tables =
  t_projects :: "project_row list"
  t_components :: "component_row list"
  t_connections :: "connection list"
  t_deployments :: "dep_row list"
  t_bundles :: "bundle_row list"
  t_events :: "workflow_event list"
  t_publish_records :: "publish_record list"
  t_ci_tokens :: "ci_token list"
  t_ci_policies :: "ci_policy list"
  t_ci_jobs :: "ci_job list"
  t_ci_events :: "ci_event list"
  t_plans :: "release_plan list"
  t_schedules :: "schedule list"
  t_outbox :: "email list"
  t_cursor :: "mail_cursor option"
  t_recipients :: "mail_recipient list"

definition no_tables :: tables where
  "no_tables = \<lparr>t_projects = [], t_components = [], t_connections = [], t_deployments = [],
     t_bundles = [], t_events = [], t_publish_records = [], t_ci_tokens = [],
     t_ci_policies = [], t_ci_jobs = [], t_ci_events = [], t_plans = [], t_schedules = [],
     t_outbox = [], t_cursor = None, t_recipients = []\<rparr>"

text \<open>
  One HTTP request as it leaves the process: the method, the server, the
  Authorization header, the path and the parameters (of the query, or of the JSON body of a POST to Gitea). The answer of \<open>httpx.request\<close>: a timeout, any
  other transport error, or a response with a status code and what \<open>response.json()\<close> gives
  (None when it raises ValueError).
\<close>

datatype http_method = GET | POST

record http_request =
  h_method :: http_method
  h_server :: string
  h_auth :: string
  h_path :: string
  h_params :: "(string \<times> string) list"

datatype json =
  JNull | JBool bool | JInt int | JStr string | JList "json list" | JObj "(string \<times> json) list"

datatype http_result = HttpTimeout | HttpRequestError | HttpResponse int "json option"

datatype effect = Committed tables | RolledBack | Sent http_request | Mailed email

record world =
  w_cur :: tables
  w_durable :: tables
  w_ticks :: nat
  w_trace :: "effect list"

text \<open>
  What a process is configured with, and its oracles. \<open>v_clock n\<close> is what the n-th reading of
  the clock returns and \<open>v_uuid n\<close> the n-th identifier drawn. \<open>v_decrypt\<close> is Fernet under the
  configured key (None is TokenDecryptionError) and \<open>v_digest\<close> the SHA-256 of the canonical
  JSON of a snapshot. \<open>v_smtp tr m\<close> tells whether \<open>SmtpSender.send\<close> of the mail returns
(an exception otherwise), given what has happened so far.
\<close>

record env =
  v_clock :: "nat \<Rightarrow> time"
  v_uuid :: "nat \<Rightarrow> string"
  v_http :: "effect list \<Rightarrow> http_request \<Rightarrow> http_result"
  v_decrypt :: "string \<Rightarrow> string option"
  v_digest :: "plan_snapshot \<Rightarrow> string"
  v_retry_attempts :: nat
  v_deployment_timeout :: int
  v_ci_source_wait :: int
  v_publish_timeout :: int
  v_schedule_claim_timeout :: int
  v_poll_interval :: int
  v_batch_size :: nat
  v_scheduler_batch_size :: nat
  v_smtp :: "effect list \<Rightarrow> email \<Rightarrow> bool"
  v_actor :: "string option"
  v_actor_source :: string

definition SECOND :: int where "SECOND = 1000000"

text \<open>
  \<open>utc_now()\<close> is \<open>now_of\<close> followed by \<open>tick\<close>: the reading, and the clock moving on. An
  identifier is drawn from the same counter.
\<close>

definition now_of :: "env \<Rightarrow> world \<Rightarrow> time" where "now_of v w = v_clock v (w_ticks w)"

definition tick :: "world \<Rightarrow> world" where "tick w = w\<lparr>w_ticks := Suc (w_ticks w)\<rparr>"

definition new_uuid :: "env \<Rightarrow> world \<Rightarrow> string" where "new_uuid v w = v_uuid v (w_ticks w)"

definition commit :: "world \<Rightarrow> world" where
  "commit w = w\<lparr>w_durable := w_cur w, w_trace := w_trace w @ [Committed (w_cur w)]\<rparr>"

definition rollback :: "world \<Rightarrow> world" where
  "rollback w = w\<lparr>w_cur := w_durable w, w_trace := w_trace w @ [RolledBack]\<rparr>"

definition send :: "env \<Rightarrow> http_request \<Rightarrow> world \<Rightarrow> http_result \<times> world" where
  "send v rq w = (v_http v (w_trace w) rq, w\<lparr>w_trace := w_trace w @ [Sent rq]\<rparr>)"

definition set_tables :: "(tables \<Rightarrow> tables) \<Rightarrow> world \<Rightarrow> world" where
  "set_tables f w = w\<lparr>w_cur := f (w_cur w)\<rparr>"

lemma world_ops [simp]:
  "w_cur (commit w) = w_cur w" "w_durable (commit w) = w_cur w" "w_ticks (commit w) = w_ticks w"
  "w_trace (commit w) = w_trace w @ [Committed (w_cur w)]"
  "w_cur (rollback w) = w_durable w" "w_durable (rollback w) = w_durable w"
  "w_trace (rollback w) = w_trace w @ [RolledBack]"
  "w_cur (tick w) = w_cur w" "w_durable (tick w) = w_durable w" "w_trace (tick w) = w_trace w"
  "w_ticks (tick w) = Suc (w_ticks w)"
  "w_cur (set_tables f w) = f (w_cur w)" "w_durable (set_tables f w) = w_durable w"
  "w_trace (set_tables f w) = w_trace w" "w_ticks (set_tables f w) = w_ticks w"
  "w_cur (snd (send v rq w)) = w_cur w" "w_durable (snd (send v rq w)) = w_durable w"
  "w_trace (snd (send v rq w)) = w_trace w @ [Sent rq]"
  by (simp_all add: commit_def rollback_def tick_def set_tables_def send_def)

end
