(* ===== verification/Registry_Lookup.thy ===== *)
theory Registry_Lookup
  imports World
begin

section \<open>Registry lookups on the deployment path\<close>

text \<open>
  app/services/component_registry.py and usecase/registry/resolve_connection_usecase.py: which
  project a request means, which component a key or a deployment means, and which connection
  a component uses (its own, else its project's, else the default of the kind).
\<close>

subsection \<open>Connections\<close>

definition find_connection :: "world \<Rightarrow> string \<Rightarrow> connection option" where
  "find_connection w i = map_option connection_init (find_row n_id i (t_connections (w_cur w)))"

definition find_default :: "world \<Rightarrow> connection_kind \<Rightarrow> connection option" where
  "find_default w kind =
     map_option connection_init
       (List.find (\<lambda>n. n_kind n = kind \<and> n_is_default n) (t_connections (w_cur w)))"

definition resolve_default :: "world \<Rightarrow> connection_kind \<Rightarrow> exn + connection" where
  "resolve_default w kind =
     (case find_default w kind of
        None \<Rightarrow> Inl (NoDefaultConnectionError (''No default '' @ ck_value kind @
          '' connection is configured, and nothing overrides it. Add one under Connections.''))
      | Some n \<Rightarrow> Inr n)"

fun resolve_connection :: "world \<Rightarrow> connection_kind \<Rightarrow> string option list \<Rightarrow> exn + connection" where
  "resolve_connection w kind [] = resolve_default w kind"
| "resolve_connection w kind (candidate # rest) =
     (if py_truthy candidate
      then (case find_connection w (the candidate) of
              None \<Rightarrow> Inl (ConnectionNotFoundError '''') | Some n \<Rightarrow> Inr n)
      else resolve_connection w kind rest)"

text \<open>The relationship \<open>component.project\<close>: a foreign key that is never null.\<close>

definition project_of :: "world \<Rightarrow> 'a component_row_scheme \<Rightarrow> project_row option" where
  "project_of w c = find_row p_id (c_project_id c) (t_projects (w_cur w))"

definition project_connection_id :: "world \<Rightarrow> 'a component_row_scheme \<Rightarrow> connection_kind \<Rightarrow> string option" where
  "project_connection_id w c kind =
     (case project_of w c of None \<Rightarrow> None
      | Some p \<Rightarrow> (case kind of CK_DRONE \<Rightarrow> p_drone_connection_id p
                              | CK_GITEA \<Rightarrow> p_gitea_connection_id p))"

definition drone_connection :: "world \<Rightarrow> 'a component_row_scheme \<Rightarrow> exn + connection" where
  "drone_connection w c =
     resolve_connection w CK_DRONE [c_drone_connection_id c, project_connection_id w c CK_DRONE]"

definition gitea_connection :: "world \<Rightarrow> 'a component_row_scheme \<Rightarrow> exn + connection" where
  "gitea_connection w c =
     resolve_connection w CK_GITEA [c_gitea_connection_id c, project_connection_id w c CK_GITEA]"

definition project_default_target :: "world \<Rightarrow> 'a component_row_scheme \<Rightarrow> string" where
  "project_default_target w c =
     (case project_of w c of None \<Rightarrow> '''' | Some p \<Rightarrow> p_default_target p)"

subsection \<open>Projects and components\<close>

definition default_project :: "world \<Rightarrow> exn + project_row" where
  "default_project w =
     (case List.find (\<lambda>p. p_key p = ''default'') (t_projects (w_cur w)) of
        Some seeded \<Rightarrow> Inr seeded
      | None \<Rightarrow>
          (case filter (\<lambda>p. \<not> p_is_archived p) (t_projects (w_cur w)) of
             [p] \<Rightarrow> Inr p
           | [] \<Rightarrow> Inl (NoDefaultProjectError (''No project is configured. Add one under Projects, '' @
               ''or set DRONE_*_REPO_OWNER/NAME and re-run the migration to seed it.''))
           | _ \<Rightarrow> Inl (NoDefaultProjectError (''Several projects exist and this request names none. '' @
               ''Use the project-scoped endpoints, or keep a project with the key 'default'.''))))"

definition lookup_project :: "world \<Rightarrow> string option \<Rightarrow> exn + project_row" where
  "lookup_project w ref =
     (if \<not> py_truthy ref then default_project w
      else (case List.find (\<lambda>p. p_id p = the ref \<or> p_key p = the ref) (t_projects (w_cur w)) of
              None \<Rightarrow> Inl (ProjectNotRegisteredError (''No project with id or key '' @ repr (the ref)))
            | Some p \<Rightarrow> Inr p))"

text \<open>The relationship \<open>project.components\<close>, ordered by position.\<close>

definition project_components :: "world \<Rightarrow> 'a project_row_scheme \<Rightarrow> component_row list" where
  "project_components w p =
     sort_key c_position (filter (\<lambda>c. c_project_id c = p_id p) (t_components (w_cur w)))"

definition for_key :: "world \<Rightarrow> string \<Rightarrow> project_row \<Rightarrow> exn + component_row" where
  "for_key w key p =
     (case List.find (\<lambda>c. c_key c = key) (project_components w p) of
        Some c \<Rightarrow> Inr c
      | None \<Rightarrow> Inl (ComponentNotRegisteredError (''Project '' @ repr (p_key p) @
          '' has no component named '' @ repr key @ ''. It has: '' @
          py_or (Some (join '', '' (map c_key (project_components w p)))) ''none'' @ ''.'')))"

definition for_deployment :: "world \<Rightarrow> 'a deployment_scheme \<Rightarrow> exn + component_row" where
  "for_deployment w d =
     (case find_row c_id (d_component_id d) (t_components (w_cur w)) of
        Some c \<Rightarrow> Inr c
      | None \<Rightarrow> Inl (ComponentNotRegisteredError (''Deployment '' @ d_id d @
          '' points at component '' @ repr (d_component_id d) @ '', which no longer exists'')))"

subsection \<open>The inheritance chain\<close>

text \<open>
  The chain as a specification: the first candidate that is set decides, alone; a dangling one
  is an error and never falls through to the next.
\<close>

lemma resolve_connection_chain:
  "resolve_connection w kind cs =
     (case List.find py_truthy cs of
        None \<Rightarrow> resolve_default w kind
      | Some c \<Rightarrow> (case find_connection w (the c) of
          None \<Rightarrow> Inl (ConnectionNotFoundError '''') | Some n \<Rightarrow> Inr n))"
  by (induction cs) auto

lemma resolve_connection_member:
  assumes "resolve_connection w kind cs = Inr n"
  shows "\<exists>m \<in> set (t_connections (w_cur w)). n = connection_init m"
  using assms
  by (auto simp: resolve_connection_chain resolve_default_def find_connection_def find_default_def
      find_Some_iff split: option.splits dest: find_row_Some)

text \<open>Resolving reads registry tables only.\<close>

definition same_registry :: "world \<Rightarrow> world \<Rightarrow> bool" where
  "same_registry u w \<longleftrightarrow> t_connections (w_cur u) = t_connections (w_cur w) \<and>
     t_projects (w_cur u) = t_projects (w_cur w) \<and> t_components (w_cur u) = t_components (w_cur w)"

lemma same_registry_refl [simp]: "same_registry w w"
  by (simp add: same_registry_def)

lemma resolve_cong: "same_registry u w \<Longrightarrow> resolve_connection u kind cs = resolve_connection w kind cs"
  by (induction cs)
    (auto simp: same_registry_def resolve_default_def find_default_def find_connection_def)

lemma registry_cong:
  assumes "same_registry u w"
  shows "drone_connection u c = drone_connection w c" "gitea_connection u c = gitea_connection w c"
    "for_deployment u d = for_deployment w d" "lookup_project u r = lookup_project w r"
    "for_key u k p = for_key w k p" "project_default_target u c = project_default_target w c"
proof -
  note eqs = assms [unfolded same_registry_def, THEN conjunct1]
    assms [unfolded same_registry_def, THEN conjunct2, THEN conjunct1]
    assms [unfolded same_registry_def, THEN conjunct2, THEN conjunct2]
  show "drone_connection u c = drone_connection w c" "gitea_connection u c = gitea_connection w c"
    "for_deployment u d = for_deployment w d" "lookup_project u r = lookup_project w r"
    "for_key u k p = for_key w k p" "project_default_target u c = project_default_target w c"
    unfolding drone_connection_def gitea_connection_def project_connection_id_def project_of_def
      for_deployment_def lookup_project_def default_project_def for_key_def
      project_components_def project_default_target_def eqs resolve_cong [OF assms] by (rule refl)+
qed

lemma for_deployment_Inr:
  "for_deployment w d = Inr c \<Longrightarrow> c \<in> set (t_components (w_cur w)) \<and> c_id c = d_component_id d"
  by (auto simp: for_deployment_def split: option.splits dest: find_row_Some)

lemma for_key_Inr:
  assumes "for_key w key p = Inr c"
  shows "c \<in> set (t_components (w_cur w)) \<and> c_key c = key \<and> c_project_id c = p_id p"
proof -
  have "List.find (\<lambda>c. c_key c = key) (project_components w p) = Some c"
    using assms by (simp add: for_key_def split: option.splits)
  then have "c \<in> set (project_components w p)" and "c_key c = key"
    by (auto simp: find_Some_iff)
  then show ?thesis by (simp add: project_components_def)
qed

end
