(* ===== verification/Drone_Client.thy ===== *)
theory Drone_Client
  imports Registry_Lookup
begin

section \<open>The Drone client and the build service\<close>

text \<open>
  app/integrations/retry.py, app/integrations/drone/{schemas,client}.py and
  app/services/drone_build_service.py. Reads are retried, writes never are; every way a
  request can fail is classified into one exception; a build is read out of the JSON payload.

  Pydantic's field checks are modelled without its lax conversions: a value of another JSON
  type than the field's is a ValidationError (a numeric string for an integer, which pydantic
  would convert, included). The timestamps of a build are left out: nothing in the
  deployment path reads them.
\<close>

subsection \<open>Retrying reads\<close>

text \<open>
  \<open>retry_read\<close>: the argument counts the attempts left; zero attempts end in the assertion
  after the loop. The sleep between two attempts has no effect the model could observe.
\<close>

fun retry_read :: "nat \<Rightarrow> (exn \<Rightarrow> bool) \<Rightarrow> (world \<Rightarrow> (exn + 'a) \<times> world) \<Rightarrow> world \<Rightarrow> (exn + 'a) \<times> world" where
  "retry_read 0 retry_on op w = (Inl AssertionError, w)"
| "retry_read (Suc left) retry_on op w =
     (case op w of
        (Inr x, w') \<Rightarrow> (Inr x, w')
      | (Inl e, w') \<Rightarrow>
          (if retry_on e then (if left = 0 then (Inl e, w') else retry_read left retry_on op w')
           else (Inl e, w')))"

subsection \<open>Reading a payload\<close>

definition jget :: "string \<Rightarrow> (string \<times> json) list \<Rightarrow> json option" where
  "jget k kvs = map_of (rev kvs) k"

definition jval :: "string \<Rightarrow> (string \<times> json) list \<Rightarrow> json" where
  "jval k kvs = (case jget k kvs of None \<Rightarrow> JNull | Some j \<Rightarrow> j)"

fun jtruthy :: "json \<Rightarrow> bool" where
  "jtruthy JNull = False"
| "jtruthy (JBool b) = b"
| "jtruthy (JInt n) = (n \<noteq> 0)"
| "jtruthy (JStr s) = (s \<noteq> [])"
| "jtruthy (JList js) = (js \<noteq> [])"
| "jtruthy (JObj kvs) = (kvs \<noteq> [])"

text \<open>\<open>str(x)\<close>; strings inside a list or dict are quoted without escapes.\<close>

fun py_repr :: "json \<Rightarrow> string" where
  "py_repr JNull = ''None''"
| "py_repr (JBool b) = (if b then ''True'' else ''False'')"
| "py_repr (JInt n) = str_of_int n"
| "py_repr (JStr s) = repr s"
| "py_repr (JList js) = ''['' @ join '', '' (map py_repr js) @ '']''"
| "py_repr (JObj kvs) = ''{'' @ join '', '' (map (\<lambda>(k, j). repr k @ '': '' @ py_repr j) kvs) @ ''}''"

definition py_str :: "json \<Rightarrow> string" where
  "py_str j = (case j of JStr s \<Rightarrow> s | _ \<Rightarrow> py_repr j)"

definition str_default :: "string \<Rightarrow> (string \<times> json) list \<Rightarrow> string" where
  "str_default k kvs = (case jget k kvs of None \<Rightarrow> '''' | Some j \<Rightarrow> py_str j)"

text \<open>\<open>a or b or ... or d\<close> over JSON values.\<close>

fun jfirst :: "json list \<Rightarrow> json \<Rightarrow> json" where
  "jfirst [] d = d"
| "jfirst (j # js) d = (if jtruthy j then j else jfirst js d)"

text \<open>Field types: None is a ValidationError.\<close>

definition as_int :: "json \<Rightarrow> int option" where
  "as_int j = (case j of JInt n \<Rightarrow> Some n | _ \<Rightarrow> None)"

definition as_str :: "json \<Rightarrow> string option" where
  "as_str j = (case j of JStr s \<Rightarrow> Some s | _ \<Rightarrow> None)"

definition as_opt :: "(json \<Rightarrow> 'a option) \<Rightarrow> json \<Rightarrow> 'a option option" where
  "as_opt f j = (if j = JNull then Some None else map_option Some (f j))"

definition field_default :: "(json \<Rightarrow> 'a option) \<Rightarrow> 'a \<Rightarrow> string \<Rightarrow> (string \<times> json) list \<Rightarrow> 'a option" where
  "field_default f d k kvs = (case jget k kvs of None \<Rightarrow> Some d | Some j \<Rightarrow> f j)"

fun all_some :: "'a option list \<Rightarrow> 'a list option" where
  "all_some [] = Some []"
| "all_some (None # xs) = None"
| "all_some (Some x # xs) = map_option (Cons x) (all_some xs)"

definition as_list :: "(json \<Rightarrow> 'a option) \<Rightarrow> json \<Rightarrow> 'a list option" where
  "as_list f j = (case j of JList js \<Rightarrow> all_some (map f js) | _ \<Rightarrow> None)"

record drone_step =
  st_number :: int
  st_name :: string
  st_status :: string
  st_exit_code :: "int option"

record drone_stage =
  sg_number :: int
  sg_name :: string
  sg_status :: string
  sg_steps :: "drone_step list"

record drone_build =
  bd_number :: int
  bd_status :: string
  bd_event :: string
  bd_parent :: "int option"
  bd_target :: "string option"
  bd_branch :: string
  bd_commit_sha :: string
  bd_commit_message :: string
  bd_author :: string
  bd_stages :: "drone_stage list"

definition parse_step :: "json \<Rightarrow> drone_step option" where
  "parse_step j = (case j of
     JObj kvs \<Rightarrow>
       (case (as_int (jval ''number'' kvs), field_default as_str '''' ''name'' kvs,
              field_default as_str '''' ''status'' kvs, as_opt as_int (jval ''exit_code'' kvs)) of
          (Some n, Some nm, Some s, Some x) \<Rightarrow>
            Some \<lparr>st_number = n, st_name = nm, st_status = s, st_exit_code = x\<rparr>
        | _ \<Rightarrow> None)
   | _ \<Rightarrow> None)"

definition parse_stage :: "json \<Rightarrow> drone_stage option" where
  "parse_stage j = (case j of
     JObj kvs \<Rightarrow>
       (case (as_int (jval ''number'' kvs), field_default as_str '''' ''name'' kvs,
              field_default as_str '''' ''status'' kvs,
              field_default (as_list parse_step) [] ''steps'' kvs) of
          (Some n, Some nm, Some s, Some steps) \<Rightarrow>
            Some \<lparr>sg_number = n, sg_name = nm, sg_status = s, sg_steps = steps\<rparr>
        | _ \<Rightarrow> None)
   | _ \<Rightarrow> None)"

definition removeprefix :: "string \<Rightarrow> string \<Rightarrow> string" where
  "removeprefix p s = (if take (length p) s = p then drop (length p) s else s)"

text \<open>
  The branch: \<open>branch or ref.removeprefix("refs/heads/") or target or ""\<close>. The middle term is
  evaluated only when branch is false, and fails on a ref that is present but not a string.
\<close>

definition branch_value :: "(string \<times> json) list \<Rightarrow> exn + json" where
  "branch_value kvs =
     (if jtruthy (jval ''branch'' kvs) then Inr (jval ''branch'' kvs)
      else (case jget ''ref'' kvs of
              None \<Rightarrow> Inr (jfirst [jval ''target'' kvs] (JStr ''''))
            | Some (JStr r) \<Rightarrow>
                Inr (jfirst [JStr (removeprefix ''refs/heads/'' r), jval ''target'' kvs] (JStr ''''))
            | Some _ \<Rightarrow> Inl AttributeError))"

definition build_of :: "(string \<times> json) list \<Rightarrow> json \<Rightarrow> drone_build option" where
  "build_of kvs branch =
     (case (as_int (jval ''number'' kvs),
            as_opt as_int (let p = jval ''parent'' kvs in if jtruthy p then p else JNull),
            as_opt as_str (jval ''target'' kvs), as_str branch,
            as_str (jfirst [jval ''after'' kvs, jval ''commit'' kvs, jval ''commit_sha'' kvs] (JStr '''')),
            as_str (jfirst [jval ''message'' kvs, jval ''commit_message'' kvs] (JStr '''')),
            as_str (jfirst [jval ''author_name'' kvs, jval ''author'' kvs] (JStr '''')),
            as_list parse_stage (jfirst [jval ''stages'' kvs] (JList []))) of
        (Some n, Some parent, Some target, Some br, Some sha, Some msg, Some author, Some stages) \<Rightarrow>
          Some \<lparr>bd_number = n, bd_status = lower (str_default ''status'' kvs),
            bd_event = str_default ''event'' kvs, bd_parent = parent, bd_target = target,
            bd_branch = br, bd_commit_sha = sha, bd_commit_message = msg, bd_author = author,
            bd_stages = stages\<rparr>
      | _ \<Rightarrow> None)"

definition from_drone :: "(string \<times> json) list \<Rightarrow> exn + drone_build" where
  "from_drone kvs =
     (case branch_value kvs of
        Inl e \<Rightarrow> Inl e
      | Inr br \<Rightarrow> (case build_of kvs br of None \<Rightarrow> Inl ValidationError | Some b \<Rightarrow> Inr b))"

definition is_promotable :: "drone_build \<Rightarrow> bool" where
  "is_promotable b \<longleftrightarrow> bd_status b = ''success'' \<and> bd_event b = ''push''"

definition is_promotion_of :: "int \<Rightarrow> string \<Rightarrow> drone_build \<Rightarrow> bool" where
  "is_promotion_of source_build_number target b =
     (if bd_event b \<notin> {''promote'', ''promotion''} then False
      else if py_or (bd_target b) '''' \<noteq> target then False
      else bd_parent b = Some source_build_number)"

record repository_info =
  ri_owner :: string
  ri_name :: string
  ri_slug :: string
  ri_link :: "string option"
  ri_default_branch :: "string option"

definition repository_from_drone :: "(string \<times> json) list \<Rightarrow> string \<Rightarrow> string \<Rightarrow> exn + repository_info" where
  "repository_from_drone kvs owner name =
     (case (as_str (jfirst [jval ''namespace'' kvs] (JStr owner)),
            as_str (jfirst [jval ''name'' kvs] (JStr name)),
            as_str (jfirst [jval ''slug'' kvs] (JStr (owner @ ''/'' @ name))),
            as_opt as_str (jval ''link'' kvs), as_opt as_str (jval ''default_branch'' kvs)) of
        (Some ow, Some nm, Some slug, Some link, Some br) \<Rightarrow>
          Inr \<lparr>ri_owner = ow, ri_name = nm, ri_slug = slug, ri_link = link, ri_default_branch = br\<rparr>
      | _ \<Rightarrow> Inl ValidationError)"

subsection \<open>Requests\<close>

record client =
  cl_server :: string
  cl_token :: string

definition RETRYABLE_ERRORS :: "exn \<Rightarrow> bool" where
  "RETRYABLE_ERRORS e =
     (case e of DroneError k _ \<Rightarrow>
        k \<in> {DroneConnectionError, DroneTimeoutError, DroneUnexpectedResponseError} | _ \<Rightarrow> False)"

definition drone_classify :: "http_result \<Rightarrow> exn + json" where
  "drone_classify r =
     (case r of
        HttpTimeout \<Rightarrow> Inl (DroneError DroneTimeoutError ''Drone request timed out'')
      | HttpRequestError \<Rightarrow> Inl (DroneError DroneConnectionError ''Drone is unavailable'')
      | HttpResponse code body \<Rightarrow>
          (if code \<in> {401, 403} then Inl (DroneError DroneAuthenticationError ''Drone authentication failed'')
           else if code = 404 then Inl (DroneError DroneNotFoundError ''Drone build was not found'')
           else if code \<ge> 500 then Inl (DroneError DroneConnectionError ''Drone is unavailable'')
           else if code \<ge> 400 then Inl (DroneError DroneUnexpectedResponseError
             (''Drone returned HTTP '' @ str_of_int code))
           else (case body of
                   None \<Rightarrow> Inl (DroneError DroneUnexpectedResponseError ''Drone returned invalid JSON'')
                 | Some j \<Rightarrow> Inr j)))"

definition drone_rq :: "client \<Rightarrow> http_method \<Rightarrow> string \<Rightarrow> (string \<times> string) list \<Rightarrow> http_request" where
  "drone_rq cl meth path params =
     \<lparr>h_method = meth, h_server = rstrip CHR ''/'' (cl_server cl), h_auth = ''Bearer '' @ cl_token cl,
      h_path = path, h_params = params\<rparr>"

definition drone_request ::
    "env \<Rightarrow> client \<Rightarrow> http_method \<Rightarrow> string \<Rightarrow> (string \<times> string) list \<Rightarrow> world \<Rightarrow> (exn + json) \<times> world" where
  "drone_request v cl meth path params w =
     (case send v (drone_rq cl meth path params) w of (r, w') \<Rightarrow> (drone_classify r, w'))"

definition drone_read ::
    "env \<Rightarrow> client \<Rightarrow> string \<Rightarrow> (string \<times> string) list \<Rightarrow> world \<Rightarrow> (exn + json) \<times> world" where
  "drone_read v cl path params =
     retry_read (v_retry_attempts v) RETRYABLE_ERRORS (drone_request v cl GET path params)"

definition repo_path :: "string \<Rightarrow> string \<Rightarrow> string" where
  "repo_path owner repo = ''/api/repos/'' @ owner @ ''/'' @ repo"

text \<open>The payload of a read, handed to a parser that expects an object or a list.\<close>

definition expect :: "(json \<Rightarrow> exn + 'a) \<Rightarrow> (exn + json) \<times> world \<Rightarrow> (exn + 'a) \<times> world" where
  "expect f r = (case r of (Inl e, w) \<Rightarrow> (Inl e, w) | (Inr j, w) \<Rightarrow> (f j, w))"

fun parse_builds :: "json list \<Rightarrow> exn + drone_build list" where
  "parse_builds [] = Inr []"
| "parse_builds (j # js) =
     (case j of
        JObj kvs \<Rightarrow> (case from_drone kvs of
            Inl e \<Rightarrow> Inl e
          | Inr b \<Rightarrow> (case parse_builds js of Inl e \<Rightarrow> Inl e | Inr bs \<Rightarrow> Inr (b # bs)))
      | _ \<Rightarrow> Inl AttributeError)"

definition client_list_builds ::
    "env \<Rightarrow> client \<Rightarrow> string \<Rightarrow> string \<Rightarrow> int \<Rightarrow> world \<Rightarrow> (exn + drone_build list) \<times> world" where
  "client_list_builds v cl owner repo limit w =
     expect (\<lambda>j. case j of JList js \<Rightarrow> parse_builds js
        | _ \<Rightarrow> Inl (DroneError DroneUnexpectedResponseError ''Drone returned an invalid build list''))
       (drone_read v cl (repo_path owner repo @ ''/builds'') [(''limit'', str_of_int limit)] w)"

definition client_get_repository ::
    "env \<Rightarrow> client \<Rightarrow> string \<Rightarrow> string \<Rightarrow> world \<Rightarrow> (exn + repository_info) \<times> world" where
  "client_get_repository v cl owner repo w =
     expect (\<lambda>j. case j of JObj kvs \<Rightarrow> repository_from_drone kvs owner repo
        | _ \<Rightarrow> Inl (DroneError DroneUnexpectedResponseError ''Drone returned invalid repository metadata''))
       (drone_read v cl (repo_path owner repo) [] w)"

definition client_get_build ::
    "env \<Rightarrow> client \<Rightarrow> string \<Rightarrow> string \<Rightarrow> int \<Rightarrow> world \<Rightarrow> (exn + drone_build) \<times> world" where
  "client_get_build v cl owner repo build_number w =
     expect (\<lambda>j. case j of JObj kvs \<Rightarrow> from_drone kvs
        | _ \<Rightarrow> Inl (DroneError DroneUnexpectedResponseError ''Drone returned an invalid build''))
       (drone_read v cl (repo_path owner repo @ ''/builds/'' @ str_of_int build_number) [] w)"

definition promote_rq :: "client \<Rightarrow> string \<Rightarrow> string \<Rightarrow> int \<Rightarrow> string \<Rightarrow> http_request" where
  "promote_rq cl owner repo build_number target =
     drone_rq cl POST (repo_path owner repo @ ''/builds/'' @ str_of_int build_number @ ''/promote'')
       [(''target'', target)]"

definition promote_payload :: "json \<Rightarrow> exn + drone_build" where
  "promote_payload j =
     (case j of
        JObj kvs \<Rightarrow> (if jval ''number'' kvs = JNull
          then Inl (DroneError DronePromoteError ''Drone returned an invalid promotion build'')
          else from_drone kvs)
      | _ \<Rightarrow> Inl (DroneError DronePromoteError ''Drone returned an invalid promotion build''))"

definition client_promote_build ::
    "env \<Rightarrow> client \<Rightarrow> string \<Rightarrow> string \<Rightarrow> int \<Rightarrow> string \<Rightarrow> world \<Rightarrow> (exn + drone_build) \<times> world" where
  "client_promote_build v cl owner repo build_number target w =
     (case send v (promote_rq cl owner repo build_number target) w of
        (r, w') \<Rightarrow>
          (case drone_classify r of
             Inl (DroneError DroneNotFoundError _) \<Rightarrow>
               (Inl (DroneError DronePromoteError ''Drone could not create the promotion build''), w')
           | Inl e \<Rightarrow> (Inl e, w')
           | Inr j \<Rightarrow> (promote_payload j, w')))"

subsection \<open>The build service\<close>

text \<open>A client per component: the connection it resolves to, with its credential decrypted.\<close>

definition client_for :: "env \<Rightarrow> world \<Rightarrow> 'a component_row_scheme \<Rightarrow> exn + client" where
  "client_for v w c =
     (case drone_connection w c of
        Inl e \<Rightarrow> Inl e
      | Inr n \<Rightarrow> (case v_decrypt v (n_token_encrypted n) of
          None \<Rightarrow> Inl TokenDecryptionError
        | Some token \<Rightarrow> Inr \<lparr>cl_server = n_base_url n, cl_token = token\<rparr>))"

definition drone_repo :: "'a component_row_scheme \<Rightarrow> exn + (string \<times> string)" where
  "drone_repo c =
     (if c_drone_owner c \<noteq> [] \<and> c_drone_repo c \<noteq> [] then Inr (c_drone_owner c, c_drone_repo c)
      else Inl (DroneConfigurationError (''Component '' @ repr (c_key c) @
        '' has no Drone repository configured'')))"

text \<open>Every operation resolves the repository first, then the client, then calls.\<close>

definition with_client ::
    "env \<Rightarrow> 'c component_row_scheme \<Rightarrow> (client \<Rightarrow> string \<Rightarrow> string \<Rightarrow> world \<Rightarrow> (exn + 'a) \<times> world) \<Rightarrow>
     world \<Rightarrow> (exn + 'a) \<times> world" where
  "with_client v c call w =
     (case drone_repo c of
        Inl e \<Rightarrow> (Inl e, w)
      | Inr (owner, repo) \<Rightarrow> (case client_for v w c of
          Inl e \<Rightarrow> (Inl e, w)
        | Inr cl \<Rightarrow> call cl owner repo w))"

definition list_builds ::
    "env \<Rightarrow> 'c component_row_scheme \<Rightarrow> int \<Rightarrow> world \<Rightarrow> (exn + drone_build list) \<times> world" where
  "list_builds v c limit = with_client v c (\<lambda>cl ow rp. client_list_builds v cl ow rp limit)"

definition get_repository_info ::
    "env \<Rightarrow> 'c component_row_scheme \<Rightarrow> world \<Rightarrow> (exn + repository_info) \<times> world" where
  "get_repository_info v c = with_client v c (client_get_repository v)"

definition get_build ::
    "env \<Rightarrow> 'c component_row_scheme \<Rightarrow> int \<Rightarrow> world \<Rightarrow> (exn + drone_build) \<times> world" where
  "get_build v c n w =
     (case with_client v c (\<lambda>cl ow rp. client_get_build v cl ow rp n) w of
        (Inl (DroneError DroneNotFoundError _), w') \<Rightarrow> (Inl BuildNotFoundError, w')
      | r \<Rightarrow> r)"

definition validate_promotable ::
    "env \<Rightarrow> 'c component_row_scheme \<Rightarrow> int \<Rightarrow> world \<Rightarrow> (exn + drone_build) \<times> world" where
  "validate_promotable v c n w =
     (case get_build v c n w of
        (Inl e, w') \<Rightarrow> (Inl e, w')
      | (Inr b, w') \<Rightarrow>
          ((if is_promotable b then Inr b else Inl (BuildNotPromotableError ''Build is not promotable'')), w'))"

definition drone_promote ::
    "env \<Rightarrow> 'c component_row_scheme \<Rightarrow> int \<Rightarrow> string \<Rightarrow> world \<Rightarrow> (exn + drone_build) \<times> world" where
  "drone_promote v c n target = with_client v c (\<lambda>cl ow rp. client_promote_build v cl ow rp n target)"

text \<open>\<open>max\<close> by number: the first of equal ones.\<close>

fun max_by_number :: "drone_build \<Rightarrow> drone_build list \<Rightarrow> drone_build" where
  "max_by_number b [] = b"
| "max_by_number b (c # cs) = max_by_number (if bd_number c > bd_number b then c else b) cs"

definition pick_promotion :: "int \<Rightarrow> string \<Rightarrow> drone_build list \<Rightarrow> drone_build option" where
  "pick_promotion source_build_number target builds =
     (case filter (is_promotion_of source_build_number target) builds of
        [] \<Rightarrow> None | b # bs \<Rightarrow> Some (max_by_number b bs))"

definition find_promotion_build ::
    "env \<Rightarrow> 'c component_row_scheme \<Rightarrow> int \<Rightarrow> string \<Rightarrow> world \<Rightarrow> (exn + drone_build option) \<times> world" where
  "find_promotion_build v c source_build_number target w =
     (case list_builds v c 50 w of
        (Inl e, w') \<Rightarrow> (Inl e, w')
      | (Inr builds, w') \<Rightarrow> (Inr (pick_promotion source_build_number target builds), w'))"

end
