(* ===== verification/Drone_Client_Laws.thy ===== *)
theory Drone_Client_Laws
  imports Drone_Client
begin

section \<open>What a call to Drone can do\<close>

text \<open>
  A read changes no table and sends GET requests only, at most as many as the policy allows
  and one more only after a failure that says nothing about the resource. A promotion sends
  exactly one POST. The deployment services rest on these facts through the locale below.
\<close>

subsection \<open>Reads\<close>

definition only_gets :: "effect list \<Rightarrow> bool" where
  "only_gets es \<longleftrightarrow> (\<forall>e \<in> set es. \<exists>rq. e = Sent rq \<and> h_method rq = GET)"

definition reads :: "world \<Rightarrow> world \<Rightarrow> bool" where
  "reads w w' \<longleftrightarrow> w_cur w' = w_cur w \<and> w_durable w' = w_durable w \<and> w_ticks w' = w_ticks w \<and>
     (\<exists>es. w_trace w' = w_trace w @ es \<and> only_gets es)"

lemma only_gets_Nil [simp]: "only_gets []"
  by (simp add: only_gets_def)

lemma only_gets_append [simp]: "only_gets (xs @ ys) \<longleftrightarrow> only_gets xs \<and> only_gets ys"
  by (auto simp: only_gets_def)

lemma reads_refl [simp, intro]: "reads w w"
  by (simp add: reads_def)

lemma reads_trans [trans]: "reads u v \<Longrightarrow> reads v w \<Longrightarrow> reads u w"
  by (auto simp: reads_def)

lemma readsD: "reads w w' \<Longrightarrow> w_cur w' = w_cur w \<and> w_durable w' = w_durable w"
  by (simp add: reads_def)

lemma reads_registry: "reads w w' \<Longrightarrow> same_registry w' w"
  by (simp add: reads_def same_registry_def)

lemma reads_find [simp]:
  "reads w w' \<Longrightarrow> find_row d_id i (t_deployments (w_cur w')) = find_row d_id i (t_deployments (w_cur w))"
  by (simp add: reads_def)

lemma reads_send: "h_method rq = GET \<Longrightarrow> reads w (snd (send v rq w))"
  by (auto simp: reads_def send_def only_gets_def)

locale read_operation =
  fixes op :: "world \<Rightarrow> (exn + 'a) \<times> world"
  assumes op_reads: "reads w (snd (op w))"
begin

lemma retry_reads: "reads w (snd (retry_read n retry_on op w))"
proof (induction n arbitrary: w)
  case 0
  then show ?case by simp
next
  case (Suc n)
  obtain r w' where rw: "op w = (r, w')" by force
  with op_reads [of w] have "reads w w'" by simp
  then show ?case
    using Suc.IH [of w'] by (auto simp: rw split: sum.splits intro: reads_trans)
qed

end

interpretation drone_get: read_operation "drone_request v cl GET path params"
  by unfold_locales
    (auto simp: reads_def drone_request_def drone_rq_def send_def only_gets_def)

lemma drone_read_reads: "reads w (snd (drone_read v cl path params w))"
  unfolding drone_read_def by (rule drone_get.retry_reads)

lemma expect_snd [simp]: "snd (expect f r) = snd r"
  by (cases r) (simp add: expect_def split: sum.splits)

lemma client_reads:
  "reads w (snd (client_list_builds v cl ow rp limit w))"
  "reads w (snd (client_get_repository v cl ow rp w))"
  "reads w (snd (client_get_build v cl ow rp n w))"
  by (simp_all add: client_list_builds_def client_get_repository_def client_get_build_def
      drone_read_reads)

lemma with_client_reads:
  "(\<And>cl ow rp. reads w (snd (call cl ow rp w))) \<Longrightarrow> reads w (snd (with_client v c call w))"
  by (auto simp: with_client_def split: sum.splits)

lemma service_reads:
  "reads w (snd (list_builds v c limit w))" "reads w (snd (get_repository_info v c w))"
  "reads w (snd (with_client v c (\<lambda>cl ow rp. client_get_build v cl ow rp n) w))"
  by (simp_all add: list_builds_def get_repository_info_def with_client_reads client_reads)

lemma get_build_reads: "reads w (snd (get_build v c n w))"
  using service_reads(3) [of w v c n]
  by (auto simp: get_build_def split: prod.splits sum.splits exn.splits drone_error.splits)

lemma validate_promotable_reads: "reads w (snd (validate_promotable v c n w))"
  using get_build_reads [of w v c n]
  by (auto simp: validate_promotable_def split: prod.splits sum.splits)

lemma find_promotion_build_reads: "reads w (snd (find_promotion_build v c n tg w))"
  using service_reads(1) [of w v c 50]
  by (auto simp: find_promotion_build_def split: prod.splits sum.splits)

subsection \<open>Exact retry behaviour\<close>

text \<open>
  Which answers a read can end with: the last answer is returned, every answer before it was a
  retryable failure, and there are at most \<open>n\<close> answers.
\<close>

definition is_post :: "effect \<Rightarrow> bool" where
  "is_post e = (case e of Sent rq \<Rightarrow> h_method rq = POST | _ \<Rightarrow> False)"

lemma only_gets_no_post: "only_gets es \<Longrightarrow> filter is_post es = []"
  by (auto simp: only_gets_def is_post_def filter_empty_conv)

lemma reads_no_post: "reads w w' \<Longrightarrow> filter is_post (w_trace w') = filter is_post (w_trace w)"
  by (auto simp: reads_def only_gets_no_post)

lemma drone_read_attempts:
  "length (w_trace (snd (retry_read n retry_on (drone_request v cl GET p q) w)))
     \<le> length (w_trace w) + n"
proof (induction n arbitrary: w)
  case 0
  then show ?case by simp
next
  case (Suc n)
  obtain r w' where rw: "drone_request v cl GET p q w = (r, w')" by force
  have "length (w_trace w') = Suc (length (w_trace w))"
    using rw by (auto simp: drone_request_def send_def)
  then show ?case
    using Suc.IH [of w'] by (auto simp: rw split: sum.splits)
qed

lemma drone_read_final_error:
  assumes "fst (retry_read n retry_on op w) = Inl e" and "n \<noteq> 0"
  shows "\<exists>u. fst (op u) = Inl e"
  using assms
proof (induction n arbitrary: w)
  case 0
  then show ?case by simp
next
  case (Suc n)
  obtain r w' where rw: "op w = (r, w')" by force
  then have r: "r = fst (op w)" by simp
  show ?case
  proof (cases r)
    case (Inr x)
    with Suc.prems rw show ?thesis by simp
  next
    case (Inl e')
    show ?thesis
    proof (cases "retry_on e' \<and> n \<noteq> 0")
      case True
      with Suc.prems rw Inl have "fst (retry_read n retry_on op w') = Inl e" by simp
      with Suc.IH True show ?thesis by blast
    next
      case False
      with Suc.prems rw Inl have "e' = e" by (auto split: if_splits)
      with Inl r show ?thesis by auto
    qed
  qed
qed

subsection \<open>The promotion request\<close>

text \<open>A promotion sends one POST and nothing else, and never repeats it.\<close>

lemma client_promote_world:
  "snd (client_promote_build v cl ow rp n tg w)
     = w\<lparr>w_trace := w_trace w @ [Sent (promote_rq cl ow rp n tg)]\<rparr>"
  by (auto simp: client_promote_build_def send_def split: sum.splits exn.splits drone_error.splits)

definition sends_once :: "world \<Rightarrow> world \<Rightarrow> bool" where
  "sends_once w w' \<longleftrightarrow> w' = w \<or> (\<exists>rq. h_method rq = POST \<and> w' = w\<lparr>w_trace := w_trace w @ [Sent rq]\<rparr>)"

lemma promote_rq_method [simp]: "h_method (promote_rq cl ow rp n tg) = POST"
  by (simp add: promote_rq_def drone_rq_def)

lemma sends_once_promote: "sends_once w (snd (client_promote_build v cl ow rp n tg w))"
  unfolding client_promote_world sends_once_def using promote_rq_method by blast

lemma drone_promote_once: "sends_once w (snd (drone_promote v c n tg w))"
proof -
  have [simp]: "sends_once w w" by (simp add: sends_once_def)
  show ?thesis
    by (auto simp: drone_promote_def with_client_def sends_once_promote split: sum.splits)
qed

lemma sends_onceD:
  assumes "sends_once w w'"
  shows "w_cur w' = w_cur w" "w_durable w' = w_durable w" "w_ticks w' = w_ticks w"
    "length (filter is_post (w_trace w')) \<le> Suc (length (filter is_post (w_trace w)))"
  using assms by (auto simp: sends_once_def)

text \<open>
  Only an answer counts as a definite no: a transport failure, a 5xx, an unreadable body or
  another 4xx leave the outcome open; 401, 403 and 404 are a refusal.
\<close>

definition unconfirmed :: "exn \<Rightarrow> bool" where
  "unconfirmed e = (case e of DroneError k _ \<Rightarrow> drone_error_code k \<in> set UNCONFIRMED_PROMOTE_ERROR_CODES | _ \<Rightarrow> False)"

lemma classify_unconfirmed:
  "drone_classify r = Inl e \<Longrightarrow> unconfirmed e \<longleftrightarrow>
     r = HttpTimeout \<or> r = HttpRequestError \<or>
     (\<exists>code body. r = HttpResponse code body \<and> code \<notin> {401, 403, 404})"
  by (cases r) (auto simp: drone_classify_def unconfirmed_def UNCONFIRMED_PROMOTE_ERROR_CODES_def
      split: if_splits option.splits)

lemma promote_outcome:
  assumes "fst (client_promote_build v cl ow rp n tg w) = Inl e"
  shows "unconfirmed e \<longleftrightarrow>
     (let r = v_http v (w_trace w) (promote_rq cl ow rp n tg)
      in (\<exists>e'. drone_classify r = Inl e') \<and>
         (r = HttpTimeout \<or> r = HttpRequestError \<or>
          (\<exists>code body. r = HttpResponse code body \<and> code \<notin> {401, 403, 404})))"
proof -
  let ?r = "v_http v (w_trace w) (promote_rq cl ow rp n tg)"
  show ?thesis
  proof (cases "drone_classify ?r")
    case (Inr j)
    then have "promote_payload j = Inl e"
      using assms by (simp add: client_promote_build_def send_def)
    then have "\<not> unconfirmed e"
      by (auto simp: promote_payload_def unconfirmed_def from_drone_def branch_value_def
          UNCONFIRMED_PROMOTE_ERROR_CODES_def split: json.splits if_splits sum.splits option.splits)
    with Inr show ?thesis by (simp add: Let_def)
  next
    case (Inl e')
    show ?thesis
    proof (cases "\<exists>m. e' = DroneError DroneNotFoundError m")
      case True
      then have "e = DroneError DronePromoteError ''Drone could not create the promotion build''"
        using assms Inl by (auto simp: client_promote_build_def send_def)
      then have "\<not> unconfirmed e" "\<not> unconfirmed e'"
        using True by (auto simp: unconfirmed_def UNCONFIRMED_PROMOTE_ERROR_CODES_def)
      then show ?thesis using classify_unconfirmed [OF Inl] Inl by (auto simp: Let_def)
    next
      case False
      then have "e = e'"
        using assms Inl
        by (auto simp: client_promote_build_def send_def split: exn.splits drone_error.splits)
      then show ?thesis using classify_unconfirmed [OF Inl] Inl by (auto simp: Let_def)
    qed
  qed
qed

subsection \<open>Choosing the promotion to adopt\<close>

lemma max_by_number_in: "max_by_number b bs \<in> set (b # bs)"
  by (induction bs arbitrary: b) auto

lemma max_by_number_ge: "x \<in> set (b # bs) \<Longrightarrow> bd_number x \<le> bd_number (max_by_number b bs)"
proof (induction bs arbitrary: b x)
  case Nil
  then show ?case by simp
next
  case (Cons c cs)
  let ?m = "if bd_number c > bd_number b then c else b"
  have "bd_number ?m \<le> bd_number (max_by_number ?m cs)" by (rule Cons.IH) simp
  moreover have "bd_number b \<le> bd_number ?m" "bd_number c \<le> bd_number ?m" by auto
  ultimately show ?case using Cons.prems Cons.IH [of x ?m] by auto
qed

lemma pick_promotion_spec:
  assumes "pick_promotion n tg builds = Some b"
  shows "b \<in> set builds" "is_promotion_of n tg b"
    "\<And>c. c \<in> set builds \<Longrightarrow> is_promotion_of n tg c \<Longrightarrow> bd_number c \<le> bd_number b"
proof -
  obtain x xs where f: "filter (is_promotion_of n tg) builds = x # xs" and b: "b = max_by_number x xs"
    using assms by (auto simp: pick_promotion_def split: list.splits)
  have "b \<in> set (filter (is_promotion_of n tg) builds)"
    unfolding f b by (rule max_by_number_in)
  then show "b \<in> set builds" "is_promotion_of n tg b" by auto
  show "bd_number c \<le> bd_number b" if "c \<in> set builds" "is_promotion_of n tg c" for c
  proof -
    have "c \<in> set (x # xs)" unfolding f [symmetric] using that by simp
    then show ?thesis unfolding b by (rule max_by_number_ge)
  qed
qed

lemma pick_promotion_None: "pick_promotion n tg builds = None \<longleftrightarrow> (\<forall>b \<in> set builds. \<not> is_promotion_of n tg b)"
  unfolding pick_promotion_def
  by (cases "filter (is_promotion_of n tg) builds") (auto simp: filter_empty_conv filter_eq_Cons_iff)

end
