(* ===== verification/Orch_Store.thy ===== *)
theory Orch_Store
  imports World
begin

section \<open>Deployments, bundles and their audit trail in the session\<close>

text \<open>
  Lookups and assignments on the rows of deployments and release_bundles, the append-only
  event log (\<open>OrchestrationWorkflowService.append\<close>), the order in which a release deploys
  and the partial unique index that makes a duplicate promotion impossible.

  A method that assigns to an ORM object is \<open>upd_dep\<close> or \<open>upd_bundle\<close> on the object's id.
\<close>

definition find_dep :: "world \<Rightarrow> string \<Rightarrow> dep_row option" where
  "find_dep w i = find_row d_id i (t_deployments (w_cur w))"

definition find_bundle :: "world \<Rightarrow> string \<Rightarrow> bundle_row option" where
  "find_bundle w i = find_row b_id i (t_bundles (w_cur w))"

definition upd_dep :: "string \<Rightarrow> (dep_row \<Rightarrow> dep_row) \<Rightarrow> world \<Rightarrow> world" where
  "upd_dep i f = set_tables (\<lambda>t. t\<lparr>t_deployments := upd_row d_id i f (t_deployments t)\<rparr>)"

definition upd_bundle :: "string \<Rightarrow> (bundle_row \<Rightarrow> bundle_row) \<Rightarrow> world \<Rightarrow> world" where
  "upd_bundle i f = set_tables (\<lambda>t. t\<lparr>t_bundles := upd_row b_id i f (t_bundles t)\<rparr>)"

definition upd_release :: "string option \<Rightarrow> (bundle_row \<Rightarrow> bundle_row) \<Rightarrow> world \<Rightarrow> world" where
  "upd_release rel f = (case rel of None \<Rightarrow> (\<lambda>w. w) | Some i \<Rightarrow> upd_bundle i f)"

text \<open>The relationship \<open>bundle.deployments\<close>, ordered by \<open>created_at\<close>.\<close>

definition bundle_deployments :: "world \<Rightarrow> string \<Rightarrow> dep_row list" where
  "bundle_deployments w i =
     sort_key d_created_at
       (filter (\<lambda>d. d_release_bundle_id d = Some i) (t_deployments (w_cur w)))"

subsection \<open>Order of deployment\<close>

definition POSITION_OF_A_MISSING_COMPONENT :: int where
  "POSITION_OF_A_MISSING_COMPONENT = 1000000"

definition position_of :: "world \<Rightarrow> 'a deployment_scheme \<Rightarrow> int" where
  "position_of w d =
     (case find_row c_id (d_component_id d) (t_components (w_cur w)) of
        None \<Rightarrow> POSITION_OF_A_MISSING_COMPONENT | Some c \<Rightarrow> c_position c)"

definition order_key :: "world \<Rightarrow> 'a deployment_scheme \<Rightarrow> int \<times> time \<times> string" where
  "order_key w d = (position_of w d, d_created_at d, d_id d)"

definition ordered_by_component :: "world \<Rightarrow> 'a deployment_scheme list \<Rightarrow> 'a deployment_scheme list" where
  "ordered_by_component w ds = sort_key (order_key w) ds"

subsection \<open>The event log\<close>

text \<open>
  The row \<open>append\<close> builds from the release and the deployment it is given (either may be
  absent), the actor of the session and the current instant.
\<close>

definition the_event ::
    "env \<Rightarrow> world \<Rightarrow> bundle_row option \<Rightarrow> dep_row option \<Rightarrow> string \<Rightarrow> event_type \<Rightarrow>
     string option \<Rightarrow> string option \<Rightarrow> string option \<Rightarrow> workflow_event" where
  "the_event v w release dep stage kind status code message =
     \<lparr>e_release_bundle_id =
        (case release of Some b \<Rightarrow> Some (b_id b)
         | None \<Rightarrow> (case dep of Some d \<Rightarrow> d_release_bundle_id d | None \<Rightarrow> None)),
      e_deployment_id = map_option d_id dep,
      e_workflow_instance_id =
        (case release of Some b \<Rightarrow> b_workflow_instance_id b
         | None \<Rightarrow> (case dep of None \<Rightarrow> None
             | Some d \<Rightarrow> (case d_release_bundle_id d of None \<Rightarrow> None
                 | Some i \<Rightarrow> (case find_bundle w i of None \<Rightarrow> None
                     | Some b \<Rightarrow> b_workflow_instance_id b)))),
      e_stage = stage, e_event_type = kind, e_status = status, e_error_code = code,
      e_message = message, e_actor = py_or (v_actor v) (as_value AS_SYSTEM),
      e_actor_source = v_actor_source v, e_component = map_option d_component dep,
      e_target = (case release of Some b \<Rightarrow> Some (b_target b)
         | None \<Rightarrow> map_option d_target dep),
      e_created_at = now_of v w\<rparr>"

definition add_event :: "workflow_event \<Rightarrow> world \<Rightarrow> world" where
  "add_event e = set_tables (\<lambda>t. t\<lparr>t_events := t_events t @ [e]\<rparr>)"

definition log ::
    "env \<Rightarrow> string option \<Rightarrow> string option \<Rightarrow> string \<Rightarrow> event_type \<Rightarrow>
     string option \<Rightarrow> string option \<Rightarrow> string option \<Rightarrow> world \<Rightarrow> world" where
  "log v rel dep stage kind status code message w =
     tick (add_event (the_event v w (Option.bind rel (find_bundle w))
       (Option.bind dep (find_dep w)) stage kind status code message) w)"

text \<open>\<open>deployment.status\<close> and \<open>bundle.status\<close> as an event carries them.\<close>

definition dep_status :: "world \<Rightarrow> string \<Rightarrow> string option" where
  "dep_status w i = map_option (ds_value \<circ> d_status) (find_dep w i)"

definition bundle_status_of :: "world \<Rightarrow> string \<Rightarrow> string option" where
  "bundle_status_of w i = map_option (bs_value \<circ> b_status) (find_bundle w i)"

subsection \<open>The promotion slot\<close>

definition ACTIVE_PROMOTION_STATUSES :: "deployment_status list" where
  "ACTIVE_PROMOTION_STATUSES = [DS_WAITING, DS_PROMOTING, DS_DEPLOYING, DS_SUCCESS]"

definition promotion_slot :: "'a deployment_scheme \<Rightarrow> string \<times> string \<times> string \<times> int \<times> string" where
  "promotion_slot d =
     (d_drone_connection_id d, d_drone_owner d, d_drone_repository d, d_source_build_number d,
      d_target d)"

definition slot_active :: "'a deployment_scheme \<Rightarrow> bool" where
  "slot_active d \<longleftrightarrow> d_status d \<in> set ACTIVE_PROMOTION_STATUSES"

text \<open>uq_deployments_active_promotion, as a condition on the table.\<close>

definition slots_unique :: "'a deployment_scheme list \<Rightarrow> bool" where
  "slots_unique ds \<longleftrightarrow> distinct (map promotion_slot (filter slot_active ds))"

subsection \<open>Lookup after assignment\<close>

text \<open>An assignment never changes the key of its row.\<close>

definition keeps_id :: "(dep_row \<Rightarrow> dep_row) \<Rightarrow> bool" where
  "keeps_id f \<longleftrightarrow> (\<forall>d. d_id (f d) = d_id d)"

definition keeps_bid :: "(bundle_row \<Rightarrow> bundle_row) \<Rightarrow> bool" where
  "keeps_bid f \<longleftrightarrow> (\<forall>b. b_id (f b) = b_id b)"

lemma find_dep_upd_same [simp]: "keeps_id f \<Longrightarrow> find_dep (upd_dep i f w) i = map_option f (find_dep w i)"
  by (simp add: find_dep_def upd_dep_def keeps_id_def)

lemma find_dep_upd_other [simp]: "keeps_id f \<Longrightarrow> j \<noteq> i \<Longrightarrow> find_dep (upd_dep i f w) j = find_dep w j"
  by (simp add: find_dep_def upd_dep_def keeps_id_def)

lemma find_bundle_upd_same [simp]:
  "keeps_bid f \<Longrightarrow> find_bundle (upd_bundle i f w) i = map_option f (find_bundle w i)"
  by (simp add: find_bundle_def upd_bundle_def keeps_bid_def)

lemma find_frame [simp]:
  "find_bundle (upd_dep i f w) k = find_bundle w k"
  "find_dep (upd_bundle j g w) i' = find_dep w i'"
  "find_dep (add_event e w) i' = find_dep w i'" "find_bundle (add_event e w) k = find_bundle w k"
  "find_dep (tick w) i' = find_dep w i'" "find_bundle (tick w) k = find_bundle w k"
  "find_dep (commit w) i' = find_dep w i'" "find_bundle (commit w) k = find_bundle w k"
  "find_dep (log v r dd st kd ss cd ms w) i' = find_dep w i'"
  "find_bundle (log v r dd st kd ss cd ms w) k = find_bundle w k"
  "find_dep (snd (send v rq w)) i' = find_dep w i'"
  "find_bundle (snd (send v rq w)) k = find_bundle w k"
  by (simp_all add: find_dep_def find_bundle_def upd_dep_def upd_bundle_def add_event_def log_def)

lemma find_dep_upd_release [simp]: "find_dep (upd_release rel g w) i = find_dep w i"
  by (cases rel) (simp_all add: upd_release_def)

text \<open>What each primitive does to trace, durable tables and deployments.\<close>

lemma store_frame [simp]:
  "w_trace (upd_dep i f w) = w_trace w" "w_durable (upd_dep i f w) = w_durable w"
  "w_trace (upd_bundle j g w) = w_trace w" "w_durable (upd_bundle j g w) = w_durable w"
  "w_trace (add_event e w) = w_trace w" "w_durable (add_event e w) = w_durable w"
  "w_trace (log v r dd st kd ss cd ms w) = w_trace w"
  "w_durable (log v r dd st kd ss cd ms w) = w_durable w"
  by (simp_all add: upd_dep_def upd_bundle_def add_event_def log_def)

lemma store_frame_release [simp]:
  "w_trace (upd_release rel g w) = w_trace w" "w_durable (upd_release rel g w) = w_durable w"
  by (cases rel; simp add: upd_release_def)+

lemma cur_deployments [simp]:
  "t_deployments (w_cur (upd_dep i f w)) = upd_row d_id i f (t_deployments (w_cur w))"
  "t_deployments (w_cur (upd_bundle j g w)) = t_deployments (w_cur w)"
  "t_deployments (w_cur (add_event e w)) = t_deployments (w_cur w)"
  "t_deployments (w_cur (log v r dd st kd ss cd ms w)) = t_deployments (w_cur w)"
  by (simp_all add: upd_dep_def upd_bundle_def add_event_def log_def)

lemma cur_deployments_release [simp]:
  "t_deployments (w_cur (upd_release rel g w)) = t_deployments (w_cur w)"
  by (cases rel) (simp_all add: upd_release_def)

lemma cur_others [simp]:
  "t_components (w_cur (upd_dep i f w)) = t_components (w_cur w)"
  "t_components (w_cur (upd_bundle j g w)) = t_components (w_cur w)"
  "t_components (w_cur (add_event e w)) = t_components (w_cur w)"
  "t_components (w_cur (log v r dd st kd ss cd ms w)) = t_components (w_cur w)"
  "t_events (w_cur (upd_dep i f w)) = t_events (w_cur w)"
  "t_events (w_cur (upd_bundle j g w)) = t_events (w_cur w)"
  "t_events (w_cur (add_event e w)) = t_events (w_cur w) @ [e]"
  by (simp_all add: upd_dep_def upd_bundle_def add_event_def log_def)

text \<open>The transitions of the entity keep the id, also on a row.\<close>

lemma keeps_id_transitions [simp]:
  "keeps_id (dep_fail st code msg at)" "keeps_id (dep_cancel reason at)"
  "keeps_id (\<lambda>d. snd (dep_succeed at d))" "keeps_id (keep_deploying at)"
  "keeps_id (record_promotion n at)" "keeps_id (mark_promotion_unconfirmed code at)"
  "keeps_id (\<lambda>d. snd (record_poll_failure code msg at d))"
  "keeps_id (\<lambda>d. snd (clear_poll_failure at d))"
  "keeps_id (\<lambda>d. snd (claim_for_promotion at d))"
  "keeps_id (\<lambda>d. snd (dep_reset_for_retry at d))"
  by (auto simp: keeps_id_def dep_transition_defs split: option.splits)

lemma keeps_bid_transitions [simp]:
  "keeps_bid (bundle_mirror s st at)" "keeps_bid (\<lambda>b. snd (bundle_fail f a at b))"
  "keeps_bid (bundle_finish_success at)"
  by (simp_all add: keeps_bid_def bundle_transition_defs)

subsection \<open>Order of deployment: what it guarantees\<close>

lemma ordered_by_component_mset [simp]: "mset (ordered_by_component w ds) = mset ds"
  by (simp add: ordered_by_component_def)

lemma ordered_by_component_set [simp]: "set (ordered_by_component w ds) = set ds"
  by (simp add: ordered_by_component_def)

lemma ordered_by_component_sorted: "sorted (map (order_key w) (ordered_by_component w ds))"
  by (simp add: ordered_by_component_def)

text \<open>
  Ids make the key unique, so the order does not depend on how the rows came back from the
  database.
\<close>

lemma ordered_by_component_unique:
  assumes "mset ds = mset es" and "distinct (map d_id ds)"
  shows "ordered_by_component w ds = ordered_by_component w es"
proof -
  have inj: "inj_on (order_key w) (set ds)"
    using assms(2) by (auto simp: inj_on_def distinct_map order_key_def)
  show ?thesis
    unfolding ordered_by_component_def
    using properties_for_sort_key [of "sort_key (order_key w) es" ds "order_key w"] assms(1) inj
    by (metis (no_types, lifting) mset_sort properties_for_sort_key sorted_sort_key
        inj_on_subset order_refl mset_eq_setD sort_key_inj_key_eq)
qed

text \<open>An earlier position comes first, whatever the creation times.\<close>

lemma ordered_by_component_position:
  assumes "i < j" and "j < length (ordered_by_component w ds)"
  shows "position_of w (ordered_by_component w ds ! i) \<le> position_of w (ordered_by_component w ds ! j)"
  using sorted_nth_mono [OF ordered_by_component_sorted, of i j w ds] assms
  by (auto simp: order_key_def less_eq_prod_def)

end
