(* ===== verification/CI_Policy.thy ===== *)
theory CI_Policy
  imports Drone_Client_Laws Orch_Store
begin

section \<open>Guards re-checked before a promotion is dispatched\<close>

text \<open>
  app/services/ci_policy.py, the activity check of ci_tokens.py and
  app/services/planned_deployment_guard.py: which stages a build must have run, whether the
  CI credential behind a deployment still authorises it, and whether an approved release plan
  still describes it.
\<close>

subsection \<open>Stages\<close>

definition deployment_steps_ok :: "drone_stage \<Rightarrow> bool" where
  "deployment_steps_ok st \<longleftrightarrow>
     (\<exists>s \<in> set (sg_steps st). st_status s = ''success'' \<and> st_name s \<noteq> ''clone'') \<and>
     (\<forall>s \<in> set (sg_steps st). st_status s = ''success'' \<or> st_status s = ''skipped'')"

definition stage_ok :: "drone_build \<Rightarrow> bool \<Rightarrow> string \<Rightarrow> bool" where
  "stage_ok build is_deployment name =
     (case filter (\<lambda>st. sg_name st = name) (bd_stages build) of
        [st] \<Rightarrow> sg_status st = ''success'' \<and> (is_deployment \<longrightarrow> deployment_steps_ok st)
      | _ \<Rightarrow> False)"

definition stages_succeeded :: "drone_build \<Rightarrow> string list \<Rightarrow> bool \<Rightarrow> bool" where
  "stages_succeeded build names is_deployment \<longleftrightarrow>
     names \<noteq> [] \<and> (\<forall>name \<in> set names. stage_ok build is_deployment name)"

subsection \<open>CI credentials\<close>

text \<open>\<open>token_active\<close> reads the clock only for a token that exists and is not revoked.\<close>

definition token_active :: "env \<Rightarrow> ci_token option \<Rightarrow> world \<Rightarrow> bool \<times> world" where
  "token_active v token w =
     (case token of
        None \<Rightarrow> (False, w)
      | Some k \<Rightarrow> (if k_revoked_at k \<noteq> None then (False, w)
                   else (k_expires_at k > now_of v w, tick w)))"

definition requested_by_token :: "string \<Rightarrow> string" where
  "requested_by_token token_id = ''ci-token:'' @ token_id"

text \<open>The CI request that owns the dispatch of a deployment, if its credential asked for it.\<close>

definition owning_job :: "world \<Rightarrow> dep_row \<Rightarrow> ci_job option" where
  "owning_job w d =
     (case List.find (\<lambda>j. j_deployment_id j = Some (d_id d)) (t_ci_jobs (w_cur w)) of
        None \<Rightarrow> None
      | Some j \<Rightarrow> (if d_requested_by d = Some (requested_by_token (j_service_token_id j))
                   then Some j else None))"

definition archived :: "world \<Rightarrow> 'a component_row_scheme \<Rightarrow> bool" where
  "archived w c = (case project_of w c of None \<Rightarrow> False | Some p \<Rightarrow> p_is_archived p)"

definition same_route :: "component_row \<Rightarrow> string \<Rightarrow> ci_job \<Rightarrow> bool" where
  "same_route c connection_id j \<longleftrightarrow>
     (c_drone_owner c, c_drone_repo c, connection_id)
       = (j_drone_owner j, j_drone_repository j, j_drone_connection_id j)"

definition override_ok :: "component_row \<Rightarrow> string \<Rightarrow> bool" where
  "override_ok c target \<longleftrightarrow>
     \<not> py_truthy (c_promote_target_override c) \<or> c_promote_target_override c = Some target"

definition ci_dispatch_allowed :: "env \<Rightarrow> dep_row \<Rightarrow> component_row \<Rightarrow> world \<Rightarrow> (exn + bool) \<times> world" where
  "ci_dispatch_allowed v d c w =
     (case owning_job w d of
        None \<Rightarrow> (Inr True, w)
      | Some j \<Rightarrow>
          (case token_active v (find_row k_id (j_service_token_id j) (t_ci_tokens (w_cur w))) w of
             (False, w1) \<Rightarrow> (Inr False, w1)
           | (True, w1) \<Rightarrow>
               (let w2 = tick w1 in
                if \<not> j_deadline_at j > now_of v w1 then (Inr False, w2)
                else if archived w2 c then (Inr False, w2)
                else if \<not> c_is_active c then (Inr False, w2)
                else (case drone_connection w2 c of
                        Inl e \<Rightarrow> (Inl e, w2)
                      | Inr n \<Rightarrow> (Inr (same_route c (n_id n) j \<and> override_ok c (j_target j)), w2)))))"

subsection \<open>Approved plans\<close>

definition CONFLICT :: string where "CONFLICT = ''CONFLICT''"

definition plan_route_of :: "component_row \<Rightarrow> connection \<Rightarrow> plan_route" where
  "plan_route_of c n =
     \<lparr>pr_component_id = c_id c, pr_connection_id = n_id n, pr_server = n_base_url n,
      pr_owner = c_drone_owner c, pr_repository = c_drone_repo c, pr_position = c_position c,
      pr_target_override = c_promote_target_override c\<rparr>"

definition plan_action_for :: "release_plan \<Rightarrow> dep_row \<Rightarrow> plan_action option" where
  "plan_action_for plan d =
     List.find (\<lambda>a. pa_component a = d_component d) (ps_actions (pl_snapshot plan))"

definition plan_allows ::
    "env \<Rightarrow> world \<Rightarrow> release_plan \<Rightarrow> plan_action \<Rightarrow> plan_route \<Rightarrow> dep_row \<Rightarrow> component_row \<Rightarrow> bool" where
  "plan_allows v w plan a route d c \<longleftrightarrow>
     v_digest v (pl_snapshot plan) = pl_digest plan \<and>
     py_truthy (pl_approved_by plan) \<and>
     pl_status plan \<in> {''executing'', ''executed'', ''execution_failed''} \<and>
     pl_project_id plan = d_project_id d \<and>
     route = pa_route a \<and>
     c_is_active c \<and>
     \<not> archived w c \<and>
     d_target d = ps_target (pl_snapshot plan) \<and>
     Some (d_source_build_number d) = pa_build_number a \<and>
     Some (d_commit_sha d) = pa_commit_sha a"

definition verify_planned_deployment ::
    "env \<Rightarrow> dep_row \<Rightarrow> component_row \<Rightarrow> world \<Rightarrow> (exn + unit) \<times> world" where
  "verify_planned_deployment v d c w =
     (if \<not> py_truthy (d_release_bundle_id d) then (Inr (), w)
      else case List.find (\<lambda>p. pl_release_id p = d_release_bundle_id d) (t_plans (w_cur w)) of
        None \<Rightarrow> (Inr (), w)
      | Some plan \<Rightarrow>
          (case drone_connection w c of
             Inl e \<Rightarrow> (Inl e, w)
           | Inr n \<Rightarrow>
               (case plan_action_for plan d of
                  None \<Rightarrow> (Inl (MCPToolError CONFLICT ''Approved deployment constraints changed.''), w)
                | Some a \<Rightarrow>
                    (if \<not> plan_allows v w plan a (plan_route_of c n) d c
                     then (Inl (MCPToolError CONFLICT ''Approved deployment constraints changed.''), w)
                     else (case validate_promotable v c (d_source_build_number d) w of
                             (Inl e, w1) \<Rightarrow> (Inl e, w1)
                           | (Inr b, w1) \<Rightarrow>
                               (if Some (bd_commit_sha b) \<noteq> pa_commit_sha a
                                then (Inl (MCPToolError CONFLICT ''Approved source commit changed.''), w1)
                                else (Inr (), w1)))))))"

subsection \<open>What passing the guards means\<close>

text \<open>A required stage ran exactly once and succeeded; for a deployment it did real work.\<close>

lemma stage_okD:
  assumes "stage_ok b dpl name"
  shows "\<exists>!st. st \<in> set (bd_stages b) \<and> sg_name st = name"
    and "\<And>st. st \<in> set (bd_stages b) \<Longrightarrow> sg_name st = name \<Longrightarrow>
           sg_status st = ''success'' \<and> (dpl \<longrightarrow> deployment_steps_ok st)"
proof -
  obtain st where f: "filter (\<lambda>st. sg_name st = name) (bd_stages b) = [st]"
      and ok: "sg_status st = ''success'' \<and> (dpl \<longrightarrow> deployment_steps_ok st)"
    using assms by (auto simp: stage_ok_def split: list.splits)
  have s: "{x \<in> set (bd_stages b). sg_name x = name} = {st}"
    using arg_cong [OF f, of set] by simp
  show "\<exists>!st. st \<in> set (bd_stages b) \<and> sg_name st = name"
    using s by (intro ex1I [of _ st]) auto
  show "sg_status x = ''success'' \<and> (dpl \<longrightarrow> deployment_steps_ok x)"
    if "x \<in> set (bd_stages b)" "sg_name x = name" for x
  proof -
    have "x \<in> {st}" unfolding s [symmetric] using that by simp
    then show ?thesis using ok by simp
  qed
qed

lemma token_active_world: "w_cur (snd (token_active v k w)) = w_cur w \<and>
    w_durable (snd (token_active v k w)) = w_durable w \<and> w_trace (snd (token_active v k w)) = w_trace w"
  by (auto simp: token_active_def split: option.splits)

text \<open>
  The two guards change no table and make nothing durable; they send reads only. Their clock
  readings are the only other trace they leave.
\<close>

definition looks :: "world \<Rightarrow> world \<Rightarrow> bool" where
  "looks w w' \<longleftrightarrow> w_cur w' = w_cur w \<and> w_durable w' = w_durable w \<and>
     (\<exists>es. w_trace w' = w_trace w @ es \<and> only_gets es)"

lemma looks_refl [simp, intro]: "looks w w"
  by (simp add: looks_def)

lemma looks_trans: "looks u v \<Longrightarrow> looks v w \<Longrightarrow> looks u w"
  by (auto simp: looks_def)

lemma reads_looks: "reads w w' \<Longrightarrow> looks w w'"
  by (auto simp: reads_def looks_def)

lemma looks_tick [simp, intro]: "looks w (tick w)"
  by (simp add: looks_def)

lemma looks_find [simp]: "looks w w' \<Longrightarrow> find_dep w' i = find_dep w i"
  by (simp add: looks_def find_dep_def)

lemma token_active_looks: "token_active v k w = (b, w') \<Longrightarrow> looks w w'"
  using token_active_world [of v k w] by (simp add: looks_def)

lemma looks_then_tick: "looks w w' \<Longrightarrow> looks w (tick w')"
  by (simp add: looks_def)

lemma ci_dispatch_looks: "looks w (snd (ci_dispatch_allowed v d c w))"
  by (auto simp: ci_dispatch_allowed_def Let_def split: option.split prod.split bool.split sum.split
      dest!: token_active_looks intro: looks_then_tick)

lemma verify_planned_looks: "looks w (snd (verify_planned_deployment v d c w))"
  using reads_looks [OF validate_promotable_reads [of w v c "d_source_build_number d"]]
  by (auto simp: verify_planned_deployment_def split: option.splits sum.splits prod.splits)

text \<open>What a granted CI dispatch means.\<close>

lemma ci_dispatch_granted:
  assumes "ci_dispatch_allowed v d c w = (Inr True, w')" and "owning_job w d = Some j"
  shows "\<exists>k n. find_row k_id (j_service_token_id j) (t_ci_tokens (w_cur w)) = Some k \<and>
     k_revoked_at k = None \<and> k_expires_at k > now_of v w \<and>
     j_deadline_at j > now_of v (tick w) \<and> \<not> archived w c \<and> c_is_active c \<and>
     drone_connection w c = Inr n \<and> same_route c (n_id n) j \<and> override_ok c (j_target j)"
proof -
  have reg: "same_registry (tick w) w" "same_registry (tick (tick w)) w"
    by (simp_all add: same_registry_def)
  show ?thesis
    using assms
    by (auto simp: ci_dispatch_allowed_def token_active_def Let_def archived_def project_of_def
        registry_cong [OF reg(2)] split: option.splits prod.splits bool.splits sum.splits if_splits)
qed

end
