(* ===== verification/Deployment_Service.thy ===== *)
theory Deployment_Service
  imports CI_Policy
begin

section \<open>The deployment service\<close>

text \<open>
  app/services/deployment_service.py, the live promotion and polling path. Its methods take
  ORM objects, so here they take the id of a deployment and the optional id of the release
  bundle it belongs to, and read the current row. The assignments of \<open>fail\<close>, \<open>succeed\<close>,
  \<open>cancel\<close>, \<open>reset_for_retry\<close>, \<open>claim_for_promotion\<close>, \<open>_record_promotion\<close>,
  \<open>_mark_promotion_unconfirmed\<close>, \<open>_record_poll_failure\<close> and \<open>_clear_poll_failure\<close> on the
  deployment are field by field those of the entity's methods of the same names, and are
  written as such.
\<close>

subsection \<open>Messages\<close>

definition build_label :: "int \<Rightarrow> string" where
  "build_label number = ''Drone promotion build #'' @ str_of_int number"

definition msg_created :: "int \<Rightarrow> string" where
  "msg_created number = build_label number @ '' created''"

definition msg_is :: "int \<Rightarrow> string \<Rightarrow> string" where
  "msg_is number status = build_label number @ '' is '' @ status"

definition msg_verdict :: "int \<Rightarrow> string \<Rightarrow> string" where
  "msg_verdict number status = build_label number @ '' '' @ status"

definition msg_adopted :: "int \<Rightarrow> string" where
  "msg_adopted number = ''Adopted existing '' @ build_label number @ '' instead of creating a second one''"

definition msg_recovered :: "string \<Rightarrow> string" where
  "msg_recovered code = ''Drone is reachable again after '' @ code"

subsection \<open>Creating a deployment\<close>

definition same_promotion :: "string \<Rightarrow> string \<Rightarrow> string \<Rightarrow> int \<Rightarrow> string \<Rightarrow> dep_row \<Rightarrow> bool" where
  "same_promotion connection_id owner repository build_number target d \<longleftrightarrow>
     promotion_slot d = (connection_id, owner, repository, build_number, target) \<and> slot_active d"

definition assert_not_duplicate :: "component_row \<Rightarrow> int \<Rightarrow> string \<Rightarrow> world \<Rightarrow> exn + unit" where
  "assert_not_duplicate c build_number target w =
     (case drone_connection w c of
        Inl e \<Rightarrow> Inl e
      | Inr n \<Rightarrow>
          (if \<exists>d \<in> set (t_deployments (w_cur w)).
                same_promotion (n_id n) (c_drone_owner c) (c_drone_repo c) build_number target d
           then Inl (DuplicatePromotionError ''This build has already been promoted to this target'')
           else Inr ()))"

definition find_policy :: "world \<Rightarrow> string \<Rightarrow> string \<Rightarrow> ci_policy option" where
  "find_policy w component_id target =
     List.find (\<lambda>y. y_component_id y = component_id \<and> y_target y = target) (t_ci_policies (w_cur w))"

definition new_deployment ::
    "env \<Rightarrow> world \<Rightarrow> component_row \<Rightarrow> string \<Rightarrow> (string \<times> string) \<Rightarrow> drone_build \<Rightarrow> string \<Rightarrow>
     string option \<Rightarrow> string option \<Rightarrow> dep_row" where
  "new_deployment v w c connection_id repo build target bundle requested_by =
     \<lparr>d_id = new_uuid v w, d_project_id = c_project_id c, d_component_id = c_id c,
      d_component = c_key c, d_drone_connection_id = connection_id, d_drone_owner = fst repo,
      d_drone_repository = snd repo, d_source_build_number = bd_number build,
      d_commit_sha = bd_commit_sha build, d_branch = bd_branch build, d_target = target,
      d_status = DS_WAITING, d_created_at = now_of v w, d_updated_at = now_of v (tick w),
      d_release_bundle_id = bundle, d_promotion_build_number = None,
      d_publish_status = PS_NOT_PUBLISHED, d_version = None, d_gitea_release_id = None,
      d_gitea_release_tag = None, d_gitea_release_url = None, d_current_stage = None,
      d_failed_stage = None, d_error_code = None, d_error_message = None,
      d_cancel_reason = None, d_poll_error_code = None, d_poll_error_message = None,
      d_poll_failure_count = 0, d_requested_by = requested_by, d_started_at = None,
      d_failed_at = None, d_cancelled_at = None, d_finished_at = None,
      d_publish_started_at = None, d_published_at = None, d_publish_failed_at = None,
      d_publish_error_code = None, d_publish_error_message = None,
      d_required_promotion_stages = map_option y_promotion_stages (find_policy w (c_id c) target),
      d_attachment = None\<rparr>"

definition insert_deployment :: "dep_row \<Rightarrow> world \<Rightarrow> world" where
  "insert_deployment d = set_tables (\<lambda>t. t\<lparr>t_deployments := t_deployments t @ [d]\<rparr>)"

text \<open>
  The INSERT is accepted when the primary key is new and the partial unique index holds;
  otherwise the flush raises IntegrityError and the whole transaction is rolled back.
\<close>

definition svc_create ::
    "env \<Rightarrow> component_row \<Rightarrow> drone_build \<Rightarrow> string \<Rightarrow> string option \<Rightarrow> string option \<Rightarrow>
     world \<Rightarrow> (exn + string) \<times> world" where
  "svc_create v c build target bundle requested_by w =
     (case drone_repo c of
        Inl e \<Rightarrow> (Inl e, w)
      | Inr repo \<Rightarrow> (case drone_connection w c of
          Inl e \<Rightarrow> (Inl e, w)
        | Inr n \<Rightarrow>
            (let d = new_deployment v w c (n_id n) repo build target bundle requested_by;
                 w1 = insert_deployment d (tick (tick w))
             in if keyed d_id (t_deployments (w_cur w1)) \<and> slots_unique (t_deployments (w_cur w1))
                then (Inr (d_id d), w1)
                else (Inl (DuplicatePromotionError
                       ''This build has already been promoted to this target''), rollback w1))))"

subsection \<open>Terminal transitions\<close>

definition svc_succeed :: "env \<Rightarrow> string \<Rightarrow> string option \<Rightarrow> world \<Rightarrow> world" where
  "svc_succeed v i rel w =
     (case find_dep w i of None \<Rightarrow> w | Some d \<Rightarrow>
        (let w1 = upd_dep i (\<lambda>d. snd (dep_succeed (now_of v w) d)) (tick w)
         in log v rel (Some i) (active_stage d) STAGE_SUCCEEDED (dep_status w1 i) None None w1))"

definition svc_fail ::
    "env \<Rightarrow> string \<Rightarrow> string \<Rightarrow> string \<Rightarrow> string \<Rightarrow> string option \<Rightarrow> world \<Rightarrow> world" where
  "svc_fail v i failed_stage error_code error_message rel w =
     (let w1 = upd_dep i (dep_fail failed_stage error_code error_message (now_of v w)) (tick w)
      in log v rel (Some i) failed_stage STAGE_FAILED (dep_status w1 i) (Some error_code)
           (Some error_message) w1)"

definition svc_cancel :: "env \<Rightarrow> string \<Rightarrow> string \<Rightarrow> string option \<Rightarrow> world \<Rightarrow> world" where
  "svc_cancel v i reason rel w =
     (case find_dep w i of None \<Rightarrow> w | Some d \<Rightarrow>
        (let w1 = upd_dep i (dep_cancel reason (now_of v w)) (tick w)
         in log v rel (Some i) (dep_promote_stage d) DEPLOYMENT_CANCELLED (dep_status w1 i) None
              (Some reason) w1))"

definition retry_message :: "deployment_status \<Rightarrow> string option \<Rightarrow> string" where
  "retry_message previous_status previous_error =
     ''Retrying after '' @ ds_value previous_status @
     (if py_truthy previous_error then '' ('' @ the previous_error @ '')'' else '''')"

definition svc_reset_for_retry :: "env \<Rightarrow> string \<Rightarrow> string option \<Rightarrow> world \<Rightarrow> world" where
  "svc_reset_for_retry v i rel w =
     (case find_dep w i of None \<Rightarrow> w | Some d \<Rightarrow>
        (let w1 = upd_dep i (\<lambda>d. snd (dep_reset_for_retry (now_of v w) d)) (tick w)
         in log v rel (Some i) (dep_promote_stage d) DEPLOYMENT_RETRIED (dep_status w1 i) None
              (Some (retry_message (d_status d) (d_error_code d))) w1))"

subsection \<open>Promotion\<close>

text \<open>
  The claim: an UPDATE whose WHERE names the expected status. The row is changed, the release
  follows, the event is written and all of it is committed, or nothing happens.
\<close>

definition svc_claim :: "env \<Rightarrow> string \<Rightarrow> string option \<Rightarrow> world \<Rightarrow> bool \<times> world" where
  "svc_claim v i rel w =
     (case find_dep w i of None \<Rightarrow> (False, tick w) | Some d \<Rightarrow>
        (let now = now_of v w; stage = dep_promote_stage d
         in if \<not> is_claimable d then (False, tick w)
            else (let w1 = upd_dep i (\<lambda>d. snd (claim_for_promotion now d)) (tick w);
                      w2 = upd_release rel (bundle_mirror BS_PROMOTING (Some stage) now) w1
                  in (True, commit (log v rel (Some i) stage STAGE_STARTED (dep_status w2 i)
                        None None w2)))))"

text \<open>The release follows a recorded promotion; unlike the claim it leaves \<open>started_at\<close> alone.\<close>

definition bundle_deploying :: "string option \<Rightarrow> time \<Rightarrow> bundle_row \<Rightarrow> bundle_row" where
  "bundle_deploying stage at b =
     b\<lparr>b_status := BS_DEPLOYING, b_deployment_status := BS_DEPLOYING, b_current_stage := stage,
       b_updated_at := at\<rparr>"

definition svc_record_promotion ::
    "env \<Rightarrow> string \<Rightarrow> int \<Rightarrow> string \<Rightarrow> string option \<Rightarrow> world \<Rightarrow> world" where
  "svc_record_promotion v i number stage rel w =
     (case find_dep w i of None \<Rightarrow> w | Some d \<Rightarrow>
        (let now = now_of v w;
             waiting = dep_wait_stage d;
             w1 = upd_dep i (record_promotion number now) (tick w);
             w2 = upd_release rel (bundle_deploying (Some waiting) now) w1;
             s = dep_status w2 i;
             w3 = log v rel (Some i) stage STAGE_SUCCEEDED s None None w2;
             w4 = log v rel (Some i) stage PROMOTION_CREATED s None
               (Some (msg_created number)) w3
         in log v rel (Some i) waiting STAGE_STARTED s None None w4))"

definition svc_mark_unconfirmed ::
    "env \<Rightarrow> string \<Rightarrow> string \<Rightarrow> string \<Rightarrow> string option \<Rightarrow> world \<Rightarrow> world" where
  "svc_mark_unconfirmed v i error_code stage rel w =
     (let w1 = upd_dep i (mark_promotion_unconfirmed error_code (now_of v w)) (tick w)
      in log v rel (Some i) stage PROMOTION_UNCONFIRMED (dep_status w1 i) (Some error_code)
           (Some ''Drone promotion outcome is unknown'') w1)"

text \<open>The try block: the CI guard, the plan guard, then the request. None is a refused CI dispatch.\<close>

definition svc_dispatch ::
    "env \<Rightarrow> dep_row \<Rightarrow> component_row \<Rightarrow> world \<Rightarrow> (exn + drone_build option) \<times> world" where
  "svc_dispatch v d c w =
     (case ci_dispatch_allowed v d c w of
        (Inl e, w1) \<Rightarrow> (Inl e, w1)
      | (Inr False, w1) \<Rightarrow> (Inr None, w1)
      | (Inr True, w1) \<Rightarrow>
          (case verify_planned_deployment v d c w1 of
             (Inl e, w2) \<Rightarrow> (Inl e, w2)
           | (Inr _, w2) \<Rightarrow>
               (case drone_promote v c (d_source_build_number d) (d_target d) w2 of
                  (Inl e, w3) \<Rightarrow> (Inl e, w3)
                | (Inr b, w3) \<Rightarrow> (Inr (Some b), w3))))"

definition svc_promote_outcome ::
    "env \<Rightarrow> string \<Rightarrow> string \<Rightarrow> string option \<Rightarrow> (exn + drone_build option) \<Rightarrow> world \<Rightarrow> (exn + unit) \<times> world" where
  "svc_promote_outcome v i stage rel outcome w =
     (case outcome of
        Inr None \<Rightarrow>
          (Inr (), commit (svc_fail v i stage ''CI_DISPATCH_REJECTED''
             ''CI authorization or component configuration changed'' rel w))
      | Inr (Some promotion) \<Rightarrow>
          (Inr (), commit (svc_record_promotion v i (bd_number promotion) stage rel w))
      | Inl (MCPToolError _ _) \<Rightarrow>
          (Inr (), commit (svc_fail v i stage ''APPROVED_PLAN_CHANGED''
             ''Approved plan no longer matches deployment state.'' rel w))
      | Inl (BuildNotPromotableError _) \<Rightarrow>
          (Inr (), commit (svc_fail v i stage ''APPROVED_PLAN_CHANGED''
             ''Approved plan no longer matches deployment state.'' rel w))
      | Inl (DroneError k _) \<Rightarrow>
          (if drone_error_code k \<in> set UNCONFIRMED_PROMOTE_ERROR_CODES
           then (Inr (), commit (svc_mark_unconfirmed v i (drone_error_code k) stage rel w))
           else (Inr (), commit (svc_fail v i stage (drone_error_code k)
             ''Drone promotion request rejected'' rel w)))
      | Inl e \<Rightarrow> (Inl e, w))"

definition svc_promote :: "env \<Rightarrow> string \<Rightarrow> string option \<Rightarrow> world \<Rightarrow> (exn + unit) \<times> world" where
  "svc_promote v i rel w =
     (case find_dep w i of None \<Rightarrow> (Inr (), w) | Some d \<Rightarrow>
        (case for_deployment w d of
           Inl e \<Rightarrow> (Inl e, w)
         | Inr c \<Rightarrow>
             (let stage = dep_promote_stage d
              in case svc_claim v i rel w of
                   (False, w1) \<Rightarrow> (Inr (), w1)
                 | (True, w1) \<Rightarrow>
                     (case find_dep w1 i of None \<Rightarrow> (Inr (), w1) | Some d1 \<Rightarrow>
                        (case svc_dispatch v d1 c w1 of
                           (r, w2) \<Rightarrow> svc_promote_outcome v i stage rel r w2)))))"

subsection \<open>Polling\<close>

definition poll_error_code :: "exn \<Rightarrow> string" where
  "poll_error_code e = (case error_code_of e of None \<Rightarrow> ''DRONE_UNAVAILABLE'' | Some c \<Rightarrow> c)"

definition POLL_FAILURE_MESSAGE :: string where
  "POLL_FAILURE_MESSAGE = ''Drone polling could not confirm deployment state''"

definition svc_record_poll_failure ::
    "env \<Rightarrow> string \<Rightarrow> string \<Rightarrow> string \<Rightarrow> string option \<Rightarrow> world \<Rightarrow> world" where
  "svc_record_poll_failure v i code stage rel w =
     (case find_dep w i of None \<Rightarrow> w | Some d \<Rightarrow>
        (let first_occurrence = (d_poll_error_code d \<noteq> Some code);
             w1 = upd_dep i (\<lambda>d. snd (record_poll_failure code POLL_FAILURE_MESSAGE (now_of v w) d)) (tick w)
         in if first_occurrence
            then log v rel (Some i) stage UPSTREAM_UNAVAILABLE (dep_status w1 i) (Some code)
                   (Some POLL_FAILURE_MESSAGE) w1
            else w1))"

definition svc_clear_poll_failure :: "env \<Rightarrow> string \<Rightarrow> string \<Rightarrow> string option \<Rightarrow> world \<Rightarrow> world" where
  "svc_clear_poll_failure v i stage rel w =
     (case find_dep w i of None \<Rightarrow> w | Some d \<Rightarrow>
        (case d_poll_error_code d of
           None \<Rightarrow> w
         | Some recovered_from \<Rightarrow>
             (let w1 = upd_dep i (\<lambda>d. snd (clear_poll_failure (now_of v w) d)) (tick w)
              in log v rel (Some i) stage UPSTREAM_RECOVERED (dep_status w1 i) None
                   (Some (msg_recovered recovered_from)) w1)))"

text \<open>Adopting a promotion Drone created for a request that was never answered.\<close>

definition svc_reconcile :: "env \<Rightarrow> string \<Rightarrow> string \<Rightarrow> string option \<Rightarrow> world \<Rightarrow> world" where
  "svc_reconcile v i stage rel w =
     (case find_dep w i of None \<Rightarrow> w | Some d \<Rightarrow>
        (case (case for_deployment w d of
                 Inl e \<Rightarrow> (Inl e, w)
               | Inr c \<Rightarrow> find_promotion_build v c (d_source_build_number d) (d_target d) w) of
           (Inl e, w1) \<Rightarrow> svc_record_poll_failure v i (poll_error_code e) stage rel w1
         | (Inr None, w1) \<Rightarrow> svc_record_poll_failure v i PROMOTION_UNCONFIRMED_CODE stage rel w1
         | (Inr (Some promotion), w1) \<Rightarrow>
             (let w2 = svc_clear_poll_failure v i stage rel w1;
                  w3 = log v rel (Some i) stage PROMOTION_RECONCILED (dep_status w2 i) None
                    (Some (msg_adopted (bd_number promotion))) w2
              in svc_record_promotion v i (bd_number promotion) stage rel w3)))"

definition RUNNING_BUILD_STATUSES :: "string list" where
  "RUNNING_BUILD_STATUSES = [''pending'', ''running'', ''blocked'']"

definition promotion_verified :: "dep_row \<Rightarrow> drone_build \<Rightarrow> bool" where
  "promotion_verified d build \<longleftrightarrow>
     (case d_required_promotion_stages d of
        None \<Rightarrow> True
      | Some stages \<Rightarrow>
          is_promotion_of (d_source_build_number d) (d_target d) build \<and>
          bd_commit_sha build = d_commit_sha d \<and> stages_succeeded build stages True)"

text \<open>Drone's verdict on the promotion build.\<close>

definition svc_apply_build ::
    "env \<Rightarrow> string \<Rightarrow> drone_build \<Rightarrow> string \<Rightarrow> string option \<Rightarrow> world \<Rightarrow> world" where
  "svc_apply_build v i build stage rel w =
     (case find_dep w i of None \<Rightarrow> w | Some d \<Rightarrow>
        (let w1 = svc_clear_poll_failure v i stage rel w;
             status = lower (bd_status build);
             number = bd_number build;
             w2 = log v rel (Some i) stage DRONE_STATUS_CHANGED (Some status) None
               (Some (msg_is number status)) w1
         in if status \<in> set RUNNING_BUILD_STATUSES
            then upd_dep i (keep_deploying (now_of v w2)) (tick w2)
            else if status = ''success''
            then (if \<not> promotion_verified d build
                  then svc_fail v i stage ''PROMOTION_STAGES_REJECTED''
                         ''Required deployment stages did not execute successfully'' rel w2
                  else svc_succeed v i rel w2)
            else svc_fail v i stage
                   (if status = ''killed'' then ''DRONE_BUILD_KILLED'' else ''DRONE_BUILD_FAILED'')
                   (msg_verdict number status) rel w2))"

definition svc_poll :: "env \<Rightarrow> string \<Rightarrow> int \<Rightarrow> string \<Rightarrow> string option \<Rightarrow> world \<Rightarrow> world" where
  "svc_poll v i number stage rel w =
     (case find_dep w i of None \<Rightarrow> w | Some d \<Rightarrow>
        (case (case for_deployment w d of
                 Inl e \<Rightarrow> (Inl e, w) | Inr c \<Rightarrow> get_build v c number w) of
           (Inl e, w1) \<Rightarrow> svc_record_poll_failure v i (poll_error_code e) stage rel w1
         | (Inr build, w1) \<Rightarrow> svc_apply_build v i build stage rel w1))"

definition svc_refresh :: "env \<Rightarrow> string \<Rightarrow> string option \<Rightarrow> world \<Rightarrow> world" where
  "svc_refresh v i rel w =
     (case find_dep w i of None \<Rightarrow> w | Some d \<Rightarrow>
        (if is_terminal d then w
         else (let stage = active_stage d
               in if has_timed_out d (now_of v w) (v_deployment_timeout v)
                  then svc_fail v i stage ''WORKFLOW_TIMEOUT''
                         ''Deployment exceeded the configured workflow timeout'' rel (tick w)
                  else (case d_promotion_build_number d of
                          None \<Rightarrow> svc_reconcile v i stage rel (tick w)
                        | Some number \<Rightarrow> svc_poll v i number stage rel (tick w)))))"

end
