(* ===== verification/Deployment_Service_Laws.thy ===== *)
theory Deployment_Service_Laws
  imports Deployment_Service
begin

section \<open>What the deployment service does to a row\<close>

text \<open>
  Every method moves one row along the arrows of the entity's state machine and touches no
  other; the event log only grows. The relation \<open>moves i w w'\<close> says so; it is transitive, the
  primitives satisfy it, and each method is a composition of primitives.
\<close>

subsection \<open>Rows and entities\<close>

text \<open>\<open>to_entity\<close> of a row: the row without the columns the entity does not have.\<close>

definition entity_of :: "dep_row \<Rightarrow> deployment" where
  "entity_of d = deployment.truncate d"

lemma entity_of_fields [simp]:
  "d_status (entity_of d) = d_status d" "d_id (entity_of d) = d_id d"
  "d_promotion_build_number (entity_of d) = d_promotion_build_number d"
  "d_component_id (entity_of d) = d_component_id d" "d_component (entity_of d) = d_component d"
  by (simp_all add: entity_of_def deployment.truncate_def)

lemma entity_of_judgements [simp]:
  "is_terminal (entity_of d) = is_terminal d" "is_claimable (entity_of d) = is_claimable d"
  "dep_inv (entity_of d) = dep_inv d" "slot_active (entity_of d) = slot_active d"
  "promotion_slot (entity_of d) = promotion_slot d" "dep_fresh (entity_of d) = dep_fresh d"
  by (simp_all add: entity_of_def deployment.truncate_def is_terminal_def is_claimable_def
      dep_inv_def slot_active_def promotion_slot_def dep_fresh_def dep_promote_stage_def
      dep_wait_stage_def)

lemma entity_of_transitions:
  "entity_of (dep_fail st code msg at d) = dep_fail st code msg at (entity_of d)"
  "entity_of (dep_cancel reason at d) = dep_cancel reason at (entity_of d)"
  "entity_of (snd (dep_succeed at d)) = snd (dep_succeed at (entity_of d))"
  "entity_of (keep_deploying at d) = keep_deploying at (entity_of d)"
  "entity_of (record_promotion n at d) = record_promotion n at (entity_of d)"
  "entity_of (mark_promotion_unconfirmed code at d) = mark_promotion_unconfirmed code at (entity_of d)"
  "entity_of (snd (record_poll_failure code msg at d)) = snd (record_poll_failure code msg at (entity_of d))"
  "entity_of (snd (clear_poll_failure at d)) = snd (clear_poll_failure at (entity_of d))"
  "entity_of (snd (claim_for_promotion at d)) = snd (claim_for_promotion at (entity_of d))"
  "entity_of (snd (dep_reset_for_retry at d)) = snd (dep_reset_for_retry at (entity_of d))"
  by (simp_all add: entity_of_def deployment.truncate_def dep_transition_defs dep_wait_stage_def
      dep_promote_stage_def split: option.split)

text \<open>The columns outside the entity: no method of the service writes them.\<close>

definition row_extras :: "dep_row \<Rightarrow> string list option \<times> attachment option" where
  "row_extras d = (d_required_promotion_stages d, d_attachment d)"

lemma row_extras_transitions [simp]:
  "row_extras (dep_fail st code msg at d) = row_extras d"
  "row_extras (dep_cancel reason at d) = row_extras d"
  "row_extras (snd (dep_succeed at d)) = row_extras d"
  "row_extras (keep_deploying at d) = row_extras d"
  "row_extras (record_promotion n at d) = row_extras d"
  "row_extras (mark_promotion_unconfirmed code at d) = row_extras d"
  "row_extras (snd (record_poll_failure code msg at d)) = row_extras d"
  "row_extras (snd (clear_poll_failure at d)) = row_extras d"
  "row_extras (snd (claim_for_promotion at d)) = row_extras d"
  "row_extras (snd (dep_reset_for_retry at d)) = row_extras d"
  by (simp_all add: row_extras_def dep_transition_defs split: option.split)

text \<open>One arrow that does not take a slot back: every arrow but the retry.\<close>

definition row_step :: "dep_row \<Rightarrow> dep_row \<Rightarrow> bool" where
  "row_step d e \<longleftrightarrow> dep_step (entity_of d) (entity_of e) \<and> row_extras e = row_extras d \<and>
     (slot_active e \<longrightarrow> slot_active d)"

abbreviation row_steps :: "dep_row \<Rightarrow> dep_row \<Rightarrow> bool" where
  "row_steps \<equiv> row_step\<^sup>*\<^sup>*"

lemma row_steps_inv: "row_steps d e \<Longrightarrow> dep_inv d \<Longrightarrow> dep_inv e"
proof (induction rule: rtranclp_induct)
  case base
  then show ?case .
next
  case (step e f)
  then have "dep_inv (entity_of f)"
    using dep_step_inv [of "entity_of e" "entity_of f"] by (simp add: row_step_def)
  then show ?case by simp
qed

lemma promotion_slot_identity: "dep_identity d = dep_identity e \<Longrightarrow> promotion_slot d = promotion_slot e"
  by (simp add: dep_identity_def promotion_slot_def)

lemma dep_identity_entity [simp]: "dep_identity (entity_of d) = dep_identity d"
  by (simp add: dep_identity_def entity_of_def deployment.truncate_def)

lemma dep_publish_side_entity [simp]: "dep_publish_side (entity_of d) = dep_publish_side d"
  by (simp add: dep_publish_side_def entity_of_def deployment.truncate_def)

lemma row_step_frame: "row_step d e \<Longrightarrow> dep_identity e = dep_identity d \<and>
    dep_publish_side e = dep_publish_side d \<and> row_extras e = row_extras d \<and>
    (slot_active e \<longrightarrow> slot_active d)"
  using dep_step_frame [of "entity_of d" "entity_of e"] by (simp add: row_step_def)

lemma row_steps_frame: "row_steps d e \<Longrightarrow> dep_identity e = dep_identity d \<and>
    dep_publish_side e = dep_publish_side d \<and> row_extras e = row_extras d \<and>
    (slot_active e \<longrightarrow> slot_active d)"
  by (induction rule: rtranclp_induct) (auto dest: row_step_frame)

lemma dep_identity_id: "dep_identity d = dep_identity e \<Longrightarrow> d_id d = d_id e"
  by (simp add: dep_identity_def)

text \<open>The arrows, on rows.\<close>

lemma row_step_fail: "d_status d \<in> {DS_PROMOTING, DS_DEPLOYING} \<Longrightarrow> row_step d (dep_fail st code msg at d)"
  using dep_step.failed [of "entity_of d"]
  by (auto simp: row_step_def entity_of_transitions slot_active_def ACTIVE_PROMOTION_STATUSES_def)

lemma row_step_promoted: "d_status d = DS_PROMOTING \<Longrightarrow> row_step d (record_promotion n at d)"
  using dep_step.promoted [of "entity_of d"]
  by (auto simp: row_step_def entity_of_transitions slot_active_def ACTIVE_PROMOTION_STATUSES_def)

lemma row_step_unconfirmed: "d_status d = DS_PROMOTING \<Longrightarrow> row_step d (mark_promotion_unconfirmed c at d)"
  using dep_step.unconfirmed [of "entity_of d"]
  by (auto simp: row_step_def entity_of_transitions slot_active_def ACTIVE_PROMOTION_STATUSES_def)

lemma row_step_poll_failed:
  "d_status d \<in> {DS_PROMOTING, DS_DEPLOYING} \<Longrightarrow> row_step d (snd (record_poll_failure c m at d))"
  using dep_step.poll_failed [of "entity_of d"]
  by (auto simp: row_step_def entity_of_transitions slot_active_def ACTIVE_PROMOTION_STATUSES_def)

lemma row_step_cleared:
  "d_status d \<in> {DS_PROMOTING, DS_DEPLOYING} \<Longrightarrow> row_step d (snd (clear_poll_failure at d))"
  using dep_step.poll_cleared [of "entity_of d"]
  by (auto simp: row_step_def entity_of_transitions slot_active_def ACTIVE_PROMOTION_STATUSES_def)

lemma row_step_running: "d_status d = DS_DEPLOYING \<Longrightarrow> row_step d (keep_deploying at d)"
  using dep_step.still_running [of "entity_of d"]
  by (auto simp: row_step_def entity_of_transitions slot_active_def ACTIVE_PROMOTION_STATUSES_def)

lemma row_step_succeeded: "d_status d = DS_DEPLOYING \<Longrightarrow> row_step d (snd (dep_succeed at d))"
  using dep_step.succeeded [of "entity_of d"]
  by (auto simp: row_step_def entity_of_transitions slot_active_def ACTIVE_PROMOTION_STATUSES_def)

lemma row_step_cancelled: "d_status d = DS_WAITING \<Longrightarrow> row_step d (dep_cancel r at d)"
  using dep_step.cancelled [of "entity_of d"]
  by (auto simp: row_step_def entity_of_transitions slot_active_def ACTIVE_PROMOTION_STATUSES_def)

lemma row_step_claim: "is_claimable d \<Longrightarrow> row_step d (snd (claim_for_promotion at d))"
  using dep_step.claim [of "entity_of d"]
  by (auto simp: row_step_def entity_of_transitions slot_active_def ACTIVE_PROMOTION_STATUSES_def
      dep_judgement_defs)

subsection \<open>Moving one row\<close>

definition moves :: "string \<Rightarrow> world \<Rightarrow> world \<Rightarrow> bool" where
  "moves i w w' \<longleftrightarrow>
     (\<forall>d. find_dep w i = Some d \<longrightarrow> (\<exists>e. find_dep w' i = Some e \<and> row_steps d e)) \<and>
     (\<forall>j. j \<noteq> i \<longrightarrow> find_dep w' j = find_dep w j) \<and>
     map d_id (t_deployments (w_cur w')) = map d_id (t_deployments (w_cur w)) \<and>
     (\<exists>es. t_events (w_cur w') = t_events (w_cur w) @ es)"

lemma moves_refl [simp, intro]: "moves i w w"
  by (simp add: moves_def)

lemma moves_trans:
  assumes "moves i u v" and "moves i v w"
  shows "moves i u w"
proof -
  have "\<exists>e. find_dep w i = Some e \<and> row_steps d e" if "find_dep u i = Some d" for d
    using assms that unfolding moves_def by (metis rtranclp_trans)
  then show ?thesis using assms by (auto simp: moves_def)
qed

text \<open>The primitives that leave deployments alone.\<close>

definition leaves :: "world \<Rightarrow> world \<Rightarrow> bool" where
  "leaves w w' \<longleftrightarrow> t_deployments (w_cur w') = t_deployments (w_cur w) \<and>
     (\<exists>es. t_events (w_cur w') = t_events (w_cur w) @ es)"

lemma leaves_moves: "leaves w w' \<Longrightarrow> moves i w w'"
  by (auto simp: leaves_def moves_def find_dep_def)

lemma leaves_find: "leaves w w' \<Longrightarrow> find_dep w' i = find_dep w i"
  by (simp add: leaves_def find_dep_def)

lemma leaves_ops [simp, intro]:
  "leaves w w" "leaves w (tick w)" "leaves w (commit w)" "leaves w (log v r dd st kd ss cd ms w)"
  "leaves w (upd_bundle j g w)"
  by (simp_all add: leaves_def log_def add_event_def)

lemma leaves_release [simp, intro]: "leaves w (upd_release rel g w)"
  by (cases rel) (simp_all add: upd_release_def)

lemma leaves_looks: "looks w w' \<Longrightarrow> leaves w w'"
  by (simp add: looks_def leaves_def)

lemma leaves_sends: "sends_once w w' \<Longrightarrow> leaves w w'"
  using sends_onceD [of w w'] by (simp add: leaves_def)

lemma moves_upd:
  assumes "keeps_id f" and "\<And>d. find_dep w i = Some d \<Longrightarrow> row_step d (f d)"
  shows "moves i w (upd_dep i f w)"
  using assms by (auto simp: moves_def keeps_id_def)

lemma moves_if: "moves i w a \<Longrightarrow> moves i w b \<Longrightarrow> moves i w (if c then a else b)"
  by simp

lemma moves_then: "moves i u w \<Longrightarrow> leaves w w' \<Longrightarrow> moves i u w'"
  using leaves_moves moves_trans by blast

lemma moves_after: "leaves u w \<Longrightarrow> moves i w w' \<Longrightarrow> moves i u w'"
  using leaves_moves moves_trans by blast

text \<open>The methods.\<close>

lemma svc_fail_moves:
  assumes "\<And>d. find_dep w i = Some d \<Longrightarrow> d_status d \<in> {DS_PROMOTING, DS_DEPLOYING}"
  shows "moves i w (svc_fail v i st code msg rel w)"
  unfolding svc_fail_def Let_def
  by (rule moves_then [OF moves_after [OF leaves_ops(2) moves_upd] leaves_ops(4)])
    (use assms in \<open>auto intro: row_step_fail\<close>)

lemma svc_succeed_moves:
  assumes "\<And>d. find_dep w i = Some d \<Longrightarrow> d_status d = DS_DEPLOYING"
  shows "moves i w (svc_succeed v i rel w)"
proof (cases "find_dep w i")
  case (Some d)
  show ?thesis
    unfolding svc_succeed_def Let_def Some option.case
    by (rule moves_then [OF moves_after [OF leaves_ops(2) moves_upd] leaves_ops(4)])
      (use assms in \<open>auto intro: row_step_succeeded\<close>)
qed (simp add: svc_succeed_def)

lemma svc_cancel_moves:
  assumes "\<And>d. find_dep w i = Some d \<Longrightarrow> d_status d = DS_WAITING"
  shows "moves i w (svc_cancel v i reason rel w)"
proof (cases "find_dep w i")
  case (Some d)
  show ?thesis
    unfolding svc_cancel_def Let_def Some option.case
    by (rule moves_then [OF moves_after [OF leaves_ops(2) moves_upd] leaves_ops(4)])
      (use assms in \<open>auto intro: row_step_cancelled\<close>)
qed (simp add: svc_cancel_def)

lemma svc_mark_unconfirmed_moves:
  assumes "\<And>d. find_dep w i = Some d \<Longrightarrow> d_status d = DS_PROMOTING"
  shows "moves i w (svc_mark_unconfirmed v i code st rel w)"
  unfolding svc_mark_unconfirmed_def Let_def
  by (rule moves_then [OF moves_after [OF leaves_ops(2) moves_upd] leaves_ops(4)])
    (use assms in \<open>auto intro: row_step_unconfirmed\<close>)

lemma svc_record_promotion_moves:
  assumes "\<And>d. find_dep w i = Some d \<Longrightarrow> d_status d = DS_PROMOTING"
  shows "moves i w (svc_record_promotion v i n st rel w)"
proof (cases "find_dep w i")
  case (Some d)
  show ?thesis
    unfolding svc_record_promotion_def Let_def Some option.case
    by (intro moves_then [OF _ leaves_ops(4)] moves_then [OF _ leaves_release]
        moves_after [OF leaves_ops(2) moves_upd])
      (use assms in \<open>auto intro: row_step_promoted\<close>)
qed (simp add: svc_record_promotion_def)

lemma svc_record_poll_failure_moves:
  assumes "\<And>d. find_dep w i = Some d \<Longrightarrow> d_status d \<in> {DS_PROMOTING, DS_DEPLOYING}"
  shows "moves i w (svc_record_poll_failure v i code st rel w)"
proof (cases "find_dep w i")
  case (Some d)
  have "moves i w (upd_dep i (\<lambda>d. snd (record_poll_failure code POLL_FAILURE_MESSAGE (now_of v w) d)) (tick w))"
    by (rule moves_after [OF leaves_ops(2) moves_upd])
      (use assms in \<open>auto intro: row_step_poll_failed\<close>)
  then show ?thesis
    by (auto simp: svc_record_poll_failure_def Let_def Some intro: moves_then)
qed (simp add: svc_record_poll_failure_def)

lemma svc_clear_poll_failure_moves:
  assumes "\<And>d. find_dep w i = Some d \<Longrightarrow> d_status d \<in> {DS_PROMOTING, DS_DEPLOYING}"
  shows "moves i w (svc_clear_poll_failure v i st rel w)"
proof (cases "find_dep w i")
  case (Some d)
  have "moves i w (upd_dep i (\<lambda>d. snd (clear_poll_failure (now_of v w) d)) (tick w))"
    by (rule moves_after [OF leaves_ops(2) moves_upd])
      (use assms in \<open>auto intro: row_step_cleared\<close>)
  then show ?thesis
    by (auto simp: svc_clear_poll_failure_def Let_def Some intro: moves_then split: option.split)
qed (simp add: svc_clear_poll_failure_def)

text \<open>Clearing a poll failure keeps status and promotion build.\<close>

lemma clear_poll_fields [simp]:
  "d_status (snd (clear_poll_failure at d)) = d_status d"
  "d_promotion_build_number (snd (clear_poll_failure at d)) = d_promotion_build_number d"
  by (simp_all add: clear_poll_failure_def split: option.split)

lemma svc_clear_status:
  assumes "find_dep w i = Some d"
  shows "\<exists>e. find_dep (svc_clear_poll_failure v i st rel w) i = Some e \<and>
     d_status e = d_status d \<and> d_promotion_build_number e = d_promotion_build_number d"
  using assms
  by (auto simp: svc_clear_poll_failure_def Let_def split: option.split)

text \<open>
  Polling: on a row that satisfies the entity's invariant and is in flight, \<open>refresh\<close> moves it
  along the state machine.
\<close>

lemma in_flight_PROMOTING:
  "dep_inv d \<Longrightarrow> d_promotion_build_number d = None \<Longrightarrow> d_status d \<in> {DS_PROMOTING, DS_DEPLOYING} \<Longrightarrow>
     d_status d = DS_PROMOTING"
  by (auto simp: dep_inv_def)

lemma in_flight_DEPLOYING:
  "dep_inv d \<Longrightarrow> d_promotion_build_number d \<noteq> None \<Longrightarrow> d_status d \<in> {DS_PROMOTING, DS_DEPLOYING} \<Longrightarrow>
     d_status d = DS_DEPLOYING"
  by (auto simp: dep_inv_def)

lemma for_deployment_tick [simp]: "for_deployment (tick w) d = for_deployment w d"
  by (simp add: for_deployment_def)

lemma lookup_reads:
  "leaves w (snd (case for_deployment w d of Inl e \<Rightarrow> (Inl e, w)
     | Inr c \<Rightarrow> find_promotion_build v c n tg w))"
  "leaves w (snd (case for_deployment w d of Inl e \<Rightarrow> (Inl e, w) | Inr c \<Rightarrow> get_build v c m w))"
  by (auto split: sum.split
      intro!: leaves_looks reads_looks find_promotion_build_reads get_build_reads)

lemma svc_reconcile_moves:
  assumes "\<And>d. find_dep w i = Some d \<Longrightarrow> d_status d = DS_PROMOTING"
  shows "moves i w (svc_reconcile v i st rel w)"
proof (cases "find_dep w i")
  case (Some d)
  define r where "r = (case for_deployment w d of Inl e \<Rightarrow> (Inl e, w)
     | Inr c \<Rightarrow> find_promotion_build v c (d_source_build_number d) (d_target d) w)"
  obtain x w1 where xw: "r = (x, w1)" by force
  have l1: "leaves w w1"
    using lookup_reads(1) [where w = w and d = d and v = v and n = "d_source_build_number d"
        and tg = "d_target d", folded r_def] xw by simp
  have st1: "\<And>e. find_dep w1 i = Some e \<Longrightarrow> d_status e = DS_PROMOTING"
    using leaves_find [OF l1, of i] assms by simp
  have unfold: "svc_reconcile v i st rel w = (case (x, w1) of
       (Inl e, w1) \<Rightarrow> svc_record_poll_failure v i (poll_error_code e) st rel w1
     | (Inr None, w1) \<Rightarrow> svc_record_poll_failure v i PROMOTION_UNCONFIRMED_CODE st rel w1
     | (Inr (Some promotion), w1) \<Rightarrow>
         (let w2 = svc_clear_poll_failure v i st rel w1;
              w3 = log v rel (Some i) st PROMOTION_RECONCILED (dep_status w2 i) None
                (Some (msg_adopted (bd_number promotion))) w2
          in svc_record_promotion v i (bd_number promotion) st rel w3))"
    by (simp add: svc_reconcile_def Some r_def [symmetric] xw)
  have fail1: "moves i w (svc_record_poll_failure v i code st rel w1)" for code
    by (rule moves_after [OF l1 svc_record_poll_failure_moves]) (use st1 in auto)
  have clear: "moves i w1 (svc_clear_poll_failure v i st rel w1)"
    by (rule svc_clear_poll_failure_moves) (use st1 in auto)
  have st2: "\<And>e. find_dep (svc_clear_poll_failure v i st rel w1) i = Some e \<Longrightarrow> d_status e = DS_PROMOTING"
    using svc_clear_status [of w1 i _ v st rel] st1 clear
    by (cases "find_dep w1 i") (fastforce simp: svc_clear_poll_failure_def)+
  have adopt: "moves i w (svc_record_promotion v i n st rel
      (log v rel (Some i) st k s c m (svc_clear_poll_failure v i st rel w1)))" for n k s c m
    by (rule moves_after [OF l1 moves_trans [OF clear moves_after [OF leaves_ops(4)
            svc_record_promotion_moves]]]) (use st2 in simp)
  show ?thesis
    unfolding unfold Let_def by (auto intro: fail1 adopt split: sum.split option.split)
qed (simp add: svc_reconcile_def)

lemma svc_apply_build_moves:
  assumes "\<And>d. find_dep w i = Some d \<Longrightarrow> d_status d = DS_DEPLOYING"
  shows "moves i w (svc_apply_build v i build st rel w)"
proof (cases "find_dep w i")
  case (Some d)
  have d: "d_status d = DS_DEPLOYING" using assms Some by simp
  define w1 where "w1 = svc_clear_poll_failure v i st rel w"
  define w2 where "w2 = log v rel (Some i) st DRONE_STATUS_CHANGED (Some (lower (bd_status build)))
      None (Some (msg_is (bd_number build) (lower (bd_status build)))) w1"
  have m1: "moves i w w1" unfolding w1_def
    by (rule svc_clear_poll_failure_moves) (use assms in auto)
  have m2: "moves i w w2" unfolding w2_def by (rule moves_then [OF m1 leaves_ops(4)])
  have st2: "\<And>e. find_dep w2 i = Some e \<Longrightarrow> d_status e = DS_DEPLOYING"
    using svc_clear_status [OF Some, of v st rel] d by (auto simp: w2_def w1_def)
  have run: "moves i w (upd_dep i (keep_deploying at) (tick w2))" for at
    by (rule moves_trans [OF m2 moves_after [OF leaves_ops(2) moves_upd]])
      (use st2 in \<open>auto intro: row_step_running\<close>)
  have fail: "moves i w (svc_fail v i st code msg rel w2)" for code msg
    by (rule moves_trans [OF m2 svc_fail_moves]) (use st2 in auto)
  have succ: "moves i w (svc_succeed v i rel w2)"
    by (rule moves_trans [OF m2 svc_succeed_moves]) (use st2 in auto)
  show ?thesis
    unfolding svc_apply_build_def Some option.case Let_def w1_def [symmetric] w2_def [symmetric]
    by (intro moves_if run fail succ)
qed (simp add: svc_apply_build_def)

lemma svc_poll_moves:
  assumes "\<And>d. find_dep w i = Some d \<Longrightarrow> d_status d = DS_DEPLOYING"
  shows "moves i w (svc_poll v i n st rel w)"
proof (cases "find_dep w i")
  case (Some d)
  define r where "r = (case for_deployment w d of Inl e \<Rightarrow> (Inl e, w) | Inr c \<Rightarrow> get_build v c n w)"
  obtain x w1 where xw: "r = (x, w1)" by force
  have l1: "leaves w w1"
    using lookup_reads(2) [where w = w and d = d and v = v and m = n, folded r_def] xw by simp
  have st1: "\<And>e. find_dep w1 i = Some e \<Longrightarrow> d_status e = DS_DEPLOYING"
    using leaves_find [OF l1, of i] assms by simp
  have "moves i w (svc_record_poll_failure v i code st rel w1)" for code
    by (rule moves_after [OF l1 svc_record_poll_failure_moves]) (use st1 in auto)
  moreover have "moves i w (svc_apply_build v i b st rel w1)" for b
    by (rule moves_after [OF l1 svc_apply_build_moves]) (use st1 in auto)
  ultimately show ?thesis
    by (simp add: svc_poll_def Some r_def [symmetric] xw split: sum.split)
qed (simp add: svc_poll_def)

lemma svc_refresh_moves:
  assumes "\<And>d. find_dep w i = Some d \<Longrightarrow> dep_inv d \<and> d_status d \<noteq> DS_WAITING"
  shows "moves i w (svc_refresh v i rel w)"
proof (cases "find_dep w i")
  case (Some d)
  show ?thesis
  proof (cases "is_terminal d")
    case False
    have inv: "dep_inv d" using assms Some by simp
    have fl: "d_status d \<in> {DS_PROMOTING, DS_DEPLOYING}"
      using False assms [OF Some] by (cases "d_status d") (auto simp: dep_judgement_defs)
    have "moves i w (svc_fail v i st code msg rel (tick w))" for st code msg
      by (rule moves_after [OF leaves_ops(2) svc_fail_moves]) (use fl Some in auto)
    moreover have "moves i w (svc_reconcile v i st rel (tick w))"
      if "d_promotion_build_number d = None" for st
      by (rule moves_after [OF leaves_ops(2) svc_reconcile_moves])
        (use in_flight_PROMOTING [OF inv that fl] Some in auto)
    moreover have "moves i w (svc_poll v i n st rel (tick w))"
      if "d_promotion_build_number d = Some n" for n st
      by (rule moves_after [OF leaves_ops(2) svc_poll_moves])
        (use in_flight_DEPLOYING [OF inv _ fl] that Some in auto)
    ultimately show ?thesis
      by (simp add: svc_refresh_def Some Let_def False split: option.split)
  qed (simp add: svc_refresh_def Some)
qed (simp add: svc_refresh_def)

end
