(* ===== verification/Promotion_Laws.thy ===== *)
theory Promotion_Laws
  imports Deployment_Service_Laws
begin

section \<open>Promoting: claimed, committed, sent once\<close>

text \<open>
  The order of a promotion. The claim is committed before anything leaves the process; at most
  one promotion request follows; what comes back moves the row along the state machine.
\<close>

subsection \<open>The claim\<close>

lemma svc_claim_False: "svc_claim v i rel w = (False, w') \<Longrightarrow> w' = tick w"
  by (auto simp: svc_claim_def Let_def split: option.splits if_splits)

lemma svc_claim_refused:
  "fst (svc_claim v i rel w) = False \<longleftrightarrow> (\<forall>d. find_dep w i = Some d \<longrightarrow> d_status d \<noteq> DS_WAITING)"
  by (auto simp: svc_claim_def Let_def dep_judgement_defs split: option.splits if_splits)

lemma svc_claim_True:
  assumes "svc_claim v i rel w = (True, w')"
  obtains d where "find_dep w i = Some d" "d_status d = DS_WAITING"
    "find_dep w' i = Some (snd (claim_for_promotion (now_of v w) d))"
    "w_trace w' = w_trace w @ [Committed (w_cur w')]" "w_durable w' = w_cur w'" "moves i w w'"
proof -
  obtain d where d: "find_dep w i = Some d"
    using assms by (auto simp: svc_claim_def split: option.splits)
  have cl: "is_claimable d"
    using assms d by (auto simp: svc_claim_def Let_def split: if_splits)
  define w1 where "w1 = upd_dep i (\<lambda>d. snd (claim_for_promotion (now_of v w) d)) (tick w)"
  define w2 where "w2 = upd_release rel (bundle_mirror BS_PROMOTING (Some (dep_promote_stage d)) (now_of v w)) w1"
  have w': "w' = commit (log v rel (Some i) (dep_promote_stage d) STAGE_STARTED (dep_status w2 i) None None w2)"
    using assms d cl by (simp add: svc_claim_def Let_def w1_def w2_def)
  have f: "find_dep w' i = Some (snd (claim_for_promotion (now_of v w) d))"
    by (simp add: w' w2_def w1_def d)
  have "moves i w w1" unfolding w1_def
    by (rule moves_after [OF leaves_ops(2) moves_upd]) (use d cl in \<open>auto intro: row_step_claim\<close>)
  then have m: "moves i w w'"
    unfolding w' w2_def by (intro moves_then [OF _ leaves_ops(3)] moves_then [OF _ leaves_ops(4)]
        moves_then [OF _ leaves_release])
  show thesis
    by (rule that [OF d _ f _ _ m]) (use cl in \<open>simp_all add: dep_judgement_defs w' w2_def w1_def\<close>)
qed

lemma claimed_status [simp]: "d_status (snd (claim_for_promotion at d)) = DS_PROMOTING"
  by (simp add: claim_for_promotion_def Let_def)

lemma svc_claim_moves: "svc_claim v i rel w = (True, w') \<Longrightarrow> moves i w w'"
  by (erule svc_claim_True)

lemma svc_claim_status:
  assumes "svc_claim v i rel w = (True, w')"
  shows "\<exists>e. find_dep w' i = Some e \<and> d_status e = DS_PROMOTING"
proof -
  from assms obtain d where "find_dep w' i = Some (snd (claim_for_promotion (now_of v w) d))"
    by (rule svc_claim_True)
  then show ?thesis by simp
qed

lemma svc_claim_trace:
  "svc_claim v i rel w = (True, w') \<Longrightarrow>
     w_trace w' = w_trace w @ [Committed (w_cur w')] \<and> w_durable w' = w_cur w'"
  by (erule svc_claim_True) simp

subsection \<open>The dispatch\<close>

text \<open>Guards read, then at most one request goes out; no table changes.\<close>

definition dispatches :: "world \<Rightarrow> world \<Rightarrow> bool" where
  "dispatches w w' \<longleftrightarrow> w_cur w' = w_cur w \<and> w_durable w' = w_durable w \<and>
     (\<exists>gets posts. w_trace w' = w_trace w @ gets @ posts \<and> only_gets gets \<and>
        (posts = [] \<or> (\<exists>rq. h_method rq = POST \<and> posts = [Sent rq])))"

lemma dispatches_leaves: "dispatches w w' \<Longrightarrow> leaves w w'"
  by (simp add: dispatches_def leaves_def)

lemma dispatches_find: "dispatches w w' \<Longrightarrow> find_dep w' i = find_dep w i"
  by (simp add: dispatches_def find_dep_def)

lemma looks_dispatches: "looks w w' \<Longrightarrow> dispatches w w'"
  unfolding looks_def dispatches_def by (metis append_Nil2)

lemma looks_sends_dispatches:
  assumes "looks u w" and "sends_once w w'"
  shows "dispatches u w'"
  using assms(2) unfolding sends_once_def
proof (elim disjE exE conjE)
  fix rq assume rq: "h_method rq = POST" "w' = w\<lparr>w_trace := w_trace w @ [Sent rq]\<rparr>"
  obtain es where "w_trace w = w_trace u @ es" "only_gets es"
    using assms(1) by (auto simp: looks_def)
  then show ?thesis
    using rq assms(1) unfolding dispatches_def looks_def
    by (intro conjI exI [of _ es] exI [of _ "[Sent rq]"]) auto
qed (use assms(1) looks_dispatches in simp)

lemma svc_dispatch_dispatches: "dispatches w (snd (svc_dispatch v d c w))"
proof -
  obtain g w1 where g: "ci_dispatch_allowed v d c w = (g, w1)" by force
  have l1: "looks w w1" using ci_dispatch_looks [of w v d c] g by simp
  obtain p w2 where p: "verify_planned_deployment v d c w1 = (p, w2)" by force
  have l2: "looks w w2" using verify_planned_looks [of w1 v d c] p looks_trans [OF l1] by simp
  obtain r w3 where r: "drone_promote v c (d_source_build_number d) (d_target d) w2 = (r, w3)" by force
  have l3: "dispatches w w3"
    using drone_promote_once [of w2 v c "d_source_build_number d" "d_target d"] r
      looks_sends_dispatches [OF l2] by simp
  show ?thesis
    using looks_dispatches [OF l1] looks_dispatches [OF l2] l3
    by (auto simp: svc_dispatch_def g p r split: sum.split bool.split)
qed

text \<open>No request leaves when a guard refuses or raises.\<close>

lemma svc_dispatch_refused:
  assumes "svc_dispatch v d c w = (Inr None, w')"
  shows "looks w w'"
  using assms ci_dispatch_looks [of w v d c]
  by (auto simp: svc_dispatch_def split: prod.splits sum.splits bool.splits)

subsection \<open>The outcome\<close>

lemma svc_promote_outcome_moves:
  assumes "\<And>d. find_dep w i = Some d \<Longrightarrow> d_status d = DS_PROMOTING"
  shows "moves i w (snd (svc_promote_outcome v i st rel r w))"
proof -
  have fail: "moves i w (commit (svc_fail v i st code msg rel w))" for code msg
    by (rule moves_then [OF svc_fail_moves leaves_ops(3)]) (use assms in auto)
  have rec: "moves i w (commit (svc_record_promotion v i n st rel w))" for n
    by (rule moves_then [OF svc_record_promotion_moves leaves_ops(3)]) (use assms in auto)
  have unc: "moves i w (commit (svc_mark_unconfirmed v i code st rel w))" for code
    by (rule moves_then [OF svc_mark_unconfirmed_moves leaves_ops(3)]) (use assms in auto)
  show ?thesis
    unfolding svc_promote_outcome_def
    by (simp add: fail rec unc split: sum.split option.split exn.split)
qed

text \<open>An outcome is recorded in one commit, or raised with nothing written.\<close>

lemma svc_promote_outcome_trace:
  "\<exists>es. w_trace (snd (svc_promote_outcome v i st rel r w)) = w_trace w @ es \<and>
     (es = [] \<or> (\<exists>T. es = [Committed T]))"
  by (cases r) (auto simp: svc_promote_outcome_def svc_fail_def svc_record_promotion_def
      svc_mark_unconfirmed_def Let_def split: option.split exn.split)

subsection \<open>The whole promotion\<close>

text \<open>The two shapes of a run: nothing claimed, or claim, dispatch and outcome.\<close>

lemma svc_promote_cases:
  obtains
    (idle) "looks w (snd (svc_promote v i rel w))" "w_trace (snd (svc_promote v i rel w)) = w_trace w"
  | (ran) d c w1 r w2 where
      "find_dep w i = Some d" "d_status d = DS_WAITING" "for_deployment w d = Inr c"
      "svc_claim v i rel w = (True, w1)"
      "svc_dispatch v (snd (claim_for_promotion (now_of v w) d)) c w1 = (r, w2)"
      "svc_promote v i rel w = svc_promote_outcome v i (dep_promote_stage d) rel r w2"
proof (cases "find_dep w i")
  case None
  then show thesis by (intro idle) (simp_all add: svc_promote_def)
next
  case (Some d)
  show thesis
  proof (cases "for_deployment w d")
    case (Inl e)
    with Some show thesis by (intro idle) (simp_all add: svc_promote_def)
  next
    case (Inr c)
    obtain b w1 where cl: "svc_claim v i rel w = (b, w1)" by force
    show thesis
    proof (cases b)
      case False
      with cl have "w1 = tick w" using svc_claim_False [of v i rel w w1] by simp
      with False show thesis
        by (intro idle) (simp_all add: svc_promote_def Some Inr Let_def cl)
    next
      case True
      with cl have cl: "svc_claim v i rel w = (True, w1)" by simp
      have f: "d_status d = DS_WAITING" "find_dep w1 i = Some (snd (claim_for_promotion (now_of v w) d))"
        by (rule svc_claim_True [OF cl], use Some in simp)+
      obtain r w2 where r: "svc_dispatch v (snd (claim_for_promotion (now_of v w) d)) c w1 = (r, w2)"
        by force
      show thesis
        by (rule ran [OF Some f(1) Inr cl r]) (simp add: svc_promote_def Some Inr Let_def cl f(2) r)
    qed
  qed
qed

lemma svc_promote_moves: "moves i w (snd (svc_promote v i rel w))"
proof (rule svc_promote_cases [of w v i rel])
  assume "looks w (snd (svc_promote v i rel w))"
  then show ?thesis by (rule leaves_moves [OF leaves_looks])
next
  fix d c w1 r w2
  assume a: "svc_claim v i rel w = (True, w1)"
    "svc_dispatch v (snd (claim_for_promotion (now_of v w) d)) c w1 = (r, w2)"
    "svc_promote v i rel w = svc_promote_outcome v i (dep_promote_stage d) rel r w2"
  have disp: "dispatches w1 w2"
    using svc_dispatch_dispatches [of w1 v "snd (claim_for_promotion (now_of v w) d)" c] a(2) by simp
  have st: "d_status e = DS_PROMOTING" if "find_dep w2 i = Some e" for e
    using svc_claim_status [OF a(1)] that dispatches_find [OF disp, of i] by auto
  have "moves i w w1" by (rule svc_claim_moves [OF a(1)])
  moreover have "moves i w1 w2" by (rule leaves_moves [OF dispatches_leaves [OF disp]])
  moreover have "moves i w2 (snd (svc_promote_outcome v i (dep_promote_stage d) rel r w2))"
    by (rule svc_promote_outcome_moves) (rule st)
  ultimately show ?thesis unfolding a(3) by (blast intro: moves_trans)
qed

text \<open>
  The trace of a promotion: nothing, or the commit of the claim, then reads, then at most one
  request, then at most one commit.
\<close>

lemma svc_promote_trace:
  shows "w_trace (snd (svc_promote v i rel w)) = w_trace w \<or>
    (\<exists>T e gets posts rest. w_trace (snd (svc_promote v i rel w)) = w_trace w @ Committed T # gets @ posts @ rest \<and>
       find_row d_id i (t_deployments T) = Some e \<and> d_status e = DS_PROMOTING \<and>
       only_gets gets \<and> (posts = [] \<or> (\<exists>rq. h_method rq = POST \<and> posts = [Sent rq])) \<and>
       (rest = [] \<or> (\<exists>T'. rest = [Committed T'])))"
proof (rule svc_promote_cases [of w v i rel])
  fix d c w1 r w2
  assume a: "svc_claim v i rel w = (True, w1)"
    "svc_dispatch v (snd (claim_for_promotion (now_of v w) d)) c w1 = (r, w2)"
    "svc_promote v i rel w = svc_promote_outcome v i (dep_promote_stage d) rel r w2"
  obtain e where e: "find_dep w1 i = Some e" "d_status e = DS_PROMOTING"
      "w_trace w1 = w_trace w @ [Committed (w_cur w1)]"
    using svc_claim_status [OF a(1)] svc_claim_trace [OF a(1)] by blast
  have "dispatches w1 w2"
    using svc_dispatch_dispatches [of w1 v "snd (claim_for_promotion (now_of v w) d)" c] a(2) by simp
  then obtain gets posts where g: "w_trace w2 = w_trace w1 @ gets @ posts" "only_gets gets"
      "posts = [] \<or> (\<exists>rq. h_method rq = POST \<and> posts = [Sent rq])"
    by (auto simp: dispatches_def)
  obtain rest where r: "w_trace (snd (svc_promote v i rel w)) = w_trace w2 @ rest"
      "rest = [] \<or> (\<exists>T. rest = [Committed T])"
    using svc_promote_outcome_trace [of v i "dep_promote_stage d" rel r w2] a(3) by auto
  show ?thesis
    using e g r by (intro disjI2 exI [of _ "w_cur w1"] exI [of _ e] exI [of _ gets] exI [of _ posts]
        exI [of _ rest]) (simp add: find_dep_def)
qed (rule disjI1)

lemma svc_promote_posts:
  "length (filter is_post (w_trace (snd (svc_promote v i rel w))))
     \<le> Suc (length (filter is_post (w_trace w)))"
proof -
  have c [simp]: "\<not> is_post (Committed T)" for T by (simp add: is_post_def)
  show ?thesis
    using svc_promote_trace [of v i rel w] by (elim disjE exE conjE) (auto simp: only_gets_no_post)
qed

lemma svc_promote_not_waiting:
  assumes "\<And>d. find_dep w i = Some d \<Longrightarrow> d_status d \<noteq> DS_WAITING"
  shows "w_trace (snd (svc_promote v i rel w)) = w_trace w \<and>
     w_cur (snd (svc_promote v i rel w)) = w_cur w"
proof (rule svc_promote_cases [of w v i rel])
  assume "looks w (snd (svc_promote v i rel w))" "w_trace (snd (svc_promote v i rel w)) = w_trace w"
  then show ?thesis by (simp add: looks_def)
next
  fix d assume "find_dep w i = Some d" "d_status d = DS_WAITING"
  with assms show ?thesis by blast
qed

subsection \<open>Polling sends no promotion and makes nothing durable\<close>

definition polls :: "world \<Rightarrow> world \<Rightarrow> bool" where
  "polls w w' \<longleftrightarrow> w_durable w' = w_durable w \<and> (\<exists>es. w_trace w' = w_trace w @ es \<and> only_gets es)"

lemma polls_refl [simp, intro]: "polls w w" by (simp add: polls_def)

lemma polls_trans: "polls u v \<Longrightarrow> polls v w \<Longrightarrow> polls u w"
  by (auto simp: polls_def)

lemma reads_polls: "reads w w' \<Longrightarrow> polls w w'"
  by (auto simp: reads_def polls_def)

lemma polls_upstream:
  "find_promotion_build v c n tg w = (x, w1) \<Longrightarrow> polls w w1"
  "get_build v c n w = (y, w1) \<Longrightarrow> polls w w1"
  using reads_polls [OF find_promotion_build_reads, of w v c n tg]
    reads_polls [OF get_build_reads, of w v c n] by simp_all

lemma polls_ops:
  "polls w (svc_fail v i st code msg rel w)" "polls w (svc_succeed v i rel w)"
  "polls w (svc_record_promotion v i n st rel w)" "polls w (svc_clear_poll_failure v i st rel w)"
  "polls w (svc_record_poll_failure v i code st rel w)" "polls w (svc_cancel v i reason rel w)"
  "polls w (svc_reset_for_retry v i rel w)" "polls w (log v r dd st kd ss cd ms w)" "polls w (tick w)"
  "polls w (upd_dep i f w)"
  by (simp_all add: polls_def svc_fail_def svc_succeed_def svc_record_promotion_def Let_def
      svc_clear_poll_failure_def svc_record_poll_failure_def svc_cancel_def svc_reset_for_retry_def
      split: option.split)

text \<open>The same facts as rules that work backwards through a composition.\<close>

lemmas polls_chain =
  polls_trans [OF _ polls_ops(1)] polls_trans [OF _ polls_ops(2)] polls_trans [OF _ polls_ops(3)]
  polls_trans [OF _ polls_ops(4)] polls_trans [OF _ polls_ops(5)] polls_trans [OF _ polls_ops(6)]
  polls_trans [OF _ polls_ops(7)] polls_trans [OF _ polls_ops(8)] polls_trans [OF _ polls_ops(9)]
  polls_trans [OF _ polls_ops(10)]

lemma polls_if: "polls u a \<Longrightarrow> polls u b \<Longrightarrow> polls u (if c then a else b)"
  by simp

lemma svc_reconcile_polls: "polls w (svc_reconcile v i st rel w)"
proof (cases "find_dep w i")
  case (Some d)
  define r where "r = (case for_deployment w d of Inl e \<Rightarrow> (Inl e, w)
     | Inr c \<Rightarrow> find_promotion_build v c (d_source_build_number d) (d_target d) w)"
  obtain x w1 where xw: "r = (x, w1)" by force
  have "polls w w1" using xw by (auto simp: r_def split: sum.splits dest: polls_upstream)
  then show ?thesis
    unfolding svc_reconcile_def Some option.case r_def [symmetric] xw prod.case Let_def
    by (auto split: sum.split option.split intro!: polls_chain)
qed (simp add: svc_reconcile_def)

lemma svc_apply_build_polls: "polls w (svc_apply_build v i b st rel w)"
proof (cases "find_dep w i")
  case (Some d)
  show ?thesis
    unfolding svc_apply_build_def Some option.case Let_def
    by (intro polls_if polls_chain polls_refl)
qed (simp add: svc_apply_build_def)

lemma svc_poll_polls: "polls w (svc_poll v i n st rel w)"
proof (cases "find_dep w i")
  case (Some d)
  define r where "r = (case for_deployment w d of Inl e \<Rightarrow> (Inl e, w) | Inr c \<Rightarrow> get_build v c n w)"
  obtain x w1 where xw: "r = (x, w1)" by force
  have "polls w w1" using xw by (auto simp: r_def split: sum.splits dest: polls_upstream)
  then show ?thesis
    unfolding svc_poll_def Some option.case r_def [symmetric] xw prod.case
    by (auto split: sum.split intro!: polls_chain intro: polls_trans [OF _ svc_apply_build_polls])
qed (simp add: svc_poll_def)

lemma svc_refresh_polls: "polls w (svc_refresh v i rel w)"
proof (cases "find_dep w i")
  case (Some d)
  have "polls w (svc_reconcile v i st rel (tick w))" "polls w (svc_poll v i n st rel (tick w))" for st n
    by (rule polls_trans [OF polls_ops(9)], rule svc_reconcile_polls svc_poll_polls)+
  then show ?thesis
    unfolding svc_refresh_def Some option.case Let_def
    by (auto split: option.split intro!: polls_chain)
qed (simp add: svc_refresh_def)

end
