(* ===== verification/Release_Orchestrator.thy ===== *)
theory Release_Orchestrator
  imports Promotion_Laws
begin

section \<open>The release orchestrator\<close>

text \<open>
  app/services/release_orchestrator.py: standalone promotions, release bundles over several
  components, refresh, retry. Methods that can raise return a sum; the ones that only assign
  to ORM objects are functions on the world. A list of deployments is a list of ids, since
  the objects it holds are read again after each step.
\<close>

definition target_for :: "component_row \<Rightarrow> string \<Rightarrow> string" where
  "target_for c release_target = py_or (c_promote_target_override c) release_target"

subsection \<open>Standalone promotions\<close>

definition set_attachment :: "string \<Rightarrow> attachment option \<Rightarrow> world \<Rightarrow> world" where
  "set_attachment i att w =
     (case att of None \<Rightarrow> w | Some a \<Rightarrow> upd_dep i (\<lambda>d. d\<lparr>d_attachment := Some a\<rparr>) w)"

definition prepare_standalone ::
    "env \<Rightarrow> component_row \<Rightarrow> drone_build \<Rightarrow> string \<Rightarrow> string option \<Rightarrow> attachment option \<Rightarrow>
     world \<Rightarrow> (exn + string) \<times> world" where
  "prepare_standalone v c build target requested_by att w =
     (case assert_not_duplicate c (bd_number build) target w of
        Inl e \<Rightarrow> (Inl e, w)
      | Inr _ \<Rightarrow> (case svc_create v c build target None requested_by w of
          (Inl e, w1) \<Rightarrow> (Inl e, w1)
        | (Inr i, w1) \<Rightarrow>
            (let w2 = set_attachment i att w1;
                 stage = ws_value (validate_stage (c_key c));
                 s = Some (ds_value DS_WAITING);
                 w3 = log v None (Some i) stage STAGE_STARTED s None None w2
             in (Inr i, log v None (Some i) stage STAGE_SUCCEEDED s None None w3))))"

definition get_deployment :: "string \<Rightarrow> world \<Rightarrow> exn + dep_row" where
  "get_deployment i w = (case find_dep w i of None \<Rightarrow> Inl DeploymentNotFoundError | Some d \<Rightarrow> Inr d)"

definition promote_standalone ::
    "env \<Rightarrow> component_row \<Rightarrow> int \<Rightarrow> string option \<Rightarrow> string option \<Rightarrow> attachment option \<Rightarrow>
     world \<Rightarrow> (exn + dep_row) \<times> world" where
  "promote_standalone v c build_number target requested_by att w =
     (let tg = target_for c (py_or target (project_default_target w c)) in
      case validate_promotable v c build_number w of
        (Inl e, w1) \<Rightarrow> (Inl e, w1)
      | (Inr build, w1) \<Rightarrow>
          (case prepare_standalone v c build tg requested_by att w1 of
             (Inl e, w2) \<Rightarrow> (Inl e, w2)
           | (Inr i, w2) \<Rightarrow>
               (case svc_promote v i None (commit w2) of
                  (Inl e, w3) \<Rightarrow> (Inl e, w3)
                | (Inr _, w3) \<Rightarrow> (get_deployment i w3, w3))))"

definition refresh_standalone :: "env \<Rightarrow> string \<Rightarrow> world \<Rightarrow> (exn + dep_row) \<times> world" where
  "refresh_standalone v i w =
     (case get_deployment i w of
        Inl e \<Rightarrow> (Inl e, w)
      | Inr d \<Rightarrow>
          (if d_release_bundle_id d \<noteq> None
           then (Inl (DuplicatePromotionError ''Refresh the parent release bundle instead''), w)
           else (case (if d_status d = DS_WAITING then svc_promote v i None w
                       else (Inr (), svc_refresh v i None w)) of
                   (Inl e, w1) \<Rightarrow> (Inl e, w1)
                 | (Inr _, w1) \<Rightarrow>
                     (let s = dep_status w1 i;
                          w2 = (if s = Some (ds_value DS_SUCCESS)
                                then log v None (Some i) (ws_value WAIT_PUBLISH_REQUEST) STAGE_STARTED
                                       s None None
                                       (log v None (Some i) (ws_value COMPLETE_DEPLOYMENT)
                                          RELEASE_COMPLETED s None None w1)
                                else w1);
                          w3 = commit w2
                      in (get_deployment i w3, w3)))))"

subsection \<open>Bundle bookkeeping\<close>

definition get_bundle :: "string \<Rightarrow> world \<Rightarrow> exn + bundle_row" where
  "get_bundle b w = (case find_bundle w b of None \<Rightarrow> Inl BundleNotFoundError | Some r \<Rightarrow> Inr r)"

definition finish_success :: "env \<Rightarrow> string \<Rightarrow> world \<Rightarrow> world" where
  "finish_success v b w =
     (let w1 = upd_bundle b (bundle_finish_success (now_of v w)) (tick w);
          s = bundle_status_of w1 b;
          w2 = log v (Some b) None (ws_value COMPLETE_DEPLOYMENT) RELEASE_COMPLETED s None None w1
      in log v (Some b) None (ws_value WAIT_PUBLISH_REQUEST) STAGE_STARTED s None None w2)"

text \<open>Cancel every step that is still waiting, in order.\<close>

fun cancel_waiting :: "env \<Rightarrow> string \<Rightarrow> string \<Rightarrow> string list \<Rightarrow> world \<Rightarrow> world" where
  "cancel_waiting v b reason [] w = w"
| "cancel_waiting v b reason (i # steps) w =
     cancel_waiting v b reason steps
       (case find_dep w i of
          None \<Rightarrow> w
        | Some d \<Rightarrow> (if d_status d = DS_WAITING then svc_cancel v i reason (Some b) w else w))"

definition any_succeeded :: "world \<Rightarrow> string list \<Rightarrow> bool" where
  "any_succeeded w steps \<longleftrightarrow>
     (\<exists>i \<in> set steps. map_option d_status (find_dep w i) = Some DS_SUCCESS)"

definition fail_bundle :: "env \<Rightarrow> string \<Rightarrow> dep_row \<Rightarrow> string list \<Rightarrow> world \<Rightarrow> world" where
  "fail_bundle v b failed steps w =
     (let w1 = cancel_waiting v b (cancellation_reason failed) steps w
      in upd_bundle b (\<lambda>r. snd (bundle_fail failed (any_succeeded w1 steps) (now_of v w1) r)) (tick w1))"

definition ordered_steps :: "world \<Rightarrow> string \<Rightarrow> string list" where
  "ordered_steps w b = map d_id (ordered_by_component w (bundle_deployments w b))"

subsection \<open>Advancing a release\<close>

text \<open>
  One step of the walk: poll what is running, promote what is waiting, leave the rest. The
  walk goes on only past a step that has succeeded.
\<close>

definition advance_step :: "env \<Rightarrow> string \<Rightarrow> string \<Rightarrow> dep_row \<Rightarrow> world \<Rightarrow> (exn + unit) \<times> world" where
  "advance_step v b i d w =
     (if d_status d \<in> {DS_PROMOTING, DS_DEPLOYING} then (Inr (), svc_refresh v i (Some b) w)
      else if d_status d = DS_WAITING then svc_promote v i (Some b) w
      else (Inr (), w))"

fun advance_walk :: "env \<Rightarrow> string \<Rightarrow> string list \<Rightarrow> string list \<Rightarrow> world \<Rightarrow> (exn + unit) \<times> world" where
  "advance_walk v b steps [] w = (Inr (), finish_success v b w)"
| "advance_walk v b steps (i # rest) w =
     (case find_dep w i of
        None \<Rightarrow> (Inr (), w)
      | Some d \<Rightarrow>
          (case advance_step v b i d w of
             (Inl e, w1) \<Rightarrow> (Inl e, w1)
           | (Inr _, w1) \<Rightarrow>
               (case find_dep w1 i of
                  None \<Rightarrow> (Inr (), w1)
                | Some d1 \<Rightarrow>
                    (if d_status d1 = DS_FAILED then (Inr (), fail_bundle v b d1 steps w1)
                     else if d_status d1 \<noteq> DS_SUCCESS then (Inr (), w1)
                     else advance_walk v b steps rest w1))))"

definition advance :: "env \<Rightarrow> string \<Rightarrow> world \<Rightarrow> (exn + unit) \<times> world" where
  "advance v b w = advance_walk v b (ordered_steps w b) (ordered_steps w b) w"

text \<open>\<open>_advance\<close>, commit, and the bundle read again.\<close>

definition advance_and_commit :: "env \<Rightarrow> string \<Rightarrow> world \<Rightarrow> (exn + bundle_row) \<times> world" where
  "advance_and_commit v b w =
     (case advance v b w of
        (Inl e, w1) \<Rightarrow> (Inl e, w1)
      | (Inr _, w1) \<Rightarrow> (get_bundle b (commit w1), commit w1))"

definition refresh_bundle :: "env \<Rightarrow> string \<Rightarrow> world \<Rightarrow> (exn + bundle_row) \<times> world" where
  "refresh_bundle v b w =
     (case get_bundle b w of
        Inl e \<Rightarrow> (Inl e, w)
      | Inr r \<Rightarrow> (if bundle_terminal r then (Inr r, w) else advance_and_commit v b w))"

subsection \<open>Creating a bundle\<close>

record bundle_request =
  bq_project_id :: "string option"
  bq_components :: "(string \<times> int) list"
  bq_frontend_build_number :: "int option"
  bq_backend_build_number :: "int option"
  bq_target :: "string option"
  bq_requested_by :: "string option"

text \<open>The request as (key, build number) pairs, the v2.2 body included.\<close>

definition requested_pairs :: "(string \<times> int) list \<Rightarrow> int option \<Rightarrow> int option \<Rightarrow> (string \<times> int) list" where
  "requested_pairs components backend frontend =
     (if components \<noteq> [] then components
      else concat (map (\<lambda>(key, n). case n of None \<Rightarrow> [] | Some k \<Rightarrow> [(key, k)])
             [(BACKEND_KEY, backend), (FRONTEND_KEY, frontend)]))"

fun resolve_selection ::
    "world \<Rightarrow> project_row \<Rightarrow> (string \<times> int) list \<Rightarrow> exn + (component_row \<times> int) list" where
  "resolve_selection w p [] = Inr []"
| "resolve_selection w p ((key, build_number) # rest) =
     (case for_key w key p of
        Inl e \<Rightarrow> Inl e
      | Inr c \<Rightarrow>
          (if \<not> c_is_active c
           then Inl (ComponentNotSelectableError (''Component '' @ repr key @
             '' is inactive and cannot be released. Reactivate it under Projects first.''))
           else (case resolve_selection w p rest of
                   Inl e \<Rightarrow> Inl e | Inr sel \<Rightarrow> Inr ((c, build_number) # sel))))"

definition selected_components ::
    "world \<Rightarrow> project_row \<Rightarrow> bundle_request \<Rightarrow> exn + (component_row \<times> int) list" where
  "selected_components w p q =
     (case resolve_selection w p
             (requested_pairs (bq_components q) (bq_backend_build_number q) (bq_frontend_build_number q)) of
        Inl e \<Rightarrow> Inl e
      | Inr sel \<Rightarrow> Inr (sort_key (\<lambda>s. c_position (fst s)) sel))"

text \<open>
  Every source build and every duplicate guard, before anything is written. \<open>expected\<close> is the
  commit each component of an approved plan was approved for, \<open>required\<close> the target of the
  plan; both are absent for an ordinary release.
\<close>

fun validate_selection ::
    "env \<Rightarrow> string \<Rightarrow> (string \<Rightarrow> string option) option \<Rightarrow> string option \<Rightarrow> (component_row \<times> int) list \<Rightarrow>
     world \<Rightarrow> (exn + (component_row \<times> drone_build) list) \<times> world" where
  "validate_selection v target expected required [] w = (Inr [], w)"
| "validate_selection v target expected required ((c, n) # rest) w =
     (case validate_promotable v c n w of
        (Inl e, w1) \<Rightarrow> (Inl e, w1)
      | (Inr build, w1) \<Rightarrow>
          (if (case expected of None \<Rightarrow> False | Some f \<Rightarrow> f (c_key c) \<noteq> Some (bd_commit_sha build))
           then (Inl (BuildNotPromotableError ''Source commit no longer matches the release plan''), w1)
           else if (case required of None \<Rightarrow> False | Some t \<Rightarrow> target_for c target \<noteq> t)
           then (Inl (ComponentNotSelectableError ''Effective target no longer matches the release plan''), w1)
           else (case assert_not_duplicate c (bd_number build) (target_for c target) w1 of
                   Inl e \<Rightarrow> (Inl e, w1)
                 | Inr _ \<Rightarrow>
                     (case validate_selection v target expected required rest w1 of
                        (Inl e, w2) \<Rightarrow> (Inl e, w2)
                      | (Inr bs, w2) \<Rightarrow> (Inr ((c, build) # bs), w2)))))"

definition new_bundle ::
    "env \<Rightarrow> world \<Rightarrow> string option \<Rightarrow> project_row \<Rightarrow> string \<Rightarrow> string list \<Rightarrow> string option \<Rightarrow>
     attachment option \<Rightarrow> bundle_row" where
  "new_bundle v w given p target keys requested_by att =
     \<lparr>b_id = (if py_truthy given then the given else new_uuid v (tick w)), b_mode = RM_BUNDLE,
      b_target = target, b_status = BS_PENDING, b_deployment_status = BS_PENDING,
      b_created_at = now_of v (tick (tick (tick w))), b_updated_at = now_of v (tick (tick (tick w))),
      b_project_id = Some (p_id p), b_selected_component_keys = Some (join '','' keys),
      b_publish_status = PS_NOT_PUBLISHED, b_version = None, b_release_name = None,
      b_release_notes = None, b_workflow_instance_id = Some (new_uuid v (tick (tick w))),
      b_current_stage = Some (ws_value CREATE_RELEASE_BUNDLE), b_failed_stage = None,
      b_error_code = None, b_error_message = None, b_requested_by = requested_by,
      b_started_at = Some (now_of v w), b_failed_at = None, b_finished_at = None,
      b_publish_started_at = None, b_published_at = None, b_publish_failed_at = None,
      b_publish_error_code = None, b_publish_error_message = None, b_attachment = att\<rparr>"

definition insert_bundle :: "bundle_row \<Rightarrow> world \<Rightarrow> world" where
  "insert_bundle b = set_tables (\<lambda>t. t\<lparr>t_bundles := t_bundles t @ [b]\<rparr>)"

fun create_steps ::
    "env \<Rightarrow> string \<Rightarrow> string \<Rightarrow> string option \<Rightarrow> (component_row \<times> drone_build) list \<Rightarrow>
     world \<Rightarrow> (exn + unit) \<times> world" where
  "create_steps v b target requested_by [] w = (Inr (), w)"
| "create_steps v b target requested_by ((c, build) # rest) w =
     (case svc_create v c build (target_for c target) (Some b) requested_by w of
        (Inl e, w1) \<Rightarrow> (Inl e, w1)
      | (Inr i, w1) \<Rightarrow>
          (let stage = ws_value (validate_stage (c_key c));
               w2 = log v (Some b) (Some i) stage STAGE_STARTED None None None w1;
               w3 = log v (Some b) (Some i) stage STAGE_SUCCEEDED None None None w2
           in create_steps v b target requested_by rest w3))"

definition create_bundle ::
    "env \<Rightarrow> bundle_request \<Rightarrow> attachment option \<Rightarrow> string option \<Rightarrow> (string \<Rightarrow> string option) option \<Rightarrow>
     string option \<Rightarrow> world \<Rightarrow> (exn + bundle_row) \<times> world" where
  "create_bundle v q att given expected required w =
     (case lookup_project w (bq_project_id q) of
        Inl e \<Rightarrow> (Inl e, w)
      | Inr p \<Rightarrow> (case selected_components w p q of
          Inl e \<Rightarrow> (Inl e, w)
        | Inr sel \<Rightarrow>
            (let target = py_or (bq_target q) (p_default_target p) in
             case validate_selection v target expected required sel w of
               (Inl e, w1) \<Rightarrow> (Inl e, w1)
             | (Inr validated, w1) \<Rightarrow>
                 (let b = new_bundle v w1 given p target (map (c_key \<circ> fst) validated)
                            (bq_requested_by q) att;
                      w2 = tick (tick (tick (tick w1)))
                  in if find_bundle w2 (b_id b) \<noteq> None then (Inl IntegrityError, rollback w2)
                  else case create_steps v (b_id b) target (bq_requested_by q) validated
                              (insert_bundle b w2) of
                      (Inl e, w3) \<Rightarrow> (Inl e, w3)
                    | (Inr _, w3) \<Rightarrow>
                        (let stage = ws_value CREATE_RELEASE_BUNDLE;
                             w4 = log v (Some (b_id b)) None stage STAGE_STARTED None None None w3;
                             w5 = log v (Some (b_id b)) None stage STAGE_SUCCEEDED None None None w4
                         in advance_and_commit v (b_id b) (commit w5))))))"

subsection \<open>Retrying a bundle\<close>

definition retry_bundle_fields :: "time \<Rightarrow> bundle_row \<Rightarrow> bundle_row" where
  "retry_bundle_fields at b =
     b\<lparr>b_status := BS_PENDING, b_deployment_status := BS_PENDING,
       b_current_stage := Some (ws_value CREATE_RELEASE_BUNDLE), b_failed_stage := None,
       b_error_code := None, b_error_message := None, b_failed_at := None,
       b_finished_at := None, b_updated_at := at\<rparr>"

fun reset_all :: "env \<Rightarrow> string \<Rightarrow> string list \<Rightarrow> world \<Rightarrow> world" where
  "reset_all v b [] w = w"
| "reset_all v b (i # rest) w = reset_all v b rest (svc_reset_for_retry v i (Some b) w)"

definition retryable :: "bundle_row \<Rightarrow> bool" where
  "retryable b \<longleftrightarrow> b_deployment_status b \<in> {BS_FAILED, BS_PARTIAL_FAILURE}"

definition retry_targets :: "world \<Rightarrow> string \<Rightarrow> dep_row list" where
  "retry_targets w b = filter (\<lambda>d. d_status d \<noteq> DS_SUCCESS) (bundle_deployments w b)"

definition msg_not_retryable :: "bundle_status \<Rightarrow> string" where
  "msg_not_retryable s =
     ''Only a failed or partly failed bundle can be retried; this one is '' @ bs_value s"

definition msg_retrying :: "dep_row list \<Rightarrow> string" where
  "msg_retrying ds = ''Retrying '' @ join '', '' (sort (map d_component ds))"

text \<open>The commit flushes the reset rows, so the unique index is checked here.\<close>

definition try_commit :: "world \<Rightarrow> (exn + unit) \<times> world" where
  "try_commit w =
     (if slots_unique (t_deployments (w_cur w)) then (Inr (), commit w)
      else (Inl IntegrityError, rollback w))"

definition retry_bundle :: "env \<Rightarrow> string \<Rightarrow> world \<Rightarrow> (exn + bundle_row) \<times> world" where
  "retry_bundle v b w =
     (case get_bundle b w of
        Inl e \<Rightarrow> (Inl e, w)
      | Inr r \<Rightarrow>
          (if \<not> retryable r then (Inl (BundleNotRetryableError (msg_not_retryable (b_deployment_status r))), w)
           else if b_publish_status r \<noteq> PS_NOT_PUBLISHED
           then (Inl (BundleNotRetryableError
             ''This bundle has already been published; retrying the deployment would change what the published version refers to''), w)
           else (let ds = retry_targets w b in
             if ds = [] then (Inl (BundleNotRetryableError ''Every component already succeeded''), w)
             else (let now = now_of v w;
                       w1 = reset_all v b (map d_id ds) (tick w);
                       w2 = upd_bundle b (retry_bundle_fields now) w1;
                       w3 = log v (Some b) None (ws_value CREATE_RELEASE_BUNDLE) DEPLOYMENT_RETRIED
                              (bundle_status_of w2 b) None (Some (msg_retrying ds)) w2
                   in case try_commit w3 of
                        (Inl e, w4) \<Rightarrow> (Inl e, w4)
                      | (Inr _, w4) \<Rightarrow> advance_and_commit v b w4))))"

end
