(* ===== verification/Session_Laws.thy ===== *)
theory Session_Laws
  imports Drone_Client_Laws Orch_Store
begin

section \<open>Relations that survive a session\<close>

text \<open>
  A service method assigns rows, commits and rolls back. A relation between tables that is
  reflexive and transitive and that every assignment satisfies holds between the tables a request
  found and whatever it leaves, current or durable, however it ended, and whatever it committed on
  its way. The locale is that
  argument; each component interprets it with the relation it promises.
\<close>

text \<open>The tables a run committed on its way: what another session may have read, and what a crash leaves.\<close>

definition snapshots :: "effect list \<Rightarrow> tables set" where
  "snapshots es = {T. Committed T \<in> set es}"

lemma snapshots_simps [simp]:
  "snapshots [] = {}" "snapshots (es @ fs) = snapshots es \<union> snapshots fs"
  "snapshots (Committed T # es) = insert T (snapshots es)" "snapshots (Sent rq # es) = snapshots es"
  "snapshots (RolledBack # es) = snapshots es" "snapshots (Mailed m # es) = snapshots es"
  by (auto simp: snapshots_def)

lemma snapshots_gets [simp]: "only_gets es \<Longrightarrow> snapshots es = {}"
  by (auto simp: only_gets_def snapshots_def)

text \<open>A run that commits nothing; and one that commits only what it ends with.\<close>

definition unsaved :: "world \<Rightarrow> world \<Rightarrow> bool" where
  "unsaved w w' \<longleftrightarrow> w_durable w' = w_durable w \<and> (\<exists>es. w_trace w' = w_trace w @ es \<and> snapshots es = {})"

definition saves :: "world \<Rightarrow> world \<Rightarrow> bool" where
  "saves w w' \<longleftrightarrow> (w_durable w' = w_durable w \<or> w_durable w' = w_cur w') \<and>
     (\<exists>es. w_trace w' = w_trace w @ es \<and> snapshots es \<subseteq> {w_cur w'})"

lemma unsaved_saves: "unsaved w w' \<Longrightarrow> saves w w'"
  by (auto simp: unsaved_def saves_def)

lemma unsaved_trans: "unsaved u v \<Longrightarrow> unsaved v w \<Longrightarrow> unsaved u w"
  by (auto simp: unsaved_def)

lemma unsaved_send [simp]: "unsaved w (w\<lparr>w_trace := w_trace w @ [Sent rq]\<rparr>)"
  by (simp add: unsaved_def)

lemma unsaved_same: "w_durable w' = w_durable w \<Longrightarrow> w_trace w' = w_trace w \<Longrightarrow> unsaved w w'"
  by (simp add: unsaved_def)

lemma unsaved_reads: "reads w w' \<Longrightarrow> unsaved w w'"
  by (auto simp: unsaved_def reads_def)

definition across :: "(tables \<Rightarrow> tables \<Rightarrow> bool) \<Rightarrow> world \<Rightarrow> world \<Rightarrow> bool" where
  "across rel w w' \<longleftrightarrow>
     (\<exists>es. w_trace w' = w_trace w @ es \<and>
       (\<forall>T. rel T (w_cur w) \<and> rel T (w_durable w) \<longrightarrow>
          rel T (w_cur w') \<and> rel T (w_durable w') \<and> (\<forall>U \<in> snapshots es. rel T U)))"

lemma acrossD: "across rel w w' \<Longrightarrow> rel T (w_cur w) \<Longrightarrow> rel T (w_durable w) \<Longrightarrow> rel T (w_cur w') \<and> rel T (w_durable w')"
  by (auto simp: across_def)

text \<open>From tables that are durable, everything a run leaves or committed is related to them.\<close>

lemma across_clean:
  assumes "across rel w w'" and "w_durable w = w_cur w" and "rel (w_cur w) (w_cur w)"
  shows "rel (w_cur w) (w_cur w') \<and> rel (w_cur w) (w_durable w') \<and>
    (\<exists>es. w_trace w' = w_trace w @ es \<and> (\<forall>U \<in> snapshots es. rel (w_cur w) U))"
  using assms by (auto simp: across_def)

lemma across_still: "w_cur w' = w_cur w \<Longrightarrow> unsaved w w' \<Longrightarrow> across rel w w'"
  by (auto simp: across_def unsaved_def)

locale table_preorder =
  fixes rel :: "tables \<Rightarrow> tables \<Rightarrow> bool"
  assumes rel_refl: "rel T T" and rel_trans: "rel T U \<Longrightarrow> rel U V \<Longrightarrow> rel T V"
begin

lemma across_refl: "across rel w w"
  by (simp add: across_def)

lemma across_trans:
  assumes "across rel u v" and "across rel v w"
  shows "across rel u w"
proof -
  obtain es where es: "w_trace v = w_trace u @ es"
    "\<And>T. rel T (w_cur u) \<Longrightarrow> rel T (w_durable u) \<Longrightarrow>
      rel T (w_cur v) \<and> rel T (w_durable v) \<and> (\<forall>U \<in> snapshots es. rel T U)"
    using assms(1) by (auto simp: across_def)
  obtain fs where fs: "w_trace w = w_trace v @ fs"
    "\<And>T. rel T (w_cur v) \<Longrightarrow> rel T (w_durable v) \<Longrightarrow>
      rel T (w_cur w) \<and> rel T (w_durable w) \<and> (\<forall>U \<in> snapshots fs. rel T U)"
    using assms(2) by (auto simp: across_def)
  have "rel T (w_cur w) \<and> rel T (w_durable w) \<and> (\<forall>U \<in> snapshots (es @ fs). rel T U)"
    if "rel T (w_cur u)" "rel T (w_durable u)" for T
  proof -
    have v: "rel T (w_cur v)" "rel T (w_durable v)" "\<forall>U \<in> snapshots es. rel T U" using es(2) [OF that] by blast+
    show ?thesis using fs(2) [OF v(1,2)] v(3) by (simp add: ball_Un)
  qed
  then show ?thesis unfolding across_def using es(1) fs(1) by (intro exI [of _ "es @ fs"]) simp
qed

lemma across_step:
  assumes "rel (w_cur w) (w_cur w')" and "w_durable w' = w_durable w" and "w_trace w' = w_trace w"
  shows "across rel w w'"
  using assms rel_trans by (auto simp: across_def)

lemma across_tables: "(\<And>T. rel T (f T)) \<Longrightarrow> across rel w (set_tables f w)"
  by (rule across_step) simp_all

lemma across_commit: "across rel w (commit w)"
  by (simp add: across_def)

lemma across_rollback: "across rel w (rollback w)"
  by (simp add: across_def)

lemma across_tick: "across rel w (tick w)"
  by (simp add: across_def)

lemma across_reads: "reads w w' \<Longrightarrow> across rel w w'"
  by (rule across_still) (simp_all add: unsaved_reads, simp add: reads_def)

lemma across_send: "across rel w (snd (send v rq w))"
  by (simp add: across_def)

lemma across_sends_once: "sends_once w w' \<Longrightarrow> across rel w w'"
  by (auto simp: sends_once_def across_def)

text \<open>The same, after a run: outermost effect first.\<close>

lemma after_tick: "across rel w u \<Longrightarrow> across rel w (tick u)"
  by (rule across_trans [OF _ across_tick])

lemma after_commit: "across rel w u \<Longrightarrow> across rel w (commit u)"
  by (rule across_trans [OF _ across_commit])

lemma after_rollback: "across rel w u \<Longrightarrow> across rel w (rollback u)"
  by (rule across_trans [OF _ across_rollback])

lemma after_tables: "(\<And>T. rel T (f T)) \<Longrightarrow> across rel w u \<Longrightarrow> across rel w (set_tables f u)"
  by (rule across_trans [OF _ across_tables])

lemma across_session:
  "across rel w w' \<Longrightarrow> w_durable w = w_cur w \<Longrightarrow> rel (w_cur w) (w_cur w') \<and> rel (w_cur w) (w_durable w')"
  using acrossD [of rel w w' "w_cur w"] rel_refl by simp

end

end
