(* ===== verification/Orchestrator_Laws.thy ===== *)
theory Orchestrator_Laws
  imports Release_Orchestrator Session_Laws
begin

section \<open>What a pass over a release guarantees\<close>

subsection \<open>Moving several rows\<close>

definition evolves :: "world \<Rightarrow> world \<Rightarrow> bool" where
  "evolves w w' \<longleftrightarrow>
     (\<forall>i d. find_dep w i = Some d \<longrightarrow> (\<exists>e. find_dep w' i = Some e \<and> row_steps d e)) \<and>
     map d_id (t_deployments (w_cur w')) = map d_id (t_deployments (w_cur w)) \<and>
     (\<exists>es. t_events (w_cur w') = t_events (w_cur w) @ es)"

lemma evolves_refl [simp, intro]: "evolves w w"
  by (auto simp: evolves_def)

lemma evolves_trans:
  assumes "evolves u v" and "evolves v w"
  shows "evolves u w"
proof -
  have "\<exists>e. find_dep w i = Some e \<and> row_steps d e" if "find_dep u i = Some d" for i d
    using assms that unfolding evolves_def by (metis rtranclp_trans)
  then show ?thesis using assms by (auto simp: evolves_def)
qed

lemma moves_evolves: "moves i w w' \<Longrightarrow> evolves w w'"
  unfolding moves_def evolves_def by (metis rtranclp.rtrancl_refl)

lemma leaves_evolves: "leaves w w' \<Longrightarrow> evolves w w'"
  by (rule moves_evolves [OF leaves_moves])

subsection \<open>Good tables\<close>

definition good_rows :: "dep_row list \<Rightarrow> bool" where
  "good_rows ds \<longleftrightarrow> keyed d_id ds \<and> slots_unique ds \<and> (\<forall>d \<in> set ds. dep_inv d)"

definition good :: "world \<Rightarrow> bool" where
  "good w \<longleftrightarrow> good_rows (t_deployments (w_cur w)) \<and> good_rows (t_deployments (w_durable w))"

lemma good_find_inv: "good w \<Longrightarrow> find_dep w i = Some d \<Longrightarrow> dep_inv d"
  by (auto simp: good_def good_rows_def find_dep_def dest: find_row_Some)

lemma keyed_find_iff: "keyed d_id ds \<Longrightarrow> d \<in> set ds \<longleftrightarrow> find_row d_id (d_id d) ds = Some d"
  by (auto intro: find_row_keyed dest: find_row_Some)

text \<open>With a primary key, the index says: two active rows of one slot are the same row.\<close>

lemma slots_unique_iff:
  assumes "keyed d_id ds"
  shows "slots_unique ds \<longleftrightarrow>
    (\<forall>d \<in> set ds. \<forall>e \<in> set ds. slot_active d \<and> slot_active e \<and> promotion_slot d = promotion_slot e \<longrightarrow> d = e)"
proof -
  have "distinct ds" using assms by (simp add: keyed_def distinct_map)
  then show ?thesis by (auto simp: slots_unique_def distinct_map inj_on_def)
qed

lemma good_rows_evolves:
  assumes ev: "evolves w w'" and g: "good_rows (t_deployments (w_cur w))"
  shows "good_rows (t_deployments (w_cur w'))"
proof -
  let ?T = "t_deployments (w_cur w)" and ?U = "t_deployments (w_cur w')"
  have ids: "map d_id ?U = map d_id ?T" using ev by (simp add: evolves_def)
  have kT: "keyed d_id ?T" using g by (simp add: good_rows_def)
  then have kU: "keyed d_id ?U" using ids by (simp add: keyed_def)
  have origin: "\<exists>d \<in> set ?T. row_steps d e \<and> d_id d = d_id e" if "e \<in> set ?U" for e
  proof -
    have "d_id e \<in> d_id ` set ?T"
      using that arg_cong [OF ids, of set] by auto
    then obtain d where d: "d \<in> set ?T" "d_id d = d_id e" by auto
    then have "find_dep w (d_id e) = Some d" using kT by (metis find_dep_def find_row_keyed)
    then obtain e' where "find_dep w' (d_id e) = Some e'" "row_steps d e'"
      using ev unfolding evolves_def by blast
    then show ?thesis using d that kU by (metis find_dep_def find_row_keyed option.inject)
  qed
  have "slots_unique ?U"
    unfolding slots_unique_iff [OF kU]
  proof (intro ballI impI, elim conjE)
    fix d e assume d: "d \<in> set ?U" "slot_active d" and e: "e \<in> set ?U" "slot_active e"
      and s: "promotion_slot d = promotion_slot e"
    obtain d0 where d0: "d0 \<in> set ?T" "row_steps d0 d" "d_id d0 = d_id d" using origin d(1) by blast
    obtain e0 where e0: "e0 \<in> set ?T" "row_steps e0 e" "d_id e0 = d_id e" using origin e(1) by blast
    have "promotion_slot d0 = promotion_slot e0" "slot_active d0" "slot_active e0"
      using row_steps_frame [OF d0(2)] row_steps_frame [OF e0(2)] s d(2) e(2)
      by (auto dest!: promotion_slot_identity)
    then have "d0 = e0" using g slots_unique_iff [OF kT] d0(1) e0(1) by (auto simp: good_rows_def)
    then have "d_id d = d_id e" using d0(3) e0(3) by simp
    then show "d = e" using kU d(1) e(1) by (metis find_row_keyed option.inject)
  qed
  moreover have "\<forall>e \<in> set ?U. dep_inv e"
    using origin g row_steps_inv unfolding good_rows_def by blast
  ultimately show ?thesis using kU by (simp add: good_rows_def)
qed

subsection \<open>What becomes of a deployment\<close>

text \<open>
  A deployment is never lost and never becomes another one, and a success stays the success it was.
  With the good rows this is a preorder on tables, so it survives a session.
\<close>

definition dep_result :: "dep_row \<Rightarrow> int option \<times> time option \<times> time option" where
  "dep_result d = (d_promotion_build_number d, d_started_at d, d_finished_at d)"

definition lasting :: "dep_row \<Rightarrow> dep_row \<Rightarrow> bool" where
  "lasting d e \<longleftrightarrow> dep_identity e = dep_identity d \<and>
     (d_status d = DS_SUCCESS \<longrightarrow> d_status e = DS_SUCCESS \<and> dep_result e = dep_result d)"

definition lasting_rows :: "dep_row list \<Rightarrow> dep_row list \<Rightarrow> bool" where
  "lasting_rows ds es \<longleftrightarrow> (\<forall>d \<in> set ds. \<exists>e \<in> set es. lasting d e)"

definition slots_kept :: "tables \<Rightarrow> tables \<Rightarrow> bool" where
  "slots_kept T U \<longleftrightarrow> (good_rows (t_deployments T) \<longrightarrow>
     good_rows (t_deployments U) \<and> lasting_rows (t_deployments T) (t_deployments U))"

lemma lasting_refl [simp]: "lasting d d"
  by (simp add: lasting_def)

lemma lasting_trans: "lasting c d \<Longrightarrow> lasting d e \<Longrightarrow> lasting c e"
  by (simp add: lasting_def)

lemma lasting_rows_refl [simp]: "lasting_rows ds ds"
  unfolding lasting_rows_def using lasting_refl by blast

lemma lasting_rows_trans: "lasting_rows cs ds \<Longrightarrow> lasting_rows ds es \<Longrightarrow> lasting_rows cs es"
  unfolding lasting_rows_def using lasting_trans by meson

lemma lasting_rows_append [simp]: "lasting_rows ds (ds @ es)"
  unfolding lasting_rows_def by (metis Un_iff lasting_refl set_append)

lemma lasting_rows_upd:
  assumes "keyed d_id ds" and "\<And>d. find_row d_id i ds = Some d \<Longrightarrow> lasting d (f d)"
  shows "lasting_rows ds (upd_row d_id i f ds)"
  unfolding lasting_rows_def
proof
  fix d assume d: "d \<in> set ds"
  let ?e = "if d_id d = i then f d else d"
  have "lasting d ?e" using find_row_keyed [OF assms(1) d] assms(2) by auto
  moreover have "?e \<in> set (upd_row d_id i f ds)" using d by (auto simp: upd_row_def)
  ultimately show "\<exists>e \<in> set (upd_row d_id i f ds). lasting d e" by blast
qed

interpretation slots: table_preorder slots_kept
  by unfold_locales (auto simp: slots_kept_def intro: lasting_rows_trans)

lemma row_step_lasting: "row_step d e \<Longrightarrow> lasting d e"
proof -
  assume s: "row_step d e"
  have "d_status d \<noteq> DS_SUCCESS" if "dep_step (entity_of d) x" for x
    using success_is_final [of "entity_of d"] that by auto
  then show "lasting d e"
    using s row_step_frame [OF s] by (auto simp: lasting_def row_step_def)
qed

lemma row_steps_lasting: "row_steps d e \<Longrightarrow> lasting d e"
  by (induction rule: rtranclp_induct) (auto intro: lasting_trans row_step_lasting)

lemma evolves_lasting:
  assumes "evolves w w'" and "keyed d_id (t_deployments (w_cur w))"
  shows "lasting_rows (t_deployments (w_cur w)) (t_deployments (w_cur w'))"
  unfolding lasting_rows_def
proof
  fix d assume "d \<in> set (t_deployments (w_cur w))"
  then have "find_dep w (d_id d) = Some d" using assms(2) by (simp add: find_dep_def find_row_keyed)
  then obtain e where "find_dep w' (d_id d) = Some e" "row_steps d e" using assms(1) by (auto simp: evolves_def)
  then show "\<exists>e \<in> set (t_deployments (w_cur w')). lasting d e"
    using row_steps_lasting by (auto simp: find_dep_def dest: find_row_Some)
qed

text \<open>Durable tables are either what they were or a snapshot of the current ones.\<close>

definition settles :: "world \<Rightarrow> world \<Rightarrow> bool" where
  "settles w w' \<longleftrightarrow> across slots_kept w w'"

lemma settles_trans: "settles u v \<Longrightarrow> settles v w \<Longrightarrow> settles u w"
  unfolding settles_def by (rule slots.across_trans)

lemma settles_refl [simp, intro]: "settles w w"
  unfolding settles_def by (rule slots.across_refl)

lemma settles_commit [simp, intro]: "settles w (commit w)"
  unfolding settles_def by (rule slots.across_commit)

lemma settles_rollback [simp, intro]: "settles w (rollback w)"
  unfolding settles_def by (rule slots.across_rollback)

lemma settles_tick [simp, intro]: "settles w (tick w)"
  unfolding settles_def by (rule slots.across_tick)

lemma good_rows_Nil [simp]: "good_rows []"
  by (simp add: good_rows_def keyed_def slots_unique_def)

lemma settles_kept: "settles w w' \<Longrightarrow> good w \<Longrightarrow> good w' \<and>
    (\<forall>ds. lasting_rows ds (t_deployments (w_cur w)) \<and> lasting_rows ds (t_deployments (w_durable w)) \<and> good_rows ds \<longrightarrow>
       lasting_rows ds (t_deployments (w_cur w')) \<and> lasting_rows ds (t_deployments (w_durable w')))"
proof -
  assume s: "settles w w'" and g: "good w"
  have a: "slots_kept ((w_cur w)\<lparr>t_deployments := ds\<rparr>) (w_cur w') \<and> slots_kept ((w_cur w)\<lparr>t_deployments := ds\<rparr>) (w_durable w')"
    if "lasting_rows ds (t_deployments (w_cur w))" "lasting_rows ds (t_deployments (w_durable w))" for ds
    using acrossD [OF s [unfolded settles_def], of "(w_cur w)\<lparr>t_deployments := ds\<rparr>"] g that
    by (simp add: slots_kept_def good_def)
  have "lasting_rows [] es" for es by (simp add: lasting_rows_def)
  then have "good w'" using a [of "[]"] by (simp add: slots_kept_def good_def)
  then show ?thesis using a by (simp add: slots_kept_def)
qed

lemma settles_good: "settles w w' \<Longrightarrow> good w \<Longrightarrow> good w'"
  using settles_kept by blast

lemma settles_step:
  assumes "good w \<Longrightarrow> slots_kept (w_cur w) (w_cur w')" and "saves w w'"
  shows "settles w w'"
proof -
  obtain es where es: "w_trace w' = w_trace w @ es" "snapshots es \<subseteq> {w_cur w'}"
    using assms(2) by (auto simp: saves_def)
  have "slots_kept T (w_cur w')" if "slots_kept T (w_cur w)" "slots_kept T (w_durable w)" for T
  proof (cases "good_rows (t_deployments T)")
    case True
    then have "good w" using that by (simp add: slots_kept_def good_def)
    then show ?thesis using slots.rel_trans [OF that(1) assms(1)] by blast
  qed (simp add: slots_kept_def)
  then show ?thesis
    using es assms(2) unfolding settles_def across_def saves_def by (intro exI [of _ es]) auto
qed

lemma settles_evolves:
  assumes "good w \<Longrightarrow> evolves w w'" and "saves w w'"
  shows "settles w w'"
proof (rule settles_step [OF _ assms(2)])
  assume g: "good w"
  have k: "keyed d_id (t_deployments (w_cur w))" using g by (simp add: good_def good_rows_def)
  show "slots_kept (w_cur w) (w_cur w')"
    using good_rows_evolves [OF assms(1) [OF g]] evolves_lasting [OF assms(1) [OF g] k]
    by (simp add: slots_kept_def)
qed

text \<open>An update that does not touch what makes a row good, on one deployment.\<close>

lemma upd_dep_settles:
  assumes "\<And>d. d_id (f d) = d_id d" "\<And>d. dep_inv (f d) = dep_inv d"
    "\<And>d. promotion_slot (f d) = promotion_slot d" "\<And>d. slot_active (f d) = slot_active d"
    "\<And>d. lasting d (f d)"
  shows "settles w (upd_dep i f w)"
proof (rule settles_step)
  have m: "map promotion_slot (filter slot_active (upd_row d_id i f ds)) =
      map promotion_slot (filter slot_active ds)" for ds
    by (induction ds) (simp_all add: assms)
  have k: "keyed d_id (upd_row d_id i f ds) = keyed d_id ds" for ds by (simp add: assms)
  have a: "(\<forall>d \<in> set (upd_row d_id i f ds). dep_inv d) = (\<forall>d \<in> set ds. dep_inv d)" for ds
    by (induction ds) (simp_all add: assms)
  have "good_rows (upd_row d_id i f ds) = good_rows ds" for ds
    unfolding good_rows_def slots_unique_def k m a ..
  moreover have "lasting_rows ds (upd_row d_id i f ds)" if "good_rows ds" for ds
    using that assms(5) by (intro lasting_rows_upd) (simp_all add: good_rows_def)
  ultimately show "slots_kept (w_cur w) (w_cur (upd_dep i f w))"
    by (simp add: upd_dep_def slots_kept_def)
qed (simp add: upd_dep_def unsaved_saves unsaved_same)

lemma settles_leaves: "leaves w w' \<Longrightarrow> unsaved w w' \<Longrightarrow> settles w w'"
  by (blast intro: settles_evolves leaves_evolves unsaved_saves)

lemma rollback_settles:
  assumes "unsaved w w'"
  shows "settles w (rollback w')"
proof -
  obtain es where "w_trace w' = w_trace w @ es" "snapshots es = {}" "w_durable w' = w_durable w"
    using assms by (auto simp: unsaved_def)
  then show ?thesis unfolding settles_def across_def by (intro exI [of _ "es @ [RolledBack]"]) simp
qed

lemma unsaved_looks: "looks w w' \<Longrightarrow> unsaved w w'"
  by (auto simp: unsaved_def looks_def)

lemma unsaved_dispatches: "dispatches w w' \<Longrightarrow> unsaved w w'"
  by (auto simp: unsaved_def dispatches_def)

lemma unsaved_polls: "polls w w' \<Longrightarrow> unsaved w w'"
  by (auto simp: unsaved_def polls_def)

subsection \<open>Promotion and polling keep tables good\<close>

lemma svc_promote_outcome_saves: "saves w (snd (svc_promote_outcome v i st rel r w))"
  by (cases r) (auto simp: saves_def svc_promote_outcome_def svc_fail_def svc_record_promotion_def
      svc_mark_unconfirmed_def Let_def split: option.split exn.split)

lemma svc_promote_settles: "settles w (snd (svc_promote v i rel w))"
proof (rule svc_promote_cases [of w v i rel])
  assume "looks w (snd (svc_promote v i rel w))"
  then show ?thesis by (intro settles_leaves leaves_looks unsaved_looks)
next
  fix d c w1 r w2
  assume a: "svc_claim v i rel w = (True, w1)"
    "svc_dispatch v (snd (claim_for_promotion (now_of v w) d)) c w1 = (r, w2)"
    "svc_promote v i rel w = svc_promote_outcome v i (dep_promote_stage d) rel r w2"
  have disp: "dispatches w1 w2"
    using svc_dispatch_dispatches [of w1 v "snd (claim_for_promotion (now_of v w) d)" c] a(2) by simp
  have st: "d_status e = DS_PROMOTING" if "find_dep w2 i = Some e" for e
    using svc_claim_status [OF a(1)] that dispatches_find [OF disp, of i] by auto
  have "settles w w1"
    using svc_claim_moves [OF a(1)] svc_claim_trace [OF a(1)]
    by (intro settles_evolves moves_evolves) (auto simp: saves_def)
  moreover have "settles w1 w2"
    by (rule settles_leaves [OF dispatches_leaves [OF disp] unsaved_dispatches [OF disp]])
  moreover have "settles w2 (snd (svc_promote_outcome v i (dep_promote_stage d) rel r w2))"
    by (rule settles_evolves [OF moves_evolves [OF svc_promote_outcome_moves [OF st]]
          svc_promote_outcome_saves])
  ultimately show ?thesis unfolding a(3) by (blast intro: settles_trans)
qed

lemma svc_refresh_settles:
  assumes "\<And>d. find_dep w i = Some d \<Longrightarrow> d_status d \<noteq> DS_WAITING"
  shows "settles w (svc_refresh v i rel w)"
proof (rule settles_evolves)
  assume "good w"
  then show "evolves w (svc_refresh v i rel w)"
    using moves_evolves [OF svc_refresh_moves, of w i v rel] assms good_find_inv by blast
next
  show "saves w (svc_refresh v i rel w)"
    by (rule unsaved_saves [OF unsaved_polls [OF svc_refresh_polls]])
qed

subsection \<open>One pass\<close>

lemma advance_step_facts:
  assumes "find_dep w i = Some d"
  shows "settles w (snd (advance_step v b i d w))"
    and "good w \<Longrightarrow> moves i w (snd (advance_step v b i d w))"
proof -
  consider "d_status d \<in> {DS_PROMOTING, DS_DEPLOYING}" | "d_status d = DS_WAITING"
    | "d_status d \<notin> {DS_PROMOTING, DS_DEPLOYING, DS_WAITING}" by blast
  then have "settles w (snd (advance_step v b i d w)) \<and>
      (good w \<longrightarrow> moves i w (snd (advance_step v b i d w)))"
  proof cases
    case 1
    then have nw: "\<And>e. find_dep w i = Some e \<Longrightarrow> d_status e \<noteq> DS_WAITING" using assms by auto
    have "moves i w (svc_refresh v i (Some b) w)" if "good w"
      by (rule svc_refresh_moves) (use nw good_find_inv [OF that] in blast)
    then show ?thesis
      using 1 svc_refresh_settles [OF nw] by (auto simp: advance_step_def)
  next
    case 2
    then show ?thesis by (simp add: advance_step_def svc_promote_settles svc_promote_moves)
  next
    case 3
    then show ?thesis by (simp add: advance_step_def)
  qed
  then show "settles w (snd (advance_step v b i d w))"
    "good w \<Longrightarrow> moves i w (snd (advance_step v b i d w))" by blast+
qed

lemma cancel_waiting_evolves: "evolves w (cancel_waiting v b reason ids w)"
proof (induction ids arbitrary: w)
  case Nil
  then show ?case by simp
next
  case (Cons i ids)
  have "evolves w (case find_dep w i of None \<Rightarrow> w
      | Some d \<Rightarrow> if d_status d = DS_WAITING then svc_cancel v i reason (Some b) w else w)"
    by (auto split: option.split intro!: moves_evolves svc_cancel_moves)
  with Cons.IH show ?case by (simp add: evolves_trans)
qed

lemma cancel_waiting_polls: "polls w (cancel_waiting v b reason ids w)"
proof (induction ids arbitrary: w)
  case (Cons i ids)
  have "polls w (case find_dep w i of None \<Rightarrow> w
      | Some d \<Rightarrow> if d_status d = DS_WAITING then svc_cancel v i reason (Some b) w else w)"
    by (auto split: option.split intro: polls_ops)
  with Cons.IH show ?case by (simp add: polls_trans)
qed simp

lemma fail_bundle_evolves: "evolves w (fail_bundle v b failed steps w)"
  unfolding fail_bundle_def Let_def
  by (rule evolves_trans [OF cancel_waiting_evolves [of w v b "cancellation_reason failed" steps]
        leaves_evolves]) (simp add: leaves_def)

lemma fail_bundle_polls: "polls w (fail_bundle v b failed steps w)"
  using cancel_waiting_polls [of w v b "cancellation_reason failed" steps]
  by (simp add: fail_bundle_def Let_def polls_def)

lemma finish_success_leaves: "leaves w (finish_success v b w)"
  by (simp add: finish_success_def Let_def leaves_def log_def add_event_def)

lemma finish_success_polls: "polls w (finish_success v b w)"
  by (simp add: finish_success_def Let_def polls_def)

lemma polls_settles: "evolves w w' \<Longrightarrow> polls w w' \<Longrightarrow> settles w w'"
  by (intro settles_evolves) (simp_all add: unsaved_saves unsaved_polls)

lemma advance_walk_facts:
  "settles w (snd (advance_walk v b steps ids w)) \<and>
   (good w \<longrightarrow> evolves w (snd (advance_walk v b steps ids w)))"
proof (induction ids arbitrary: w)
  case Nil
  have "evolves w (finish_success v b w)" by (rule leaves_evolves [OF finish_success_leaves])
  moreover have "settles w (finish_success v b w)"
    by (rule polls_settles [OF leaves_evolves [OF finish_success_leaves] finish_success_polls])
  ultimately show ?case by simp
next
  case (Cons i ids)
  show ?case
  proof (cases "find_dep w i")
    case (Some d)
    obtain x w1 where xw: "advance_step v b i d w = (x, w1)" by force
    have s1: "settles w w1" and m1: "good w \<Longrightarrow> evolves w w1"
      using advance_step_facts [OF Some, of v b] xw by (auto intro: moves_evolves)
    have f: "settles w (fail_bundle v b d1 steps w1) \<and>
        (good w \<longrightarrow> evolves w (fail_bundle v b d1 steps w1))" for d1
    proof -
      have "settles w1 (fail_bundle v b d1 steps w1)"
        by (rule polls_settles [OF fail_bundle_evolves fail_bundle_polls])
      moreover have "evolves w1 (fail_bundle v b d1 steps w1)" by (rule fail_bundle_evolves)
      ultimately show ?thesis using s1 m1 by (blast intro: settles_trans evolves_trans)
    qed
    have rest: "settles w (snd (advance_walk v b steps ids w1)) \<and>
        (good w \<longrightarrow> evolves w (snd (advance_walk v b steps ids w1)))"
      using s1 m1 Cons.IH [of w1] by (auto intro: settles_trans evolves_trans settles_good)
    show ?thesis
      using s1 m1 f rest by (auto simp: Some xw split: sum.split option.split)
  qed simp
qed

lemma advance_settles: "settles w (snd (advance v b w))"
  and advance_evolves: "good w \<Longrightarrow> evolves w (snd (advance v b w))"
  using advance_walk_facts by (auto simp: advance_def)

lemma advance_and_commit_settles: "settles w (snd (advance_and_commit v b w))"
proof -
  obtain x w1 where xw: "advance v b w = (x, w1)" by force
  then have "settles w w1" using advance_settles [of w v b] by simp
  then have "settles w (commit w1)" by (rule settles_trans) simp
  then show ?thesis
    using \<open>settles w w1\<close> by (simp add: advance_and_commit_def xw split: sum.split)
qed

lemma refresh_bundle_settles: "settles w (snd (refresh_bundle v b w))"
  by (simp add: refresh_bundle_def advance_and_commit_settles split: sum.split)

subsection \<open>Creating and retrying\<close>

text \<open>A new row is accepted only when the tables stay good.\<close>

lemma new_deployment_inv: "dep_inv (new_deployment v w c n repo bld tg b rq)"
  by (rule dep_inv_fresh) (simp add: dep_fresh_def new_deployment_def)

lemma svc_create_settles: "settles w (snd (svc_create v c bld tg b rq w))"
proof (cases "drone_repo c")
  case repo: (Inr repo)
  show ?thesis
  proof (cases "drone_connection w c")
    case (Inr n)
    define d where "d = new_deployment v w c (n_id n) repo bld tg b rq"
    define w1 where "w1 = insert_deployment d (tick (tick w))"
    have T: "t_deployments (w_cur w1) = t_deployments (w_cur w) @ [d]" "unsaved w w1"
      by (simp_all add: w1_def insert_deployment_def unsaved_same)
    have inv: "\<forall>e \<in> set (t_deployments (w_cur w1)). dep_inv e" if "good w"
      using that new_deployment_inv by (auto simp: T d_def good_def good_rows_def)
    have "settles w w1" if "keyed d_id (t_deployments (w_cur w1))" "slots_unique (t_deployments (w_cur w1))"
      by (rule settles_step) (use that inv T in \<open>simp_all add: slots_kept_def good_rows_def unsaved_saves\<close>)
    moreover have "settles w (rollback w1)" by (rule rollback_settles [OF T(2)])
    ultimately show ?thesis
      by (simp add: svc_create_def repo Inr Let_def d_def [symmetric] w1_def [symmetric])
  qed (simp add: svc_create_def repo)
qed (simp add: svc_create_def)

lemma settles_log [intro]: "settles u w \<Longrightarrow> settles u (log v r dd st kd ss cd ms w)"
  by (rule settles_trans [OF _ settles_leaves]) (auto intro: unsaved_same)

lemmas row_judgements = dep_inv_def dep_promote_stage_def dep_wait_stage_def is_terminal_def promotion_slot_def
  slot_active_def lasting_def dep_identity_def dep_result_def

lemma attachment_settles: "settles w (set_attachment i att w)"
proof (cases att)
  case (Some a)
  have "settles w (upd_dep i (\<lambda>d. d\<lparr>d_attachment := Some a\<rparr>) w)"
    by (rule upd_dep_settles) (simp_all add: row_judgements)
  then show ?thesis by (simp add: set_attachment_def Some)
qed (simp add: set_attachment_def)

lemma required_stages_settles: "settles w (upd_dep i (\<lambda>d. d\<lparr>d_required_promotion_stages := st\<rparr>) w)"
  by (rule upd_dep_settles) (simp_all add: row_judgements)

lemma prepare_standalone_settles: "settles w (snd (prepare_standalone v c bld tg rq att w))"
proof (cases "assert_not_duplicate c (bd_number bld) tg w")
  case (Inr u)
  obtain x w1 where xw: "svc_create v c bld tg None rq w = (x, w1)" by force
  have "settles w w1" using svc_create_settles [of w v c bld tg None rq] xw by simp
  then have "settles w (set_attachment i att w1)" for i
    by (rule settles_trans [OF _ attachment_settles])
  then show ?thesis
    using \<open>settles w w1\<close>
    by (auto simp: prepare_standalone_def Inr xw Let_def split: sum.split)
qed (simp add: prepare_standalone_def)

lemma reads_settles: "reads w w' \<Longrightarrow> settles w w'"
  by (rule settles_leaves [OF leaves_looks [OF reads_looks]]) (simp_all add: unsaved_reads)

lemma promote_standalone_settles: "settles w (snd (promote_standalone v c n tg rq att w))"
proof -
  obtain x w1 where x: "validate_promotable v c n w = (x, w1)" by force
  have s1: "settles w w1" using reads_settles [OF validate_promotable_reads, of w v c n] x by simp
  show ?thesis
  proof (cases x)
    case (Inr bld)
    let ?tg = "target_for c (py_or tg (project_default_target w c))"
    obtain y w2 where y: "prepare_standalone v c bld ?tg rq att w1 = (y, w2)" by force
    have s2: "settles w w2"
      using settles_trans [OF s1 prepare_standalone_settles, of v c bld ?tg rq att] y by simp
    have "settles w (snd (svc_promote v i None (commit w2)))" for i
      by (rule settles_trans [OF settles_trans [OF s2 settles_commit] svc_promote_settles])
    then show ?thesis
      using s2 by (auto simp: promote_standalone_def Let_def x Inr y split: sum.split prod.split)
        (metis snd_conv)+
  qed (use s1 in \<open>simp add: promote_standalone_def Let_def x\<close>)
qed

lemma refresh_standalone_settles: "settles w (snd (refresh_standalone v i w))"
proof (cases "find_dep w i")
  case (Some d)
  define r where "r = (if d_status d = DS_WAITING then svc_promote v i None w
      else (Inr (), svc_refresh v i None w))"
  obtain x w1 where xw: "r = (x, w1)" by force
  have "settles w (snd r)"
    using svc_promote_settles [of w v i None] svc_refresh_settles [of w i v None] Some
    by (simp add: r_def)
  then have s1: "settles w w1" using xw by simp
  define w2 where "w2 = (if dep_status w1 i = Some (ds_value DS_SUCCESS)
      then log v None (Some i) (ws_value WAIT_PUBLISH_REQUEST) STAGE_STARTED (dep_status w1 i) None None
             (log v None (Some i) (ws_value COMPLETE_DEPLOYMENT) RELEASE_COMPLETED (dep_status w1 i)
                None None w1)
      else w1)"
  have "settles w w2" using s1 by (auto simp: w2_def)
  then have "settles w (commit w2)" by (rule settles_trans) simp
  then show ?thesis
    using s1 by (auto simp: refresh_standalone_def get_deployment_def Some r_def [symmetric] xw Let_def
        w2_def split: sum.split)
qed (simp add: refresh_standalone_def get_deployment_def)

lemma create_steps_settles: "settles w (snd (create_steps v b tg rq sel w))"
proof (induction sel arbitrary: w)
  case (Cons s sel)
  obtain c bld where s: "s = (c, bld)" by force
  obtain x w1 where x: "svc_create v c bld (target_for c tg) (Some b) rq w = (x, w1)" by force
  have s1: "settles w w1" using svc_create_settles [of w v c bld _ "Some b" rq] x by (metis snd_conv)
  show ?case
    using s1 Cons.IH by (auto simp: s x Let_def split: sum.split intro!: settles_trans [OF _ Cons.IH])
qed simp

lemma validate_selection_reads: "reads w (snd (validate_selection v tg ex rq sel w))"
proof (induction sel arbitrary: w)
  case (Cons s sel)
  obtain c n where s: "s = (c, n)" by force
  obtain x w1 where x: "validate_promotable v c n w = (x, w1)" by force
  have r1: "reads w w1" using validate_promotable_reads [of w v c n] x by simp
  have r2: "reads w (snd (validate_selection v tg ex rq sel w1))"
    by (rule reads_trans [OF r1 Cons.IH])
  show ?case
    using r1 r2 by (auto simp: s x split: sum.split prod.split)
qed simp

lemma create_bundle_settles: "settles w (snd (create_bundle v q att given ex rq w))"
proof -
  have ins: "settles u (insert_bundle b (tick (tick (tick (tick u)))))" for b u
    by (rule settles_leaves) (simp_all add: leaves_def insert_bundle_def unsaved_same)
  have rb: "settles u (rollback (tick (tick (tick (tick u)))))" for u
    by (simp add: settles_def across_def)
  have val: "settles u w1" if "validate_selection v tg ex rq sel u = (x, w1)" for tg sel u x w1
    using reads_settles [OF validate_selection_reads, of u v tg ex rq sel] that by simp
  have cre: "settles u w1" if "create_steps v b tg r sel u = (x, w1)" for b tg r sel u x w1
    using create_steps_settles [of u v b tg r sel] that by simp
  show ?thesis
  proof (cases "lookup_project w (bq_project_id q)")
    case (Inr p)
    show ?thesis
    proof (cases "selected_components w p q")
      case (Inr sel)
      define tg where "tg = py_or (bq_target q) (p_default_target p)"
      obtain x w1 where x: "validate_selection v tg ex rq sel w = (x, w1)" by force
      note s1 = val [OF x]
      show ?thesis
      proof (cases x)
        case (Inl e)
        then show ?thesis
          using s1 by (simp add: create_bundle_def \<open>lookup_project w (bq_project_id q) = Inr p\<close> Inr
              Let_def tg_def [symmetric] x)
      next
        case (Inr sel')
        define b where "b = new_bundle v w1 given p tg (map (c_key \<circ> fst) sel') (bq_requested_by q) att"
        define w2 where "w2 = tick (tick (tick (tick w1)))"
        obtain y w3 where y: "create_steps v (b_id b) tg (bq_requested_by q) sel' (insert_bundle b w2) = (y, w3)"
          by force
        have s3: "settles w w3"
          by (rule settles_trans [OF settles_trans [OF s1 ins] cre [OF y [unfolded w2_def]]])
        define w5 where "w5 = log v (Some (b_id b)) None (ws_value CREATE_RELEASE_BUNDLE) STAGE_SUCCEEDED
          None None None (log v (Some (b_id b)) None (ws_value CREATE_RELEASE_BUNDLE) STAGE_STARTED
            None None None w3)"
        have "settles w (commit w5)"
          unfolding w5_def by (rule settles_trans [OF settles_log [OF settles_log [OF s3]] settles_commit])
        then have s5: "settles w (snd (advance_and_commit v (b_id b) (commit w5)))"
          by (rule settles_trans [OF _ advance_and_commit_settles])
        have fb: "find_bundle w2 k = find_bundle w1 k" for k by (simp add: w2_def)
        have s4: "settles w (rollback w2)"
          unfolding w2_def by (rule settles_trans [OF s1 rb])
        have "snd (create_bundle v q att given ex rq w) =
            (if find_bundle w2 (b_id b) \<noteq> None then rollback w2
             else case y of Inl e \<Rightarrow> w3 | Inr _ \<Rightarrow> snd (advance_and_commit v (b_id b) (commit w5)))"
          by (simp add: create_bundle_def \<open>lookup_project w (bq_project_id q) = Inr p\<close>
              \<open>selected_components w p q = Inr sel\<close> Inr Let_def tg_def [symmetric] x b_def [symmetric]
              w2_def [symmetric] y w5_def fb split: sum.split)
        then show ?thesis using s3 s4 s5 by (simp split: sum.split)
      qed
    qed (simp add: create_bundle_def Inr)
  qed (simp add: create_bundle_def)
qed

text \<open>
  A retry takes slots back, so the reset rows may collide with another promotion; the commit
  is then refused and nothing is kept.
\<close>

lemma reset_one_rows:
  assumes "find_dep w i = Some d"
  shows "t_deployments (w_cur (svc_reset_for_retry v i r w)) =
      upd_row d_id i (\<lambda>d. snd (dep_reset_for_retry (now_of v w) d)) (t_deployments (w_cur w))"
  by (simp add: svc_reset_for_retry_def assms Let_def)

lemma dep_reset_kept [simp]:
  "d_id (snd (dep_reset_for_retry at d)) = d_id d" "d_status (snd (dep_reset_for_retry at d)) = DS_WAITING"
  "dep_identity (snd (dep_reset_for_retry at d)) = dep_identity d"
  by (simp_all add: dep_reset_for_retry_def dep_identity_def)

definition resettable :: "string list \<Rightarrow> dep_row list \<Rightarrow> bool" where
  "resettable ids ds \<longleftrightarrow> (\<forall>d \<in> set ds. d_id d \<in> set ids \<longrightarrow> d_status d \<noteq> DS_SUCCESS)"

lemma reset_all_unsaved:
  "w_durable (reset_all v b ids w) = w_durable w \<and> w_trace (reset_all v b ids w) = w_trace w"
proof (induction ids arbitrary: w)
  case (Cons i ids)
  have "w_durable (svc_reset_for_retry v i (Some b) w) = w_durable w \<and>
      w_trace (svc_reset_for_retry v i (Some b) w) = w_trace w"
    by (simp add: svc_reset_for_retry_def Let_def split: option.split)
  then show ?case using Cons by simp
qed simp

lemma reset_all_rows:
  assumes "keyed d_id (t_deployments (w_cur w))" and "\<forall>d \<in> set (t_deployments (w_cur w)). dep_inv d"
    and "resettable ids (t_deployments (w_cur w))"
  shows "keyed d_id (t_deployments (w_cur (reset_all v b ids w))) \<and>
    (\<forall>d \<in> set (t_deployments (w_cur (reset_all v b ids w))). dep_inv d) \<and>
    lasting_rows (t_deployments (w_cur w)) (t_deployments (w_cur (reset_all v b ids w)))"
  using assms
proof (induction ids arbitrary: w)
  case (Cons i ids)
  let ?w = "svc_reset_for_retry v i (Some b) w"
  have "keyed d_id (t_deployments (w_cur ?w)) \<and> (\<forall>d \<in> set (t_deployments (w_cur ?w)). dep_inv d) \<and>
      resettable ids (t_deployments (w_cur ?w)) \<and>
      lasting_rows (t_deployments (w_cur w)) (t_deployments (w_cur ?w))"
  proof (cases "find_dep w i")
    case (Some d)
    let ?f = "\<lambda>d. snd (dep_reset_for_retry (now_of v w) d)"
    have "lasting e (?f e)" if "find_row d_id i (t_deployments (w_cur w)) = Some e" for e
      using Cons.prems(3) find_row_Some [OF that] by (simp add: lasting_def resettable_def)
    then have "lasting_rows (t_deployments (w_cur w)) (upd_row d_id i ?f (t_deployments (w_cur w)))"
      by (intro lasting_rows_upd Cons.prems)
    moreover have "keyed d_id (upd_row d_id i ?f (t_deployments (w_cur w)))"
      using Cons.prems(1) by simp
    ultimately show ?thesis
      using Cons.prems(2,3) dep_inv_reset
      unfolding reset_one_rows [OF Some] resettable_def by (auto simp: upd_row_def)
  qed (use Cons.prems in \<open>simp add: svc_reset_for_retry_def resettable_def\<close>)
  then show ?case using Cons.IH [of ?w] lasting_rows_trans by auto
qed simp

lemma retry_bundle_settles: "settles w (snd (retry_bundle v b w))"
proof (cases "find_bundle w b")
  case (Some r)
  define w3 where "w3 = log v (Some b) None (ws_value CREATE_RELEASE_BUNDLE) DEPLOYMENT_RETRIED
      (bundle_status_of (upd_bundle b (retry_bundle_fields (now_of v w))
         (reset_all v b (map d_id (retry_targets w b)) (tick w))) b) None
      (Some (msg_retrying (retry_targets w b)))
      (upd_bundle b (retry_bundle_fields (now_of v w)) (reset_all v b (map d_id (retry_targets w b)) (tick w)))"
  have rows: "keyed d_id (t_deployments (w_cur w3)) \<and>
      (\<forall>d \<in> set (t_deployments (w_cur w3)). dep_inv d) \<and>
      lasting_rows (t_deployments (w_cur w)) (t_deployments (w_cur w3))" if "good w"
  proof -
    have "resettable (map d_id (retry_targets w b)) (t_deployments (w_cur w))"
      using that by (auto simp: resettable_def retry_targets_def bundle_deployments_def good_def good_rows_def
          keyed_def distinct_map dest: inj_onD)
    then show ?thesis
      using reset_all_rows [of "tick w" "map d_id (retry_targets w b)" v b] that
      by (simp add: w3_def good_def good_rows_def)
  qed
  have u: "unsaved w w3"
    using reset_all_unsaved [of v b "map d_id (retry_targets w b)" "tick w"]
    by (intro unsaved_same) (simp_all add: w3_def)
  obtain x w4 where c: "try_commit w3 = (x, w4)" by force
  have "settles w w3" if "slots_unique (t_deployments (w_cur w3))"
  proof (rule settles_step)
    show "slots_kept (w_cur w) (w_cur w3)" if "good w"
      using rows [OF that] \<open>slots_unique _\<close> by (simp add: slots_kept_def good_rows_def)
  qed (rule unsaved_saves [OF u])
  moreover have "settles w (rollback w3)" by (rule rollback_settles [OF u])
  ultimately have s4: "settles w w4"
    using c by (auto simp: try_commit_def intro: settles_trans [OF _ settles_commit] split: if_splits)
  have "settles w (snd (advance_and_commit v b w4))"
    by (rule settles_trans [OF s4 advance_and_commit_settles])
  then have "settles w (snd (case x of Inl e \<Rightarrow> (Inl e, w4) | Inr _ \<Rightarrow> advance_and_commit v b w4))"
    using s4 by (simp split: sum.split)
  then show ?thesis
    unfolding retry_bundle_def get_bundle_def Some option.case sum.case Let_def w3_def [symmetric] c prod.case
    by simp
qed (simp add: retry_bundle_def get_bundle_def)

subsection \<open>Every run of the service\<close>

text \<open>
  The public operations of the orchestrator, one request at a time, over tables whose other
  rows do not matter here. A request either returns or raises; both leave a world behind, and
  a request that raised is rolled back by the session's owner (\<open>get_db\<close>).
\<close>

inductive orch_step :: "env \<Rightarrow> world \<Rightarrow> world \<Rightarrow> bool" for v where
  standalone: "orch_step v w (snd (promote_standalone v c n tg rq att w))"
| refreshed: "orch_step v w (snd (refresh_standalone v i w))"
| created: "orch_step v w (snd (create_bundle v q att given ex rq w))"
| advanced: "orch_step v w (snd (refresh_bundle v b w))"
| retried: "orch_step v w (snd (retry_bundle v b w))"
| ended: "orch_step v w (rollback w)"

abbreviation orch_run :: "env \<Rightarrow> world \<Rightarrow> world \<Rightarrow> bool" where
  "orch_run v \<equiv> (orch_step v)\<^sup>*\<^sup>*"

lemma orch_step_settles: "orch_step v w w' \<Longrightarrow> settles w w'"
  by (induction rule: orch_step.induct)
    (rule promote_standalone_settles refresh_standalone_settles create_bundle_settles
      refresh_bundle_settles retry_bundle_settles settles_rollback)+

lemma orch_run_good: "orch_run v w w' \<Longrightarrow> good w \<Longrightarrow> good w'"
  by (induction rule: rtranclp_induct) (auto dest: orch_step_settles settles_good)

end
