(* ===== verification/Orchestrator_Order.thy ===== *)
theory Orchestrator_Order
  imports Orchestrator_Laws
begin

section \<open>What promotions cost, and how a release ends\<close>

text \<open>
  Counting: a promotion request is paid for by a WAITING row, and no pass makes a row WAITING.
  Outcome: what each action of a pass makes of the steps and of the release.
\<close>

subsection \<open>Statuses along the state machine\<close>

definition status_in :: "world \<Rightarrow> string \<Rightarrow> deployment_status option" where
  "status_in w i = map_option d_status (find_dep w i)"

lemma row_step_waiting: "row_step d e \<Longrightarrow> d_status e = DS_WAITING \<Longrightarrow> d_status d = DS_WAITING"
  using dep_step_arrow [of "entity_of d" "entity_of e"]
  by (auto simp: row_step_def dep_arrow_def slot_active_def ACTIVE_PROMOTION_STATUSES_def)

lemma row_steps_waiting: "row_steps d e \<Longrightarrow> d_status e = DS_WAITING \<Longrightarrow> d_status d = DS_WAITING"
  by (induction rule: rtranclp_induct) (auto dest: row_step_waiting)

lemma row_steps_success: "row_steps d e \<Longrightarrow> d_status d = DS_SUCCESS \<Longrightarrow> d_status e = DS_SUCCESS"
proof (induction rule: rtranclp_induct)
  case (step e f)
  then have "\<not> (\<exists>x. dep_step (entity_of e) x)"
    using success_is_final [of "entity_of e"] by simp
  with step show ?case by (auto simp: row_step_def)
qed simp

lemma evolves_success:
  assumes "evolves w w'" and "status_in w i = Some DS_SUCCESS"
  shows "status_in w' i = Some DS_SUCCESS"
proof -
  obtain d where d: "find_dep w i = Some d" "d_status d = DS_SUCCESS"
    using assms(2) by (auto simp: status_in_def)
  then obtain e where "find_dep w' i = Some e" "row_steps d e"
    using assms(1) unfolding evolves_def by blast
  then show ?thesis using d row_steps_success by (simp add: status_in_def)
qed

lemma evolves_ids: "evolves w w' \<Longrightarrow> find_dep w i = None \<longleftrightarrow> find_dep w' i = None"
proof -
  assume "evolves w w'"
  then have "d_id ` set (t_deployments (w_cur w')) = d_id ` set (t_deployments (w_cur w))"
    by (simp add: evolves_def flip: set_map)
  then show ?thesis by (simp add: find_dep_def find_row_None)
qed

lemma evolves_waiting:
  assumes "evolves w w'" and "status_in w' i = Some DS_WAITING"
  shows "status_in w i = Some DS_WAITING"
proof -
  obtain e where e: "find_dep w' i = Some e" "d_status e = DS_WAITING"
    using assms(2) by (auto simp: status_in_def)
  then obtain d where "find_dep w i = Some d" using evolves_ids [OF assms(1), of i] by auto
  moreover from this obtain e' where "find_dep w' i = Some e'" "row_steps d e'"
    using assms(1) unfolding evolves_def by blast
  ultimately show ?thesis using e row_steps_waiting by (simp add: status_in_def)
qed

lemma looks_status: "looks w w' \<Longrightarrow> status_in w' i = status_in w i"
  by (simp add: status_in_def)

subsection \<open>Each request is paid for\<close>

definition posts :: "world \<Rightarrow> nat" where
  "posts w = length (filter is_post (w_trace w))"

definition waiting :: "world \<Rightarrow> nat" where
  "waiting w = length (filter (\<lambda>i. status_in w i = Some DS_WAITING) (map d_id (t_deployments (w_cur w))))"

definition spends :: "world \<Rightarrow> world \<Rightarrow> bool" where
  "spends w w' \<longleftrightarrow> posts w' + waiting w' \<le> posts w + waiting w"

lemma spends_trans: "spends u v \<Longrightarrow> spends v w \<Longrightarrow> spends u w"
  by (simp add: spends_def)

lemma spends_refl [simp, intro]: "spends w w"
  by (simp add: spends_def)

lemma length_filter_mono: "(\<And>x. x \<in> set xs \<Longrightarrow> P x \<Longrightarrow> Q x) \<Longrightarrow> length (filter P xs) \<le> length (filter Q xs)"
  by (induction xs) (auto simp: le_SucI)

lemma length_filter_strict:
  "(\<And>x. x \<in> set xs \<Longrightarrow> P x \<Longrightarrow> Q x) \<Longrightarrow> y \<in> set xs \<Longrightarrow> Q y \<Longrightarrow> \<not> P y \<Longrightarrow>
     length (filter P xs) < length (filter Q xs)"
proof (induction xs)
  case (Cons x xs)
  show ?case
  proof (cases "x = y")
    case True
    then show ?thesis
      using Cons.prems length_filter_mono [of xs P Q] by (simp add: less_Suc_eq_le)
  next
    case False
    then have "length (filter P xs) < length (filter Q xs)" using Cons by simp
    then show ?thesis using Cons.prems by auto
  qed
qed simp

lemma evolves_waiting_le: "evolves w w' \<Longrightarrow> waiting w' \<le> waiting w"
proof -
  assume ev: "evolves w w'"
  then have "map d_id (t_deployments (w_cur w')) = map d_id (t_deployments (w_cur w))"
    by (simp add: evolves_def)
  then show ?thesis
    unfolding waiting_def using evolves_waiting [OF ev] by (simp only: length_filter_mono)
qed

lemma polls_posts: "polls w w' \<Longrightarrow> posts w' = posts w"
  by (auto simp: polls_def posts_def only_gets_no_post)

lemma spends_polls: "evolves w w' \<Longrightarrow> polls w w' \<Longrightarrow> spends w w'"
  using evolves_waiting_le polls_posts by (simp add: spends_def)

lemma spends_leaves: "leaves w w' \<Longrightarrow> posts w' = posts w \<Longrightarrow> spends w w'"
  using evolves_waiting_le [OF leaves_evolves] by (simp add: spends_def)

lemma posts_commit [simp]: "posts (commit w) = posts w" "posts (rollback w) = posts w"
  by (simp_all add: posts_def is_post_def)

text \<open>What a promotion does to the status of the row it promotes.\<close>

lemma outcome_status:
  assumes "find_dep w i = Some d" and "d_status d = DS_PROMOTING"
  shows "\<exists>s. status_in (snd (svc_promote_outcome v i st rel r w)) i = Some s \<and>
    s \<in> {DS_PROMOTING, DS_DEPLOYING, DS_FAILED}"
  using assms
  by (auto simp: svc_promote_outcome_def svc_fail_def svc_record_promotion_def Let_def status_in_def
      svc_mark_unconfirmed_def dep_transition_defs split: sum.split option.split exn.split)

lemma svc_promote_posts':
  "posts (snd (svc_promote v i rel w)) = posts w \<or> posts (snd (svc_promote v i rel w)) = Suc (posts w)"
proof -
  have c [simp]: "\<not> is_post (Committed T)" for T by (simp add: is_post_def)
  show ?thesis
    using svc_promote_trace [of v i rel w]
    by (elim disjE exE conjE) (auto simp: posts_def only_gets_no_post is_post_def)
qed

text \<open>Either nothing happened, or the row left WAITING for good.\<close>

lemma svc_promote_effect:
  assumes "find_dep w i = Some d"
  shows "(w_trace (snd (svc_promote v i rel w)) = w_trace w \<and>
      status_in (snd (svc_promote v i rel w)) i = Some (d_status d)) \<or>
    (d_status d = DS_WAITING \<and> (\<exists>s. status_in (snd (svc_promote v i rel w)) i = Some s \<and>
      s \<in> {DS_PROMOTING, DS_DEPLOYING, DS_FAILED}))"
proof (rule svc_promote_cases [of w v i rel])
  assume "looks w (snd (svc_promote v i rel w))" "w_trace (snd (svc_promote v i rel w)) = w_trace w"
  then show ?thesis using assms by (simp add: status_in_def)
next
  fix d' c w1 r w2
  assume a: "find_dep w i = Some d'" "d_status d' = DS_WAITING" "svc_claim v i rel w = (True, w1)"
    "svc_dispatch v (snd (claim_for_promotion (now_of v w) d')) c w1 = (r, w2)"
    "svc_promote v i rel w = svc_promote_outcome v i (dep_promote_stage d') rel r w2"
  have disp: "dispatches w1 w2"
    using svc_dispatch_dispatches [of w1 v "snd (claim_for_promotion (now_of v w) d')" c] a(4) by simp
  obtain e where "find_dep w2 i = Some e" "d_status e = DS_PROMOTING"
    using svc_claim_status [OF a(3)] dispatches_find [OF disp, of i] by auto
  then show ?thesis using outcome_status a assms by simp
qed

lemma svc_promote_spends: "spends w (snd (svc_promote v i rel w))"
proof (cases "find_dep w i")
  case None
  then show ?thesis by (simp add: svc_promote_def)
next
  case (Some d)
  let ?w' = "snd (svc_promote v i rel w)"
  have ev: "evolves w ?w'" by (rule moves_evolves [OF svc_promote_moves])
  show ?thesis
    using svc_promote_effect [OF Some, of v rel]
  proof
    assume "w_trace ?w' = w_trace w \<and> status_in ?w' i = Some (d_status d)"
    then show ?thesis using evolves_waiting_le [OF ev] by (simp add: spends_def posts_def)
  next
    assume a: "d_status d = DS_WAITING \<and> (\<exists>s. status_in ?w' i = Some s \<and>
      s \<in> {DS_PROMOTING, DS_DEPLOYING, DS_FAILED})"
    have ids: "map d_id (t_deployments (w_cur ?w')) = map d_id (t_deployments (w_cur w))"
      using ev by (simp add: evolves_def)
    have "i \<in> set (map d_id (t_deployments (w_cur w)))"
      using Some by (auto simp: find_dep_def dest: find_row_Some)
    moreover have "status_in w i = Some DS_WAITING" using a Some by (simp add: status_in_def)
    moreover have "status_in ?w' i \<noteq> Some DS_WAITING" using a by auto
    ultimately have "waiting ?w' < waiting w"
      unfolding waiting_def ids
      using length_filter_strict [of "map d_id (t_deployments (w_cur w))"
          "\<lambda>j. status_in ?w' j = Some DS_WAITING" "\<lambda>j. status_in w j = Some DS_WAITING" i]
        evolves_waiting [OF ev] by blast
    then show ?thesis using svc_promote_posts' [of v i rel w] by (auto simp: spends_def)
  qed
qed

lemma svc_refresh_spends:
  assumes "good w" and "\<And>d. find_dep w i = Some d \<Longrightarrow> d_status d \<noteq> DS_WAITING"
  shows "spends w (svc_refresh v i rel w)"
  by (rule spends_polls [OF moves_evolves [OF svc_refresh_moves] svc_refresh_polls])
    (use assms good_find_inv in blast)

subsection \<open>The order of a pass\<close>

lemma advance_step_effect:
  assumes "good w" and "find_dep w i = Some d" and "advance_step v b i d w = (x, w1)"
  shows "spends w w1" "evolves w w1" "posts w1 = posts w \<or> posts w1 = Suc (posts w)" "good w1"
    "posts w1 \<noteq> posts w \<Longrightarrow> d_status d = DS_WAITING \<and> status_in w1 i \<noteq> Some DS_SUCCESS"
proof -
  have w1: "w1 = snd (advance_step v b i d w)" using assms(3) by simp
  have facts: "settles w w1" "moves i w w1"
    using advance_step_facts [OF assms(2), of v b] assms(1) unfolding w1 by blast+
  show "good w1" using facts assms(1) by (blast intro: settles_good)
  show "evolves w w1" by (rule moves_evolves [OF facts(2)])
  have "spends w w1 \<and> (posts w1 = posts w \<or> posts w1 = Suc (posts w)) \<and>
      (posts w1 \<noteq> posts w \<longrightarrow> d_status d = DS_WAITING \<and> status_in w1 i \<noteq> Some DS_SUCCESS)"
  proof (cases "d_status d = DS_WAITING")
    case True
    then have e: "w1 = snd (svc_promote v i (Some b) w)" unfolding w1 by (simp add: advance_step_def)
    show ?thesis
      using svc_promote_spends [of w v i "Some b"] svc_promote_posts' [of v i "Some b" w]
        svc_promote_effect [OF assms(2), of v "Some b"] True unfolding e by (auto simp: posts_def)
  next
    case False
    then have "w1 = svc_refresh v i (Some b) w \<or> w1 = w" unfolding w1 by (auto simp: advance_step_def)
    then have "posts w1 = posts w" using polls_posts [OF svc_refresh_polls] by auto
    moreover have "spends w w1"
      using evolves_waiting_le [OF \<open>evolves w w1\<close>] \<open>posts w1 = posts w\<close> by (simp add: spends_def)
    ultimately show ?thesis by simp
  qed
  then show "spends w w1" "posts w1 = posts w \<or> posts w1 = Suc (posts w)"
    "posts w1 \<noteq> posts w \<Longrightarrow> d_status d = DS_WAITING \<and> status_in w1 i \<noteq> Some DS_SUCCESS" by auto
qed

text \<open>The tail of the walk, once the step is done.\<close>

definition walk_on ::
    "env \<Rightarrow> string \<Rightarrow> string list \<Rightarrow> string \<Rightarrow> string list \<Rightarrow> world \<Rightarrow> (exn + unit) \<times> world" where
  "walk_on v b steps i rest w1 =
     (case find_dep w1 i of
        None \<Rightarrow> (Inr (), w1)
      | Some d1 \<Rightarrow>
          (if d_status d1 = DS_FAILED then (Inr (), fail_bundle v b d1 steps w1)
           else if d_status d1 \<noteq> DS_SUCCESS then (Inr (), w1)
           else advance_walk v b steps rest w1))"

lemma advance_walk_Cons:
  assumes "find_dep w i = Some d" and "advance_step v b i d w = (x, w1)"
  shows "advance_walk v b steps (i # rest) w =
    (case x of Inl e \<Rightarrow> (Inl e, w1) | Inr _ \<Rightarrow> walk_on v b steps i rest w1)"
  by (simp add: assms walk_on_def split: sum.split)

lemma fail_bundle_posts: "posts (fail_bundle v b d steps w) = posts w"
  by (rule polls_posts [OF fail_bundle_polls])

lemma fail_bundle_spends: "spends w (fail_bundle v b d steps w)"
  by (rule spends_polls [OF fail_bundle_evolves fail_bundle_polls])

lemma finish_success_spends: "spends w (finish_success v b w)"
  by (rule spends_polls [OF leaves_evolves [OF finish_success_leaves] finish_success_polls])

lemma advance_walk_spends: "good w \<Longrightarrow> spends w (snd (advance_walk v b steps ids w))"
proof (induction ids arbitrary: w)
  case Nil
  show ?case using finish_success_spends [of w v b] by simp
next
  case (Cons i ids)
  show ?case
  proof (cases "find_dep w i")
    case None
    then show ?thesis by simp
  next
    case (Some d)
    obtain x w1 where x: "advance_step v b i d w = (x, w1)" by force
    note eff = advance_step_effect [OF Cons.prems Some x]
    have "spends w (snd (walk_on v b steps i ids w1))"
      using eff(1) Cons.IH [OF eff(4)] fail_bundle_spends
      by (auto simp: walk_on_def split: option.split intro: spends_trans)
    then show ?thesis
      unfolding advance_walk_Cons [OF Some x] using eff(1) by (auto split: sum.split)
  qed
qed

lemma advance_spends: "good w \<Longrightarrow> spends w (snd (advance v b w))"
  using advance_walk_spends by (simp add: advance_def)

subsection \<open>How a pass leaves a release\<close>

text \<open>Promoting and polling only ever mirror an in-flight status onto the release.\<close>

definition bstatus_in :: "world \<Rightarrow> string \<Rightarrow> bundle_status option" where
  "bstatus_in w b = map_option b_status (find_bundle w b)"

definition running_on :: "string \<Rightarrow> world \<Rightarrow> world \<Rightarrow> bool" where
  "running_on b w w' \<longleftrightarrow> (find_bundle w' b = None \<longleftrightarrow> find_bundle w b = None) \<and>
     bstatus_in w' b \<in> {bstatus_in w b, Some BS_PROMOTING, Some BS_DEPLOYING}"

lemma running_on_refl [simp, intro]: "running_on b w w"
  by (simp add: running_on_def)

lemma running_on_trans: "running_on b u v \<Longrightarrow> running_on b v w \<Longrightarrow> running_on b u w"
  by (auto simp: running_on_def)

lemma running_on_same: "find_bundle w' b = find_bundle w b \<Longrightarrow> running_on b w w'"
  by (simp add: running_on_def bstatus_in_def)

lemma running_on_release:
  assumes "keeps_bid g" and "\<And>r. b_status (g r) \<in> {BS_PROMOTING, BS_DEPLOYING}"
  shows "running_on b w (upd_release (Some b) g w)"
  using assms
  by (cases "find_bundle w b")
    (auto simp: upd_release_def running_on_def bstatus_in_def)

lemma keeps_bid_deploying [simp]: "keeps_bid (bundle_deploying st at)"
  by (simp add: keeps_bid_def bundle_deploying_def)

lemma same_bundle_ops [simp]:
  "find_bundle (svc_fail v i st code msg rel w) k = find_bundle w k"
  "find_bundle (svc_succeed v i rel w) k = find_bundle w k"
  "find_bundle (svc_cancel v i reason rel w) k = find_bundle w k"
  "find_bundle (svc_mark_unconfirmed v i code st rel w) k = find_bundle w k"
  "find_bundle (svc_record_poll_failure v i code st rel w) k = find_bundle w k"
  "find_bundle (svc_clear_poll_failure v i st rel w) k = find_bundle w k"
  by (simp_all add: svc_fail_def svc_succeed_def svc_cancel_def svc_mark_unconfirmed_def Let_def
      svc_record_poll_failure_def svc_clear_poll_failure_def split: option.split)

lemma svc_record_promotion_running: "running_on b w (svc_record_promotion v i n st (Some b) w)"
proof (cases "find_dep w i")
  case (Some d)
  define w1 where "w1 = upd_dep i (record_promotion n (now_of v w)) (tick w)"
  define w2 where "w2 = upd_release (Some b) (bundle_deploying (Some (dep_wait_stage d)) (now_of v w)) w1"
  have "running_on b w1 w2" unfolding w2_def
    by (rule running_on_release) (simp_all add: bundle_deploying_def)
  moreover have "find_bundle w1 b = find_bundle w b" by (simp add: w1_def)
  ultimately have "running_on b w w2" by (simp add: running_on_def bstatus_in_def)
  then show ?thesis
    by (simp add: svc_record_promotion_def Some Let_def running_on_def bstatus_in_def
        w2_def [symmetric] w1_def [symmetric])
qed (simp add: svc_record_promotion_def)

lemma svc_claim_running: "svc_claim v i (Some b) w = (True, w') \<Longrightarrow> running_on b w w'"
proof -
  assume a: "svc_claim v i (Some b) w = (True, w')"
  obtain d where d: "find_dep w i = Some d" "is_claimable d"
    using a by (auto simp: svc_claim_def Let_def split: option.splits if_splits)
  define w1 where "w1 = upd_dep i (\<lambda>d. snd (claim_for_promotion (now_of v w) d)) (tick w)"
  define w2 where "w2 = upd_release (Some b) (bundle_mirror BS_PROMOTING (Some (dep_promote_stage d)) (now_of v w)) w1"
  have "running_on b w1 w2" unfolding w2_def
    by (rule running_on_release) (simp_all add: bundle_mirror_def)
  moreover have "find_bundle w1 b = find_bundle w b" by (simp add: w1_def)
  moreover have "find_bundle w' b = find_bundle w2 b"
    using a d by (auto simp: svc_claim_def Let_def w1_def w2_def)
  ultimately show ?thesis by (simp add: running_on_def bstatus_in_def)
qed

lemma dispatches_bundle: "dispatches w w' \<Longrightarrow> find_bundle w' k = find_bundle w k"
  by (simp add: dispatches_def find_bundle_def)

lemma looks_bundle: "looks w w' \<Longrightarrow> find_bundle w' k = find_bundle w k"
  by (simp add: looks_def find_bundle_def)

lemma svc_promote_outcome_running: "running_on b w (snd (svc_promote_outcome v i st (Some b) r w))"
proof -
  have "running_on b w (commit (svc_record_promotion v i n st (Some b) w))" for n
    using svc_record_promotion_running [of b w v i n st] by (simp add: running_on_def bstatus_in_def)
  then show ?thesis
    by (auto simp: svc_promote_outcome_def intro!: running_on_same split: sum.split option.split exn.split)
qed

lemma svc_promote_running: "running_on b w (snd (svc_promote v i (Some b) w))"
proof (rule svc_promote_cases [of w v i "Some b"])
  assume "looks w (snd (svc_promote v i (Some b) w))"
  then show ?thesis by (intro running_on_same looks_bundle)
next
  fix d c w1 r w2
  assume a: "svc_claim v i (Some b) w = (True, w1)"
    "svc_dispatch v (snd (claim_for_promotion (now_of v w) d)) c w1 = (r, w2)"
    "svc_promote v i (Some b) w = svc_promote_outcome v i (dep_promote_stage d) (Some b) r w2"
  have "dispatches w1 w2"
    using svc_dispatch_dispatches [of w1 v "snd (claim_for_promotion (now_of v w) d)" c] a(2) by simp
  then have "running_on b w1 w2" by (intro running_on_same dispatches_bundle)
  with svc_claim_running [OF a(1)] show ?thesis
    unfolding a(3) using svc_promote_outcome_running running_on_trans by blast
qed

lemma lookup_looks:
  "looks w (snd (case for_deployment w d of Inl e \<Rightarrow> (Inl e, w)
     | Inr c \<Rightarrow> find_promotion_build v c n tg w))"
  "looks w (snd (case for_deployment w d of Inl e \<Rightarrow> (Inl e, w) | Inr c \<Rightarrow> get_build v c m w))"
  by (auto split: sum.split intro!: reads_looks find_promotion_build_reads get_build_reads)

lemma svc_reconcile_running: "running_on b w (svc_reconcile v i st (Some b) w)"
proof (cases "find_dep w i")
  case (Some d)
  define r where "r = (case for_deployment w d of Inl e \<Rightarrow> (Inl e, w)
     | Inr c \<Rightarrow> find_promotion_build v c (d_source_build_number d) (d_target d) w)"
  obtain x w1 where xw: "r = (x, w1)" by force
  have "looks w w1"
    using lookup_looks(1) [where w = w and d = d and v = v and n = "d_source_build_number d"
        and tg = "d_target d", folded r_def] xw by simp
  then have same: "find_bundle w1 b = find_bundle w b" by (rule looks_bundle)
  have rec: "running_on b w (svc_record_promotion v i n st (Some b) w')"
    if "find_bundle w' b = find_bundle w b" for n w'
    using svc_record_promotion_running [of b w' v i n st] that
    by (simp add: running_on_def bstatus_in_def)
  show ?thesis
    unfolding svc_reconcile_def Some option.case r_def [symmetric] xw prod.case Let_def
    by (auto simp: same split: sum.split option.split intro!: running_on_same rec)
qed (simp add: svc_reconcile_def)

lemma svc_poll_bundle: "find_bundle (svc_poll v i n st rel w) k = find_bundle w k"
proof (cases "find_dep w i")
  case (Some d)
  define r where "r = (case for_deployment w d of Inl e \<Rightarrow> (Inl e, w) | Inr c \<Rightarrow> get_build v c n w)"
  obtain x w1 where xw: "r = (x, w1)" by force
  have "looks w w1"
    using lookup_looks(2) [where w = w and d = d and v = v and m = n, folded r_def] xw by simp
  then have "find_bundle w1 k = find_bundle w k" by (rule looks_bundle)
  then show ?thesis
    unfolding svc_poll_def Some option.case r_def [symmetric] xw prod.case
    by (simp add: svc_apply_build_def Let_def split: sum.split option.split)
qed (simp add: svc_poll_def)

lemma svc_refresh_running: "running_on b w (svc_refresh v i (Some b) w)"
proof (cases "find_dep w i")
  case (Some d)
  have "running_on b w (svc_reconcile v i st (Some b) (tick w))" for st
    using svc_reconcile_running [of b "tick w" v i st] by (simp add: running_on_def bstatus_in_def)
  then show ?thesis
    by (auto simp: svc_refresh_def Some Let_def svc_poll_bundle intro!: running_on_same split: option.split)
qed (simp add: svc_refresh_def)

lemma advance_step_running: "running_on b w (snd (advance_step v b i d w))"
  by (simp add: advance_step_def svc_promote_running svc_refresh_running)

text \<open>Cancelling touches exactly the steps that are WAITING.\<close>

lemma svc_cancel_status:
  "status_in (svc_cancel v i reason rel w) j =
     (if j = i then map_option (\<lambda>_. DS_CANCELLED) (status_in w i) else status_in w j)"
  by (auto simp: svc_cancel_def Let_def status_in_def dep_cancel_def keeps_id_def split: option.split)

lemma cancel_waiting_status:
  "status_in (cancel_waiting v b reason ids w) j =
     (if j \<in> set ids \<and> status_in w j = Some DS_WAITING then Some DS_CANCELLED else status_in w j)"
proof (induction ids arbitrary: w)
  case (Cons i ids)
  let ?w = "case find_dep w i of None \<Rightarrow> w
      | Some d \<Rightarrow> if d_status d = DS_WAITING then svc_cancel v i reason (Some b) w else w"
  have "status_in ?w j = (if j = i \<and> status_in w j = Some DS_WAITING then Some DS_CANCELLED else status_in w j)" for j
    by (cases "find_dep w i") (auto simp: svc_cancel_status, auto simp: status_in_def)
  then show ?case unfolding cancel_waiting.simps(2) Cons.IH by auto
qed simp

lemma cancel_waiting_bundle: "find_bundle (cancel_waiting v b reason ids w) k = find_bundle w k"
proof (induction ids arbitrary: w)
  case (Cons i ids)
  show ?case unfolding cancel_waiting.simps(2) Cons.IH by (simp split: option.split)
qed simp

lemma any_succeeded_status: "any_succeeded w ids \<longleftrightarrow> (\<exists>i \<in> set ids. status_in w i = Some DS_SUCCESS)"
  by (simp add: any_succeeded_def status_in_def)

text \<open>How a release fails: nothing is left waiting, and one success makes it a partial failure.\<close>

definition failed_on :: "string \<Rightarrow> string list \<Rightarrow> world \<Rightarrow> dep_row \<Rightarrow> bool" where
  "failed_on b steps w failed \<longleftrightarrow>
     find_dep w (d_id failed) = Some failed \<and> d_status failed = DS_FAILED \<and>
     (\<forall>j \<in> set steps. status_in w j \<noteq> Some DS_WAITING) \<and>
     (\<exists>r. find_bundle w b = Some r \<and> b_error_code r = d_error_code failed \<and>
        b_failed_stage r = d_failed_stage failed \<and>
        b_status r = (if \<exists>j \<in> set steps. status_in w j = Some DS_SUCCESS
                      then BS_PARTIAL_FAILURE else BS_FAILED))"

lemma cancel_waiting_keeps:
  assumes "find_dep w i = Some d" and "d_status d \<noteq> DS_WAITING"
  shows "find_dep (cancel_waiting v b reason ids w) i = Some d"
  using assms
proof (induction ids arbitrary: w)
  case (Cons j ids)
  have "find_dep (case find_dep w j of None \<Rightarrow> w
      | Some d \<Rightarrow> if d_status d = DS_WAITING then svc_cancel v j reason (Some b) w else w) i = Some d"
    using Cons.prems
    by (cases "j = i") (auto simp: svc_cancel_def Let_def split: option.split)
  then show ?case using Cons.IH Cons.prems(2) by simp
qed simp

lemma fail_bundle_outcome:
  assumes "find_dep w i = Some d" and "d_status d = DS_FAILED" and "find_bundle w b = Some r"
  shows "failed_on b steps (fail_bundle v b d steps w) d"
proof -
  let ?w1 = "cancel_waiting v b (cancellation_reason d) steps w"
  have i: "d_id d = i" using assms(1) by (auto simp: find_dep_def dest: find_row_Some)
  have d: "find_dep ?w1 i = Some d" by (rule cancel_waiting_keeps) (use assms in auto)
  have b: "find_bundle ?w1 b = Some r" using assms(3) by (simp add: cancel_waiting_bundle)
  have kb: "keeps_bid (\<lambda>r. snd (bundle_fail d s at r))" for s at by simp
  have st: "status_in (fail_bundle v b d steps w) j = status_in ?w1 j" for j
    by (simp add: fail_bundle_def Let_def status_in_def)
  have fd: "find_dep (fail_bundle v b d steps w) j = find_dep ?w1 j" for j
    by (simp add: fail_bundle_def Let_def)
  have fb: "find_bundle (fail_bundle v b d steps w) b =
      Some (snd (bundle_fail d (any_succeeded ?w1 steps) (now_of v ?w1) r))"
    by (simp add: fail_bundle_def Let_def b)
  show ?thesis
    unfolding failed_on_def st fd fb any_succeeded_status [symmetric]
    using d i assms(2) by (auto simp: bundle_fail_def Let_def cancel_waiting_status)
qed


lemma finish_success_status [simp]:
  "status_in (finish_success v b w) i = status_in w i"
  "find_bundle w b = Some r \<Longrightarrow> bstatus_in (finish_success v b w) b = Some BS_SUCCESS"
  by (simp_all add: finish_success_def Let_def status_in_def bstatus_in_def bundle_finish_success_def)

text \<open>A step that returns leaves no WAITING row behind.\<close>

lemma advance_step_not_waiting:
  assumes "find_dep w i = Some d" and "advance_step v b i d w = (Inr u, w1)"
    and "good w"
  shows "status_in w1 i \<noteq> Some DS_WAITING \<and> status_in w1 i \<noteq> None"
proof (cases "d_status d = DS_WAITING")
  case True
  then have p: "svc_promote v i (Some b) w = (Inr u, w1)" using assms(2) by (simp add: advance_step_def)
  obtain c where c: "for_deployment w d = Inr c"
    using p assms(1) by (auto simp: svc_promote_def split: sum.splits)
  obtain ok wc where cl: "svc_claim v i (Some b) w = (ok, wc)" by force
  have ok: "ok" using svc_claim_refused [of v i "Some b" w] cl assms(1) True by auto
  obtain e where e: "find_dep wc i = Some e" "d_status e = DS_PROMOTING"
    using svc_claim_status [of v i "Some b" w wc] cl ok by auto
  obtain r w2 where r: "svc_dispatch v e c wc = (r, w2)" by force
  have "find_dep w2 i = Some e"
    using svc_dispatch_dispatches [of wc v e c] r e(1) dispatches_find by (metis snd_conv)
  moreover have "w1 = snd (svc_promote_outcome v i (dep_promote_stage d) (Some b) r w2)"
    using p by (simp add: svc_promote_def assms(1) c Let_def cl ok e(1) r)
  ultimately show ?thesis
    using outcome_status [where w = w2 and i = i and d = e and v = v and rel = "Some b" and r = r
        and st = "dep_promote_stage d"] e(2) by auto
next
  case False
  have ev: "evolves w w1" using advance_step_effect(2) [OF assms(3,1,2)] .
  have "status_in w i = Some (d_status d)" using assms(1) by (simp add: status_in_def)
  then have "status_in w1 i \<noteq> Some DS_WAITING" using evolves_waiting [OF ev] False by auto
  moreover have "status_in w1 i \<noteq> None" using evolves_ids [OF ev, of i] assms(1) by (auto simp: status_in_def)
  ultimately show ?thesis by simp
qed

lemma ordered_steps_present: "i \<in> set (ordered_steps w b) \<Longrightarrow> find_dep w i \<noteq> None"
  by (auto simp: ordered_steps_def bundle_deployments_def find_dep_def find_row_None)

subsection \<open>The walk does what the entity decides\<close>

text \<open>
  The entity's rule (\<open>next_decision\<close>) is a pure function of the ordered steps; the service's
  loop re-reads rows as it goes. What it does first is what the rule says, and it goes on
  only past a step that then succeeded.
\<close>

lemma advance_walk_skip:
  "\<forall>i \<in> set earlier. status_in w i = Some DS_SUCCESS \<Longrightarrow>
     advance_walk v b steps (earlier @ ids) w = advance_walk v b steps ids w"
  by (induction earlier) (auto simp: status_in_def advance_step_def)

definition act_then ::
    "env \<Rightarrow> string \<Rightarrow> string list \<Rightarrow> string \<Rightarrow> (exn + unit) \<times> world \<Rightarrow> (exn + unit) \<times> world" where
  "act_then v b steps i acted =
     (case acted of
        (Inl e, w1) \<Rightarrow> (Inl e, w1)
      | (Inr _, w1) \<Rightarrow> walk_on v b steps i (tl (dropWhile (\<lambda>j. j \<noteq> i) steps)) w1)"

definition decided :: "env \<Rightarrow> string \<Rightarrow> string list \<Rightarrow> dep_row list \<Rightarrow> world \<Rightarrow> (exn + unit) \<times> world" where
  "decided v b steps rows w =
     (case next_decision rows of
        Finish \<Rightarrow> (Inr (), finish_success v b w)
      | Fail d \<Rightarrow> (Inr (), fail_bundle v b d steps w)
      | Wait d \<Rightarrow> (Inr (), w)
      | Refresh d \<Rightarrow> act_then v b steps (d_id d) (Inr (), svc_refresh v (d_id d) (Some b) w)
      | Promote d \<Rightarrow> act_then v b steps (d_id d) (svc_promote v (d_id d) (Some b) w))"

lemma bundle_rows_found:
  assumes "good w" and "d \<in> set (bundle_deployments w b)"
  shows "find_dep w (d_id d) = Some d"
  using assms by (auto simp: bundle_deployments_def find_dep_def good_def good_rows_def intro: find_row_keyed)

lemma advance_decided:
  assumes g: "good w"
  shows "advance v b w =
    decided v b (ordered_steps w b) (ordered_by_component w (bundle_deployments w b)) w"
proof -
  let ?rows = "ordered_by_component w (bundle_deployments w b)"
  let ?steps = "ordered_steps w b"
  have steps: "?steps = map d_id ?rows" by (simp add: ordered_steps_def)
  have found: "find_dep w (d_id d) = Some d" if "d \<in> set ?rows" for d
    using bundle_rows_found [OF g] that by simp
  show ?thesis
  proof (cases "next_decision ?rows = Finish")
    case True
    then have "\<forall>d \<in> set ?rows. d_status d = DS_SUCCESS" by (simp add: next_decision_Finish)
    then have "\<forall>i \<in> set ?steps. status_in w i = Some DS_SUCCESS"
      using found by (auto simp: steps status_in_def)
    then have "advance_walk v b ?steps (?steps @ []) w = advance_walk v b ?steps [] w"
      by (rule advance_walk_skip)
    then show ?thesis by (simp add: advance_def decided_def True)
  next
    case False
    then obtain pre d post where r: "?rows = pre @ d # post" "\<forall>p \<in> set pre. d_status p = DS_SUCCESS"
        "d_status d \<noteq> DS_SUCCESS" "next_decision ?rows = decision_for d"
      by (rule next_decision_split)
    let ?i = "d_id d"
    have fd: "find_dep w ?i = Some d" using found r(1) by simp
    have pre: "\<forall>i \<in> set (map d_id pre). status_in w i = Some DS_SUCCESS"
      using found r(1,2) by (auto simp: status_in_def)
    then have "?i \<notin> set (map d_id pre)" using fd r(3) by (auto simp: status_in_def)
    then have tl: "tl (dropWhile (\<lambda>j. j \<noteq> ?i) ?steps) = map d_id post"
      unfolding steps r(1) map_append list.map by (subst dropWhile_append2) (auto simp: rev_image_eqI)
    have "advance v b w = advance_walk v b ?steps (?i # map d_id post) w"
      unfolding advance_def
      using advance_walk_skip [OF pre, of v b ?steps "?i # map d_id post"] steps r(1) by simp
    then show ?thesis
      using r(3) fd
      by (cases "d_status d")
        (auto simp: decided_def r(4) decision_for_def act_then_def tl walk_on_def advance_step_def
          split: prod.split sum.split)
  qed
qed

subsection \<open>A session per request\<close>

text \<open>
  Each request works on its own session, which starts from the durable tables; when the
  request raises, \<open>get_db\<close> rolls back. Over any sequence of such requests, promotion requests
  are still paid for by rows that were WAITING.
\<close>

definition end_request :: "(exn + 'a) \<times> world \<Rightarrow> world" where
  "end_request r = (case r of (Inl _, w) \<Rightarrow> rollback w | (Inr _, w) \<Rightarrow> w)"

datatype poll = PollDeployment string | PollBundle string

fun poll_once :: "env \<Rightarrow> poll \<Rightarrow> world \<Rightarrow> world" where
  "poll_once v (PollDeployment i) w = end_request (refresh_standalone v i w)"
| "poll_once v (PollBundle b) w = end_request (refresh_bundle v b w)"

definition clean :: "world \<Rightarrow> bool" where
  "clean w \<longleftrightarrow> w_durable w = w_cur w"

text \<open>
  What a session keeps of the tables it reads and of those it would roll back to. The locale asks
  of a fact \<open>Q\<close> that every move of deployments keeps it for which its requests are paid, and that it
  rests on the current tables and the number of promotions alone; then any sequence of polls keeps it.
\<close>

definition in_session :: "(world \<Rightarrow> bool) \<Rightarrow> world \<Rightarrow> bool" where
  "in_session Q w \<longleftrightarrow> Q w \<and> Q (rollback w)"

text \<open>After a promotion that claimed, everything is durable.\<close>

lemma svc_promote_sync:
  "(w_trace (snd (svc_promote v i rel w)) = w_trace w \<and> w_cur (snd (svc_promote v i rel w)) = w_cur w \<and>
    w_durable (snd (svc_promote v i rel w)) = w_durable w) \<or> clean (snd (svc_promote v i rel w))"
proof (rule svc_promote_cases [of w v i rel])
  assume "looks w (snd (svc_promote v i rel w))" "w_trace (snd (svc_promote v i rel w)) = w_trace w"
  then show ?thesis by (simp add: looks_def)
next
  fix d c w1 r w2
  assume a: "svc_claim v i rel w = (True, w1)"
    "svc_dispatch v (snd (claim_for_promotion (now_of v w) d)) c w1 = (r, w2)"
    "svc_promote v i rel w = svc_promote_outcome v i (dep_promote_stage d) rel r w2"
  have "clean w2"
    using svc_dispatch_dispatches [of w1 v "snd (claim_for_promotion (now_of v w) d)" c] a(2)
      svc_claim_trace [OF a(1)] by (simp add: dispatches_def clean_def)
  then have "clean (snd (svc_promote v i rel w))"
    unfolding a(3) by (simp add: svc_promote_outcome_def clean_def split: sum.split option.split exn.split)
  then show ?thesis ..
qed

lemma end_request_good: "settles w (snd r) \<Longrightarrow> good w \<Longrightarrow> good (end_request r)"
  by (cases r) (auto simp: end_request_def good_def split: sum.split dest: settles_good)

locale poll_invariant =
  fixes Q :: "world \<Rightarrow> bool"
  assumes onward: "evolves w w' \<Longrightarrow> spends w w' \<Longrightarrow> Q w \<Longrightarrow> Q w'"
    and same: "w_cur u = w_cur w \<Longrightarrow> posts u = posts w \<Longrightarrow> Q w \<Longrightarrow> Q u"
begin

lemma session_sync: "Q w \<Longrightarrow> clean w \<Longrightarrow> in_session Q w"
  using same [of "rollback w" w] by (simp add: in_session_def clean_def)

lemma session_polls:
  assumes "in_session Q w" and "evolves w w'" and "polls w w'"
  shows "in_session Q w'"
proof -
  have "Q (rollback w')"
    using same [of "rollback w'" "rollback w"] polls_posts [OF assms(3)] assms(1,3)
    by (simp add: in_session_def polls_def)
  moreover have "Q w'" using onward [OF assms(2) spends_polls [OF assms(2,3)]] assms(1) by (simp add: in_session_def)
  ultimately show ?thesis by (simp add: in_session_def)
qed

lemma session_commit: "in_session Q w \<Longrightarrow> in_session Q (commit w)"
  using same [of "commit w" w] same [of "rollback (commit w)" w] by (simp add: in_session_def)

lemma session_rollback: "in_session Q w \<Longrightarrow> in_session Q (rollback w)"
  using same [of "rollback (rollback w)" "rollback w"] by (simp add: in_session_def)

lemma promote_session: "in_session Q w \<Longrightarrow> in_session Q (snd (svc_promote v i rel w))"
  using svc_promote_sync [of v i rel w]
proof
  assume "in_session Q w" and same': "w_trace (snd (svc_promote v i rel w)) = w_trace w \<and>
    w_cur (snd (svc_promote v i rel w)) = w_cur w \<and> w_durable (snd (svc_promote v i rel w)) = w_durable w"
  then show ?thesis
    using same [of "snd (svc_promote v i rel w)" w] same [of "rollback (snd (svc_promote v i rel w))" "rollback w"]
    by (simp add: in_session_def posts_def)
next
  assume "in_session Q w" "clean (snd (svc_promote v i rel w))"
  then show ?thesis
    using onward [OF moves_evolves [OF svc_promote_moves] svc_promote_spends] session_sync
    by (simp add: in_session_def)
qed

lemma refresh_session:
  assumes "good w" and "\<And>d. find_dep w i = Some d \<Longrightarrow> d_status d \<noteq> DS_WAITING" and "in_session Q w"
  shows "in_session Q (svc_refresh v i rel w)"
  by (rule session_polls [OF assms(3) moves_evolves [OF svc_refresh_moves] svc_refresh_polls])
    (use assms(2) good_find_inv [OF assms(1)] in auto)

lemma advance_step_session:
  assumes "good w" and "find_dep w i = Some d" and "in_session Q w"
  shows "in_session Q (snd (advance_step v b i d w))"
  using assms promote_session refresh_session [OF assms(1) _ assms(3), of i v "Some b"]
  by (auto simp: advance_step_def)

lemma advance_walk_session:
  "good w \<Longrightarrow> in_session Q w \<Longrightarrow> in_session Q (snd (advance_walk v b steps ids w))"
proof (induction ids arbitrary: w)
  case Nil
  then show ?case using session_polls [OF _ leaves_evolves [OF finish_success_leaves] finish_success_polls] by simp
next
  case (Cons i ids)
  show ?case
  proof (cases "find_dep w i")
    case (Some d)
    obtain x w1 where x: "advance_step v b i d w = (x, w1)" by force
    have w1: "in_session Q w1" using advance_step_session [OF Cons.prems(1) Some Cons.prems(2), of v b] x by simp
    have g1: "good w1" by (rule advance_step_effect(4) [OF Cons.prems(1) Some x])
    have "in_session Q (fail_bundle v b d1 steps w1)" for d1
      by (rule session_polls [OF w1 fail_bundle_evolves fail_bundle_polls])
    then have "in_session Q (snd (walk_on v b steps i ids w1))"
      using w1 Cons.IH [OF g1 w1] by (simp add: walk_on_def split: option.split)
    then show ?thesis
      unfolding advance_walk_Cons [OF Some x] using w1 by (simp split: sum.split)
  qed (use Cons.prems in simp)
qed

lemma refresh_bundle_session:
  assumes "good w" "clean w" "in_session Q w"
  shows "clean (end_request (refresh_bundle v b w)) \<and> in_session Q (end_request (refresh_bundle v b w))"
proof -
  obtain x w1 where x: "advance v b w = (x, w1)" by force
  have w1: "in_session Q w1" using advance_walk_session [OF assms(1,3), of v b] x by (metis advance_def snd_conv)
  show ?thesis
    using assms session_commit [OF w1] session_rollback [OF w1] session_rollback [OF session_commit [OF w1]]
      session_rollback [OF assms(3)]
    by (auto simp: refresh_bundle_def get_bundle_def advance_and_commit_def x end_request_def clean_def
        split: option.split sum.split)
qed

lemma log_session: "in_session Q w \<Longrightarrow> in_session Q (log v r dd st kd ss cd ms w)"
  by (rule session_polls [OF _ leaves_evolves]) (auto simp: polls_ops)

lemma refresh_standalone_session:
  assumes "good w" "clean w" "in_session Q w"
  shows "clean (end_request (refresh_standalone v i w)) \<and> in_session Q (end_request (refresh_standalone v i w))"
proof (cases "find_dep w i")
  case (Some d)
  define r where "r = (if d_status d = DS_WAITING then svc_promote v i None w
      else (Inr (), svc_refresh v i None w))"
  obtain x w1 where xw: "r = (x, w1)" by force
  have "in_session Q (snd r)"
    using promote_session [OF assms(3)] Some refresh_session [OF assms(1) _ assms(3), of i v None]
    by (auto simp: r_def)
  then have w1: "in_session Q w1" using xw by simp
  define w2 where "w2 = (if dep_status w1 i = Some (ds_value DS_SUCCESS)
      then log v None (Some i) (ws_value WAIT_PUBLISH_REQUEST) STAGE_STARTED (dep_status w1 i) None None
             (log v None (Some i) (ws_value COMPLETE_DEPLOYMENT) RELEASE_COMPLETED (dep_status w1 i)
                None None w1)
      else w1)"
  have w2: "in_session Q w2" using w1 log_session by (simp add: w2_def)
  have step: "refresh_standalone v i w =
      (if d_release_bundle_id d \<noteq> None
       then (Inl (DuplicatePromotionError ''Refresh the parent release bundle instead''), w)
       else case x of Inl e \<Rightarrow> (Inl e, w1) | Inr _ \<Rightarrow> (get_deployment i (commit w2), commit w2))"
    unfolding refresh_standalone_def get_deployment_def Some option.case sum.case r_def [symmetric] xw
      prod.case Let_def w2_def by (rule refl)
  show ?thesis
    unfolding step
    using assms session_commit [OF w2] session_rollback [OF w1] session_rollback [OF session_commit [OF w2]]
      session_rollback [OF assms(3)]
    by (auto simp: end_request_def clean_def get_deployment_def split: sum.split option.split)
qed (use assms session_rollback in \<open>simp add: refresh_standalone_def get_deployment_def end_request_def clean_def\<close>)

lemma poll_once_session:
  assumes "good w" "clean w" "in_session Q w"
  shows "good (poll_once v p w) \<and> clean (poll_once v p w) \<and> in_session Q (poll_once v p w)"
  using assms refresh_standalone_session [OF assms] refresh_bundle_session [OF assms]
    end_request_good [OF refresh_standalone_settles assms(1)]
    end_request_good [OF refresh_bundle_settles assms(1)]
  by (cases p) auto

lemma polls_session:
  "good w \<Longrightarrow> clean w \<Longrightarrow> in_session Q w \<Longrightarrow>
     good (fold (poll_once v) ps w) \<and> clean (fold (poll_once v) ps w) \<and> in_session Q (fold (poll_once v) ps w)"
  by (induction ps arbitrary: w) (auto simp: poll_once_session)

end

lemma waiting_cong: "w_cur u = w_cur w \<Longrightarrow> waiting u = waiting w"
  by (simp add: waiting_def status_in_def find_dep_def)

lemma evolves_cong: "w_cur u = w_cur w \<Longrightarrow> evolves w0 u = evolves w0 w"
  by (simp add: evolves_def find_dep_def)

text \<open>Promotions sent and deployments still to be promoted, together.\<close>

abbreviation within :: "nat \<Rightarrow> world \<Rightarrow> bool" where
  "within B \<equiv> in_session (\<lambda>w. posts w + waiting w \<le> B)"

interpretation budget: poll_invariant "\<lambda>w. posts w + waiting w \<le> B"
proof
  show "posts w' + waiting w' \<le> B" if "spends w w'" "posts w + waiting w \<le> B" for w w'
    using that by (simp add: spends_def)
  show "posts u + waiting u \<le> B" if "w_cur u = w_cur w" "posts u = posts w" "posts w + waiting w \<le> B" for u w
    using that waiting_cong [of u w] by simp
qed

text \<open>Where the deployments came from.\<close>

interpretation origin: poll_invariant "evolves w0"
  by unfold_locales (rule evolves_trans, assumption+, rule iffD2 [OF evolves_cong], assumption+)

end
