(* ===== verification/Samples.thy ===== *)
theory Samples
  imports Orchestrator_Order
begin

section \<open>A concrete world\<close>

text \<open>
  One project with two components on one Drone server, and an environment in which Drone
  answers with canned responses. The properties are evaluated here: each theorem with a
  hypothesis has a companion that discharges it on these values.
\<close>

definition sample_project :: project_row where
  "sample_project = \<lparr>p_id = ''p1'', p_key = ''default'', p_name = ''Shop'', p_description = None,
     p_default_target = ''production'', p_drone_connection_id = None,
     p_gitea_connection_id = None, p_is_archived = False, p_created_at = 0, p_updated_at = 0\<rparr>"

definition sample_component :: "string \<Rightarrow> string \<Rightarrow> int \<Rightarrow> component_row" where
  "sample_component i key pos = \<lparr>c_id = i, c_project_id = ''p1'', c_key = key, c_display_name = key,
     c_position = pos, c_drone_owner = ''acme'', c_drone_repo = key,
     c_promote_target_override = None, c_drone_connection_id = None, c_publish_enabled = False,
     c_gitea_owner = None, c_gitea_repo = None, c_gitea_connection_id = None, c_tag_prefix = ''v'',
     c_is_active = True, c_created_at = 0, c_updated_at = 0\<rparr>"

definition backend_component :: component_row where
  "backend_component = sample_component ''c1'' ''backend'' 1"

definition frontend_component :: component_row where
  "frontend_component = sample_component ''c2'' ''frontend'' 2"

definition sample_connection :: connection where
  "sample_connection = \<lparr>n_id = ''n1'', n_kind = CK_DRONE, n_name = ''drone'',
     n_base_url = ''https://drone'', n_token_encrypted = ''x'', n_token_hint = ''abcd'',
     n_is_default = True, n_created_at = 0, n_updated_at = 0, n_verify_status = None,
     n_verify_detail = None, n_verified_at = None\<rparr>"

text \<open>Identifiers differ: the n-th is a string of n characters.\<close>

definition sample_env :: "http_result \<Rightarrow> http_result \<Rightarrow> env" where
  "sample_env on_get on_post = \<lparr>v_clock = (\<lambda>n. int n), v_uuid = (\<lambda>n. replicate (Suc n) CHR ''u''),
     v_http = (\<lambda>tr rq. if h_method rq = GET then on_get else on_post),
     v_decrypt = (\<lambda>s. Some ''token''), v_digest = (\<lambda>s. ''digest''), v_retry_attempts = 3,
     v_deployment_timeout = 3600, v_ci_source_wait = 600, v_publish_timeout = 600,
     v_schedule_claim_timeout = 600, v_poll_interval = 5, v_batch_size = 20, v_scheduler_batch_size = 20, v_smtp = (\<lambda>tr m. True), v_actor = None,
     v_actor_source = ''system''\<rparr>"

definition build_json :: "int \<Rightarrow> string \<Rightarrow> string \<Rightarrow> json" where
  "build_json n status event = JObj [(''number'', JInt n), (''status'', JStr status),
     (''event'', JStr event), (''branch'', JStr ''main''), (''after'', JStr ''sha'')]"

definition ok_build :: "int \<Rightarrow> string \<Rightarrow> string \<Rightarrow> http_result" where
  "ok_build n status event = HttpResponse 200 (Some (build_json n status event))"

text \<open>A deployment of a component, fresh, and the same one in another state.\<close>

definition sample_build :: "int \<Rightarrow> drone_build" where
  "sample_build n = \<lparr>bd_number = n, bd_status = ''success'', bd_event = ''push'', bd_parent = None,
     bd_target = None, bd_branch = ''main'', bd_commit_sha = ''sha'', bd_commit_message = '''',
     bd_author = '''', bd_stages = []\<rparr>"

definition tables_with :: "dep_row list \<Rightarrow> bundle_row list \<Rightarrow> tables" where
  "tables_with ds bs = no_tables\<lparr>t_projects := [sample_project],
     t_components := [backend_component, frontend_component],
     t_connections := [sample_connection], t_deployments := ds, t_bundles := bs\<rparr>"

definition world_with :: "dep_row list \<Rightarrow> bundle_row list \<Rightarrow> world" where
  "world_with ds bs = \<lparr>w_cur = tables_with ds bs, w_durable = tables_with ds bs, w_ticks = 0,
     w_trace = []\<rparr>"

definition fresh_row :: "component_row \<Rightarrow> string \<Rightarrow> string option \<Rightarrow> dep_row" where
  "fresh_row c i bundle =
     (new_deployment (sample_env HttpTimeout HttpTimeout) (world_with [] []) c ''n1''
        (''acme'', c_drone_repo c) (sample_build 7) ''production'' bundle None)\<lparr>d_id := i\<rparr>"

definition promoting_row :: "component_row \<Rightarrow> string \<Rightarrow> string option \<Rightarrow> dep_row" where
  "promoting_row c i bundle = snd (claim_for_promotion 1 (fresh_row c i bundle))"

definition deploying_row :: "component_row \<Rightarrow> string \<Rightarrow> string option \<Rightarrow> dep_row" where
  "deploying_row c i bundle = record_promotion 9 2 (promoting_row c i bundle)"

definition success_row :: "component_row \<Rightarrow> string \<Rightarrow> string option \<Rightarrow> dep_row" where
  "success_row c i bundle = snd (dep_succeed 3 (deploying_row c i bundle))"

definition failed_row :: "component_row \<Rightarrow> string \<Rightarrow> string option \<Rightarrow> dep_row" where
  "failed_row c i bundle =
     dep_fail (dep_wait_stage (deploying_row c i bundle)) ''DRONE_BUILD_FAILED'' ''failed'' 3
       (deploying_row c i bundle)"

definition sample_bundle :: "bundle_status \<Rightarrow> bundle_row" where
  "sample_bundle s = (new_bundle (sample_env HttpTimeout HttpTimeout) (world_with [] [])
     (Some ''b1'') sample_project ''production'' [''backend'', ''frontend''] None None)
     \<lparr>b_status := s, b_deployment_status := s\<rparr>"

lemmas sample_defs = sample_project_def sample_component_def backend_component_def
  frontend_component_def sample_connection_def sample_env_def build_json_def ok_build_def
  sample_build_def tables_with_def world_with_def fresh_row_def promoting_row_def
  deploying_row_def success_row_def failed_row_def sample_bundle_def

text \<open>The sample tables satisfy the invariants.\<close>

lemma sample_good:
  "good (world_with [fresh_row backend_component ''d1'' None] [])"
  "good (world_with [promoting_row backend_component ''d1'' None] [])"
  "good (world_with [deploying_row backend_component ''d1'' None] [])"
  "good (world_with [success_row backend_component ''d1'' (Some ''b1''),
     fresh_row frontend_component ''d2'' (Some ''b1'')] [sample_bundle BS_DEPLOYING])"
  by code_simp+

end
