(* ===== verification/Dispatch_Laws.thy ===== *)
theory Dispatch_Laws
  imports Orchestrator_Order
begin

section \<open>When a promotion is sent, and what decides a deployment\<close>

text \<open>
  The guards behind a promotion request, the row an unanswered request leaves behind, and the
  status every answer of a poll leads to.
\<close>

subsection \<open>Guards\<close>

lemma looks_posts: "looks w w' \<Longrightarrow> posts w' = posts w"
  by (auto simp: looks_def posts_def only_gets_no_post)

lemma svc_dispatch_posts:
  assumes "posts (snd (svc_dispatch v d c w)) \<noteq> posts w"
  shows "\<exists>w1 w2. ci_dispatch_allowed v d c w = (Inr True, w1) \<and> looks w w1 \<and>
    verify_planned_deployment v d c w1 = (Inr (), w2)"
proof -
  obtain g w1 where g: "ci_dispatch_allowed v d c w = (g, w1)" by force
  have l1: "looks w w1" using ci_dispatch_looks [of w v d c] g by simp
  obtain p w2 where p: "verify_planned_deployment v d c w1 = (p, w2)" by force
  have l2: "looks w w2" using verify_planned_looks [of w1 v d c] p looks_trans [OF l1] by simp
  show ?thesis
    using assms g p l1 looks_posts [OF l1] looks_posts [OF l2]
    by (auto simp: svc_dispatch_def split: sum.splits bool.splits)
qed

lemma plan_allows_cong: "looks w w' \<Longrightarrow> plan_allows v w' plan a r d c = plan_allows v w plan a r d c"
  by (simp add: plan_allows_def looks_def archived_def project_of_def)

lemma drone_connection_cong: "looks w w' \<Longrightarrow> drone_connection w' c = drone_connection w c"
  by (rule registry_cong) (simp add: looks_def same_registry_def)

lemma outcome_posts: "posts (snd (svc_promote_outcome v i st rel r w)) = posts w"
proof -
  have [simp]: "posts (svc_fail v i st code msg rel u) = posts u"
    "posts (svc_record_promotion v i n st rel u) = posts u"
    "posts (svc_mark_unconfirmed v i code st rel u) = posts u" for code msg n u
    using polls_posts [OF polls_ops(1)] polls_posts [OF polls_ops(3)]
    by (simp_all add: posts_def svc_mark_unconfirmed_def Let_def)
  show ?thesis by (simp add: svc_promote_outcome_def split: sum.split option.split exn.split)
qed

lemma claim_posts: "svc_claim v i rel w = (True, w1) \<Longrightarrow> posts w1 = posts w"
  using svc_claim_trace [of v i rel w w1] by (simp add: posts_def is_post_def)

subsection \<open>A request nobody answered\<close>

lemma claim_find:
  assumes "find_dep w i = Some d" and "svc_claim v i rel w = (True, w1)"
  shows "find_dep w1 i = Some (snd (claim_for_promotion (now_of v w) d))"
  by (rule svc_claim_True [OF assms(2)]) (use assms(1) in simp)

lemma claim_tables:
  assumes "svc_claim v i rel w = (True, w1)"
  shows "same_registry w1 w" "t_ci_jobs (w_cur w1) = t_ci_jobs (w_cur w)"
proof -
  have "same_registry w1 w \<and> t_ci_jobs (w_cur w1) = t_ci_jobs (w_cur w)"
    using assms
    by (cases rel) (auto simp: svc_claim_def Let_def upd_release_def upd_dep_def upd_bundle_def log_def
        add_event_def same_registry_def split: option.splits if_splits)
  then show "same_registry w1 w" "t_ci_jobs (w_cur w1) = t_ci_jobs (w_cur w)" by auto
qed

text \<open>A deployment no CI credential and no plan stands behind goes straight to the request.\<close>

lemma svc_dispatch_plain:
  assumes "owning_job w d = None" and "\<not> py_truthy (d_release_bundle_id d)"
  shows "svc_dispatch v d c w =
    (case drone_promote v c (d_source_build_number d) (d_target d) w of
       (Inl e, w3) \<Rightarrow> (Inl e, w3) | (Inr b, w3) \<Rightarrow> (Inr (Some b), w3))"
  using assms by (simp add: svc_dispatch_def ci_dispatch_allowed_def verify_planned_deployment_def)

lemma unanswered_promotion:
  assumes "drone_repo c = Inr (ow, rp)" and "client_for v w c = Inr cl"
    and "v_http v (w_trace w) (promote_rq cl ow rp n tg) \<in> {HttpTimeout, HttpRequestError}"
  shows "\<exists>k m. drone_promote v c n tg w = (Inl (DroneError k m),
      w\<lparr>w_trace := w_trace w @ [Sent (promote_rq cl ow rp n tg)]\<rparr>) \<and>
    drone_error_code k \<in> set UNCONFIRMED_PROMOTE_ERROR_CODES"
  using assms
  by (auto simp: drone_promote_def with_client_def client_promote_build_def send_def drone_classify_def
      UNCONFIRMED_PROMOTE_ERROR_CODES_def)

subsection \<open>What a poll decides\<close>

definition verdict :: "dep_row \<Rightarrow> drone_build \<Rightarrow> deployment_status" where
  "verdict d build =
     (let status = lower (bd_status build)
      in if status \<in> set RUNNING_BUILD_STATUSES then DS_DEPLOYING
         else if status = ''success'' \<and> promotion_verified d build then DS_SUCCESS
         else DS_FAILED)"

lemma status_in_ops [simp]:
  "status_in (log v r dd st kd ss cd ms w) i = status_in w i"
  "status_in (tick w) i = status_in w i" "status_in (commit w) i = status_in w i"
  by (simp_all add: status_in_def)

lemma status_in_upd:
  "keeps_id f \<Longrightarrow> status_in (upd_dep i f w) j =
     (if j = i then map_option (\<lambda>d. d_status (f d)) (find_dep w i) else status_in w j)"
  by (simp add: status_in_def option.map_comp o_def)

lemma poll_failure_fields [simp]: "d_status (snd (record_poll_failure c m at d)) = d_status d"
  by (simp add: record_poll_failure_def Let_def)

lemma svc_clear_status' [simp]: "status_in (svc_clear_poll_failure v i st rel w) j = status_in w j"
  by (auto simp: svc_clear_poll_failure_def Let_def status_in_upd split: option.split)
    (simp_all add: status_in_def)

lemma svc_poll_failure_status [simp]: "status_in (svc_record_poll_failure v i c st rel w) j = status_in w j"
  by (auto simp: svc_record_poll_failure_def Let_def status_in_upd split: option.split)
    (simp_all add: status_in_def)

lemma svc_apply_build_status:
  assumes "find_dep w i = Some d"
  shows "status_in (svc_apply_build v i build st rel w) i = Some (verdict d build)"
proof -
  obtain e where e: "find_dep (svc_clear_poll_failure v i st rel w) i = Some e"
    using svc_clear_status [OF assms, of v st rel] by blast
  show ?thesis
    unfolding svc_apply_build_def assms option.case Let_def verdict_def
    by (auto simp: e status_in_def svc_fail_def svc_succeed_def Let_def dep_transition_defs keeps_id_def
        RUNNING_BUILD_STATUSES_def)
qed

lemma svc_record_promotion_status:
  "find_dep w i = Some d \<Longrightarrow> status_in (svc_record_promotion v i n st rel w) i = Some DS_DEPLOYING"
  by (simp add: svc_record_promotion_def Let_def status_in_def record_promotion_def)

text \<open>The status a poll leaves, as a table over what the poll learns.\<close>

definition polled_status :: "env \<Rightarrow> dep_row \<Rightarrow> world \<Rightarrow> deployment_status" where
  "polled_status v d w =
     (if has_timed_out d (now_of v w) (v_deployment_timeout v) then DS_FAILED
      else case for_deployment w d of
        Inl _ \<Rightarrow> d_status d
      | Inr c \<Rightarrow>
          (case d_promotion_build_number d of
             None \<Rightarrow>
               (case fst (find_promotion_build v c (d_source_build_number d) (d_target d) (tick w)) of
                  Inr (Some _) \<Rightarrow> DS_DEPLOYING | _ \<Rightarrow> d_status d)
           | Some n \<Rightarrow>
               (case fst (get_build v c n (tick w)) of
                  Inl _ \<Rightarrow> d_status d | Inr build \<Rightarrow> verdict d build)))"

lemma svc_reconcile_status:
  assumes "find_dep w i = Some d"
  shows "status_in (svc_reconcile v i st rel w) i =
    Some (case for_deployment w d of
        Inl _ \<Rightarrow> d_status d
      | Inr c \<Rightarrow> (case fst (find_promotion_build v c (d_source_build_number d) (d_target d) w) of
          Inr (Some _) \<Rightarrow> DS_DEPLOYING | _ \<Rightarrow> d_status d))"
proof -
  define r where "r = (case for_deployment w d of Inl e \<Rightarrow> (Inl e, w)
     | Inr c \<Rightarrow> find_promotion_build v c (d_source_build_number d) (d_target d) w)"
  obtain x w1 where xw: "r = (x, w1)" by force
  have "looks w w1"
    using lookup_looks(1) [where w = w and d = d and v = v and n = "d_source_build_number d"
        and tg = "d_target d", folded r_def] xw by simp
  then have s1: "status_in w1 i = Some (d_status d)" "find_dep w1 i = Some d"
    using assms by (simp_all add: status_in_def)
  have x: "x = (case for_deployment w d of Inl e \<Rightarrow> Inl e
     | Inr c \<Rightarrow> fst (find_promotion_build v c (d_source_build_number d) (d_target d) w))"
    using arg_cong [OF xw, of fst] by (simp add: r_def split: sum.splits)
  obtain e where e: "find_dep (svc_clear_poll_failure v i st rel w1) i = Some e"
    using svc_clear_status [OF s1(2), of v st rel] by blast
  have rec: "status_in (svc_record_promotion v i n st rel
      (log v rel' dd' st' k s c m (svc_clear_poll_failure v i st rel w1))) i = Some DS_DEPLOYING"
    for n rel' dd' st' k s c m
    by (rule svc_record_promotion_status) (simp add: e)
  have "status_in (svc_reconcile v i st rel w) i =
      Some (case x of Inr (Some _) \<Rightarrow> DS_DEPLOYING | _ \<Rightarrow> d_status d)"
    unfolding svc_reconcile_def assms option.case r_def [symmetric] xw prod.case Let_def
    by (simp add: rec s1 split: sum.split option.split)
  then show ?thesis unfolding x by (simp split: sum.split)
qed

lemma svc_poll_status:
  assumes "find_dep w i = Some d"
  shows "status_in (svc_poll v i n st rel w) i =
    Some (case for_deployment w d of
        Inl _ \<Rightarrow> d_status d
      | Inr c \<Rightarrow> (case fst (get_build v c n w) of Inl _ \<Rightarrow> d_status d | Inr build \<Rightarrow> verdict d build))"
proof -
  define r where "r = (case for_deployment w d of Inl e \<Rightarrow> (Inl e, w) | Inr c \<Rightarrow> get_build v c n w)"
  obtain x w1 where xw: "r = (x, w1)" by force
  have "looks w w1"
    using lookup_looks(2) [where w = w and d = d and v = v and m = n, folded r_def] xw by simp
  then have s1: "status_in w1 i = Some (d_status d)" "find_dep w1 i = Some d"
    using assms by (simp_all add: status_in_def)
  have x: "x = (case for_deployment w d of Inl e \<Rightarrow> Inl e | Inr c \<Rightarrow> fst (get_build v c n w))"
    using arg_cong [OF xw, of fst] by (simp add: r_def split: sum.splits)
  have "status_in (svc_poll v i n st rel w) i =
      Some (case x of Inl _ \<Rightarrow> d_status d | Inr build \<Rightarrow> verdict d build)"
    unfolding svc_poll_def assms option.case r_def [symmetric] xw prod.case
    by (simp add: s1 svc_apply_build_status [OF s1(2)] split: sum.split)
  then show ?thesis unfolding x by (simp split: sum.split)
qed

lemma svc_refresh_status:
  assumes "find_dep w i = Some d" and "d_status d \<in> {DS_PROMOTING, DS_DEPLOYING}"
  shows "status_in (svc_refresh v i rel w) i = Some (polled_status v d w)"
proof -
  have nt: "\<not> is_terminal d" using assms(2) by (auto simp: dep_judgement_defs)
  have t: "find_dep (tick w) i = Some d" using assms(1) by simp
  have f: "status_in (svc_fail v i st code msg rel (tick w)) i = Some DS_FAILED" for st code msg
    by (simp add: svc_fail_def Let_def status_in_upd assms(1) dep_fail_def)
  show ?thesis
    using nt by (simp add: svc_refresh_def assms(1) Let_def f svc_reconcile_status [OF t]
        svc_poll_status [OF t] polled_status_def split: option.split sum.split)
qed

end
