(* ===== verification/Pass_Laws.thy ===== *)
theory Pass_Laws
  imports Dispatch_Laws
begin

section \<open>What a promotion request is for\<close>

text \<open>
  Which request a promotion sends and what precedes it; which step of a release a pass promotes, what
  becomes of the steps around it, and how the status of a step shows on its release.
\<close>

subsection \<open>The registry stays\<close>

lemma same_registry_ops [simp]:
  "same_registry (tick w) w" "same_registry (commit w) w" "same_registry (upd_dep i f w) w"
  "same_registry (upd_bundle b g w) w" "same_registry (log v r dd st kd ss cd ms w) w"
  by (simp_all add: same_registry_def upd_dep_def upd_bundle_def log_def add_event_def)

lemma same_registry_trans: "same_registry u v \<Longrightarrow> same_registry v w \<Longrightarrow> same_registry u w"
  by (simp add: same_registry_def)

lemma looks_registry: "looks w w' \<Longrightarrow> same_registry w' w"
  by (simp add: looks_def same_registry_def)

lemma same_registry_release: "same_registry (upd_release rel g w) w"
  by (cases rel) (simp_all add: upd_release_def)

lemmas same_registry_after = same_registry_trans [OF same_registry_ops(1)]
  same_registry_trans [OF same_registry_ops(2)] same_registry_trans [OF same_registry_ops(3)]
  same_registry_trans [OF same_registry_ops(5)] same_registry_trans [OF same_registry_release]

lemma svc_registry:
  "same_registry (svc_fail v i st code msg rel w) w"
  "same_registry (svc_succeed v i rel w) w"
  "same_registry (svc_record_promotion v i n st rel w) w"
  "same_registry (svc_record_poll_failure v i code st rel w) w"
  "same_registry (svc_clear_poll_failure v i st rel w) w"
  by (auto simp: svc_fail_def svc_succeed_def svc_record_promotion_def svc_record_poll_failure_def
      svc_clear_poll_failure_def Let_def split: option.split intro!: same_registry_after)

lemma svc_apply_build_registry: "same_registry (svc_apply_build v i build st rel w) w"
  by (auto simp: svc_apply_build_def Let_def split: option.split
      intro!: same_registry_after same_registry_trans [OF svc_registry(1)] same_registry_trans [OF svc_registry(2)]
        same_registry_trans [OF svc_registry(5)])

lemma svc_reconcile_registry: "same_registry (svc_reconcile v i st rel w) w"
proof (cases "find_dep w i")
  case (Some d)
  define r where "r = (case for_deployment w d of Inl e \<Rightarrow> (Inl e, w)
     | Inr c \<Rightarrow> find_promotion_build v c (d_source_build_number d) (d_target d) w)"
  obtain x w1 where xw: "r = (x, w1)" by force
  have "looks w w1"
    using lookup_looks(1) [where w = w and d = d and v = v and n = "d_source_build_number d"
        and tg = "d_target d", folded r_def] xw by simp
  then have same: "same_registry w1 w" by (rule looks_registry)
  show ?thesis
    unfolding svc_reconcile_def Some option.case r_def [symmetric] xw prod.case Let_def
    by (auto split: sum.split option.split intro!: same same_registry_trans [OF svc_registry(3)]
        same_registry_trans [OF svc_registry(4)] same_registry_trans [OF svc_registry(5)] same_registry_after)
qed (simp add: svc_reconcile_def)

lemma svc_poll_registry: "same_registry (svc_poll v i n st rel w) w"
proof (cases "find_dep w i")
  case (Some d)
  define r where "r = (case for_deployment w d of Inl e \<Rightarrow> (Inl e, w) | Inr c \<Rightarrow> get_build v c n w)"
  obtain x w1 where xw: "r = (x, w1)" by force
  have "looks w w1"
    using lookup_looks(2) [where w = w and d = d and v = v and m = n, folded r_def] xw by simp
  then have same: "same_registry w1 w" by (rule looks_registry)
  show ?thesis
    unfolding svc_poll_def Some option.case r_def [symmetric] xw prod.case
    by (auto split: sum.split intro!: same same_registry_trans [OF svc_registry(4)]
        same_registry_trans [OF svc_apply_build_registry])
qed (simp add: svc_poll_def)

lemma svc_refresh_registry: "same_registry (svc_refresh v i rel w) w"
  by (auto simp: svc_refresh_def Let_def split: option.split intro!: same_registry_trans [OF svc_registry(1)]
      same_registry_trans [OF svc_reconcile_registry] same_registry_trans [OF svc_poll_registry])

subsection \<open>The request of one promotion\<close>

text \<open>The request that promotes a deployment: its component's repository, its build and its target.\<close>

definition promotion_of :: "env \<Rightarrow> world \<Rightarrow> dep_row \<Rightarrow> http_request \<Rightarrow> bool" where
  "promotion_of v w d rq \<longleftrightarrow>
     (\<exists>c cl ow rp. for_deployment w d = Inr c \<and> drone_repo c = Inr (ow, rp) \<and> client_for v w c = Inr cl \<and>
        rq = promote_rq cl ow rp (d_source_build_number d) (d_target d))"

lemma client_for_cong: "same_registry u w \<Longrightarrow> client_for v u c = client_for v w c"
  by (simp add: client_for_def registry_cong(1) [of u w])

lemma promotion_of_cong: "same_registry u w \<Longrightarrow> promotion_of v u d rq = promotion_of v w d rq"
  unfolding promotion_of_def client_for_cong registry_cong(3) ..

lemma drone_promote_sent:
  assumes "drone_promote v c n tg w = (r, w')"
  shows "w' = w \<or> (\<exists>cl ow rp. drone_repo c = Inr (ow, rp) \<and> client_for v w c = Inr cl \<and>
    w_trace w' = w_trace w @ [Sent (promote_rq cl ow rp n tg)])"
  using arg_cong [OF assms, of snd]
  by (auto simp: drone_promote_def with_client_def client_promote_world split: sum.splits)

text \<open>
  A request that left: the claim, then reads, the last of them the plan's look at the source build,
  then the request. All reads see the tables of the claim.
\<close>

lemma svc_promote_sent_at:
  assumes "posts (snd (svc_promote v i rel w)) \<noteq> posts w"
  obtains d c w1 w2 w3 rq rest where
    "find_dep w i = Some d" "d_status d = DS_WAITING" "for_deployment w d = Inr c"
    "svc_claim v i rel w = (True, w1)"
    "ci_dispatch_allowed v (snd (claim_for_promotion (now_of v w) d)) c w1 = (Inr True, w2)" "looks w1 w2"
    "verify_planned_deployment v (snd (claim_for_promotion (now_of v w) d)) c w2 = (Inr (), w3)" "looks w2 w3"
    "promotion_of v w d rq"
    "w_trace (snd (svc_promote v i rel w)) = w_trace w3 @ Sent rq # rest" "filter is_post rest = []"
proof (rule svc_promote_cases [of w v i rel])
  assume "w_trace (snd (svc_promote v i rel w)) = w_trace w"
  with assms show thesis by (simp add: posts_def)
next
  fix d :: dep_row and c w1 r w2
  let ?d = "snd (claim_for_promotion (now_of v w) d)"
  assume a: "find_dep w i = Some d" "d_status d = DS_WAITING" "for_deployment w d = Inr c"
    "svc_claim v i rel w = (True, w1)" "svc_dispatch v ?d c w1 = (r, w2)"
    "svc_promote v i rel w = svc_promote_outcome v i (dep_promote_stage d) rel r w2"
  have p: "posts (snd (svc_dispatch v ?d c w1)) \<noteq> posts w1"
    using assms a(5,6) claim_posts [OF a(4)] outcome_posts by simp
  obtain u1 u2 where u: "ci_dispatch_allowed v ?d c w1 = (Inr True, u1)" "looks w1 u1"
      "verify_planned_deployment v ?d c u1 = (Inr (), u2)"
    using svc_dispatch_posts [OF p] by blast
  have l2: "looks u1 u2" using verify_planned_looks [of u1 v ?d c] u(3) by simp
  obtain x w2' where x: "drone_promote v c (d_source_build_number ?d) (d_target ?d) u2 = (x, w2')" by force
  have w2: "w2 = w2'" using a(5) u(1,3) x by (auto simp: svc_dispatch_def split: sum.splits)
  have lp: "posts u2 = posts w1" using looks_posts looks_trans [OF u(2) l2] by blast
  have "w2' \<noteq> u2" using p a(5) w2 lp by auto
  then obtain cl ow rp where s: "drone_repo c = Inr (ow, rp)" "client_for v u2 c = Inr cl"
      "w_trace w2 = w_trace u2 @ [Sent (promote_rq cl ow rp (d_source_build_number ?d) (d_target ?d))]"
    using drone_promote_sent [OF x] w2 by blast
  have reg: "same_registry u2 w"
    by (rule same_registry_trans [OF looks_registry [OF looks_trans [OF u(2) l2]] claim_tables(1) [OF a(4)]])
  have "client_for v w c = Inr cl" using s(2) by (simp only: client_for_cong [OF reg])
  then have q: "promotion_of v w d (promote_rq cl ow rp (d_source_build_number ?d) (d_target ?d))"
    using a(3) s(1) unfolding promotion_of_def by (auto simp: claim_for_promotion_def Let_def)
  obtain rest where rest: "w_trace (snd (svc_promote v i rel w)) = w_trace w2 @ rest"
      "rest = [] \<or> (\<exists>T. rest = [Committed T])"
    using svc_promote_outcome_trace [of v i "dep_promote_stage d" rel r w2] a(6) by auto
  have n: "filter is_post rest = []" using rest(2) by (auto simp: is_post_def)
  show thesis
    by (rule that [OF a(1-4) u l2 q _ n]) (use s(3) rest(1) in simp)
qed

text \<open>A passed plan check read the source build last.\<close>

lemma verify_planned_reading:
  assumes "verify_planned_deployment v d c w = (Inr (), w')"
    and "d_release_bundle_id d = Some r" "r \<noteq> []"
    and "List.find (\<lambda>p. pl_release_id p = Some r) (t_plans (w_cur w)) = Some plan"
  shows "\<exists>a n b. plan_action_for plan d = Some a \<and> drone_connection w c = Inr n \<and>
     plan_allows v w plan a (plan_route_of c n) d c \<and>
     validate_promotable v c (d_source_build_number d) w = (Inr b, w') \<and> bd_commit_sha b = d_commit_sha d"
  using assms
  by (auto simp: verify_planned_deployment_def plan_allows_def
      split: option.splits prod.splits sum.splits if_splits) (metis option.inject)+

lemma svc_promote_posted:
  "\<exists>es. w_trace (snd (svc_promote v i rel w)) = w_trace w @ es \<and>
     (filter is_post es = [] \<or>
      (\<exists>d rq. find_dep w i = Some d \<and> d_status d = DS_WAITING \<and> promotion_of v w d rq \<and> filter is_post es = [Sent rq]))"
proof (cases "posts (snd (svc_promote v i rel w)) = posts w")
  case True
  then show ?thesis using svc_promote_trace [of v i rel w] by (auto simp: posts_def)
next
  case False
  from svc_promote_sent_at [OF False] obtain d c w1 w2 w3 rq rest where a:
    "find_dep w i = Some d" "d_status d = DS_WAITING" "svc_claim v i rel w = (True, w1)" "looks w1 w2"
    "looks w2 w3" "promotion_of v w d rq"
    "w_trace (snd (svc_promote v i rel w)) = w_trace w3 @ Sent rq # rest" "filter is_post rest = []"
    by metis
  obtain gets where g: "w_trace w3 = w_trace w1 @ gets" "only_gets gets"
    using looks_trans [OF a(4,5)] by (auto simp: looks_def)
  have p: "is_post (Sent rq)" using a(6) by (auto simp: promotion_of_def is_post_def)
  have "w_trace w1 = w_trace w @ [Committed (w_cur w1)]" using svc_claim_trace [OF a(3)] by simp
  then have "w_trace (snd (svc_promote v i rel w)) = w_trace w @ (Committed (w_cur w1) # gets @ Sent rq # rest)"
    using a(7) g(1) by simp
  moreover have "filter is_post (Committed (w_cur w1) # gets @ Sent rq # rest) = [Sent rq]"
    using p a(8) only_gets_no_post [OF g(2)] by (simp add: is_post_def)
  ultimately show ?thesis using a(1,2,6) by blast
qed

subsection \<open>Which step a pass promotes\<close>

text \<open>Cancelling and failing leave a step as it was, or cancel it when it was WAITING.\<close>

lemma cancel_waiting_find:
  "find_dep (cancel_waiting v b reason ids w) j = find_dep w j \<or>
    (status_in w j = Some DS_WAITING \<and> status_in (cancel_waiting v b reason ids w) j = Some DS_CANCELLED)"
proof (cases "find_dep w j")
  case None
  then have "status_in (cancel_waiting v b reason ids w) j = None"
    unfolding cancel_waiting_status by (simp add: status_in_def)
  then show ?thesis using None by (cases "find_dep (cancel_waiting v b reason ids w) j") (simp_all add: status_in_def)
next
  case (Some d)
  show ?thesis
  proof (cases "d_status d = DS_WAITING")
    case False
    then show ?thesis using cancel_waiting_keeps [OF Some] Some by simp
  next
    case True
    have "find_dep (cancel_waiting v b reason ids w) j = find_dep w j" if "j \<notin> set ids"
      using that
    proof (induction ids arbitrary: w)
      case (Cons i ids)
      then show ?case by (simp add: svc_cancel_def Let_def split: option.split)
    qed simp
    moreover have "status_in (cancel_waiting v b reason ids w) j = Some DS_CANCELLED" if "j \<in> set ids"
      unfolding cancel_waiting_status using that True Some by (simp add: status_in_def)
    ultimately show ?thesis using True Some by (auto simp: status_in_def)
  qed
qed

definition left_behind :: "string \<Rightarrow> string \<Rightarrow> world \<Rightarrow> world \<Rightarrow> bool" where
  "left_behind i j w w' \<longleftrightarrow> find_dep w' j = find_dep w j \<or>
     (status_in w' i = Some DS_FAILED \<and> status_in w j = Some DS_WAITING \<and> status_in w' j = Some DS_CANCELLED)"

lemma fail_bundle_find:
  assumes "find_dep w i = Some d" and "d_status d = DS_FAILED"
  shows "find_dep (fail_bundle v b d steps w) i = Some d" and "left_behind i j w (fail_bundle v b d steps w)"
proof -
  let ?w = "cancel_waiting v b (cancellation_reason d) steps w"
  have f: "find_dep (fail_bundle v b d steps w) k = find_dep ?w k" for k by (simp add: fail_bundle_def Let_def)
  show i: "find_dep (fail_bundle v b d steps w) i = Some d"
    unfolding f by (rule cancel_waiting_keeps [OF assms(1)]) (simp add: assms(2))
  have "status_in (fail_bundle v b d steps w) k = status_in ?w k" for k by (simp add: status_in_def f)
  then show "left_behind i j w (fail_bundle v b d steps w)"
    using cancel_waiting_find [of v b "cancellation_reason d" steps w j] i assms(2)
    unfolding left_behind_def f by (auto simp: status_in_def)
qed

text \<open>
  The request of a pass promotes one step that was WAITING. That step is no longer WAITING, every step
  before it has succeeded, and the steps after it are as they were, or cancelled with it.
\<close>

definition promotes_step :: "env \<Rightarrow> string list \<Rightarrow> world \<Rightarrow> world \<Rightarrow> bool" where
  "promotes_step v ids w w' \<longleftrightarrow> (\<exists>es. w_trace w' = w_trace w @ es \<and> (filter is_post es = [] \<or>
     (\<exists>earlier i later d rq. ids = earlier @ i # later \<and> find_dep w i = Some d \<and> d_status d = DS_WAITING \<and>
        promotion_of v w d rq \<and> filter is_post es = [Sent rq] \<and>
        (\<forall>j \<in> set earlier. status_in w' j = Some DS_SUCCESS) \<and>
        status_in w' i \<in> {Some DS_PROMOTING, Some DS_DEPLOYING, Some DS_FAILED} \<and>
        (\<forall>j \<in> set later. left_behind i j w w'))))"

lemma promotes_nothing: "polls w w' \<Longrightarrow> promotes_step v ids w w'"
  unfolding polls_def promotes_step_def using only_gets_no_post by blast

lemma promotes_step_skip:
  assumes "promotes_step v ids w1 w'" and "polls w w1" and "same_registry w1 w"
    and "\<And>j. j \<in> set ids \<Longrightarrow> find_dep w1 j = find_dep w j" and "status_in w' i = Some DS_SUCCESS"
  shows "promotes_step v (i # ids) w w'"
proof -
  obtain gets where g: "w_trace w1 = w_trace w @ gets" "filter is_post gets = []"
    using assms(2) only_gets_no_post by (auto simp: polls_def)
  obtain es where es: "w_trace w' = w_trace w1 @ es" "filter is_post es = [] \<or>
      (\<exists>earlier k later d rq. ids = earlier @ k # later \<and> find_dep w1 k = Some d \<and> d_status d = DS_WAITING \<and>
        promotion_of v w1 d rq \<and> filter is_post es = [Sent rq] \<and>
        (\<forall>j \<in> set earlier. status_in w' j = Some DS_SUCCESS) \<and>
        status_in w' k \<in> {Some DS_PROMOTING, Some DS_DEPLOYING, Some DS_FAILED} \<and>
        (\<forall>j \<in> set later. left_behind k j w1 w'))"
    using assms(1) unfolding promotes_step_def by blast
  have t: "w_trace w' = w_trace w @ gets @ es" "filter is_post (gets @ es) = filter is_post es"
    using g es(1) by simp_all
  show ?thesis
    using es(2)
  proof (elim disjE exE conjE)
    assume "filter is_post es = []"
    then show ?thesis unfolding promotes_step_def using t by metis
  next
    fix earlier k later d rq
    assume a: "ids = earlier @ k # later" "find_dep w1 k = Some d" "d_status d = DS_WAITING"
      "promotion_of v w1 d rq" "filter is_post es = [Sent rq]" "\<forall>j \<in> set earlier. status_in w' j = Some DS_SUCCESS"
      "status_in w' k \<in> {Some DS_PROMOTING, Some DS_DEPLOYING, Some DS_FAILED}" "\<forall>j \<in> set later. left_behind k j w1 w'"
    have f: "find_dep w1 j = find_dep w j" if "j \<in> set (k # later)" for j using assms(4) a(1) that by auto
    have "i # ids = (i # earlier) @ k # later" "find_dep w k = Some d" "promotion_of v w d rq"
      using a(1,2,4) f [of k] by (simp_all add: promotion_of_cong [OF assms(3)])
    moreover have "\<forall>j \<in> set (i # earlier). status_in w' j = Some DS_SUCCESS" using a(6) assms(5) by simp
    moreover have "\<forall>j \<in> set later. left_behind k j w w'"
      using a(8) f by (simp add: left_behind_def status_in_def)
    ultimately show ?thesis
      unfolding promotes_step_def
      by (intro exI [of _ "gets @ es"] conjI t(1) disjI2 exI [of _ "i # earlier"] exI [of _ k] exI [of _ later]
          exI [of _ d] exI [of _ rq]) (use a(3,5,7) t(2) in simp_all)
  qed
qed

lemma promotes_step_here:
  assumes "find_dep w i = Some d" and "w1 = snd (svc_promote v i (Some b) w)" and "i \<notin> set ids"
    and "w' = w1 \<or> (\<exists>e. find_dep w1 i = Some e \<and> d_status e = DS_FAILED \<and> w' = fail_bundle v b e steps w1)"
  shows "promotes_step v (i # ids) w w'"
proof -
  obtain es where es: "w_trace w1 = w_trace w @ es" "filter is_post es = [] \<or>
      (\<exists>d rq. find_dep w i = Some d \<and> d_status d = DS_WAITING \<and> promotion_of v w d rq \<and> filter is_post es = [Sent rq])"
    using svc_promote_posted [of v i "Some b" w] assms(2) by auto
  have "polls w1 w'" using assms(4) fail_bundle_polls by auto
  then obtain gets where g: "w_trace w' = w_trace w1 @ gets" "filter is_post gets = []"
    using only_gets_no_post by (auto simp: polls_def)
  have m: "find_dep w1 j = find_dep w j" if "j \<noteq> i" for j
    using svc_promote_moves [of i w v "Some b"] that assms(2) by (simp add: moves_def)
  have later: "left_behind i j w w'" if "j \<in> set ids" for j
  proof -
    have j: "find_dep w1 j = find_dep w j" by (rule m) (use that assms(3) in blast)
    have "left_behind i j w1 w1" by (simp add: left_behind_def)
    then have "left_behind i j w1 w'"
      using assms(4) by (elim disjE exE conjE) (simp_all only: fail_bundle_find(2))
    then show ?thesis using j by (simp add: left_behind_def status_in_def)
  qed
  have st: "status_in w' i = status_in w1 i"
    using assms(4) fail_bundle_find(1) by (auto simp: status_in_def)
  have t: "w_trace w' = w_trace w @ es @ gets" "filter is_post (es @ gets) = filter is_post es"
    using es(1) g by simp_all
  show ?thesis
    using es(2)
  proof (elim disjE exE conjE)
    assume "filter is_post es = []"
    then show ?thesis unfolding promotes_step_def using t by metis
  next
    fix d0 rq assume a: "find_dep w i = Some d0" "d_status d0 = DS_WAITING" "promotion_of v w d0 rq"
      "filter is_post es = [Sent rq]"
    have "es \<noteq> []" using a(4) by auto
    then have "status_in w' i \<in> {Some DS_PROMOTING, Some DS_DEPLOYING, Some DS_FAILED}"
      using svc_promote_effect [OF a(1), of v "Some b"] es(1) unfolding st assms(2) by auto
    then show ?thesis
      unfolding promotes_step_def
      by (intro exI [of _ "es @ gets"] conjI t(1) disjI2 exI [of _ "[]"] exI [of _ i] exI [of _ ids]
          exI [of _ d0] exI [of _ rq]) (use a t(2) later in simp_all)
  qed
qed

lemma advance_walk_promotes:
  "good w \<Longrightarrow> distinct ids \<Longrightarrow> promotes_step v ids w (snd (advance_walk v b steps ids w))"
proof (induction ids arbitrary: w)
  case Nil
  then show ?case by (simp add: promotes_nothing finish_success_polls)
next
  case (Cons i ids)
  show ?case
  proof (cases "find_dep w i")
    case None
    then show ?thesis by (simp add: promotes_nothing)
  next
    case (Some d)
    obtain x w1 where x: "advance_step v b i d w = (x, w1)" by force
    note eff = advance_step_effect [OF Cons.prems(1) Some x]
    let ?w' = "snd (advance_walk v b steps (i # ids) w)"
    have w': "?w' = (if isl x then w1 else snd (walk_on v b steps i ids w1))"
      unfolding advance_walk_Cons [OF Some x] by (simp split: sum.split)
    show ?thesis
    proof (cases "status_in w1 i = Some DS_SUCCESS \<and> \<not> isl x")
      case True
      then have r: "?w' = snd (advance_walk v b steps ids w1)"
        unfolding w' by (auto simp del: advance_walk.simps simp: walk_on_def status_in_def split: option.splits)
      have nw: "d_status d \<noteq> DS_WAITING"
        using True x svc_promote_effect [OF Some, of v "Some b"] Some
        by (auto simp: advance_step_def status_in_def)
      have "w1 = svc_refresh v i (Some b) w \<or> w1 = w"
        using x nw by (auto simp: advance_step_def split: if_splits)
      then have w1: "polls w w1" "same_registry w1 w" using svc_refresh_polls svc_refresh_registry by auto
      have "moves i w (svc_refresh v i (Some b) w)"
        by (rule svc_refresh_moves) (use nw Some good_find_inv [OF Cons.prems(1)] in auto)
      then have "moves i w w1" using \<open>w1 = svc_refresh v i (Some b) w \<or> w1 = w\<close> by auto
      then have m: "find_dep w1 j = find_dep w j" if "j \<in> set ids" for j
        using that Cons.prems(2) by (auto simp: moves_def)
      have "status_in ?w' i = Some DS_SUCCESS"
        unfolding r using evolves_success True eff(4)
          advance_walk_facts [where w = w1 and v = v and b = b and steps = steps and ids = ids] by blast
      then show ?thesis
        using promotes_step_skip [OF Cons.IH [OF eff(4)] w1 m] Cons.prems(2) unfolding r by simp
    next
      case False
      then have w'': "?w' = w1 \<or> (\<exists>e. find_dep w1 i = Some e \<and> d_status e = DS_FAILED \<and> ?w' = fail_bundle v b e steps w1)"
        unfolding w' by (auto simp del: advance_walk.simps simp: walk_on_def status_in_def split: option.splits)
      show ?thesis
      proof (cases "d_status d = DS_WAITING")
        case True
        then have "w1 = snd (svc_promote v i (Some b) w)" using x by (simp add: advance_step_def prod_eq_iff)
        then show ?thesis by (rule promotes_step_here [OF Some _ _ w'']) (use Cons.prems(2) in simp)
      next
        case False
        then have "polls w w1" using x svc_refresh_polls by (auto simp: advance_step_def split: if_splits)
        then have "polls w ?w'" using w'' fail_bundle_polls polls_trans by metis
        then show ?thesis by (rule promotes_nothing)
      qed
    qed
  qed
qed

lemma ordered_steps_distinct: "good w \<Longrightarrow> distinct (ordered_steps w b)"
proof -
  assume "good w"
  then have "distinct (map d_id (filter (\<lambda>d. d_release_bundle_id d = Some b) (t_deployments (w_cur w))))"
    by (simp add: good_def good_rows_def keyed_def distinct_map_filter)
  moreover have "mset (ordered_steps w b) =
      mset (map d_id (filter (\<lambda>d. d_release_bundle_id d = Some b) (t_deployments (w_cur w))))"
    by (simp add: ordered_steps_def bundle_deployments_def)
  ultimately show ?thesis using mset_eq_imp_distinct_iff by blast
qed

lemma advance_promotes:
  "good w \<Longrightarrow> promotes_step v (ordered_steps w b) w (snd (advance v b w))"
  unfolding advance_def by (rule advance_walk_promotes [OF _ ordered_steps_distinct])

subsection \<open>How a step shows on its release\<close>

text \<open>
  What one step of a pass does to the status of the release: nothing when the step stays as it is or
  succeeds; otherwise the step has failed, or the release has taken over the status of the step.
\<close>

definition mirrors :: "string \<Rightarrow> string \<Rightarrow> world \<Rightarrow> world \<Rightarrow> bool" where
  "mirrors b i w w' \<longleftrightarrow>
     (if status_in w' i = status_in w i \<or> status_in w' i = Some DS_SUCCESS then bstatus_in w' b = bstatus_in w b
      else status_in w' i = Some DS_FAILED \<or>
        (status_in w' i, bstatus_in w' b) \<in>
          {(Some DS_PROMOTING, Some BS_PROMOTING), (Some DS_DEPLOYING, Some BS_DEPLOYING)})"

lemma bstatus_ops [simp]:
  "bstatus_in (tick w) b = bstatus_in w b" "bstatus_in (commit w) b = bstatus_in w b"
  "bstatus_in (log v r dd st kd ss cd ms w) b = bstatus_in w b" "bstatus_in (upd_dep i f w) b = bstatus_in w b"
  by (simp_all add: bstatus_in_def)

lemma bstatus_release:
  assumes "bstatus_in w b \<noteq> None" and "keeps_bid g" and "\<And>r. b_status (g r) = s"
  shows "bstatus_in (upd_release (Some b) g w) b = Some s"
  using assms by (auto simp: bstatus_in_def upd_release_def)

lemma svc_claim_bstatus:
  assumes "svc_claim v i (Some b) w = (True, w1)" and "bstatus_in w b \<noteq> None"
  shows "bstatus_in w1 b = Some BS_PROMOTING"
  using assms
  by (auto simp: svc_claim_def Let_def bstatus_release bundle_mirror_def keeps_bid_def
      split: option.splits if_splits)

lemma svc_record_bstatus:
  assumes "find_dep w i = Some d" and "bstatus_in w b \<noteq> None"
  shows "bstatus_in (svc_record_promotion v i n st (Some b) w) b = Some BS_DEPLOYING"
  using assms by (simp add: svc_record_promotion_def Let_def bstatus_release bundle_deploying_def keeps_bid_def)

lemma bstatus_same: "find_bundle w' b = find_bundle w b \<Longrightarrow> bstatus_in w' b = bstatus_in w b"
  by (simp add: bstatus_in_def)

lemma svc_promote_outcome_mirrors:
  assumes "find_dep w i = Some d" and "d_status d = DS_PROMOTING" and "bstatus_in w b = Some BS_PROMOTING"
    and "svc_promote_outcome v i st (Some b) r w = (Inr u, w')"
  shows "status_in w' i = Some DS_FAILED \<or> (status_in w' i, bstatus_in w' b) \<in>
    {(Some DS_PROMOTING, Some BS_PROMOTING), (Some DS_DEPLOYING, Some BS_DEPLOYING)}"
proof -
  have fail: "status_in (svc_fail v i st code msg (Some b) w) i = Some DS_FAILED" for code msg
    by (simp add: svc_fail_def Let_def status_in_upd assms(1) dep_fail_def)
  have rec: "status_in (svc_record_promotion v i n st (Some b) w) i = Some DS_DEPLOYING"
    "bstatus_in (svc_record_promotion v i n st (Some b) w) b = Some BS_DEPLOYING" for n
    using svc_record_promotion_status [OF assms(1)] svc_record_bstatus [OF assms(1)] assms(3) by simp_all
  have unc: "status_in (svc_mark_unconfirmed v i code st (Some b) w) i = Some DS_PROMOTING"
    "bstatus_in (svc_mark_unconfirmed v i code st (Some b) w) b = Some BS_PROMOTING" for code
    using assms(1-3)
    by (simp_all add: svc_mark_unconfirmed_def Let_def status_in_upd mark_promotion_unconfirmed_def keeps_id_def)
  show ?thesis
    using assms(4)
    by (auto simp: svc_promote_outcome_def fail rec unc split: sum.splits option.splits exn.splits if_splits)
qed

lemma svc_promote_mirrors:
  assumes "find_dep w i = Some d" and "d_status d = DS_WAITING" and "bstatus_in w b \<noteq> None"
    and "svc_promote v i (Some b) w = (Inr u, w')"
  shows "mirrors b i w w'"
proof -
  obtain c where c: "for_deployment w d = Inr c"
    using assms(1,4) by (auto simp: svc_promote_def split: sum.splits)
  obtain ok w1 where cl: "svc_claim v i (Some b) w = (ok, w1)" by force
  have ok: "svc_claim v i (Some b) w = (True, w1)"
    using svc_claim_refused [of v i "Some b" w] cl assms(1,2) by auto
  obtain e where e: "find_dep w1 i = Some e" "d_status e = DS_PROMOTING" using svc_claim_status [OF ok] by auto
  obtain r w2 where r: "svc_dispatch v e c w1 = (r, w2)" by force
  have disp: "dispatches w1 w2" using svc_dispatch_dispatches [of w1 v e c] r by simp
  have p: "svc_promote_outcome v i (dep_promote_stage d) (Some b) r w2 = (Inr u, w')"
    using assms(1,4) by (simp add: svc_promote_def c Let_def ok e(1) r)
  have b: "bstatus_in w2 b = Some BS_PROMOTING"
    using svc_claim_bstatus [OF ok assms(3)] bstatus_same [OF dispatches_bundle [OF disp]] by simp
  have "find_dep w2 i = Some e" using e(1) dispatches_find [OF disp] by simp
  from svc_promote_outcome_mirrors [OF this e(2) b p] show ?thesis
    using assms(1,2) by (auto simp: mirrors_def status_in_def)
qed

lemma svc_reconcile_bstatus:
  assumes "find_dep w i = Some d" and "bstatus_in w b \<noteq> None"
  shows "(status_in (svc_reconcile v i st (Some b) w) i = status_in w i \<and>
      bstatus_in (svc_reconcile v i st (Some b) w) b = bstatus_in w b) \<or>
    (status_in (svc_reconcile v i st (Some b) w) i = Some DS_DEPLOYING \<and>
      bstatus_in (svc_reconcile v i st (Some b) w) b = Some BS_DEPLOYING)"
proof -
  define r where "r = (case for_deployment w d of Inl e \<Rightarrow> (Inl e, w)
     | Inr c \<Rightarrow> find_promotion_build v c (d_source_build_number d) (d_target d) w)"
  obtain x w1 where xw: "r = (x, w1)" by force
  have l: "looks w w1"
    using lookup_looks(1) [where w = w and d = d and v = v and n = "d_source_build_number d"
        and tg = "d_target d", folded r_def] xw by simp
  have s1: "find_dep w1 i = Some d" "status_in w1 i = status_in w i" "bstatus_in w1 b = bstatus_in w b"
    using assms(1) looks_find [OF l, of i] looks_status [OF l, of i] bstatus_same [OF looks_bundle [OF l]] by simp_all
  obtain e where e: "find_dep (svc_clear_poll_failure v i st (Some b) w1) i = Some e"
    using svc_clear_status [OF s1(1), of v st "Some b"] by blast
  have c: "bstatus_in (svc_clear_poll_failure v i st (Some b) w1) b = bstatus_in w b"
    "bstatus_in (svc_record_poll_failure v i code st (Some b) w1) b = bstatus_in w b" for code
    using s1(3) by (simp_all add: bstatus_in_def)
  have rec: "status_in (svc_record_promotion v i n st (Some b) u) i = Some DS_DEPLOYING"
    "bstatus_in (svc_record_promotion v i n st (Some b) u) b = Some BS_DEPLOYING"
    if "u = log v (Some b) dd st' k s cd m (svc_clear_poll_failure v i st (Some b) w1)" for n u dd st' k s cd m
    using that e c(1) assms(2) svc_record_promotion_status [of u i e] svc_record_bstatus [of u i e b] by simp_all
  show ?thesis
    unfolding svc_reconcile_def assms(1) option.case r_def [symmetric] xw prod.case Let_def
    by (simp add: rec [OF refl] s1 c split: sum.split option.split)
qed

lemma svc_refresh_mirrors:
  assumes "find_dep w i = Some d" and "d_status d \<in> {DS_PROMOTING, DS_DEPLOYING}" and "dep_inv d"
    and "bstatus_in w b \<noteq> None"
  shows "mirrors b i w (svc_refresh v i (Some b) w)"
proof -
  have nt: "\<not> is_terminal d" using assms(2) by (auto simp: dep_judgement_defs)
  have st: "status_in w i = Some (d_status d)" by (simp add: status_in_def assms(1))
  have t: "find_dep (tick w) i = Some d" "bstatus_in (tick w) b \<noteq> None" using assms(1,4) by simp_all
  have f: "status_in (svc_fail v i st code msg (Some b) (tick w)) i = Some DS_FAILED" for st code msg
    by (simp add: svc_fail_def Let_def status_in_upd assms(1) dep_fail_def)
  have fm: "mirrors b i w (svc_fail v i st code msg (Some b) (tick w))" for st code msg
    unfolding mirrors_def f using st assms(2) by auto
  have rm: "mirrors b i w (svc_reconcile v i st' (Some b) (tick w))" if "d_promotion_build_number d = None" for st'
  proof -
    have "d_status d = DS_PROMOTING" using that assms(2,3) by (auto simp: dep_inv_def)
    then show ?thesis
      using svc_reconcile_bstatus [OF t, of v st'] by (auto simp: mirrors_def st)
  qed
  have pm: "mirrors b i w (svc_poll v i n st' (Some b) (tick w))" if "d_promotion_build_number d = Some n" for st' n
  proof -
    have "d_status d = DS_DEPLOYING" using that assms(2,3) by (auto simp: dep_inv_def)
    moreover have "bstatus_in (svc_poll v i n st' (Some b) (tick w)) b = bstatus_in w b"
      using bstatus_same [OF svc_poll_bundle, of v i n st' "Some b" "tick w" b] by simp
    ultimately show ?thesis
      unfolding mirrors_def svc_poll_status [OF t(1)] st verdict_def Let_def by (auto split: sum.split)
  qed
  show ?thesis
    using nt fm rm pm by (auto simp: svc_refresh_def assms(1) Let_def split: option.split)
qed

lemma advance_step_mirrors:
  assumes "good w" and "find_dep w i = Some d" and "bstatus_in w b \<noteq> None"
    and "advance_step v b i d w = (Inr u, w1)"
  shows "mirrors b i w w1"
proof -
  have inv: "dep_inv d" by (rule good_find_inv [OF assms(1,2)])
  have "mirrors b i w w" by (simp add: mirrors_def)
  then show ?thesis
    using assms(4) svc_promote_mirrors [OF assms(2) _ assms(3)] svc_refresh_mirrors [OF assms(2) _ inv assms(3)]
    by (auto simp: advance_step_def split: if_splits)
qed

subsection \<open>How a pass leaves a release\<close>

definition pass_ends :: "string \<Rightarrow> string list \<Rightarrow> string list \<Rightarrow> world \<Rightarrow> world \<Rightarrow> bool" where
  "pass_ends b steps ids w w' \<longleftrightarrow>
     ((\<forall>i \<in> set ids. status_in w' i = Some DS_SUCCESS) \<and> bstatus_in w' b = Some BS_SUCCESS) \<or>
     (\<exists>earlier i later. ids = earlier @ i # later \<and>
        (\<forall>j \<in> set earlier. status_in w' j = Some DS_SUCCESS) \<and>
        ((\<exists>failed. d_id failed = i \<and> failed_on b steps w' failed) \<or>
         (status_in w' i \<in> {Some DS_PROMOTING, Some DS_DEPLOYING, Some DS_CANCELLED} \<and> mirrors b i w w')))"

lemma pass_ends_here:
  assumes "(\<exists>failed. d_id failed = i \<and> failed_on b steps w' failed) \<or>
    (status_in w' i \<in> {Some DS_PROMOTING, Some DS_DEPLOYING, Some DS_CANCELLED} \<and> mirrors b i w w')"
  shows "pass_ends b steps (i # ids) w w'"
proof -
  have "i # ids = [] @ i # ids" by simp
  with assms show ?thesis unfolding pass_ends_def by (metis empty_iff empty_set)
qed

lemma pass_ends_Cons:
  assumes "pass_ends b steps ids w1 w'" and "bstatus_in w1 b = bstatus_in w b"
    and "\<And>j. j \<in> set ids \<Longrightarrow> find_dep w1 j = find_dep w j" and "status_in w' i = Some DS_SUCCESS"
  shows "pass_ends b steps (i # ids) w w'"
  using assms(1) [unfolded pass_ends_def]
proof (elim disjE exE conjE)
  assume "\<forall>i \<in> set ids. status_in w' i = Some DS_SUCCESS" "bstatus_in w' b = Some BS_SUCCESS"
  with assms(4) show ?thesis by (simp add: pass_ends_def)
next
  fix earlier k later failed
  assume a: "ids = earlier @ k # later" "\<forall>j \<in> set earlier. status_in w' j = Some DS_SUCCESS"
    "d_id failed = k" "failed_on b steps w' failed"
  have "i # ids = (i # earlier) @ k # later" using a(1) by simp
  with a assms(4) show ?thesis unfolding pass_ends_def by (metis set_ConsD)
next
  fix earlier k later
  assume a: "ids = earlier @ k # later" "\<forall>j \<in> set earlier. status_in w' j = Some DS_SUCCESS"
    "status_in w' k \<in> {Some DS_PROMOTING, Some DS_DEPLOYING, Some DS_CANCELLED}" "mirrors b k w1 w'"
  have "i # ids = (i # earlier) @ k # later" using a(1) by simp
  moreover have "status_in w1 k = status_in w k" using a(1) assms(3) [of k] by (simp add: status_in_def)
  then have "mirrors b k w w'" using a(4) assms(2) by (auto simp: mirrors_def split: if_splits)
  ultimately show ?thesis using a assms(4) unfolding pass_ends_def by (metis set_ConsD)
qed

lemma advance_walk_ends:
  assumes "good w" and "distinct ids" and "\<forall>i \<in> set ids. find_dep w i \<noteq> None" and "find_bundle w b = Some r"
    and "advance_walk v b steps ids w = (Inr u, w')"
  shows "pass_ends b steps ids w w'"
  using assms
proof (induction ids arbitrary: w r)
  case Nil
  then have "w' = finish_success v b w" by simp
  then show ?case using Nil.prems(4) by (simp add: pass_ends_def)
next
  case (Cons i ids)
  obtain d where d: "find_dep w i = Some d" using Cons.prems(3) by auto
  obtain x w1 where x: "advance_step v b i d w = (x, w1)" by force
  then obtain u1 where x1: "advance_step v b i d w = (Inr u1, w1)"
    using Cons.prems(5) unfolding advance_walk_Cons [OF d x] by (auto split: sum.splits)
  note eff = advance_step_effect [OF Cons.prems(1) d x1]
  have go: "walk_on v b steps i ids w1 = (Inr u, w')"
    using Cons.prems(5) unfolding advance_walk_Cons [OF d x1] by simp
  have mir: "mirrors b i w w1"
    by (rule advance_step_mirrors [OF Cons.prems(1) d _ x1]) (simp add: bstatus_in_def Cons.prems(4))
  have run: "running_on b w w1" using advance_step_running [of b w v i d] x1 by simp
  then obtain r1 where r1: "find_bundle w1 b = Some r1"
    using Cons.prems(4) by (auto simp: running_on_def)
  obtain d1 where d1: "find_dep w1 i = Some d1" "d_status d1 \<noteq> DS_WAITING"
    using advance_step_not_waiting [OF d x1 Cons.prems(1)] by (auto simp: status_in_def)
  consider "d_status d1 = DS_FAILED" | "d_status d1 = DS_SUCCESS"
    | "d_status d1 \<in> {DS_PROMOTING, DS_DEPLOYING, DS_CANCELLED}"
    using d1(2) by (cases "d_status d1") auto
  then show ?case
  proof cases
    case 1
    then have "w' = fail_bundle v b d1 steps w1" using go d1 by (simp add: walk_on_def)
    moreover have "d_id d1 = i" using d1(1) by (auto simp: find_dep_def dest: find_row_Some)
    ultimately show ?thesis
      using fail_bundle_outcome [OF d1(1) 1 r1, of steps v] by (intro pass_ends_here) blast
  next
    case 2
    then have w': "advance_walk v b steps ids w1 = (Inr u, w')" using go d1 by (simp add: walk_on_def)
    have here: "\<forall>j \<in> set ids. find_dep w1 j \<noteq> None"
      using Cons.prems(3) evolves_ids [OF eff(2)] by auto
    have "moves i w w1" using advance_step_facts [OF d, of v b] Cons.prems(1) x1 by auto
    then have m: "find_dep w1 j = find_dep w j" if "j \<in> set ids" for j
      using that Cons.prems(2) by (auto simp: moves_def)
    have s: "status_in w1 i = Some DS_SUCCESS" using d1 2 by (simp add: status_in_def)
    have "distinct ids" using Cons.prems(2) by simp
    then have "pass_ends b steps ids w1 w'" by (rule Cons.IH [OF eff(4) _ here r1 w'])
    moreover have "bstatus_in w1 b = bstatus_in w b" using mir s by (simp add: mirrors_def)
    moreover have "status_in w' i = Some DS_SUCCESS"
      by (rule evolves_success [OF _ s]) (use advance_walk_facts [of w1 v b steps ids] eff(4) w' in simp)
    ultimately show ?thesis using m by (intro pass_ends_Cons)
  next
    case 3
    then have "w' = w1" using go d1 by (auto simp: walk_on_def)
    then show ?thesis using 3 d1(1) mir by (intro pass_ends_here) (auto simp: status_in_def)
  qed
qed

lemma advance_ends:
  assumes "good w" and "find_bundle w b = Some r" and "advance v b w = (Inr u, w')"
  shows "pass_ends b (ordered_steps w b) (ordered_steps w b) w w'"
  using advance_walk_ends [OF assms(1) ordered_steps_distinct [OF assms(1)] _ assms(2)] assms(3) ordered_steps_present
  unfolding advance_def by blast

end
