(* ===== verification/Deployment_Properties.thy ===== *)
theory Deployment_Properties
  imports Samples Pass_Laws
begin

section \<open>Properties of a single deployment and of the calls to Drone\<close>

text \<open>
  The diagram the entity's module opens with. It draws \<open>fail / cancel\<close> out of PROMOTING and DEPLOYING
  and nothing else into CANCELLED; an arrow of a status to itself stands for a call that stays there.
\<close>

definition diagram_arrow :: "deployment_status \<Rightarrow> deployment_status \<Rightarrow> bool" where
  "diagram_arrow s t \<longleftrightarrow> t = s \<or>
     (s, t) \<in> {(DS_WAITING, DS_PROMOTING), (DS_PROMOTING, DS_DEPLOYING), (DS_DEPLOYING, DS_SUCCESS),
               (DS_PROMOTING, DS_FAILED), (DS_DEPLOYING, DS_FAILED),
               (DS_PROMOTING, DS_CANCELLED), (DS_DEPLOYING, DS_CANCELLED),
               (DS_FAILED, DS_WAITING), (DS_CANCELLED, DS_WAITING)}"



text \<open>
  The one arrow the diagram does not draw: a step that another step's failure cancels was WAITING.
\<close>

theorem cancel_leaves_diagram:
  "\<not> diagram_arrow DS_WAITING DS_CANCELLED \<and>
   (\<forall>d. d_status d = DS_WAITING \<longrightarrow> dep_step d (dep_cancel reason at d) \<and> d_status (dep_cancel reason at d) = DS_CANCELLED)"
  using dep_step.cancelled by (auto simp: diagram_arrow_def) (simp add: dep_cancel_def)

text \<open>
  C14. The service drives the state machine. Promoting a deployment, or polling one that has been
  claimed, moves that row along the entity's arrows (never back to WAITING, never out of SUCCESS),
  leaves every other deployment as it was, and only appends to the event log.
\<close>

theorem service_drives_state_machine:
  assumes "good w" and "find_dep w i = Some d"
    and "w' = snd (svc_promote v i rel w) \<or> (w' = svc_refresh v i rel w \<and> d_status d \<noteq> DS_WAITING)"
  shows "\<exists>e. find_dep w' i = Some e \<and> row_steps d e \<and> dep_inv e \<and>
      dep_identity e = dep_identity d \<and> (\<forall>j. j \<noteq> i \<longrightarrow> find_dep w' j = find_dep w j) \<and>
      (\<exists>es. t_events (w_cur w') = t_events (w_cur w) @ es)"
proof -
  have "moves i w w'"
    using assms(3)
  proof
    assume w': "w' = snd (svc_promote v i rel w)"
    show ?thesis unfolding w' by (rule svc_promote_moves)
  next
    assume a: "w' = svc_refresh v i rel w \<and> d_status d \<noteq> DS_WAITING"
    show ?thesis
      unfolding a [THEN conjunct1]
      by (rule svc_refresh_moves) (use a assms(2) good_find_inv [OF assms(1)] in auto)
  qed
  then obtain e where "find_dep w' i = Some e" "row_steps d e"
      "\<forall>j. j \<noteq> i \<longrightarrow> find_dep w' j = find_dep w j" "\<exists>es. t_events (w_cur w') = t_events (w_cur w) @ es"
    using assms(2) unfolding moves_def by blast
  then show ?thesis
    using row_steps_frame row_steps_inv good_find_inv [OF assms(1,2)] by blast
qed

theorem service_drives_state_machine_witness:
  "let w = world_with [fresh_row backend_component ''d1'' None] [];
       w' = snd (svc_promote (sample_env HttpTimeout (ok_build 9 ''pending'' ''promote'')) ''d1'' None w)
   in \<exists>e. find_dep w' ''d1'' = Some e \<and> d_status e = DS_DEPLOYING \<and> dep_inv e"
proof -
  let ?w = "world_with [fresh_row backend_component ''d1'' None] []"
  let ?v = "sample_env HttpTimeout (ok_build 9 ''pending'' ''promote'')"
  have f: "find_dep ?w ''d1'' = Some (fresh_row backend_component ''d1'' None)" by code_simp
  have "map_option d_status (find_dep (snd (svc_promote ?v ''d1'' None ?w)) ''d1'') = Some DS_DEPLOYING"
    by code_simp
  then show ?thesis
    using service_drives_state_machine [OF sample_good(1) f disjI1 [OF refl], of ?v None]
    by (auto simp: Let_def)
qed

text \<open>
  C3. A promotion is claimed durably before anything is sent. Either nothing is written or sent, or
  the first thing that happens is a commit whose tables show the deployment PROMOTING; then come
  read-only requests, then at most one POST, then at most one commit.
\<close>

theorem promotion_claimed_before_sent:
  "w_trace (snd (svc_promote v i rel w)) = w_trace w \<or>
    (\<exists>T e gets sent rest.
       w_trace (snd (svc_promote v i rel w)) = w_trace w @ Committed T # gets @ sent @ rest \<and>
       find_row d_id i (t_deployments T) = Some e \<and> d_status e = DS_PROMOTING \<and>
       only_gets gets \<and> (sent = [] \<or> (\<exists>rq. h_method rq = POST \<and> sent = [Sent rq])) \<and>
       (rest = [] \<or> (\<exists>T'. rest = [Committed T'])))"
  by (rule svc_promote_trace)

text \<open>
  Polling never promotes: whatever its state, a refresh sends read requests only and makes
  nothing durable by itself, and promoting a deployment that is not WAITING changes and sends nothing.
\<close>

theorem polling_never_promotes:
  "posts (svc_refresh v i rel w) = posts w \<and> w_durable (svc_refresh v i rel w) = w_durable w \<and>
   (status_in w i \<noteq> Some DS_WAITING \<longrightarrow>
      w_trace (snd (svc_promote v i rel w)) = w_trace w \<and> w_cur (snd (svc_promote v i rel w)) = w_cur w)"
  using polls_posts [OF svc_refresh_polls, of v i rel w] svc_refresh_polls [of w v i rel]
    svc_promote_not_waiting [of w i v rel]
  by (auto simp: polls_def status_in_def)

theorem polling_never_promotes_witness:
  "let w = world_with [deploying_row backend_component ''d1'' None] []
   in w_trace (snd (svc_promote (sample_env HttpTimeout HttpTimeout) ''d1'' None w)) = []"
proof -
  let ?w = "world_with [deploying_row backend_component ''d1'' None] []"
  have "status_in ?w ''d1'' = Some DS_DEPLOYING" "w_trace ?w = []" by code_simp+
  then show ?thesis
    using polling_never_promotes [of "sample_env HttpTimeout HttpTimeout" "''d1''" None ?w]
    by (simp add: Let_def)
qed

text \<open>
  C5. No promotion without authority. When promoting a deployment sends a request, the deployment was
  WAITING and had just been claimed, and the request is the one for its build and target. Between the
  claim and the request only reads happen, on the tables the claim committed, and in those tables: if
  a CI request owns the deployment, that request's credential exists, is neither revoked nor expired,
  its deadline has not passed and the component still is the one it named; if an approved plan stands
  behind the deployment's release, the plan's digest, approval, status, target, build, commit and route
  all still match, and the last thing that happened before the request was sent is that Drone, asked
  for the source build over the component's own connection, reported that commit.
\<close>

theorem promotion_is_authorised:
  assumes "posts (snd (svc_promote v i rel w)) \<noteq> posts w"
  shows "\<exists>d c w1 w2 w3 cl ow rp rest. find_dep w i = Some d \<and> d_status d = DS_WAITING \<and> for_deployment w d = Inr c \<and>
    svc_claim v i rel w = (True, w1) \<and> looks w1 w2 \<and> looks w2 w3 \<and>
    drone_repo c = Inr (ow, rp) \<and> client_for v w c = Inr cl \<and>
    w_trace (snd (svc_promote v i rel w)) =
      w_trace w3 @ Sent (promote_rq cl ow rp (d_source_build_number d) (d_target d)) # rest \<and>
    (\<forall>e. find_dep w1 i = Some e \<longrightarrow>
      (\<forall>j. owning_job w1 e = Some j \<longrightarrow>
        (\<exists>k n. find_row k_id (j_service_token_id j) (t_ci_tokens (w_cur w1)) = Some k \<and>
           k_revoked_at k = None \<and> k_expires_at k > now_of v w1 \<and> j_deadline_at j > now_of v (tick w1) \<and>
           \<not> archived w1 c \<and> c_is_active c \<and> drone_connection w1 c = Inr n \<and>
           same_route c (n_id n) j \<and> override_ok c (j_target j))) \<and>
      (\<forall>r plan. d_release_bundle_id e = Some r \<and> r \<noteq> [] \<and>
          List.find (\<lambda>p. pl_release_id p = Some r) (t_plans (w_cur w1)) = Some plan \<longrightarrow>
        (\<exists>a n b. plan_action_for plan e = Some a \<and> drone_connection w1 c = Inr n \<and>
           plan_allows v w1 plan a (plan_route_of c n) e c \<and>
           validate_promotable v c (d_source_build_number e) w2 = (Inr b, w3) \<and>
           bd_commit_sha b = d_commit_sha e)))"
proof (rule svc_promote_sent_at [OF assms])
  fix d :: dep_row and c w1 w2 w3 rq rest
  let ?e = "snd (claim_for_promotion (now_of v w) d)"
  assume a: "find_dep w i = Some d" "d_status d = DS_WAITING" "for_deployment w d = Inr c"
    "svc_claim v i rel w = (True, w1)" "ci_dispatch_allowed v ?e c w1 = (Inr True, w2)"
    "looks w1 w2" "verify_planned_deployment v ?e c w2 = (Inr (), w3)" "looks w2 w3" "promotion_of v w d rq"
    "w_trace (snd (svc_promote v i rel w)) = w_trace w3 @ Sent rq # rest"
  have e: "find_dep w1 i = Some ?e" by (rule claim_find [OF a(1,4)])
  have plans: "t_plans (w_cur w2) = t_plans (w_cur w1)" using a(6) by (simp add: looks_def)
  have job: "\<exists>k n. find_row k_id (j_service_token_id j) (t_ci_tokens (w_cur w1)) = Some k \<and>
      k_revoked_at k = None \<and> k_expires_at k > now_of v w1 \<and> j_deadline_at j > now_of v (tick w1) \<and>
      \<not> archived w1 c \<and> c_is_active c \<and> drone_connection w1 c = Inr n \<and> same_route c (n_id n) j \<and> override_ok c (j_target j)"
    if "owning_job w1 ?e = Some j" for j
    by (rule ci_dispatch_granted [OF a(5) that])
  have plan: "\<exists>a n b. plan_action_for plan ?e = Some a \<and> drone_connection w1 c = Inr n \<and>
      plan_allows v w1 plan a (plan_route_of c n) ?e c \<and>
      validate_promotable v c (d_source_build_number ?e) w2 = (Inr b, w3) \<and> bd_commit_sha b = d_commit_sha ?e"
    if "d_release_bundle_id ?e = Some r" "r \<noteq> []" "List.find (\<lambda>p. pl_release_id p = Some r) (t_plans (w_cur w1)) = Some plan" for r plan
    using verify_planned_reading [OF a(7) that(1,2), unfolded plans plan_allows_cong [OF a(6)] drone_connection_cong [OF a(6)], OF that(3)] .
  obtain cl ow rp where "drone_repo c = Inr (ow, rp)" "client_for v w c = Inr cl"
      "rq = promote_rq cl ow rp (d_source_build_number d) (d_target d)"
    using a(3,9) by (auto simp: promotion_of_def)
  then show ?thesis
    using a(1-4,6,8,10) e job plan
    by (intro exI [of _ d] exI [of _ c] exI [of _ w1] exI [of _ w2] exI [of _ w3] exI [of _ cl] exI [of _ ow]
        exI [of _ rp] exI [of _ rest]) auto
qed

text \<open>A deployment that a CI request owns and whose release an approved plan stands behind.\<close>

definition authority_token :: ci_token where
  "authority_token = \<lparr>k_id = ''t1'', k_name = ''ci'', k_token_hash = ''h'', k_project_id = ''p1'', k_component_id = ''c1'',
     k_target = ''production'', k_branch = ''main'', k_created_at = 0, k_expires_at = 100, k_revoked_at = None\<rparr>"

definition authority_job :: ci_job where
  "authority_job = \<lparr>j_id = ''j1'', j_service_token_id = ''t1'', j_project_id = ''p1'', j_component_id = ''c1'',
     j_target = ''production'', j_branch = ''main'', j_source_build_number = 7, j_drone_connection_id = ''n1'',
     j_drone_owner = ''acme'', j_drone_repository = ''backend'', j_source_stages = [], j_promotion_stages = [],
     j_commit_sha = Some ''sha'', j_deployment_id = Some ''d1'', j_status = ''DEPLOYING'', j_error_code = None,
     j_created_at = 0, j_updated_at = 0, j_deadline_at = 100, j_finished_at = None, j_lease_id = None, j_lease_until = None\<rparr>"

definition authority_plan :: release_plan where
  "authority_plan = \<lparr>pl_id = ''r1'', pl_project_id = ''p1'',
     pl_snapshot = \<lparr>ps_project_id = ''p1'', ps_target_environment = ''production'', ps_target = ''production'',
       ps_actions = [\<lparr>pa_component = ''backend'', pa_from = None, pa_to = Some ''sha'', pa_from_deployment_id = None,
         pa_source_deployment_id = None, pa_build_number = Some 7, pa_commit_sha = Some ''sha'',
         pa_route = plan_route_of backend_component sample_connection\<rparr>],
       ps_checks = [], ps_requires_approval = True, ps_executable = True, ps_blockers = []\<rparr>,
     pl_digest = ''digest'', pl_status = ''executing'', pl_created_by = ''mcp'', pl_approved_by = Some ''ann'',
     pl_created_at = 0, pl_expires_at = 600, pl_approved_at = Some 1, pl_claimed_at = Some 2, pl_release_id = Some ''b1''\<rparr>"

definition authority_row :: dep_row where
  "authority_row = (fresh_row backend_component ''d1'' (Some ''b1''))\<lparr>d_requested_by := Some (requested_by_token ''t1'')\<rparr>"

definition authority_world :: world where
  "authority_world = (let T = (tables_with [authority_row] [sample_bundle BS_PENDING])
       \<lparr>t_ci_tokens := [authority_token], t_ci_jobs := [authority_job], t_plans := [authority_plan]\<rparr>
     in \<lparr>w_cur = T, w_durable = T, w_ticks = 0, w_trace = []\<rparr>)"

theorem promotion_is_authorised_witness:
  "let v = sample_env (ok_build 7 ''success'' ''push'') HttpTimeout;
       w1 = snd (svc_claim v ''d1'' (Some ''b1'') authority_world)
   in posts (snd (svc_promote v ''d1'' (Some ''b1'') authority_world)) = 1 \<and>
      k_expires_at authority_token > now_of v w1 \<and> same_route backend_component ''n1'' authority_job \<and>
      (\<exists>w2 w3 b. looks w1 w2 \<and> validate_promotable v backend_component 7 w2 = (Inr b, w3) \<and> bd_commit_sha b = ''sha'' \<and>
         (\<exists>rq rest. w_trace (snd (svc_promote v ''d1'' (Some ''b1'') authority_world)) = w_trace w3 @ Sent rq # rest))"
proof -
  let ?v = "sample_env (ok_build 7 ''success'' ''push'') HttpTimeout"
  let ?w = authority_world
  let ?w1 = "snd (svc_claim ?v ''d1'' (Some ''b1'') ?w)"
  let ?e = "snd (claim_for_promotion (now_of ?v ?w) authority_row)"
  have p: "posts (snd (svc_promote ?v ''d1'' (Some ''b1'') ?w)) = 1" by code_simp
  have "posts ?w = 0" by code_simp
  with p have sent: "posts (snd (svc_promote ?v ''d1'' (Some ''b1'') ?w)) \<noteq> posts ?w" by simp
  have f: "find_dep ?w ''d1'' = Some authority_row" by code_simp
  have c: "for_deployment ?w authority_row = Inr backend_component" by code_simp
  have e: "find_dep ?w1 ''d1'' = Some ?e" by code_simp
  have j: "owning_job ?w1 ?e = Some authority_job" by code_simp
  have k: "find_row k_id (j_service_token_id authority_job) (t_ci_tokens (w_cur ?w1)) = Some authority_token" by code_simp
  have n: "drone_connection ?w1 backend_component = Inr sample_connection" "n_id sample_connection = ''n1''" by code_simp+
  have r: "d_release_bundle_id ?e = Some ''b1''" "''b1'' \<noteq> []" "d_source_build_number ?e = 7" "d_commit_sha ?e = ''sha''"
    "List.find (\<lambda>p. pl_release_id p = Some ''b1'') (t_plans (w_cur ?w1)) = Some authority_plan"
    by code_simp+
  show ?thesis
    using promotion_is_authorised [OF sent]
  proof (elim exE conjE)
    fix d c w1 w2 w3 cl ow rp rest
    assume a: "find_dep ?w ''d1'' = Some d" "for_deployment ?w d = Inr c" "svc_claim ?v ''d1'' (Some ''b1'') ?w = (True, w1)"
      "looks w1 w2" "w_trace (snd (svc_promote ?v ''d1'' (Some ''b1'') ?w)) =
        w_trace w3 @ Sent (promote_rq cl ow rp (d_source_build_number d) (d_target d)) # rest"
      and g: "\<forall>e. find_dep w1 ''d1'' = Some e \<longrightarrow>
      (\<forall>j. owning_job w1 e = Some j \<longrightarrow>
        (\<exists>k n. find_row k_id (j_service_token_id j) (t_ci_tokens (w_cur w1)) = Some k \<and>
           k_revoked_at k = None \<and> k_expires_at k > now_of ?v w1 \<and> j_deadline_at j > now_of ?v (tick w1) \<and>
           \<not> archived w1 c \<and> c_is_active c \<and> drone_connection w1 c = Inr n \<and>
           same_route c (n_id n) j \<and> override_ok c (j_target j))) \<and>
      (\<forall>r plan. d_release_bundle_id e = Some r \<and> r \<noteq> [] \<and>
          List.find (\<lambda>p. pl_release_id p = Some r) (t_plans (w_cur w1)) = Some plan \<longrightarrow>
        (\<exists>a n b. plan_action_for plan e = Some a \<and> drone_connection w1 c = Inr n \<and>
           plan_allows ?v w1 plan a (plan_route_of c n) e c \<and>
           validate_promotable ?v c (d_source_build_number e) w2 = (Inr b, w3) \<and>
           bd_commit_sha b = d_commit_sha e))"
    have w1: "w1 = ?w1" using a(3) by simp
    have bc: "c = backend_component" using a(1,2) f c by simp
    note g' = g [unfolded w1 bc, rule_format, OF e]
    obtain k' n' where j': "find_row k_id (j_service_token_id authority_job) (t_ci_tokens (w_cur ?w1)) = Some k'"
        "k_expires_at k' > now_of ?v ?w1" "drone_connection ?w1 backend_component = Inr n'"
        "same_route backend_component (n_id n') authority_job"
      using g' [THEN conjunct1, rule_format, OF j] by (elim exE conjE)
    obtain b where b: "validate_promotable ?v backend_component (d_source_build_number ?e) w2 = (Inr b, w3)"
        "bd_commit_sha b = d_commit_sha ?e"
      using g' [THEN conjunct2, rule_format, OF conjI [OF r(1) conjI [OF r(2,5)]]] by (elim exE conjE)
    have kn: "k' = authority_token" "n' = sample_connection" using j'(1,3) k n(1) by simp_all
    show ?thesis
      unfolding Let_def
      using p j'(2,4) [unfolded kn n(2)] a(4) [unfolded w1] a(5) b [unfolded r(3,4)] by blast
  qed
qed

text \<open>
  C6. A promotion Drone never answered is kept, not repeated. When the request of a plain deployment
  (no CI request, no release) times out or the connection breaks, the deployment is durably PROMOTING
  without a promotion build and still occupies its slot, exactly one request was sent, and promoting
  it again sends nothing.
\<close>

theorem unanswered_promotion_not_repeated:
  assumes "find_dep w i = Some d" and "d_status d = DS_WAITING" and "d_release_bundle_id d = None"
    and "dep_inv d" and "for_deployment w d = Inr c" and "owning_job w d = None"
    and "drone_repo c = Inr (ow, rp)" and "client_for v w c = Inr cl"
    and "\<forall>tr. v_http v tr (promote_rq cl ow rp (d_source_build_number d) (d_target d))
      \<in> {HttpTimeout, HttpRequestError}"
  shows "let w' = snd (svc_promote v i None w)
    in (\<exists>e. find_dep w' i = Some e \<and> d_status e = DS_PROMOTING \<and> d_promotion_build_number e = None \<and>
          slot_active e \<and> promotion_slot e = promotion_slot d) \<and>
       w_durable w' = w_cur w' \<and> posts w' = Suc (posts w) \<and>
       posts (snd (svc_promote v i None w')) = posts w'"
proof -
  obtain ok w1 where cl: "svc_claim v i None w = (ok, w1)" by force
  have ok using svc_claim_refused [of v i None w] cl assms(1,2) by auto
  then have cl: "svc_claim v i None w = (True, w1)" using cl by simp
  let ?e = "snd (claim_for_promotion (now_of v w) d)"
  have e: "find_dep w1 i = Some ?e" by (rule claim_find [OF assms(1) cl])
  have fields: "d_source_build_number ?e = d_source_build_number d" "d_target ?e = d_target d"
    "d_release_bundle_id ?e = None" "d_id ?e = d_id d" "d_requested_by ?e = d_requested_by d"
    "d_promotion_build_number ?e = d_promotion_build_number d" "promotion_slot ?e = promotion_slot d"
    using assms(3) by (simp_all add: claim_for_promotion_def Let_def promotion_slot_def)
  have job: "owning_job w1 ?e = None"
    using assms(6) claim_tables(2) [OF cl] by (auto simp: owning_job_def fields split: option.splits if_splits)
  have cl1: "client_for v w1 c = Inr cl"
    using assms(8) registry_cong(1) [OF claim_tables(1) [OF cl], of c] by (simp add: client_for_def)
  obtain k m where r: "drone_promote v c (d_source_build_number d) (d_target d) w1 =
      (Inl (DroneError k m), w1\<lparr>w_trace := w_trace w1 @
         [Sent (promote_rq cl ow rp (d_source_build_number d) (d_target d))]\<rparr>)"
      "drone_error_code k \<in> set UNCONFIRMED_PROMOTE_ERROR_CODES"
    using unanswered_promotion [OF assms(7) cl1, of "d_source_build_number d" "d_target d"] assms(9) by blast
  let ?w2 = "w1\<lparr>w_trace := w_trace w1 @ [Sent (promote_rq cl ow rp (d_source_build_number d) (d_target d))]\<rparr>"
  have disp: "svc_dispatch v ?e c w1 = (Inl (DroneError k m), ?w2)"
    using r(1) by (simp add: svc_dispatch_plain [OF job] fields)
  have run: "svc_promote v i None w =
      (Inr (), commit (svc_mark_unconfirmed v i (drone_error_code k) (dep_promote_stage d) None ?w2))"
    using r(2) by (simp add: svc_promote_def assms(1,5) Let_def cl e disp svc_promote_outcome_def)
  let ?w' = "snd (svc_promote v i None w)"
  have e2: "find_dep ?w2 i = Some ?e" using e by (simp add: find_dep_def)
  have f: "find_dep ?w' i = Some (mark_promotion_unconfirmed (drone_error_code k) (now_of v ?w2) ?e)"
    using e2 by (simp add: run svc_mark_unconfirmed_def Let_def)
  have n: "d_promotion_build_number d = None" using assms(2,4) by (simp add: dep_inv_def)
  have "posts ?w' = Suc (posts w)"
    using claim_posts [OF cl] by (simp add: run posts_def svc_mark_unconfirmed_def Let_def is_post_def)
  moreover have "posts (snd (svc_promote v i None ?w')) = posts ?w'"
    using svc_promote_not_waiting [of ?w' i v None] f
    by (simp add: posts_def mark_promotion_unconfirmed_def)
  ultimately show ?thesis
    using f n fields by (simp add: Let_def mark_promotion_unconfirmed_def slot_active_def
        ACTIVE_PROMOTION_STATUSES_def promotion_slot_def run)
qed

theorem unanswered_promotion_not_repeated_witness:
  "let w = world_with [fresh_row backend_component ''d1'' None] [];
       w' = snd (svc_promote (sample_env HttpTimeout HttpTimeout) ''d1'' None w)
   in posts w' = 1 \<and> posts (snd (svc_promote (sample_env HttpTimeout HttpTimeout) ''d1'' None w')) = 1"
proof -
  let ?v = "sample_env HttpTimeout HttpTimeout"
  let ?d = "fresh_row backend_component ''d1'' None"
  let ?w = "world_with [?d] []"
  let ?cl = "\<lparr>cl_server = ''https://drone'', cl_token = ''token''\<rparr>"
  have a: "find_dep ?w ''d1'' = Some ?d" "d_status ?d = DS_WAITING" "d_release_bundle_id ?d = None"
    "dep_inv ?d" "for_deployment ?w ?d = Inr backend_component" "owning_job ?w ?d = None"
    "drone_repo backend_component = Inr (''acme'', ''backend'')"
    "client_for ?v ?w backend_component = Inr ?cl" "posts ?w = 0"
    by code_simp+
  have h: "\<forall>tr. v_http ?v tr (promote_rq ?cl ''acme'' ''backend'' (d_source_build_number ?d) (d_target ?d))
      \<in> {HttpTimeout, HttpRequestError}"
    by (simp add: sample_env_def)
  show ?thesis using unanswered_promotion_not_repeated [OF a(1-8) h] a(9) by (simp add: Let_def)
qed

text \<open>
  Only Drone's verdict or the timeout decides. The status a poll leaves on a deployment in flight
  is a function of what the poll learned; it is FAILED only when the workflow timeout has passed or
  Drone answered with a build that is neither running nor an acceptable success. An error while asking
  Drone, of whatever kind, leaves the status alone.
\<close>

theorem poll_fails_only_on_verdict:
  assumes "find_dep w i = Some d" and "d_status d \<in> {DS_PROMOTING, DS_DEPLOYING}"
  shows "status_in (svc_refresh v i rel w) i = Some (polled_status v d w) \<and>
    (status_in (svc_refresh v i rel w) i = Some DS_FAILED \<longrightarrow>
       has_timed_out d (now_of v w) (v_deployment_timeout v) \<or>
       (\<exists>n c build. d_promotion_build_number d = Some n \<and> for_deployment w d = Inr c \<and>
          fst (get_build v c n (tick w)) = Inr build \<and>
          lower (bd_status build) \<notin> {''pending'', ''running'', ''blocked''} \<and>
          (lower (bd_status build) = ''success'' \<longrightarrow> \<not> promotion_verified d build)))"
  using svc_refresh_status [OF assms, of v rel] assms(2)
  by (auto simp: polled_status_def verdict_def Let_def RUNNING_BUILD_STATUSES_def
      split: if_splits option.splits sum.splits)

theorem poll_fails_only_on_verdict_witness:
  "status_in (svc_refresh (sample_env HttpTimeout HttpTimeout) ''d1'' None
     (world_with [deploying_row backend_component ''d1'' None] [])) ''d1'' = Some DS_DEPLOYING"
proof -
  let ?w = "world_with [deploying_row backend_component ''d1'' None] []"
  let ?d = "deploying_row backend_component ''d1'' None"
  have f: "find_dep ?w ''d1'' = Some ?d" by code_simp
  have s: "d_status ?d \<in> {DS_PROMOTING, DS_DEPLOYING}" by code_simp
  have p: "polled_status (sample_env HttpTimeout HttpTimeout) ?d ?w = DS_DEPLOYING" by code_simp
  show ?thesis
    using poll_fails_only_on_verdict [OF f s, of "sample_env HttpTimeout HttpTimeout" None] p by simp
qed

end
