(* ===== verification/Bundle_Laws.thy ===== *)
theory Bundle_Laws
  imports Dispatch_Laws
begin

section \<open>Creating and retrying a release\<close>

text \<open>
  A release is created whole: nothing is written until every component has been checked, and
  nothing is promoted until all of it is durable. A retry resets what did not succeed, in place,
  and leaves the rest alone.
\<close>

subsection \<open>Creating\<close>

lemma validate_selection_components:
  "fst (validate_selection v tg ex rq sel w) = Inr bs \<Longrightarrow> map fst bs = map fst sel"
proof (induction sel arbitrary: w bs)
  case (Cons s sel)
  obtain c n where s: "s = (c, n)" by force
  obtain x w1 where x: "validate_promotable v c n w = (x, w1)" by force
  obtain y w2 where y: "validate_selection v tg ex rq sel w1 = (y, w2)" by force
  show ?case
    using Cons.prems Cons.IH [of w1] by (auto simp: s x y split: sum.splits if_splits)
qed simp

text \<open>What the flushes of a new release add to the tables, or leave behind when one is refused.\<close>

definition steps_added :: "string \<Rightarrow> (component_row \<times> drone_build) list \<Rightarrow> world \<Rightarrow> world \<Rightarrow> bool" where
  "steps_added b sel w w' \<longleftrightarrow>
     w_durable w' = w_durable w \<and> w_trace w' = w_trace w \<and> t_bundles (w_cur w') = t_bundles (w_cur w) \<and>
     (\<exists>ds. t_deployments (w_cur w') = t_deployments (w_cur w) @ ds \<and>
        map d_component_id ds = map (c_id \<circ> fst) sel \<and>
        (\<forall>d \<in> set ds. d_status d = DS_WAITING \<and> d_release_bundle_id d = Some b))"

definition given_up :: "world \<Rightarrow> world \<Rightarrow> bool" where
  "given_up w w' \<longleftrightarrow> w_durable w' = w_durable w \<and>
     (w_trace w' = w_trace w \<or> w_trace w' = w_trace w @ [RolledBack])"

lemma given_up_refl [simp]: "given_up w w"
  by (simp add: given_up_def)

lemma steps_added_refl [simp]: "steps_added b [] w w"
  by (simp add: steps_added_def)

lemma log_bundles [simp]:
  "t_bundles (w_cur (log v r dd st kd ss cd ms w)) = t_bundles (w_cur w)"
  by (simp add: log_def add_event_def)

lemma svc_create_added:
  assumes "svc_create v c bld tg (Some b) rq w = (r, w1)"
  shows "case r of Inl _ \<Rightarrow> given_up w w1 | Inr _ \<Rightarrow> steps_added b [(c, bld)] w w1"
  using assms
  by (auto simp: svc_create_def Let_def given_up_def steps_added_def insert_deployment_def
      new_deployment_def split: sum.splits if_splits)

lemma steps_added_then:
  "steps_added b sel u w \<Longrightarrow> steps_added b sel' w w' \<Longrightarrow> steps_added b (sel @ sel') u w'"
  by (auto simp: steps_added_def)

lemma steps_added_log:
  "steps_added b sel u w \<Longrightarrow> steps_added b sel u (log v r dd st kd ss cd ms w)"
  by (simp add: steps_added_def)

lemma create_steps_added:
  "create_steps v b tg rq sel w = (r, w') \<Longrightarrow>
     (case r of Inl _ \<Rightarrow> given_up w w' | Inr _ \<Rightarrow> steps_added b sel w w')"
proof (induction sel arbitrary: w)
  case Nil
  then show ?case by auto
next
  case (Cons s sel)
  obtain c bld where s: "s = (c, bld)" by force
  obtain x w1 where x: "svc_create v c bld (target_for c tg) (Some b) rq w = (x, w1)" by force
  note one = svc_create_added [OF x]
  show ?case
  proof (cases x)
    case (Inl e)
    then show ?thesis using Cons.prems one by (auto simp: s x)
  next
    case (Inr i)
    let ?st = "ws_value (validate_stage (c_key c))"
    let ?w3 = "log v (Some b) (Some i) ?st STAGE_SUCCEEDED None None None
      (log v (Some b) (Some i) ?st STAGE_STARTED None None None w1)"
    have run: "create_steps v b tg rq sel ?w3 = (r, w')"
      using Cons.prems by (simp add: s x Inr Let_def)
    have a: "steps_added b [(c, bld)] w ?w3" using one Inr by (simp add: steps_added_log)
    show ?thesis
    proof (cases r)
      case (Inl e)
      have "given_up ?w3 w'" using Cons.IH [OF run] Inl by simp
      then show ?thesis using a Inl by (auto simp: given_up_def steps_added_def)
    next
      case (Inr u)
      have "steps_added b sel ?w3 w'" using Cons.IH [OF run] Inr by simp
      then show ?thesis using steps_added_then [OF a] Inr by (simp add: s)
    qed
  qed
qed

text \<open>A release that is durable: its row and one WAITING deployment for each component chosen.\<close>

definition whole_release :: "tables \<Rightarrow> tables \<Rightarrow> (component_row \<times> int) list \<Rightarrow> string \<Rightarrow> bool" where
  "whole_release before T sel b \<longleftrightarrow> find_row b_id b (t_bundles T) \<noteq> None \<and>
     (\<exists>ds. t_deployments T = t_deployments before @ ds \<and> map d_component_id ds = map (c_id \<circ> fst) sel \<and>
        (\<forall>d \<in> set ds. d_status d = DS_WAITING \<and> d_release_bundle_id d = Some b))"

definition extends_trace :: "world \<Rightarrow> world \<Rightarrow> bool" where
  "extends_trace w w' \<longleftrightarrow> (\<exists>es. w_trace w' = w_trace w @ es)"

lemma extends_trace_refl [simp, intro]: "extends_trace w w"
  by (simp add: extends_trace_def)

lemma extends_trace_trans: "extends_trace u v \<Longrightarrow> extends_trace v w \<Longrightarrow> extends_trace u w"
  by (auto simp: extends_trace_def)

lemma extends_trace_polls: "polls w w' \<Longrightarrow> extends_trace w w'"
  by (auto simp: polls_def extends_trace_def)

lemma extends_trace_promote: "extends_trace w (snd (svc_promote v i rel w))"
  using svc_promote_trace [of v i rel w] unfolding extends_trace_def
  by (elim disjE exE conjE) auto

lemma advance_walk_extends: "extends_trace w (snd (advance_walk v b steps ids w))"
proof (induction ids arbitrary: w)
  case Nil
  then show ?case using extends_trace_polls [OF finish_success_polls] by simp
next
  case (Cons i ids)
  show ?case
  proof (cases "find_dep w i")
    case (Some d)
    obtain x w1 where x: "advance_step v b i d w = (x, w1)" by force
    have "extends_trace w (snd (advance_step v b i d w))"
      using extends_trace_promote extends_trace_polls [OF svc_refresh_polls] by (simp add: advance_step_def)
    then have e: "extends_trace w w1" using x by simp
    have "extends_trace w1 (fail_bundle v b d1 steps w1)" for d1
      by (rule extends_trace_polls [OF fail_bundle_polls])
    then have "extends_trace w1 (snd (walk_on v b steps i ids w1))"
      using Cons.IH [of w1] by (simp add: walk_on_def split: option.split)
    then show ?thesis
      unfolding advance_walk_Cons [OF Some x] using e extends_trace_trans by (auto split: sum.split)
  qed simp
qed

lemma advance_and_commit_extends: "extends_trace w (snd (advance_and_commit v b w))"
proof -
  obtain x w1 where x: "advance v b w = (x, w1)" by force
  have "extends_trace w w1" using advance_walk_extends [of w v b] x by (metis advance_def snd_conv)
  then show ?thesis by (auto simp: advance_and_commit_def x extends_trace_def split: sum.split)
qed

lemma create_bundle_whole:
  assumes "snd (create_bundle v q att given ex rq w) = w'"
  shows "(w_durable w' = w_durable w \<and> posts w' = posts w) \<or>
    (\<exists>p sel b gets T rest. lookup_project w (bq_project_id q) = Inr p \<and> selected_components w p q = Inr sel \<and>
       w_trace w' = w_trace w @ gets @ Committed T # rest \<and> only_gets gets \<and> whole_release (w_cur w) T sel b)"
proof (cases "\<exists>p sel. lookup_project w (bq_project_id q) = Inr p \<and> selected_components w p q = Inr sel")
  case False
  then show ?thesis using assms by (auto simp: create_bundle_def split: sum.splits)
next
  case True
  then obtain p sel where ps: "lookup_project w (bq_project_id q) = Inr p" "selected_components w p q = Inr sel"
    by blast
  define tg where "tg = py_or (bq_target q) (p_default_target p)"
  obtain x w1 where x: "validate_selection v tg ex rq sel w = (x, w1)" by force
  have r1: "reads w w1" using validate_selection_reads [of w v tg ex rq sel] x by simp
  show ?thesis
  proof (cases x)
    case (Inl e)
    then have "w' = w1" using assms ps x by (simp add: create_bundle_def Let_def tg_def [symmetric])
    then show ?thesis using r1 looks_posts [OF reads_looks [OF r1]] by (simp add: reads_def)
  next
    case (Inr sel')
    define b where "b = new_bundle v w1 given p tg (map (c_key \<circ> fst) sel') (bq_requested_by q) att"
    define w2 where "w2 = tick (tick (tick (tick w1)))"
    obtain y w3 where y: "create_steps v (b_id b) tg (bq_requested_by q) sel' (insert_bundle b w2) = (y, w3)"
      by force
    let ?w5 = "log v (Some (b_id b)) None (ws_value CREATE_RELEASE_BUNDLE) STAGE_SUCCEEDED
          None None None (log v (Some (b_id b)) None (ws_value CREATE_RELEASE_BUNDLE) STAGE_STARTED
            None None None w3)"
    have run: "create_bundle v q att given ex rq w =
        (if find_bundle w2 (b_id b) \<noteq> None then (Inl IntegrityError, rollback w2)
         else case y of Inl e \<Rightarrow> (Inl e, w3) | Inr _ \<Rightarrow> advance_and_commit v (b_id b) (commit ?w5))"
      unfolding create_bundle_def ps sum.case Let_def tg_def [symmetric] x prod.case Inr b_def [symmetric]
        w2_def [symmetric] y by (rule refl)
    obtain gets where g: "w_trace w1 = w_trace w @ gets" "only_gets gets" using r1 by (auto simp: reads_def)
    have ins: "w_trace (insert_bundle b w2) = w_trace w1" "w_durable (insert_bundle b w2) = w_durable w1"
      "t_deployments (w_cur (insert_bundle b w2)) = t_deployments (w_cur w1)"
      "find_row b_id (b_id b) (t_bundles (w_cur (insert_bundle b w2))) \<noteq> None"
      by (simp_all add: insert_bundle_def w2_def find_row_append split: option.split)
    have quiet: "posts w' = posts w" if "w_trace w' = w_trace w1 \<or> w_trace w' = w_trace w1 @ [RolledBack]"
      using that g by (auto simp: posts_def is_post_def only_gets_no_post)
    show ?thesis
    proof (cases "find_bundle w2 (b_id b) \<noteq> None")
      case True
      then have "w' = rollback w2" using assms run by simp
      then show ?thesis using r1 quiet by (simp add: w2_def reads_def)
    next
      case False
      show ?thesis
      proof (cases y)
        case (Inl e)
        then have "given_up (insert_bundle b w2) w3" using create_steps_added [OF y] by simp
        then show ?thesis
          using assms run False Inl quiet r1 ins by (auto simp: given_up_def reads_def)
      next
        case (Inr u)
        then have st: "steps_added (b_id b) sel' (insert_bundle b w2) w3" using create_steps_added [OF y] by simp
        have comps: "map fst sel' = map fst sel"
          using validate_selection_components [of v tg ex rq sel w sel'] x \<open>x = Inr sel'\<close> by simp
        have comps: "map (c_id \<circ> fst) sel' = map (c_id \<circ> fst) sel"
          using arg_cong [OF comps, of "map c_id"] by simp
        have w': "w' = snd (advance_and_commit v (b_id b) (commit ?w5))" using assms run False Inr by simp
        then obtain rest where "w_trace w' = w_trace (commit ?w5) @ rest"
          using advance_and_commit_extends [of "commit ?w5" v "b_id b"] by (auto simp: extends_trace_def)
        then have "w_trace w' = w_trace w @ gets @ Committed (w_cur ?w5) # rest"
          using st ins g by (simp add: steps_added_def)
        moreover have "w_cur w1 = w_cur w" using r1 by (simp add: reads_def)
        moreover have "whole_release (w_cur w1) (w_cur ?w5) sel (b_id b)"
          using st ins comps by (auto simp: whole_release_def steps_added_def)
        ultimately show ?thesis using ps g(2) by auto
      qed
    qed
  qed
qed

subsection \<open>Retrying\<close>

definition retry_allowed :: "world \<Rightarrow> bundle_row \<Rightarrow> bool" where
  "retry_allowed w r \<longleftrightarrow> retryable r \<and> b_publish_status r = PS_NOT_PUBLISHED \<and>
     retry_targets w (b_id r) \<noteq> []"

lemma svc_reset_find:
  "find_dep (svc_reset_for_retry v i rel w) j =
     (if j = i then map_option (\<lambda>d. snd (dep_reset_for_retry (now_of v w) d)) (find_dep w i) else find_dep w j)"
  by (auto simp: svc_reset_for_retry_def Let_def split: option.split)

definition reset_row :: "dep_row \<Rightarrow> dep_row \<Rightarrow> bool" where
  "reset_row d e \<longleftrightarrow> (\<exists>at. e = snd (dep_reset_for_retry at d))"

lemma reset_row_again: "reset_row d e \<Longrightarrow> reset_row d (snd (dep_reset_for_retry at e))"
  by (auto simp: reset_row_def dep_reset_for_retry_def)

lemma reset_all_find:
  "find_dep w i = Some d \<Longrightarrow>
     (\<exists>e. find_dep (reset_all v b ids w) i = Some e \<and> (if i \<in> set ids then reset_row d e else e = d))"
proof (induction ids arbitrary: w d)
  case (Cons j ids)
  show ?case
  proof (cases "j = i")
    case True
    obtain e where e: "find_dep (reset_all v b (j # ids) w) i = Some e"
      "if i \<in> set ids then reset_row (snd (dep_reset_for_retry (now_of v w) d)) e
       else e = snd (dep_reset_for_retry (now_of v w) d)"
      using Cons.IH [of "svc_reset_for_retry v j (Some b) w" "snd (dep_reset_for_retry (now_of v w) d)"]
        Cons.prems True by (auto simp: svc_reset_find)
    have "reset_row d e"
      using e(2) by (auto simp: reset_row_def dep_reset_for_retry_def split: if_splits)
    then show ?thesis using e(1) True by simp
  next
    case False
    then show ?thesis
      using Cons.IH [of "svc_reset_for_retry v j (Some b) w" d] Cons.prems by (simp add: svc_reset_find)
  qed
qed simp

lemma reset_all_bundle: "find_bundle (reset_all v b ids w) k = find_bundle w k"
proof (induction ids arbitrary: w)
  case (Cons i ids)
  show ?case unfolding reset_all.simps(2) Cons.IH
    by (simp add: svc_reset_for_retry_def Let_def split: option.split)
qed simp

lemma keeps_bid_retry [simp]: "keeps_bid (retry_bundle_fields at)"
  by (simp add: keeps_bid_def retry_bundle_fields_def)

lemma retry_targets_found:
  assumes "good w" and "d \<in> set (bundle_deployments w b)"
  shows "(d_id d \<in> set (map d_id (retry_targets w b))) \<longleftrightarrow> d_status d \<noteq> DS_SUCCESS"
proof -
  have "d = e" if "e \<in> set (bundle_deployments w b)" "d_id e = d_id d" for e
    using bundle_rows_found [OF assms(1) assms(2)] bundle_rows_found [OF assms(1) that(1)] that(2) by simp
  then show ?thesis using assms(2) by (auto simp: retry_targets_def)
qed

lemma retry_bundle_prepared:
  assumes "good w" and "find_bundle w b = Some r" and "retry_allowed w r"
  shows "\<exists>w1. retry_bundle v b w =
      (if slots_unique (t_deployments (w_cur w1)) then advance_and_commit v b (commit w1)
       else (Inl IntegrityError, rollback w1)) \<and>
    w_durable w1 = w_durable w \<and> w_trace w1 = w_trace w \<and> bstatus_in w1 b = Some BS_PENDING \<and>
    (\<forall>d \<in> set (bundle_deployments w b). \<exists>e. find_dep w1 (d_id d) = Some e \<and>
       (if d_status d = DS_SUCCESS then e = d else reset_row d e)) \<and>
    (\<forall>i d. find_dep w i = Some d \<and> d_release_bundle_id d \<noteq> Some b \<longrightarrow> find_dep w1 i = Some d)"
proof -
  have b: "b_id r = b" using assms(2) by (auto simp: find_bundle_def dest: find_row_Some)
  define wr where "wr = reset_all v b (map d_id (retry_targets w b)) (tick w)"
  define w3 where "w3 = log v (Some b) None (ws_value CREATE_RELEASE_BUNDLE) DEPLOYMENT_RETRIED
      (bundle_status_of (upd_bundle b (retry_bundle_fields (now_of v w)) wr) b) None
      (Some (msg_retrying (retry_targets w b)))
      (upd_bundle b (retry_bundle_fields (now_of v w)) wr)"
  have "retry_bundle v b w = (case try_commit w3 of (Inl e, w4) \<Rightarrow> (Inl e, w4)
      | (Inr _, w4) \<Rightarrow> advance_and_commit v b w4)"
    using assms(3) b
    by (simp add: retry_bundle_def get_bundle_def assms(2) Let_def w3_def wr_def retry_allowed_def)
  then have run: "retry_bundle v b w =
      (if slots_unique (t_deployments (w_cur w3)) then advance_and_commit v b (commit w3)
       else (Inl IntegrityError, rollback w3))"
    by (simp add: try_commit_def)
  have polls: "polls w wr"
  proof -
    have "polls u (reset_all v b ids u)" for ids u
    proof (induction ids arbitrary: u)
      case (Cons i ids)
      show ?case using polls_trans [OF polls_ops(7) Cons.IH] by simp
    qed simp
    then show ?thesis unfolding wr_def using polls_trans [OF polls_ops(9)] by blast
  qed
  have trace: "w_trace wr = w_trace w"
  proof -
    have "w_trace (reset_all v b ids u) = w_trace u" for ids u
      by (induction ids arbitrary: u)
        (simp_all add: svc_reset_for_retry_def Let_def split: option.split)
    then show ?thesis by (simp add: wr_def)
  qed
  have f: "find_dep w3 i = find_dep wr i" for i by (simp add: w3_def)
  have rows: "\<exists>e. find_dep w3 (d_id d) = Some e \<and> (if d_status d = DS_SUCCESS then e = d else reset_row d e)"
    if "d \<in> set (bundle_deployments w b)" for d
    using reset_all_find [of "tick w" "d_id d" d v b "map d_id (retry_targets w b)"]
      bundle_rows_found [OF assms(1) that] retry_targets_found [OF assms(1) that]
    by (auto simp: f wr_def split: if_splits)
  have others: "find_dep w3 i = Some d" if "find_dep w i = Some d" "d_release_bundle_id d \<noteq> Some b" for i d
  proof -
    have "i \<notin> set (map d_id (retry_targets w b))"
    proof
      assume "i \<in> set (map d_id (retry_targets w b))"
      then obtain e where "e \<in> set (bundle_deployments w b)" "d_id e = i" by (auto simp: retry_targets_def)
      then have "find_dep w i = Some e" "d_release_bundle_id e = Some b"
        using bundle_rows_found [OF assms(1)] by (auto simp: bundle_deployments_def)
      with that show False by simp
    qed
    then show ?thesis
      using reset_all_find [of "tick w" i d v b "map d_id (retry_targets w b)"] that by (auto simp: f wr_def)
  qed
  have "bstatus_in w3 b = Some BS_PENDING"
    using assms(2) by (simp add: w3_def bstatus_in_def wr_def reset_all_bundle retry_bundle_fields_def)
  then show ?thesis
    using run polls trace rows others by (intro exI [of _ w3]) (auto simp: w3_def polls_def)
qed

lemma row_steps_from_success: "row_steps d e \<Longrightarrow> d_status d = DS_SUCCESS \<Longrightarrow> e = d"
proof (induction rule: converse_rtranclp_induct)
  case (step y z)
  have "\<not> (\<exists>x. dep_step (entity_of y) x)" using step.prems success_is_final [of "entity_of y"] by simp
  then show ?case using step.hyps(1) by (auto simp: row_step_def)
qed simp

lemma evolves_success_row:
  "evolves w w' \<Longrightarrow> find_dep w i = Some d \<Longrightarrow> d_status d = DS_SUCCESS \<Longrightarrow> find_dep w' i = Some d"
  unfolding evolves_def using row_steps_from_success by blast

end
