(* ===== verification/Orchestrator_Properties.thy ===== *)
theory Orchestrator_Properties
  imports Samples Bundle_Laws Pass_Laws
begin

section \<open>Properties of promotions and releases\<close>

text \<open>
  No promotion slot is ever taken twice. Whatever sequence of requests the orchestrator serves
  (standalone promotions, refreshes, new bundles, passes, retries, roll-backs after an exception) and
  whatever Drone answers, two active deployments of the durable tables with the same connection,
  repository, source build and target are the same deployment, and every row satisfies the
  deployment's invariant.
\<close>

theorem slots_never_shared:
  assumes "orch_run v w w'" and "good w"
    and "d \<in> set (t_deployments (w_durable w'))" and "e \<in> set (t_deployments (w_durable w'))"
    and "slot_active d" and "slot_active e" and "promotion_slot d = promotion_slot e"
  shows "d = e \<and> dep_inv d"
proof -
  have g: "good_rows (t_deployments (w_durable w'))"
    using orch_run_good [OF assms(1,2)] by (simp add: good_def)
  then show ?thesis
    using assms(3-) slots_unique_iff [of "t_deployments (w_durable w')"] by (auto simp: good_rows_def)
qed

theorem slots_never_shared_witness:
  "let w = world_with [fresh_row backend_component ''d1'' None] [];
       w' = snd (refresh_standalone (sample_env HttpTimeout HttpTimeout) ''d1'' w);
       d = hd (t_deployments (w_durable w'))
   in d_status d = DS_PROMOTING \<and> d = d \<and> dep_inv d"
proof -
  let ?v = "sample_env HttpTimeout HttpTimeout"
  let ?w = "world_with [fresh_row backend_component ''d1'' None] []"
  let ?w' = "snd (refresh_standalone ?v ''d1'' ?w)"
  let ?d = "hd (t_deployments (w_durable ?w'))"
  have "orch_step ?v ?w ?w'" by (rule orch_step.refreshed)
  then have run: "orch_run ?v ?w ?w'" by (rule r_into_rtranclp)
  have m: "?d \<in> set (t_deployments (w_durable ?w'))" by code_simp
  have a: "slot_active ?d" by code_simp
  have "d_status ?d = DS_PROMOTING" by code_simp
  then show ?thesis
    unfolding Let_def using slots_never_shared [OF run sample_good(1) m m a a refl] by blast
qed

text \<open>
  C11. A pass over a release promotes in component order, one step at a time. If it sends a promotion
  request at all, it sends one: for a step that was WAITING, naming the repository of that step's
  component, its build and its target. That step is then in flight or failed, every step before it in
  the order has succeeded, and every step after it is untouched, or was WAITING and is cancelled
  because this one failed.
\<close>

theorem release_promotes_in_order:
  assumes "good w" and "w' = snd (advance v b w)"
  shows "\<exists>es. w_trace w' = w_trace w @ es \<and> (filter is_post es = [] \<or>
    (\<exists>earlier i later d c cl ow rp. ordered_steps w b = earlier @ i # later \<and>
       find_dep w i = Some d \<and> d_status d = DS_WAITING \<and>
       for_deployment w d = Inr c \<and> drone_repo c = Inr (ow, rp) \<and> client_for v w c = Inr cl \<and>
       filter is_post es = [Sent (promote_rq cl ow rp (d_source_build_number d) (d_target d))] \<and>
       status_in w' i \<in> {Some DS_PROMOTING, Some DS_DEPLOYING, Some DS_FAILED} \<and>
       (\<forall>j \<in> set earlier. status_in w' j = Some DS_SUCCESS) \<and>
       (\<forall>j \<in> set later. find_dep w' j = find_dep w j \<or>
          (status_in w' i = Some DS_FAILED \<and> status_in w j = Some DS_WAITING \<and> status_in w' j = Some DS_CANCELLED))))"
  using advance_promotes [OF assms(1), of v b, folded assms(2)]
  unfolding promotes_step_def promotion_of_def left_behind_def by blast

definition half_done :: world where
  "half_done = world_with [success_row backend_component ''d1'' (Some ''b1''),
     fresh_row frontend_component ''d2'' (Some ''b1'')] [sample_bundle BS_DEPLOYING]"

definition none_done :: world where
  "none_done = world_with [fresh_row frontend_component ''d2'' (Some ''b1''),
     fresh_row backend_component ''d1'' (Some ''b1'')] [sample_bundle BS_PENDING]"

text \<open>Two steps are WAITING, the second of the order was inserted first: the first is promoted.\<close>

theorem release_promotes_in_order_witness:
  "let w' = snd (advance (sample_env HttpTimeout HttpTimeout) ''b1'' none_done)
   in ordered_steps none_done ''b1'' = [''d1'', ''d2''] \<and> posts w' = 1 \<and>
      (\<exists>earlier i later. [''d1'', ''d2''] = earlier @ i # later \<and>
         status_in w' i \<in> {Some DS_PROMOTING, Some DS_DEPLOYING, Some DS_FAILED} \<and>
         (\<forall>j \<in> set earlier. status_in w' j = Some DS_SUCCESS)) \<and>
      status_in w' ''d1'' = Some DS_PROMOTING"
proof -
  let ?w' = "snd (advance (sample_env HttpTimeout HttpTimeout) ''b1'' none_done)"
  have g: "good none_done" by code_simp
  have o: "ordered_steps none_done ''b1'' = [''d1'', ''d2'']" by code_simp
  have p: "posts ?w' = 1" "posts none_done = 0" "status_in ?w' ''d1'' = Some DS_PROMOTING" by code_simp+
  obtain es where es: "w_trace ?w' = w_trace none_done @ es" "filter is_post es = [] \<or>
      (\<exists>earlier i later. ordered_steps none_done ''b1'' = earlier @ i # later \<and>
         status_in ?w' i \<in> {Some DS_PROMOTING, Some DS_DEPLOYING, Some DS_FAILED} \<and>
         (\<forall>j \<in> set earlier. status_in ?w' j = Some DS_SUCCESS))"
    using release_promotes_in_order [OF g refl, of "sample_env HttpTimeout HttpTimeout" "''b1''"] by blast
  have "filter is_post es \<noteq> []" using p(1,2) es(1) by (auto simp: posts_def)
  then show ?thesis using es(2) o p by (simp add: Let_def)
qed

text \<open>
  C12. How a pass that returns leaves a release: every step has succeeded and the release is SUCCESS;
  or the first step that did not succeed has failed, no step is left WAITING, and the release carries
  that step's error and is PARTIAL_FAILURE or FAILED according to whether any step succeeded; or that
  step is still in flight or was cancelled. Then the release keeps the status it had if the step kept
  its own, and otherwise it has taken over the step's: PROMOTING with a step that became PROMOTING,
  DEPLOYING with one that became DEPLOYING.
\<close>

theorem release_pass_outcome:
  assumes "good w" and "find_bundle w b = Some r" and "advance v b w = (Inr u, w')"
  defines "steps \<equiv> ordered_steps w b"
  shows "((\<forall>i \<in> set steps. status_in w' i = Some DS_SUCCESS) \<and> bstatus_in w' b = Some BS_SUCCESS) \<or>
    (\<exists>earlier i later. steps = earlier @ i # later \<and>
       (\<forall>j \<in> set earlier. status_in w' j = Some DS_SUCCESS) \<and>
       ((\<exists>failed. d_id failed = i \<and> failed_on b steps w' failed) \<or>
        (status_in w' i = status_in w i \<and> bstatus_in w' b = Some (b_status r) \<and>
         status_in w i \<in> {Some DS_PROMOTING, Some DS_DEPLOYING, Some DS_CANCELLED}) \<or>
        (status_in w' i \<noteq> status_in w i \<and>
         (status_in w' i = Some DS_PROMOTING \<and> bstatus_in w' b = Some BS_PROMOTING \<or>
          status_in w' i = Some DS_DEPLOYING \<and> bstatus_in w' b = Some BS_DEPLOYING))))"
proof -
  have br: "bstatus_in w b = Some (b_status r)" using assms(2) by (simp add: bstatus_in_def)
  have "status_in w' i = status_in w i \<and> bstatus_in w' b = Some (b_status r) \<and>
         status_in w i \<in> {Some DS_PROMOTING, Some DS_DEPLOYING, Some DS_CANCELLED} \<or>
       status_in w' i \<noteq> status_in w i \<and>
         (status_in w' i = Some DS_PROMOTING \<and> bstatus_in w' b = Some BS_PROMOTING \<or>
          status_in w' i = Some DS_DEPLOYING \<and> bstatus_in w' b = Some BS_DEPLOYING)"
    if "status_in w' i \<in> {Some DS_PROMOTING, Some DS_DEPLOYING, Some DS_CANCELLED}" "mirrors b i w w'" for i
    using that br by (auto simp: mirrors_def split: if_splits)
  then show ?thesis
    using advance_ends [OF assms(1-3)] unfolding pass_ends_def steps_def by blast
qed

theorem release_pass_outcome_witness:
  "\<exists>w'. advance (sample_env HttpTimeout HttpTimeout) ''b1'' half_done = (Inr (), w') \<and>
     status_in w' ''d2'' = Some DS_PROMOTING \<and> bstatus_in w' ''b1'' = Some BS_PROMOTING"
proof -
  let ?v = "sample_env HttpTimeout HttpTimeout"
  let ?w' = "snd (advance ?v ''b1'' half_done)"
  have g: "good half_done" unfolding half_done_def by (rule sample_good(4))
  have b: "find_bundle half_done ''b1'' = Some (sample_bundle BS_DEPLOYING)" by code_simp
  have "fst (advance ?v ''b1'' half_done) = Inr ()" by code_simp
  then have a: "advance ?v ''b1'' half_done = (Inr (), ?w')" by (metis prod.collapse)
  have o: "ordered_steps half_done ''b1'' = [''d1'', ''d2'']" by code_simp
  have s: "status_in half_done ''d2'' = Some DS_WAITING" "status_in ?w' ''d1'' = Some DS_SUCCESS"
    "status_in ?w' ''d2'' = Some DS_PROMOTING" by code_simp+
  have nf: "status_in ?w' i = Some DS_FAILED" if "failed_on ''b1'' steps ?w' failed" "d_id failed = i" for steps failed i
    using that by (auto simp: failed_on_def status_in_def)
  have split: "i \<in> {''d1'', ''d2''}" if "[''d1'', ''d2''] = earlier @ i # later" for earlier i later
    using arg_cong [OF that, of set] by auto
  have "bstatus_in ?w' ''b1'' = Some BS_PROMOTING"
    using release_pass_outcome [OF g b a, unfolded o]
  proof (elim disjE exE conjE)
    assume "\<forall>i \<in> set [''d1'', ''d2'']. status_in ?w' i = Some DS_SUCCESS"
    then show ?thesis using s(3) by simp
  next
    fix earlier i later failed
    assume f: "[''d1'', ''d2''] = earlier @ i # later" "failed_on ''b1'' [''d1'', ''d2''] ?w' failed" "d_id failed = i"
    show ?thesis using nf [OF f(2,3)] split [OF f(1)] s(2,3) by auto
  next
    fix earlier i later assume "[''d1'', ''d2''] = earlier @ i # later" "status_in ?w' i = status_in half_done i"
      "status_in half_done i \<in> {Some DS_PROMOTING, Some DS_DEPLOYING, Some DS_CANCELLED}"
    then show ?thesis using split [of earlier i later] s by auto
  next
    fix earlier i later assume "[''d1'', ''d2''] = earlier @ i # later" "status_in ?w' i = Some DS_DEPLOYING"
    then show ?thesis using split [of earlier i later] s by auto
  qed
  then show ?thesis using a s(3) by blast
qed

text \<open>
  C13. The service's loop implements the entity's rule. \<open>_advance\<close> re-reads rows while it talks to
  Drone; what it does is the action \<open>next_decision\<close> names for the steps in component order, and it
  goes on past that step exactly when the step has then succeeded.
\<close>

theorem pass_follows_next_decision:
  assumes "good w"
  shows "advance v b w =
    (let steps = ordered_steps w b
     in case next_decision (ordered_by_component w (bundle_deployments w b)) of
          Finish \<Rightarrow> (Inr (), finish_success v b w)
        | Fail d \<Rightarrow> (Inr (), fail_bundle v b d steps w)
        | Wait d \<Rightarrow> (Inr (), w)
        | Refresh d \<Rightarrow> act_then v b steps (d_id d) (Inr (), svc_refresh v (d_id d) (Some b) w)
        | Promote d \<Rightarrow> act_then v b steps (d_id d) (svc_promote v (d_id d) (Some b) w))"
  using advance_decided [OF assms] by (simp add: decided_def Let_def)

theorem pass_follows_next_decision_witness:
  "advance (sample_env HttpTimeout HttpTimeout) ''b1'' half_done =
     act_then (sample_env HttpTimeout HttpTimeout) ''b1'' [''d1'', ''d2''] ''d2''
       (svc_promote (sample_env HttpTimeout HttpTimeout) ''d2'' (Some ''b1'') half_done)"
proof -
  have g: "good half_done" unfolding half_done_def by (rule sample_good(4))
  have n: "next_decision (ordered_by_component half_done (bundle_deployments half_done ''b1'')) =
      Promote (fresh_row frontend_component ''d2'' (Some ''b1''))" by code_simp
  have s: "ordered_steps half_done ''b1'' = [''d1'', ''d2'']" by code_simp
  have i: "d_id (fresh_row frontend_component ''d2'' (Some ''b1'')) = ''d2''" by code_simp
  show ?thesis
    using pass_follows_next_decision [OF g, of "sample_env HttpTimeout HttpTimeout" "''b1''"]
    by (simp add: n s i Let_def)
qed

text \<open>
  C4. Promotion requests are paid for. Whatever polls of deployments and bundles follow each other,
  each on a session of its own that is rolled back when it raises, and whatever Drone answers, the
  number of promotion requests sent is at most the number of deployments that were WAITING.
\<close>

theorem polls_promote_each_waiting_once:
  assumes "good w" and "w_durable w = w_cur w"
  shows "posts (fold (poll_once v) ps w) \<le> posts w + waiting w"
proof -
  have "clean w" using assms(2) by (simp add: clean_def)
  moreover have "within (posts w + waiting w) w" by (rule budget.session_sync) (simp_all add: calculation)
  ultimately show ?thesis
    using budget.polls_session [OF assms(1), where B = "posts w + waiting w" and ps = ps and v = v] by (simp add: in_session_def)
qed

theorem polls_promote_each_waiting_once_witness:
  "posts (fold (poll_once (sample_env HttpTimeout HttpTimeout))
     [PollBundle ''b1'', PollBundle ''b1'', PollBundle ''b1''] half_done) \<le> 1 \<and>
   posts (poll_once (sample_env HttpTimeout HttpTimeout) (PollBundle ''b1'') half_done) = 1"
proof -
  have g: "good half_done" unfolding half_done_def by (rule sample_good(4))
  have c: "w_durable half_done = w_cur half_done" by (simp add: half_done_def world_with_def)
  have n: "posts half_done = 0" "waiting half_done = 1" by code_simp+
  have one: "posts (poll_once (sample_env HttpTimeout HttpTimeout) (PollBundle ''b1'') half_done) = 1"
    by code_simp
  show ?thesis
    using polls_promote_each_waiting_once [OF g c, of "sample_env HttpTimeout HttpTimeout"
        "[PollBundle ''b1'', PollBundle ''b1'', PollBundle ''b1'']"] one unfolding n by simp
qed

text \<open>
  The order of a release is a function of its steps: any list of the same deployments with
  distinct ids is put in the same order, in which an earlier position comes first.
\<close>

theorem release_order_deterministic:
  assumes "mset ds = mset es" and "distinct (map d_id ds)"
  shows "ordered_by_component w ds = ordered_by_component w es \<and>
    sorted (map (position_of w) (ordered_by_component w ds))"
proof -
  have "sorted (map (position_of w) (ordered_by_component w ds))"
    unfolding sorted_iff_nth_mono_less
    using ordered_by_component_position [of _ _ w ds] by auto
  then show ?thesis using ordered_by_component_unique [OF assms] by blast
qed

theorem release_order_deterministic_witness:
  "let d1 = success_row backend_component ''d1'' (Some ''b1'');
       d2 = fresh_row frontend_component ''d2'' (Some ''b1'')
   in ordered_by_component half_done [d2, d1] = [d1, d2]"
proof -
  let ?d1 = "success_row backend_component ''d1'' (Some ''b1'')"
  let ?d2 = "fresh_row frontend_component ''d2'' (Some ''b1'')"
  have d: "distinct (map d_id [?d2, ?d1])" by code_simp
  have m: "mset [?d2, ?d1] = mset [?d1, ?d2]" by simp
  have ord: "ordered_by_component half_done [?d1, ?d2] = [?d1, ?d2]" by code_simp
  show ?thesis using release_order_deterministic [OF m d, of half_done] ord by (simp add: Let_def)
qed

text \<open>
  C22. A release is created whole or not at all, and nothing is promoted before it is durable. Either
  nothing became durable and no promotion was sent, or after read-only requests the tables were
  committed with the release and one WAITING deployment for each selected component, in order, before
  anything else happened.
\<close>

theorem release_created_whole:
  "(w_durable (snd (create_bundle v q att given ex rq w)) = w_durable w \<and>
    posts (snd (create_bundle v q att given ex rq w)) = posts w) \<or>
   (\<exists>p sel b ds gets T rest. lookup_project w (bq_project_id q) = Inr p \<and> selected_components w p q = Inr sel \<and>
      w_trace (snd (create_bundle v q att given ex rq w)) = w_trace w @ gets @ Committed T # rest \<and>
      only_gets gets \<and> find_row b_id b (t_bundles T) \<noteq> None \<and>
      t_deployments T = t_deployments (w_cur w) @ ds \<and> map d_component_id ds = map (c_id \<circ> fst) sel \<and>
      list_all (\<lambda>d. d_status d = DS_WAITING \<and> d_release_bundle_id d = Some b) ds)"
  using create_bundle_whole [OF refl, of v q att given ex rq w]
  unfolding whole_release_def list_all_iff by blast




end
