(* ===== verification/Registry_Project_Laws.thy ===== *)
theory Registry_Project_Laws
  imports Registry_Project
begin

section \<open>Projects: the aggregate's invariant and the slot rule\<close>

text \<open>
  The invariant every save of a project writes: ids and keys are unique, positions are
  1..n in list order, every component carries the project's present defaults, and a
  publishing component names its Gitea repository. Each operation of the aggregate keeps it;
  \<open>assert_no_slot_conflict\<close> passes exactly when the active components promote into
  pairwise different slots.
\<close>

subsection \<open>Renumbering and inheriting\<close>

lemma set_position_simps [simp]:
  "c_id (set_position n c) = c_id c" "c_key (set_position n c) = c_key c"
  "c_position (set_position n c) = n" "c_is_active (set_position n c) = c_is_active c"
  "inherits p (set_position n c) = set_position n (inherits p c)"
  by (simp_all add: set_position_def inherits_def inherit_from_project_def)

lemma inherits_simps [simp]:
  "c_id (inherits p c) = c_id c" "c_key (inherits p c) = c_key c"
  "c_position (inherits p c) = c_position c" "c_is_active (inherits p c) = c_is_active c"
  "assert_publishable (inherits p c) = assert_publishable c"
  "assert_publishable (set_position n c) = assert_publishable c"
  "inherits p (inherits q c) = inherits p c"
  by (simp_all add: inherits_def inherit_from_project_def assert_publishable_def set_position_def)

lemma length_renumber_from [simp]: "length (renumber_from n cs) = length cs"
  by (induction cs arbitrary: n) auto

lemma positions_renumber_from:
  "map c_position (renumber_from n cs) = map (\<lambda>i. n + int i) [0..<length cs]"
proof (induction cs arbitrary: n)
  case Nil
  then show ?case by simp
next
  case (Cons c cs)
  have "map (\<lambda>i. n + int i) [0..<length (c # cs)] =
      n # map (\<lambda>i. n + int i) (map Suc [0..<length cs])"
    by (simp add: upt_conv_Cons map_Suc_upt del: upt_Suc)
  then show ?case by (simp add: Cons.IH add.assoc o_def)
qed

lemma map_renumber_from:
  assumes "\<And>m c. f (set_position m c) = f c"
  shows "map f (renumber_from n cs) = map f cs"
  using assms by (induction cs arbitrary: n) auto

lemma list_all_renumber_from:
  assumes "\<And>m c. P (set_position m c) = P c"
  shows "list_all P (renumber_from n cs) = list_all P cs"
  using assms by (induction cs arbitrary: n) auto

subsection \<open>The invariant\<close>

definition project_inv :: "project \<Rightarrow> bool" where
  "project_inv p \<longleftrightarrow>
     distinct (map c_id (p_components p)) \<and>
     distinct (map c_key (p_components p)) \<and>
     map c_position (p_components p) = map (\<lambda>i. 1 + int i) [0..<length (p_components p)] \<and>
     list_all (\<lambda>c. inherits p c = c) (p_components p) \<and>
     list_all (\<lambda>c. assert_publishable c = Inr ()) (p_components p)"

lemma set_position_inherits_iff:
  "inherits p (set_position n c) = set_position n c \<longleftrightarrow> inherits p c = c"
  by (cases c) (auto simp: inherits_def inherit_from_project_def set_position_def)

text \<open>Any renumbered list of the right components satisfies the invariant.\<close>

lemma project_inv_renumber:
  assumes "distinct (map c_id cs)" "distinct (map c_key cs)"
    and "list_all (\<lambda>c. inherits p c = c) cs" "list_all (\<lambda>c. assert_publishable c = Inr ()) cs"
  shows "project_inv (p\<lparr>p_components := renumber cs\<rparr>)"
proof -
  have inh: "inherits (p\<lparr>p_components := x\<rparr>) = inherits p" for x
    by (rule ext) (simp add: inherits_def)
  show ?thesis
    using assms
    by (simp add: project_inv_def renumber_def positions_renumber_from map_renumber_from inh
      list_all_renumber_from set_position_inherits_iff del: inherits_simps(7) set_position_simps(5))
qed

lemma project_inv_create: "project_inv (project_create i k n t at ds dc gc)"
  by (simp add: project_inv_def project_create_def project_init_def project_row.defs project.defs)

lemma set_list_insert [simp]: "set (list_insert i x xs) = insert x (set xs)"
  using set_append [of "take i xs" "drop i xs"] by (auto simp: list_insert_def)

lemma map_list_insert: "map f (list_insert i x xs) = list_insert i (f x) (map f xs)"
  by (simp add: list_insert_def take_map drop_map)

lemma distinct_list_insert: "distinct (list_insert i x xs) \<longleftrightarrow> x \<notin> set xs \<and> distinct xs"
proof -
  have "mset (take i xs @ drop i xs) = mset xs" by simp
  then have "mset (list_insert i x xs) = mset (x # xs)"
    unfolding list_insert_def mset_append mset.simps by simp
  then have "distinct (list_insert i x xs) = distinct (x # xs)"
    by (rule mset_eq_imp_distinct_iff)
  then show ?thesis by simp
qed

lemma list_all_list_insert: "list_all P (list_insert i x xs) \<longleftrightarrow> P x \<and> list_all P xs"
  by (auto simp: list_all_iff)

lemma project_inv_add:
  assumes inv: "project_inv p" and fresh: "c_id c \<notin> set (map c_id (p_components p))"
    and pub: "assert_publishable c = Inr ()" and add: "add_component c pos p = Inr q"
  shows "project_inv q"
proof -
  from add have new: "c_key c \<notin> set (map c_key (p_components p))"
    and q: "\<exists>i. q = p\<lparr>p_components := renumber (list_insert i (inherits p c) (p_components p))\<rparr>"
    by (auto simp: add_component_def Let_def split: if_splits)
  from q obtain i where
    q': "q = p\<lparr>p_components := renumber (list_insert i (inherits p c) (p_components p))\<rparr>" by blast
  show ?thesis
    unfolding q'
  proof (rule project_inv_renumber)
    show "distinct (map c_id (list_insert i (inherits p c) (p_components p)))"
      using inv fresh by (simp add: map_list_insert distinct_list_insert project_inv_def)
    show "distinct (map c_key (list_insert i (inherits p c) (p_components p)))"
      using inv new by (simp add: map_list_insert distinct_list_insert project_inv_def)
    show "list_all (\<lambda>c. inherits p c = c) (list_insert i (inherits p c) (p_components p))"
      using inv by (simp add: list_all_list_insert project_inv_def)
    show "list_all (\<lambda>c. assert_publishable c = Inr ()) (list_insert i (inherits p c) (p_components p))"
      using inv pub by (simp add: list_all_list_insert project_inv_def)
  qed
qed

lemma distinct_map_filter': "distinct (map f xs) \<Longrightarrow> distinct (map f (filter P xs))"
  by (rule distinct_map_filter)

lemma project_inv_remove: "project_inv p \<Longrightarrow> project_inv (remove_component c p)"
  unfolding remove_component_def
  by (rule project_inv_renumber) (auto simp: project_inv_def distinct_map_filter list_all_iff)

subsection \<open>Reordering\<close>

lemma by_id_component:
  assumes "distinct (map c_id (p_components p))" and "c \<in> set (p_components p)"
  shows "by_id p (c_id c) = Some c"
proof -
  have "keyed c_id (rev (p_components p))"
    using assms(1) by (simp add: keyed_def flip: rev_map)
  then show ?thesis
    unfolding by_id_def using assms(2) by (intro find_row_keyed) auto
qed

lemma reorder_iff:
  assumes "distinct (map c_id (p_components p))"
  shows "(\<exists>q. reorder ids p = Inr q) \<longleftrightarrow> mset ids = mset (map c_id (p_components p))"
proof
  assume "\<exists>q. reorder ids p = Inr q"
  then have sets: "set ids = set (map c_id (p_components p))"
    and len: "length ids = length (map c_id (p_components p))"
    using assms by (auto simp: reorder_def Let_def distinct_remdups_id split: if_splits)
  have "card (set ids) = length ids"
    unfolding sets len using assms by (rule distinct_card)
  then have "distinct ids" by (rule card_distinct)
  with sets assms show "mset ids = mset (map c_id (p_components p))"
    using set_eq_iff_mset_eq_distinct by blast
next
  assume m: "mset ids = mset (map c_id (p_components p))"
  have "set ids = set (map c_id (p_components p))" by (rule mset_eq_setD [OF m])
  moreover have "length ids = length (map c_id (p_components p))" by (rule mset_eq_length [OF m])
  ultimately show "\<exists>q. reorder ids p = Inr q"
    using assms by (auto simp: reorder_def Let_def distinct_remdups_id)
qed

lemma reorder_components:
  assumes dist: "distinct (map c_id (p_components p))" and ok: "reorder ids p = Inr q"
  shows "q = p\<lparr>p_components := renumber (map (\<lambda>i. the (by_id p i)) ids)\<rparr>"
    and "map c_id (map (\<lambda>i. the (by_id p i)) ids) = ids"
    and "mset (map (\<lambda>i. the (by_id p i)) ids) = mset (p_components p)"
proof -
  show "q = p\<lparr>p_components := renumber (map (\<lambda>i. the (by_id p i)) ids)\<rparr>"
    using ok by (auto simp: reorder_def Let_def split: if_splits)
  have m: "mset ids = mset (map c_id (p_components p))"
    using reorder_iff [OF dist] ok by blast
  have lookup: "\<And>c. c \<in> set (p_components p) \<Longrightarrow> the (by_id p (c_id c)) = c"
    using by_id_component [OF dist] by simp
  have "set ids = c_id ` set (p_components p)" using mset_eq_setD [OF m] by simp
  then show "map c_id (map (\<lambda>i. the (by_id p i)) ids) = ids"
    by (intro nth_equalityI) (auto simp: lookup dest!: nth_mem)
  have "image_mset (\<lambda>i. the (by_id p i)) (mset ids) = image_mset (\<lambda>c. the (by_id p (c_id c))) (mset (p_components p))"
    unfolding m by (simp add: image_mset.compositionality o_def)
  also have "\<dots> = image_mset (\<lambda>c. c) (mset (p_components p))"
    by (rule image_mset_cong) (simp add: lookup)
  finally show "mset (map (\<lambda>i. the (by_id p i)) ids) = mset (p_components p)" by simp
qed

lemma project_inv_reorder:
  assumes inv: "project_inv p" and ok: "reorder ids p = Inr q"
  shows "project_inv q"
proof -
  have dist: "distinct (map c_id (p_components p))" using inv by (simp add: project_inv_def)
  note r = reorder_components [OF dist ok]
  let ?cs = "map (\<lambda>i. the (by_id p i)) ids"
  have s: "set ?cs = set (p_components p)" by (rule mset_eq_setD [OF r(3)])
  have dm: "distinct (map f ?cs) = distinct (map f (p_components p))" for f :: "component \<Rightarrow> string"
    by (rule mset_eq_imp_distinct_iff) (metis mset_map r(3))
  show ?thesis
    unfolding r(1)
    by (rule project_inv_renumber)
      (use inv s in \<open>simp_all add: dm project_inv_def list_all_iff del: map_map set_map\<close>)
qed

subsection \<open>PATCH of the project and of a component\<close>

lemma project_inv_apply_update: "project_inv p \<Longrightarrow> project_inv (project_apply_update at u p)"
proof -
  assume inv: "project_inv p"
  let ?q = "project_apply_update at u p"
  obtain t d g where cs: "p_components ?q = map (inherit_from_project t d g) (p_components p)"
    and fields: "p_default_target ?q = t" "p_drone_connection_id ?q = d" "p_gitea_connection_id ?q = g"
    by (simp add: project_apply_update_def Let_def inherits_def)
  have simps: "c_id (inherit_from_project t d g c) = c_id c" "c_key (inherit_from_project t d g c) = c_key c"
    "c_position (inherit_from_project t d g c) = c_position c"
    "assert_publishable (inherit_from_project t d g c) = assert_publishable c"
    "inherits ?q (inherit_from_project t d g c) = inherit_from_project t d g c" for c
    by (simp_all add: inherits_def fields inherit_from_project_def assert_publishable_def)
  show "project_inv ?q"
    using inv by (simp add: project_inv_def cs simps o_def list_all_iff)
qed

lemma project_inv_set_archived: "project_inv p \<Longrightarrow> project_inv (set_archived a at p)"
  by (simp add: project_inv_def set_archived_def inherits_def)

lemma component_apply_update_frame:
  assumes "component_apply_update at u c = Inr c'"
  shows "c_id c' = c_id c" "c_key c' = c_key c" "c_position c' = c_position c"
    "c_project_id c' = c_project_id c" "inherits p c' = c' \<longleftrightarrow> inherits p c = c"
    "assert_publishable c' = Inr ()"
proof -
  obtain v where v: "assert_publishable v = Inr ()" "c' = v\<lparr>c_updated_at := at\<rparr>"
    "c_id v = c_id c" "c_key v = c_key c" "c_position v = c_position c" "c_project_id v = c_project_id c"
    "c_project_default_target v = c_project_default_target c"
    "c_project_drone_connection_id v = c_project_drone_connection_id c"
    "c_project_gitea_connection_id v = c_project_gitea_connection_id c"
    using assms by (auto simp: component_apply_update_def Let_def split: sum.splits)
  then show "c_id c' = c_id c" "c_key c' = c_key c" "c_position c' = c_position c"
    "c_project_id c' = c_project_id c" by simp_all
  show "inherits p c' = c' \<longleftrightarrow> inherits p c = c"
    unfolding v(2) inherits_def inherit_from_project_def
    using v(7,8,9) by (cases c; cases v) auto
  show "assert_publishable c' = Inr ()"
    using v(1) by (simp add: v(2) assert_publishable_def split: if_splits)
qed

subsection \<open>Slot conflicts\<close>

definition active_slots :: "(string \<rightharpoonup> string) \<Rightarrow> component list \<Rightarrow> slot_key list" where
  "active_slots ids cs = map (component_slot ids) (filter c_is_active cs)"

definition group_size :: "'k \<Rightarrow> ('k \<times> 'v list) list \<Rightarrow> nat" where
  "group_size k g = (case map_of g k of None \<Rightarrow> 0 | Some vs \<Rightarrow> length vs)"

lemma group_add_keys: "fst ` set (group_add k v g) = insert k (fst ` set g)"
  by (induction g rule: group_add.induct) auto

lemma group_add_distinct: "distinct (map fst g) \<Longrightarrow> distinct (map fst (group_add k v g))"
  by (induction k v g rule: group_add.induct) (auto simp: group_add_keys)

lemma group_add_size: "group_size j (group_add k v g) = group_size j g + (if j = k then 1 else 0)"
  by (induction k v g rule: group_add.induct) (auto simp: group_size_def)

lemma group_slots_distinct: "distinct (map fst g) \<Longrightarrow> distinct (map fst (group_slots ids cs g))"
  by (induction ids cs g rule: group_slots.induct) (auto simp: group_add_distinct)

lemma group_slots_size:
  "group_size k (group_slots ids cs g) = group_size k g + count_list (active_slots ids cs) k"
  by (induction ids cs g rule: group_slots.induct) (auto simp: active_slots_def group_add_size)

lemma groups_small_iff:
  assumes "distinct (map fst g)"
  shows "filter (\<lambda>(_, vs). length vs > 1) g = [] \<longleftrightarrow> (\<forall>k. group_size k g \<le> 1)"
proof
  assume small: "filter (\<lambda>(_, vs). length vs > 1) g = []"
  show "\<forall>k. group_size k g \<le> 1"
  proof
    fix k
    show "group_size k g \<le> 1"
    proof (cases "map_of g k")
      case (Some vs)
      then have "(k, vs) \<in> set g" by (rule map_of_SomeD)
      with small have "\<not> length vs > 1" by (auto simp: filter_empty_conv)
      with Some show ?thesis by (simp add: group_size_def)
    qed (simp add: group_size_def)
  qed
next
  assume small: "\<forall>k. group_size k g \<le> 1"
  have "length vs \<le> 1" if "(k, vs) \<in> set g" for k vs
    using small that assms map_of_is_SomeI [OF assms that] by (auto simp: group_size_def dest: spec [of _ k])
  then show "filter (\<lambda>(_, vs). length vs > 1) g = []"
    by (fastforce simp: filter_empty_conv)
qed

lemma distinct_count_list: "distinct xs \<longleftrightarrow> (\<forall>x. count_list xs x \<le> 1)"
proof
  assume "distinct xs"
  then show "\<forall>x. count_list xs x \<le> 1" by (induction xs) (auto simp: count_list_0_iff)
next
  assume "\<forall>x. count_list xs x \<le> 1"
  then show "distinct xs"
  proof (induction xs)
    case (Cons a xs)
    from Cons.prems have "count_list (a # xs) a \<le> 1" by blast
    then have "a \<notin> set xs" by (simp add: count_list_0_iff)
    moreover have "\<forall>x. count_list xs x \<le> 1"
    proof
      fix x
      show "count_list xs x \<le> 1" using spec [OF Cons.prems, of x] by (simp split: if_splits)
    qed
    ultimately show ?case using Cons.IH by simp
  qed simp
qed

lemma slot_conflicts_Nil_iff:
  "slot_conflicts ids p = [] \<longleftrightarrow> distinct (active_slots ids (p_components p))"
proof -
  have d: "distinct (map fst (group_slots ids (p_components p) []))"
    by (rule group_slots_distinct) simp
  have "slot_conflicts ids p = [] \<longleftrightarrow>
      (\<forall>k. group_size k (group_slots ids (p_components p) []) \<le> 1)"
    using groups_small_iff [OF d] by (simp add: slot_conflicts_def)
  also have "\<dots> \<longleftrightarrow> (\<forall>k. count_list (active_slots ids (p_components p)) k \<le> 1)"
    by (simp add: group_slots_size) (simp add: group_size_def)
  also have "\<dots> \<longleftrightarrow> distinct (active_slots ids (p_components p))"
    by (simp add: distinct_count_list)
  finally show ?thesis .
qed

lemma assert_no_slot_conflict_iff:
  "assert_no_slot_conflict ids p = Inr () \<longleftrightarrow> distinct (active_slots ids (p_components p))"
  by (cases "slot_conflicts ids p") (auto simp: assert_no_slot_conflict_def simp flip: slot_conflicts_Nil_iff)

text \<open>Only the set of slots counts: reordering cannot create a conflict.\<close>

lemma component_slot_set_position [simp]: "component_slot ids (set_position n c) = component_slot ids c"
  by (simp add: component_slot_def slot_key_def effective_target_def set_position_def)

lemma active_slots_renumber: "active_slots ids (renumber cs) = active_slots ids cs"
proof -
  have "active_slots ids (renumber_from n cs) = active_slots ids cs" for n
    by (induction cs arbitrary: n) (auto simp: active_slots_def)
  then show ?thesis by (simp add: renumber_def)
qed

lemma active_slots_mset:
  assumes "mset cs = mset ds"
  shows "distinct (active_slots ids cs) = distinct (active_slots ids ds)"
proof (rule mset_eq_imp_distinct_iff)
  show "mset (active_slots ids cs) = mset (active_slots ids ds)"
    unfolding active_slots_def mset_map mset_filter assms ..
qed

lemma reorder_keeps_slots:
  assumes "distinct (map c_id (p_components p))" and "reorder order p = Inr q"
  shows "assert_no_slot_conflict ids q = Inr () \<longleftrightarrow> assert_no_slot_conflict ids p = Inr ()"
proof -
  let ?cs = "map (\<lambda>i. the (by_id p i)) order"
  have "distinct (active_slots ids ?cs) = distinct (active_slots ids (p_components p))"
    by (rule active_slots_mset [OF reorder_components(3) [OF assms]])
  then show ?thesis
    unfolding assert_no_slot_conflict_iff reorder_components(1) [OF assms]
    by (simp add: active_slots_renumber)
qed

lemma remove_keeps_slots:
  assumes "assert_no_slot_conflict ids p = Inr ()"
  shows "assert_no_slot_conflict ids (remove_component c p) = Inr ()"
proof -
  have "distinct (active_slots ids (filter (\<lambda>e. c_id e \<noteq> c_id c) (p_components p)))"
    using assms distinct_map_filter [of "component_slot ids" "filter c_is_active (p_components p)"
        "\<lambda>e. c_id e \<noteq> c_id c"]
    by (simp add: assert_no_slot_conflict_iff active_slots_def conj_commute)
  then show ?thesis
    by (simp add: assert_no_slot_conflict_iff remove_component_def active_slots_renumber)
qed

end
