(* ===== verification/Registry_Properties.thy ===== *)
theory Registry_Properties
  imports Samples Registry_Project_Laws
begin

section \<open>Properties of the registry and of the Drone client\<close>

definition sample_entity :: "string \<Rightarrow> string \<Rightarrow> string option \<Rightarrow> component" where
  "sample_entity i key override =
     component_row.extend ((sample_component i key 1)\<lparr>c_promote_target_override := override, c_drone_repo := ''app''\<rparr>)
       (component.fields ''production'' None None)"

definition two_components :: project where
  "two_components = project_init sample_project
     [(sample_entity ''c1'' ''backend'' None)\<lparr>c_position := 1\<rparr>,
      (sample_entity ''c2'' ''worker'' (Some ''staging''))\<lparr>c_position := 2\<rparr>]"

text \<open>
  Every operation of the project aggregate keeps its invariant: ids and keys are unique, positions
  are 1 to n in list order, every component carries the project's present defaults, and a component
  that publishes names its Gitea repository.
\<close>

theorem project_operations_keep_invariant:
  assumes "project_inv p"
  shows "project_inv (project_apply_update at u p) \<and> project_inv (set_archived a at p) \<and>
    project_inv (remove_component c p) \<and>
    (\<forall>q. reorder ids p = Inr q \<longrightarrow> project_inv q) \<and>
    (\<forall>q. c_id c \<notin> set (map c_id (p_components p)) \<and> assert_publishable c = Inr () \<and>
      add_component c pos p = Inr q \<longrightarrow> project_inv q)"
  using project_inv_apply_update [OF assms] project_inv_set_archived [OF assms]
    project_inv_remove [OF assms] project_inv_reorder [OF assms] project_inv_add [OF assms] by blast

theorem project_operations_keep_invariant_witness:
  "project_inv (set_archived True 9 two_components) \<and>
   (\<exists>q. reorder [''c2'', ''c1''] two_components = Inr q \<and> project_inv q) \<and>
   (\<exists>q. add_component (sample_entity ''c3'' ''web'' (Some ''edge'')) (Some 1) two_components = Inr q \<and>
      project_inv q)"
proof -
  have i: "project_inv two_components" by code_simp
  have f: "c_id (sample_entity ''c3'' ''web'' (Some ''edge'')) \<notin> set (map c_id (p_components two_components))"
    "assert_publishable (sample_entity ''c3'' ''web'' (Some ''edge'')) = Inr ()" by code_simp+
  have r: "isl (reorder [''c2'', ''c1''] two_components) = False" by code_simp
  have a: "isl (add_component (sample_entity ''c3'' ''web'' (Some ''edge'')) (Some 1) two_components) = False"
    by code_simp
  obtain q where q: "reorder [''c2'', ''c1''] two_components = Inr q"
    using r by (cases "reorder [''c2'', ''c1''] two_components") auto
  obtain q' where q': "add_component (sample_entity ''c3'' ''web'' (Some ''edge'')) (Some 1) two_components = Inr q'"
    using a by (cases "add_component (sample_entity ''c3'' ''web'' (Some ''edge'')) (Some 1) two_components") auto
  show ?thesis
    using project_operations_keep_invariant [OF i] f q q' by blast
qed

text \<open>
  C21. \<open>assert_no_slot_conflict\<close> is exact: grouping components by slot and reporting every group of
  more than one accepts a project iff its active components promote into pairwise different slots
  (resolved connection, repository without regard to case, effective target).
\<close>

theorem slot_conflict_check_exact:
  "assert_no_slot_conflict ids p = Inr () \<longleftrightarrow>
     distinct (map (component_slot ids) (filter c_is_active (p_components p)))"
  using assert_no_slot_conflict_iff [of ids p] by (simp add: active_slots_def)

text \<open>
  Reordering a project succeeds exactly for a permutation of its component ids; the components
  are then in the order asked for, numbered from 1, none is added, lost or changed otherwise, and
  whether the project has a slot conflict does not change.
\<close>

theorem reorder_exact:
  assumes "project_inv p"
  shows "((\<exists>q. reorder order p = Inr q) \<longleftrightarrow> mset order = mset (map c_id (p_components p))) \<and>
    (\<forall>q. reorder order p = Inr q \<longrightarrow> map c_id (p_components q) = order \<and>
      map c_position (p_components q) = map (\<lambda>i. 1 + int i) [0..<length order] \<and>
      p_components q = renumber (map (\<lambda>i. the (by_id p i)) order) \<and>
      mset (map (\<lambda>i. the (by_id p i)) order) = mset (p_components p) \<and>
      (assert_no_slot_conflict ids q = Inr () \<longleftrightarrow> assert_no_slot_conflict ids p = Inr ()))"
proof (intro conjI allI impI)
  have dist: "distinct (map c_id (p_components p))" using assms by (simp add: project_inv_def)
  show "(\<exists>q. reorder order p = Inr q) \<longleftrightarrow> mset order = mset (map c_id (p_components p))"
    by (rule reorder_iff [OF dist])
next
  fix q assume ok: "reorder order p = Inr q"
  have dist: "distinct (map c_id (p_components p))" using assms by (simp add: project_inv_def)
  note r = reorder_components [OF dist ok]
  show "map c_id (p_components q) = order"
    using r(2) by (simp add: r(1) renumber_def map_renumber_from)
  show "map c_position (p_components q) = map (\<lambda>i. 1 + int i) [0..<length order]"
    by (simp add: r(1) renumber_def positions_renumber_from)
  show "p_components q = renumber (map (\<lambda>i. the (by_id p i)) order)" using r(1) by simp
  show "mset (map (\<lambda>i. the (by_id p i)) order) = mset (p_components p)" by (rule r(3))
  show "assert_no_slot_conflict ids q = Inr () \<longleftrightarrow> assert_no_slot_conflict ids p = Inr ()"
    by (rule reorder_keeps_slots [OF dist ok])
qed

theorem reorder_exact_witness:
  "(\<exists>q. reorder [''c2'', ''c1''] two_components = Inr q \<and> map c_id (p_components q) = [''c2'', ''c1''] \<and>
      map c_position (p_components q) = [1, 2]) \<and>
   \<not> (\<exists>q. reorder [''c2''] two_components = Inr q)"
proof -
  have i: "project_inv two_components" by code_simp
  have m: "mset [''c2'', ''c1''] = mset (map c_id (p_components two_components))"
    "size (mset [''c2'']) \<noteq> size (mset (map c_id (p_components two_components)))" by code_simp+
  obtain q where q: "reorder [''c2'', ''c1''] two_components = Inr q"
    using reorder_exact [OF i, of "[''c2'', ''c1'']"] m(1) by blast
  have "\<not> (\<exists>q. reorder [''c2''] two_components = Inr q)"
    using reorder_exact [OF i, of "[''c2'']"] m(2) by metis
  moreover have n: "map (\<lambda>i. 1 + int i) [0..<length [''c2'', ''c1'']] = [1, 2]" by code_simp
  moreover note r = reorder_exact [OF i, where order = "[''c2'', ''c1'']", THEN conjunct2, rule_format, OF q]
  note r [THEN conjunct1] and trans [OF r [THEN conjunct2, THEN conjunct1] n]
  ultimately show ?thesis using q by (intro conjI exI [of _ q])
qed

text \<open>
  Which connection a component uses: its own if it names one, else its project's if that names
  one, else the default of the kind. A name that is set decides alone; when it dangles the answer is
  an error, never the next candidate.
\<close>

theorem connection_inheritance:
  "drone_connection w c =
     (let own = c_drone_connection_id c; inherited = project_connection_id w c CK_DRONE
      in if py_truthy own then
           (case find_connection w (the own) of None \<Rightarrow> Inl (ConnectionNotFoundError '''') | Some n \<Rightarrow> Inr n)
         else if py_truthy inherited then
           (case find_connection w (the inherited) of None \<Rightarrow> Inl (ConnectionNotFoundError '''') | Some n \<Rightarrow> Inr n)
         else resolve_default w CK_DRONE)"
  by (simp add: drone_connection_def Let_def)



text \<open>
  Adopting a promotion: the build chosen is a promotion of the deployment's source build to its
  target that Drone listed, and no listed one has a higher number; none is chosen only when Drone
  listed none.
\<close>

theorem adopted_promotion_is_latest:
  "case pick_promotion n tg builds of
     None \<Rightarrow> \<forall>b \<in> set builds. \<not> is_promotion_of n tg b
   | Some b \<Rightarrow> b \<in> set builds \<and> is_promotion_of n tg b \<and>
       (\<forall>c \<in> set builds. is_promotion_of n tg c \<longrightarrow> bd_number c \<le> bd_number b)"
  using pick_promotion_spec [of n tg builds] pick_promotion_None [of n tg builds]
  by (auto split: option.split)

theorem adopted_promotion_is_latest_witness:
  "let p = \<lambda>k. (sample_build k)\<lparr>bd_event := ''promote'', bd_parent := Some 7, bd_target := Some ''production''\<rparr>
   in bd_number (p 8) \<le> bd_number (p 9)"
proof -
  let ?p = "\<lambda>k. (sample_build k)\<lparr>bd_event := ''promote'', bd_parent := Some 7, bd_target := Some ''production''\<rparr>"
  have b: "pick_promotion 7 ''production'' [?p 8, sample_build 10, ?p 9] = Some (?p 9)" by code_simp
  have m: "is_promotion_of 7 ''production'' (?p 8)" by code_simp
  show ?thesis using adopted_promotion_is_latest [where n = 7 and tg = "''production''" and builds = "[?p 8, sample_build 10, ?p 9]"] m
    unfolding b by (simp add: Let_def)
qed

end
