(* ===== verification/Gitea_Client.thy ===== *)
theory Gitea_Client
  imports Drone_Client_Laws
begin

section \<open>The Gitea client\<close>

text \<open>
  app/integrations/gitea/{schemas,client}.py. Reads go through \<open>retry_read\<close>; creating a release
  is sent once. Every path segment is percent-encoded, so that an owner, a repository or a tag
  that holds a slash cannot name another resource.

  A character is one byte of the UTF-8 encoding of the Python string, so \<open>quote\<close> works bytewise.
  A URL of a release is a string or null in Gitea's documented answers; another JSON value is
  kept as its \<open>str\<close>.
\<close>

subsection \<open>Percent encoding\<close>

definition url_unreserved :: "char \<Rightarrow> bool" where
  "url_unreserved c \<longleftrightarrow>
     (let n = (of_char c :: nat)
      in (48 \<le> n \<and> n \<le> 57) \<or> (65 \<le> n \<and> n \<le> 90) \<or> (97 \<le> n \<and> n \<le> 122) \<or> n \<in> {45, 46, 95, 126})"

definition hex_digit :: "nat \<Rightarrow> char" where
  "hex_digit n = char_of (if n < 10 then 48 + n else 55 + n)"

definition url_quote_char :: "char \<Rightarrow> string" where
  "url_quote_char c =
     (if url_unreserved c then [c]
      else [CHR ''%'', hex_digit (of_char c div 16), hex_digit (of_char c mod 16)])"

definition url_quote :: "string \<Rightarrow> string" where
  "url_quote s = concat (map url_quote_char s)"

text \<open>What a server does with a segment: \<open>%XY\<close> is one byte.\<close>

definition hex_value :: "char \<Rightarrow> nat" where
  "hex_value c = (let n = (of_char c :: nat) in if n < 58 then n - 48 else n - 55)"

fun url_unquote :: "string \<Rightarrow> string" where
  "url_unquote [] = []"
| "url_unquote (c # d # e # s) =
     (if c = CHR ''%'' then char_of (16 * hex_value d + hex_value e) # url_unquote s
      else c # url_unquote (d # e # s))"
| "url_unquote (c # s) = c # url_unquote s"

subsection \<open>Payloads\<close>

record gitea_repository =
  gr_owner :: string
  gr_name :: string
  gr_full_name :: string
  gr_html_url :: json

record gitea_tag =
  gt_name :: string
  gt_commit_sha :: string

record gitea_release =
  gl_id :: json
  gl_tag_name :: string
  gl_name :: string
  gl_html_url :: json
  gl_target_commitish :: json

definition repository_from_gitea :: "(string \<times> json) list \<Rightarrow> string \<Rightarrow> string \<Rightarrow> gitea_repository" where
  "repository_from_gitea kvs owner name =
     \<lparr>gr_owner = owner, gr_name = name,
      gr_full_name = py_str (jfirst [jval ''full_name'' kvs] (JStr (owner @ ''/'' @ name))),
      gr_html_url = jval ''html_url'' kvs\<rparr>"

text \<open>The commit of a tag is an object or absent; \<open>get\<close> on anything else raises AttributeError.\<close>

definition tag_from_gitea :: "(string \<times> json) list \<Rightarrow> exn + gitea_tag" where
  "tag_from_gitea kvs =
     (case jfirst [jval ''commit'' kvs] (JObj []) of
        JObj co \<Rightarrow>
          (let sha = jfirst [jval ''sha'' co] (jval ''id'' co)
           in if \<not> jtruthy (jval ''name'' kvs) \<or> \<not> jtruthy sha
              then Inl (ValueError ''Gitea returned invalid tag metadata'')
              else Inr \<lparr>gt_name = py_str (jval ''name'' kvs), gt_commit_sha = py_str sha\<rparr>)
      | _ \<Rightarrow> Inl AttributeError)"

definition release_from_gitea :: "(string \<times> json) list \<Rightarrow> exn + gitea_release" where
  "release_from_gitea kvs =
     (let tag_name = jval ''tag_name'' kvs
      in if jval ''id'' kvs = JNull \<or> \<not> jtruthy tag_name
         then Inl (ValueError ''Gitea returned invalid release metadata'')
         else Inr \<lparr>gl_id = jval ''id'' kvs, gl_tag_name = py_str tag_name,
           gl_name = py_str (jfirst [jval ''name'' kvs] tag_name),
           gl_html_url = jfirst [jval ''html_url'' kvs] (jval ''url'' kvs),
           gl_target_commitish = jval ''target_commitish'' kvs\<rparr>)"

subsection \<open>Requests\<close>

definition GITEA_RETRYABLE_ERRORS :: "exn \<Rightarrow> bool" where
  "GITEA_RETRYABLE_ERRORS e =
     (case e of GiteaError k _ \<Rightarrow> k \<in> {GiteaConnectionError, GiteaTimeoutError} | _ \<Rightarrow> False)"

definition gitea_classify :: "http_result \<Rightarrow> exn + json" where
  "gitea_classify r =
     (case r of
        HttpTimeout \<Rightarrow> Inl (GiteaError GiteaTimeoutError ''Gitea request timed out'')
      | HttpRequestError \<Rightarrow> Inl (GiteaError GiteaConnectionError ''Gitea is unavailable'')
      | HttpResponse code body \<Rightarrow>
          (if code \<in> {401, 403} then Inl (GiteaError GiteaAuthenticationError ''Gitea authentication failed'')
           else if code = 404 then Inl (GiteaError GiteaNotFoundError ''Gitea resource was not found'')
           else if code = 409 then Inl (GiteaError GiteaConflictError ''Gitea reported a release conflict'')
           else if code \<ge> 500 then Inl (GiteaError GiteaConnectionError ''Gitea is unavailable'')
           else if code \<ge> 400 then Inl (GiteaError GiteaUnexpectedResponseError
             (''Gitea returned HTTP '' @ str_of_int code))
           else (case body of
                   None \<Rightarrow> Inl (GiteaError GiteaUnexpectedResponseError ''Gitea returned invalid JSON'')
                 | Some j \<Rightarrow> Inr j)))"

definition gitea_rq :: "client \<Rightarrow> http_method \<Rightarrow> string \<Rightarrow> (string \<times> string) list \<Rightarrow> http_request" where
  "gitea_rq cl meth path params =
     \<lparr>h_method = meth, h_server = rstrip CHR ''/'' (cl_server cl), h_auth = ''token '' @ cl_token cl,
      h_path = path, h_params = params\<rparr>"

definition gitea_request ::
    "env \<Rightarrow> client \<Rightarrow> http_method \<Rightarrow> string \<Rightarrow> (string \<times> string) list \<Rightarrow> world \<Rightarrow> (exn + json) \<times> world" where
  "gitea_request v cl meth path params w =
     (case send v (gitea_rq cl meth path params) w of (r, w') \<Rightarrow> (gitea_classify r, w'))"

definition gitea_read ::
    "env \<Rightarrow> client \<Rightarrow> string \<Rightarrow> (string \<times> string) list \<Rightarrow> world \<Rightarrow> (exn + json) \<times> world" where
  "gitea_read v cl path params =
     retry_read (v_retry_attempts v) GITEA_RETRYABLE_ERRORS (gitea_request v cl GET path params)"

definition gitea_repo_path :: "string \<Rightarrow> string \<Rightarrow> string" where
  "gitea_repo_path owner repo = ''/api/v1/repos/'' @ url_quote owner @ ''/'' @ url_quote repo"

definition tag_path :: "string \<Rightarrow> string \<Rightarrow> string \<Rightarrow> string" where
  "tag_path owner repo tag = gitea_repo_path owner repo @ ''/tags/'' @ url_quote tag"

definition release_tag_path :: "string \<Rightarrow> string \<Rightarrow> string \<Rightarrow> string" where
  "release_tag_path owner repo tag = gitea_repo_path owner repo @ ''/releases/tags/'' @ url_quote tag"

definition releases_path :: "string \<Rightarrow> string \<Rightarrow> string" where
  "releases_path owner repo = gitea_repo_path owner repo @ ''/releases''"

text \<open>A ValueError of a parser becomes an unexpected response; other exceptions escape.\<close>

definition as_unexpected :: "exn + 'a \<Rightarrow> exn + 'a" where
  "as_unexpected r = (case r of
     Inl (ValueError m) \<Rightarrow> Inl (GiteaError GiteaUnexpectedResponseError m) | _ \<Rightarrow> r)"

definition as_release :: "json \<Rightarrow> exn + gitea_release" where
  "as_release j = (case j of
     JObj kvs \<Rightarrow> as_unexpected (release_from_gitea kvs)
   | _ \<Rightarrow> Inl (GiteaError GiteaUnexpectedResponseError ''Gitea returned invalid release metadata''))"

definition gitea_get_repository ::
    "env \<Rightarrow> client \<Rightarrow> string \<Rightarrow> string \<Rightarrow> world \<Rightarrow> (exn + gitea_repository) \<times> world" where
  "gitea_get_repository v cl owner repo w =
     expect (\<lambda>j. case j of JObj kvs \<Rightarrow> Inr (repository_from_gitea kvs owner repo)
        | _ \<Rightarrow> Inl (GiteaError GiteaUnexpectedResponseError ''Gitea returned invalid repository metadata''))
       (gitea_read v cl (gitea_repo_path owner repo) [] w)"

definition gitea_get_tag ::
    "env \<Rightarrow> client \<Rightarrow> string \<Rightarrow> string \<Rightarrow> string \<Rightarrow> world \<Rightarrow> (exn + gitea_tag) \<times> world" where
  "gitea_get_tag v cl owner repo tag w =
     expect (\<lambda>j. case j of JObj kvs \<Rightarrow> as_unexpected (tag_from_gitea kvs)
        | _ \<Rightarrow> Inl (GiteaError GiteaUnexpectedResponseError ''Gitea returned invalid tag metadata''))
       (gitea_read v cl (tag_path owner repo tag) [] w)"

definition gitea_get_release ::
    "env \<Rightarrow> client \<Rightarrow> string \<Rightarrow> string \<Rightarrow> string \<Rightarrow> world \<Rightarrow> (exn + gitea_release) \<times> world" where
  "gitea_get_release v cl owner repo release_id w =
     expect as_release (gitea_read v cl (releases_path owner repo @ ''/'' @ release_id) [] w)"

definition gitea_get_release_by_tag ::
    "env \<Rightarrow> client \<Rightarrow> string \<Rightarrow> string \<Rightarrow> string \<Rightarrow> world \<Rightarrow> (exn + gitea_release) \<times> world" where
  "gitea_get_release_by_tag v cl owner repo tag w =
     expect as_release (gitea_read v cl (release_tag_path owner repo tag) [] w)"

text \<open>The body of the POST, and the one request that is never repeated.\<close>

record release_body =
  rb_name :: string
  rb_notes :: string
  rb_draft :: bool
  rb_prerelease :: bool

definition json_bool :: "bool \<Rightarrow> string" where
  "json_bool b = (if b then ''true'' else ''false'')"

definition create_release_rq :: "client \<Rightarrow> string \<Rightarrow> string \<Rightarrow> string \<Rightarrow> string \<Rightarrow> release_body \<Rightarrow> http_request" where
  "create_release_rq cl owner repo tag commitish body =
     gitea_rq cl POST (releases_path owner repo)
       [(''tag_name'', tag), (''target_commitish'', commitish), (''name'', rb_name body),
        (''body'', rb_notes body), (''draft'', json_bool (rb_draft body)),
        (''prerelease'', json_bool (rb_prerelease body))]"

definition gitea_create_release ::
    "env \<Rightarrow> client \<Rightarrow> string \<Rightarrow> string \<Rightarrow> string \<Rightarrow> string \<Rightarrow> release_body \<Rightarrow> world \<Rightarrow>
     (exn + gitea_release) \<times> world" where
  "gitea_create_release v cl owner repo tag commitish body w =
     (case send v (create_release_rq cl owner repo tag commitish body) w of
        (r, w') \<Rightarrow>
          (case gitea_classify r of
             Inl (GiteaError GiteaUnexpectedResponseError m) \<Rightarrow> (Inl (GiteaError GiteaReleaseError m), w')
           | Inl e \<Rightarrow> (Inl e, w')
           | Inr j \<Rightarrow> (as_release j, w')))"

text \<open>\<open>RegistryGiteaClients.for_component\<close>.\<close>

definition gitea_client_for :: "env \<Rightarrow> world \<Rightarrow> 'a component_row_scheme \<Rightarrow> exn + client" where
  "gitea_client_for v w c =
     (case gitea_connection w c of
        Inl e \<Rightarrow> Inl e
      | Inr n \<Rightarrow> (case v_decrypt v (n_token_encrypted n) of
          None \<Rightarrow> Inl TokenDecryptionError
        | Some token \<Rightarrow> Inr \<lparr>cl_server = n_base_url n, cl_token = token\<rparr>))"

subsection \<open>Percent encoding is faithful\<close>

lemma hex_digit_value: "n < 16 \<Longrightarrow> hex_value (hex_digit n) = n"
  by (auto simp: hex_value_def hex_digit_def of_char_of)

lemma of_char_div: "(of_char (c :: char) :: nat) div 16 < 16"
proof -
  have "(of_char c :: nat) < 16 * 16" by simp
  then show ?thesis by (simp only: less_mult_imp_div_less)
qed

lemma url_unquote_quoted:
  "url_unquote (url_quote_char c @ s) = c # url_unquote s"
proof (cases "url_unreserved c")
  case True
  then have "c \<noteq> CHR ''%''" by (auto simp: url_unreserved_def)
  then show ?thesis using True
    by (cases s rule: url_unquote.cases) (auto simp: url_quote_char_def)
next
  case False
  note d = of_char_div [of c]
  have "16 * (of_char c div 16) + of_char c mod 16 = (of_char c :: nat)" by simp
  then show ?thesis
    using False by (simp add: url_quote_char_def hex_digit_value d del: mult_div_mod_eq)
qed

lemma url_quote_roundtrip: "url_unquote (url_quote s) = s"
  by (induction s) (simp_all add: url_quote_def url_unquote_quoted)

lemma url_quote_inj: "url_quote s = url_quote t \<longleftrightarrow> s = t"
  by (metis url_quote_roundtrip)

lemma hex_digit_code: "n < 16 \<Longrightarrow> (of_char (hex_digit n) :: nat) = (if n < 10 then 48 + n else 55 + n)"
  by (simp add: hex_digit_def of_char_of)

lemma url_quote_char_safe: "CHR ''/'' \<notin> set (url_quote_char c)"
proof -
  have h: "hex_digit n \<noteq> CHR ''/''" if "n < 16" for n
  proof
    assume "hex_digit n = CHR ''/''"
    then have "(of_char (hex_digit n) :: nat) = 47" by simp
    then show False using hex_digit_code [OF that] by (simp split: if_splits)
  qed
  show ?thesis using of_char_div [of c] h [of "of_char c div 16"] h [of "of_char c mod 16"]
    by (auto simp: url_quote_char_def url_unreserved_def)
qed

lemma url_quote_safe: "CHR ''/'' \<notin> set (url_quote s)"
  using url_quote_char_safe by (auto simp: url_quote_def)

text \<open>So a path determines the owner, the repository and the tag it was built from.\<close>

lemma split_at_slash:
  assumes "a @ CHR ''/'' # x = b @ CHR ''/'' # y" and "CHR ''/'' \<notin> set a" and "CHR ''/'' \<notin> set b"
  shows "a = b \<and> x = y"
  using assms
proof (induction a arbitrary: b)
  case Nil
  then show ?case by (cases b) auto
next
  case (Cons c a)
  then show ?case by (cases b) auto
qed

lemma tag_path_inj:
  "tag_path owner repo tag = tag_path owner' repo' tag' \<longleftrightarrow> owner = owner' \<and> repo = repo' \<and> tag = tag'"
proof
  assume "tag_path owner repo tag = tag_path owner' repo' tag'"
  then have "url_quote owner @ CHR ''/'' # (url_quote repo @ CHR ''/'' # (''tags/'' @ url_quote tag)) =
      url_quote owner' @ CHR ''/'' # (url_quote repo' @ CHR ''/'' # (''tags/'' @ url_quote tag'))"
    by (simp add: tag_path_def gitea_repo_path_def)
  note o = split_at_slash [OF this url_quote_safe url_quote_safe]
  note r = split_at_slash [OF o [THEN conjunct2] url_quote_safe url_quote_safe]
  show "owner = owner' \<and> repo = repo' \<and> tag = tag'"
    using o r by (simp add: url_quote_inj)
qed simp

subsection \<open>What a call to Gitea can do\<close>

text \<open>The same interface as Drone: a read is a \<open>read_operation\<close>, a release is one POST.\<close>

interpretation gitea_get: read_operation "gitea_request v cl GET path params"
  by unfold_locales
    (auto simp: reads_def gitea_request_def gitea_rq_def send_def only_gets_def)

lemma gitea_read_reads: "reads w (snd (gitea_read v cl path params w))"
  unfolding gitea_read_def by (rule gitea_get.retry_reads)

lemma gitea_reads:
  "reads w (snd (gitea_get_repository v cl ow rp w))"
  "reads w (snd (gitea_get_tag v cl ow rp tg w))"
  "reads w (snd (gitea_get_release v cl ow rp i w))"
  "reads w (snd (gitea_get_release_by_tag v cl ow rp tg w))"
  by (simp_all add: gitea_get_repository_def gitea_get_tag_def gitea_get_release_def
      gitea_get_release_by_tag_def gitea_read_reads)

lemma create_release_rq_method [simp]: "h_method (create_release_rq cl ow rp tg co body) = POST"
  by (simp add: create_release_rq_def gitea_rq_def)

lemma gitea_create_world:
  "snd (gitea_create_release v cl ow rp tg co body w)
     = w\<lparr>w_trace := w_trace w @ [Sent (create_release_rq cl ow rp tg co body)]\<rparr>"
  by (auto simp: gitea_create_release_def send_def split: sum.splits exn.splits gitea_error.splits)

lemma gitea_create_once: "sends_once w (snd (gitea_create_release v cl ow rp tg co body w))"
  unfolding gitea_create_world sends_once_def using create_release_rq_method by blast

text \<open>
  A conflict is reported only for an answer of 409, and a missing resource only for 404: the two
  answers the publishing service takes decisions on.
\<close>

lemma gitea_classify_decisive:
  "(\<exists>m. gitea_classify r = Inl (GiteaError GiteaNotFoundError m)) \<longleftrightarrow> (\<exists>body. r = HttpResponse 404 body)"
  "(\<exists>m. gitea_classify r = Inl (GiteaError GiteaConflictError m)) \<longleftrightarrow> (\<exists>body. r = HttpResponse 409 body)"
  by (cases r; auto simp: gitea_classify_def split: option.splits)+

lemma gitea_classify_gitea: "gitea_classify r = Inl e \<Longrightarrow> \<exists>k m. e = GiteaError k m"
  by (auto simp: gitea_classify_def split: http_result.splits if_splits option.splits)

end
