(* ===== verification/Registry_Store.thy ===== *)
theory Registry_Store
  imports Registry_Lookup Registry_Project_Laws Gitea_Client "HOL-Library.List_Lexorder" "HOL-Library.Char_ord"
begin

section \<open>Storing the registry\<close>

text \<open>
  app/infrastructure/sqlite/registry: connections, projects and components as rows. The unique
  constraints are conditions on the tables, checked after every row written, as SQLite does; the
  RESTRICT foreign keys are checked when a row is deleted.
\<close>

subsection \<open>Connections\<close>

definition connections_ok :: "connection list \<Rightarrow> bool" where
  "connections_ok ns \<longleftrightarrow>
     keyed n_id ns \<and> distinct (map n_name ns) \<and> distinct (map n_kind (filter n_is_default ns))"

definition set_connections :: "connection list \<Rightarrow> world \<Rightarrow> world" where
  "set_connections ns = set_tables (\<lambda>t. t\<lparr>t_connections := ns\<rparr>)"

definition msg_name_taken :: "string \<Rightarrow> string" where
  "msg_name_taken name = ''A connection named '' @ repr name @ '' already exists''"

text \<open>\<open>_flush\<close>: whatever constraint the rows break is reported as the name.\<close>

definition flush_connections :: "string \<Rightarrow> connection list \<Rightarrow> world \<Rightarrow> (exn + unit) \<times> world" where
  "flush_connections name ns w =
     (if connections_ok ns then (Inr (), set_connections ns w)
      else (Inl (ConnectionNameTakenError (msg_name_taken name)), rollback w))"

definition conn_add :: "connection \<Rightarrow> world \<Rightarrow> (exn + unit) \<times> world" where
  "conn_add n w = flush_connections (n_name n) (t_connections (w_cur w) @ [n]) w"

text \<open>\<open>apply_to_row\<close>: everything but the id, the kind and the time of creation.\<close>

definition apply_connection :: "connection \<Rightarrow> connection \<Rightarrow> connection" where
  "apply_connection n row =
     row\<lparr>n_name := n_name n, n_base_url := n_base_url n, n_token_encrypted := n_token_encrypted n,
       n_token_hint := n_token_hint n, n_is_default := n_is_default n, n_verify_status := n_verify_status n,
       n_verify_detail := n_verify_detail n, n_verified_at := n_verified_at n, n_updated_at := n_updated_at n\<rparr>"

definition conn_save :: "connection \<Rightarrow> world \<Rightarrow> (exn + unit) \<times> world" where
  "conn_save n w =
     (case find_row n_id (n_id n) (t_connections (w_cur w)) of
        None \<Rightarrow> (Inl (ConnectionNotFoundError []), w)
      | Some _ \<Rightarrow> flush_connections (n_name n)
          (upd_row n_id (n_id n) (apply_connection n) (t_connections (w_cur w))) w)"

text \<open>The rows a RESTRICT foreign key protects a connection with.\<close>

definition uses_connection :: "string \<Rightarrow> string option \<Rightarrow> string option \<Rightarrow> bool" where
  "uses_connection i drone gitea \<longleftrightarrow> drone = Some i \<or> gitea = Some i"

definition is_referenced :: "world \<Rightarrow> string \<Rightarrow> bool" where
  "is_referenced w i \<longleftrightarrow>
     list_ex (\<lambda>p. uses_connection i (p_drone_connection_id p) (p_gitea_connection_id p)) (t_projects (w_cur w)) \<or>
     list_ex (\<lambda>c. uses_connection i (c_drone_connection_id c) (c_gitea_connection_id c)) (t_components (w_cur w))"

definition connection_restricted :: "world \<Rightarrow> string \<Rightarrow> bool" where
  "connection_restricted w i \<longleftrightarrow>
     is_referenced w i \<or>
     list_ex (\<lambda>d. d_drone_connection_id d = i) (t_deployments (w_cur w)) \<or>
     list_ex (\<lambda>j. j_drone_connection_id j = i) (t_ci_jobs (w_cur w))"

definition conn_delete :: "string \<Rightarrow> world \<Rightarrow> (exn + unit) \<times> world" where
  "conn_delete i w =
     (case find_row n_id i (t_connections (w_cur w)) of
        None \<Rightarrow> (Inl (ConnectionNotFoundError []), w)
      | Some _ \<Rightarrow>
          (if connection_restricted w i then (Inl IntegrityError, w)
           else (Inr (), set_connections (filter (\<lambda>n. n_id n \<noteq> i) (t_connections (w_cur w))) w)))"

definition conn_list :: "connection_kind option \<Rightarrow> world \<Rightarrow> connection list" where
  "conn_list kind w =
     map connection_init (sort_key (\<lambda>n. (ck_value (n_kind n), n_name n))
       (filter (\<lambda>n. kind = None \<or> kind = Some (n_kind n)) (t_connections (w_cur w))))"

definition exists_for_kind :: "world \<Rightarrow> connection_kind \<Rightarrow> bool" where
  "exists_for_kind w kind \<longleftrightarrow> list_ex (\<lambda>n. n_kind n = kind) (t_connections (w_cur w))"

definition conn_clear_default :: "connection_kind \<Rightarrow> string option \<Rightarrow> world \<Rightarrow> world" where
  "conn_clear_default kind except_id w =
     set_connections (map (\<lambda>n. if n_kind n = kind \<and> n_is_default n \<and>
            \<not> (py_truthy except_id \<and> except_id = Some (n_id n))
          then n\<lparr>n_is_default := False\<rparr> else n) (t_connections (w_cur w))) w"

subsection \<open>Projects and components as aggregates\<close>

definition component_to_entity :: "project_row \<Rightarrow> component_row \<Rightarrow> component" where
  "component_to_entity p r =
     component_row.extend r
       (component.fields (p_default_target p) (p_drone_connection_id p) (p_gitea_connection_id p))"

definition project_to_entity :: "world \<Rightarrow> project_row \<Rightarrow> project" where
  "project_to_entity w p =
     project_init (project_row.truncate p) (map (component_to_entity p) (project_components w p))"

text \<open>\<open>find\<close>: by id first, by key second.\<close>

definition proj_find :: "world \<Rightarrow> string \<Rightarrow> project option" where
  "proj_find w ref =
     (case find_row p_id ref (t_projects (w_cur w)) of
        Some p \<Rightarrow> Some (project_to_entity w p)
      | None \<Rightarrow> map_option (project_to_entity w) (find_row p_key ref (t_projects (w_cur w))))"

definition proj_list :: "bool \<Rightarrow> world \<Rightarrow> project list" where
  "proj_list include_archived w =
     map (project_to_entity w) (sort_key p_name
       (filter (\<lambda>p. include_archived \<or> \<not> p_is_archived p) (t_projects (w_cur w))))"

definition projects_ok :: "project_row list \<Rightarrow> bool" where
  "projects_ok ps \<longleftrightarrow> keyed p_id ps \<and> distinct (map p_key ps)"

text \<open>Primary key, uq_project_components_key and uq_project_components_position.\<close>

definition components_ok :: "component_row list \<Rightarrow> bool" where
  "components_ok rs \<longleftrightarrow>
     keyed c_id rs \<and> distinct (map (\<lambda>r. (c_project_id r, c_key r)) rs) \<and>
     distinct (map (\<lambda>r. (c_project_id r, c_position r)) rs)"

definition component_row_of :: "component \<Rightarrow> component_row" where
  "component_row_of c = component_row.truncate c"

text \<open>\<open>apply_to_component_row\<close>: everything that can change but the position.\<close>

definition apply_component :: "component \<Rightarrow> component_row \<Rightarrow> component_row" where
  "apply_component c row =
     row\<lparr>c_display_name := c_display_name c, c_drone_owner := c_drone_owner c, c_drone_repo := c_drone_repo c,
       c_promote_target_override := c_promote_target_override c,
       c_drone_connection_id := c_drone_connection_id c, c_publish_enabled := c_publish_enabled c,
       c_gitea_owner := c_gitea_owner c, c_gitea_repo := c_gitea_repo c,
       c_gitea_connection_id := c_gitea_connection_id c, c_tag_prefix := c_tag_prefix c,
       c_is_active := c_is_active c, c_updated_at := c_updated_at c\<rparr>"

text \<open>One row written, and a flush: the new rows first, then the changed ones by primary key.\<close>

definition put_component :: "component_row \<Rightarrow> component_row list \<Rightarrow> component_row list" where
  "put_component r rs =
     (if find_row c_id (c_id r) rs = None then rs @ [r] else upd_row c_id (c_id r) (\<lambda>_. r) rs)"

fun put_components :: "component_row list \<Rightarrow> component_row list \<Rightarrow> component_row list option" where
  "put_components [] rs = Some rs"
| "put_components (r # todo) rs =
     (if components_ok (put_component r rs) then put_components todo (put_component r rs) else None)"

definition flush_order :: "component_row list \<Rightarrow> component_row list \<Rightarrow> component_row list" where
  "flush_order todo rs =
     filter (\<lambda>r. find_row c_id (c_id r) rs = None) todo @
     sort_key c_id (filter (\<lambda>r. find_row c_id (c_id r) rs \<noteq> None) todo)"

definition flush_components :: "component_row list \<Rightarrow> component_row list \<Rightarrow> component_row list option" where
  "flush_components todo rs = put_components (flush_order todo rs) rs"

text \<open>The rows the RESTRICT foreign keys protect a component with.\<close>

definition has_deployments :: "world \<Rightarrow> string \<Rightarrow> bool" where
  "has_deployments w i \<longleftrightarrow> list_ex (\<lambda>d. d_component_id d = i) (t_deployments (w_cur w))"

definition is_scheduled :: "world \<Rightarrow> string \<Rightarrow> bool" where
  "is_scheduled w i \<longleftrightarrow>
     list_ex (\<lambda>s. list_ex (\<lambda>b. sb_component_id b = i) (s_component_builds s)) (t_schedules (w_cur w))"

definition component_restricted :: "world \<Rightarrow> string \<Rightarrow> bool" where
  "component_restricted w i \<longleftrightarrow>
     has_deployments w i \<or> is_scheduled w i \<or>
     list_ex (\<lambda>q. q_component_id q = Some i) (t_publish_records (w_cur w)) \<or>
     list_ex (\<lambda>k. k_component_id k = i) (t_ci_tokens (w_cur w)) \<or>
     list_ex (\<lambda>y. y_component_id y = i) (t_ci_policies (w_cur w)) \<or>
     list_ex (\<lambda>j. j_component_id j = i) (t_ci_jobs (w_cur w))"

definition msg_component_collided :: string where
  "msg_component_collided = ''A component key or position collided while saving this project''"

definition set_components :: "component_row list \<Rightarrow> world \<Rightarrow> world" where
  "set_components rs = set_tables (\<lambda>t. t\<lparr>t_components := rs\<rparr>)"

text \<open>The row of a component with its final position, and the same on the negative side.\<close>

definition synced_row :: "component_row list \<Rightarrow> component \<Rightarrow> component_row" where
  "synced_row rs c =
     (case find_row c_id (c_id c) rs of
        None \<Rightarrow> component_row_of c
      | Some row \<Rightarrow> (apply_component c row)\<lparr>c_position := c_position c\<rparr>)"

definition negated :: "component_row \<Rightarrow> component_row" where
  "negated r = r\<lparr>c_position := - c_position r\<rparr>"

text \<open>
  \<open>_sync_components\<close>: rows that are no longer wanted are deleted, then every wanted row is written
  twice, first with its position negated.
\<close>

definition sync_components :: "project \<Rightarrow> world \<Rightarrow> (exn + unit) \<times> world" where
  "sync_components p w =
     (let rs = t_components (w_cur w);
          wanted = map c_id (p_components p);
          gone = filter (\<lambda>r. c_project_id r = p_id p \<and> c_id r \<notin> set wanted) rs
      in if list_ex (\<lambda>r. component_restricted w (c_id r)) gone then (Inl IntegrityError, w)
         else (let kept = filter (\<lambda>r. \<not> (c_project_id r = p_id p \<and> c_id r \<notin> set wanted)) rs;
                   mine = filter (\<lambda>r. c_project_id r = p_id p) kept;
                   final = map (synced_row mine) (p_components p)
               in case Option.bind (flush_components (map negated final) kept) (flush_components final) of
                    None \<Rightarrow> (Inl (ComponentKeyTakenError msg_component_collided), rollback w)
                  | Some rs' \<Rightarrow> (Inr (), set_components rs' w)))"

definition set_projects :: "project_row list \<Rightarrow> world \<Rightarrow> world" where
  "set_projects ps = set_tables (\<lambda>t. t\<lparr>t_projects := ps\<rparr>)"

definition msg_project_key_taken :: "string \<Rightarrow> string" where
  "msg_project_key_taken key = ''A project with key '' @ repr key @ '' already exists''"

definition proj_add :: "project \<Rightarrow> world \<Rightarrow> (exn + unit) \<times> world" where
  "proj_add p w =
     (let ps = t_projects (w_cur w) @ [project_row.truncate p]
      in if projects_ok ps then sync_components p (set_projects ps w)
         else (Inl (ProjectKeyTakenError (msg_project_key_taken (p_key p))), rollback w))"

definition apply_project :: "project \<Rightarrow> project_row \<Rightarrow> project_row" where
  "apply_project p row =
     row\<lparr>p_name := p_name p, p_description := p_description p, p_default_target := p_default_target p,
       p_drone_connection_id := p_drone_connection_id p, p_gitea_connection_id := p_gitea_connection_id p,
       p_is_archived := p_is_archived p, p_updated_at := p_updated_at p\<rparr>"

definition proj_save :: "project \<Rightarrow> world \<Rightarrow> (exn + unit) \<times> world" where
  "proj_save p w =
     (case find_row p_id (p_id p) (t_projects (w_cur w)) of
        None \<Rightarrow> (Inl ProjectNotFoundError, w)
      | Some _ \<Rightarrow> sync_components p
          (set_projects (upd_row p_id (p_id p) (apply_project p) (t_projects (w_cur w))) w))"

subsection \<open>Resolving the connections of a project\<close>

text \<open>A component whose connection does not resolve is left out of the map.\<close>

definition drone_connection_ids :: "world \<Rightarrow> project \<Rightarrow> string \<rightharpoonup> string" where
  "drone_connection_ids w p i =
     (case find_row c_id i (rev (p_components p)) of
        None \<Rightarrow> None
      | Some c \<Rightarrow>
          (case resolve_connection w CK_DRONE [c_drone_connection_id c, p_drone_connection_id p] of
             Inl _ \<Rightarrow> None | Inr n \<Rightarrow> Some (n_id n)))"

subsection \<open>Asking upstream\<close>

text \<open>\<open>str(exc) or exc.__class__.__name__\<close>, for the exceptions these two classes catch.\<close>

definition msg_token_undecryptable :: string where
  "msg_token_undecryptable = ''This connection's token cannot be decrypted with the current '' @
     ''APP_SECRET_KEY. Re-enter the token to store it under the new key.''"

fun upstream_text :: "exn \<Rightarrow> string option" where
  "upstream_text (DroneError k m) = Some m"
| "upstream_text (GiteaError k m) = Some m"
| "upstream_text (NoDefaultConnectionError m) = Some m"
| "upstream_text (ConnectionNotFoundError m) = Some (if m = [] then ''ConnectionNotFoundError'' else m)"
| "upstream_text TokenDecryptionError = Some msg_token_undecryptable"
| "upstream_text _ = None"

definition client_of :: "env \<Rightarrow> connection \<Rightarrow> exn + client" where
  "client_of v n =
     (case v_decrypt v (n_token_encrypted n) of
        None \<Rightarrow> Inl TokenDecryptionError
      | Some token \<Rightarrow> Inr \<lparr>cl_server = n_base_url n, cl_token = token\<rparr>)"

definition client_status :: "env \<Rightarrow> client \<Rightarrow> world \<Rightarrow> (exn + json) \<times> world" where
  "client_status v cl = drone_read v cl ''/api/user'' []"

text \<open>\<open>GiteaClient.health\<close>: a plain GET, without the client's headers.\<close>

definition health_rq :: "client \<Rightarrow> http_request" where
  "health_rq cl = \<lparr>h_method = GET, h_server = rstrip CHR ''/'' (cl_server cl), h_auth = [],
     h_path = ''/api/healthz'', h_params = []\<rparr>"

definition health_answer :: "http_result \<Rightarrow> exn + json" where
  "health_answer r =
     (case r of
        HttpTimeout \<Rightarrow> Inl (GiteaError GiteaTimeoutError ''Gitea health check timed out'')
      | HttpRequestError \<Rightarrow> Inl (GiteaError GiteaConnectionError ''Gitea is unavailable'')
      | HttpResponse code body \<Rightarrow>
          (if code \<ge> 500 then Inl (GiteaError GiteaConnectionError ''Gitea is unavailable'')
           else if code \<ge> 400 then Inl (GiteaError GiteaUnexpectedResponseError
             (''Gitea health endpoint returned HTTP '' @ str_of_int code))
           else (case body of
               None \<Rightarrow> Inl (GiteaError GiteaUnexpectedResponseError ''Gitea health endpoint returned invalid JSON'')
             | Some (JObj kvs) \<Rightarrow>
                 (if jval ''status'' kvs = JStr ''pass'' then Inr (JObj kvs)
                  else Inl (GiteaError GiteaUnexpectedResponseError ''Gitea health endpoint did not report pass''))
             | Some _ \<Rightarrow>
                 Inl (GiteaError GiteaUnexpectedResponseError ''Gitea health endpoint did not report pass''))))"

definition gitea_health :: "env \<Rightarrow> client \<Rightarrow> world \<Rightarrow> (exn + json) \<times> world" where
  "gitea_health v cl w = (case send v (health_rq cl) w of (r, w') \<Rightarrow> (health_answer r, w'))"

definition probe_verdict :: "exn + json \<Rightarrow> exn + (verify_status \<times> string option)" where
  "probe_verdict r =
     (case r of
        Inr _ \<Rightarrow> Inr (VS_OK, None)
      | Inl e \<Rightarrow>
          (case e of
             TokenDecryptionError \<Rightarrow> Inr (VS_KEY_MISMATCH, Some msg_token_undecryptable)
           | DroneError DroneAuthenticationError m \<Rightarrow>
               Inr (VS_UNAUTHORIZED, Some (if m = [] then ''The token was rejected'' else m))
           | GiteaError GiteaAuthenticationError m \<Rightarrow>
               Inr (VS_UNAUTHORIZED, Some (if m = [] then ''The token was rejected'' else m))
           | DroneError _ m \<Rightarrow> Inr (VS_UNREACHABLE, Some m)
           | GiteaError _ m \<Rightarrow> Inr (VS_UNREACHABLE, Some m)
           | _ \<Rightarrow> Inl e))"

definition probe :: "env \<Rightarrow> connection \<Rightarrow> world \<Rightarrow> (exn + (verify_status \<times> string option)) \<times> world" where
  "probe v n w =
     (case client_of v n of
        Inl e \<Rightarrow> (probe_verdict (Inl e), w)
      | Inr cl \<Rightarrow>
          (case (if n_kind n = CK_DRONE then client_status v cl w else gitea_health v cl w) of
             (r, w') \<Rightarrow> (probe_verdict r, w')))"

record check_result =
  ck_component_id :: string
  ck_component_key :: string
  ck_status :: string
  ck_drone :: "string option"
  ck_gitea :: "string option"
  ck_detail :: "string option"

definition check_failed :: "component \<Rightarrow> string \<Rightarrow> string option \<Rightarrow> check_result" where
  "check_failed c detail drone = \<lparr>ck_component_id = c_id c, ck_component_key = c_key c, ck_status = ''error'',
     ck_drone = drone, ck_gitea = None, ck_detail = Some detail\<rparr>"

definition check_passed :: "component \<Rightarrow> string \<Rightarrow> check_result" where
  "check_passed c gitea = \<lparr>ck_component_id = c_id c, ck_component_key = c_key c, ck_status = ''ok'',
     ck_drone = Some ''ok'', ck_gitea = Some gitea, ck_detail = None\<rparr>"

text \<open>One side of the check: the connection, its client, the repository.\<close>

definition lookup_repo ::
    "env \<Rightarrow> connection_kind \<Rightarrow> string option list \<Rightarrow> (client \<Rightarrow> world \<Rightarrow> (exn + 'a) \<times> world) \<Rightarrow> world \<Rightarrow>
     (exn + unit) \<times> world" where
  "lookup_repo v kind candidates call w =
     (case resolve_connection w kind candidates of
        Inl e \<Rightarrow> (Inl e, w)
      | Inr n \<Rightarrow> (case client_of v n of
          Inl e \<Rightarrow> (Inl e, w)
        | Inr cl \<Rightarrow> (case call cl w of (Inl e, w') \<Rightarrow> (Inl e, w') | (Inr _, w') \<Rightarrow> (Inr (), w'))))"

definition check_gitea :: "env \<Rightarrow> project \<Rightarrow> component \<Rightarrow> world \<Rightarrow> (exn + check_result) \<times> world" where
  "check_gitea v p c w =
     (if \<not> c_publish_enabled c then (Inr (check_passed c ''skipped''), w)
      else if \<not> py_truthy (gitea_slug c)
      then (Inr (check_failed c ''Publishing is enabled but no Gitea repository is set'' (Some ''ok'')), w)
      else (case lookup_repo v CK_GITEA [c_gitea_connection_id c, p_gitea_connection_id p]
               (\<lambda>cl. gitea_get_repository v cl (the (c_gitea_owner c)) (the (c_gitea_repo c))) w of
              (Inr _, w') \<Rightarrow> (Inr (check_passed c ''ok''), w')
            | (Inl e, w') \<Rightarrow>
                (case e of
                   GiteaError GiteaNotFoundError _ \<Rightarrow>
                     (Inr (check_failed c (''Gitea has no repository '' @ the (gitea_slug c)) (Some ''ok'')), w')
                 | DroneError _ _ \<Rightarrow> (Inl e, w')
                 | _ \<Rightarrow> (case upstream_text e of
                     None \<Rightarrow> (Inl e, w') | Some m \<Rightarrow> (Inr (check_failed c m (Some ''ok'')), w')))))"

definition check_component :: "env \<Rightarrow> project \<Rightarrow> component \<Rightarrow> world \<Rightarrow> (exn + check_result) \<times> world" where
  "check_component v p c w =
     (case lookup_repo v CK_DRONE [c_drone_connection_id c, p_drone_connection_id p]
             (\<lambda>cl. client_get_repository v cl (c_drone_owner c) (c_drone_repo c)) w of
        (Inr _, w') \<Rightarrow> check_gitea v p c w'
      | (Inl e, w') \<Rightarrow>
          (case e of
             DroneError DroneNotFoundError _ \<Rightarrow>
               (Inr (check_failed c (''Drone has no repository '' @ drone_slug c) None), w')
           | GiteaError _ _ \<Rightarrow> (Inl e, w')
           | _ \<Rightarrow> (case upstream_text e of
               None \<Rightarrow> (Inl e, w') | Some m \<Rightarrow> (Inr (check_failed c m None), w'))))"

end
