(* ===== verification/Registry_Usecases.thy ===== *)
theory Registry_Usecases
  imports Registry_Store
begin

section \<open>Use cases of the registry\<close>

text \<open>
  app/usecase/registry: one function per use case. A use case ends its transaction itself; an
  exception leaves it uncommitted, to be rolled back at the end of the request.
\<close>

definition bind_exn :: "(exn + 'a) \<times> world \<Rightarrow> ('a \<Rightarrow> world \<Rightarrow> (exn + 'b) \<times> world) \<Rightarrow> (exn + 'b) \<times> world" where
  "bind_exn r f = (case r of (Inl e, w) \<Rightarrow> (Inl e, w) | (Inr x, w) \<Rightarrow> f x w)"

lemma bind_exn_simps [simp]: "bind_exn (Inl e, w) f = (Inl e, w)" "bind_exn (Inr x, w) f = f x w"
  by (simp_all add: bind_exn_def)

subsection \<open>Connections\<close>

text \<open>The vault encrypts a token and keeps its hint (app/infrastructure/crypto).\<close>

definition create_connection ::
    "env \<Rightarrow> (string \<Rightarrow> encrypted_token) \<Rightarrow> connection_kind \<Rightarrow> string \<Rightarrow> string \<Rightarrow> string \<Rightarrow> bool \<Rightarrow> world \<Rightarrow>
     (exn + connection) \<times> world" where
  "create_connection v encrypt kind name base_url token is_default w =
     (let make_default = (is_default \<or> \<not> exists_for_kind w kind);
          w1 = (if make_default then conn_clear_default kind None w else w);
          n = connection_create (new_uuid v w1) kind name base_url (encrypt token) make_default (now_of v w1)
      in bind_exn (conn_add n (tick w1)) (\<lambda>_ w2. (Inr n, commit w2)))"

record connection_patch =
  nu_name :: "string option"
  nu_base_url :: "string option"
  nu_token :: "string option"
  nu_is_default :: "bool option"

text \<open>The assignments to the entity, in order.\<close>

definition connection_patched ::
    "(string \<Rightarrow> encrypted_token) \<Rightarrow> connection_patch \<Rightarrow> time \<Rightarrow> connection \<Rightarrow> connection" where
  "connection_patched encrypt u at n =
     (let n1 = (case nu_name u of None \<Rightarrow> n | Some name \<Rightarrow> rename name at n);
          n2 = (case nu_base_url u of None \<Rightarrow> n1 | Some url \<Rightarrow> point_at url at n1);
          n3 = (case nu_token u of None \<Rightarrow> n2 | Some token \<Rightarrow> replace_token (encrypt token) at n2);
          n4 = (case nu_is_default u of None \<Rightarrow> n3 | Some True \<Rightarrow> make_default at n3
                | Some False \<Rightarrow> clear_default at n3)
      in touch at n4)"

definition update_connection ::
    "env \<Rightarrow> (string \<Rightarrow> encrypted_token) \<Rightarrow> string \<Rightarrow> connection_patch \<Rightarrow> world \<Rightarrow> (exn + connection) \<times> world" where
  "update_connection v encrypt i u w =
     (case find_connection w i of
        None \<Rightarrow> (Inl (ConnectionNotFoundError []), w)
      | Some n \<Rightarrow>
          (let n' = connection_patched encrypt u (now_of v w) n;
               w1 = (if nu_is_default u = Some True
                     then conn_clear_default (n_kind n) (Some (n_id n)) (tick w) else tick w)
           in bind_exn (conn_save n' w1) (\<lambda>_ w2. (Inr n', commit w2))))"

definition msg_connection_in_use :: string where
  "msg_connection_in_use = ''A project or component still uses this connection. Point them somewhere else first.''"

definition delete_connection :: "string \<Rightarrow> world \<Rightarrow> (exn + unit) \<times> world" where
  "delete_connection i w =
     (case find_connection w i of
        None \<Rightarrow> (Inl (ConnectionNotFoundError []), w)
      | Some n \<Rightarrow>
          (if is_referenced w i then (Inl (ConnectionInUseError msg_connection_in_use), w)
           else bind_exn (conn_delete (n_id n) w) (\<lambda>_ w1. (Inr (), commit w1))))"

definition test_connection ::
    "env \<Rightarrow> string \<Rightarrow> world \<Rightarrow> (exn + (verify_status \<times> string option \<times> time)) \<times> world" where
  "test_connection v i w =
     (case find_connection w i of
        None \<Rightarrow> (Inl (ConnectionNotFoundError []), w)
      | Some n \<Rightarrow>
          bind_exn (probe v n w) (\<lambda>(status, detail) w1.
            bind_exn (conn_save (record_probe status detail (now_of v w1) n) (tick w1))
              (\<lambda>_ w2. (Inr (status, detail, now_of v w1), commit w2))))"

definition get_connection :: "string \<Rightarrow> world \<Rightarrow> exn + connection" where
  "get_connection i w = (case find_connection w i of None \<Rightarrow> Inl (ConnectionNotFoundError []) | Some n \<Rightarrow> Inr n)"

subsection \<open>Small steps of the project use cases\<close>

definition load_project :: "world \<Rightarrow> string \<Rightarrow> exn + project" where
  "load_project w ref = (case proj_find w ref of None \<Rightarrow> Inl ProjectNotFoundError | Some p \<Rightarrow> Inr p)"

definition msg_no_connection :: "string \<Rightarrow> string" where
  "msg_no_connection i = ''No connection with id '' @ repr i"

definition assert_connection_exists :: "world \<Rightarrow> string option \<Rightarrow> exn + unit" where
  "assert_connection_exists w i =
     (case i of None \<Rightarrow> Inr ()
      | Some c \<Rightarrow> (case find_connection w c of
          None \<Rightarrow> Inl (ConnectionNotFoundError (msg_no_connection c)) | Some _ \<Rightarrow> Inr ()))"

definition assert_connections :: "world \<Rightarrow> string option \<Rightarrow> string option \<Rightarrow> exn + unit" where
  "assert_connections w drone gitea =
     (case assert_connection_exists w drone of
        Inl e \<Rightarrow> Inl e | Inr _ \<Rightarrow> assert_connection_exists w gitea)"

definition save_project :: "project \<Rightarrow> world \<Rightarrow> (exn + project) \<times> world" where
  "save_project p w =
     (case assert_no_slot_conflict (drone_connection_ids w p) p of
        Inl e \<Rightarrow> (Inl e, w)
      | Inr _ \<Rightarrow> bind_exn (proj_save p w) (\<lambda>_ w1. (load_project (commit w1) (p_id p), commit w1)))"

subsection \<open>Creating\<close>

record new_component =
  nc_key :: string
  nc_drone_owner :: string
  nc_drone_repo :: string
  nc_display_name :: "string option"
  nc_promote_target_override :: "string option"
  nc_drone_connection_id :: "string option"
  nc_publish_enabled :: bool
  nc_gitea_owner :: "string option"
  nc_gitea_repo :: "string option"
  nc_gitea_connection_id :: "string option"
  nc_tag_prefix :: string
  nc_position :: "int option"
  nc_is_active :: bool

record new_project =
  np_key :: string
  np_name :: string
  np_default_target :: string
  np_description :: "string option"
  np_drone_connection_id :: "string option"
  np_gitea_connection_id :: "string option"
  np_components :: "new_component list"

definition build_component :: "string \<Rightarrow> project \<Rightarrow> new_component \<Rightarrow> int \<Rightarrow> time \<Rightarrow> exn + component" where
  "build_component new_id p s position now =
     component_create new_id (p_id p) (nc_key s) (nc_drone_owner s) (nc_drone_repo s) position
       (p_default_target p) now None None (nc_display_name s) (nc_promote_target_override s)
       (nc_drone_connection_id s) (nc_publish_enabled s) (nc_gitea_owner s) (nc_gitea_repo s)
       (nc_gitea_connection_id s) (nc_tag_prefix s) (nc_is_active s)"

fun add_components ::
    "env \<Rightarrow> time \<Rightarrow> int \<Rightarrow> new_component list \<Rightarrow> project \<Rightarrow> world \<Rightarrow> (exn + project) \<times> world" where
  "add_components v now index [] p w = (Inr p, w)"
| "add_components v now index (s # rest) p w =
     (case assert_connections w (nc_drone_connection_id s) (nc_gitea_connection_id s) of
        Inl e \<Rightarrow> (Inl e, w)
      | Inr _ \<Rightarrow>
          (case build_component (new_uuid v w) p s index now of
             Inl e \<Rightarrow> (Inl e, tick w)
           | Inr c \<Rightarrow> (case add_component c (Some index) p of
               Inl e \<Rightarrow> (Inl e, tick w)
             | Inr p' \<Rightarrow> add_components v now (index + 1) rest p' (tick w))))"

definition create_project :: "env \<Rightarrow> new_project \<Rightarrow> world \<Rightarrow> (exn + project) \<times> world" where
  "create_project v s w =
     (case assert_connections w (np_drone_connection_id s) (np_gitea_connection_id s) of
        Inl e \<Rightarrow> (Inl e, w)
      | Inr _ \<Rightarrow>
          (let now = now_of v w;
               p0 = project_create (new_uuid v w) (np_key s) (np_name s) (np_default_target s) now
                      (np_description s) (np_drone_connection_id s) (np_gitea_connection_id s)
           in bind_exn (add_components v now 1 (np_components s) p0 (tick w)) (\<lambda>p w1.
                case assert_no_slot_conflict (drone_connection_ids w1 p) p of
                  Inl e \<Rightarrow> (Inl e, w1)
                | Inr _ \<Rightarrow> bind_exn (proj_add p w1) (\<lambda>_ w2. (load_project (commit w2) (p_id p), commit w2)))))"

definition component_of :: "exn + project \<Rightarrow> string \<Rightarrow> exn + component" where
  "component_of r i = (case r of Inl e \<Rightarrow> Inl e | Inr p \<Rightarrow> project_component i p)"

definition add_component_usecase :: "env \<Rightarrow> string \<Rightarrow> new_component \<Rightarrow> world \<Rightarrow> (exn + component) \<times> world" where
  "add_component_usecase v ref s w =
     (case load_project w ref of
        Inl e \<Rightarrow> (Inl e, w)
      | Inr p \<Rightarrow>
          (case assert_connections w (nc_drone_connection_id s) (nc_gitea_connection_id s) of
             Inl e \<Rightarrow> (Inl e, w)
           | Inr _ \<Rightarrow>
               (case build_component (new_uuid v w) p s (int (length (p_components p)) + 1) (now_of v w) of
                  Inl e \<Rightarrow> (Inl e, tick w)
                | Inr c \<Rightarrow> (case add_component c (nc_position s) p of
                    Inl e \<Rightarrow> (Inl e, tick w)
                  | Inr p' \<Rightarrow> (case save_project p' (tick w) of
                      (r, w1) \<Rightarrow> (component_of r (c_id c), w1))))))"

subsection \<open>Changing\<close>

definition replace_component :: "component \<Rightarrow> project \<Rightarrow> project" where
  "replace_component c p = p\<lparr>p_components := map (\<lambda>e. if c_id e = c_id c then c else e) (p_components p)\<rparr>"

definition update_component_usecase ::
    "env \<Rightarrow> string \<Rightarrow> string \<Rightarrow> component_patch \<Rightarrow> world \<Rightarrow> (exn + component) \<times> world" where
  "update_component_usecase v ref component_ref u w =
     (case component_of (load_project w ref) component_ref of
        Inl e \<Rightarrow> (Inl e, w)
      | Inr c \<Rightarrow>
          (case assert_connections w (cu_drone_connection_id u) (cu_gitea_connection_id u) of
             Inl e \<Rightarrow> (Inl e, w)
           | Inr _ \<Rightarrow>
               (case component_apply_update (now_of v w) u c of
                  Inl e \<Rightarrow> (Inl e, tick w)
                | Inr c' \<Rightarrow>
                    (case save_project (replace_component c' (projr (load_project w ref))) (tick w) of
                       (r, w1) \<Rightarrow> (component_of r (c_id c), w1)))))"

definition update_project_usecase :: "env \<Rightarrow> string \<Rightarrow> project_patch \<Rightarrow> world \<Rightarrow> (exn + project) \<times> world" where
  "update_project_usecase v ref u w =
     (case load_project w ref of
        Inl e \<Rightarrow> (Inl e, w)
      | Inr p \<Rightarrow>
          (case assert_connections w (pu_drone_connection_id u) (pu_gitea_connection_id u) of
             Inl e \<Rightarrow> (Inl e, w)
           | Inr _ \<Rightarrow> save_project (project_apply_update (now_of v w) u p) (tick w)))"

text \<open>Archiving and reordering do not move a promotion slot: they save without the check.\<close>

definition save_unchecked :: "project \<Rightarrow> world \<Rightarrow> (exn + project) \<times> world" where
  "save_unchecked p w = bind_exn (proj_save p w) (\<lambda>_ w1. (load_project (commit w1) (p_id p), commit w1))"

definition set_archived_usecase :: "env \<Rightarrow> string \<Rightarrow> bool \<Rightarrow> world \<Rightarrow> (exn + project) \<times> world" where
  "set_archived_usecase v ref archived w =
     (case load_project w ref of
        Inl e \<Rightarrow> (Inl e, w)
      | Inr p \<Rightarrow> save_unchecked (set_archived archived (now_of v w) p) (tick w))"

definition reorder_components :: "string \<Rightarrow> string list \<Rightarrow> world \<Rightarrow> (exn + project) \<times> world" where
  "reorder_components ref ids w =
     (case load_project w ref of
        Inl e \<Rightarrow> (Inl e, w)
      | Inr p \<Rightarrow> (case reorder ids p of Inl e \<Rightarrow> (Inl e, w) | Inr p' \<Rightarrow> save_unchecked p' w))"

definition msg_has_history :: "string \<Rightarrow> string" where
  "msg_has_history key = ''Component '' @ repr key @ '' has deployment history and cannot be deleted. '' @
     ''Set it inactive instead -- that stops new releases using it while keeping what it already deployed readable.''"

definition msg_is_scheduled :: "string \<Rightarrow> string" where
  "msg_is_scheduled key = ''Component '' @ repr key @ '' is part of a schedule and cannot be deleted. '' @
     ''Cancel the schedule first, or set the component inactive.''"

definition delete_component_usecase :: "string \<Rightarrow> string \<Rightarrow> world \<Rightarrow> (exn + unit) \<times> world" where
  "delete_component_usecase ref component_ref w =
     (case component_of (load_project w ref) component_ref of
        Inl e \<Rightarrow> (Inl e, w)
      | Inr c \<Rightarrow>
          (if has_deployments w (c_id c) then (Inl (ComponentInUseError (msg_has_history (c_key c))), w)
           else if is_scheduled w (c_id c) then (Inl (ComponentInUseError (msg_is_scheduled (c_key c))), w)
           else bind_exn (proj_save (remove_component c (projr (load_project w ref))) w)
                  (\<lambda>_ w1. (Inr (), commit w1))))"

subsection \<open>Reading and validating\<close>

definition get_project :: "string \<Rightarrow> world \<Rightarrow> exn + project" where
  "get_project ref w = load_project w ref"

definition get_component :: "string \<Rightarrow> string \<Rightarrow> world \<Rightarrow> exn + component" where
  "get_component ref component_ref w = component_of (load_project w ref) component_ref"

record project_validation =
  pv_status :: string
  pv_checks :: "check_result list"
  pv_conflicts :: "string list"

fun check_components ::
    "env \<Rightarrow> project \<Rightarrow> component list \<Rightarrow> world \<Rightarrow> (exn + check_result list) \<times> world" where
  "check_components v p [] w = (Inr [], w)"
| "check_components v p (c # cs) w =
     (if \<not> c_is_active c then check_components v p cs w
      else bind_exn (check_component v p c w) (\<lambda>r w1.
             bind_exn (check_components v p cs w1) (\<lambda>rs w2. (Inr (r # rs), w2))))"

definition validate_project :: "env \<Rightarrow> string \<Rightarrow> world \<Rightarrow> (exn + project_validation) \<times> world" where
  "validate_project v ref w =
     (case load_project w ref of
        Inl e \<Rightarrow> (Inl e, w)
      | Inr p \<Rightarrow> bind_exn (check_components v p (p_components p) w) (\<lambda>checks w1.
          let conflicts = slot_conflicts (drone_connection_ids w1 p) p
          in (Inr \<lparr>pv_status = (if list_all (\<lambda>c. ck_status c = ''ok'') checks \<and> conflicts = [] then ''ok''
                              else ''error''),
                 pv_checks = checks, pv_conflicts = conflicts\<rparr>, w1)))"

end
