(* ===== verification/Registry_Store_Laws.thy ===== *)
theory Registry_Store_Laws
  imports Registry_Usecases
begin

section \<open>What storing the registry guarantees\<close>

subsection \<open>Rows that do not collide\<close>

text \<open>Two rows that may stand in the table together.\<close>

definition apart :: "component_row \<Rightarrow> component_row \<Rightarrow> bool" where
  "apart r s \<longleftrightarrow> c_id r = c_id s \<or>
     c_project_id r \<noteq> c_project_id s \<or> (c_key r \<noteq> c_key s \<and> c_position r \<noteq> c_position s)"

definition all_apart :: "component_row set \<Rightarrow> bool" where
  "all_apart U \<longleftrightarrow> (\<forall>r \<in> U. \<forall>s \<in> U. apart r s)"

lemma all_apart_mono: "all_apart U \<Longrightarrow> V \<subseteq> U \<Longrightarrow> all_apart V"
  by (auto simp: all_apart_def)

lemma keyed_same_row: "keyed key rs \<Longrightarrow> r \<in> set rs \<Longrightarrow> s \<in> set rs \<Longrightarrow> key r = key s \<Longrightarrow> r = s"
  by (metis find_row_keyed option.inject)

lemma components_ok_apart:
  assumes "keyed c_id rs"
  shows "components_ok rs \<longleftrightarrow> all_apart (set rs)"
proof -
  let ?k = "\<lambda>r. (c_project_id r, c_key r)" and ?p = "\<lambda>r. (c_project_id r, c_position r)"
  have d: "distinct rs" using assms by (simp add: keyed_def distinct_map)
  have "all_apart (set rs)" if "inj_on ?k (set rs)" "inj_on ?p (set rs)"
    unfolding all_apart_def
  proof (intro ballI)
    fix r s assume rs: "r \<in> set rs" "s \<in> set rs"
    show "apart r s"
    proof (cases "r = s")
      case False
      then show ?thesis using inj_onD [OF that(1) _ rs] inj_onD [OF that(2) _ rs] by (auto simp: apart_def)
    qed (simp add: apart_def)
  qed
  moreover have "inj_on ?k (set rs) \<and> inj_on ?p (set rs)" if "all_apart (set rs)"
  proof -
    have "r = s" if rs: "r \<in> set rs" "s \<in> set rs" and "?k r = ?k s \<or> ?p r = ?p s" for r s
    proof (rule keyed_same_row [OF assms rs])
      show "c_id r = c_id s" using \<open>all_apart (set rs)\<close> that unfolding all_apart_def apart_def by auto
    qed
    then show ?thesis by (simp add: inj_on_def)
  qed
  ultimately show ?thesis using assms d unfolding components_ok_def distinct_map by blast
qed

text \<open>Tables that agree on every key.\<close>

lemma find_row_same_set:
  assumes "keyed key a" and "keyed key b" and "set a = set b"
  shows "find_row key i a = find_row key i b"
proof (cases "find_row key i a")
  case None
  then show ?thesis using assms(3) by (metis find_row_None)
next
  case (Some r)
  then have "r \<in> set b" "key r = i" using assms(3) by (auto dest: find_row_Some)
  then show ?thesis using Some find_row_keyed [OF assms(2)] by metis
qed

lemma find_row_const:
  "key r = k \<Longrightarrow> find_row key i (upd_row key k (\<lambda>_. r) rs) =
     (if i = k \<and> find_row key k rs \<noteq> None then Some r else find_row key i rs)"
  by (induction rs) auto

lemma keyed_const: "key r = k \<Longrightarrow> keyed key (upd_row key k (\<lambda>_. r) rs) = keyed key rs"
proof -
  assume "key r = k"
  then have "map key (upd_row key k (\<lambda>_. r) rs) = map key rs" by (induction rs) auto
  then show ?thesis by (simp add: keyed_def)
qed

lemma put_component_facts:
  assumes "keyed c_id rs"
  shows "keyed c_id (put_component r rs)"
    and "find_row c_id i (put_component r rs) = (if i = c_id r then Some r else find_row c_id i rs)"
    and "set (put_component r rs) \<subseteq> insert r (set rs)"
proof -
  show "keyed c_id (put_component r rs)"
    using assms keyed_const [of c_id r "c_id r" rs] by (auto simp: put_component_def keyed_def find_row_None)
  show "find_row c_id i (put_component r rs) = (if i = c_id r then Some r else find_row c_id i rs)"
    by (auto simp: put_component_def find_row_append find_row_const split: option.split)
  show "set (put_component r rs) \<subseteq> insert r (set rs)"
    by (auto simp: put_component_def upd_row_def)
qed

text \<open>Writing rows one by one never collides, when the old and the new rows are pairwise apart.\<close>

lemma put_components_apart:
  assumes "keyed c_id rs" and "all_apart U" and "set rs \<subseteq> U" and "set todo \<subseteq> U" and "keyed c_id todo"
  shows "\<exists>rs'. put_components todo rs = Some rs' \<and> keyed c_id rs' \<and> set rs' \<subseteq> U \<and>
    (\<forall>i. find_row c_id i rs' =
       (case find_row c_id i todo of Some r \<Rightarrow> Some r | None \<Rightarrow> find_row c_id i rs))"
  using assms
proof (induction todo arbitrary: rs)
  case (Cons r todo)
  note p = put_component_facts(1,3) [OF Cons.prems(1), of r] put_component_facts(2) [OF Cons.prems(1), where r = r]
  have sub: "set (put_component r rs) \<subseteq> U" using p(2) Cons.prems(3,4) by auto
  have ok: "components_ok (put_component r rs)"
    using components_ok_apart [OF p(1)] all_apart_mono [OF Cons.prems(2) sub] by simp
  have k: "keyed c_id todo" "find_row c_id (c_id r) todo = None"
    using Cons.prems(5) by (auto simp: keyed_def find_row_None)
  obtain rs' where rs': "put_components todo (put_component r rs) = Some rs'" "keyed c_id rs'" "set rs' \<subseteq> U"
      "\<forall>i. find_row c_id i rs' =
        (case find_row c_id i todo of Some x \<Rightarrow> Some x | None \<Rightarrow> find_row c_id i (put_component r rs))"
    using Cons.IH [OF p(1) Cons.prems(2) sub _ k(1)] Cons.prems(4) by auto
  have "find_row c_id i rs' =
      (case find_row c_id i (r # todo) of Some x \<Rightarrow> Some x | None \<Rightarrow> find_row c_id i rs)" for i
    using rs'(4) p(3) [of i] k(2) by (cases "i = c_id r") (auto split: option.split)
  then show ?case using rs' ok by simp
qed simp

lemma flush_order_facts:
  assumes "keyed c_id todo"
  shows "set (flush_order todo rs) = set todo" and "keyed c_id (flush_order todo rs)"
proof -
  show s: "set (flush_order todo rs) = set todo" by (auto simp: flush_order_def)
  have "mset (flush_order todo rs) = mset todo"
    by (simp add: flush_order_def flip: mset_append) (simp add: multiset_partition [of "mset todo"
        "\<lambda>r. find_row c_id (c_id r) rs = None", symmetric] mset_filter)
  then have "mset (map c_id (flush_order todo rs)) = mset (map c_id todo)" by simp
  then show "keyed c_id (flush_order todo rs)"
    using assms mset_eq_imp_distinct_iff unfolding keyed_def by blast
qed

lemma flush_components_apart:
  assumes "keyed c_id rs" and "all_apart U" and "set rs \<subseteq> U" and "set todo \<subseteq> U" and "keyed c_id todo"
  shows "\<exists>rs'. flush_components todo rs = Some rs' \<and> keyed c_id rs' \<and> set rs' \<subseteq> U \<and>
    (\<forall>i. find_row c_id i rs' =
       (case find_row c_id i todo of Some r \<Rightarrow> Some r | None \<Rightarrow> find_row c_id i rs))"
  using put_components_apart [OF assms(1-3), of "flush_order todo rs"] assms(4) flush_order_facts [OF assms(5), of rs]
    find_row_same_set [OF flush_order_facts(2) [OF assms(5), of rs] assms(5)]
  by (simp add: flush_components_def)

subsection \<open>Saving the components of a project\<close>

text \<open>
  What a use case guarantees of the aggregate it saves: the invariant of the aggregate; components
  that are stored already keep their project, key and time of creation; components it removes are not
  protected by a foreign key. Stored positions are positive.
\<close>

definition project_fits :: "project \<Rightarrow> world \<Rightarrow> bool" where
  "project_fits p w \<longleftrightarrow>
     components_ok (t_components (w_cur w)) \<and> project_inv p \<and>
     (\<forall>r \<in> set (t_components (w_cur w)). c_project_id r = p_id p \<longrightarrow> c_position r > 0) \<and>
     (\<forall>c \<in> set (p_components p). c_project_id c = p_id p \<and>
        (\<forall>r \<in> set (t_components (w_cur w)). c_id r = c_id c \<longrightarrow>
           c_project_id r = p_id p \<and> c_key r = c_key c \<and> c_created_at r = c_created_at c)) \<and>
     (\<forall>r \<in> set (t_components (w_cur w)). c_project_id r = p_id p \<longrightarrow> c_id r \<notin> c_id ` set (p_components p) \<longrightarrow>
        \<not> component_restricted w (c_id r))"

lemma component_row_of_simps [simp]:
  "c_id (component_row_of c) = c_id c" "c_key (component_row_of c) = c_key c"
  "c_project_id (component_row_of c) = c_project_id c" "c_position (component_row_of c) = c_position c"
  "c_created_at (component_row_of c) = c_created_at c"
  by (simp_all add: component_row_of_def component_row.defs)

lemma negated_simps [simp]:
  "c_id (negated r) = c_id r" "c_key (negated r) = c_key r" "c_project_id (negated r) = c_project_id r"
  "c_position (negated r) = - c_position r"
  by (simp_all add: negated_def)

text \<open>Applied to a row with the same identity, a component gives its own row.\<close>

lemma apply_component_same:
  fixes row :: component_row
  assumes "c_id row = c_id c" and "c_project_id row = c_project_id c" and "c_key row = c_key c"
    and "c_created_at row = c_created_at c"
  shows "(apply_component c row)\<lparr>c_position := c_position c\<rparr> = component_row_of c"
  using assms by (simp add: apply_component_def component_row_of_def component_row.defs)

lemma positions_of_inv:
  assumes "project_inv p"
  shows "distinct (map c_position (p_components p))" and "c \<in> set (p_components p) \<Longrightarrow> c_position c > 0"
    and "sorted (map c_position (p_components p))"
proof -
  have ps: "map c_position (p_components p) = map (\<lambda>i. 1 + int i) [0..<length (p_components p)]"
    using assms by (simp add: project_inv_def)
  show "distinct (map c_position (p_components p))" unfolding ps by (simp add: distinct_map inj_on_def)
  show "sorted (map c_position (p_components p))"
    unfolding ps by (simp add: sorted_iff_nth_mono_less)
  assume "c \<in> set (p_components p)"
  then have "c_position c \<in> set (map (\<lambda>i. 1 + int i) [0..<length (p_components p)])"
    unfolding ps [symmetric] by simp
  then show "c_position c > 0" by auto
qed

lemma component_pair:
  assumes "project_inv p" and "c \<in> set (p_components p)" and "d \<in> set (p_components p)" and "c_id c \<noteq> c_id d"
  shows "c_key c \<noteq> c_key d" and "c_position c \<noteq> c_position d"
proof -
  have "inj_on c_position (set (p_components p))" "inj_on c_key (set (p_components p))"
    using positions_of_inv(1) [OF assms(1)] assms(1) by (simp_all add: distinct_map project_inv_def)
  then show "c_key c \<noteq> c_key d" and "c_position c \<noteq> c_position d"
    using assms(2-4) by (auto dest: inj_onD)
qed

text \<open>The two flushes go through and leave the aggregate's rows and the other projects' rows.\<close>

lemma sync_components_rows:
  assumes fits: "project_fits p w"
  shows "\<exists>rs'. sync_components p w = (Inr (), set_components rs' w) \<and> components_ok rs' \<and>
    (\<forall>i. find_row c_id i rs' =
       (case find_row c_id i (map component_row_of (p_components p)) of
          Some r \<Rightarrow> Some r
        | None \<Rightarrow> find_row c_id i (filter (\<lambda>r. c_project_id r \<noteq> p_id p) (t_components (w_cur w)))))"
proof -
  define rs where "rs = t_components (w_cur w)"
  define wanted where "wanted = map c_id (p_components p)"
  define kept where "kept = filter (\<lambda>r. \<not> (c_project_id r = p_id p \<and> c_id r \<notin> set wanted)) rs"
  define mine where "mine = filter (\<lambda>r. c_project_id r = p_id p) kept"
  define fin where "fin = map component_row_of (p_components p)"
  have inv: "project_inv p" and ok: "components_ok rs" using fits by (simp_all add: project_fits_def rs_def)
  have k: "keyed c_id rs" using ok by (simp add: components_ok_def)
  have kk: "keyed c_id kept" using k by (simp add: keyed_def kept_def distinct_map_filter)
  have pid: "c_project_id c = p_id p" if "c \<in> set (p_components p)" for c
    using fits that by (simp add: project_fits_def)
  have stored: "c_project_id r = p_id p \<and> c_key r = c_key c \<and> c_created_at r = c_created_at c"
    if "c \<in> set (p_components p)" "r \<in> set rs" "c_id r = c_id c" for c r
    using fits that by (simp add: project_fits_def rs_def)
  have pos: "c_position r > 0" if "r \<in> set rs" "c_project_id r = p_id p" for r
    using fits that by (simp add: project_fits_def rs_def)
  have free: "\<not> list_ex (\<lambda>r. component_restricted w (c_id r))
      (filter (\<lambda>r. c_project_id r = p_id p \<and> c_id r \<notin> set wanted) rs)"
    using fits by (auto simp: project_fits_def rs_def wanted_def list_ex_iff)
  have final: "map (synced_row mine) (p_components p) = fin"
    unfolding fin_def
  proof (rule map_cong [OF refl])
    fix c assume c: "c \<in> set (p_components p)"
    show "synced_row mine c = component_row_of c"
    proof (cases "find_row c_id (c_id c) mine")
      case (Some row)
      then have "row \<in> set rs" "c_id row = c_id c" by (auto simp: mine_def kept_def dest: find_row_Some)
      then show ?thesis using Some stored [OF c] pid [OF c] by (simp add: synced_row_def apply_component_same)
    qed (simp add: synced_row_def)
  qed
  have kf: "keyed c_id fin" "keyed c_id (map negated fin)"
    using inv by (simp_all add: keyed_def fin_def project_inv_def comp_def)
  have fin_pair: "r \<in> set fin \<Longrightarrow> s \<in> set fin \<Longrightarrow> c_id r \<noteq> c_id s \<Longrightarrow>
      c_key r \<noteq> c_key s \<and> c_position r \<noteq> c_position s" for r s
    using component_pair [OF inv] by (auto simp: fin_def)
  have fin_pos: "r \<in> set fin \<Longrightarrow> c_position r > 0 \<and> c_project_id r = p_id p" for r
    using positions_of_inv(2) [OF inv] pid by (auto simp: fin_def)
  have fin_stored: "r \<in> set fin \<Longrightarrow> s \<in> set rs \<Longrightarrow> c_id s = c_id r \<Longrightarrow> c_key s = c_key r" for r s
    using stored by (auto simp: fin_def)
  have mine_of: "s \<in> set kept \<Longrightarrow> c_project_id s = p_id p \<Longrightarrow> \<exists>r \<in> set fin. c_id r = c_id s" for s
    by (auto simp: kept_def wanted_def fin_def)
  have sub: "set kept \<subseteq> set rs" by (auto simp: kept_def)
  have rs_apart: "all_apart (set rs)" using ok components_ok_apart [OF k] by simp
  have cross: "apart (negated r) s" if r: "r \<in> set fin" and s: "s \<in> set kept" for r s
  proof (cases "c_project_id s = p_id p \<and> c_id s \<noteq> c_id r")
    case True
    then obtain t where t: "t \<in> set fin" "c_id t = c_id s" using mine_of [OF s] by blast
    have "c_key s = c_key t" using fin_stored [OF t(1), of s] s sub t(2) by auto
    moreover have "c_key t \<noteq> c_key r" using fin_pair [OF t(1) r] t(2) True by simp
    moreover have "c_position s > 0" using pos [of s] s sub True by auto
    ultimately show ?thesis using fin_pos [OF r] by (auto simp: apart_def)
  next
    case False
    then show ?thesis using fin_pos [OF r] by (auto simp: apart_def)
  qed
  have sym: "apart r s \<Longrightarrow> apart s r" for r s by (auto simp: apart_def)
  have neg: "apart (negated r) (negated s)" "apart r s" "apart (negated r) s" if "r \<in> set fin" "s \<in> set fin" for r s
    using fin_pair [OF that] fin_pos [OF that(1)] fin_pos [OF that(2)] by (auto simp: apart_def)
  have U1: "all_apart (set kept \<union> set (map negated fin))"
    unfolding all_apart_def
    using rs_apart sub cross sym neg(1) by (auto simp: all_apart_def)
  obtain rs1 where rs1: "flush_components (map negated fin) kept = Some rs1" "keyed c_id rs1"
      "\<forall>i. find_row c_id i rs1 =
        (case find_row c_id i (map negated fin) of Some r \<Rightarrow> Some r | None \<Rightarrow> find_row c_id i kept)"
    using flush_components_apart [OF kk U1 _ _ kf(2)] by auto
  let ?others = "{s \<in> set kept. c_project_id s \<noteq> p_id p}"
  have in1: "set rs1 \<subseteq> ?others \<union> set (map negated fin)"
  proof
    fix s assume "s \<in> set rs1"
    then have f: "find_row c_id (c_id s) rs1 = Some s" using find_row_keyed [OF rs1(2)] by simp
    show "s \<in> ?others \<union> set (map negated fin)"
    proof (cases "find_row c_id (c_id s) (map negated fin)")
      case None
      then have "find_row c_id (c_id s) kept = Some s" using rs1(3) f by simp
      then have s: "s \<in> set kept" "c_id s \<notin> c_id ` set fin"
        using None by (auto simp: find_row_None image_image dest: find_row_Some)
      then have "c_project_id s \<noteq> p_id p" using mine_of [OF s(1)] by (metis imageI)
      then show ?thesis using s(1) by simp
    next
      case (Some x)
      then show ?thesis using rs1(3) f by (auto dest: find_row_Some)
    qed
  qed
  have U2: "all_apart (?others \<union> set (map negated fin) \<union> set fin)"
  proof -
    have o: "apart r s" if "r \<in> ?others" "s \<in> set fin \<union> set (map negated fin)" for r s
      using that fin_pos by (auto simp: apart_def)
    have oo: "apart r s" if "r \<in> ?others" "s \<in> ?others" for r s
      using that rs_apart sub by (auto simp: all_apart_def)
    show ?thesis
      unfolding all_apart_def using o oo sym neg by (auto 0 3)
  qed
  obtain rs2 where rs2: "flush_components fin rs1 = Some rs2" "keyed c_id rs2"
      "set rs2 \<subseteq> ?others \<union> set (map negated fin) \<union> set fin"
      "\<forall>i. find_row c_id i rs2 =
        (case find_row c_id i fin of Some r \<Rightarrow> Some r | None \<Rightarrow> find_row c_id i rs1)"
    using flush_components_apart [OF rs1(2) U2 _ _ kf(1)] in1 by auto
  have ok2: "components_ok rs2"
    using components_ok_apart [OF rs2(2)] all_apart_mono [OF U2 rs2(3)] by simp
  have find2: "find_row c_id i rs2 =
      (case find_row c_id i fin of Some r \<Rightarrow> Some r
       | None \<Rightarrow> find_row c_id i (filter (\<lambda>r. c_project_id r \<noteq> p_id p) rs))" for i
  proof (cases "find_row c_id i fin")
    case None
    then have n: "i \<notin> c_id ` set fin" by (simp add: find_row_None)
    then have "find_row c_id i (map negated fin) = None" by (auto simp: find_row_None)
    then have "find_row c_id i rs2 = find_row c_id i kept" using rs2(4) rs1(3) None by simp
    also have "\<dots> = find_row c_id i (filter (\<lambda>r. c_project_id r \<noteq> p_id p) rs)"
    proof -
      have w: "i \<notin> set wanted" using n by (simp add: wanted_def fin_def image_image)
      show ?thesis unfolding kept_def using w by (induction rs) auto
    qed
    finally show ?thesis using None by simp
  qed (use rs2(4) in simp)
  have "sync_components p w = (Inr (), set_components rs2 w)"
    unfolding sync_components_def Let_def rs_def [symmetric] wanted_def [symmetric] kept_def [symmetric]
      mine_def [symmetric] final
    using free rs1(1) rs2(1) by simp
  then show ?thesis using ok2 find2 unfolding fin_def rs_def by blast
qed

subsection \<open>What is saved is what is read\<close>

lemma component_entity_same:
  assumes "inherits p c = c"
  shows "component_to_entity (project_row.truncate p) (component_row_of c) = c"
  using assms
  by (cases c) (simp add: component_to_entity_def component_row_of_def component_row.defs component.defs
      inherits_def inherit_from_project_def project_row.defs)

lemma project_init_same:
  assumes "project_inv p"
  shows "project_init (project_row.truncate p)
    (map (component_to_entity (project_row.truncate p)) (map component_row_of (p_components p))) = p"
proof -
  have inh: "inherits p c = c" if "c \<in> set (p_components p)" for c
    using assms that by (auto simp: project_inv_def list_all_iff)
  have "map (component_to_entity (project_row.truncate p)) (map component_row_of (p_components p)) = p_components p"
    unfolding map_map by (rule map_idI) (simp add: component_entity_same inh)
  moreover have "sort_key c_position (p_components p) = p_components p"
    using positions_of_inv(3) [OF assms] by (rule sort_key_id_if_sorted)
  moreover have "map (inherits (project_row.truncate p)) (p_components p) = p_components p"
  proof -
    have "inherits (project_row.truncate p) = inherits p"
      by (rule ext) (simp add: inherits_def project_row.defs)
    then show ?thesis using inh by (simp add: map_idI)
  qed
  ultimately show ?thesis
    by (simp add: project_init_def) (simp add: project_row.defs project.defs)
qed

lemma project_rows_sorted:
  assumes "project_inv p" and "\<forall>c \<in> set (p_components p). c_project_id c = p_id p"
    and "keyed c_id rs" and "\<forall>i. find_row c_id i rs =
       (case find_row c_id i (map component_row_of (p_components p)) of
          Some r \<Rightarrow> Some r | None \<Rightarrow> find_row c_id i (filter (\<lambda>r. c_project_id r \<noteq> p_id p) old))"
  shows "sort_key c_position (filter (\<lambda>r. c_project_id r = p_id p) rs) = map component_row_of (p_components p)"
proof -
  let ?fin = "map component_row_of (p_components p)" and ?mine = "filter (\<lambda>r. c_project_id r = p_id p) rs"
  have kf: "keyed c_id ?fin" using assms(1) by (simp add: keyed_def project_inv_def comp_def)
  have "set ?mine = set ?fin"
  proof (intro set_eqI iffI)
    fix r assume "r \<in> set ?mine"
    then have r: "find_row c_id (c_id r) rs = Some r" "c_project_id r = p_id p"
      using find_row_keyed [OF assms(3)] by auto
    show "r \<in> set ?fin"
    proof (cases "find_row c_id (c_id r) ?fin")
      case None
      then have "find_row c_id (c_id r) (filter (\<lambda>r. c_project_id r \<noteq> p_id p) old) = Some r"
        using assms(4) r(1) by simp
      then show ?thesis using r(2) by (auto dest: find_row_Some)
    next
      case (Some x)
      then have "x = r" using assms(4) r(1) by simp
      then show ?thesis using find_row_Some [OF Some] by simp
    qed
  next
    fix r assume r: "r \<in> set ?fin"
    then have "find_row c_id (c_id r) ?fin = Some r" by (rule find_row_keyed [OF kf])
    then have "find_row c_id (c_id r) rs = Some r" using assms(4) by simp
    then show "r \<in> set ?mine" using assms(2) r by (auto dest!: find_row_Some)
  qed
  moreover have "distinct ?mine"
    using assms(3) distinct_filter distinct_map unfolding keyed_def by blast
  moreover have "distinct ?fin"
    using kf unfolding keyed_def by (rule distinct_map [THEN iffD1, THEN conjunct1])
  ultimately have m: "mset ?mine = mset ?fin" using set_eq_iff_mset_eq_distinct by blast
  have inj: "inj_on c_position (set ?mine)"
  proof -
    have "distinct (map c_position ?fin)" using positions_of_inv(1) [OF assms(1)] by (simp add: comp_def)
    then have "inj_on c_position (set ?fin)" by (simp only: distinct_map)
    then show ?thesis using mset_eq_setD [OF m] by simp
  qed
  have "sorted (map c_position ?fin)" using positions_of_inv(3) [OF assms(1)] by (simp add: comp_def)
  then show ?thesis using sort_key_inj_key_eq [OF m inj] by simp
qed

text \<open>Saving an aggregate that fits always goes through, and reading it back gives the same aggregate.\<close>

lemma proj_save_reads_back:
  assumes fits: "project_fits p w" and row: "find_row p_id (p_id p) (t_projects (w_cur w)) = Some row"
    and same: "p_key row = p_key p" "p_created_at row = p_created_at p"
  shows "\<exists>w1. proj_save p w = (Inr (), w1) \<and> load_project (commit w1) (p_id p) = Inr p \<and>
    components_ok (t_components (w_cur w1)) \<and>
    t_projects (w_cur w1) = upd_row p_id (p_id p) (apply_project p) (t_projects (w_cur w)) \<and>
    (\<forall>i. i \<notin> c_id ` set (p_components p) \<longrightarrow> find_row c_id i (t_components (w_cur w1)) =
       find_row c_id i (filter (\<lambda>r. c_project_id r \<noteq> p_id p) (t_components (w_cur w))))"
proof -
  define w0 where "w0 = set_projects (upd_row p_id (p_id p) (apply_project p) (t_projects (w_cur w))) w"
  have t: "t_components (w_cur w0) = t_components (w_cur w)" "component_restricted w0 = component_restricted w"
    by (auto simp: w0_def set_projects_def component_restricted_def has_deployments_def is_scheduled_def fun_eq_iff)
  have fits0: "project_fits p w0" using fits by (simp add: project_fits_def t)
  obtain rs where rs: "sync_components p w0 = (Inr (), set_components rs w0)" "components_ok rs"
      "\<forall>i. find_row c_id i rs = (case find_row c_id i (map component_row_of (p_components p)) of
          Some r \<Rightarrow> Some r
        | None \<Rightarrow> find_row c_id i (filter (\<lambda>r. c_project_id r \<noteq> p_id p) (t_components (w_cur w0))))"
    using sync_components_rows [OF fits0] by blast
  define w1 where "w1 = set_components rs w0"
  have run: "proj_save p w = (Inr (), w1)" using row rs(1) by (simp add: proj_save_def w0_def w1_def)
  have inv: "project_inv p" and pid: "\<forall>c \<in> set (p_components p). c_project_id c = p_id p"
    using fits by (simp_all add: project_fits_def)
  have ps: "t_projects (w_cur w1) = upd_row p_id (p_id p) (apply_project p) (t_projects (w_cur w))"
    by (simp add: w1_def set_components_def w0_def set_projects_def)
  have "p_id row = p_id p" using row by (auto dest: find_row_Some)
  then have tr: "apply_project p row = project_row.truncate p"
    using same by (simp add: apply_project_def project_row.defs)
  have new_row: "find_row p_id (p_id p) (t_projects (w_cur w1)) = Some (project_row.truncate p)"
    using row tr by (simp add: ps find_row_upd_same apply_project_def)
  have comps: "project_components (commit w1) (project_row.truncate p) = map component_row_of (p_components p)"
    using project_rows_sorted [OF inv pid _ rs(3)] rs(2)
    by (simp add: project_components_def w1_def set_components_def components_ok_def project_row.defs)
  have trunc: "project_row.truncate (project_row.truncate p) = project_row.truncate p" by (simp add: project_row.defs)
  have "project_to_entity (commit w1) (project_row.truncate p) = p"
    unfolding project_to_entity_def comps trunc by (rule project_init_same [OF inv])
  then have load: "load_project (commit w1) (p_id p) = Inr p"
    using new_row by (simp add: load_project_def proj_find_def)
  have frame: "find_row c_id i (t_components (w_cur w1)) =
      find_row c_id i (filter (\<lambda>r. c_project_id r \<noteq> p_id p) (t_components (w_cur w)))"
    if "i \<notin> c_id ` set (p_components p)" for i
  proof -
    have "find_row c_id i (map component_row_of (p_components p)) = None"
      using that by (simp add: find_row_None image_image)
    then show ?thesis using rs(3) t(1) by (simp add: w1_def set_components_def)
  qed
  show ?thesis using run load ps frame rs(2) by (auto simp: w1_def set_components_def)
qed

end
