(* ===== verification/Registry_Refinement.thy ===== *)
theory Registry_Refinement
  imports Registry_Store_Laws
begin

section \<open>The registry as a map of aggregates\<close>

text \<open>
  The use cases of app/usecase/registry work on rows; what they promise is an operation on one
  aggregate. The abstract state is the map from project id to project, and the invariant of the
  database is the unique constraints and the invariant of every aggregate it holds.
\<close>

definition stored :: "world \<Rightarrow> string \<rightharpoonup> project" where
  "stored w i = map_option (project_to_entity w) (find_row p_id i (t_projects (w_cur w)))"

definition registry_ok :: "world \<Rightarrow> bool" where
  "registry_ok w \<longleftrightarrow>
     projects_ok (t_projects (w_cur w)) \<and> components_ok (t_components (w_cur w)) \<and>
     list_all (\<lambda>r. c_position r > 0) (t_components (w_cur w)) \<and>
     list_all (\<lambda>row. project_inv (project_to_entity w row)) (t_projects (w_cur w))"


lemma entity_simps [simp]:
  "p_id (project_to_entity w row) = p_id row" "p_key (project_to_entity w row) = p_key row"
  "p_created_at (project_to_entity w row) = p_created_at row"
  by (simp_all add: project_to_entity_def project_init_def project_row.defs project.defs)

lemma component_to_entity_simps [simp]:
  "c_id (component_to_entity p r) = c_id r" "c_key (component_to_entity p r) = c_key r"
  "c_project_id (component_to_entity p r) = c_project_id r"
  "c_position (component_to_entity p r) = c_position r" "c_created_at (component_to_entity p r) = c_created_at r"
  by (simp_all add: component_to_entity_def component_row.defs)

lemma inherits_row_simps [simp]:
  "c_project_id (inherits p c) = c_project_id c" "c_created_at (inherits p c) = c_created_at c"
  by (simp_all add: inherits_def inherit_from_project_def)

lemma entity_components:
  "p_components (project_to_entity w row) =
     map (\<lambda>r. inherits (project_row.truncate row) (component_to_entity row r)) (project_components w row)"
proof -
  have "sorted (map c_position (map (component_to_entity row) (project_components w row)))"
    by (simp add: o_def project_components_def)
  then have "sort_key c_position (map (component_to_entity row) (project_components w row)) =
      map (component_to_entity row) (project_components w row)" by (rule sort_key_id_if_sorted)
  then show ?thesis
    by (simp add: project_to_entity_def project_init_def project_row.defs project.defs)
qed

text \<open>A component of a loaded project is a row of the project, and the other way round.\<close>

lemma entity_rows:
  "c \<in> set (p_components (project_to_entity w row)) \<Longrightarrow>
     \<exists>r \<in> set (t_components (w_cur w)). c_project_id r = p_id row \<and> c_id r = c_id c \<and> c_key r = c_key c \<and>
       c_created_at r = c_created_at c \<and> c_project_id c = p_id row"
  "r \<in> set (t_components (w_cur w)) \<Longrightarrow> c_project_id r = p_id row \<Longrightarrow>
     c_id r \<in> c_id ` set (p_components (project_to_entity w row))"
proof -
  assume "c \<in> set (p_components (project_to_entity w row))"
  then obtain r where "r \<in> set (t_components (w_cur w))" "c_project_id r = p_id row"
      "c = inherits (project_row.truncate row) (component_to_entity row r)"
    by (auto simp: entity_components project_components_def)
  then show "\<exists>r \<in> set (t_components (w_cur w)). c_project_id r = p_id row \<and> c_id r = c_id c \<and>
      c_key r = c_key c \<and> c_created_at r = c_created_at c \<and> c_project_id c = p_id row"
    by (intro bexI [of _ r]) simp_all
next
  assume "r \<in> set (t_components (w_cur w))" "c_project_id r = p_id row"
  then have "inherits (project_row.truncate row) (component_to_entity row r) \<in> set (p_components (project_to_entity w row))"
    by (auto simp: entity_components project_components_def)
  then show "c_id r \<in> c_id ` set (p_components (project_to_entity w row))" by (auto intro: rev_image_eqI)
qed

lemma load_project_row:
  assumes "projects_ok (t_projects (w_cur w))" and "load_project w ref = Inr p"
  shows "\<exists>row. find_row p_id (p_id p) (t_projects (w_cur w)) = Some row \<and> p = project_to_entity w row"
proof -
  have k: "keyed p_id (t_projects (w_cur w))" using assms(1) by (simp add: projects_ok_def)
  obtain row where "row \<in> set (t_projects (w_cur w))" "p = project_to_entity w row"
    using assms(2) by (auto simp: load_project_def proj_find_def split: option.splits dest: find_row_Some)
  then show ?thesis using find_row_keyed [OF k] by auto
qed

text \<open>Projects whose rows and component rows are the same are the same aggregates.\<close>

lemma entity_cong:
  assumes "components_ok (t_components (w_cur w))" and "components_ok (t_components (w_cur w'))"
    and "\<And>r. c_project_id r = p_id row \<Longrightarrow>
      r \<in> set (t_components (w_cur w)) \<longleftrightarrow> r \<in> set (t_components (w_cur w'))"
  shows "project_to_entity w row = project_to_entity w' row"
proof -
  let ?f = "\<lambda>w. filter (\<lambda>r. c_project_id r = p_id row) (t_components (w_cur w))"
  have d: "distinct (?f w)" "distinct (?f w')"
    using assms(1,2) unfolding components_ok_def keyed_def distinct_map by auto
  have "set (?f w) = set (?f w')" using assms(3) by auto
  then have m: "mset (?f w) = mset (?f w')" using d set_eq_iff_mset_eq_distinct by blast
  have "distinct (map (\<lambda>r. (c_project_id r, c_position r)) (?f w))"
    using assms(1) unfolding components_ok_def by (blast intro: distinct_map_filter)
  then have "inj_on c_position (set (?f w))"
    unfolding distinct_map by (auto simp: inj_on_def)
  then have "inj_on c_position (set (?f w'))" using mset_eq_setD [OF m] by simp
  then have "sort_key c_position (?f w) = sort_key c_position (?f w')"
    using sort_key_inj_key_eq [of "?f w'" "?f w" c_position]
      sort_key_inj_key_eq [of "?f w" "sort_key c_position (?f w')" c_position] m mset_eq_setD [OF m] by simp
  then show ?thesis by (simp add: project_to_entity_def project_components_def)
qed

text \<open>
  What an operation leaves of the aggregate it is given: its identity, and of every component that
  was there the project, the key and the time of creation. A new component has an id of its own.
\<close>

definition same_identity :: "world \<Rightarrow> project \<Rightarrow> project \<Rightarrow> bool" where
  "same_identity w p q \<longleftrightarrow>
     p_id q = p_id p \<and> p_key q = p_key p \<and> p_created_at q = p_created_at p \<and>
     (\<forall>c \<in> set (p_components q). c_project_id c = p_id p \<and>
        (c_id c \<notin> c_id ` set (t_components (w_cur w)) \<or>
         (\<exists>d \<in> set (p_components p). c_id d = c_id c \<and> c_key d = c_key c \<and> c_created_at d = c_created_at c)))"

definition removed_free :: "world \<Rightarrow> project \<Rightarrow> project \<Rightarrow> bool" where
  "removed_free w p q \<longleftrightarrow>
     (\<forall>c \<in> set (p_components p). c_id c \<notin> c_id ` set (p_components q) \<longrightarrow> \<not> component_restricted w (c_id c))"

lemma identity_fits:
  assumes ok: "registry_ok w" and row: "p = project_to_entity w row" and inv: "project_inv q"
    and ident: "same_identity w p q" and free: "removed_free w p q"
  shows "project_fits q w"
proof -
  have comps: "components_ok (t_components (w_cur w))" using ok by (simp add: registry_ok_def)
  then have k: "keyed c_id (t_components (w_cur w))" by (simp add: components_ok_def)
  have pid: "p_id q = p_id row" using ident row by (simp add: same_identity_def)
  have keep: "c_project_id r = p_id q \<and> c_key r = c_key c \<and> c_created_at r = c_created_at c"
    if c: "c \<in> set (p_components q)" and r: "r \<in> set (t_components (w_cur w))" "c_id r = c_id c" for c r
  proof -
    have "c_id c \<in> c_id ` set (t_components (w_cur w))" using r by (auto intro: rev_image_eqI)
    then obtain d where d: "d \<in> set (p_components p)" "c_id d = c_id c" "c_key d = c_key c" "c_created_at d = c_created_at c"
      using ident c unfolding same_identity_def by blast
    obtain s where s: "s \<in> set (t_components (w_cur w))" "c_project_id s = p_id row" "c_id s = c_id d"
        "c_key s = c_key d" "c_created_at s = c_created_at d"
      using entity_rows(1) [OF d(1) [unfolded row]] by blast
    have "s = r" using keyed_same_row [OF k s(1) r(1)] s(3) d(2) r(2) by simp
    then show ?thesis using s d pid by simp
  qed
  have gone: "\<not> component_restricted w (c_id r)"
    if r: "r \<in> set (t_components (w_cur w))" "c_project_id r = p_id q" and n: "c_id r \<notin> c_id ` set (p_components q)" for r
  proof -
    obtain c where "c \<in> set (p_components p)" "c_id c = c_id r"
      using entity_rows(2) [OF r(1)] r(2) pid row by (metis imageE)
    then show ?thesis using free n unfolding removed_free_def by metis
  qed
  have pid_c: "\<forall>c \<in> set (p_components q). c_project_id c = p_id q"
    using ident by (simp add: same_identity_def)
  have pos: "\<forall>r \<in> set (t_components (w_cur w)). c_position r > 0"
    using ok by (simp add: registry_ok_def list_all_iff)
  show ?thesis
    unfolding project_fits_def using comps inv keep gone pid_c pos by blast
qed

lemma find_row_mem: "keyed key rs \<Longrightarrow> r \<in> set rs \<longleftrightarrow> find_row key (key r) rs = Some r"
  using find_row_keyed find_row_Some by metis

text \<open>Saving such an aggregate replaces it in the map and keeps the database well formed.\<close>

lemma save_updates_map:
  assumes ok: "registry_ok w" and row: "find_row p_id (p_id p) (t_projects (w_cur w)) = Some row"
    and p: "p = project_to_entity w row" and inv: "project_inv q"
    and ident: "same_identity w p q" and free: "removed_free w p q"
  shows "\<exists>w1. proj_save q w = (Inr (), w1) \<and> load_project (commit w1) (p_id q) = Inr q \<and>
    stored (commit w1) = (stored w)(p_id p \<mapsto> q) \<and> registry_ok (commit w1)"
proof -
  have idq: "p_id q = p_id p" "p_key q = p_key p" "p_created_at q = p_created_at p"
    using ident by (simp_all add: same_identity_def)
  have idr: "p_id row = p_id p" "p_key row = p_key p" "p_created_at row = p_created_at p" using p by simp_all
  have psok: "projects_ok (t_projects (w_cur w))" and csok: "components_ok (t_components (w_cur w))"
    using ok by (simp_all add: registry_ok_def)
  note fits = identity_fits [OF ok p inv ident free]
  obtain w1 where w1: "proj_save q w = (Inr (), w1)" "load_project (commit w1) (p_id q) = Inr q"
      "components_ok (t_components (w_cur w1))"
      "t_projects (w_cur w1) = upd_row p_id (p_id q) (apply_project q) (t_projects (w_cur w))"
      "\<forall>i. i \<notin> c_id ` set (p_components q) \<longrightarrow> find_row c_id i (t_components (w_cur w1)) =
         find_row c_id i (filter (\<lambda>r. c_project_id r \<noteq> p_id q) (t_components (w_cur w)))"
    using proj_save_reads_back [OF fits] row idq idr by auto
  have keys: "p_id (apply_project q x) = p_id x" "p_key (apply_project q x) = p_key x" for x
    by (simp_all add: apply_project_def)
  have find1: "find_row p_id i (t_projects (w_cur w1)) =
      (if i = p_id p then Some (apply_project q row) else find_row p_id i (t_projects (w_cur w)))" for i
    using w1(4) row keys idq(1) by auto
  have q: "project_to_entity (commit w1) (apply_project q row) = q"
    using w1(2) find1 [of "p_id p"] idq(1) by (simp add: load_project_def proj_find_def)
  have kc: "keyed c_id (t_components (w_cur w))" "keyed c_id (t_components (w_cur w1))"
    using csok w1(3) by (simp_all add: components_ok_def)
  have rows: "r \<in> set (t_components (w_cur w)) \<longleftrightarrow> r \<in> set (t_components (w_cur w1))"
    if r: "c_project_id r \<noteq> p_id p" for r
  proof (cases "c_id r \<in> c_id ` set (p_components q)")
    case True
    then obtain c where c: "c \<in> set (p_components q)" "c_id c = c_id r" by (metis imageE)
    have "r \<notin> set (t_components (w_cur w))"
      using fits c r idq(1) unfolding project_fits_def by metis
    moreover have "r \<notin> set (t_components (w_cur w1))"
    proof
      assume r1: "r \<in> set (t_components (w_cur w1))"
      have "c \<in> set (p_components (project_to_entity (commit w1) (apply_project q row)))"
        unfolding q by (rule c(1))
      from entity_rows(1) [OF this] obtain s where s: "s \<in> set (t_components (w_cur w1))"
          "c_project_id s = p_id row" "c_id s = c_id c" by (auto simp: keys)
      have "r = s" by (rule keyed_same_row [OF kc(2) r1 s(1)]) (simp add: s(3) c(2))
      then show False using s(2) r idr(1) by simp
    qed
    ultimately show ?thesis by simp
  next
    case False
    let ?others = "filter (\<lambda>r. c_project_id r \<noteq> p_id q) (t_components (w_cur w))"
    have "find_row c_id (c_id r) (t_components (w_cur w1)) = find_row c_id (c_id r) ?others"
      using w1(5) False by blast
    moreover have "keyed c_id ?others" using kc(1) unfolding keyed_def by (rule distinct_map_filter)
    ultimately show ?thesis
      using find_row_mem [OF kc(2), of r] find_row_mem [of c_id ?others r] r idq(1) by auto
  qed
  have other: "project_to_entity (commit w1) x = project_to_entity w x" if "p_id x \<noteq> p_id p" for x :: project_row
  proof (rule entity_cong [symmetric])
    fix r :: component_row assume "c_project_id r = p_id x"
    then show "r \<in> set (t_components (w_cur w)) \<longleftrightarrow> r \<in> set (t_components (w_cur (commit w1)))"
      using rows [of r] that by simp
  qed (simp_all add: csok w1(3))
  have st: "stored (commit w1) = (stored w)(p_id p \<mapsto> q)"
  proof
    fix i show "stored (commit w1) i = ((stored w)(p_id p \<mapsto> q)) i"
    proof (cases "i = p_id p")
      case True
      then show ?thesis using find1 [of i] q by (simp add: stored_def)
    next
      case False
      then have "map_option (project_to_entity (commit w1)) (find_row p_id i (t_projects (w_cur w))) =
          map_option (project_to_entity w) (find_row p_id i (t_projects (w_cur w)))"
        using other by (cases "find_row p_id i (t_projects (w_cur w))") (auto dest: find_row_Some)
      then show ?thesis using False find1 [of i] by (simp add: stored_def)
    qed
  qed
  have "c_position r > 0" if "r \<in> set (t_components (w_cur w1))" for r
  proof (cases "c_project_id r = p_id p")
    case True
    then have "inherits (project_row.truncate (apply_project q row)) (component_to_entity (apply_project q row) r)
        \<in> set (p_components q)"
      using that idr keys by (subst (2) q [symmetric]) (simp add: entity_components project_components_def)
    then show ?thesis using positions_of_inv(2) [OF inv] by fastforce
  next
    case False
    then show ?thesis using rows that ok by (simp add: registry_ok_def list_all_iff)
  qed
  moreover have "project_inv (project_to_entity (commit w1) x)" if "x \<in> set (t_projects (w_cur w1))" for x
  proof -
    have "keyed p_id (t_projects (w_cur w1))" using psok w1(4) keys by (simp add: projects_ok_def)
    then have "find_row p_id (p_id x) (t_projects (w_cur w1)) = Some x" using that by (rule find_row_keyed)
    then show ?thesis
      using find1 [of "p_id x"] q inv other [of x] ok
      by (auto simp: registry_ok_def list_all_iff dest: find_row_Some split: if_splits)
  qed
  moreover have "projects_ok (t_projects (w_cur w1))"
  proof -
    have "map p_key (t_projects (w_cur w1)) = map p_key (t_projects (w_cur w))"
      unfolding w1(4) by (simp add: upd_row_def keys)
    then show ?thesis using psok w1(4) keys by (simp add: projects_ok_def)
  qed
  ultimately have "registry_ok (commit w1)" using w1(3) by (simp add: registry_ok_def list_all_iff)
  then show ?thesis using w1(1,2) st by blast
qed

subsection \<open>Commands on one aggregate\<close>

datatype registry_command =
    Archive bool
  | Reorder "string list"
  | Patch_Project project_patch
  | Patch_Component string component_patch
  | Delete_Component string
  | Add_Component new_component

definition slot_checked :: "world \<Rightarrow> project \<Rightarrow> exn + project" where
  "slot_checked w q = (case assert_no_slot_conflict (drone_connection_ids w q) q of Inl e \<Rightarrow> Inl e | Inr _ \<Rightarrow> Inr q)"

definition bind_sum :: "exn + 'a \<Rightarrow> ('a \<Rightarrow> exn + 'b) \<Rightarrow> exn + 'b" where
  "bind_sum r f = (case r of Inl e \<Rightarrow> Inl e | Inr x \<Rightarrow> f x)"

lemma bind_sum_simps [simp]: "bind_sum (Inl e) f = Inl e" "bind_sum (Inr x) f = f x"
  by (simp_all add: bind_sum_def)

text \<open>What the command makes of the aggregate; the guards read the rest of the database.\<close>

fun command_spec :: "registry_command \<Rightarrow> env \<Rightarrow> world \<Rightarrow> project \<Rightarrow> exn + project" where
  "command_spec (Archive a) v w p = Inr (set_archived a (now_of v w) p)"
| "command_spec (Reorder ids) v w p = reorder ids p"
| "command_spec (Patch_Project u) v w p =
     bind_sum (assert_connections w (pu_drone_connection_id u) (pu_gitea_connection_id u))
       (\<lambda>_. slot_checked w (project_apply_update (now_of v w) u p))"
| "command_spec (Patch_Component ref u) v w p =
     bind_sum (project_component ref p) (\<lambda>c.
       bind_sum (assert_connections w (cu_drone_connection_id u) (cu_gitea_connection_id u)) (\<lambda>_.
         bind_sum (component_apply_update (now_of v w) u c) (\<lambda>c'. slot_checked w (replace_component c' p))))"
| "command_spec (Delete_Component ref) v w p =
     bind_sum (project_component ref p) (\<lambda>c.
       if has_deployments w (c_id c) then Inl (ComponentInUseError (msg_has_history (c_key c)))
       else if is_scheduled w (c_id c) then Inl (ComponentInUseError (msg_is_scheduled (c_key c)))
       else if component_restricted w (c_id c) then Inl IntegrityError
       else Inr (remove_component c p))"
| "command_spec (Add_Component s) v w p =
     bind_sum (assert_connections w (nc_drone_connection_id s) (nc_gitea_connection_id s)) (\<lambda>_.
       bind_sum (build_component (new_uuid v w) p s (int (length (p_components p)) + 1) (now_of v w)) (\<lambda>c.
         bind_sum (add_component c (nc_position s) p) (slot_checked w)))"

definition drop_answer :: "(exn + 'a) \<times> world \<Rightarrow> (exn + unit) \<times> world" where
  "drop_answer r = (case r of (Inl e, w) \<Rightarrow> (Inl e, w) | (Inr _, w) \<Rightarrow> (Inr (), w))"

lemma drop_answer_simps [simp]: "drop_answer (Inl e, w) = (Inl e, w)" "drop_answer (Inr x, w) = (Inr (), w)"
  by (simp_all add: drop_answer_def)

fun run_command :: "registry_command \<Rightarrow> env \<Rightarrow> string \<Rightarrow> world \<Rightarrow> (exn + unit) \<times> world" where
  "run_command (Archive a) v ref w = drop_answer (set_archived_usecase v ref a w)"
| "run_command (Reorder ids) v ref w = drop_answer (reorder_components ref ids w)"
| "run_command (Patch_Project u) v ref w = drop_answer (update_project_usecase v ref u w)"
| "run_command (Patch_Component c u) v ref w = drop_answer (update_component_usecase v ref c u w)"
| "run_command (Delete_Component c) v ref w = delete_component_usecase ref c w"
| "run_command (Add_Component s) v ref w = drop_answer (add_component_usecase v ref s w)"

text \<open>What a command promises, given what its specification says.\<close>

definition command_done :: "world \<Rightarrow> project \<Rightarrow> exn + project \<Rightarrow> (exn + unit) \<times> world \<Rightarrow> bool" where
  "command_done w p spec run \<longleftrightarrow>
     (case spec of
        Inl e \<Rightarrow> fst run = Inl e \<and> w_cur (rollback (snd run)) = w_cur w
      | Inr q \<Rightarrow> fst run = Inr () \<and> stored (snd run) = (stored w)(p_id p \<mapsto> q) \<and> registry_ok (snd run) \<and>
          w_durable (snd run) = w_cur (snd run))"

lemma entity_tick [simp]: "project_to_entity (tick w) row = project_to_entity w row"
  by (simp add: project_to_entity_def project_components_def)

lemma registry_ok_tick [simp]: "registry_ok (tick w) = registry_ok w"
  by (simp add: registry_ok_def)

lemma load_project_tick [simp]: "load_project (tick w) ref = load_project w ref"
proof -
  have "project_to_entity (tick w) = project_to_entity w" by (rule ext) simp
  then have "proj_find (tick w) ref = proj_find w ref"
    unfolding proj_find_def world_ops by (rule ssubst) (rule refl)
  then show ?thesis by (simp add: load_project_def)
qed

lemma stored_tick [simp]: "stored (tick w) = stored w"
proof
  have "project_to_entity (tick w) = project_to_entity w" by (rule ext) simp
  then show "stored (tick w) i = stored w i" for i by (simp add: stored_def)
qed

lemma same_identity_tick [simp]: "same_identity (tick w) p q = same_identity w p q"
  by (simp add: same_identity_def)

lemma restricted_tick [simp]: "component_restricted (tick w) = component_restricted w"
  by (simp add: fun_eq_iff component_restricted_def has_deployments_def is_scheduled_def)

lemma removed_free_tick [simp]: "removed_free (tick w) p q = removed_free w p q"
  by (simp add: removed_free_def)

lemma find_connection_tick [simp]: "find_connection (tick w) = find_connection w"
  by (simp add: fun_eq_iff find_connection_def)

lemma resolve_default_tick [simp]: "resolve_default (tick w) kind = resolve_default w kind"
proof -
  have "find_default (tick w) kind = find_default w kind" by (simp add: find_default_def)
  then show ?thesis unfolding resolve_default_def by (rule ssubst) (rule refl)
qed

lemma resolve_connection_tick [simp]: "resolve_connection (tick w) kind cs = resolve_connection w kind cs"
  by (induction cs) (simp_all split: option.split)

lemma connection_ids_tick [simp]: "drone_connection_ids (tick w) p = drone_connection_ids w p"
  unfolding drone_connection_ids_def resolve_connection_tick by (rule refl)

definition saveable :: "world \<Rightarrow> project \<Rightarrow> project \<Rightarrow> bool" where
  "saveable w p q \<longleftrightarrow> project_inv q \<and> same_identity w p q \<and> removed_free w p q"

lemma saveable_tick [simp]: "saveable (tick w) p q = saveable w p q"
  by (simp add: saveable_def)

lemma save_loaded:
  assumes "registry_ok w" and "load_project w ref = Inr p" and "saveable w p q"
  shows "\<exists>w1. proj_save q w = (Inr (), w1) \<and> load_project (commit w1) (p_id q) = Inr q \<and>
    stored (commit w1) = (stored w)(p_id p \<mapsto> q) \<and> registry_ok (commit w1)"
proof -
  obtain row where "find_row p_id (p_id p) (t_projects (w_cur w)) = Some row" "p = project_to_entity w row"
    using load_project_row [OF _ assms(2)] assms(1) by (auto simp: registry_ok_def)
  then show ?thesis
    using save_updates_map [OF assms(1)] assms(3) unfolding saveable_def by blast
qed

text \<open>A save at the end of a use case, with and without the slot check.\<close>

lemma save_done:
  assumes "registry_ok w" and "load_project w ref = Inr p" and "saveable w p q"
  shows "\<exists>w'. save_unchecked q w = (Inr q, w') \<and> command_done w p (Inr q) (Inr (), w')"
    and "w_durable w = w_cur w \<Longrightarrow> \<exists>r w'. save_project q w = (r, w') \<and>
      command_done w p (slot_checked w q) (drop_answer (r, w')) \<and> (\<forall>x. r = Inr x \<longrightarrow> x = q)"
proof -
  obtain w1 where w1: "proj_save q w = (Inr (), w1)" "load_project (commit w1) (p_id q) = Inr q"
      "stored (commit w1) = (stored w)(p_id p \<mapsto> q)" "registry_ok (commit w1)"
    using save_loaded [OF assms] by blast
  have d: "command_done w p (Inr q) (Inr (), commit w1)" using w1 by (simp add: command_done_def)
  show "\<exists>w'. save_unchecked q w = (Inr q, w') \<and> command_done w p (Inr q) (Inr (), w')"
    using w1(1,2) d by (simp add: save_unchecked_def)
  assume s: "w_durable w = w_cur w"
  show "\<exists>r w'. save_project q w = (r, w') \<and>
      command_done w p (slot_checked w q) (drop_answer (r, w')) \<and> (\<forall>x. r = Inr x \<longrightarrow> x = q)"
  proof (cases "assert_no_slot_conflict (drone_connection_ids w q) q")
    case (Inl e)
    then show ?thesis using s by (simp add: save_project_def slot_checked_def command_done_def)
  next
    case (Inr u)
    then show ?thesis using w1(1,2) d by (simp add: save_project_def slot_checked_def)
  qed
qed

text \<open>The clock reading before the save does not matter to what is promised.\<close>

lemma command_done_tick [simp]: "command_done (tick w) p spec run = command_done w p spec run"
  by (simp add: command_done_def split: sum.split)

lemma slot_checked_tick [simp]: "slot_checked (tick w) q = slot_checked w q"
  by (simp add: slot_checked_def)

lemma assert_connections_tick [simp]: "assert_connections (tick w) d g = assert_connections w d g"
  by (simp add: assert_connections_def assert_connection_exists_def split: option.split)

lemma save_done_tick:
  assumes "registry_ok w" and "load_project w ref = Inr p" and "saveable w p q" and "w_durable w = w_cur w"
  obtains r w' where "save_project q (tick w) = (r, w')"
    and "command_done w p (slot_checked w q) (drop_answer (r, w'))" and "\<forall>x. r = Inr x \<longrightarrow> x = q"
  using save_done(2) [of "tick w" ref p q] assms by auto

subsection \<open>Every operation of the aggregate can be saved\<close>

lemma saveable_same:
  assumes "project_inv q" and "p_id q = p_id p" "p_key q = p_key p" "p_created_at q = p_created_at p"
    and "\<And>c. c \<in> set (p_components q) \<Longrightarrow> \<exists>d \<in> set (p_components p).
      c_id d = c_id c \<and> c_key d = c_key c \<and> c_created_at d = c_created_at c \<and> c_project_id d = c_project_id c"
    and "\<And>d. d \<in> set (p_components p) \<Longrightarrow> c_id d \<in> c_id ` set (p_components q)"
    and "\<And>d. d \<in> set (p_components p) \<Longrightarrow> c_project_id d = p_id p"
  shows "saveable w p q"
  unfolding saveable_def same_identity_def removed_free_def using assms by (metis (no_types, lifting))

text \<open>An aggregate as the database holds it.\<close>

lemma loaded_facts:
  assumes "registry_ok w" and "load_project w ref = Inr p"
  shows "project_inv p" and "\<And>c. c \<in> set (p_components p) \<Longrightarrow> c_project_id c = p_id p"
proof -
  obtain row where row: "find_row p_id (p_id p) (t_projects (w_cur w)) = Some row" "p = project_to_entity w row"
    using load_project_row [OF _ assms(2)] assms(1) by (auto simp: registry_ok_def)
  then show "project_inv p" using assms(1) by (auto simp: registry_ok_def list_all_iff dest: find_row_Some)
  fix c assume "c \<in> set (p_components p)"
  then show "c_project_id c = p_id p" using entity_rows(1) [of c w row] row(2) by auto
qed

lemma set_renumber:
  "c \<in> set (renumber cs) \<Longrightarrow> \<exists>d \<in> set cs. \<exists>n. c = set_position n d"
  "d \<in> set cs \<Longrightarrow> \<exists>n. set_position n d \<in> set (renumber cs)"
proof -
  have "c \<in> set (renumber_from m cs) \<Longrightarrow> \<exists>d \<in> set cs. \<exists>n. c = set_position n d" for m
    by (induction cs arbitrary: m) auto
  moreover have "d \<in> set cs \<Longrightarrow> \<exists>n. set_position n d \<in> set (renumber_from m cs)" for m
  proof (induction cs arbitrary: m)
    case (Cons a cs)
    then show ?case by (cases "d = a") (auto simp del: set_position_simps)
  qed simp
  ultimately show "c \<in> set (renumber cs) \<Longrightarrow> \<exists>d \<in> set cs. \<exists>n. c = set_position n d"
    "d \<in> set cs \<Longrightarrow> \<exists>n. set_position n d \<in> set (renumber cs)" by (auto simp: renumber_def)
qed

lemma set_position_frame [simp]:
  "c_project_id (set_position n c) = c_project_id c" "c_created_at (set_position n c) = c_created_at c"
  by (simp_all add: set_position_def)

lemma saveable_archive:
  assumes "registry_ok w" and "load_project w ref = Inr p"
  shows "saveable w p (set_archived a at p)"
  by (rule saveable_same) (use loaded_facts [OF assms] project_inv_set_archived in \<open>auto simp: set_archived_def\<close>)

lemma saveable_reorder:
  assumes "registry_ok w" and "load_project w ref = Inr p" and "reorder ids p = Inr q"
  shows "saveable w p q"
proof -
  have dist: "distinct (map c_id (p_components p))"
    using loaded_facts(1) [OF assms(1,2)] by (simp add: project_inv_def)
  note r = reorder_components [OF dist assms(3)]
  have cs: "set (map (\<lambda>i. the (by_id p i)) ids) = set (p_components p)" by (rule mset_eq_setD [OF r(3)])
  show ?thesis
  proof (rule saveable_same)
    show "project_inv q" by (rule project_inv_reorder [OF loaded_facts(1) [OF assms(1,2)] assms(3)])
    fix c assume "c \<in> set (p_components q)"
    then have "c \<in> set (renumber (map (\<lambda>i. the (by_id p i)) ids))" by (simp add: r(1))
    from set_renumber(1) [OF this] obtain d n where "d \<in> set (p_components p)" "c = set_position n d"
      unfolding cs by blast
    then show "\<exists>d \<in> set (p_components p). c_id d = c_id c \<and> c_key d = c_key c \<and> c_created_at d = c_created_at c \<and>
        c_project_id d = c_project_id c" by (intro bexI [of _ d]) simp_all
  next
    fix d assume "d \<in> set (p_components p)"
    then have "d \<in> set (map (\<lambda>i. the (by_id p i)) ids)" by (simp only: cs)
    from set_renumber(2) [OF this] obtain n where "set_position n d \<in> set (p_components q)"
      by (auto simp: r(1))
    then show "c_id d \<in> c_id ` set (p_components q)" by (auto intro: rev_image_eqI)
  qed (simp_all add: r(1) loaded_facts(2) [OF assms(1,2)])
qed

lemma saveable_patch:
  assumes "registry_ok w" and "load_project w ref = Inr p"
  shows "saveable w p (project_apply_update at u p)"
proof (rule saveable_same)
  show "project_inv (project_apply_update at u p)"
    by (rule project_inv_apply_update [OF loaded_facts(1) [OF assms]])
qed (auto simp: project_apply_update_def Let_def image_image loaded_facts(2) [OF assms])

lemma project_component_mem:
  "project_component ref p = Inr c \<Longrightarrow> c \<in> set (p_components p)"
  by (auto simp: project_component_def find_Some_iff split: option.splits)

lemma project_component_found:
  "c_id c \<in> c_id ` set (p_components q) \<Longrightarrow> \<exists>x. project_component (c_id c) q = Inr x"
proof -
  assume "c_id c \<in> c_id ` set (p_components q)"
  then have "List.find (\<lambda>x. c_id x = c_id c \<or> c_key x = c_id c) (p_components q) \<noteq> None"
    by (auto simp: find_None_iff)
  then show ?thesis by (auto simp: project_component_def)
qed

lemma replace_component_simps [simp]:
  "p_id (replace_component c p) = p_id p" "p_key (replace_component c p) = p_key p"
  "p_created_at (replace_component c p) = p_created_at p"
  "p_components (replace_component c p) = map (\<lambda>e. if c_id e = c_id c then c else e) (p_components p)"
  "inherits (replace_component c p) = inherits p"
  by (simp_all add: replace_component_def inherits_def)

lemma component_apply_update_created: "component_apply_update at u c = Inr c' \<Longrightarrow> c_created_at c' = c_created_at c"
  by (auto simp: component_apply_update_def Let_def split: sum.splits)

lemma saveable_component:
  assumes ok: "registry_ok w" and load: "load_project w ref = Inr p" and c: "c \<in> set (p_components p)"
    and upd: "component_apply_update at u c = Inr c'"
  shows "saveable w p (replace_component c' p)"
proof -
  note f = component_apply_update_frame [OF upd] component_apply_update_created [OF upd]
  have inv: "project_inv p" by (rule loaded_facts(1) [OF ok load])
  let ?r = "\<lambda>e. if c_id e = c_id c' then c' else e"
  have uniq: "e = c" if "e \<in> set (p_components p)" "c_id e = c_id c" for e
    using inv that c unfolding project_inv_def distinct_map by (auto dest: inj_onD)
  have frame: "c_id (?r e) = c_id e" "c_key (?r e) = c_key e" "c_position (?r e) = c_position e"
      "c_project_id (?r e) = c_project_id e" "c_created_at (?r e) = c_created_at e"
      "inherits p (?r e) = ?r e" "assert_publishable (?r e) = Inr ()" if e: "e \<in> set (p_components p)" for e
    using uniq [OF e] f f(5) [of p] e inv unfolding project_inv_def list_all_iff by auto
  have "project_inv (replace_component c' p)"
    using inv frame unfolding project_inv_def replace_component_simps list_all_iff map_map set_map ball_simps
    by (simp add: o_def cong: map_cong)
  then show ?thesis
  proof (rule saveable_same)
    fix x assume "x \<in> set (p_components (replace_component c' p))"
    then obtain e where e: "e \<in> set (p_components p)" "x = ?r e" by auto
    show "\<exists>d \<in> set (p_components p). c_id d = c_id x \<and> c_key d = c_key x \<and> c_created_at d = c_created_at x \<and>
        c_project_id d = c_project_id x"
      using frame [OF e(1)] e by (intro bexI [of _ e]) simp_all
  next
    fix d assume "d \<in> set (p_components p)"
    then have "?r d \<in> set (p_components (replace_component c' p))" "c_id (?r d) = c_id d" by auto
    then show "c_id d \<in> c_id ` set (p_components (replace_component c' p))" by (metis imageI)
  qed (simp_all add: loaded_facts(2) [OF ok load])
qed

lemma saveable_remove:
  assumes ok: "registry_ok w" and load: "load_project w ref = Inr p" and free: "\<not> component_restricted w (c_id c)"
  shows "saveable w p (remove_component c p)"
proof -
  have "project_inv (remove_component c p)" by (rule project_inv_remove [OF loaded_facts(1) [OF ok load]])
  moreover have "same_identity w p (remove_component c p)"
    unfolding same_identity_def
  proof (intro conjI ballI)
    fix x assume "x \<in> set (p_components (remove_component c p))"
    then have "x \<in> set (renumber (filter (\<lambda>e. c_id e \<noteq> c_id c) (p_components p)))" by (simp add: remove_component_def)
    from set_renumber(1) [OF this] obtain d n where d: "d \<in> set (p_components p)" "x = set_position n d" by auto
    then show "c_project_id x = p_id p" using loaded_facts(2) [OF ok load] by simp
    show "c_id x \<notin> c_id ` set (t_components (w_cur w)) \<or> (\<exists>d \<in> set (p_components p). c_id d = c_id x \<and>
        c_key d = c_key x \<and> c_created_at d = c_created_at x)"
      by (intro disjI2 bexI [of _ d]) (simp_all add: d)
  qed (simp_all add: remove_component_def)
  moreover have "removed_free w p (remove_component c p)"
    unfolding removed_free_def
  proof (intro ballI impI)
    fix d assume d: "d \<in> set (p_components p)" "c_id d \<notin> c_id ` set (p_components (remove_component c p))"
    have "c_id d = c_id c"
    proof (rule ccontr)
      assume "c_id d \<noteq> c_id c"
      then have "d \<in> set (filter (\<lambda>e. c_id e \<noteq> c_id c) (p_components p))" using d(1) by simp
      from set_renumber(2) [OF this] obtain n where "set_position n d \<in> set (p_components (remove_component c p))"
        by (auto simp: remove_component_def)
      then have "c_id (set_position n d) \<in> c_id ` set (p_components (remove_component c p))" by (rule imageI)
      then show False using d(2) by simp
    qed
    then show "\<not> component_restricted w (c_id d)" using free by simp
  qed
  ultimately show ?thesis by (simp add: saveable_def)
qed

lemma saveable_add:
  assumes ok: "registry_ok w" and load: "load_project w ref = Inr p"
    and c: "c_id c \<notin> c_id ` set (t_components (w_cur w))" "c_project_id c = p_id p" "assert_publishable c = Inr ()"
    and add: "add_component c pos p = Inr q"
  shows "saveable w p q" and "c_id c \<in> c_id ` set (p_components q)"
proof -
  obtain i where q: "q = p\<lparr>p_components := renumber (list_insert i (inherits p c) (p_components p))\<rparr>"
    using add by (auto simp: add_component_def Let_def split: if_splits)
  have fresh: "c_id c \<notin> set (map c_id (p_components p))"
  proof
    assume "c_id c \<in> set (map c_id (p_components p))"
    then obtain d where d: "d \<in> set (p_components p)" "c_id d = c_id c" by auto
    obtain row where "p = project_to_entity w row"
      using load_project_row [OF _ load] ok by (auto simp: registry_ok_def)
    then obtain r where "r \<in> set (t_components (w_cur w))" "c_id r = c_id c" using entity_rows(1) d by metis
    then show False using c(1) by (metis imageI)
  qed
  have kept: "\<exists>n. set_position n d \<in> set (p_components q)" if "d \<in> insert (inherits p c) (set (p_components p))" for d
    using set_renumber(2) [of d "list_insert i (inherits p c) (p_components p)"] that by (simp add: q)
  then have ids: "c_id d \<in> c_id ` set (p_components q)" if "d \<in> insert (inherits p c) (set (p_components p))" for d
    using that by (metis imageI set_position_simps(1))
  show "c_id c \<in> c_id ` set (p_components q)" using ids [of "inherits p c"] by simp
  have "same_identity w p q"
    unfolding same_identity_def
  proof (intro conjI ballI)
    fix x assume "x \<in> set (p_components q)"
    then have "x \<in> set (renumber (list_insert i (inherits p c) (p_components p)))" by (simp add: q)
    from set_renumber(1) [OF this] obtain d n where d: "d = inherits p c \<or> d \<in> set (p_components p)" "x = set_position n d"
      by auto
    then show "c_project_id x = p_id p" using loaded_facts(2) [OF ok load] c(2) by auto
    show "c_id x \<notin> c_id ` set (t_components (w_cur w)) \<or> (\<exists>d \<in> set (p_components p). c_id d = c_id x \<and>
        c_key d = c_key x \<and> c_created_at d = c_created_at x)"
      using d c(1) by auto
  qed (simp_all add: q)
  moreover have "removed_free w p q" using ids unfolding removed_free_def by blast
  ultimately show "saveable w p q"
    using project_inv_add [OF loaded_facts(1) [OF ok load] fresh c(3) add] by (simp add: saveable_def)
qed

subsection \<open>The use cases do what the commands say\<close>

text \<open>A guard that fails before anything is written.\<close>

lemma command_refused:
  "w_durable w = w_cur w \<Longrightarrow> command_done w p (Inl e) (Inl e, w)"
  "w_durable w = w_cur w \<Longrightarrow> command_done w p (Inl e) (Inl e, tick w)"
  by (simp_all add: command_done_def)

lemma archive_done:
  assumes "registry_ok w" and "load_project w ref = Inr p"
  shows "command_done w p (command_spec (Archive a) v w p) (run_command (Archive a) v ref w)"
  using save_done(1) [of "tick w" ref p "set_archived a (now_of v w) p"] saveable_archive [OF assms] assms
  by (auto simp: set_archived_usecase_def)

lemma reorder_done:
  assumes "registry_ok w" and "load_project w ref = Inr p" and "w_durable w = w_cur w"
  shows "command_done w p (command_spec (Reorder ids) v w p) (run_command (Reorder ids) v ref w)"
proof (cases "reorder ids p")
  case (Inl e)
  then show ?thesis using assms by (simp add: reorder_components_def command_refused)
next
  case (Inr q)
  then show ?thesis
    using save_done(1) [OF assms(1,2) saveable_reorder [OF assms(1,2) Inr]] assms(2)
    by (auto simp: reorder_components_def)
qed

lemma patch_project_done:
  assumes "registry_ok w" and "load_project w ref = Inr p" and "w_durable w = w_cur w"
  shows "command_done w p (command_spec (Patch_Project u) v w p) (run_command (Patch_Project u) v ref w)"
proof (cases "assert_connections w (pu_drone_connection_id u) (pu_gitea_connection_id u)")
  case (Inl e)
  then show ?thesis using assms by (simp add: update_project_usecase_def command_refused)
next
  case (Inr x)
  obtain r w' where "save_project (project_apply_update (now_of v w) u p) (tick w) = (r, w')"
      "command_done w p (slot_checked w (project_apply_update (now_of v w) u p)) (drop_answer (r, w'))"
    by (rule save_done_tick [OF assms(1,2) saveable_patch [OF assms(1,2)] assms(3)])
  then show ?thesis using Inr assms(2) by (simp add: update_project_usecase_def)
qed

text \<open>Use cases that answer with one component look it up in the aggregate they read back.\<close>

lemma answer_component:
  assumes "command_done w p spec (drop_answer (r, w'))" and "\<forall>x. r = Inr x \<longrightarrow> x = q" and "i \<in> c_id ` set (p_components q)"
  shows "command_done w p spec (drop_answer (component_of r i, w'))"
proof (cases r)
  case (Inr x)
  obtain c where "c \<in> set (p_components q)" "i = c_id c" using assms(3) by blast
  then obtain y where "project_component i q = Inr y" using project_component_found [of c q] by auto
  then show ?thesis using assms(1,2) Inr by (simp add: component_of_def)
qed (use assms in \<open>simp add: component_of_def\<close>)

lemma patch_component_done:
  assumes ok: "registry_ok w" and load: "load_project w ref = Inr p" and s: "w_durable w = w_cur w"
  shows "command_done w p (command_spec (Patch_Component cr u) v w p) (run_command (Patch_Component cr u) v ref w)"
proof (cases "project_component cr p")
  case (Inl e)
  then show ?thesis using load s by (simp add: update_component_usecase_def component_of_def command_refused)
next
  case c: (Inr c)
  show ?thesis
  proof (cases "assert_connections w (cu_drone_connection_id u) (cu_gitea_connection_id u)")
    case (Inl e)
    then show ?thesis using load s c by (simp add: update_component_usecase_def component_of_def command_refused)
  next
    case a: (Inr x)
    show ?thesis
    proof (cases "component_apply_update (now_of v w) u c")
      case (Inl e)
      then show ?thesis using load s c a by (simp add: update_component_usecase_def component_of_def command_refused)
    next
      case (Inr c')
      have mem: "c \<in> set (p_components p)" by (rule project_component_mem [OF c])
      let ?q = "replace_component c' p"
      have sv: "saveable w p ?q" by (rule saveable_component [OF ok load mem Inr])
      obtain r w' where r: "save_project ?q (tick w) = (r, w')"
          "command_done w p (slot_checked w ?q) (drop_answer (r, w'))" "\<forall>x. r = Inr x \<longrightarrow> x = ?q"
        by (rule save_done_tick [OF ok load sv s])
      have "c_id c \<in> c_id ` set (p_components ?q)"
        using mem component_apply_update_frame(1) [OF Inr]
        by (intro rev_image_eqI [of c']) auto
      from answer_component [OF r(2,3) this] show ?thesis
        using load c a Inr r(1) by (simp add: update_component_usecase_def component_of_def)
    qed
  qed
qed

lemma delete_component_done:
  assumes ok: "registry_ok w" and load: "load_project w ref = Inr p" and s: "w_durable w = w_cur w"
  shows "command_done w p (command_spec (Delete_Component cr) v w p) (run_command (Delete_Component cr) v ref w)"
proof (cases "project_component cr p")
  case (Inl e)
  then show ?thesis using load s by (simp add: delete_component_usecase_def component_of_def command_refused)
next
  case c: (Inr c)
  have mem: "c \<in> set (p_components p)" by (rule project_component_mem [OF c])
  let ?q = "remove_component c p"
  consider "has_deployments w (c_id c)" | "\<not> has_deployments w (c_id c)" "is_scheduled w (c_id c)"
    | "\<not> has_deployments w (c_id c)" "\<not> is_scheduled w (c_id c)" "component_restricted w (c_id c)"
    | "\<not> component_restricted w (c_id c)" by blast
  then show ?thesis
  proof cases
    case 3
    obtain row where row: "find_row p_id (p_id p) (t_projects (w_cur w)) = Some row" "p = project_to_entity w row"
      using load_project_row [OF _ load] ok by (auto simp: registry_ok_def)
    obtain r where r: "r \<in> set (t_components (w_cur w))" "c_project_id r = p_id p" "c_id r = c_id c"
      using entity_rows(1) mem row(2) by (metis entity_simps(1))
    have "c_id c \<notin> set (map c_id (p_components ?q))"
      by (auto simp: remove_component_def dest!: set_renumber(1))
    moreover have "component_restricted (set_projects ps w) = component_restricted w" for ps
      by (auto simp: set_projects_def component_restricted_def has_deployments_def is_scheduled_def fun_eq_iff)
    moreover have "p_id ?q = p_id p" by (simp add: remove_component_def)
    ultimately have "proj_save ?q w = (Inl IntegrityError, set_projects (upd_row p_id (p_id p) (apply_project ?q) (t_projects (w_cur w))) w)"
      using row(1) r 3(3)
      by (auto simp: proj_save_def sync_components_def Let_def list_ex_iff set_projects_def simp del: set_map)
    then show ?thesis
      using load c s 3 by (simp add: delete_component_usecase_def component_of_def command_done_def set_projects_def)
  next
    case 4
    then have "\<not> has_deployments w (c_id c)" "\<not> is_scheduled w (c_id c)" by (simp_all add: component_restricted_def)
    then show ?thesis
      using save_loaded [OF ok load saveable_remove [OF ok load 4]] load c 4
      by (auto simp: delete_component_usecase_def component_of_def command_done_def)
  qed (use load c s in \<open>simp_all add: delete_component_usecase_def component_of_def command_refused\<close>)
qed

lemma add_component_done:
  assumes ok: "registry_ok w" and load: "load_project w ref = Inr p" and s: "w_durable w = w_cur w"
    and fresh: "new_uuid v w \<notin> c_id ` set (t_components (w_cur w))"
  shows "command_done w p (command_spec (Add_Component x) v w p) (run_command (Add_Component x) v ref w)"
proof (cases "assert_connections w (nc_drone_connection_id x) (nc_gitea_connection_id x)")
  case (Inl e)
  then show ?thesis using load s by (simp add: add_component_usecase_def command_refused)
next
  case a: (Inr y)
  show ?thesis
  proof (cases "build_component (new_uuid v w) p x (int (length (p_components p)) + 1) (now_of v w)")
    case (Inl e)
    then show ?thesis using load s a by (simp add: add_component_usecase_def command_refused)
  next
    case b: (Inr c)
    show ?thesis
    proof (cases "add_component c (nc_position x) p")
      case (Inl e)
      then show ?thesis using load s a b by (simp add: add_component_usecase_def command_refused)
    next
      case (Inr q)
      have c: "c_id c = new_uuid v w" "c_project_id c = p_id p" "assert_publishable c = Inr ()"
        using b by (auto simp: build_component_def component_create_def Let_def split: sum.splits)
      have sv: "saveable w p q" and mem: "c_id c \<in> c_id ` set (p_components q)"
        using saveable_add [OF ok load _ c(2,3) Inr] c(1) fresh by simp_all
      obtain r w' where r: "save_project q (tick w) = (r, w')"
          "command_done w p (slot_checked w q) (drop_answer (r, w'))" "\<forall>z. r = Inr z \<longrightarrow> z = q"
        by (rule save_done_tick [OF ok load sv s])
      from answer_component [OF r(2,3) mem] show ?thesis
        using load a b Inr r(1) by (simp add: add_component_usecase_def)
    qed
  qed
qed

end
