(* ===== verification/Registry_Connection_Laws.thy ===== *)
theory Registry_Connection_Laws
  imports Registry_Store_Laws
begin

section \<open>What creating and changing a connection leaves in the table\<close>

text \<open>Clearing the defaults of a kind, and what the constraints say of the table afterwards.\<close>

definition cleared :: "connection_kind \<Rightarrow> string option \<Rightarrow> connection list \<Rightarrow> connection list" where
  "cleared kind except_id ns =
     map (\<lambda>n. if n_kind n = kind \<and> n_is_default n \<and> \<not> (py_truthy except_id \<and> except_id = Some (n_id n))
        then n\<lparr>n_is_default := False\<rparr> else n) ns"

lemma cleared_keys [simp]:
  "map n_id (cleared kind x ns) = map n_id ns" "map n_name (cleared kind x ns) = map n_name ns"
  by (simp_all add: cleared_def)

lemma cleared_images [simp]:
  "n_name ` set (cleared kind x ns) = n_name ` set ns" "n_id ` set (cleared kind x ns) = n_id ` set ns"
  by (simp_all only: set_map [symmetric] cleared_keys)

text \<open>Only defaults are cleared, and no row becomes one.\<close>

lemma defaults_cleared:
  "map n_kind (filter n_is_default (cleared kind x ns)) =
     map n_kind (filter (\<lambda>n. n_is_default n \<and> (n_kind n = kind \<longrightarrow> py_truthy x \<and> x = Some (n_id n))) ns)"
  by (induction ns) (auto simp: cleared_def)

lemma default_kinds_cleared:
  assumes "distinct (map n_kind (filter n_is_default ns))"
  shows "distinct (map n_kind (filter n_is_default (cleared kind x ns)))"
  using distinct_map_filter [OF assms, of "\<lambda>n. n_kind n = kind \<longrightarrow> py_truthy x \<and> x = Some (n_id n)"]
  unfolding defaults_cleared filter_filter .

lemma connections_ok_cleared: "connections_ok ns \<Longrightarrow> connections_ok (cleared kind x ns)"
  using default_kinds_cleared by (simp add: connections_ok_def keyed_def)

lemma default_of_kind_cleared:
  assumes "n \<in> set (cleared kind None ns)" and "n_is_default n"
  shows "n_kind n \<noteq> kind"
proof -
  have "n_kind n \<in> set (map n_kind (filter n_is_default (cleared kind None ns)))" using assms by simp
  then show ?thesis unfolding defaults_cleared by auto
qed

lemma clear_default_rows [simp]:
  "t_connections (w_cur (conn_clear_default kind x w)) = cleared kind x (t_connections (w_cur w))"
  "w_durable (conn_clear_default kind x w) = w_durable w" "w_ticks (conn_clear_default kind x w) = w_ticks w"
  by (simp_all add: conn_clear_default_def set_connections_def cleared_def)

definition make_room :: "bool \<Rightarrow> connection_kind \<Rightarrow> string option \<Rightarrow> connection list \<Rightarrow> connection list" where
  "make_room d kind x ns = (if d then cleared kind x ns else ns)"

text \<open>A new connection is refused exactly when its name is taken.\<close>

lemma create_connection_rows:
  assumes ok: "connections_ok (t_connections (w_cur w))" and fresh: "new_uuid v w \<notin> n_id ` set (t_connections (w_cur w))"
    and s: "w_durable w = w_cur w"
    and run: "create_connection v encrypt kind name url token d w = (r, w')"
  defines "dflt \<equiv> d \<or> (\<forall>m \<in> set (t_connections (w_cur w)). n_kind m \<noteq> kind)"
  defines "n \<equiv> connection_create (new_uuid v w) kind name url (encrypt token) dflt (now_of v w)"
  shows "if name \<in> n_name ` set (t_connections (w_cur w))
    then r = Inl (ConnectionNameTakenError (msg_name_taken name)) \<and> w_cur w' = w_cur w
    else r = Inr n \<and> connections_ok (t_connections (w_cur w')) \<and> w_durable w' = w_cur w' \<and>
      t_connections (w_cur w') = make_room dflt kind None (t_connections (w_cur w)) @ [n]"
proof -
  let ?ns = "t_connections (w_cur w)"
  have e: "exists_for_kind w kind \<longleftrightarrow> \<not> (\<forall>m \<in> set ?ns. n_kind m \<noteq> kind)"
    by (auto simp: exists_for_kind_def list_ex_iff)
  define w1 where "w1 = (if dflt then conn_clear_default kind None w else w)"
  have rows: "t_connections (w_cur w1) = make_room dflt kind None ?ns" by (simp add: w1_def make_room_def)
  have same: "new_uuid v w1 = new_uuid v w" "now_of v w1 = now_of v w" "w_durable w1 = w_cur w"
    using s by (simp_all add: w1_def new_uuid_def now_of_def)
  have n: "n_name n = name" "n_id n = new_uuid v w" "n_kind n = kind" "n_is_default n = dflt"
    by (simp_all add: n_def connection_create_def connection_init_def)
  have ok1: "connections_ok (make_room dflt kind None ?ns)"
    using ok connections_ok_cleared by (simp add: make_room_def)
  have names: "n_name ` set (make_room dflt kind None ?ns) = n_name ` set ?ns" by (simp add: make_room_def)
  have ids: "n_id ` set (make_room dflt kind None ?ns) = n_id ` set ?ns"
    by (simp add: make_room_def)
  have iff: "connections_ok (make_room dflt kind None ?ns @ [n]) \<longleftrightarrow> name \<notin> n_name ` set ?ns"
  proof -
    have "kind \<notin> n_kind ` set (filter n_is_default (make_room dflt kind None ?ns))" if dflt
      using that default_of_kind_cleared by (auto simp: make_room_def)
    then show ?thesis
      using ok1 names ids fresh n unfolding connections_ok_def keyed_def by auto
  qed
  have md: "(d \<or> \<not> exists_for_kind w kind) = dflt" by (simp add: dflt_def e)
  have "create_connection v encrypt kind name url token d w =
      bind_exn (conn_add n (tick w1)) (\<lambda>_ w2. (Inr n, commit w2))"
    unfolding create_connection_def Let_def md w1_def [symmetric] n_def same(1,2) by (rule refl)
  moreover have "conn_add n (tick w1) = (if name \<in> n_name ` set ?ns
      then (Inl (ConnectionNameTakenError (msg_name_taken name)), rollback (tick w1))
      else (Inr (), set_connections (make_room dflt kind None ?ns @ [n]) (tick w1)))"
    using iff rows n(1) by (simp add: conn_add_def flush_connections_def)
  ultimately show ?thesis using run ok1 iff same(3) by (auto simp: set_connections_def)
qed

text \<open>An update is refused exactly when it renames to a name another connection has.\<close>

lemma connections_ok_upd:
  assumes ok: "connections_ok ns" and row: "find_row n_id i ns = Some old"
    and f: "\<And>m. n_id (f m) = n_id m" "\<And>m. n_kind (f m) = n_kind m"
    and dflt: "n_is_default (f old) \<Longrightarrow> \<not> n_is_default old \<Longrightarrow>
      \<forall>m \<in> set ns. n_is_default m \<longrightarrow> n_kind m \<noteq> n_kind old"
  shows "connections_ok (upd_row n_id i f ns) \<longleftrightarrow>
    (\<forall>m \<in> set ns. n_id m \<noteq> i \<longrightarrow> n_name m \<noteq> n_name (f old))"
proof -
  have k: "keyed n_id ns" using ok by (simp add: connections_ok_def)
  obtain a b where ab: "ns = a @ old # b" "n_id old = i"
    using find_row_Some [OF row] by (auto dest: split_list)
  have out: "i \<notin> n_id ` set a" "i \<notin> n_id ` set b" using k ab by (auto simp: keyed_def)
  then have "upd_row n_id i f a = a" "upd_row n_id i f b = b" by (auto simp: upd_row_def intro!: map_idI)
  then have upd: "upd_row n_id i f ns = a @ f old # b" using ab by (simp add: upd_row_def)
  have names: "(\<forall>m \<in> set ns. n_id m \<noteq> i \<longrightarrow> n_name m \<noteq> n_name (f old)) \<longleftrightarrow>
      n_name (f old) \<notin> n_name ` set a \<union> n_name ` set b"
    using out unfolding ab(1) by (auto simp: ab(2)) (metis imageI)+
  have dk: "distinct (map n_kind (filter n_is_default (a @ f old # b)))"
  proof (cases "n_is_default (f old)")
    case True
    have "n_kind old \<notin> n_kind ` set (filter n_is_default a) \<union> n_kind ` set (filter n_is_default b)"
    proof (cases "n_is_default old")
      case True
      then show ?thesis using ok ab(1) by (auto simp: connections_ok_def)
    next
      case False
      then show ?thesis using dflt True ab(1) by fastforce
    qed
    then show ?thesis using ok ab(1) True f(2) [of old] by (auto simp: connections_ok_def split: if_splits)
  next
    case False
    then show ?thesis using ok ab(1) by (auto simp: connections_ok_def split: if_splits)
  qed
  show ?thesis
    unfolding names upd using ok dk ab(1) f(1) [of old] by (auto simp: connections_ok_def keyed_def)
qed

lemma cleared_ball:
  "(\<forall>m \<in> set (cleared kind x ns). P (n_id m) (n_name m)) \<longleftrightarrow> (\<forall>m \<in> set ns. P (n_id m) (n_name m))"
proof (induction ns)
  case (Cons a ns)
  then show ?case unfolding cleared_def list.map list.set ball_simps by (auto split: if_splits)
qed (simp add: cleared_def)

lemma find_cleared:
  "find_row n_id i (cleared kind x ns) = map_option (\<lambda>n. if n_kind n = kind \<and> n_is_default n \<and>
       \<not> (py_truthy x \<and> x = Some (n_id n)) then n\<lparr>n_is_default := False\<rparr> else n) (find_row n_id i ns)"
  by (induction ns) (auto simp: cleared_def)

lemma patched_simps:
  "n_id (connection_patched e u at n) = n_id n" "n_kind (connection_patched e u at n) = n_kind n"
  "n_name (connection_patched e u at n) = (case nu_name u of None \<Rightarrow> n_name n | Some s \<Rightarrow> s)"
  "n_is_default (connection_patched e u at n) =
     (case nu_is_default u of None \<Rightarrow> n_is_default n | Some d \<Rightarrow> d)"
  by (simp_all add: connection_patched_def Let_def rename_def point_at_def replace_token_def make_default_def
      clear_default_def touch_def split: option.split bool.split)

lemma init_simps [simp]:
  "n_id (connection_init n) = n_id n" "n_kind (connection_init n) = n_kind n"
  "n_name (connection_init n) = n_name n" "n_is_default (connection_init n) = n_is_default n"
  by (simp_all add: connection_init_def)

lemma apply_connection_simps [simp]:
  "n_id (apply_connection n row) = n_id row" "n_kind (apply_connection n row) = n_kind row"
  "n_name (apply_connection n row) = n_name n" "n_is_default (apply_connection n row) = n_is_default n"
  by (simp_all add: apply_connection_def)

lemma update_connection_rows:
  assumes ok: "connections_ok (t_connections (w_cur w))" and row: "find_row n_id i (t_connections (w_cur w)) = Some old"
    and s: "w_durable w = w_cur w" and run: "update_connection v encrypt i u w = (r, w')"
  defines "n \<equiv> connection_patched encrypt u (now_of v w) (connection_init old)"
  defines "room \<equiv> make_room (nu_is_default u = Some True) (n_kind old) (Some i) (t_connections (w_cur w))"
  shows "if \<exists>m \<in> set (t_connections (w_cur w)). n_id m \<noteq> i \<and> n_name m = n_name n
    then r = Inl (ConnectionNameTakenError (msg_name_taken (n_name n))) \<and> w_cur w' = w_cur w
    else r = Inr n \<and> connections_ok (t_connections (w_cur w')) \<and> w_durable w' = w_cur w' \<and>
      t_connections (w_cur w') = upd_row n_id i (apply_connection n) room"
proof -
  let ?ns = "t_connections (w_cur w)"
  have oi: "n_id old = i" using find_row_Some [OF row] by simp
  have okr: "connections_ok room" using ok connections_ok_cleared by (simp add: room_def make_room_def)
  obtain old1 where old1: "find_row n_id i room = Some old1" "n_kind old1 = n_kind old"
      "nu_is_default u \<noteq> Some True \<Longrightarrow> old1 = old"
    using row unfolding room_def make_room_def
    by (cases "nu_is_default u = Some True") (simp_all add: find_cleared)
  have n: "n_id n = i" "n_kind n = n_kind old" using oi by (simp_all add: n_def patched_simps)
  have dflt: "\<forall>m \<in> set room. n_is_default m \<longrightarrow> n_kind m \<noteq> n_kind old1"
    if d: "n_is_default (apply_connection n old1)" "\<not> n_is_default old1"
  proof (intro ballI impI notI)
    fix m assume m: "m \<in> set room" "n_is_default m" "n_kind m = n_kind old1"
    show False
    proof (cases "nu_is_default u = Some True")
      case False
      then have "n_is_default old" using d old1(3) by (auto simp: n_def patched_simps split: option.splits)
      then show False using d(2) old1(3) False by simp
    next
      case True
      then have room': "room = cleared (n_kind old) (Some i) ?ns" by (simp add: room_def make_room_def)
      have mk: "n_kind m \<in> set (map n_kind (filter n_is_default room))"
        unfolding set_map set_filter using m(1,2) by blast
      then obtain k where k: "k \<in> set ?ns" "n_is_default k" "n_id k = i"
        using m(3) old1(2) unfolding room' defaults_cleared by auto
      have "k = old" using keyed_same_row [of n_id ?ns k old] k find_row_Some [OF row] ok
        by (simp add: connections_ok_def)
      have "i \<noteq> []"
      proof
        assume "i = []"
        then show False using mk m(3) old1(2) unfolding room' defaults_cleared by auto
      qed
      then have "old1 = old" using old1(1) row oi unfolding room' find_cleared by simp
      then show False using d(2) k(2) \<open>k = old\<close> by simp
    qed
  qed
  have names: "(\<forall>m \<in> set room. n_id m \<noteq> i \<longrightarrow> n_name m \<noteq> n_name n) \<longleftrightarrow>
      \<not> (\<exists>m \<in> set ?ns. n_id m \<noteq> i \<and> n_name m = n_name n)"
    unfolding room_def make_room_def
    using cleared_ball [where P = "\<lambda>a b. a \<noteq> i \<longrightarrow> b \<noteq> n_name n"] by auto
  have iff: "connections_ok (upd_row n_id i (apply_connection n) room) \<longleftrightarrow>
      \<not> (\<exists>m \<in> set ?ns. n_id m \<noteq> i \<and> n_name m = n_name n)"
    using connections_ok_upd [OF okr old1(1), of "apply_connection n"] dflt names by simp
  define w1 where "w1 = (if nu_is_default u = Some True
    then conn_clear_default (n_kind old) (Some i) (tick w) else tick w)"
  have w1: "t_connections (w_cur w1) = room" "w_durable w1 = w_cur w" using s by (simp_all add: w1_def room_def make_room_def)
  have "update_connection v encrypt i u w = bind_exn (conn_save n w1) (\<lambda>_ w2. (Inr n, commit w2))"
    using row oi by (simp add: update_connection_def find_connection_def w1_def n_def Let_def)
  moreover have "conn_save n w1 = flush_connections (n_name n) (upd_row n_id i (apply_connection n) room) w1"
    using old1(1) n(1) w1(1) by (simp add: conn_save_def)
  ultimately show ?thesis
    using run iff w1(2) by (simp add: flush_connections_def set_connections_def split: if_splits)
qed

end
