(* ===== verification/Registry_Store_Properties.thy ===== *)
theory Registry_Store_Properties
  imports Registry_Refinement Registry_Connection_Laws Registry_Properties
begin

section \<open>Properties of the registry's use cases\<close>

text \<open>
  C32. The registry's use cases refine operations on one aggregate: under the database's invariant,
  archiving, reordering, patching a project or a component, adding and deleting a component do to the
  map of projects what the entity's operation does to the project named, commit it, leave every other
  project alone and keep the invariant; when a guard or the entity refuses, the same error comes out
  and the database is as before. Deleting can end in the database's own error.
\<close>

theorem registry_commands_refine:
  assumes "registry_ok w" and "load_project w ref = Inr p" and "w_durable w = w_cur w"
    and "new_uuid v w \<notin> c_id ` set (t_components (w_cur w))"
  shows "command_done w p (command_spec cmd v w p) (run_command cmd v ref w)"
proof (cases cmd)
  case (Archive a) then show ?thesis using archive_done [OF assms(1,2)] by simp
next
  case (Reorder ids) then show ?thesis using reorder_done [OF assms(1-3)] by simp
next
  case (Patch_Project u) then show ?thesis using patch_project_done [OF assms(1-3)] by simp
next
  case (Patch_Component c u) then show ?thesis using patch_component_done [OF assms(1-3)] by simp
next
  case (Delete_Component c) then show ?thesis using delete_component_done [OF assms(1-3)] by simp
next
  case (Add_Component s) then show ?thesis using add_component_done [OF assms] by simp
qed

definition idle :: world where "idle = world_with [] []"

definition idle_env :: env where "idle_env = sample_env HttpTimeout HttpTimeout"

lemma idle_facts:
  "registry_ok idle" "w_durable idle = w_cur idle" "\<not> isl (load_project idle ''default'')"
  "new_uuid idle_env idle \<notin> c_id ` set (t_components (w_cur idle))"
  "map c_key (p_components (projr (load_project idle ''default''))) = [''backend'', ''frontend'']"
  by code_simp+

lemma idle_project: "load_project idle ''default'' = Inr (projr (load_project idle ''default''))"
  by (rule sum.collapse(2) [OF idle_facts(3), symmetric])

theorem registry_commands_refine_witness:
  "\<exists>q. reorder [''c2'', ''c1''] (projr (load_project idle ''default'')) = Inr q \<and>
     map c_key (p_components q) = [''frontend'', ''backend''] \<and>
     stored (snd (run_command (Reorder [''c2'', ''c1'']) idle_env ''default'' idle)) = (stored idle)(''p1'' \<mapsto> q)"
proof -
  let ?p = "projr (load_project idle ''default'')"
  have d: "command_done idle ?p (command_spec (Reorder [''c2'', ''c1'']) idle_env idle ?p)
      (run_command (Reorder [''c2'', ''c1'']) idle_env ''default'' idle)"
    by (rule registry_commands_refine [OF idle_facts(1) idle_project idle_facts(2,4)])
  have r: "\<not> isl (reorder [''c2'', ''c1''] ?p)"
    "map c_key (p_components (projr (reorder [''c2'', ''c1''] ?p))) = [''frontend'', ''backend'']"
    "p_id ?p = ''p1''" by code_simp+
  show ?thesis
    using d r(2,3) sum.collapse(2) [OF r(1)]
    by (intro exI [of _ "projr (reorder [''c2'', ''c1''] ?p)"]) (auto simp: command_done_def split: sum.splits)
qed

text \<open>
  C33. Saving reads back: for an aggregate that keeps its invariant and the identity of what is stored,
  writing every component twice, first at the negated position, never meets a unique constraint in
  between (a one-pass save of a reordered project would), the save goes through, and loading the
  project gives the very aggregate that was saved; rows of other projects are untouched.
\<close>

theorem saved_project_reads_back:
  assumes "project_fits p w" and "find_row p_id (p_id p) (t_projects (w_cur w)) = Some row"
    and "p_key row = p_key p" and "p_created_at row = p_created_at p"
  shows "fst (proj_save p w) = Inr () \<and>
    load_project (commit (snd (proj_save p w))) (p_id p) = Inr p \<and>
    components_ok (t_components (w_cur (snd (proj_save p w)))) \<and>
    (\<forall>i. i \<notin> c_id ` set (p_components p) \<longrightarrow>
       find_row c_id i (t_components (w_cur (snd (proj_save p w)))) =
       find_row c_id i (filter (\<lambda>r. c_project_id r \<noteq> p_id p) (t_components (w_cur w))))"
  using proj_save_reads_back [OF assms] by auto

text \<open>The two components swapped: with one pass, the first row written would collide.\<close>

definition swapped :: project where
  "swapped = projr (reorder [''c2'', ''c1''] (projr (load_project idle ''default'')))"

theorem saved_project_reads_back_witness:
  "load_project (commit (snd (proj_save swapped idle))) ''p1'' = Inr swapped \<and>
   flush_components (map component_row_of (p_components swapped)) (t_components (w_cur idle)) = None"
proof -
  have f: "project_fits swapped idle" "p_id swapped = ''p1''"
    "find_row p_id (p_id swapped) (t_projects (w_cur idle)) = Some sample_project"
    "p_key sample_project = p_key swapped" "p_created_at sample_project = p_created_at swapped"
    "flush_components (map component_row_of (p_components swapped)) (t_components (w_cur idle)) = None"
    by code_simp+
  show ?thesis using saved_project_reads_back [OF f(1,3,4,5)] f(2,6) by simp
qed

text \<open>
  Creating and updating a connection, exactly. A new connection becomes the default when it is
  asked to or when it is the first of its kind, the old default of the kind steps down in the same
  transaction, and the only refusal is a name already taken; an update is refused exactly when the
  name it leaves is another connection's. Every outcome keeps names unique and at most one default
  per kind, and a refusal changes nothing.
\<close>

theorem connection_writes_exact:
  assumes "connections_ok (t_connections (w_cur w))" and "w_durable w = w_cur w"
    and "new_uuid v w \<notin> n_id ` set (t_connections (w_cur w))"
    and "find_row n_id i (t_connections (w_cur w)) = Some old"
  shows "(let dflt = (d \<or> (\<forall>m \<in> set (t_connections (w_cur w)). n_kind m \<noteq> kind));
        n = connection_create (new_uuid v w) kind name url (encrypt token) dflt (now_of v w);
        (r, w') = create_connection v encrypt kind name url token d w
      in if name \<in> n_name ` set (t_connections (w_cur w))
         then r = Inl (ConnectionNameTakenError (msg_name_taken name)) \<and> w_cur w' = w_cur w
         else r = Inr n \<and> connections_ok (t_connections (w_cur w')) \<and> w_durable w' = w_cur w' \<and>
           t_connections (w_cur w') = make_room dflt kind None (t_connections (w_cur w)) @ [n]) \<and>
    (let n = connection_patched encrypt u (now_of v w) (connection_init old);
        (r, w') = update_connection v encrypt i u w
      in if \<exists>m \<in> set (t_connections (w_cur w)). n_id m \<noteq> i \<and> n_name m = n_name n
         then r = Inl (ConnectionNameTakenError (msg_name_taken (n_name n))) \<and> w_cur w' = w_cur w
         else r = Inr n \<and> connections_ok (t_connections (w_cur w')) \<and> w_durable w' = w_cur w' \<and>
           t_connections (w_cur w') = upd_row n_id i (apply_connection n)
             (make_room (nu_is_default u = Some True) (n_kind old) (Some i) (t_connections (w_cur w))))"
  using create_connection_rows [OF assms(1,3,2) prod.collapse [symmetric]]
    update_connection_rows [OF assms(1,4,2) prod.collapse [symmetric]]
  unfolding Let_def case_prod_unfold by blast

theorem connection_writes_exact_witness:
  "map n_is_default (t_connections (w_cur (snd
     (create_connection idle_env (\<lambda>t. (t, t)) CK_DRONE ''other'' ''https://d2'' ''secret'' True idle)))) = [False, True] \<and>
   fst (create_connection idle_env (\<lambda>t. (t, t)) CK_DRONE ''drone'' ''https://d2'' ''secret'' True idle) =
     Inl (ConnectionNameTakenError (msg_name_taken ''drone''))"
proof -
  have f: "connections_ok (t_connections (w_cur idle))" "new_uuid idle_env idle \<notin> n_id ` set (t_connections (w_cur idle))"
    "find_row n_id ''n1'' (t_connections (w_cur idle)) = Some sample_connection"
    "''other'' \<notin> n_name ` set (t_connections (w_cur idle))" "''drone'' \<in> n_name ` set (t_connections (w_cur idle))"
    by code_simp+
  have m: "map n_is_default (make_room True CK_DRONE None (t_connections (w_cur idle))) = [False]" by code_simp
  note both = connection_writes_exact [OF f(1) idle_facts(2) f(2,3), where kind = CK_DRONE and url = "''https://d2''"
      and encrypt = "\<lambda>t. (t, t)" and token = "''secret''" and d = True]
  show ?thesis
    using both [of "''other''"] both [of "''drone''"] f(4,5) m
    by (auto simp: Let_def case_prod_unfold connection_create_def connection_init_def)
qed

end
