(* ===== verification/Publish_Service.thy ===== *)
theory Publish_Service
  imports Gitea_Client Orch_Store
begin

section \<open>Publishing one component\<close>

text \<open>
  app/schemas/publish.py and app/services/publish_service.py: the request, the publish record of
  a deployment and version, and the conversation with Gitea that ends with a release on the
  deployment's commit, or with a recorded failure. Like the deployment service, a method takes
  the ids of the rows it assigns to.
\<close>

subsection \<open>The request\<close>

record publish_request =
  pb_version :: string
  pb_name :: string
  pb_release_notes :: string
  pb_draft :: bool
  pb_prerelease :: bool

definition body_of :: "publish_request \<Rightarrow> release_body" where
  "body_of q = \<lparr>rb_name = pb_name q, rb_notes = pb_release_notes q, rb_draft = pb_draft q,
     rb_prerelease = pb_prerelease q\<rparr>"

definition is_digit :: "char \<Rightarrow> bool" where
  "is_digit c \<longleftrightarrow> (let n = (of_char c :: nat) in 48 \<le> n \<and> n \<le> 57)"

definition is_suffix_char :: "char \<Rightarrow> bool" where
  "is_suffix_char c \<longleftrightarrow>
     (let n = (of_char c :: nat)
      in (48 \<le> n \<and> n \<le> 57) \<or> (65 \<le> n \<and> n \<le> 90) \<or> (97 \<le> n \<and> n \<le> 122) \<or> n \<in> {45, 46})"

text \<open>
  VERSION_PATTERN, read from left to right: \<open>[0-9]+\<close> is followed by a character outside its class
  each time, so the greedy match is the only one.
\<close>

definition digits_then :: "(string \<Rightarrow> bool) \<Rightarrow> string \<Rightarrow> bool" where
  "digits_then rest s \<longleftrightarrow> takeWhile is_digit s \<noteq> [] \<and> rest (dropWhile is_digit s)"

definition dot_then :: "(string \<Rightarrow> bool) \<Rightarrow> string \<Rightarrow> bool" where
  "dot_then rest s \<longleftrightarrow> (case s of [] \<Rightarrow> False | c # t \<Rightarrow> c = CHR ''.'' \<and> rest t)"

definition optional_suffix :: "string \<Rightarrow> bool" where
  "optional_suffix s \<longleftrightarrow> (case s of [] \<Rightarrow> True
     | c # t \<Rightarrow> c \<in> {CHR ''-'', CHR ''+''} \<and> t \<noteq> [] \<and> list_all is_suffix_char t)"

definition VERSION_PATTERN :: "string \<Rightarrow> bool" where
  "VERSION_PATTERN s \<longleftrightarrow>
     digits_then (dot_then (digits_then (dot_then (digits_then optional_suffix))))
       (case s of [] \<Rightarrow> [] | c # t \<Rightarrow> if c = CHR ''v'' then t else s)"

definition validate_publish_request ::
    "string \<Rightarrow> string \<Rightarrow> string \<Rightarrow> bool \<Rightarrow> bool \<Rightarrow> exn + publish_request" where
  "validate_publish_request version name notes draft prerelease =
     (if version = [] \<or> length version > 100 \<or> \<not> VERSION_PATTERN (strip version) then Inl ValidationError
      else if name = [] \<or> length name > 255 then Inl ValidationError
      else if length notes > 20000 then Inl ValidationError
      else Inr \<lparr>pb_version = strip version, pb_name = strip name, pb_release_notes = notes,
        pb_draft = draft, pb_prerelease = prerelease\<rparr>)"

subsection \<open>Publish records in the session\<close>

definition find_record :: "world \<Rightarrow> string \<Rightarrow> publish_record option" where
  "find_record w r = find_row q_id r (t_publish_records (w_cur w))"

definition record_of :: "world \<Rightarrow> string \<Rightarrow> string \<Rightarrow> publish_record option" where
  "record_of w i version =
     List.find (\<lambda>r. q_deployment_id r = i \<and> q_version r = version) (t_publish_records (w_cur w))"

definition upd_record :: "string \<Rightarrow> (publish_record \<Rightarrow> publish_record) \<Rightarrow> world \<Rightarrow> world" where
  "upd_record r f = set_tables (\<lambda>t. t\<lparr>t_publish_records := upd_row q_id r f (t_publish_records t)\<rparr>)"

text \<open>uq_publish_records_deployment_version, as a condition on the table.\<close>

definition records_unique :: "publish_record list \<Rightarrow> bool" where
  "records_unique rs \<longleftrightarrow> distinct (map (\<lambda>r. (q_deployment_id r, q_version r)) rs)"

definition msg_not_publishing :: "string \<Rightarrow> string" where
  "msg_not_publishing key = ''Component '' @ repr key @ '' is configured not to publish releases''"

definition msg_no_gitea_repo :: "string \<Rightarrow> string" where
  "msg_no_gitea_repo key = ''Gitea repository is not configured for '' @ key"

definition get_gitea_repo :: "'a component_row_scheme \<Rightarrow> exn + (string \<times> string)" where
  "get_gitea_repo c =
     (if \<not> c_publish_enabled c then Inl (PublishConfigurationError (msg_not_publishing (c_key c)))
      else if \<not> (py_truthy (c_gitea_owner c) \<and> py_truthy (c_gitea_repo c))
      then Inl (PublishConfigurationError (msg_no_gitea_repo (c_key c)))
      else Inr (the (c_gitea_owner c), the (c_gitea_repo c)))"

definition tag_for :: "'a component_row_scheme \<Rightarrow> string \<Rightarrow> string" where
  "tag_for c version = c_tag_prefix c @ version"

definition new_record ::
    "env \<Rightarrow> world \<Rightarrow> dep_row \<Rightarrow> string \<Rightarrow> string \<times> string \<Rightarrow> component_row \<Rightarrow> publish_record" where
  "new_record v w d version repo c =
     \<lparr>q_id = new_uuid v w, q_release_bundle_id = d_release_bundle_id d, q_deployment_id = d_id d,
      q_project_id = Some (d_project_id d), q_component_id = Some (c_id c),
      q_component = d_component d, q_version = version, q_repo_owner = fst repo,
      q_repo_name = snd repo, q_commit_sha = d_commit_sha d, q_tag_name = tag_for c version,
      q_gitea_release_id = None, q_gitea_release_url = None, q_status = PR_PUBLISHING,
      q_error_code = None, q_error_message = None, q_requested_by = v_actor v,
      q_created_at = now_of v w, q_updated_at = now_of v (tick w), q_published_at = None\<rparr>"

definition insert_record :: "publish_record \<Rightarrow> world \<Rightarrow> world" where
  "insert_record r = set_tables (\<lambda>t. t\<lparr>t_publish_records := t_publish_records t @ [r]\<rparr>)"

definition record_for ::
    "env \<Rightarrow> dep_row \<Rightarrow> string \<Rightarrow> string \<times> string \<Rightarrow> component_row \<Rightarrow> world \<Rightarrow>
     (exn + publish_record) \<times> world" where
  "record_for v d version repo c w =
     (case record_of w (d_id d) version of
        Some r \<Rightarrow> (Inr r, w)
      | None \<Rightarrow>
          (let r = new_record v w d version repo c; w1 = insert_record r (tick (tick w))
           in if keyed q_id (t_publish_records (w_cur w1)) \<and> records_unique (t_publish_records (w_cur w1))
              then (Inr r, w1) else (Inl IntegrityError, rollback w1)))"

subsection \<open>Outcomes on the rows\<close>

definition rec_publishing :: "time \<Rightarrow> publish_record \<Rightarrow> publish_record" where
  "rec_publishing at r =
     r\<lparr>q_status := PR_PUBLISHING, q_error_code := None, q_error_message := None, q_updated_at := at\<rparr>"

definition dep_publishing :: "string \<Rightarrow> time \<Rightarrow> dep_row \<Rightarrow> dep_row" where
  "dep_publishing version at d =
     d\<lparr>d_publish_status := PS_PUBLISHING, d_version := Some version,
       d_publish_started_at := time_or (d_publish_started_at d) at, d_publish_failed_at := None,
       d_publish_error_code := None, d_publish_error_message := None\<rparr>"

text \<open>A column of type text receiving a JSON value.\<close>

definition text_of :: "json \<Rightarrow> string option" where
  "text_of j = (if j = JNull then None else Some (py_str j))"

definition rec_published :: "gitea_release \<Rightarrow> time \<Rightarrow> publish_record \<Rightarrow> publish_record" where
  "rec_published g at r =
     r\<lparr>q_gitea_release_id := Some (py_str (gl_id g)), q_gitea_release_url := text_of (gl_html_url g),
       q_status := PR_PUBLISHED, q_published_at := Some at, q_updated_at := at\<rparr>"

definition dep_published :: "publish_record \<Rightarrow> time \<Rightarrow> time \<Rightarrow> dep_row \<Rightarrow> dep_row" where
  "dep_published r published_at at d =
     d\<lparr>d_publish_status := PS_PUBLISHED, d_version := Some (q_version r),
       d_gitea_release_id := q_gitea_release_id r, d_gitea_release_tag := Some (q_tag_name r),
       d_gitea_release_url := q_gitea_release_url r, d_published_at := Some published_at,
       d_publish_failed_at := None, d_publish_error_code := None, d_publish_error_message := None,
       d_updated_at := at\<rparr>"

definition rec_failed :: "string \<Rightarrow> string \<Rightarrow> time \<Rightarrow> publish_record \<Rightarrow> publish_record" where
  "rec_failed code msg at r =
     r\<lparr>q_status := PR_FAILED, q_error_code := Some code, q_error_message := Some msg, q_updated_at := at\<rparr>"

definition dep_publish_failed :: "string \<Rightarrow> string \<Rightarrow> time \<Rightarrow> dep_row \<Rightarrow> dep_row" where
  "dep_publish_failed code msg at d =
     d\<lparr>d_publish_status := PS_FAILED, d_publish_failed_at := Some at, d_publish_error_code := Some code,
       d_publish_error_message := Some msg, d_updated_at := at\<rparr>"

text \<open>\<open>record.published_at or utc_now()\<close>, then \<open>utc_now()\<close> for \<open>updated_at\<close>.\<close>

definition apply_success :: "env \<Rightarrow> string \<Rightarrow> string \<Rightarrow> world \<Rightarrow> world" where
  "apply_success v i r w =
     (case find_record w r of
        None \<Rightarrow> w
      | Some rec \<Rightarrow>
          (case q_published_at rec of
             Some t \<Rightarrow> upd_dep i (dep_published rec t (now_of v w)) (tick w)
           | None \<Rightarrow> upd_dep i (dep_published rec (now_of v w) (now_of v (tick w))) (tick (tick w))))"

definition apply_failure :: "env \<Rightarrow> string \<Rightarrow> string \<Rightarrow> string \<Rightarrow> string \<Rightarrow> world \<Rightarrow> world" where
  "apply_failure v i r code msg w =
     upd_dep i (dep_publish_failed code msg (now_of v w))
       (upd_record r (rec_failed code msg (now_of v w)) (tick w))"

subsection \<open>The conversation with Gitea\<close>

definition is_gitea :: "gitea_error \<Rightarrow> exn \<Rightarrow> bool" where
  "is_gitea k e \<longleftrightarrow> (case e of GiteaError k' _ \<Rightarrow> k' = k | _ \<Rightarrow> False)"

text \<open>Create the release; on a conflict read back what is there instead of moving the tag.\<close>

definition create_or_adopt ::
    "env \<Rightarrow> client \<Rightarrow> string \<times> string \<Rightarrow> string \<Rightarrow> publish_request \<Rightarrow> string \<Rightarrow> world \<Rightarrow>
     (exn + gitea_release \<times> bool) \<times> world" where
  "create_or_adopt v cl repo sha q tag w =
     (case gitea_create_release v cl (fst repo) (snd repo) tag sha (body_of q) w of
        (Inr g, w1) \<Rightarrow> (Inr (g, False), w1)
      | (Inl e, w1) \<Rightarrow>
          (if \<not> is_gitea GiteaConflictError e then (Inl e, w1)
           else (case gitea_get_tag v cl (fst repo) (snd repo) tag w1 of
                   (Inl e2, w2) \<Rightarrow> (Inl e2, w2)
                 | (Inr t, w2) \<Rightarrow>
                     (if gt_commit_sha t \<noteq> sha then (Inl (TagAlreadyExistsDifferentCommit tag), w2)
                      else (case gitea_get_release_by_tag v cl (fst repo) (snd repo) tag w2 of
                              (Inl e3, w3) \<Rightarrow> (Inl e3, w3)
                            | (Inr g, w3) \<Rightarrow> (Inr (g, True), w3))))))"

definition ensure_release ::
    "env \<Rightarrow> client \<Rightarrow> string \<times> string \<Rightarrow> string \<Rightarrow> publish_request \<Rightarrow> string \<Rightarrow> world \<Rightarrow>
     (exn + gitea_release \<times> bool) \<times> world" where
  "ensure_release v cl repo sha q tag w =
     (case gitea_get_repository v cl (fst repo) (snd repo) w of
        (Inl e, w1) \<Rightarrow> (Inl e, w1)
      | (Inr _, w1) \<Rightarrow>
          (case gitea_get_tag v cl (fst repo) (snd repo) tag w1 of
             (Inl e, w2) \<Rightarrow>
               (if is_gitea GiteaNotFoundError e then create_or_adopt v cl repo sha q tag w2
                else (Inl e, w2))
           | (Inr t, w2) \<Rightarrow>
               (if gt_commit_sha t \<noteq> sha then (Inl (TagAlreadyExistsDifferentCommit tag), w2)
                else (case gitea_get_release_by_tag v cl (fst repo) (snd repo) tag w2 of
                        (Inr g, w3) \<Rightarrow> (Inr (g, True), w3)
                      | (Inl e, w3) \<Rightarrow>
                          (if is_gitea GiteaNotFoundError e then create_or_adopt v cl repo sha q tag w3
                           else (Inl e, w3))))))"

subsection \<open>Publishing\<close>

definition msg_tag_conflict :: "string \<Rightarrow> string" where
  "msg_tag_conflict tag = ''Tag '' @ tag @ '' already exists on a different commit''"

text \<open>The observable PUBLISHING state, committed before anything is sent.\<close>

definition begin_publish :: "env \<Rightarrow> string \<Rightarrow> string \<Rightarrow> string \<Rightarrow> world \<Rightarrow> world" where
  "begin_publish v i r version w =
     commit (upd_dep i (dep_publishing version (now_of v w))
       (upd_record r (rec_publishing (now_of v w)) (tick w)))"

definition finish_publish :: "env \<Rightarrow> string \<Rightarrow> string \<Rightarrow> gitea_release \<Rightarrow> world \<Rightarrow> world" where
  "finish_publish v i r g w =
     apply_success v i r (upd_record r (rec_published g (now_of v w)) (tick w))"

text \<open>
  The record's id and whether the release was there already (the transient attribute
  \<open>_already_exists\<close>, absent on a failed record).
\<close>

definition publish_outcome ::
    "env \<Rightarrow> string \<Rightarrow> string \<Rightarrow> (exn + gitea_release \<times> bool) \<Rightarrow> world \<Rightarrow> (exn + string \<times> bool) \<times> world" where
  "publish_outcome v i r outcome w =
     (case outcome of
        Inr (g, already) \<Rightarrow> (Inr (r, already), finish_publish v i r g w)
      | Inl e \<Rightarrow>
          (case e of
             TagAlreadyExistsDifferentCommit tag \<Rightarrow>
               (Inl e, apply_failure v i r ''TAG_ALREADY_EXISTS_DIFFERENT_COMMIT'' (msg_tag_conflict tag) w)
           | GiteaError k m \<Rightarrow> (Inr (r, False), apply_failure v i r (gitea_error_code k) m w)
           | _ \<Rightarrow> (Inl e, w)))"

definition publish_component ::
    "env \<Rightarrow> string \<Rightarrow> publish_request \<Rightarrow> world \<Rightarrow> (exn + string \<times> bool) \<times> world" where
  "publish_component v i q w =
     (case find_dep w i of None \<Rightarrow> (Inl DeploymentNotFoundError, w) | Some d \<Rightarrow>
     (case for_deployment w d of Inl e \<Rightarrow> (Inl e, w) | Inr c \<Rightarrow>
     (case get_gitea_repo c of Inl e \<Rightarrow> (Inl e, w) | Inr repo \<Rightarrow>
     (case gitea_client_for v w c of Inl e \<Rightarrow> (Inl e, w) | Inr cl \<Rightarrow>
     (case record_for v d (pb_version q) repo c w of (Inl e, w1) \<Rightarrow> (Inl e, w1) | (Inr rec, w1) \<Rightarrow>
        (if q_status rec = PR_PUBLISHED then (Inr (q_id rec, True), apply_success v i (q_id rec) w1)
         else (let w2 = begin_publish v i (q_id rec) (pb_version q) w1
               in case ensure_release v cl repo (d_commit_sha d) q (q_tag_name rec) w2 of
                    (outcome, w3) \<Rightarrow> publish_outcome v i (q_id rec) outcome w3)))))))"

end
