(* ===== verification/Publish_Orchestrator.thy ===== *)
theory Publish_Orchestrator
  imports Publish_Service Release_Orchestrator
begin

section \<open>Publishing a deployment or a release\<close>

text \<open>
  app/services/publish_orchestrator.py. A release publishes its components one after the other and
  commits after each, so that a finished component survives a later failure; the outcomes are
  rolled up into one status at the end.
\<close>

definition VERSION_IS_PINNED_WHILE :: "publish_status list" where
  "VERSION_IS_PINNED_WHILE = [PS_PUBLISHING, PS_PUBLISHED, PS_PARTIAL_FAILURE]"

definition msg_pinned :: "string \<Rightarrow> string" where
  "msg_pinned current = ''Publish '' @ current @
     '' is still in progress or partly published; retry it with version '' @ current @
     '' before starting a different one''"

definition assert_version :: "string option \<Rightarrow> publish_status \<Rightarrow> string \<Rightarrow> exn + unit" where
  "assert_version current status requested =
     (if py_truthy current \<and> current \<noteq> Some requested \<and> status \<in> set VERSION_IS_PINNED_WHILE
      then Inl (PublishStateError (msg_pinned (the current))) else Inr ())"

definition dep_publish_status :: "world \<Rightarrow> string \<Rightarrow> string option" where
  "dep_publish_status w i = map_option (ps_value \<circ> d_publish_status) (find_dep w i)"

definition bundle_publish_status :: "world \<Rightarrow> string \<Rightarrow> string option" where
  "bundle_publish_status w b = map_option (ps_value \<circ> b_publish_status) (find_bundle w b)"

definition publish_stage_of :: "world \<Rightarrow> string \<Rightarrow> string" where
  "publish_stage_of w i =
     ws_value (publish_stage (case find_dep w i of None \<Rightarrow> [] | Some d \<Rightarrow> d_component d))"

definition msg_requested :: "string \<Rightarrow> string" where
  "msg_requested version = ''Publish '' @ version @ '' requested''"

definition msg_validated :: "string \<Rightarrow> string" where
  "msg_validated version = ''Version '' @ version @ '' validated''"

definition msg_ready :: "string \<Rightarrow> string" where
  "msg_ready tag = ''Gitea release '' @ tag @ '' is ready''"

subsection \<open>The steps around one component\<close>

definition dep_prepare :: "string \<Rightarrow> time \<Rightarrow> dep_row \<Rightarrow> dep_row" where
  "dep_prepare version at d =
     d\<lparr>d_version := Some version, d_publish_status := PS_PUBLISHING,
       d_publish_started_at := time_or (d_publish_started_at d) at, d_updated_at := at\<rparr>"

definition prepare_deployment :: "env \<Rightarrow> string \<Rightarrow> string \<Rightarrow> bool \<Rightarrow> world \<Rightarrow> world" where
  "prepare_deployment v i version emit_prepare w =
     (let w1 = upd_dep i (dep_prepare version (now_of v w)) (tick w);
          s = dep_publish_status w1 i;
          w2 = log v None (Some i) (ws_value WAIT_PUBLISH_REQUEST) PUBLISH_REQUESTED s None
                 (Some (msg_requested version)) w1;
          w3 = (if emit_prepare
                then log v None (Some i) (ws_value PREPARE_RELEASE_VERSION) PUBLISH_STAGE_SUCCEEDED s None
                       (Some (msg_validated version))
                       (log v None (Some i) (ws_value PREPARE_RELEASE_VERSION) PUBLISH_STAGE_STARTED s
                         None None w2)
                else w2)
      in log v None (Some i) (publish_stage_of w3 i) PUBLISH_STAGE_STARTED s None None w3)"

definition prepare_version_event :: "env \<Rightarrow> string \<Rightarrow> world \<Rightarrow> world" where
  "prepare_version_event v b w =
     (let s = bundle_publish_status w b;
          version = (case find_bundle w b of None \<Rightarrow> [] | Some r \<Rightarrow> py_or (b_version r) ''None'');
          w1 = log v (Some b) None (ws_value PREPARE_RELEASE_VERSION) PUBLISH_STAGE_STARTED s None None w
      in log v (Some b) None (ws_value PREPARE_RELEASE_VERSION) PUBLISH_STAGE_SUCCEEDED s None
           (Some (msg_validated version)) w1)"

definition record_component_result ::
    "env \<Rightarrow> string \<Rightarrow> publish_record \<Rightarrow> bool \<Rightarrow> string option \<Rightarrow> world \<Rightarrow> world" where
  "record_component_result v i rec already rel w =
     (let stage = publish_stage_of w i; s = Some (pr_value (q_status rec))
      in if q_status rec = PR_PUBLISHED
         then log v rel (Some i) stage
                (if already then GITEA_RELEASE_ALREADY_EXISTS else GITEA_RELEASE_CREATED) s None
                (q_gitea_release_url rec)
                (log v rel (Some i) stage PUBLISH_STAGE_SUCCEEDED s None (Some (msg_ready (q_tag_name rec))) w)
         else log v rel (Some i) stage PUBLISH_STAGE_FAILED s (q_error_code rec) (q_error_message rec) w)"

definition fail_without_record :: "env \<Rightarrow> string \<Rightarrow> string \<Rightarrow> string \<Rightarrow> string option \<Rightarrow> world \<Rightarrow> world" where
  "fail_without_record v i code msg rel w =
     (let w1 = upd_dep i (dep_publish_failed code msg (now_of v w)) (tick w)
      in log v rel (Some i) (publish_stage_of w1 i) PUBLISH_STAGE_FAILED (dep_publish_status w1 i)
           (Some code) (Some msg) w1)"

text \<open>
  One component: publish it and record what came of it. The value is the tag that belongs to
  another commit, if that is what happened; any other exception escapes.
\<close>

definition publish_step ::
    "env \<Rightarrow> string \<Rightarrow> publish_request \<Rightarrow> string option \<Rightarrow> world \<Rightarrow> (exn + string option) \<times> world" where
  "publish_step v i q rel w =
     (case publish_component v i q w of
        (Inr (r, already), w1) \<Rightarrow>
          (case find_record w1 r of
             None \<Rightarrow> (Inl AttributeError, w1)
           | Some rec \<Rightarrow> (Inr None, record_component_result v i rec already rel w1))
      | (Inl e, w1) \<Rightarrow>
          (case e of
             TagAlreadyExistsDifferentCommit tag \<Rightarrow>
               (case record_of w1 i (pb_version q) of
                  None \<Rightarrow> (Inl AttributeError, w1)
                | Some rec \<Rightarrow> (Inr (Some tag), record_component_result v i rec False rel w1))
           | PublishConfigurationError m \<Rightarrow>
               (Inr None, fail_without_record v i ''GITEA_REPO_NOT_FOUND'' m rel w1)
           | _ \<Rightarrow> (Inl e, w1)))"

subsection \<open>A standalone deployment\<close>

definition dep_publish_ended :: "time \<Rightarrow> dep_row \<Rightarrow> dep_row" where
  "dep_publish_ended at d =
     (if d_publish_status d = PS_PUBLISHED then d\<lparr>d_updated_at := at\<rparr>
      else d\<lparr>d_publish_failed_at := time_or (d_publish_failed_at d) at, d_updated_at := at\<rparr>)"

definition finish_deployment_publish :: "env \<Rightarrow> string \<Rightarrow> world \<Rightarrow> world" where
  "finish_deployment_publish v i w =
     (let now = now_of v w; w1 = tick w;
          s = dep_publish_status w1 i;
          w2 = (if s = Some (ps_value PS_PUBLISHED)
                then log v None (Some i) (ws_value COMPLETE_PUBLISH) PUBLISH_COMPLETED s None None w1
                else w1)
      in upd_dep i (dep_publish_ended now) w2)"

definition publish_standalone ::
    "env \<Rightarrow> string \<Rightarrow> publish_request \<Rightarrow> world \<Rightarrow> (exn + dep_row) \<times> world" where
  "publish_standalone v i q w =
     (case get_deployment i w of
        Inl e \<Rightarrow> (Inl e, w)
      | Inr d \<Rightarrow>
          (if d_release_bundle_id d \<noteq> None then (Inl (PublishStateError ''Publish the parent release bundle''), w)
           else if d_status d \<noteq> DS_SUCCESS
           then (Inl (DeploymentNotPublishableError ''Deployment is not publishable''), w)
           else (case assert_version (d_version d) (d_publish_status d) (pb_version q) of
               Inl e \<Rightarrow> (Inl e, w)
             | Inr _ \<Rightarrow>
                 (case publish_step v i q None (prepare_deployment v i (pb_version q) True w) of
                    (Inl e, w1) \<Rightarrow> (Inl e, w1)
                  | (Inr conflict, w1) \<Rightarrow>
                      (let w2 = commit (finish_deployment_publish v i w1)
                       in (case conflict of
                             Some tag \<Rightarrow> (Inl (TagAlreadyExistsDifferentCommit tag), w2)
                           | None \<Rightarrow> (get_deployment i w2, w2)))))))"

subsection \<open>A release\<close>

definition bundle_publishing :: "publish_request \<Rightarrow> time \<Rightarrow> bundle_row \<Rightarrow> bundle_row" where
  "bundle_publishing q at b =
     b\<lparr>b_publish_status := PS_PUBLISHING, b_version := Some (pb_version q),
       b_release_name := Some (pb_name q), b_release_notes := Some (pb_release_notes q),
       b_publish_started_at := time_or (b_publish_started_at b) at, b_published_at := None,
       b_publish_failed_at := None, b_publish_error_code := None, b_publish_error_message := None,
       b_updated_at := at\<rparr>"

text \<open>The components that publish, in order; a component that is gone is a KeyError.\<close>

fun publishing_of :: "world \<Rightarrow> dep_row list \<Rightarrow> exn + string list" where
  "publishing_of w [] = Inr []"
| "publishing_of w (d # ds) =
     (case find_row c_id (d_component_id d) (t_components (w_cur w)) of
        None \<Rightarrow> Inl (KeyError (d_id d))
      | Some c \<Rightarrow> (case publishing_of w ds of
          Inl e \<Rightarrow> Inl e
        | Inr is \<Rightarrow> Inr (if c_publish_enabled c then d_id d # is else is)))"

text \<open>The loop over the components. The value is the tags in conflict, in order.\<close>

fun publish_walk ::
    "env \<Rightarrow> string \<Rightarrow> publish_request \<Rightarrow> string list \<Rightarrow> world \<Rightarrow> (exn + string list) \<times> world" where
  "publish_walk v b q [] w = (Inr [], w)"
| "publish_walk v b q (i # rest) w =
     (case publish_step v i q (Some b) (prepare_deployment v i (pb_version q) False w) of
        (Inl e, w1) \<Rightarrow> (Inl e, w1)
      | (Inr conflict, w1) \<Rightarrow>
          (case publish_walk v b q rest (commit w1) of
             (Inl e, w2) \<Rightarrow> (Inl e, w2)
           | (Inr tags, w2) \<Rightarrow> (Inr (case conflict of None \<Rightarrow> tags | Some tag \<Rightarrow> tag # tags), w2)))"

definition deployment_records :: "world \<Rightarrow> string \<Rightarrow> publish_record list" where
  "deployment_records w i =
     sort_key q_created_at (filter (\<lambda>r. q_deployment_id r = i) (t_publish_records (w_cur w)))"

definition version_records :: "world \<Rightarrow> string \<Rightarrow> string \<Rightarrow> publish_record list" where
  "version_records w b version =
     concat (map (\<lambda>d. filter (\<lambda>r. q_version r = version) (deployment_records w (d_id d)))
       (bundle_deployments w b))"

definition count_status :: "publish_record_status \<Rightarrow> publish_record list \<Rightarrow> nat" where
  "count_status s rs = length (filter (\<lambda>r. q_status r = s) rs)"

definition publish_verdict :: "nat \<Rightarrow> nat \<Rightarrow> publish_status" where
  "publish_verdict published expected =
     (if published = expected \<and> published > 0 then PS_PUBLISHED
      else if published > 0 then PS_PARTIAL_FAILURE else PS_FAILED)"

definition verdict_event :: "publish_status \<Rightarrow> event_type" where
  "verdict_event s = (if s = PS_PUBLISHED then PUBLISH_COMPLETED
     else if s = PS_PARTIAL_FAILURE then PUBLISH_PARTIAL_FAILURE else PUBLISH_STAGE_FAILED)"

text \<open>Which error a release shows: the first failed record's, else the first deployment's.\<close>

definition aggregate_error ::
    "publish_record list \<Rightarrow> dep_row list \<Rightarrow> bundle_row \<Rightarrow> bundle_row" where
  "aggregate_error records ds b =
     (case filter (\<lambda>r. q_status r = PR_FAILED) records of
        f # _ \<Rightarrow> b\<lparr>b_publish_error_code := q_error_code f, b_publish_error_message := q_error_message f\<rparr>
      | [] \<Rightarrow>
          (let b1 = (case filter (\<lambda>d. d_publish_error_code d \<noteq> None) ds of
                 [] \<Rightarrow> b
               | d # _ \<Rightarrow> b\<lparr>b_publish_error_code := d_publish_error_code d,
                              b_publish_error_message := d_publish_error_message d\<rparr>)
           in if \<not> py_truthy (b_publish_error_code b1)
              then b1\<lparr>b_publish_error_code := None, b_publish_error_message := None\<rparr> else b1))"

definition bundle_aggregated :: "publish_status \<Rightarrow> time \<Rightarrow> bundle_row \<Rightarrow> bundle_row" where
  "bundle_aggregated s at b =
     (if s = PS_PUBLISHED
      then b\<lparr>b_publish_status := s, b_published_at := Some at, b_publish_failed_at := None\<rparr>
      else b\<lparr>b_publish_status := s, b_publish_failed_at := Some at\<rparr>)"

definition aggregate_bundle :: "env \<Rightarrow> string \<Rightarrow> string \<Rightarrow> nat \<Rightarrow> world \<Rightarrow> world" where
  "aggregate_bundle v b version expected w =
     (let records = version_records w b version;
          s = publish_verdict (count_status PR_PUBLISHED records) expected;
          now = now_of v w;
          w1 = upd_bundle b (\<lambda>r. (aggregate_error records (bundle_deployments w b)
                 (bundle_aggregated s now r))\<lparr>b_updated_at := now\<rparr>) (tick w)
      in log v (Some b) None (ws_value COMPLETE_PUBLISH) (verdict_event s) (bundle_publish_status w1 b)
           (Option.bind (find_bundle w1 b) b_publish_error_code)
           (Option.bind (find_bundle w1 b) b_publish_error_message) w1)"

definition msg_nothing_publishes :: string where
  "msg_nothing_publishes = ''No component in this release publishes a Gitea release. Turn '' @
     ''publishing on for at least one of them, or there is nothing to do.''"

text \<open>The state in which a release starts to publish.\<close>

definition begin_bundle :: "env \<Rightarrow> string \<Rightarrow> publish_request \<Rightarrow> world \<Rightarrow> world" where
  "begin_bundle v b q w =
     (let w1 = upd_bundle b (bundle_publishing q (now_of v w)) (tick w)
      in prepare_version_event v b
           (log v (Some b) None (ws_value WAIT_PUBLISH_REQUEST) PUBLISH_REQUESTED
             (bundle_publish_status w1 b) None (Some (msg_requested (pb_version q))) w1))"

definition publish_bundle ::
    "env \<Rightarrow> string \<Rightarrow> publish_request \<Rightarrow> world \<Rightarrow> (exn + bundle_row) \<times> world" where
  "publish_bundle v b q w =
     (case get_bundle b w of
        Inl e \<Rightarrow> (Inl e, w)
      | Inr r \<Rightarrow>
          (if b_deployment_status r \<noteq> BS_SUCCESS
           then (Inl (DeploymentNotPublishableError ''Deployment is not publishable''), w)
           else (case assert_version (b_version r) (b_publish_status r) (pb_version q) of
               Inl e \<Rightarrow> (Inl e, w)
             | Inr _ \<Rightarrow>
                 (let w3 = begin_bundle v b q w
                  in (case publishing_of w3 (ordered_by_component w3 (bundle_deployments w3 b)) of
                        Inl e \<Rightarrow> (Inl e, w3)
                      | Inr ids \<Rightarrow>
                          (if ids = [] then (Inl (PublishStateError msg_nothing_publishes), w3)
                           else (case publish_walk v b q ids w3 of
                               (Inl e, w4) \<Rightarrow> (Inl e, w4)
                             | (Inr tags, w4) \<Rightarrow>
                                 (let w5 = commit (aggregate_bundle v b (pb_version q) (length ids) w4)
                                  in (case tags of
                                        tag # _ \<Rightarrow> (Inl (TagAlreadyExistsDifferentCommit tag), w5)
                                      | [] \<Rightarrow> (get_bundle b w5, w5)))))))))) "

end
