(* ===== verification/Publish_Laws.thy ===== *)
theory Publish_Laws
  imports Publish_Orchestrator Bundle_Laws Session_Laws
begin

section \<open>What publishing guarantees\<close>

subsection \<open>The conversation with Gitea\<close>

text \<open>The last reading of the tag allows a release: it is absent, or already on our commit.\<close>

definition tag_open :: "env \<Rightarrow> client \<Rightarrow> string \<times> string \<Rightarrow> string \<Rightarrow> string \<Rightarrow> world \<Rightarrow> bool" where
  "tag_open v cl repo sha tag u \<longleftrightarrow>
     (case fst (gitea_get_tag v cl (fst repo) (snd repo) tag u) of
        Inl e \<Rightarrow> is_gitea GiteaNotFoundError e | Inr t \<Rightarrow> gt_commit_sha t = sha)"

text \<open>At most one request that writes, sent only after such a reading, with reads around it.\<close>

definition creates_once ::
    "env \<Rightarrow> client \<Rightarrow> string \<times> string \<Rightarrow> string \<Rightarrow> publish_request \<Rightarrow> string \<Rightarrow> world \<Rightarrow> world \<Rightarrow> bool" where
  "creates_once v cl repo sha q tag w w' \<longleftrightarrow>
     reads w w' \<or>
     (\<exists>u u1. reads w u \<and> tag_open v cl repo sha tag u \<and>
        reads (snd (gitea_get_tag v cl (fst repo) (snd repo) tag u)) u1 \<and>
        reads (snd (gitea_create_release v cl (fst repo) (snd repo) tag sha (body_of q) u1)) w')"

text \<open>Where a release that is reported came from: a re-read tag on our commit, or our own request.\<close>

definition confirmed ::
    "env \<Rightarrow> client \<Rightarrow> string \<times> string \<Rightarrow> string \<Rightarrow> publish_request \<Rightarrow> string \<Rightarrow> world \<Rightarrow> world \<Rightarrow>
     gitea_release \<Rightarrow> bool \<Rightarrow> bool" where
  "confirmed v cl repo sha q tag w w' g already \<longleftrightarrow>
     (if already
      then \<exists>u t. extends_trace w u \<and> extends_trace u w' \<and>
             fst (gitea_get_tag v cl (fst repo) (snd repo) tag u) = Inr t \<and> gt_commit_sha t = sha
      else \<exists>u. extends_trace w u \<and> extends_trace u w' \<and>
             fst (gitea_create_release v cl (fst repo) (snd repo) tag sha (body_of q) u) = Inr g)"

lemma extends_reads: "reads w w' \<Longrightarrow> extends_trace w w'"
  by (auto simp: reads_def extends_trace_def)

lemma extends_create: "extends_trace w (snd (gitea_create_release v cl ow rp tg co body w))"
  by (simp add: gitea_create_world extends_trace_def)

lemma create_or_adopt_facts:
  assumes "create_or_adopt v cl repo sha q tag w = (x, w')"
  shows "reads (snd (gitea_create_release v cl (fst repo) (snd repo) tag sha (body_of q) w)) w' \<and>
    (\<forall>g a. x = Inr (g, a) \<longrightarrow> confirmed v cl repo sha q tag w w' g a)"
proof -
  let ?c = "gitea_create_release v cl (fst repo) (snd repo) tag sha (body_of q) w"
  obtain y w1 where y: "?c = (y, w1)" by force
  have x1: "extends_trace w w1" using extends_create [of w v cl "fst repo"] y by (metis snd_conv)
  show ?thesis
  proof (cases y)
    case (Inr g)
    then show ?thesis using assms y x1
      by (auto simp: create_or_adopt_def confirmed_def intro!: exI [of _ w])
  next
    case (Inl e)
    show ?thesis
    proof (cases "is_gitea GiteaConflictError e")
      case False
      then show ?thesis using assms y Inl by (auto simp: create_or_adopt_def)
    next
      case True
      obtain t w2 where t: "gitea_get_tag v cl (fst repo) (snd repo) tag w1 = (t, w2)" by force
      have r2: "reads w1 w2" using gitea_reads(2) [of w1 v cl] t by (metis snd_conv)
      obtain z w3 where z: "gitea_get_release_by_tag v cl (fst repo) (snd repo) tag w2 = (z, w3)" by force
      have r3: "reads w1 w3" using gitea_reads(4) [of w2 v cl] z r2 reads_trans by (metis snd_conv)
      have f: "fst (gitea_get_tag v cl (fst repo) (snd repo) tag w1) = t" using t by simp
      show ?thesis
        using assms y Inl True t z r2 r3 f x1 extends_reads [OF r3]
        by (auto simp: create_or_adopt_def confirmed_def split: sum.splits if_splits
            intro!: exI [of _ w1])
    qed
  qed
qed

lemma confirmed_before:
  "confirmed v cl repo sha q tag u w' g a \<Longrightarrow> extends_trace w u \<Longrightarrow> confirmed v cl repo sha q tag w w' g a"
  unfolding confirmed_def by (auto intro: extends_trace_trans split: if_splits)

lemma confirmed_after:
  "confirmed v cl repo sha q tag w u g a \<Longrightarrow> extends_trace u w' \<Longrightarrow> confirmed v cl repo sha q tag w w' g a"
  unfolding confirmed_def by (auto intro: extends_trace_trans split: if_splits)

lemma ensure_release_facts:
  assumes "ensure_release v cl repo sha q tag w = (x, w')"
  shows "creates_once v cl repo sha q tag w w' \<and>
    (\<forall>g a. x = Inr (g, a) \<longrightarrow> confirmed v cl repo sha q tag w w' g a)"
proof -
  obtain r w1 where r: "gitea_get_repository v cl (fst repo) (snd repo) w = (r, w1)" by force
  have r1: "reads w w1" using gitea_reads(1) [of w v cl] r by (metis snd_conv)
  obtain t w2 where t: "gitea_get_tag v cl (fst repo) (snd repo) tag w1 = (t, w2)" by force
  have r2: "reads w w2" using gitea_reads(2) [of w1 v cl] t r1 reads_trans by (metis snd_conv)
  have ft: "fst (gitea_get_tag v cl (fst repo) (snd repo) tag w1) = t"
    "snd (gitea_get_tag v cl (fst repo) (snd repo) tag w1) = w2" using t by simp_all
  obtain z w3 where z: "gitea_get_release_by_tag v cl (fst repo) (snd repo) tag w2 = (z, w3)" by force
  have r23: "reads w2 w3" using gitea_reads(4) [of w2 v cl] z by (metis snd_conv)
  have r3: "reads w w3" using r2 r23 by (rule reads_trans)
  have create: ?thesis
    if o: "tag_open v cl repo sha tag w1" and u: "reads w2 u"
      and c: "create_or_adopt v cl repo sha q tag u = (x, w')" for u
  proof -
    have "reads w u" using r2 u by (rule reads_trans)
    then show ?thesis
      using create_or_adopt_facts [OF c] r1 o u ft(2) confirmed_before [OF _ extends_reads [OF \<open>reads w u\<close>]]
      unfolding creates_once_def by metis
  qed
  show ?thesis
  proof (cases r)
    case (Inl e)
    then show ?thesis using assms r r1 by (auto simp: ensure_release_def creates_once_def)
  next
    case (Inr info)
    note ok = Inr
    show ?thesis
    proof (cases t)
      case (Inl e)
      then show ?thesis
      proof (cases "is_gitea GiteaNotFoundError e")
        case True
        have "create_or_adopt v cl repo sha q tag w2 = (x, w')"
          using assms r ok t Inl True by (simp add: ensure_release_def)
        then show ?thesis by (rule create [rotated 2]) (auto simp: tag_open_def ft Inl True)
      next
        case False
        then show ?thesis using assms r ok t Inl r2 by (auto simp: ensure_release_def creates_once_def)
      qed
    next
      case (Inr tg)
      show ?thesis
      proof (cases "gt_commit_sha tg = sha")
        case False
        then show ?thesis using assms r ok t Inr r2 by (auto simp: ensure_release_def creates_once_def)
      next
        case True
        note same = True
        show ?thesis
        proof (cases z)
          case g: (Inr g)
          have "x = Inr (g, True)" "w' = w3" using assms r ok t Inr same z g by (auto simp: ensure_release_def)
          then show ?thesis
            using r3 same ft Inr extends_reads [OF r1] extends_reads [OF reads_trans [OF _ r23]]
              gitea_reads(2) [of w1 v cl "fst repo" "snd repo" tag]
            by (auto simp: creates_once_def confirmed_def intro!: exI [of _ w1])
        next
          case e: (Inl e)
          show ?thesis
          proof (cases "is_gitea GiteaNotFoundError e")
            case True
            have "create_or_adopt v cl repo sha q tag w3 = (x, w')"
              using assms r ok t Inr same z e True by (simp add: ensure_release_def)
            then show ?thesis by (rule create [rotated 2]) (auto simp: tag_open_def ft Inr same r23)
          next
            case False
            then show ?thesis using assms r ok t Inr same z e r3
              by (auto simp: ensure_release_def creates_once_def)
          qed
        qed
      qed
    qed
  qed
qed

subsection \<open>What publishing leaves alone\<close>

text \<open>A deployment without its publish side: what the promotion wrote.\<close>

definition dep_promotion_side :: "dep_row \<Rightarrow> dep_row" where
  "dep_promotion_side d =
     d\<lparr>d_updated_at := 0, d_publish_status := PS_NOT_PUBLISHED, d_version := None,
       d_gitea_release_id := None, d_gitea_release_tag := None, d_gitea_release_url := None,
       d_publish_started_at := None, d_published_at := None, d_publish_failed_at := None,
       d_publish_error_code := None, d_publish_error_message := None\<rparr>"

lemma promotion_side_publishing [simp]:
  "dep_promotion_side (dep_publishing version at d) = dep_promotion_side d"
  "dep_promotion_side (dep_prepare version at d) = dep_promotion_side d"
  "dep_promotion_side (dep_published r a b d) = dep_promotion_side d"
  "dep_promotion_side (dep_publish_failed code msg at d) = dep_promotion_side d"
  "dep_promotion_side (dep_publish_ended at d) = dep_promotion_side d"
  by (simp_all add: dep_promotion_side_def dep_publishing_def dep_prepare_def dep_published_def
      dep_publish_failed_def dep_publish_ended_def)

definition promotion_sides :: "tables \<Rightarrow> dep_row list" where
  "promotion_sides T = map dep_promotion_side (t_deployments T)"

definition record_inv :: "publish_record \<Rightarrow> bool" where
  "record_inv r \<longleftrightarrow>
     (q_published_at r \<noteq> None \<longleftrightarrow> q_status r = PR_PUBLISHED) \<and>
     (q_gitea_release_id r \<noteq> None \<longleftrightarrow> q_status r = PR_PUBLISHED) \<and>
     (q_error_code r \<noteq> None \<longleftrightarrow> q_status r = PR_FAILED)"

definition good_records :: "publish_record list \<Rightarrow> bool" where
  "good_records rs \<longleftrightarrow> keyed q_id rs \<and> records_unique rs \<and> (\<forall>r \<in> set rs. record_inv r)"

definition published_kept :: "publish_record list \<Rightarrow> publish_record list \<Rightarrow> bool" where
  "published_kept rs rs' \<longleftrightarrow>
     (\<forall>i r. find_row q_id i rs = Some r \<and> q_status r = PR_PUBLISHED \<longrightarrow> find_row q_id i rs' = Some r)"

text \<open>
  The promotion side of every deployment and the registry stay; good records stay good, and a
  published record stays exactly what it was.
\<close>

definition tables_publish :: "tables \<Rightarrow> tables \<Rightarrow> bool" where
  "tables_publish T U \<longleftrightarrow>
     promotion_sides U = promotion_sides T \<and> t_components U = t_components T \<and>
     t_projects U = t_projects T \<and> t_connections U = t_connections T \<and>
     (good_records (t_publish_records T) \<longrightarrow>
        good_records (t_publish_records U) \<and>
        published_kept (t_publish_records T) (t_publish_records U))"

interpretation publishing: table_preorder tables_publish
  by unfold_locales (auto simp: tables_publish_def published_kept_def)

lemma map_upd_row_same: "(\<And>r. g (f r) = g r) \<Longrightarrow> map g (upd_row key k f t) = map g t"
  by (simp add: upd_row_def)

lemma publish_upd_dep:
  "(\<And>d. dep_promotion_side (f d) = dep_promotion_side d) \<Longrightarrow> across tables_publish w (upd_dep i f w)"
  unfolding upd_dep_def
  by (rule publishing.across_tables)
    (simp add: tables_publish_def promotion_sides_def map_upd_row_same published_kept_def)

lemma publish_upd_bundle: "across tables_publish w (upd_bundle b f w)"
  unfolding upd_bundle_def
  by (rule publishing.across_tables) (simp add: tables_publish_def promotion_sides_def published_kept_def)

lemma publish_log: "across tables_publish w (log v r d st k s c m w)"
  unfolding log_def add_event_def
  by (rule publishing.across_trans [OF publishing.across_tables publishing.across_tick])
    (simp add: tables_publish_def promotion_sides_def published_kept_def)


subsection \<open>Publish records\<close>

lemma find_record_frame [simp]:
  "find_record (upd_dep i f w) r = find_record w r" "find_record (tick w) r = find_record w r"
  "find_record (commit w) r = find_record w r" "find_record (upd_bundle b g w) r = find_record w r"
  "find_record (log v rl d st k s c m w) r = find_record w r"
  by (simp_all add: find_record_def upd_dep_def upd_bundle_def log_def add_event_def)

lemma find_record_reads [simp]: "reads w w' \<Longrightarrow> find_record w' r = find_record w r"
  by (simp add: find_record_def reads_def)

lemma find_record_sends: "sends_once w w' \<Longrightarrow> find_record w' r = find_record w r"
  using sends_onceD(1) [of w w'] by (simp add: find_record_def)

lemma record_updates_id [simp]:
  "q_id (rec_publishing at r) = q_id r" "q_id (rec_published g at r) = q_id r"
  "q_id (rec_failed code msg at r) = q_id r"
  by (simp_all add: rec_publishing_def rec_published_def rec_failed_def)

definition record_change :: "(publish_record \<Rightarrow> publish_record) \<Rightarrow> bool" where
  "record_change f \<longleftrightarrow> (\<forall>r. q_id (f r) = q_id r \<and> q_deployment_id (f r) = q_deployment_id r \<and>
     q_version (f r) = q_version r)"

lemma record_changes [simp]:
  "record_change (rec_publishing at)" "record_change (rec_published g at)"
  "record_change (rec_failed code msg at)"
  by (simp_all add: record_change_def rec_publishing_def rec_published_def rec_failed_def)

lemma find_record_upd [simp]:
  "record_change f \<Longrightarrow> find_record (upd_record r f w) r = map_option f (find_record w r)"
  "record_change f \<Longrightarrow> s \<noteq> r \<Longrightarrow> find_record (upd_record r f w) s = find_record w s"
  by (simp_all add: find_record_def upd_record_def record_change_def)

lemma record_upd_frame [simp]:
  "find_dep (upd_record r f w) i = find_dep w i" "find_bundle (upd_record r f w) b = find_bundle w b"
  "w_trace (upd_record r f w) = w_trace w" "w_durable (upd_record r f w) = w_durable w"
  by (simp_all add: upd_record_def find_dep_def find_bundle_def)

text \<open>Changing a record that is not published.\<close>

lemma good_records_upd:
  assumes "good_records rs" and "find_row q_id i rs = Some r" and "record_change f"
    and "record_inv (f r)"
  shows "good_records (upd_row q_id i f rs)"
proof -
  have "map (\<lambda>r. (q_deployment_id r, q_version r)) (upd_row q_id i f rs) =
      map (\<lambda>r. (q_deployment_id r, q_version r)) rs"
    using assms(3) by (intro map_upd_row_same) (simp add: record_change_def)
  moreover have "record_inv s" if mem: "s \<in> set (upd_row q_id i f rs)" for s
  proof -
    obtain t where t: "t \<in> set rs" "s = (if q_id t = i then f t else t)"
      using mem unfolding upd_row_def set_map by blast
    have "t = r" if "q_id t = i"
      using find_row_keyed [of q_id rs t] assms(1,2) t(1) that by (simp add: good_records_def)
    then show ?thesis using t assms(1,4) by (auto simp: good_records_def)
  qed
  ultimately show ?thesis
    using assms(1,3) by (simp add: good_records_def records_unique_def record_change_def)
qed

abbreviation keyed_records :: "world \<Rightarrow> bool" where
  "keyed_records w \<equiv> keyed q_id (t_publish_records (w_cur w))"

lemma keyed_records_upd [simp]: "record_change f \<Longrightarrow> keyed_records (upd_record r f w) = keyed_records w"
  by (simp add: upd_record_def record_change_def)

lemma keyed_records_frame [simp]: "keyed_records (upd_dep i f w) = keyed_records w"
  by (simp add: upd_dep_def)

lemma publish_upd_record:
  assumes "keyed_records w \<Longrightarrow> find_record w i = Some r"
    and "q_status r \<noteq> PR_PUBLISHED" and "record_change f"
    and "record_inv r \<Longrightarrow> record_inv (f r)"
  shows "across tables_publish w (upd_record i f w)"
proof (rule publishing.across_step)
  let ?rs = "t_publish_records (w_cur w)"
  have "good_records (upd_row q_id i f ?rs) \<and> published_kept ?rs (upd_row q_id i f ?rs)"
    if g: "good_records ?rs"
  proof
    have "keyed_records w" using g by (simp add: good_records_def)
    then have r: "find_row q_id i ?rs = Some r" using assms(1) by (simp add: find_record_def)
    then have "record_inv r" using g by (auto simp: good_records_def dest: find_row_Some)
    then show "good_records (upd_row q_id i f ?rs)" using good_records_upd [OF g r assms(3)] assms(4) by simp
    show "published_kept ?rs (upd_row q_id i f ?rs)"
      unfolding published_kept_def
    proof (intro allI impI, elim conjE)
      fix j s assume s: "find_row q_id j ?rs = Some s" "q_status s = PR_PUBLISHED"
      then have "j \<noteq> i" using r assms(2) by auto
      then show "find_row q_id j (upd_row q_id i f ?rs) = Some s"
        using s assms(3) by (simp add: record_change_def)
    qed
  qed
  then show "tables_publish (w_cur w) (w_cur (upd_record i f w))"
    by (simp add: tables_publish_def upd_record_def promotion_sides_def)
qed (simp_all add: upd_record_def)

lemma record_inv_changes:
  "q_status r \<noteq> PR_PUBLISHED \<Longrightarrow> record_inv r \<Longrightarrow> record_inv (rec_publishing at r)"
  "q_status r = PR_PUBLISHING \<Longrightarrow> record_inv r \<Longrightarrow> record_inv (rec_published g at r)"
  "q_status r = PR_PUBLISHING \<Longrightarrow> record_inv r \<Longrightarrow> record_inv (rec_failed code msg at r)"
  by (auto simp: record_inv_def rec_publishing_def rec_published_def rec_failed_def)

lemma new_record_inv: "record_inv (new_record v w d ver repo c)"
  by (simp add: record_inv_def new_record_def)

lemma find_snoc: "List.find P xs = None \<Longrightarrow> P y \<Longrightarrow> List.find P (xs @ [y]) = Some y"
  by (induction xs) (auto split: if_splits)

lemma record_for_facts:
  assumes "record_for v d ver repo c w = (x, w')"
  shows "across tables_publish w w' \<and>
    (case x of Inr r \<Rightarrow> record_of w' (d_id d) ver = Some r \<and> (w' = w \<or> q_status r = PR_PUBLISHING) \<and>
         w_trace w' = w_trace w \<and> (\<forall>i. find_dep w' i = find_dep w i) \<and>
         (keyed_records w \<longrightarrow> keyed_records w')
       | Inl e \<Rightarrow> e = IntegrityError \<and> w_trace w' = w_trace w @ [RolledBack])"
proof (cases "record_of w (d_id d) ver")
  case (Some r)
  then show ?thesis using assms publishing.across_refl by (auto simp: record_for_def)
next
  case None
  let ?r = "new_record v w d ver repo c"
  let ?w1 = "insert_record ?r (tick (tick w))"
  have fresh: "record_of ?w1 (d_id d) ver = Some ?r"
    unfolding record_of_def insert_record_def
    by (simp, rule find_snoc) (use None in \<open>simp_all add: record_of_def new_record_def\<close>)
  have ins: "across tables_publish w ?w1"
    if k: "keyed q_id (t_publish_records (w_cur ?w1))" "records_unique (t_publish_records (w_cur ?w1))"
  proof (rule publishing.across_step)
    let ?rs = "t_publish_records (w_cur w)"
    have "published_kept ?rs (?rs @ [?r])"
      by (auto simp: published_kept_def find_row_append)
    moreover have "good_records ?rs \<Longrightarrow> good_records (?rs @ [?r])"
      using k new_record_inv by (auto simp: good_records_def insert_record_def)
    ultimately show "tables_publish (w_cur w) (w_cur ?w1)"
      by (simp add: tables_publish_def insert_record_def promotion_sides_def)
  qed (simp_all add: insert_record_def)
  have undone: "across tables_publish w (rollback ?w1)"
    by (simp add: across_def insert_record_def)
  have st: "q_status ?r = PR_PUBLISHING" by (simp add: new_record_def)
  show ?thesis
    using assms None ins undone fresh st
    by (auto simp: record_for_def Let_def insert_record_def find_dep_def split: if_splits)
qed


lemma record_of_find:
  "keyed_records w \<Longrightarrow> record_of w i ver = Some r \<Longrightarrow>
     find_record w (q_id r) = Some r"
  using find_row_keyed [of q_id "t_publish_records (w_cur w)" r]
  by (auto simp: record_of_def find_record_def good_records_def find_Some_iff)

lemma apply_success_across: "across tables_publish w (apply_success v i r w)"
  by (auto simp: apply_success_def Let_def split: option.split
      intro!: publishing.across_trans [OF publishing.across_tick] publish_upd_dep publishing.across_refl)

subsection \<open>One component\<close>

lemma creates_once_frame:
  assumes "creates_once v cl repo sha q tag w w'"
  shows "w_cur w' = w_cur w" "w_durable w' = w_durable w" "w_ticks w' = w_ticks w" "extends_trace w w'"
    "posts w' \<le> Suc (posts w)" "unsaved w w'"
proof -
  have "w_cur w' = w_cur w \<and> w_durable w' = w_durable w \<and> w_ticks w' = w_ticks w \<and> extends_trace w w' \<and>
      posts w' \<le> Suc (posts w) \<and> unsaved w w'"
  proof (cases "reads w w'")
    case True
    then show ?thesis
      using reads_no_post [of w w'] extends_reads unsaved_reads [OF True] by (simp add: reads_def posts_def)
  next
    case False
    then obtain u u1 where u: "reads w u" "reads (snd (gitea_get_tag v cl (fst repo) (snd repo) tag u)) u1"
        "reads (snd (gitea_create_release v cl (fst repo) (snd repo) tag sha (body_of q) u1)) w'"
      using assms unfolding creates_once_def by blast
    have wu: "reads w u1"
      using reads_trans [OF reads_trans [OF u(1) gitea_reads(2)] u(2)] .
    let ?c = "snd (gitea_create_release v cl (fst repo) (snd repo) tag sha (body_of q) u1)"
    have "extends_trace w w'"
      using extends_reads [OF wu] extends_create [of u1 v cl "fst repo" "snd repo" tag sha "body_of q"]
        extends_reads [OF u(3)] extends_trace_trans by blast
    moreover have "unsaved w w'"
      using unsaved_trans [OF unsaved_reads [OF wu] unsaved_trans [OF _ unsaved_reads [OF u(3)]]]
      by (simp add: gitea_create_world)
    moreover have "posts w' \<le> Suc (posts w)"
      using reads_no_post [OF wu] reads_no_post [OF u(3)]
      by (simp add: posts_def gitea_create_world is_post_def)
    ultimately show ?thesis
      using wu u(3) by (simp add: reads_def gitea_create_world)
  qed
  then show "w_cur w' = w_cur w" "w_durable w' = w_durable w" "w_ticks w' = w_ticks w"
    "extends_trace w w'" "posts w' \<le> Suc (posts w)" "unsaved w w'" by auto
qed

lemma begin_publish_facts:
  assumes "record_of w i ver = Some r" and "q_status r \<noteq> PR_PUBLISHED" and "w2 = begin_publish v j (q_id r) ver' w"
  shows "across tables_publish w w2 \<and>
    (keyed_records w2 \<longrightarrow>
       find_record w2 (q_id r) = Some (rec_publishing (now_of v w) r)) \<and>
    w_trace w2 = w_trace w @ [Committed (w_cur w2)] \<and>
    find_dep w2 j = map_option (dep_publishing ver' (now_of v w)) (find_dep w j)"
proof -
  let ?a = "upd_record (q_id r) (rec_publishing (now_of v w)) (tick w)"
  have find: "find_record (tick w) (q_id r) = Some r"
    if "keyed_records (tick w)"
    using record_of_find [OF _ assms(1)] that by simp
  have "across tables_publish w ?a"
    by (rule publishing.across_trans [OF publishing.across_tick publish_upd_record [OF find assms(2)]])
      (use record_inv_changes(1) [OF assms(2)] in simp_all)
  then have "across tables_publish w w2"
    unfolding assms(3) begin_publish_def
    by (intro publishing.across_trans [OF _ publishing.across_commit] publishing.across_trans [OF _ publish_upd_dep])
      simp_all
  then show ?thesis
    using find by (simp add: assms(3) begin_publish_def keeps_id_def dep_publishing_def)
qed


lemma publish_outcome_facts:
  assumes "keyed_records w \<Longrightarrow> find_record w r = Some rec"
    and "q_status rec = PR_PUBLISHING"
  shows "across tables_publish w (snd (publish_outcome v i r y w)) \<and>
    w_trace (snd (publish_outcome v i r y w)) = w_trace w"
proof -
  have np: "q_status rec \<noteq> PR_PUBLISHED" using assms(2) by simp
  have upd: "across tables_publish w (upd_record r f (tick w))"
    if "record_change f" "record_inv rec \<Longrightarrow> record_inv (f rec)" for f
    by (rule publishing.across_trans [OF publishing.across_tick publish_upd_record [OF _ np]])
      (use assms(1) that in simp_all)
  have ok: "across tables_publish w (finish_publish v i r g w)" for g
    unfolding finish_publish_def
    by (rule publishing.across_trans [OF upd apply_success_across])
      (simp_all add: record_inv_changes(2) assms(2))
  have bad: "across tables_publish w (apply_failure v i r code msg w)" for code msg
    unfolding apply_failure_def
    by (rule publishing.across_trans [OF upd publish_upd_dep])
      (simp_all add: record_inv_changes(3) assms(2))
  have t: "w_trace (finish_publish v i r g w) = w_trace w" for g
    by (simp add: finish_publish_def apply_success_def Let_def split: option.split)
  have u: "w_trace (apply_failure v i r code msg w) = w_trace w" for code msg
    by (simp add: apply_failure_def)
  show ?thesis
    using ok bad t u publishing.across_refl
    by (simp add: publish_outcome_def split: sum.split prod.split exn.split)
qed

lemma publish_lookup_errors:
  "for_deployment w d \<noteq> Inl (TagAlreadyExistsDifferentCommit tag)"
  "get_gitea_repo c \<noteq> Inl (TagAlreadyExistsDifferentCommit tag)"
  "gitea_client_for v w c \<noteq> Inl (TagAlreadyExistsDifferentCommit tag)"
  by (auto simp: for_deployment_def get_gitea_repo_def gitea_client_for_def gitea_connection_def
      resolve_connection_chain resolve_default_def split: option.splits sum.splits if_splits)

text \<open>
  How publishing a component goes: either nothing leaves the process, or a commit that shows the
  record PUBLISHING is followed by the conversation with Gitea and its outcome on the rows.
\<close>

lemma publish_component_cases:
  assumes "publish_component v i q w = (x, w')"
  obtains
    (quiet) e where "x = Inl e" "\<And>tag. e \<noteq> TagAlreadyExistsDifferentCommit tag"
      "across tables_publish w w'" "w_trace w' = w_trace w \<or> w_trace w' = w_trace w @ [RolledBack]"
  | (already) d rec where "find_dep w i = Some d" "record_of w (d_id d) (pb_version q) = Some rec"
      "q_status rec = PR_PUBLISHED" "x = Inr (q_id rec, True)" "w' = apply_success v i (q_id rec) w"
  | (sent) d c repo cl rec w2 y w3 at where
      "find_dep w i = Some d" "for_deployment w d = Inr c" "get_gitea_repo c = Inr repo"
      "gitea_client_for v w c = Inr cl" "across tables_publish w w2"
      "w_trace w2 = w_trace w @ [Committed (w_cur w2)]" "w_durable w2 = w_cur w2"
      "find_dep w2 i = Some (dep_publishing (pb_version q) at d)"
      "keyed_records w2 \<Longrightarrow> find_record w2 (q_id rec) = Some rec"
      "keyed_records w \<Longrightarrow> keyed_records w2"
      "q_status rec = PR_PUBLISHING"
      "ensure_release v cl repo (d_commit_sha d) q (q_tag_name rec) w2 = (y, w3)"
      "publish_outcome v i (q_id rec) y w3 = (x, w')"
proof -
  note unf = publish_component_def
  show thesis
  proof (cases "find_dep w i")
    case None
    then show thesis using assms quiet [of DeploymentNotFoundError] publishing.across_refl by (auto simp: unf)
  next
    case (Some d)
    show thesis
    proof (cases "\<exists>c repo cl. for_deployment w d = Inr c \<and> get_gitea_repo c = Inr repo \<and>
        gitea_client_for v w c = Inr cl")
      case False
      then obtain e where e: "x = Inl e" "w' = w"
          "for_deployment w d = Inl e \<or> (\<exists>c :: component_row. get_gitea_repo c = Inl e) \<or>
          (\<exists>c :: component_row. gitea_client_for v w c = Inl e)"
        using assms Some by (auto simp: unf split: sum.splits)
      then have "e \<noteq> TagAlreadyExistsDifferentCommit tag" for tag using publish_lookup_errors by blast
      then show thesis using quiet [OF e(1)] e(2) publishing.across_refl by simp
    next
      case True
      then obtain c repo cl where c: "for_deployment w d = Inr c" "get_gitea_repo c = Inr repo"
          "gitea_client_for v w c = Inr cl" by blast
      obtain z w1 where z: "record_for v d (pb_version q) repo c w = (z, w1)" by force
      have rf: "across tables_publish w w1" using record_for_facts [OF z] by simp
      show thesis
      proof (cases z)
        case (Inl e)
        then have "w' = w1" "x = Inl e" "e = IntegrityError"
          using assms Some c z record_for_facts [OF z] by (simp_all add: unf)
        then show thesis using quiet [of e] rf record_for_facts [OF z] Inl by simp
      next
        case (Inr rec)
        then have rec: "record_of w1 (d_id d) (pb_version q) = Some rec" "w_trace w1 = w_trace w"
            "find_dep w1 i = Some d" "keyed_records w \<Longrightarrow> keyed_records w1"
          using record_for_facts [OF z] Some by simp_all
        show thesis
        proof (cases "q_status rec = PR_PUBLISHED")
          case True
          then have "w1 = w" using record_for_facts [OF z] Inr by auto
          moreover have "w' = apply_success v i (q_id rec) w1" "x = Inr (q_id rec, True)"
            using assms Some c z Inr True by (simp_all add: unf)
          ultimately show thesis using already Some rec(1) True by blast
        next
          case False
          define w2 where "w2 = begin_publish v i (q_id rec) (pb_version q) w1"
          note b = begin_publish_facts [OF rec(1) False w2_def]
          obtain y w3 where y: "ensure_release v cl repo (d_commit_sha d) q (q_tag_name rec) w2 = (y, w3)"
            by force
          have run: "publish_outcome v i (q_id rec) y w3 = (x, w')"
            using assms Some c z Inr False y by (simp add: unf w2_def)
          let ?r = "rec_publishing (now_of v w1) rec"
          have f: "q_id ?r = q_id rec" "q_tag_name ?r = q_tag_name rec" "q_status ?r = PR_PUBLISHING"
            by (simp_all add: rec_publishing_def)
          have k2: "keyed_records w2" if "keyed_records w"
            using rec(4) [OF that] by (simp add: w2_def begin_publish_def)
          have t2: "w_trace w2 = w_trace w @ [Committed (w_cur w2)]" "w_durable w2 = w_cur w2"
            using b rec(2) by (simp_all add: w2_def begin_publish_def)
          show thesis
            by (rule sent [of d c repo cl w2 "now_of v w1" ?r y w3])
              (use Some c publishing.across_trans [OF rf] b t2 k2 y run f rec(3) in simp_all)
        qed
      qed
    qed
  qed
qed

lemma publish_component_across:
  assumes "publish_component v i q w = (x, w')"
  shows "across tables_publish w w' \<and> posts w' \<le> Suc (posts w)"
  using assms
proof (cases rule: publish_component_cases)
  case (quiet e)
  then show ?thesis by (auto simp: posts_def is_post_def)
next
  case (already d rec)
  then show ?thesis using apply_success_across
    by (simp add: posts_def apply_success_def Let_def split: option.split)
next
  case (sent d c repo cl rec w2 y w3 at)
  have co: "creates_once v cl repo (d_commit_sha d) q (q_tag_name rec) w2 w3"
    using ensure_release_facts [OF sent(12)] by simp
  note fr = creates_once_frame [OF co]
  have k: "keyed_records w3 \<Longrightarrow> find_record w3 (q_id rec) = Some rec"
    using sent(9) fr(1) by (simp add: find_record_def)
  note po = publish_outcome_facts [OF k sent(11), of v i y, unfolded sent(13), simplified]
  have "across tables_publish w2 w3" using fr by (intro across_still) simp_all
  then have "across tables_publish w w'"
    using publishing.across_trans [OF publishing.across_trans [OF sent(5)]] po by blast
  moreover have "posts w' = posts w3" "posts w2 = posts w"
    using po sent(6) by (simp_all add: posts_def is_post_def)
  ultimately show ?thesis using fr(5) by simp
qed

subsection \<open>Deployments and releases\<close>

text \<open>Assignments after a run, outermost first.\<close>

lemma publish_after:
  "across tables_publish w u \<Longrightarrow> across tables_publish w (log v r d st k s c m u)"
  "across tables_publish w u \<Longrightarrow> across tables_publish w (tick u)"
  "across tables_publish w u \<Longrightarrow> across tables_publish w (commit u)"
  "across tables_publish w u \<Longrightarrow> across tables_publish w (upd_bundle b g u)"
  "across tables_publish w u \<Longrightarrow> (\<And>d. dep_promotion_side (f d) = dep_promotion_side d) \<Longrightarrow>
     across tables_publish w (upd_dep i f u)"
      apply (rule publishing.across_trans, assumption, rule publish_log)
     apply (erule publishing.after_tick)
    apply (erule publishing.after_commit)
   apply (rule publishing.across_trans, assumption, rule publish_upd_bundle)
  apply (rule publishing.across_trans, assumption, rule publish_upd_dep, assumption)
  done

lemma prepare_deployment_across: "across tables_publish w (prepare_deployment v i ver ep w)"
  unfolding prepare_deployment_def Let_def
  by (cases ep; simp only: if_True if_False; intro publish_after publishing.across_refl; simp)

lemma record_component_result_across: "across tables_publish w (record_component_result v i rec a rel w)"
  unfolding record_component_result_def Let_def
  by (simp split: if_split) (intro conjI impI publish_after publishing.across_refl)

lemma fail_without_record_across: "across tables_publish w (fail_without_record v i code msg rel w)"
  unfolding fail_without_record_def Let_def
  by (intro publish_after publishing.across_refl) simp

lemma finish_deployment_publish_across: "across tables_publish w (finish_deployment_publish v i w)"
  unfolding finish_deployment_publish_def Let_def
  by (simp only: if_distrib [of "upd_dep i f" for f])
    (simp split: if_split, intro conjI impI publish_after publishing.across_refl, simp_all)

lemma prepare_version_event_across: "across tables_publish w (prepare_version_event v b w)"
  unfolding prepare_version_event_def Let_def by (intro publish_after publishing.across_refl)

lemma result_posts [simp]:
  "posts (record_component_result v i rec a rel w) = posts w"
  "posts (fail_without_record v i code msg rel w) = posts w"
  "posts (prepare_deployment v i ver ep w) = posts w"
  "posts (prepare_version_event v b w) = posts w"
  "posts (aggregate_bundle v b ver n w) = posts w"
  "posts (finish_deployment_publish v i w) = posts w"
  by (simp_all add: posts_def record_component_result_def fail_without_record_def prepare_deployment_def
      prepare_version_event_def aggregate_bundle_def finish_deployment_publish_def Let_def)

lemma posts_of_commit [simp]: "posts (commit w) = posts w"
  by (simp add: posts_def is_post_def)

lemma publish_step_across:
  assumes "publish_step v i q rel w = (x, w')"
  shows "across tables_publish w w' \<and> posts w' \<le> Suc (posts w)"
proof -
  obtain y w1 where y: "publish_component v i q w = (y, w1)" by force
  note pc = publish_component_across [OF y]
  have "across tables_publish w1 w' \<and> posts w' = posts w1"
    using assms y record_component_result_across fail_without_record_across publishing.across_refl
    by (auto simp: publish_step_def split: sum.splits option.splits exn.splits)
  then show ?thesis using pc publishing.across_trans by auto
qed

lemma publish_walk_across:
  assumes "publish_walk v b q ids w = (x, w')"
  shows "across tables_publish w w' \<and> posts w' \<le> posts w + length ids"
  using assms
proof (induction ids arbitrary: w x w')
  case Nil
  then show ?case using publishing.across_refl by simp
next
  case (Cons i ids)
  obtain y w1 where y: "publish_step v i q (Some b) (prepare_deployment v i (pb_version q) False w) = (y, w1)"
    by force
  obtain z w2 where z: "publish_walk v b q ids (commit w1) = (z, w2)" by force
  have s: "across tables_publish w w1" "posts w1 \<le> Suc (posts w)"
    using publish_step_across [OF y] publishing.across_trans [OF prepare_deployment_across] by auto
  have r: "across tables_publish w w2" "posts w2 \<le> Suc (posts w) + length ids"
    using Cons.IH [OF z] publishing.across_trans [OF s(1)] publishing.across_trans [OF publishing.across_commit] s(2)
    by auto
  show ?case using Cons.prems y z s r by (auto split: sum.splits option.splits)
qed

lemma aggregate_across: "across tables_publish w (aggregate_bundle v b ver n w)"
  unfolding aggregate_bundle_def Let_def by (intro publish_after publishing.across_refl)

lemma publish_standalone_across:
  assumes "publish_standalone v i q w = (x, w')"
  shows "across tables_publish w w' \<and> posts w' \<le> Suc (posts w)"
proof -
  let ?p = "prepare_deployment v i (pb_version q) True w"
  obtain y w1 where y: "publish_step v i q None ?p = (y, w1)" by force
  have s: "across tables_publish w w1" "posts w1 \<le> Suc (posts w)"
    using publish_step_across [OF y] publishing.across_trans [OF prepare_deployment_across] by auto
  have f: "across tables_publish w1 (commit (finish_deployment_publish v i w1))"
    by (intro publish_after finish_deployment_publish_across)
  have "(w' = w \<or> w' = w1 \<or> w' = commit (finish_deployment_publish v i w1))"
    using assms y by (auto simp: publish_standalone_def Let_def split: sum.splits option.splits if_splits)
  then show ?thesis
    using s publishing.across_trans [OF s(1) f] publishing.across_refl by auto
qed

lemma begin_bundle_across: "across tables_publish w (begin_bundle v b q w)"
  unfolding begin_bundle_def Let_def
  by (rule publishing.across_trans [OF _ prepare_version_event_across])
    (intro publish_after publishing.across_refl)

lemma begin_bundle_posts [simp]: "posts (begin_bundle v b q w) = posts w"
  by (simp add: begin_bundle_def posts_def prepare_version_event_def Let_def)

lemma publishing_of_error: "publishing_of w ds = Inl e \<Longrightarrow> \<exists>i. e = KeyError i"
  by (induction ds) (auto split: option.splits sum.splits)

lemma publish_bundle_cases:
  assumes "publish_bundle v b q w = (x, w')"
  obtains
    (refused) e where "w' = w" "x = Inl e" "\<And>tag. e \<noteq> TagAlreadyExistsDifferentCommit tag"
  | (nothing) e where "w' = begin_bundle v b q w" "x = Inl e"
      "\<And>tag. e \<noteq> TagAlreadyExistsDifferentCommit tag"
  | (broken) e ids where "publish_walk v b q ids (begin_bundle v b q w) = (Inl e, w')" "x = Inl e"
      "publishing_of (begin_bundle v b q w) (ordered_by_component (begin_bundle v b q w)
         (bundle_deployments (begin_bundle v b q w) b)) = Inr ids"
  | (finished) r ids tags w4 where
      "find_bundle w b = Some r" "b_deployment_status r = BS_SUCCESS"
      "assert_version (b_version r) (b_publish_status r) (pb_version q) = Inr ()"
      "publishing_of (begin_bundle v b q w) (ordered_by_component (begin_bundle v b q w)
         (bundle_deployments (begin_bundle v b q w) b)) = Inr ids" "ids \<noteq> []"
      "publish_walk v b q ids (begin_bundle v b q w) = (Inr tags, w4)"
      "w' = commit (aggregate_bundle v b (pb_version q) (length ids) w4)"
      "x = (case tags of tag # _ \<Rightarrow> Inl (TagAlreadyExistsDifferentCommit tag) | [] \<Rightarrow> get_bundle b w')"
proof -
  let ?w3 = "begin_bundle v b q w"
  show thesis
  proof (cases "\<exists>r. find_bundle w b = Some r \<and> b_deployment_status r = BS_SUCCESS \<and>
      assert_version (b_version r) (b_publish_status r) (pb_version q) = Inr ()")
    case False
    then show thesis using assms refused
      by (auto simp: publish_bundle_def get_bundle_def assert_version_def
          split: option.splits if_splits sum.splits)
  next
    case True
    then obtain r where r: "find_bundle w b = Some r" "b_deployment_status r = BS_SUCCESS"
        "assert_version (b_version r) (b_publish_status r) (pb_version q) = Inr ()" by blast
    have run: "(case publishing_of ?w3 (ordered_by_component ?w3 (bundle_deployments ?w3 b)) of
        Inl e \<Rightarrow> (Inl e, ?w3)
      | Inr ids \<Rightarrow>
          (if ids = [] then (Inl (PublishStateError msg_nothing_publishes), ?w3)
           else (case publish_walk v b q ids ?w3 of
               (Inl e, w4) \<Rightarrow> (Inl e, w4)
             | (Inr tags, w4) \<Rightarrow>
                 (let w5 = commit (aggregate_bundle v b (pb_version q) (length ids) w4)
                  in (case tags of tag # _ \<Rightarrow> (Inl (TagAlreadyExistsDifferentCommit tag), w5)
                      | [] \<Rightarrow> (get_bundle b w5, w5)))))) = (x, w')"
      using assms r by (simp add: publish_bundle_def get_bundle_def Let_def)
    show thesis
    proof (cases "publishing_of ?w3 (ordered_by_component ?w3 (bundle_deployments ?w3 b))")
      case (Inl e)
      with run have "w' = begin_bundle v b q w" "x = Inl e" by auto
      then show thesis by (rule nothing) (use publishing_of_error [OF Inl] in auto)
    next
      case (Inr ids)
      note ids = Inr
      show thesis
      proof (cases "ids = []")
        case True
        with run ids have "w' = begin_bundle v b q w" "x = Inl (PublishStateError msg_nothing_publishes)" by auto
        then show thesis by (rule nothing) simp
      next
        case False
        obtain y w4 where y: "publish_walk v b q ids ?w3 = (y, w4)" by force
        show thesis
        proof (cases y)
          case (Inl e)
          then show thesis using run ids False y broken by simp
        next
          case (Inr tags)
          have w': "w' = commit (aggregate_bundle v b (pb_version q) (length ids) w4)"
            using run ids False y Inr by (auto simp: Let_def split: list.splits)
          have "x = (case tags of tag # _ \<Rightarrow> Inl (TagAlreadyExistsDifferentCommit tag)
              | [] \<Rightarrow> get_bundle b w')"
            using run ids False y Inr unfolding w' by (auto simp: Let_def split: list.splits)
          then show thesis using finished [OF r ids False] y Inr w' by blast
        qed
      qed
    qed
  qed
qed

lemma publish_bundle_across:
  assumes "publish_bundle v b q w = (x, w')"
  shows "across tables_publish w w'"
  using assms
proof (cases rule: publish_bundle_cases)
  case refused
  then show ?thesis using publishing.across_refl by simp
next
  case nothing
  then show ?thesis using begin_bundle_across by simp
next
  case broken
  then show ?thesis using publishing.across_trans [OF begin_bundle_across] publish_walk_across by blast
next
  case finished
  then show ?thesis
    using publishing.across_trans [OF begin_bundle_across] publish_walk_across [OF finished(6)]
      publishing.across_trans [OF aggregate_across publishing.across_commit] publishing.across_trans by metis
qed

end
