(* ===== verification/Publish_Verdict.thy ===== *)
theory Publish_Verdict
  imports Publish_Laws
begin

section \<open>The verdict on a release\<close>

definition has_published :: "world \<Rightarrow> string \<Rightarrow> 'a deployment_scheme \<Rightarrow> bool" where
  "has_published w version d \<longleftrightarrow>
     (\<exists>r \<in> set (t_publish_records (w_cur w)).
        q_deployment_id r = d_id d \<and> q_version r = version \<and> q_status r = PR_PUBLISHED)"

definition publishes_now :: "world \<Rightarrow> 'a deployment_scheme \<Rightarrow> bool" where
  "publishes_now w d \<longleftrightarrow>
     (case find_row c_id (d_component_id d) (t_components (w_cur w)) of
        None \<Rightarrow> False | Some c \<Rightarrow> c_publish_enabled c)"

lemma filter_unique_key:
  "distinct (map g rs) \<Longrightarrow>
     length (filter (\<lambda>r. g r = k \<and> P r) rs) = (if \<exists>r \<in> set rs. g r = k \<and> P r then 1 else 0)"
proof (induction rs)
  case Nil
  then show ?case by simp
next
  case (Cons r rs)
  have none: "g s \<noteq> k" if "g r = k" "s \<in> set rs" for s
    using Cons.prems that by (metis distinct.simps(2) image_eqI list.set_map list.simps(9))
  then have "filter (\<lambda>r. g r = k \<and> P r) rs = []" if "g r = k"
    using that by (auto simp: filter_empty_conv)
  then show ?case using Cons none by (cases "g r = k") auto
qed

lemma filter_sort_key_length: "length (filter P (sort_key k xs)) = length (filter P xs)"
  by (metis mset_filter mset_sort size_mset)

lemma count_published:
  assumes "records_unique (t_publish_records (w_cur w))"
  shows "count_status PR_PUBLISHED (version_records w b ver) =
    length (filter (has_published w ver) (bundle_deployments w b))"
proof -
  let ?rs = "t_publish_records (w_cur w)"
  have one: "length (filter (\<lambda>r. q_status r = PR_PUBLISHED)
      (filter (\<lambda>r. q_version r = ver) (deployment_records w (d_id d)))) =
    (if has_published w ver d then 1 else 0)" for d :: dep_row
  proof -
    have "length (filter (\<lambda>r. q_status r = PR_PUBLISHED)
        (filter (\<lambda>r. q_version r = ver) (deployment_records w (d_id d)))) =
      length (filter (\<lambda>r. (q_deployment_id r, q_version r) = (d_id d, ver) \<and> q_status r = PR_PUBLISHED) ?rs)"
      by (simp add: deployment_records_def filter_sort_key_length conj_ac)
    then show ?thesis
      unfolding filter_unique_key [OF assms [unfolded records_unique_def]]
      by (auto simp: has_published_def)
  qed
  have "count_status PR_PUBLISHED
      (concat (map (\<lambda>d. filter (\<lambda>r. q_version r = ver) (deployment_records w (d_id d))) ds)) =
    length (filter (has_published w ver) ds)" for ds :: "dep_row list"
    by (induction ds) (auto simp: count_status_def one simp del: filter_filter)
  then show ?thesis by (simp add: version_records_def)
qed

lemma publishing_of_length:
  assumes "publishing_of w ds = Inr ids"
  shows "length ids = length (filter (publishes_now w) ds)"
  using assms
  by (induction ds arbitrary: ids) (auto simp: publishes_now_def split: option.splits sum.splits)

text \<open>Which deployments a release has, and in which order, is on the promotion side.\<close>

lemma map_insort_key:
  "(\<And>x. k (f x) = k x) \<Longrightarrow> map f (insort_key k x xs) = insort_key k (f x) (map f xs)"
  by (induction xs) auto

lemma map_sort_key:
  assumes "\<And>x. k (f x) = k x"
  shows "map f (sort_key k xs) = sort_key k (map f xs)"
  using map_insort_key [where k = k and f = f, OF assms] by (induction xs) simp_all

lemma promotion_side_fields [simp]:
  "d_created_at (dep_promotion_side d) = d_created_at d"
  "d_release_bundle_id (dep_promotion_side d) = d_release_bundle_id d"
  "d_id (dep_promotion_side d) = d_id d" "d_component_id (dep_promotion_side d) = d_component_id d"
  "d_status (dep_promotion_side d) = d_status d"
  "has_published w ver (dep_promotion_side d) = has_published w ver d"
  "publishes_now w (dep_promotion_side d) = publishes_now w d"
  by (simp_all add: dep_promotion_side_def has_published_def publishes_now_def)

lemma bundle_deployments_sides:
  "map dep_promotion_side (bundle_deployments w b) =
     sort_key d_created_at (filter (\<lambda>d. d_release_bundle_id d = Some b) (promotion_sides (w_cur w)))"
  by (simp add: bundle_deployments_def promotion_sides_def map_sort_key filter_map comp_def)

lemma length_filter_side:
  assumes "promotion_sides (w_cur u) = promotion_sides (w_cur w)"
    and "\<And>d. P (dep_promotion_side d) = P d"
  shows "length (filter P (bundle_deployments u b)) = length (filter P (bundle_deployments w b))"
proof -
  have "length (filter P (map dep_promotion_side (bundle_deployments x b))) =
      length (filter P (bundle_deployments x b))" for x
    by (simp add: filter_map comp_def assms(2))
  then show ?thesis by (metis assms(1) bundle_deployments_sides)
qed

lemma length_filter_full:
  assumes "\<And>x. x \<in> set xs \<Longrightarrow> P x \<Longrightarrow> Q x"
  shows "length (filter P xs) = length (filter Q xs) \<longleftrightarrow> (\<forall>x \<in> set xs. Q x \<longrightarrow> P x)"
  using assms
proof (induction xs)
  case Nil
  then show ?case by simp
next
  case (Cons x xs)
  have "length (filter P ys) \<le> length (filter Q ys)" if "\<And>y. y \<in> set ys \<Longrightarrow> P y \<Longrightarrow> Q y" for ys
    using that by (induction ys) fastforce+
  with Cons.prems have "length (filter P xs) \<le> length (filter Q xs)" by simp
  then show ?case using Cons by (cases "P x"; cases "Q x") auto
qed

lemma verdict_filters:
  assumes "\<And>x. x \<in> set xs \<Longrightarrow> P x \<Longrightarrow> Q x" and "filter Q xs \<noteq> []"
  shows "publish_verdict (length (filter P xs)) (length (filter Q xs)) =
    (if \<forall>x \<in> set (filter Q xs). P x then PS_PUBLISHED
     else if \<exists>x \<in> set (filter Q xs). P x then PS_PARTIAL_FAILURE else PS_FAILED)"
proof -
  have full: "length (filter P xs) = length (filter Q xs) \<longleftrightarrow> (\<forall>x \<in> set (filter Q xs). P x)"
    using length_filter_full [of xs P Q] assms(1) by auto
  have some: "filter P xs \<noteq> [] \<longleftrightarrow> (\<exists>x \<in> set (filter Q xs). P x)"
    using assms(1) by (auto simp: filter_empty_conv)
  obtain y where "y \<in> set (filter Q xs)" using assms(2) by (cases "filter Q xs") auto
  then have "\<forall>x \<in> set (filter Q xs). P x \<Longrightarrow> \<exists>x \<in> set (filter Q xs). P x" by blast
  then show ?thesis
    unfolding publish_verdict_def length_greater_0_conv full some by argo
qed

lemma publish_step_escapes:
  "publish_step v i q rel w = (Inl e, w') \<Longrightarrow> e \<noteq> TagAlreadyExistsDifferentCommit tag"
  by (auto simp: publish_step_def split: sum.splits option.splits exn.splits prod.splits)

lemma publish_walk_escapes:
  "publish_walk v b q ids w = (Inl e, w') \<Longrightarrow> e \<noteq> TagAlreadyExistsDifferentCommit tag"
  by (induction ids arbitrary: w) (auto split: sum.splits prod.splits dest: publish_step_escapes)

lemma verdict_status:
  "b_publish_status (aggregate_error rs ds b) = b_publish_status b"
  "b_publish_status (bundle_aggregated s at b) = s"
  by (auto simp: aggregate_error_def bundle_aggregated_def Let_def split: list.split)

lemma aggregate_id: "b_id (aggregate_error rs ds (bundle_aggregated s at b)) = b_id b"
  by (auto simp: aggregate_error_def bundle_aggregated_def Let_def split: list.split)

lemma aggregate_bundle_status:
  assumes "find_bundle (aggregate_bundle v b ver n w) b = Some r"
  shows "b_publish_status r = publish_verdict (count_status PR_PUBLISHED (version_records w b ver)) n"
proof -
  let ?f = "\<lambda>r. (aggregate_error (version_records w b ver) (bundle_deployments w b)
      (bundle_aggregated (publish_verdict (count_status PR_PUBLISHED (version_records w b ver)) n)
        (now_of v w) r))\<lparr>b_updated_at := now_of v w\<rparr>"
  have k: "keeps_bid ?f" by (simp add: keeps_bid_def aggregate_id)
  have "find_bundle (aggregate_bundle v b ver n w) b = map_option ?f (find_bundle w b)"
    unfolding aggregate_bundle_def Let_def find_frame find_bundle_upd_same [OF k] by (rule refl)
  then show ?thesis using assms by (cases "find_bundle w b") (auto simp: verdict_status)
qed

lemma aggregate_tables [simp]:
  "t_publish_records (w_cur (aggregate_bundle v b ver n w)) = t_publish_records (w_cur w)"
  "t_deployments (w_cur (aggregate_bundle v b ver n w)) = t_deployments (w_cur w)"
  "t_components (w_cur (aggregate_bundle v b ver n w)) = t_components (w_cur w)"
  by (simp_all add: aggregate_bundle_def Let_def log_def add_event_def upd_bundle_def)

text \<open>
  A release that was published to the end is PUBLISHED exactly when every component that publishes
  has a published record of the version; else PARTIAL_FAILURE or FAILED by whether any has one.
\<close>

lemma publish_bundle_verdict:
  assumes run: "publish_bundle v b q w = (x, w')"
    and ended: "\<And>e. x = Inl e \<Longrightarrow> \<exists>tag. e = TagAlreadyExistsDifferentCommit tag"
    and r: "find_bundle w' b = Some r" and good: "good_records (t_publish_records (w_cur w))"
    and clean: "w_durable w = w_cur w"
    and own: "\<And>d. d \<in> set (bundle_deployments w' b) \<Longrightarrow> has_published w' (pb_version q) d \<Longrightarrow> publishes_now w' d"
  shows "b_publish_status r =
    (let ds = filter (publishes_now w') (bundle_deployments w' b)
     in if \<forall>d \<in> set ds. has_published w' (pb_version q) d then PS_PUBLISHED
        else if \<exists>d \<in> set ds. has_published w' (pb_version q) d then PS_PARTIAL_FAILURE else PS_FAILED)"
  using run
proof (cases rule: publish_bundle_cases)
  case refused
  then show ?thesis using ended by blast
next
  case nothing
  then show ?thesis using ended by blast
next
  case (broken e ids)
  then show ?thesis using ended publish_walk_escapes by blast
next
  case (finished r0 ids tags w4)
  let ?w3 = "begin_bundle v b q w" and ?ver = "pb_version q"
  have a3: "tables_publish (w_cur w) (w_cur ?w3)" "tables_publish (w_cur w) (w_durable ?w3)"
    using publishing.across_session [OF begin_bundle_across clean] by auto
  have a4: "tables_publish (w_cur w) (w_cur w4)"
    using publishing.across_trans [OF begin_bundle_across] publish_walk_across [OF finished(6)]
      publishing.across_session [OF _ clean] by blast
  have T: "t_publish_records (w_cur w') = t_publish_records (w_cur w4)"
    "t_deployments (w_cur w') = t_deployments (w_cur w4)" "t_components (w_cur w') = t_components (w_cur w4)"
    by (simp_all add: finished(7))
  have same: "bundle_deployments w' b = bundle_deployments w4 b"
    "has_published w' ?ver = (has_published w4 ?ver :: dep_row \<Rightarrow> bool)"
    "publishes_now w' = (publishes_now w4 :: dep_row \<Rightarrow> bool)"
    using T by (simp_all add: bundle_deployments_def has_published_def publishes_now_def fun_eq_iff)
  have p3: "publishes_now ?w3 = (publishes_now w4 :: dep_row \<Rightarrow> bool)"
    using a3 a4 by (simp add: publishes_now_def fun_eq_iff tables_publish_def)
  have n: "length ids = length (filter (publishes_now w4) (bundle_deployments w4 b))"
  proof -
    have "length ids = length (filter (publishes_now ?w3) (bundle_deployments ?w3 b))"
      using publishing_of_length [OF finished(4)]
      by (simp add: ordered_by_component_def filter_sort_key_length)
    also have "\<dots> = length (filter (publishes_now ?w3) (bundle_deployments w4 b))"
      by (rule length_filter_side) (use a3 a4 in \<open>auto simp: tables_publish_def\<close>)
    finally show ?thesis using p3 by simp
  qed
  have u: "records_unique (t_publish_records (w_cur w4))"
    using a4 good by (simp add: tables_publish_def good_records_def)
  have "find_bundle (aggregate_bundle v b ?ver (length ids) w4) b = Some r"
    using r finished(7) by simp
  note st = aggregate_bundle_status [OF this, unfolded count_published [OF u] n]
  have sub: "publishes_now w4 d"
    if "d \<in> set (bundle_deployments w4 b)" "has_published w4 ?ver d" for d
    using own that same by simp
  have ne: "filter (publishes_now w4) (bundle_deployments w4 b) \<noteq> []"
    using finished(5) n by auto
  show ?thesis
    unfolding st Let_def same by (rule verdict_filters [OF sub ne])
qed

end
