(* ===== verification/Publish_Properties.thy ===== *)
theory Publish_Properties
  imports Samples Publish_Verdict
begin

section \<open>Properties of publishing\<close>

subsection \<open>A concrete Gitea\<close>

definition ok_json :: "(string \<times> json) list \<Rightarrow> http_result" where
  "ok_json kvs = HttpResponse 200 (Some (JObj kvs))"

definition not_found :: http_result where
  "not_found = HttpResponse 404 None"

text \<open>
  A small world for runs: one component that publishes, one deployment of it that succeeded inside a
  release, and a record of version 1 that is published.
\<close>

definition small_component :: component_row where
  "small_component = \<lparr>c_id = ''c'', c_project_id = ''p'', c_key = ''k'', c_display_name = [], c_position = 1,
     c_drone_owner = ''o'', c_drone_repo = ''r'', c_promote_target_override = None,
     c_drone_connection_id = None, c_publish_enabled = True, c_gitea_owner = Some ''o'', c_gitea_repo = Some ''r'',
     c_gitea_connection_id = None, c_tag_prefix = [], c_is_active = True, c_created_at = 0, c_updated_at = 0\<rparr>"

definition small_gitea :: connection where
  "small_gitea = \<lparr>n_id = ''n'', n_kind = CK_GITEA, n_name = [], n_base_url = ''u'', n_token_encrypted = [],
     n_token_hint = [], n_is_default = True, n_created_at = 0, n_updated_at = 0, n_verify_status = None,
     n_verify_detail = None, n_verified_at = None\<rparr>"

definition small_dep :: "string option \<Rightarrow> dep_row" where
  "small_dep bundle = \<lparr>d_id = ''d'', d_project_id = ''p'', d_component_id = ''c'', d_component = ''k'',
     d_drone_connection_id = ''m'', d_drone_owner = ''o'', d_drone_repository = ''r'', d_source_build_number = 7,
     d_commit_sha = ''s'', d_branch = [], d_target = ''t'', d_status = DS_SUCCESS, d_created_at = 0,
     d_updated_at = 0, d_release_bundle_id = bundle, d_promotion_build_number = Some 9,
     d_publish_status = PS_NOT_PUBLISHED, d_version = None, d_gitea_release_id = None,
     d_gitea_release_tag = None, d_gitea_release_url = None, d_current_stage = None, d_failed_stage = None,
     d_error_code = None, d_error_message = None, d_cancel_reason = None, d_poll_error_code = None,
     d_poll_error_message = None, d_poll_failure_count = 0, d_requested_by = None, d_started_at = Some 0,
     d_failed_at = None, d_cancelled_at = None, d_finished_at = Some 0, d_publish_started_at = None,
     d_published_at = None, d_publish_failed_at = None, d_publish_error_code = None,
     d_publish_error_message = None, d_required_promotion_stages = None, d_attachment = None\<rparr>"

definition small_record :: publish_record where
  "small_record = \<lparr>q_id = ''q'', q_release_bundle_id = None, q_deployment_id = ''d'', q_project_id = None,
     q_component_id = None, q_component = ''k'', q_version = ''1'', q_repo_owner = ''o'', q_repo_name = ''r'',
     q_commit_sha = ''s'', q_tag_name = ''1'', q_gitea_release_id = Some ''5'', q_gitea_release_url = None,
     q_status = PR_PUBLISHED, q_error_code = None, q_error_message = None, q_requested_by = None,
     q_created_at = 0, q_updated_at = 0, q_published_at = Some 0\<rparr>"

definition small_bundle :: bundle_row where
  "small_bundle = \<lparr>b_id = ''b'', b_mode = RM_BUNDLE, b_target = ''t'', b_status = BS_SUCCESS,
     b_deployment_status = BS_SUCCESS, b_created_at = 0, b_updated_at = 0, b_project_id = None,
     b_selected_component_keys = None, b_publish_status = PS_NOT_PUBLISHED, b_version = None,
     b_release_name = None, b_release_notes = None, b_workflow_instance_id = None, b_current_stage = None,
     b_failed_stage = None, b_error_code = None, b_error_message = None, b_requested_by = None,
     b_started_at = Some 0, b_failed_at = None, b_finished_at = Some 0, b_publish_started_at = None,
     b_published_at = None, b_publish_failed_at = None, b_publish_error_code = None,
     b_publish_error_message = None, b_attachment = None\<rparr>"

definition small_world :: "component_row list \<Rightarrow> dep_row list \<Rightarrow> bundle_row list \<Rightarrow> publish_record list \<Rightarrow> world" where
  "small_world cs ds bs rs =
     (let t = no_tables\<lparr>t_components := cs, t_connections := [small_gitea], t_deployments := ds,
                t_bundles := bs, t_publish_records := rs\<rparr>
      in \<lparr>w_cur = t, w_durable = t, w_ticks = 0, w_trace = []\<rparr>)"

definition small_request :: publish_request where
  "small_request = \<lparr>pb_version = ''1'', pb_name = [], pb_release_notes = [], pb_draft = False, pb_prerelease = False\<rparr>"


definition lone_release :: world where
  "lone_release = small_world [small_component] [small_dep (Some ''b'')] [small_bundle] [small_record]"

text \<open>Gitea's answers to a request for a tag, for anything else, and to a release being created.\<close>

definition gitea_env :: "http_result \<Rightarrow> http_result \<Rightarrow> http_result \<Rightarrow> env" where
  "gitea_env on_tag on_get on_create =
     (sample_env HttpTimeout HttpTimeout)\<lparr>v_http := (\<lambda>tr rq.
        if h_method rq = POST then on_create
        else if h_path rq = tag_path ''o'' ''r'' ''1'' then on_tag else on_get)\<rparr>"

subsection \<open>One component\<close>

text \<open>
  C24. A tag is never moved, and nothing is sent before it is durable that we are publishing. Whatever
  Gitea answers, publishing a component leaves one of these traces: nothing; a rollback; a commit that
  shows the deployment PUBLISHING followed by read-only requests; or such a commit, reads, a single
  request that creates the release on the deployment's own commit, and reads again, where the last
  reading of the tag before that request said that it does not exist or already is on that commit.
\<close>

theorem tag_never_moved:
  "let w' = snd (publish_component v i q w) in
   w_trace w' = w_trace w \<or> w_trace w' = w_trace w @ [RolledBack] \<or>
   (\<exists>d T g1. find_dep w i = Some d \<and>
      map_option d_publish_status (find_row d_id i (t_deployments T)) = Some PS_PUBLISHING \<and> only_gets g1 \<and>
      (w_trace w' = w_trace w @ Committed T # g1 \<or>
       (\<exists>c repo cl tag g2 g3 u. for_deployment w d = Inr c \<and> get_gitea_repo c = Inr repo \<and>
          gitea_client_for v w c = Inr cl \<and> only_gets g2 \<and> only_gets g3 \<and>
          w_trace w' = w_trace w @ Committed T # g1 @ g2 @
            Sent (create_release_rq cl (fst repo) (snd repo) tag (d_commit_sha d) (body_of q)) # g3 \<and>
          w_trace u = w_trace w @ Committed T # g1 \<and> tag_open v cl repo (d_commit_sha d) tag u)))"
proof -
  obtain x w' where run: "publish_component v i q w = (x, w')" by force
  have "w_trace w' = w_trace w \<or> w_trace w' = w_trace w @ [RolledBack] \<or>
   (\<exists>d T g1. find_dep w i = Some d \<and>
      map_option d_publish_status (find_row d_id i (t_deployments T)) = Some PS_PUBLISHING \<and> only_gets g1 \<and>
      (w_trace w' = w_trace w @ Committed T # g1 \<or>
       (\<exists>c repo cl tag g2 g3 u. for_deployment w d = Inr c \<and> get_gitea_repo c = Inr repo \<and>
          gitea_client_for v w c = Inr cl \<and> only_gets g2 \<and> only_gets g3 \<and>
          w_trace w' = w_trace w @ Committed T # g1 @ g2 @
            Sent (create_release_rq cl (fst repo) (snd repo) tag (d_commit_sha d) (body_of q)) # g3 \<and>
          w_trace u = w_trace w @ Committed T # g1 \<and> tag_open v cl repo (d_commit_sha d) tag u)))"
    using run
  proof (cases rule: publish_component_cases)
    case (quiet e)
    then show ?thesis by blast
  next
    case (already d rec)
    then show ?thesis by (simp add: apply_success_def Let_def split: option.split)
  next
    case (sent d c repo cl rec w2 y w3 at)
    have co: "creates_once v cl repo (d_commit_sha d) q (q_tag_name rec) w2 w3"
      using ensure_release_facts [OF sent(12)] by simp
    have k: "keyed_records w3 \<Longrightarrow> find_record w3 (q_id rec) = Some rec"
      using sent(9) creates_once_frame(1) [OF co] by (simp add: find_record_def)
    have t: "w_trace w' = w_trace w3"
      using publish_outcome_facts [OF k sent(11), of v i y, unfolded sent(13)] by simp
    have st: "map_option d_publish_status (find_row d_id i (t_deployments (w_cur w2))) = Some PS_PUBLISHING"
      using sent(8) by (simp add: find_dep_def dep_publishing_def)
    show ?thesis
    proof (cases "reads w2 w3")
      case True
      then obtain es where "w_trace w3 = w_trace w2 @ es" "only_gets es" by (auto simp: reads_def)
      then have "w_trace w' = w_trace w @ Committed (w_cur w2) # es" "only_gets es" using t sent(6) by simp_all
      then show ?thesis using sent(1) st by blast
    next
      case False
      then obtain u u1 where u: "reads w2 u" "tag_open v cl repo (d_commit_sha d) (q_tag_name rec) u"
          "reads (snd (gitea_get_tag v cl (fst repo) (snd repo) (q_tag_name rec) u)) u1"
          "reads (snd (gitea_create_release v cl (fst repo) (snd repo) (q_tag_name rec) (d_commit_sha d)
             (body_of q) u1)) w3"
        using co unfolding creates_once_def by blast
      obtain g1 where g1: "w_trace u = w_trace w2 @ g1" "only_gets g1" using u(1) by (auto simp: reads_def)
      have "reads u u1" using gitea_reads(2) u(3) by (rule reads_trans)
      then obtain g2 where g2: "w_trace u1 = w_trace u @ g2" "only_gets g2" by (auto simp: reads_def)
      obtain g3 where g3: "w_trace w3 = w_trace u1 @
          Sent (create_release_rq cl (fst repo) (snd repo) (q_tag_name rec) (d_commit_sha d) (body_of q)) # g3"
          "only_gets g3"
        using u(4) by (auto simp: reads_def gitea_create_world)
      have "w_trace u = w_trace w @ Committed (w_cur w2) # g1" using g1 sent(6) by simp
      moreover have "w_trace w' = w_trace w @ Committed (w_cur w2) # g1 @ g2 @
          Sent (create_release_rq cl (fst repo) (snd repo) (q_tag_name rec) (d_commit_sha d) (body_of q)) # g3"
        using t g3(1) g2(1) g1(1) sent(6) by simp
      ultimately show ?thesis using sent(1-4) st g1(2) g2(2) g3(2) u(2) by blast
    qed
  qed
  then show ?thesis unfolding run Let_def snd_conv .
qed





text \<open>
  Publishing never touches what a promotion wrote. Whatever happens while a release or a deployment
  is published, and whether it returns or raises, the tables it leaves (current and durable) have the
  same deployments up to their publish columns, so that slots, statuses and identities are as they
  were; publish records keep their keys and invariants; and a record that was PUBLISHED is exactly what
  it was.
\<close>

theorem publishing_preserves:
  assumes "w_durable w = w_cur w" and "good_records (t_publish_records (w_cur w))"
    and "w' = snd (publish_bundle v b q w) \<or> w' = snd (publish_standalone v b q w)"
  shows "\<forall>T \<in> {w_cur w', w_durable w'}.
      map dep_promotion_side (t_deployments T) = map dep_promotion_side (t_deployments (w_cur w)) \<and>
      good_records (t_publish_records T) \<and>
      (\<forall>i r. find_row q_id i (t_publish_records (w_cur w)) = Some r \<and> q_status r = PR_PUBLISHED \<longrightarrow>
         find_row q_id i (t_publish_records T) = Some r)"
proof -
  obtain x y u z where r: "publish_bundle v b q w = (x, u)" "publish_standalone v b q w = (y, z)" by force
  have "across tables_publish w w'"
    using assms(3) publish_bundle_across [OF r(1)] publish_standalone_across [OF r(2)] r by auto
  then have "tables_publish (w_cur w) (w_cur w') \<and> tables_publish (w_cur w) (w_durable w')"
    using publishing.across_session assms(1) by blast
  then show ?thesis
    using assms(2) by (auto simp: tables_publish_def promotion_sides_def published_kept_def)
qed

text \<open>
  C26. A release is PUBLISHED exactly when every component that publishes has reached Gitea. When
  publishing a release comes to its end, its status is PUBLISHED if each deployment whose component
  publishes has a published record of the version, PARTIAL_FAILURE if only some have, and FAILED if none
  has; provided no record of that version belongs to a component that has publishing turned off.
\<close>

theorem release_publish_verdict:
  assumes "publish_bundle v b q w = (x, w')" and "find_bundle w' b = Some r"
    and "\<forall>e. x = Inl e \<longrightarrow> (\<exists>tag. e = TagAlreadyExistsDifferentCommit tag)"
    and "w_durable w = w_cur w" and "good_records (t_publish_records (w_cur w))"
    and "\<forall>d \<in> set (bundle_deployments w' b). has_published w' (pb_version q) d \<longrightarrow> publishes_now w' d"
  shows "b_publish_status r =
    (let ds = filter (publishes_now w') (bundle_deployments w' b)
     in if \<forall>d \<in> set ds. has_published w' (pb_version q) d then PS_PUBLISHED
        else if \<exists>d \<in> set ds. has_published w' (pb_version q) d then PS_PARTIAL_FAILURE else PS_FAILED)"
  by (rule publish_bundle_verdict [OF assms(1) _ assms(2,5,4)]) (use assms(3,6) in auto)


theorem publishing_preserves_witness:
  "let v = gitea_env not_found (ok_json []) (ok_json []);
       w' = snd (publish_bundle v ''b'' small_request lone_release)
   in find_row q_id ''q'' (t_publish_records (w_durable w')) = Some small_record"
proof -
  let ?v = "gitea_env not_found (ok_json []) (ok_json [])"
  have c: "w_durable lone_release = w_cur lone_release" by (simp add: lone_release_def small_world_def Let_def)
  have g: "good_records (t_publish_records (w_cur lone_release))" by code_simp
  have f: "find_row q_id ''q'' (t_publish_records (w_cur lone_release)) = Some small_record" by code_simp
  have s: "q_status small_record = PR_PUBLISHED" by code_simp
  show ?thesis
    using publishing_preserves [OF c g disjI1 [OF refl], where v = ?v and b = "''b''" and q = small_request] f s
    by (simp add: Let_def)
qed

text \<open>The run of a release whose only component is published already.\<close>

definition release_env :: env where
  "release_env = gitea_env not_found (ok_json []) (ok_json [])"

definition release_begun :: world where
  "release_begun = begin_bundle release_env ''b'' small_request lone_release"

definition release_walked :: "(exn + string list) \<times> world" where
  "release_walked = publish_walk release_env ''b'' small_request [''d''] release_begun"

definition release_ended :: world where
  "release_ended = commit (aggregate_bundle release_env ''b'' ''1'' 1 (snd release_walked))"

lemma release_run:
  "publish_bundle release_env ''b'' small_request lone_release = (get_bundle ''b'' release_ended, release_ended)"
proof -
  have b: "get_bundle ''b'' lone_release = Inr small_bundle" by code_simp
  have a: "b_deployment_status small_bundle = BS_SUCCESS"
    "assert_version (b_version small_bundle) (b_publish_status small_bundle) ''1'' = Inr ()"
    "pb_version small_request = ''1''"
    by code_simp+
  have i: "publishing_of release_begun (ordered_by_component release_begun
      (bundle_deployments release_begun ''b'')) = Inr [''d'']" by code_simp
  have "fst release_walked = Inr []" by code_simp
  then have w: "publish_walk release_env ''b'' small_request [''d''] release_begun = (Inr [], snd release_walked)"
    by (metis prod.collapse release_walked_def)
  show ?thesis
    unfolding publish_bundle_def b release_begun_def [symmetric] Let_def release_ended_def
    by (simp add: a i w del: publish_walk.simps)
qed

theorem release_publish_verdict_witness:
  "\<exists>r. get_bundle ''b'' release_ended = Inr r \<and> b_publish_status r = PS_PUBLISHED \<and>
     publish_bundle release_env ''b'' small_request lone_release = (Inr r, release_ended)"
proof -
  have "get_bundle ''b'' release_ended \<noteq> Inl BundleNotFoundError" by code_simp
  then obtain r where f: "find_bundle release_ended ''b'' = Some r"
    by (auto simp: get_bundle_def split: option.splits)
  then have g: "get_bundle ''b'' release_ended = Inr r" by (simp add: get_bundle_def)
  have c: "w_durable lone_release = w_cur lone_release" by (simp add: lone_release_def small_world_def Let_def)
  have gr: "good_records (t_publish_records (w_cur lone_release))" by code_simp
  have own: "\<forall>d \<in> set (bundle_deployments release_ended ''b'').
      has_published release_ended (pb_version small_request) d \<longrightarrow> publishes_now release_ended d" by code_simp
  have all: "\<forall>d \<in> set (filter (publishes_now release_ended) (bundle_deployments release_ended ''b'')).
      has_published release_ended (pb_version small_request) d" by code_simp
  show ?thesis
    using release_publish_verdict [OF release_run f _ c gr own] all g release_run by (simp add: Let_def)
qed

subsection \<open>Paths\<close>

text \<open>How a server reads a path: split at the slashes, then decode each segment.\<close>

fun segments :: "string \<Rightarrow> string list" where
  "segments [] = [[]]"
| "segments (c # s) = (if c = CHR ''/'' then [] # segments s
     else (case segments s of [] \<Rightarrow> [[c]] | x # xs \<Rightarrow> (c # x) # xs))"

lemma segments_append: "CHR ''/'' \<notin> set a \<Longrightarrow> segments (a @ CHR ''/'' # s) = a # segments s"
  by (induction a) auto

lemma segments_last: "CHR ''/'' \<notin> set a \<Longrightarrow> segments a = [a]"
  by (induction a) auto

text \<open>
  A path names exactly the resource it was built for. Whatever characters an owner, a repository
  or a tag holds (slashes, percent signs, spaces), a server that splits the path of a tag, of a release
  by tag or of the releases at its slashes and decodes the segments reads back that owner, repository
  and tag.
\<close>

theorem gitea_paths_roundtrip:
  "map url_unquote (segments (tag_path owner repo tag)) =
     [[], ''api'', ''v1'', ''repos'', owner, repo, ''tags'', tag] \<and>
   map url_unquote (segments (release_tag_path owner repo tag)) =
     [[], ''api'', ''v1'', ''repos'', owner, repo, ''releases'', ''tags'', tag] \<and>
   map url_unquote (segments (releases_path owner repo)) =
     [[], ''api'', ''v1'', ''repos'', owner, repo, ''releases'']"
proof -
  have q: "segments (url_quote a @ CHR ''/'' # s) = url_quote a # segments s"
      "segments (url_quote a) = [url_quote a]" for a s
    by (simp_all add: segments_append segments_last url_quote_safe)
  show ?thesis
    by (simp add: tag_path_def release_tag_path_def releases_path_def gitea_repo_path_def q url_quote_roundtrip)
qed

end
