(* ===== verification/Recovery.thy ===== *)
theory Recovery
  imports Publish_Orchestrator Orchestrator_Order
begin

section \<open>Recovery: driving and repairing what nobody watches\<close>

text \<open>
  app/services/recovery_service.py. Three sweeps, each with sessions of its own: resume every
  deployment in flight that has been quiet, rebuild the status of interrupted publishes from the
  publish records, and fail schedules whose runner died. Selections without an ORDER BY take the
  rows in table order.
\<close>

subsection \<open>Sessions\<close>

text \<open>\<open>with session_factory() as db\<close>: what an earlier session left uncommitted is gone.\<close>

definition open_session :: "world \<Rightarrow> world" where
  "open_session w = w\<lparr>w_cur := w_durable w\<rparr>"

text \<open>The orchestrator and the events of recovery act as SYSTEM.\<close>

definition system_env :: "env \<Rightarrow> env" where
  "system_env v = v\<lparr>v_actor := Some (as_value AS_SYSTEM), v_actor_source := as_value AS_SYSTEM\<rparr>"

subsection \<open>Resuming deployments\<close>

definition RESUMABLE_DEPLOYMENT_STATUSES :: "deployment_status list" where
  "RESUMABLE_DEPLOYMENT_STATUSES = [DS_WAITING, DS_PROMOTING, DS_DEPLOYING]"

definition quiet_deployments :: "env \<Rightarrow> time \<Rightarrow> world \<Rightarrow> dep_row list" where
  "quiet_deployments v quiet_before w =
     take (v_batch_size v) (sort_key d_updated_at
       (filter (\<lambda>d. d_status d \<in> set RESUMABLE_DEPLOYMENT_STATUSES \<and> d_updated_at d \<le> quiet_before)
         (t_deployments (w_cur w))))"

text \<open>A bundle is advanced once, at the place of its first deployment.\<close>

fun split_pairs :: "dep_row list \<Rightarrow> string list \<Rightarrow> string list \<Rightarrow> string list \<times> string list" where
  "split_pairs [] bundle_ids standalone_ids = (bundle_ids, standalone_ids)"
| "split_pairs (d # ds) bundle_ids standalone_ids =
     (if py_truthy (d_release_bundle_id d)
      then (let b = the (d_release_bundle_id d)
            in split_pairs ds (if b \<in> set bundle_ids then bundle_ids else bundle_ids @ [b]) standalone_ids)
      else split_pairs ds bundle_ids (standalone_ids @ [d_id d]))"

text \<open>One action in a session of its own; an exception is rolled back and counts as nothing.\<close>

fun resume_one :: "env \<Rightarrow> poll \<Rightarrow> world \<Rightarrow> nat \<times> world" where
  "resume_one v (PollDeployment i) w =
     (let r = refresh_standalone v i (open_session w) in (if isl (fst r) then 0 else 1, end_request r))"
| "resume_one v (PollBundle b) w =
     (let r = refresh_bundle v b (open_session w) in (if isl (fst r) then 0 else 1, end_request r))"

fun resume_all :: "env \<Rightarrow> poll list \<Rightarrow> world \<Rightarrow> nat \<times> world" where
  "resume_all v [] w = (0, w)"
| "resume_all v (p # ps) w =
     (case resume_one v p w of (n, w1) \<Rightarrow> (case resume_all v ps w1 of (m, w2) \<Rightarrow> (n + m, w2)))"

definition resume_plan :: "env \<Rightarrow> world \<Rightarrow> poll list" where
  "resume_plan v w =
     (case split_pairs (quiet_deployments v (now_of v w - v_poll_interval v * SECOND) w) [] [] of
        (bundles, standalones) \<Rightarrow> map PollBundle bundles @ map PollDeployment standalones)"

definition resume_deployments :: "env \<Rightarrow> world \<Rightarrow> nat \<times> world" where
  "resume_deployments v w =
     (let w1 = open_session w in resume_all (system_env v) (resume_plan v w1) (tick w1))"

subsection \<open>Interrupted publishes\<close>

definition PUBLISH_INTERRUPTED_CODE :: string where
  "PUBLISH_INTERRUPTED_CODE = ''PUBLISH_INTERRUPTED''"

definition msg_interrupted_whole :: string where
  "msg_interrupted_whole = ''Publish was interrupted but every component had already reached Gitea''"

definition msg_interrupted_partly :: "nat \<Rightarrow> nat \<Rightarrow> string" where
  "msg_interrupted_partly published expected =
     ''Publish was interrupted with '' @ str_of_nat published @ '' of '' @ str_of_nat expected @
     '' components published''"

definition msg_interrupted_early :: string where
  "msg_interrupted_early = ''Publish was interrupted before any component reached Gitea''"

definition recovery_verdict :: "nat \<Rightarrow> nat \<Rightarrow> publish_status \<times> string" where
  "recovery_verdict published expected =
     (if expected > 0 \<and> published = expected then (PS_PUBLISHED, msg_interrupted_whole)
      else if published > 0 then (PS_PARTIAL_FAILURE, msg_interrupted_partly published expected)
      else (PS_FAILED, msg_interrupted_early))"

definition started_before :: "time option \<Rightarrow> time \<Rightarrow> bool" where
  "started_before started stale_before \<longleftrightarrow> (case started of None \<Rightarrow> True | Some t \<Rightarrow> t \<le> stale_before)"

definition stale_bundle :: "time \<Rightarrow> bundle_row \<Rightarrow> bool" where
  "stale_bundle stale_before b \<longleftrightarrow>
     b_publish_status b = PS_PUBLISHING \<and> started_before (b_publish_started_at b) stale_before"

definition stale_deployment :: "time \<Rightarrow> dep_row \<Rightarrow> bool" where
  "stale_deployment stale_before d \<longleftrightarrow>
     d_publish_status d = PS_PUBLISHING \<and> d_release_bundle_id d = None \<and>
     started_before (d_publish_started_at d) stale_before"

text \<open>\<open>_apply_publish_verdict\<close> on the two kinds of subject.\<close>

definition bundle_verdict :: "publish_status \<Rightarrow> string \<Rightarrow> time \<Rightarrow> bundle_row \<Rightarrow> bundle_row" where
  "bundle_verdict s msg at b =
     (if s = PS_PUBLISHED
      then b\<lparr>b_publish_status := s, b_updated_at := at, b_published_at := time_or (b_published_at b) at,
             b_publish_failed_at := None, b_publish_error_code := None, b_publish_error_message := None\<rparr>
      else b\<lparr>b_publish_status := s, b_updated_at := at, b_publish_failed_at := Some at,
             b_publish_error_code := Some PUBLISH_INTERRUPTED_CODE, b_publish_error_message := Some msg\<rparr>)"

definition dep_verdict :: "publish_status \<Rightarrow> string \<Rightarrow> time \<Rightarrow> dep_row \<Rightarrow> dep_row" where
  "dep_verdict s msg at d =
     (if s = PS_PUBLISHED
      then d\<lparr>d_publish_status := s, d_updated_at := at, d_published_at := time_or (d_published_at d) at,
             d_publish_failed_at := None, d_publish_error_code := None, d_publish_error_message := None\<rparr>
      else d\<lparr>d_publish_status := s, d_updated_at := at, d_publish_failed_at := Some at,
             d_publish_error_code := Some PUBLISH_INTERRUPTED_CODE, d_publish_error_message := Some msg\<rparr>)"

definition verdict_code :: "publish_status \<Rightarrow> string option" where
  "verdict_code s = (if s = PS_PUBLISHED then None else Some PUBLISH_INTERRUPTED_CODE)"

definition reconcile_bundle_publish :: "env \<Rightarrow> string \<Rightarrow> world \<Rightarrow> nat \<times> world" where
  "reconcile_bundle_publish v b w0 =
     (let w = open_session w0 in
      case find_bundle w b of
        None \<Rightarrow> (0, w)
      | Some r \<Rightarrow>
          (if b_publish_status r \<noteq> PS_PUBLISHING then (0, w)
           else (let records = (case b_version r of None \<Rightarrow> [] | Some ver \<Rightarrow> version_records w b ver);
                     (s, msg) = recovery_verdict (count_status PR_PUBLISHED records)
                                  (length (bundle_deployments w b));
                     w1 = upd_bundle b (bundle_verdict s msg (now_of v w)) (tick w)
                 in (1, commit (log (system_env v) (Some b) None (ws_value COMPLETE_PUBLISH)
                           PUBLISH_RECONCILED (Some (ps_value s)) (verdict_code s) (Some msg) w1)))))"

definition reconcile_deployment_publish :: "env \<Rightarrow> string \<Rightarrow> world \<Rightarrow> nat \<times> world" where
  "reconcile_deployment_publish v i w0 =
     (let w = open_session w0 in
      case find_dep w i of
        None \<Rightarrow> (0, w)
      | Some d \<Rightarrow>
          (if d_publish_status d \<noteq> PS_PUBLISHING then (0, w)
           else (let records = (case d_version d of None \<Rightarrow> []
                       | Some ver \<Rightarrow> filter (\<lambda>r. q_version r = ver) (deployment_records w i));
                     (s, msg) = recovery_verdict (count_status PR_PUBLISHED records) 1;
                     w1 = upd_dep i (dep_verdict s msg (now_of v w)) (tick w)
                 in (1, commit (log (system_env v) None (Some i) (ws_value COMPLETE_PUBLISH)
                           PUBLISH_RECONCILED (Some (ps_value s)) (verdict_code s) (Some msg) w1)))))"

text \<open>A loop over identifiers that adds up what each step did.\<close>

fun sweep :: "(string \<Rightarrow> world \<Rightarrow> nat \<times> world) \<Rightarrow> string list \<Rightarrow> world \<Rightarrow> nat \<times> world" where
  "sweep step [] w = (0, w)"
| "sweep step (i # is) w =
     (case step i w of (n, w1) \<Rightarrow> (case sweep step is w1 of (m, w2) \<Rightarrow> (n + m, w2)))"

text \<open>The two selections, at most a batch of each.\<close>

definition publish_stale_before :: "env \<Rightarrow> world \<Rightarrow> time" where
  "publish_stale_before v w = now_of v w - v_publish_timeout v * SECOND"

definition interrupted_bundles :: "env \<Rightarrow> world \<Rightarrow> string list" where
  "interrupted_bundles v w =
     map b_id (take (v_batch_size v) (filter (stale_bundle (publish_stale_before v w)) (t_bundles (w_cur w))))"

definition interrupted_deployments :: "env \<Rightarrow> world \<Rightarrow> string list" where
  "interrupted_deployments v w =
     map d_id (take (v_batch_size v)
       (filter (stale_deployment (publish_stale_before v w)) (t_deployments (w_cur w))))"

definition reconcile_publishes :: "env \<Rightarrow> world \<Rightarrow> nat \<times> world" where
  "reconcile_publishes v w0 =
     (let w = open_session w0
      in case sweep (reconcile_bundle_publish v) (interrupted_bundles v w) (tick w) of
           (n, w1) \<Rightarrow> (case sweep (reconcile_deployment_publish v) (interrupted_deployments v w) w1 of
             (m, w2) \<Rightarrow> (n + m, w2)))"

subsection \<open>Schedules whose runner died\<close>

definition SCHEDULE_INTERRUPTED_MESSAGE :: string where
  "SCHEDULE_INTERRUPTED_MESSAGE =
     ''Interrupted while starting the deployment. A promotion may '' @
     ''already have been created in Drone; check the deployments '' @
     ''list for this target before scheduling it again.''"

definition unlinked_claim :: "schedule \<Rightarrow> bool" where
  "unlinked_claim s \<longleftrightarrow> s_status s = SS_RUNNING \<and> s_release_bundle_id s = None \<and> s_deployment_id s = None"

definition find_schedule :: "world \<Rightarrow> string \<Rightarrow> schedule option" where
  "find_schedule w i = find_row s_id i (t_schedules (w_cur w))"

definition upd_schedule :: "string \<Rightarrow> (schedule \<Rightarrow> schedule) \<Rightarrow> world \<Rightarrow> world" where
  "upd_schedule i f = set_tables (\<lambda>t. t\<lparr>t_schedules := upd_row s_id i f (t_schedules t)\<rparr>)"

definition schedule_interrupted :: "time \<Rightarrow> schedule \<Rightarrow> schedule" where
  "schedule_interrupted at s =
     s\<lparr>s_status := SS_FAILED, s_error_message := Some SCHEDULE_INTERRUPTED_MESSAGE,
       s_finished_at := Some at, s_updated_at := at\<rparr>"

text \<open>The conditional UPDATE: the row count is one exactly when the row still is an unlinked claim.\<close>

definition release_claim :: "env \<Rightarrow> string \<Rightarrow> world \<Rightarrow> nat \<times> world" where
  "release_claim v i w0 =
     (let w = open_session w0
      in case find_schedule w i of
           Some s \<Rightarrow>
             (if unlinked_claim s
              then (1, commit (upd_schedule i (schedule_interrupted (now_of v w)) (tick w)))
              else (0, commit (tick w)))
         | None \<Rightarrow> (0, commit (tick w)))"

definition stale_claims :: "env \<Rightarrow> world \<Rightarrow> string list" where
  "stale_claims v w =
     map s_id (take (v_batch_size v)
       (filter (\<lambda>s. unlinked_claim s \<and>
            started_before (s_started_at s) (now_of v w - v_schedule_claim_timeout v * SECOND))
         (t_schedules (w_cur w))))"

definition release_stale_schedule_claims :: "env \<Rightarrow> world \<Rightarrow> nat \<times> world" where
  "release_stale_schedule_claims v w0 =
     (let w = open_session w0 in sweep (release_claim v) (stale_claims v w) (tick w))"

definition recovery_run :: "env \<Rightarrow> world \<Rightarrow> (nat \<times> nat \<times> nat) \<times> world" where
  "recovery_run v w =
     (case resume_deployments v w of
        (n, w1) \<Rightarrow> (case reconcile_publishes v w1 of
          (m, w2) \<Rightarrow> (case release_stale_schedule_claims v w2 of
            (k, w3) \<Rightarrow> ((n, m, k), w3))))"

end
