(* ===== verification/Recovery_Laws.thy ===== *)
theory Recovery_Laws
  imports Recovery Publish_Verdict
begin

section \<open>What recovery guarantees\<close>

subsection \<open>Sessions and sweeps\<close>

lemma open_session_clean [simp]: "clean w \<Longrightarrow> open_session w = w"
  by (simp add: open_session_def clean_def)

lemma open_session_ops [simp]:
  "w_cur (open_session w) = w_durable w" "w_durable (open_session w) = w_durable w"
  "w_trace (open_session w) = w_trace w" "w_ticks (open_session w) = w_ticks w"
  by (simp_all add: open_session_def)

lemma clean_ops [simp]: "clean (commit w)" "clean (open_session w)" "clean (tick w) = clean w"
  by (simp_all add: clean_def)

lemma resume_one_poll: "snd (resume_one v p w) = poll_once v p (open_session w)"
  by (cases p) (simp_all add: Let_def)

lemma resume_all_polls:
  assumes "good w" and "clean w" and "within B w"
  shows "good (snd (resume_all v ps w)) \<and> clean (snd (resume_all v ps w)) \<and> within B (snd (resume_all v ps w))"
  using assms
proof (induction ps arbitrary: w)
  case Nil
  then show ?case by simp
next
  case (Cons p ps)
  obtain n w1 where r: "resume_one v p w = (n, w1)" by force
  have "w1 = poll_once v p w"
    using resume_one_poll [of v p w] r Cons.prems(2) by simp
  then have "good w1 \<and> clean w1 \<and> within B w1"
    using budget.poll_once_session [OF Cons.prems] by simp
  then show ?case using Cons.IH [of w1] r by (auto split: prod.splits)
qed

text \<open>A sweep whose steps satisfy a transitive relation satisfies it.\<close>

locale sweep_step =
  fixes step :: "string \<Rightarrow> world \<Rightarrow> nat \<times> world" and R :: "world \<Rightarrow> world \<Rightarrow> bool"
  assumes R_refl: "R w w" and R_trans: "R u v \<Longrightarrow> R v w \<Longrightarrow> R u w" and step_R: "R w (snd (step i w))"
begin

lemma sweep_R: "R w (snd (sweep step is w))"
proof (induction "is" arbitrary: w)
  case Nil
  then show ?case using R_refl by simp
next
  case (Cons i "is")
  obtain n w1 where r: "step i w = (n, w1)" by force
  have "R w w1" using step_R [of w i] r by simp
  then show ?case using Cons.IH [of w1] r R_trans by (auto split: prod.splits)
qed

end

text \<open>Only commits leave the process: nothing is sent and no promotion side changes.\<close>

definition records_only :: "world \<Rightarrow> world \<Rightarrow> bool" where
  "records_only w w' \<longleftrightarrow>
     (\<exists>es. w_trace w' = w_trace w @ es \<and> (\<forall>e \<in> set es. \<exists>T. e = Committed T)) \<and>
     (clean w \<longrightarrow> clean w' \<and> promotion_sides (w_cur w') = promotion_sides (w_cur w) \<and>
        t_publish_records (w_cur w') = t_publish_records (w_cur w))"

lemma records_only_refl: "records_only w w"
  by (auto simp: records_only_def)

lemma records_only_trans: "records_only u v \<Longrightarrow> records_only v w \<Longrightarrow> records_only u w"
  unfolding records_only_def by (auto simp: ball_Un)

lemma records_only_open: "records_only (open_session w) w' \<Longrightarrow> records_only w w'"
  by (auto simp: records_only_def clean_def open_session_def)

lemma records_only_tick: "records_only w (tick w)"
  by (auto simp: records_only_def)

lemma verdict_sides:
  "dep_promotion_side (dep_verdict s msg at d) = dep_promotion_side d"
  by (simp add: dep_verdict_def dep_promotion_side_def)

lemma bundle_publish_records_only: "records_only w (snd (reconcile_bundle_publish v b w))"
  by (rule records_only_open)
    (auto simp: reconcile_bundle_publish_def Let_def records_only_def clean_def promotion_sides_def
      upd_bundle_def log_def add_event_def split: option.split prod.split)

lemma deployment_publish_records_only: "records_only w (snd (reconcile_deployment_publish v i w))"
  by (rule records_only_open)
    (auto simp: reconcile_deployment_publish_def Let_def records_only_def clean_def promotion_sides_def
      upd_dep_def log_def add_event_def map_upd_row_same verdict_sides split: option.split prod.split)

lemma release_claim_records_only: "records_only w (snd (release_claim v i w))"
  by (rule records_only_open)
    (auto simp: release_claim_def Let_def records_only_def clean_def promotion_sides_def
      upd_schedule_def split: option.split)

interpretation bundle_sweep: sweep_step "reconcile_bundle_publish v" records_only
  by unfold_locales (auto intro: records_only_refl records_only_trans bundle_publish_records_only)

interpretation deployment_sweep: sweep_step "reconcile_deployment_publish v" records_only
  by unfold_locales (auto intro: records_only_refl records_only_trans deployment_publish_records_only)

interpretation claim_sweep: sweep_step "release_claim v" records_only
  by unfold_locales (auto intro: records_only_refl records_only_trans release_claim_records_only)

lemma reconcile_publishes_records_only: "records_only w (snd (reconcile_publishes v w))"
proof (rule records_only_open, rule records_only_trans [OF records_only_tick])
  show "records_only (tick (open_session w)) (snd (reconcile_publishes v w))"
    unfolding reconcile_publishes_def Let_def
    using bundle_sweep.sweep_R deployment_sweep.sweep_R records_only_trans
    by (simp split: prod.split) (metis snd_conv)
qed

lemma release_stale_records_only: "records_only w (snd (release_stale_schedule_claims v w))"
  by (rule records_only_open, rule records_only_trans [OF records_only_tick])
    (simp add: release_stale_schedule_claims_def Let_def claim_sweep.sweep_R)

text \<open>Good tables only look at the promotion sides.\<close>

lemma good_rows_sides:
  "good_rows (map dep_promotion_side ds) \<longleftrightarrow> good_rows ds"
proof -
  have a: "slot_active (dep_promotion_side d) = slot_active d" "promotion_slot (dep_promotion_side d) = promotion_slot d"
    "dep_inv (dep_promotion_side d) = dep_inv d" for d
    by (simp_all add: slot_active_def promotion_slot_def dep_promotion_side_def dep_inv_def
        is_terminal_def dep_promote_stage_def dep_wait_stage_def)
  show ?thesis
    by (simp add: good_rows_def keyed_def slots_unique_def filter_map comp_def a)
qed

lemma records_only_good:
  assumes "records_only w w'" and "clean w" and "good w"
  shows "good w' \<and> clean w' \<and> posts w' = posts w \<and> waiting w' = waiting w"
proof -
  have s: "promotion_sides (w_cur w') = promotion_sides (w_cur w)" "clean w'"
    using assms(1,2) by (auto simp: records_only_def)
  have "good_rows (t_deployments (w_cur w'))"
    using s(1) assms(3) good_rows_sides by (metis good_def promotion_sides_def)
  then have "good w'" using s(2) by (simp add: good_def clean_def)
  moreover have "posts w' = posts w"
  proof -
    obtain es where es: "w_trace w' = w_trace w @ es" "\<forall>e \<in> set es. \<exists>T. e = Committed T"
      using assms(1) by (auto simp: records_only_def)
    then have "filter is_post es = []" by (auto simp: filter_empty_conv is_post_def)
    then show ?thesis using es(1) by (simp add: posts_def)
  qed
  moreover have "waiting w' = waiting w"
  proof -
    have st: "status_in u i = map_option d_status (find_row d_id i (promotion_sides (w_cur u)))" for u i
    proof -
      have "find_row d_id i (map dep_promotion_side ds) = map_option dep_promotion_side (find_row d_id i ds)" for ds
        by (induction ds) auto
      then show ?thesis by (simp add: status_in_def find_dep_def promotion_sides_def option.map_comp comp_def)
    qed
    have "map d_id (t_deployments (w_cur w')) = map d_id (t_deployments (w_cur w))"
      using arg_cong [OF s(1), of "map d_id"] by (simp add: promotion_sides_def comp_def)
    then show ?thesis using s(1) by (simp add: waiting_def st)
  qed
  ultimately show ?thesis using s(2) by simp
qed


subsection \<open>Every sweep settles what it selects\<close>

text \<open>
  A step settles the row it is given, if that row is pending, counts it, and leaves every other row
  as it was; what it makes of the row depends on a basis that no step changes. So a sweep settles
  exactly the pending rows of its list, each as its basis says.
\<close>

locale settling =
  fixes step :: "string \<Rightarrow> world \<Rightarrow> nat \<times> world" and row :: "world \<Rightarrow> string \<Rightarrow> 'r option"
    and pend :: "'r \<Rightarrow> bool" and basis :: "world \<Rightarrow> 'b" and settled :: "'b \<Rightarrow> 'r \<Rightarrow> 'r \<Rightarrow> bool"
  assumes step_others: "j \<noteq> i \<Longrightarrow> row (snd (step i w)) j = row w j"
    and step_idle: "\<forall>r. row w i = Some r \<longrightarrow> \<not> pend r \<Longrightarrow> fst (step i w) = 0 \<and> row (snd (step i w)) i = row w i"
    and step_settles: "row w i = Some r \<Longrightarrow> pend r \<Longrightarrow>
      fst (step i w) = 1 \<and> (\<exists>r'. row (snd (step i w)) i = Some r' \<and> settled (basis w) r r' \<and> \<not> pend r')"
    and step_basis: "basis (snd (step i w)) = basis w"
begin

lemma sweep_basis: "basis (snd (sweep step is w)) = basis w"
proof (induction "is" arbitrary: w)
  case (Cons i "is")
  obtain n w1 where r: "step i w = (n, w1)" by force
  then show ?case using Cons.IH [of w1] step_basis [of i w] by (auto split: prod.splits)
qed simp

lemma sweep_idle: "\<forall>r. row w j = Some r \<longrightarrow> j \<in> set is \<longrightarrow> \<not> pend r \<Longrightarrow> row (snd (sweep step is w)) j = row w j"
proof (induction "is" arbitrary: w)
  case (Cons i "is")
  obtain n w1 where r: "step i w = (n, w1)" by force
  have same: "row w1 j = row w j"
    using step_others [of j i w] step_idle [of w i] r Cons.prems by (cases "j = i") auto
  then show ?case using Cons.IH [of w1] Cons.prems r by (auto split: prod.splits)
qed simp

lemma sweep_settles:
  "row w j = Some r \<Longrightarrow> pend r \<Longrightarrow> j \<in> set is \<Longrightarrow>
     \<exists>r'. row (snd (sweep step is w)) j = Some r' \<and> settled (basis w) r r' \<and> \<not> pend r'"
proof (induction "is" arbitrary: w)
  case (Cons i "is")
  obtain n w1 where r: "step i w = (n, w1)" by force
  have rest: "snd (sweep step (i # is) w) = snd (sweep step is w1)" using r by (simp split: prod.split)
  show ?case
  proof (cases "j = i")
    case True
    obtain r' where r': "row w1 j = Some r'" "settled (basis w) r r'" "\<not> pend r'"
      using step_settles [of w j r] Cons.prems True r by auto
    then show ?thesis using sweep_idle [of w1 j "is"] unfolding rest by simp
  next
    case False
    have "row w1 j = Some r" "basis w1 = basis w"
      using step_others [OF False, of w] step_basis [of i w] Cons.prems(1) r by simp_all
    then show ?thesis using Cons.IH [of w1] Cons.prems False unfolding rest by simp
  qed
qed simp

lemma sweep_row:
  assumes "\<And>i. i \<in> set is \<Longrightarrow> \<exists>r. row w i = Some r \<and> pend r" and "row w j = Some r"
  shows "\<exists>r'. row (snd (sweep step is w)) j = Some r' \<and> (if j \<in> set is then settled (basis w) r r' else r' = r)"
  using assms sweep_settles [of w j r "is"] sweep_idle [of w j "is"] by force

lemma sweep_counts:
  "distinct is \<Longrightarrow> \<forall>i \<in> set is. \<exists>r. row w i = Some r \<and> pend r \<Longrightarrow> fst (sweep step is w) = length is"
proof (induction "is" arbitrary: w)
  case (Cons i "is")
  obtain n w1 where r: "step i w = (n, w1)" by force
  have "n = 1" using step_settles [of w i] Cons.prems(2) r by auto
  moreover have "\<forall>j \<in> set is. \<exists>r. row w1 j = Some r \<and> pend r"
    using Cons.prems step_others [of _ i w] r by fastforce
  ultimately show ?case using Cons.IH [of w1] Cons.prems(1) r by (auto split: prod.splits)
qed simp

end

definition bundle_at :: "world \<Rightarrow> string \<Rightarrow> bundle_row option" where
  "bundle_at w b = find_row b_id b (t_bundles (w_durable w))"

definition deployment_at :: "world \<Rightarrow> string \<Rightarrow> dep_row option" where
  "deployment_at w i = find_row d_id i (t_deployments (w_durable w))"

definition schedule_at :: "world \<Rightarrow> string \<Rightarrow> schedule option" where
  "schedule_at w i = find_row s_id i (t_schedules (w_durable w))"

lemma recovery_verdict_final: "fst (recovery_verdict p e) \<noteq> PS_PUBLISHING"
  by (simp add: recovery_verdict_def)

lemma bundle_verdict_fields [simp]:
  "b_id (bundle_verdict s msg at b) = b_id b" "b_publish_status (bundle_verdict s msg at b) = s"
  by (simp_all add: bundle_verdict_def)

lemma dep_verdict_fields [simp]:
  "d_id (dep_verdict s msg at d) = d_id d" "d_publish_status (dep_verdict s msg at d) = s"
  by (simp_all add: dep_verdict_def)

lemma schedule_interrupted_fields [simp]:
  "s_id (schedule_interrupted at s) = s_id s" "\<not> unlinked_claim (schedule_interrupted at s)"
  by (simp_all add: schedule_interrupted_def unlinked_claim_def)

text \<open>What recovery makes of a bundle: the publish records of its version against its deployments.\<close>

definition recovered_verdict :: "world \<Rightarrow> bundle_row \<Rightarrow> publish_status \<times> string" where
  "recovered_verdict w r =
     recovery_verdict
       (count_status PR_PUBLISHED (case b_version r of None \<Rightarrow> [] | Some ver \<Rightarrow> version_records w (b_id r) ver))
       (length (bundle_deployments w (b_id r)))"

lemma reconcile_bundle_tables:
  "w_durable (snd (reconcile_bundle_publish v b w)) =
     (case find_row b_id b (t_bundles (w_durable w)) of
        Some r \<Rightarrow> if b_publish_status r = PS_PUBLISHING
          then (let s = recovered_verdict (open_session w) r;
                    w1 = upd_bundle b (bundle_verdict (fst s) (snd s) (now_of v w)) (tick (open_session w))
                in w_cur (log (system_env v) (Some b) None (ws_value COMPLETE_PUBLISH) PUBLISH_RECONCILED
                     (Some (ps_value (fst s))) (verdict_code (fst s)) (Some (snd s)) w1))
          else w_durable w
      | None \<Rightarrow> w_durable w)"
  by (auto simp: reconcile_bundle_publish_def Let_def find_bundle_def recovered_verdict_def now_of_def
      split: option.split prod.split dest: find_row_Some)

lemma reconcile_bundle_bundles:
  "t_bundles (w_durable (snd (reconcile_bundle_publish v b w))) =
     (case find_row b_id b (t_bundles (w_durable w)) of
        Some r \<Rightarrow> if b_publish_status r = PS_PUBLISHING
          then upd_row b_id b (bundle_verdict (fst (recovered_verdict (open_session w) r))
                 (snd (recovered_verdict (open_session w) r)) (now_of v w)) (t_bundles (w_durable w))
          else t_bundles (w_durable w)
      | None \<Rightarrow> t_bundles (w_durable w))"
  by (simp add: reconcile_bundle_tables Let_def log_def add_event_def upd_bundle_def split: option.split)

lemma reconcile_bundle_frame:
  "t_deployments (w_durable (snd (reconcile_bundle_publish v b w))) = t_deployments (w_durable w)"
  "t_publish_records (w_durable (snd (reconcile_bundle_publish v b w))) = t_publish_records (w_durable w)"
  by (simp_all add: reconcile_bundle_tables Let_def log_def add_event_def upd_bundle_def split: option.split)

lemma recovered_verdict_cong:
  assumes "t_deployments (w_cur u) = t_deployments (w_cur w)"
    and "t_publish_records (w_cur u) = t_publish_records (w_cur w)"
  shows "recovered_verdict u r = recovered_verdict w r"
  using assms
  by (simp add: recovered_verdict_def version_records_def deployment_records_def bundle_deployments_def
      split: option.split)

text \<open>The basis of a bundle's verdict are the durable deployments and publish records.\<close>

definition verdict_basis :: "world \<Rightarrow> dep_row list \<times> publish_record list" where
  "verdict_basis w = (t_deployments (w_durable w), t_publish_records (w_durable w))"

definition bundle_settled :: "dep_row list \<times> publish_record list \<Rightarrow> bundle_row \<Rightarrow> bundle_row \<Rightarrow> bool" where
  "bundle_settled basis r r' \<longleftrightarrow>
     (\<exists>w at. verdict_basis w = basis \<and>
        r' = bundle_verdict (fst (recovered_verdict (open_session w) r)) (snd (recovered_verdict (open_session w) r)) at r)"

lemma bundle_settled_iff:
  "bundle_settled (verdict_basis w) r r' \<longleftrightarrow>
     (\<exists>at. r' = bundle_verdict (fst (recovered_verdict (open_session w) r))
        (snd (recovered_verdict (open_session w) r)) at r)"
proof -
  have "recovered_verdict (open_session u) r = recovered_verdict (open_session w) r"
    if "verdict_basis u = verdict_basis w" for u
    using that by (intro recovered_verdict_cong) (simp_all add: verdict_basis_def)
  then show ?thesis unfolding bundle_settled_def by metis
qed

interpretation bundles_settle: settling "reconcile_bundle_publish v" bundle_at
  "\<lambda>r. b_publish_status r = PS_PUBLISHING" verdict_basis bundle_settled
proof unfold_locales
  fix i j :: string and w :: world and r :: bundle_row
  show "j \<noteq> i \<Longrightarrow> bundle_at (snd (reconcile_bundle_publish v i w)) j = bundle_at w j"
    by (auto simp: bundle_at_def reconcile_bundle_bundles split: option.split)
  show "\<forall>r. bundle_at w i = Some r \<longrightarrow> b_publish_status r \<noteq> PS_PUBLISHING \<Longrightarrow>
      fst (reconcile_bundle_publish v i w) = 0 \<and> bundle_at (snd (reconcile_bundle_publish v i w)) i = bundle_at w i"
    by (auto simp: bundle_at_def reconcile_bundle_publish_def Let_def find_bundle_def split: option.split)
  show "verdict_basis (snd (reconcile_bundle_publish v i w)) = verdict_basis w"
    by (simp add: verdict_basis_def reconcile_bundle_frame)
  assume r: "bundle_at w i = Some r" "b_publish_status r = PS_PUBLISHING"
  have "fst (reconcile_bundle_publish v i w) = 1"
    using r by (simp add: bundle_at_def reconcile_bundle_publish_def Let_def find_bundle_def split: prod.split)
  moreover have "bundle_at (snd (reconcile_bundle_publish v i w)) i =
      Some (bundle_verdict (fst (recovered_verdict (open_session w) r))
        (snd (recovered_verdict (open_session w) r)) (now_of v w) r)"
    using r by (simp add: bundle_at_def reconcile_bundle_bundles)
  ultimately show "fst (reconcile_bundle_publish v i w) = 1 \<and>
      (\<exists>r'. bundle_at (snd (reconcile_bundle_publish v i w)) i = Some r' \<and>
         bundle_settled (verdict_basis w) r r' \<and> b_publish_status r' \<noteq> PS_PUBLISHING)"
    by (auto simp: bundle_settled_iff recovered_verdict_def recovery_verdict_final)
qed

definition recovered_dep_verdict :: "world \<Rightarrow> dep_row \<Rightarrow> publish_status \<times> string" where
  "recovered_dep_verdict w d =
     recovery_verdict
       (count_status PR_PUBLISHED (case d_version d of None \<Rightarrow> []
          | Some ver \<Rightarrow> filter (\<lambda>r. q_version r = ver) (deployment_records w (d_id d)))) 1"

lemma reconcile_deployment_deployments:
  "t_deployments (w_durable (snd (reconcile_deployment_publish v i w))) =
     (case find_row d_id i (t_deployments (w_durable w)) of
        Some d \<Rightarrow> if d_publish_status d = PS_PUBLISHING
          then upd_row d_id i (dep_verdict (fst (recovered_dep_verdict (open_session w) d))
                 (snd (recovered_dep_verdict (open_session w) d)) (now_of v w)) (t_deployments (w_durable w))
          else t_deployments (w_durable w)
      | None \<Rightarrow> t_deployments (w_durable w))"
  by (auto simp: reconcile_deployment_publish_def Let_def find_dep_def recovered_dep_verdict_def now_of_def
      log_def add_event_def upd_dep_def split: option.split prod.split dest: find_row_Some)

lemma reconcile_deployment_frame:
  "t_bundles (w_durable (snd (reconcile_deployment_publish v i w))) = t_bundles (w_durable w)"
  "t_publish_records (w_durable (snd (reconcile_deployment_publish v i w))) = t_publish_records (w_durable w)"
  by (auto simp: reconcile_deployment_publish_def Let_def log_def add_event_def upd_dep_def
      split: option.split prod.split)

lemma recovered_dep_verdict_cong:
  "t_publish_records (w_cur u) = t_publish_records (w_cur w) \<Longrightarrow>
     recovered_dep_verdict u d = recovered_dep_verdict w d"
  by (simp add: recovered_dep_verdict_def deployment_records_def split: option.split)

definition dep_settled :: "publish_record list \<Rightarrow> dep_row \<Rightarrow> dep_row \<Rightarrow> bool" where
  "dep_settled records d d' \<longleftrightarrow>
     (\<exists>w at. t_publish_records (w_durable w) = records \<and>
        d' = dep_verdict (fst (recovered_dep_verdict (open_session w) d))
               (snd (recovered_dep_verdict (open_session w) d)) at d)"

lemma dep_settled_iff:
  "dep_settled (t_publish_records (w_durable w)) d d' \<longleftrightarrow>
     (\<exists>at. d' = dep_verdict (fst (recovered_dep_verdict (open_session w) d))
        (snd (recovered_dep_verdict (open_session w) d)) at d)"
proof -
  have "recovered_dep_verdict (open_session u) d = recovered_dep_verdict (open_session w) d"
    if "t_publish_records (w_durable u) = t_publish_records (w_durable w)" for u
    using that by (intro recovered_dep_verdict_cong) simp
  then show ?thesis unfolding dep_settled_def by metis
qed

interpretation deployments_settle: settling "reconcile_deployment_publish v" deployment_at
  "\<lambda>d. d_publish_status d = PS_PUBLISHING" "\<lambda>w. t_publish_records (w_durable w)" dep_settled
proof unfold_locales
  fix i j :: string and w :: world and d :: dep_row
  show "j \<noteq> i \<Longrightarrow> deployment_at (snd (reconcile_deployment_publish v i w)) j = deployment_at w j"
    by (auto simp: deployment_at_def reconcile_deployment_deployments split: option.split)
  show "\<forall>d. deployment_at w i = Some d \<longrightarrow> d_publish_status d \<noteq> PS_PUBLISHING \<Longrightarrow>
      fst (reconcile_deployment_publish v i w) = 0 \<and>
      deployment_at (snd (reconcile_deployment_publish v i w)) i = deployment_at w i"
    by (auto simp: deployment_at_def reconcile_deployment_publish_def Let_def find_dep_def split: option.split)
  show "t_publish_records (w_durable (snd (reconcile_deployment_publish v i w))) = t_publish_records (w_durable w)"
    by (simp add: reconcile_deployment_frame)
  assume d: "deployment_at w i = Some d" "d_publish_status d = PS_PUBLISHING"
  have "fst (reconcile_deployment_publish v i w) = 1"
    using d by (simp add: deployment_at_def reconcile_deployment_publish_def Let_def find_dep_def split: prod.split)
  moreover have "deployment_at (snd (reconcile_deployment_publish v i w)) i =
      Some (dep_verdict (fst (recovered_dep_verdict (open_session w) d))
        (snd (recovered_dep_verdict (open_session w) d)) (now_of v w) d)"
    using d by (simp add: deployment_at_def reconcile_deployment_deployments)
  ultimately show "fst (reconcile_deployment_publish v i w) = 1 \<and>
      (\<exists>d'. deployment_at (snd (reconcile_deployment_publish v i w)) i = Some d' \<and>
         dep_settled (t_publish_records (w_durable w)) d d' \<and> d_publish_status d' \<noteq> PS_PUBLISHING)"
    by (auto simp: dep_settled_iff recovered_dep_verdict_def recovery_verdict_final)
qed

interpretation claims_settle: settling "release_claim v" schedule_at unlinked_claim "\<lambda>w. ()"
  "\<lambda>_ s s'. \<exists>at. s' = schedule_interrupted at s"
  by unfold_locales
    (auto simp: schedule_at_def release_claim_def Let_def find_schedule_def upd_schedule_def split: option.split)

end
