(* ===== verification/Recovery_Properties.thy ===== *)
theory Recovery_Properties
  imports Publish_Properties Recovery_Laws
begin

section \<open>Properties of recovery\<close>

subsection \<open>Recovery never repeats work\<close>

text \<open>
  C27. A pass of recovery never repeats work. Whatever Drone answers, it keeps the tables good and
  every session committed or undone, and the promotion requests it sends are paid for by deployments
  that were WAITING; an interrupted publish and a stale claim are only recorded: those two sweeps
  leave nothing but commits behind, and no promotion side of a deployment and no publish record changes.
\<close>

theorem recovery_never_repeats:
  assumes "good w" and "w_durable w = w_cur w"
  shows "good (snd (recovery_run v w)) \<and> w_durable (snd (recovery_run v w)) = w_cur (snd (recovery_run v w)) \<and>
    posts (snd (recovery_run v w)) + waiting (snd (recovery_run v w)) \<le> posts w + waiting w \<and>
    records_only (snd (resume_deployments v w)) (snd (recovery_run v w))"
proof -
  obtain n w1 where r1: "resume_deployments v w = (n, w1)" by force
  obtain m w2 where r2: "reconcile_publishes v w1 = (m, w2)" by force
  obtain k w3 where r3: "release_stale_schedule_claims v w2 = (k, w3)" by force
  have run: "snd (recovery_run v w) = w3" by (simp add: recovery_run_def r1 r2 r3)
  have c: "clean w" using assms(2) by (simp add: clean_def)
  have "within (posts w + waiting w) w" by (rule budget.session_sync [OF order.refl c])
  then have tk: "good (tick w)" "clean (tick w)" "within (posts w + waiting w) (tick w)"
    using assms(1) c waiting_cong [of "tick w" w] waiting_cong [of "rollback (tick w)" "rollback w"]
    by (simp_all add: good_def clean_def in_session_def posts_def)
  have w1: "good w1" "clean w1" "within (posts w + waiting w) w1"
    using resume_all_polls [OF tk, of "system_env v" "resume_plan v (open_session w)"] r1 c
    by (simp_all add: resume_deployments_def Let_def)
  have ro: "records_only w1 w3"
    using reconcile_publishes_records_only [of w1 v] release_stale_records_only [of w2 v] r2 r3
      records_only_trans by (metis snd_conv)
  have "good w3 \<and> clean w3 \<and> posts w3 = posts w1 \<and> waiting w3 = waiting w1"
    by (rule records_only_good [OF ro w1(2,1)])
  then show ?thesis unfolding run using ro r1 w1(3) by (simp add: in_session_def clean_def)
qed

theorem recovery_never_repeats_witness:
  "posts (snd (recovery_run (sample_env HttpTimeout HttpTimeout)
     (world_with [fresh_row backend_component ''d1'' None] []))) \<le> 1"
proof -
  let ?w = "world_with [fresh_row backend_component ''d1'' None] []"
  have "posts ?w = 0" "waiting ?w = 1" by code_simp+
  moreover have "w_durable ?w = w_cur ?w" by (simp add: world_with_def)
  ultimately show ?thesis
    using recovery_never_repeats [OF sample_good(1), of "sample_env HttpTimeout HttpTimeout"] by simp
qed

subsection \<open>Interrupted publishes settle\<close>

lemma selected_rows:
  assumes "distinct (map key xs)"
  shows "distinct (map key (take n (filter P xs)))"
    and "i \<in> set (map key (take n (filter P xs))) \<Longrightarrow> \<exists>x. find_row key i xs = Some x \<and> P x"
    and "length (filter P xs) \<le> n \<Longrightarrow> find_row key i xs = Some x \<Longrightarrow> P x \<Longrightarrow>
      i \<in> set (map key (take n (filter P xs)))"
proof -
  have "distinct (map key (filter P xs))" using assms by (simp add: distinct_map inj_on_def)
  then show "distinct (map key (take n (filter P xs)))" by (simp flip: take_map)
next
  assume "i \<in> set (map key (take n (filter P xs)))"
  then obtain x where "x \<in> set (filter P xs)" "key x = i" using set_take_subset by fastforce
  then show "\<exists>x. find_row key i xs = Some x \<and> P x" using find_row_keyed [of key xs x] assms by (auto simp: keyed_def)
next
  assume "length (filter P xs) \<le> n" "find_row key i xs = Some x" "P x"
  then show "i \<in> set (map key (take n (filter P xs)))" by (auto dest: find_row_Some)
qed

text \<open>A sweep of one kind leaves the rows of the other kind alone.\<close>

interpretation bundle_sweep_frame: sweep_step "reconcile_bundle_publish v"
  "\<lambda>w w'. t_deployments (w_durable w') = t_deployments (w_durable w) \<and>
     t_publish_records (w_durable w') = t_publish_records (w_durable w)"
  by unfold_locales (simp_all add: reconcile_bundle_frame)

interpretation deployment_sweep_frame: sweep_step "reconcile_deployment_publish v"
  "\<lambda>w w'. t_bundles (w_durable w') = t_bundles (w_durable w)"
  by unfold_locales (simp_all add: reconcile_deployment_frame)

text \<open>The rows a pass settles, and that every other row stays.\<close>

lemma reconcile_publishes_rows:
  assumes "distinct (map b_id (t_bundles (w_durable w)))" and "distinct (map d_id (t_deployments (w_durable w)))"
  shows "let u = open_session w; w' = snd (reconcile_publishes v w);
      bs = interrupted_bundles v u; ds = interrupted_deployments v u; stale = publish_stale_before v u in
    fst (reconcile_publishes v w) = length bs + length ds \<and>
    (\<forall>b r. find_row b_id b (t_bundles (w_durable w)) = Some r \<longrightarrow>
       (\<exists>at. find_row b_id b (t_bundles (w_durable w')) = Some (if b \<in> set bs
          then bundle_verdict (fst (recovered_verdict u r)) (snd (recovered_verdict u r)) at r else r))) \<and>
    (\<forall>i d. find_row d_id i (t_deployments (w_durable w)) = Some d \<longrightarrow>
       (\<exists>at. find_row d_id i (t_deployments (w_durable w')) = Some (if i \<in> set ds
          then dep_verdict (fst (recovered_dep_verdict u d)) (snd (recovered_dep_verdict u d)) at d else d))) \<and>
    (length (filter (stale_bundle stale) (t_bundles (w_durable w))) \<le> v_batch_size v \<longrightarrow>
       (\<forall>b r. find_row b_id b (t_bundles (w_durable w)) = Some r \<longrightarrow> stale_bundle stale r \<longrightarrow> b \<in> set bs)) \<and>
    (length (filter (stale_deployment stale) (t_deployments (w_durable w))) \<le> v_batch_size v \<longrightarrow>
       (\<forall>i d. find_row d_id i (t_deployments (w_durable w)) = Some d \<longrightarrow> stale_deployment stale d \<longrightarrow> i \<in> set ds))"
proof -
  define u where "u = open_session w"
  define bs where "bs = interrupted_bundles v u"
  define ds where "ds = interrupted_deployments v u"
  obtain n w1 where r1: "sweep (reconcile_bundle_publish v) bs (tick u) = (n, w1)" by force
  obtain m w2 where r2: "sweep (reconcile_deployment_publish v) ds w1 = (m, w2)" by force
  have run: "reconcile_publishes v w = (n + m, w2)"
    using r1 r2 by (simp add: reconcile_publishes_def Let_def u_def bs_def ds_def)
  have f1: "t_deployments (w_durable w1) = t_deployments (w_durable w)"
      "t_publish_records (w_durable w1) = t_publish_records (w_durable w)"
    using bundle_sweep_frame.sweep_R [of v bs "tick u"] r1 by (simp_all add: u_def)
  have f2: "t_bundles (w_durable w2) = t_bundles (w_durable w1)"
    using deployment_sweep_frame.sweep_R [of v ds w1] r2 by simp
  have selb: "distinct bs" "b \<in> set bs \<Longrightarrow> \<exists>r. bundle_at w b = Some r \<and> b_publish_status r = PS_PUBLISHING"
      "length (filter (stale_bundle (publish_stale_before v u)) (t_bundles (w_durable w))) \<le> v_batch_size v \<Longrightarrow>
        find_row b_id b (t_bundles (w_durable w)) = Some r \<Longrightarrow> stale_bundle (publish_stale_before v u) r \<Longrightarrow> b \<in> set bs" for b r
    using selected_rows(1) [OF assms(1), where n = "v_batch_size v" and P = "stale_bundle (publish_stale_before v u)"]
      selected_rows(2,3) [OF assms(1), where i = b and n = "v_batch_size v" and P = "stale_bundle (publish_stale_before v u)"]
    by (auto simp: bs_def interrupted_bundles_def u_def bundle_at_def stale_bundle_def)
  have seld: "distinct ds" "i \<in> set ds \<Longrightarrow> \<exists>d. deployment_at w i = Some d \<and> d_publish_status d = PS_PUBLISHING"
      "length (filter (stale_deployment (publish_stale_before v u)) (t_deployments (w_durable w))) \<le> v_batch_size v \<Longrightarrow>
        find_row d_id i (t_deployments (w_durable w)) = Some d \<Longrightarrow> stale_deployment (publish_stale_before v u) d \<Longrightarrow> i \<in> set ds" for i d
    using selected_rows(1) [OF assms(2), where n = "v_batch_size v" and P = "stale_deployment (publish_stale_before v u)"]
      selected_rows(2,3) [OF assms(2), where i = i and n = "v_batch_size v" and P = "stale_deployment (publish_stale_before v u)"]
    by (auto simp: ds_def interrupted_deployments_def u_def deployment_at_def stale_deployment_def)
  have same: "bundle_at (tick u) = bundle_at w" "deployment_at w1 = deployment_at w"
    using f1 by (auto simp: bundle_at_def deployment_at_def u_def)
  have bundles: "\<exists>at. bundle_at w2 b = Some (if b \<in> set bs
      then bundle_verdict (fst (recovered_verdict u r)) (snd (recovered_verdict u r)) at r else r)"
    if "bundle_at w b = Some r" for b r
    using bundles_settle.sweep_row [of bs "tick u" b r v] selb(2) that same(1)
      recovered_verdict_cong [of "open_session (tick u)" u r] r1 f2
    by (cases "b \<in> set bs") (auto simp: bundle_settled_iff bundle_at_def u_def)
  have deployments: "\<exists>at. deployment_at w2 i = Some (if i \<in> set ds
      then dep_verdict (fst (recovered_dep_verdict u d)) (snd (recovered_dep_verdict u d)) at d else d)"
    if "deployment_at w i = Some d" for i d
    using deployments_settle.sweep_row [of ds w1 i d v] seld(2) that same(2)
      recovered_dep_verdict_cong [of "open_session w1" u d] r2 f1
    by (cases "i \<in> set ds") (auto simp: dep_settled_iff u_def)
  have "n = length bs" using bundles_settle.sweep_counts [OF selb(1), of "tick u" v] selb(2) same(1) r1 by simp
  moreover have "m = length ds" using deployments_settle.sweep_counts [OF seld(1), of w1 v] seld(2) same(2) r2 by simp
  ultimately show ?thesis
    using bundles deployments selb(3) seld(3)
    unfolding Let_def u_def [symmetric] bs_def [symmetric] ds_def [symmetric] run fst_conv snd_conv
      bundle_at_def deployment_at_def
    by blast
qed

text \<open>Which of its deployments have reached Gitea under the version of a release, or of its own.\<close>

definition reached :: "world \<Rightarrow> string option \<Rightarrow> dep_row \<Rightarrow> bool" where
  "reached w version d \<longleftrightarrow> (\<exists>ver. version = Some ver \<and> (\<exists>q \<in> set (t_publish_records (w_cur w)).
     q_deployment_id q = d_id d \<and> q_version q = ver \<and> q_status q = PR_PUBLISHED))"

definition bundle_unpublished :: "bundle_row \<Rightarrow> bundle_row" where
  "bundle_unpublished r = r\<lparr>b_publish_status := PS_NOT_PUBLISHED, b_updated_at := 0, b_published_at := None,
     b_publish_failed_at := None, b_publish_error_code := None, b_publish_error_message := None\<rparr>"

definition dep_unpublished :: "dep_row \<Rightarrow> dep_row" where
  "dep_unpublished d = d\<lparr>d_publish_status := PS_NOT_PUBLISHED, d_updated_at := 0, d_published_at := None,
     d_publish_failed_at := None, d_publish_error_code := None, d_publish_error_message := None\<rparr>"

lemma verdict_rest:
  "bundle_unpublished (bundle_verdict s msg at r) = bundle_unpublished r"
  "dep_unpublished (dep_verdict s msg at d) = dep_unpublished d"
  "b_publish_error_code (bundle_verdict s msg at r) = (if s = PS_PUBLISHED then None else Some PUBLISH_INTERRUPTED_CODE)"
  "d_publish_error_code (dep_verdict s msg at d) = (if s = PS_PUBLISHED then None else Some PUBLISH_INTERRUPTED_CODE)"
  by (simp_all add: bundle_unpublished_def dep_unpublished_def bundle_verdict_def dep_verdict_def)

lemma reached_version: "reached w (Some ver) d = has_published w ver d" "reached w None d = False"
  by (simp_all add: reached_def has_published_def)

lemma recovered_status:
  assumes "records_unique (t_publish_records (w_cur u))"
  shows "fst (recovered_verdict u r) = (let ds = bundle_deployments u (b_id r) in
    if ds \<noteq> [] \<and> (\<forall>d \<in> set ds. reached u (b_version r) d) then PS_PUBLISHED
    else if \<exists>d \<in> set ds. reached u (b_version r) d then PS_PARTIAL_FAILURE else PS_FAILED)"
proof -
  let ?ds = "bundle_deployments u (b_id r)"
  have n: "count_status PR_PUBLISHED (case b_version r of None \<Rightarrow> [] | Some ver \<Rightarrow> version_records u (b_id r) ver) =
      length (filter (reached u (b_version r)) ?ds)"
    using count_published [OF assms]
    by (cases "b_version r") (simp_all add: reached_version [abs_def], simp add: count_status_def)
  have full: "length (filter P xs) = length xs \<longleftrightarrow> (\<forall>x \<in> set xs. P x)" for P and xs :: "dep_row list"
    using length_filter_full [of xs P "\<lambda>_. True"] by simp
  have some: "filter P xs \<noteq> [] \<longleftrightarrow> (\<exists>x \<in> set xs. P x)" for P and xs :: "dep_row list"
    by (auto simp: filter_empty_conv)
  show ?thesis
    unfolding recovered_verdict_def n recovery_verdict_def Let_def full length_greater_0_conv some by simp
qed

lemma recovered_dep_status:
  "fst (recovered_dep_verdict u d) = (if reached u (d_version d) d then PS_PUBLISHED else PS_FAILED)"
  if "records_unique (t_publish_records (w_cur u))"
proof -
  have one: "count_status PR_PUBLISHED (filter (\<lambda>r. q_version r = ver) (deployment_records u (d_id d))) =
      (if has_published u ver d then 1 else 0)" for ver
  proof -
    have "length (filter (\<lambda>r. q_status r = PR_PUBLISHED)
        (filter (\<lambda>r. q_version r = ver) (deployment_records u (d_id d)))) =
      length (filter (\<lambda>r. (q_deployment_id r, q_version r) = (d_id d, ver) \<and> q_status r = PR_PUBLISHED)
        (t_publish_records (w_cur u)))"
      by (simp add: deployment_records_def filter_sort_key_length conj_ac)
    then show ?thesis
      unfolding filter_unique_key [OF that [unfolded records_unique_def]]
      by (auto simp: has_published_def count_status_def)
  qed
  show ?thesis
  proof (cases "d_version d")
    case None
    then show ?thesis by (simp add: recovered_dep_verdict_def recovery_verdict_def reached_version count_status_def)
  next
    case (Some ver)
    then show ?thesis using one [of ver] by (simp add: recovered_dep_verdict_def recovery_verdict_def reached_version)
  qed
qed

text \<open>
  C28. An interrupted publish always reaches a verdict, and it is the one the publish records support.
  Every release and every lone deployment that a pass selects as left PUBLISHING past the timeout is
  counted and leaves PUBLISHING, with an error code unless it is PUBLISHED. A release all of whose
  components publish becomes PUBLISHED if it has deployments and each of them has a published record of
  its version, PARTIAL_FAILURE if only some have, FAILED if none has; a lone deployment becomes PUBLISHED
  if it has such a record, else FAILED. Nothing else of these rows changes, and every other row is exactly
  what it was. When no more than a batch of them were stale, no stale one is left out. (For a release with
  a component that does not publish the verdict is not the one of a finished publish: lemma
  recovery_counts_every_component.)
\<close>

theorem interrupted_publishes_settle:
  assumes "distinct (map b_id (t_bundles (w_durable w)))" and "distinct (map d_id (t_deployments (w_durable w)))"
    and "records_unique (t_publish_records (w_durable w))"
  shows "let u = open_session w; w' = snd (reconcile_publishes v w);
      bs = interrupted_bundles v u; ds = interrupted_deployments v u; stale = publish_stale_before v u in
    fst (reconcile_publishes v w) = length bs + length ds \<and>
    (\<forall>b r. find_row b_id b (t_bundles (w_durable w)) = Some r \<longrightarrow>
       (\<exists>r'. find_row b_id b (t_bundles (w_durable w')) = Some r' \<and>
          (if b \<notin> set bs then r' = r
           else bundle_unpublished r' = bundle_unpublished r \<and> b_publish_status r' \<noteq> PS_PUBLISHING \<and>
             (b_publish_error_code r' = None \<longleftrightarrow> b_publish_status r' = PS_PUBLISHED) \<and>
             ((\<forall>d \<in> set (bundle_deployments u b). publishes_now u d) \<longrightarrow> b_publish_status r' =
               (if bundle_deployments u b \<noteq> [] \<and> (\<forall>d \<in> set (bundle_deployments u b). reached u (b_version r) d)
                then PS_PUBLISHED
                else if \<exists>d \<in> set (bundle_deployments u b). reached u (b_version r) d
                then PS_PARTIAL_FAILURE else PS_FAILED))))) \<and>
    (\<forall>i d. find_row d_id i (t_deployments (w_durable w)) = Some d \<longrightarrow>
       (\<exists>d'. find_row d_id i (t_deployments (w_durable w')) = Some d' \<and>
          (if i \<notin> set ds then d' = d
           else dep_unpublished d' = dep_unpublished d \<and>
             d_publish_status d' = (if reached u (d_version d) d then PS_PUBLISHED else PS_FAILED) \<and>
             (d_publish_error_code d' = None \<longleftrightarrow> d_publish_status d' = PS_PUBLISHED)))) \<and>
    (length (filter (stale_bundle stale) (t_bundles (w_durable w))) \<le> v_batch_size v \<longrightarrow>
       (\<forall>b r. find_row b_id b (t_bundles (w_durable w)) = Some r \<longrightarrow> stale_bundle stale r \<longrightarrow> b \<in> set bs)) \<and>
    (length (filter (stale_deployment stale) (t_deployments (w_durable w))) \<le> v_batch_size v \<longrightarrow>
       (\<forall>i d. find_row d_id i (t_deployments (w_durable w)) = Some d \<longrightarrow> stale_deployment stale d \<longrightarrow> i \<in> set ds))"
proof -
  let ?u = "open_session w"
  note rows = reconcile_publishes_rows [OF assms(1,2), of v, unfolded Let_def]
  have ru: "records_unique (t_publish_records (w_cur ?u))" using assms(3) by (simp add: open_session_def)
  have b: "\<exists>r'. find_row b_id b (t_bundles (w_durable (snd (reconcile_publishes v w)))) = Some r' \<and>
          (if b \<notin> set (interrupted_bundles v ?u) then r' = r
           else bundle_unpublished r' = bundle_unpublished r \<and> b_publish_status r' \<noteq> PS_PUBLISHING \<and>
             (b_publish_error_code r' = None \<longleftrightarrow> b_publish_status r' = PS_PUBLISHED) \<and>
             ((\<forall>d \<in> set (bundle_deployments ?u b). publishes_now ?u d) \<longrightarrow> b_publish_status r' =
               (if bundle_deployments ?u b \<noteq> [] \<and> (\<forall>d \<in> set (bundle_deployments ?u b). reached ?u (b_version r) d)
                then PS_PUBLISHED
                else if \<exists>d \<in> set (bundle_deployments ?u b). reached ?u (b_version r) d
                then PS_PARTIAL_FAILURE else PS_FAILED)))"
    if r: "find_row b_id b (t_bundles (w_durable w)) = Some r" for b r
  proof -
    have id: "b_id r = b" using r by (auto dest: find_row_Some)
    obtain at where at: "find_row b_id b (t_bundles (w_durable (snd (reconcile_publishes v w)))) =
        Some (if b \<in> set (interrupted_bundles v ?u)
          then bundle_verdict (fst (recovered_verdict ?u r)) (snd (recovered_verdict ?u r)) at r else r)"
      using rows r by blast
    show ?thesis
      unfolding at using recovered_status [OF ru, of r, unfolded id Let_def]
      by (simp add: verdict_rest)
  qed
  have d: "\<exists>d'. find_row d_id i (t_deployments (w_durable (snd (reconcile_publishes v w)))) = Some d' \<and>
          (if i \<notin> set (interrupted_deployments v ?u) then d' = d
           else dep_unpublished d' = dep_unpublished d \<and>
             d_publish_status d' = (if reached ?u (d_version d) d then PS_PUBLISHED else PS_FAILED) \<and>
             (d_publish_error_code d' = None \<longleftrightarrow> d_publish_status d' = PS_PUBLISHED))"
    if d: "find_row d_id i (t_deployments (w_durable w)) = Some d" for i d
  proof -
    obtain at where at: "find_row d_id i (t_deployments (w_durable (snd (reconcile_publishes v w)))) =
        Some (if i \<in> set (interrupted_deployments v ?u)
          then dep_verdict (fst (recovered_dep_verdict ?u d)) (snd (recovered_dep_verdict ?u d)) at d else d)"
      using rows d by blast
    show ?thesis
      unfolding at using recovered_dep_status [OF ru, of d] by (simp add: verdict_rest)
  qed
  show ?thesis
    unfolding Let_def
    by (intro conjI allI impI, rule rows [THEN conjunct1], erule b, erule d)
      (use rows [THEN conjunct2, THEN conjunct2, THEN conjunct2] in blast)+
qed

definition left_publishing :: world where
  "left_publishing = small_world [small_component] [small_dep (Some ''b'')]
     [small_bundle\<lparr>b_publish_status := PS_PUBLISHING, b_version := Some ''1''\<rparr>] [small_record]"

theorem interrupted_publishes_settle_witness:
  "map_option b_publish_status (find_row b_id ''b''
     (t_bundles (w_durable (snd (reconcile_publishes (sample_env HttpTimeout HttpTimeout) left_publishing))))) =
       Some PS_PUBLISHED \<and>
   fst (reconcile_publishes (sample_env HttpTimeout HttpTimeout) left_publishing) = 1"
proof -
  let ?v = "sample_env HttpTimeout HttpTimeout" and ?b = "small_bundle\<lparr>b_publish_status := PS_PUBLISHING, b_version := Some ''1''\<rparr>"
  let ?u = "open_session left_publishing"
  have d: "distinct (map b_id (t_bundles (w_durable left_publishing)))"
      "distinct (map d_id (t_deployments (w_durable left_publishing)))"
      "records_unique (t_publish_records (w_durable left_publishing))" by code_simp+
  have sel: "interrupted_bundles ?v ?u = [''b'']" "interrupted_deployments ?v ?u = []" by code_simp+
  have row: "find_row b_id ''b'' (t_bundles (w_durable left_publishing)) = Some ?b" by code_simp
  have ds: "bundle_deployments ?u ''b'' = [small_dep (Some ''b'')]" by code_simp
  have pub: "publishes_now ?u (small_dep (Some ''b''))" "b_version ?b = Some ''1''"
      "t_publish_records (w_cur ?u) = [small_record]" "q_deployment_id small_record = d_id (small_dep (Some ''b''))"
      "q_version small_record = ''1''" "q_status small_record = PR_PUBLISHED" by code_simp+
  have reach: "reached ?u (b_version ?b) (small_dep (Some ''b''))" using pub(2-) by (simp add: reached_def)
  note s = interrupted_publishes_settle [OF d, of ?v, unfolded Let_def sel]
  obtain r' where r': "find_row b_id ''b'' (t_bundles (w_durable (snd (reconcile_publishes ?v left_publishing)))) = Some r'"
      "(\<forall>d \<in> set (bundle_deployments ?u ''b''). publishes_now ?u d) \<longrightarrow> b_publish_status r' =
        (if bundle_deployments ?u ''b'' \<noteq> [] \<and> (\<forall>d \<in> set (bundle_deployments ?u ''b''). reached ?u (b_version ?b) d)
         then PS_PUBLISHED
         else if \<exists>d \<in> set (bundle_deployments ?u ''b''). reached ?u (b_version ?b) d then PS_PARTIAL_FAILURE else PS_FAILED)"
    using s [THEN conjunct2, THEN conjunct1, rule_format, OF row] by (auto simp only: list.set insert_iff simp_thms if_False)
  have "b_publish_status r' = PS_PUBLISHED" using r'(2) pub(1) reach unfolding ds by simp
  then show ?thesis using r'(1) s by simp
qed

subsection \<open>Stale schedule claims\<close>

interpretation claim_sweep_frame: sweep_step "release_claim v"
  "\<lambda>w w'. t_deployments (w_durable w') = t_deployments (w_durable w) \<and> t_bundles (w_durable w') = t_bundles (w_durable w)"
  by unfold_locales (auto simp: release_claim_def Let_def upd_schedule_def split: option.split)

text \<open>
  A stale claim is failed, never handed back, and nothing else is. A schedule that the sweep
  selects was RUNNING without a release or a deployment of its own; it ends FAILED with the message
  that says where to look, it is counted once, and every other schedule, every deployment and every
  release stays exactly as it was.
\<close>

theorem stale_claims_failed:
  assumes "distinct (map s_id (t_schedules (w_durable w)))"
  shows "let ids = stale_claims v (open_session w); w' = snd (release_stale_schedule_claims v w) in
    fst (release_stale_schedule_claims v w) = length ids \<and>
    t_deployments (w_durable w') = t_deployments (w_durable w) \<and> t_bundles (w_durable w') = t_bundles (w_durable w) \<and>
    (\<forall>i s. find_row s_id i (t_schedules (w_durable w)) = Some s \<longrightarrow> (\<exists>at.
       find_row s_id i (t_schedules (w_durable w')) = Some (if i \<in> set ids then schedule_interrupted at s else s) \<and>
       (i \<in> set ids \<longrightarrow> s_status s = SS_RUNNING \<and> s_release_bundle_id s = None \<and> s_deployment_id s = None)))"
proof -
  define u where "u = open_session w"
  define ids where "ids = stale_claims v u"
  have run: "release_stale_schedule_claims v w = sweep (release_claim v) ids (tick u)"
    by (simp add: release_stale_schedule_claims_def Let_def u_def ids_def)
  have sel: "distinct ids" "i \<in> set ids \<Longrightarrow> \<exists>s. schedule_at w i = Some s \<and> unlinked_claim s" for i
    using selected_rows(1,2) [OF assms]
    by (fastforce simp: ids_def stale_claims_def u_def schedule_at_def)+
  have same: "schedule_at (tick u) = schedule_at w" by (auto simp: schedule_at_def u_def)
  have "\<exists>at. schedule_at (snd (sweep (release_claim v) ids (tick u))) i =
      Some (if i \<in> set ids then schedule_interrupted at s else s)" if "schedule_at w i = Some s" for i s
    using claims_settle.sweep_row [of ids "tick u" i s v] sel(2) that same by (cases "i \<in> set ids") auto
  moreover have "i \<in> set ids \<Longrightarrow> schedule_at w i = Some s \<Longrightarrow> unlinked_claim s" for i s
    using sel(2) [of i] by simp
  moreover have "fst (sweep (release_claim v) ids (tick u)) = length ids"
    using claims_settle.sweep_counts [OF sel(1), of "tick u" v] sel(2) same by simp
  ultimately show ?thesis
    using claim_sweep_frame.sweep_R [of v ids "tick u"]
    unfolding Let_def u_def [symmetric] ids_def [symmetric] run schedule_at_def unlinked_claim_def
    by (simp add: u_def)
qed

definition small_schedule :: "string \<Rightarrow> schedule_status \<Rightarrow> schedule" where
  "small_schedule i s = \<lparr>s_id = i, s_project_id = None, s_mode = RM_BUNDLE, s_selected_component_keys = None,
     s_frontend_build_number = None, s_backend_build_number = None, s_target = ''t'', s_scheduled_for_utc = 0,
     s_timezone = ''U'', s_status = s, s_requested_by = None, s_notification_recipients = None,
     s_release_version = None, s_release_notes = None, s_attachment = None, s_deployment_id = None,
     s_release_bundle_id = None, s_error_message = None, s_created_at = 0, s_updated_at = 0,
     s_started_at = None, s_finished_at = None, s_component_builds = []\<rparr>"

definition with_schedules :: "schedule list \<Rightarrow> world" where
  "with_schedules ss = (let t = no_tables\<lparr>t_schedules := ss\<rparr>
     in \<lparr>w_cur = t, w_durable = t, w_ticks = 0, w_trace = []\<rparr>)"

definition two_schedules :: world where
  "two_schedules = with_schedules [small_schedule ''1'' SS_RUNNING, small_schedule ''2'' SS_PENDING]"

theorem stale_claims_failed_witness:
  "fst (release_stale_schedule_claims (sample_env HttpTimeout HttpTimeout) two_schedules) = 1 \<and>
   find_row s_id ''2'' (t_schedules (w_durable
     (snd (release_stale_schedule_claims (sample_env HttpTimeout HttpTimeout) two_schedules)))) =
       Some (small_schedule ''2'' SS_PENDING)"
proof -
  let ?v = "sample_env HttpTimeout HttpTimeout"
  have d: "distinct (map s_id (t_schedules (w_durable two_schedules)))" by code_simp
  have sel: "stale_claims ?v (open_session two_schedules) = [''1'']" by code_simp
  have row: "find_row s_id ''2'' (t_schedules (w_durable two_schedules)) = Some (small_schedule ''2'' SS_PENDING)"
    by code_simp
  have all: "fst (release_stale_schedule_claims ?v two_schedules) = length [''1'']"
      "\<exists>at. find_row s_id ''2'' (t_schedules (w_durable (snd (release_stale_schedule_claims ?v two_schedules)))) =
        Some (if ''2'' \<in> set [''1''] then schedule_interrupted at (small_schedule ''2'' SS_PENDING)
          else small_schedule ''2'' SS_PENDING)"
    using stale_claims_failed [OF d, of ?v] row unfolding Let_def sel by (blast, metis)
  then show ?thesis by simp
qed

subsection \<open>Recovery and publishing count differently\<close>

text \<open>
  The last publish pass over a release expects the components that publish; recovery expects every
  component. A finished release with a component that does not publish is then called partial.
\<close>

definition left_publishing_wide :: world where
  "left_publishing_wide = small_world [small_component, small_component\<lparr>c_id := ''z'', c_publish_enabled := False\<rparr>]
     [small_dep (Some ''b''), (small_dep (Some ''b''))\<lparr>d_id := ''e'', d_component_id := ''z''\<rparr>]
     [small_bundle\<lparr>b_publish_status := PS_PUBLISHING, b_version := Some ''1''\<rparr>] [small_record]"

lemma recovery_counts_every_component:
  "map b_publish_status (t_bundles (w_durable
     (snd (reconcile_publishes (sample_env HttpTimeout HttpTimeout) left_publishing_wide)))) = [PS_PARTIAL_FAILURE] \<and>
   map b_publish_status (t_bundles (w_cur
     (aggregate_bundle (sample_env HttpTimeout HttpTimeout) ''b'' ''1'' 1 left_publishing_wide))) = [PS_PUBLISHED]"
  by code_simp

end
