(* ===== verification/Approval.thy ===== *)
theory Approval
  imports World "HOL-Library.List_Lexorder" "HOL-Library.Char_ord"
begin

section \<open>Approving releases\<close>

text \<open>
  app/usecase/release, app/infrastructure/sqlite/release and \<open>WorkflowService\<close> of
  app/services/workflow_service.py. A release carries a BPMN workflow whose state is the
  serialised instance of SpiffWorkflow, which is not part of the program: the engine is a
  parameter, of which the code uses five operations.

  A transition reads the release in its own session, and later writes it by a conditional
  UPDATE in the same transaction as the workflow. Between the two another session may commit;
  so the two halves are two functions, and a use case is one after the other.
\<close>

subsection \<open>The workflow engine\<close>

datatype task_state = READY | COMPLETED | OTHER_STATE

record wf_task =
  wt_name :: string
  wt_state :: task_state
  wt_data :: "(string \<times> string) list"

text \<open>
  \<open>eg_create\<close> is \<open>create_workflow()\<close>, \<open>eg_tasks\<close> is \<open>get_tasks()\<close> of the deserialised state,
  \<open>eg_run\<close> sets the data of the READY task of that name, runs it and lets the engine go on. The
  number stands for the identifiers and times that the engine draws.
\<close>

record 'j engine =
  eg_create :: "nat \<Rightarrow> 'j"
  eg_tasks :: "'j \<Rightarrow> wf_task list"
  eg_run :: "nat \<Rightarrow> 'j \<Rightarrow> string \<Rightarrow> (string \<times> string) list \<Rightarrow> 'j"
  eg_is_completed :: "'j \<Rightarrow> bool"

subsection \<open>Tables\<close>

record 'j workflow_row =
  wr_release_id :: string
  wr_definition_id :: string
  wr_state_json :: 'j
  wr_created_at :: time
  wr_updated_at :: time

record 'j approval_db =
  ad_releases :: "release list"
  ad_workflows :: "'j workflow_row list"

text \<open>What is committed, and how many times the clock was read.\<close>

record 'j approval_world =
  aw_db :: "'j approval_db"
  aw_ticks :: nat

definition a_now :: "env \<Rightarrow> 'j approval_world \<Rightarrow> time" where
  "a_now v w = v_clock v (aw_ticks w)"

definition a_tick :: "'j approval_world \<Rightarrow> 'j approval_world" where
  "a_tick w = w\<lparr>aw_ticks := Suc (aw_ticks w)\<rparr>"

text \<open>uq_releases_repository_commit_environment.\<close>

definition release_key :: "release \<Rightarrow> string \<times> string \<times> string" where
  "release_key r = (r_repository r, r_commit_sha r, r_environment r)"

definition releases_unique :: "release list \<Rightarrow> bool" where
  "releases_unique rs \<longleftrightarrow> distinct (map release_key rs)"

subsection \<open>The repository\<close>

definition repo_find :: "'j approval_world \<Rightarrow> string \<Rightarrow> release option" where
  "repo_find w i = find_row r_id i (ad_releases (aw_db w))"

text \<open>The INSERT of a release: None is the IntegrityError that becomes DuplicateReleaseError.\<close>

definition repo_add :: "release \<Rightarrow> release list \<Rightarrow> release list option" where
  "repo_add r rs =
     (let rs' = rs @ [r] in if keyed r_id rs' \<and> releases_unique rs' then Some rs' else None)"

text \<open>MUTABLE_FIELDS, copied from the entity to the row.\<close>

definition mutable_values :: "release \<Rightarrow> release \<Rightarrow> release" where
  "mutable_values r row =
     row\<lparr>r_status := r_status r, r_updated_at := r_updated_at r, r_approved_by := r_approved_by r,
       r_approved_at := r_approved_at r, r_rejected_by := r_rejected_by r,
       r_rejected_at := r_rejected_at r, r_deploy_started_at := r_deploy_started_at r,
       r_deploy_finished_at := r_deploy_finished_at r, r_message := r_message r\<rparr>"

text \<open>The conditional UPDATE: None when its row count is not one.\<close>

definition save_transition :: "release \<Rightarrow> release_status \<Rightarrow> release list \<Rightarrow> release list option" where
  "save_transition r expected rs =
     (if length (filter (\<lambda>row. r_id row = r_id r \<and> r_status row = expected) rs) = 1
      then Some (map (\<lambda>row. if r_id row = r_id r \<and> r_status row = expected
                   then mutable_values r row else row) rs)
      else None)"

record release_filters =
  rf_repository :: "string option"
  rf_branch :: "string option"
  rf_environment :: "string option"
  rf_status :: "release_status option"

definition filter_eq :: "'a option \<Rightarrow> 'a \<Rightarrow> bool" where
  "filter_eq f x \<longleftrightarrow> (case f of None \<Rightarrow> True | Some y \<Rightarrow> x = y)"

definition repo_search ::
    "release_filters \<Rightarrow> nat \<Rightarrow> nat \<Rightarrow> 'j approval_world \<Rightarrow> release list \<times> nat" where
  "repo_search f limit offset w =
     (let found = filter (\<lambda>r. filter_eq (rf_repository f) (r_repository r) \<and>
            filter_eq (rf_branch f) (r_branch r) \<and> filter_eq (rf_environment f) (r_environment r) \<and>
            filter_eq (rf_status f) (r_status r)) (ad_releases (aw_db w))
      in (take limit (drop offset (rev (sort_key (\<lambda>r. (r_created_at r, r_id r)) found))), length found))"

subsection \<open>The workflow service\<close>

definition DEFINITION_ID :: string where "DEFINITION_ID = ''release_approval''"

definition MILESTONE_NAMES :: "(string \<times> string) list" where
  "MILESTONE_NAMES =
     [(''Task_approval_gate'', ''Approval gate''), (''Task_start_deployment'', ''Await deployment''),
      (''Task_execute_deployment'', ''Deploy release''), (''EndEvent_rejected'', ''Rejected''),
      (''EndEvent_success'', ''Success''), (''EndEvent_failed'', ''Failed'')]"

definition ready_names :: "'j engine \<Rightarrow> 'j \<Rightarrow> string list" where
  "ready_names g j = map wt_name (filter (\<lambda>t. wt_state t = READY) (eg_tasks g j))"

definition create_for_release :: "'j engine \<Rightarrow> env \<Rightarrow> nat \<Rightarrow> string \<Rightarrow> 'j workflow_row" where
  "create_for_release g v n i =
     \<lparr>wr_release_id = i, wr_definition_id = DEFINITION_ID, wr_state_json = eg_create g n,
      wr_created_at = v_clock v n, wr_updated_at = v_clock v n\<rparr>"

definition msg_not_waiting :: "string \<Rightarrow> string list \<Rightarrow> string" where
  "msg_not_waiting element ready =
     ''Workflow is not waiting at '' @ element @ ''; ready steps: ['' @
     concat (map (\<lambda>s. repr s @ '', '') (butlast ready)) @ (if ready = [] then [] else repr (last ready)) @ '']''"

definition complete_step ::
    "'j engine \<Rightarrow> env \<Rightarrow> nat \<Rightarrow> string \<Rightarrow> (string \<times> string) list \<Rightarrow> 'j workflow_row \<Rightarrow>
     exn + 'j workflow_row" where
  "complete_step g v n element data inst =
     (let ready = ready_names g (wr_state_json inst)
      in if length (filter (\<lambda>s. s = element) ready) \<noteq> 1
         then Inl (WorkflowStepError (msg_not_waiting element ready))
         else Inr (inst\<lparr>wr_state_json := eg_run g n (wr_state_json inst) element data,
                        wr_updated_at := v_clock v n\<rparr>))"

text \<open>The steps that bring a new workflow to the status of an old release.\<close>

definition catch_up_steps :: "release_status \<Rightarrow> (string \<times> (string \<times> string) list) list" where
  "catch_up_steps s =
     (if s \<noteq> RS_PENDING
      then [(''Task_approval_gate'',
              [(''decision'', if s = RS_REJECTED then ''rejected'' else ''approved'')])] else []) @
     (if s \<in> {RS_DEPLOYING, RS_SUCCESS, RS_FAILED} then [(''Task_start_deployment'', [])] else []) @
     (if s \<in> {RS_SUCCESS, RS_FAILED}
      then [(''Task_execute_deployment'',
              [(''deployment_result'', if s = RS_SUCCESS then ''success'' else ''failed'')])] else [])"

fun complete_steps ::
    "'j engine \<Rightarrow> env \<Rightarrow> nat \<Rightarrow> (string \<times> (string \<times> string) list) list \<Rightarrow> 'j workflow_row \<Rightarrow>
     exn + ('j workflow_row \<times> nat)" where
  "complete_steps g v n [] inst = Inr (inst, n)"
| "complete_steps g v n ((element, data) # rest) inst =
     (case complete_step g v n element data inst of
        Inl e \<Rightarrow> Inl e | Inr inst' \<Rightarrow> complete_steps g v (Suc n) rest inst')"

text \<open>
  The instance, whether it is new (added to the session but not yet written), and the count of the
  clock after it.
\<close>

definition ensure_for_release ::
    "'j engine \<Rightarrow> env \<Rightarrow> release \<Rightarrow> 'j approval_world \<Rightarrow> exn + ('j workflow_row \<times> bool \<times> nat)" where
  "ensure_for_release g v r w =
     (case find_row wr_release_id (r_id r) (ad_workflows (aw_db w)) of
        Some inst \<Rightarrow> Inr (inst, False, aw_ticks w)
      | None \<Rightarrow>
          (case complete_steps g v (Suc (aw_ticks w)) (catch_up_steps (r_status r))
                  (create_for_release g v (aw_ticks w) (r_id r)) of
             Inl e \<Rightarrow> Inl e
           | Inr (inst, n) \<Rightarrow> Inr (inst, True, n)))"

text \<open>
  Writing the instance at the flush: the INSERT of a new one, whose primary key may be taken by
  now, or the UPDATE of the two columns that changed.
\<close>

definition store_workflow :: "'j workflow_row \<Rightarrow> bool \<Rightarrow> 'j workflow_row list \<Rightarrow> exn + 'j workflow_row list" where
  "store_workflow inst created ws =
     (if created
      then (if wr_release_id inst \<in> wr_release_id ` set ws then Inl IntegrityError else Inr (ws @ [inst]))
      else Inr (upd_row wr_release_id (wr_release_id inst)
             (\<lambda>row. row\<lparr>wr_state_json := wr_state_json inst, wr_updated_at := wr_updated_at inst\<rparr>) ws))"

subsection \<open>A transition\<close>

text \<open>Element and data of each use case.\<close>

fun transition_step :: "transition \<Rightarrow> string \<times> (string \<times> string) list" where
  "transition_step (Approve who) = (''Task_approval_gate'', [(''decision'', ''approved'')])"
| "transition_step (Reject who msg) = (''Task_approval_gate'', [(''decision'', ''rejected'')])"
| "transition_step Start = (''Task_start_deployment'', [])"
| "transition_step (FinishWith s msg) =
     (''Task_execute_deployment'', [(''deployment_result'', lower (rs_value s))])"

text \<open>What a session holds between its reads and its write.\<close>

record 'j job =
  jb_transition :: transition
  jb_at :: time
  jb_release :: release
  jb_instance :: "'j workflow_row"
  jb_created :: bool

text \<open>The first half of \<open>run_transition\<close>: \<open>now\<close>, the release, its workflow instance.\<close>

definition transition_load ::
    "'j engine \<Rightarrow> env \<Rightarrow> string \<Rightarrow> transition \<Rightarrow> 'j approval_world \<Rightarrow> (exn + 'j job) \<times> 'j approval_world" where
  "transition_load g v i t w =
     (case repo_find w i of
        None \<Rightarrow> (Inl ReleaseNotFoundError, a_tick w)
      | Some r \<Rightarrow>
          (case ensure_for_release g v r (a_tick w) of
             Inl e \<Rightarrow> (Inl e, a_tick w)
           | Inr (inst, created, n) \<Rightarrow>
               (Inr \<lparr>jb_transition = t, jb_at = a_now v w, jb_release = r, jb_instance = inst,
                     jb_created = created\<rparr>, w\<lparr>aw_ticks := n\<rparr>)))"

definition reload :: "string \<Rightarrow> 'j approval_world \<Rightarrow> exn + release" where
  "reload i w = (case repo_find w i of None \<Rightarrow> Inl ReleaseNotFoundError | Some r \<Rightarrow> Inr r)"

text \<open>
  The second half: the entity's own check, the compare-and-swap on what is committed by now, the
  step of the workflow, the commit and the reading of what the database holds.
\<close>

definition transition_store ::
    "'j engine \<Rightarrow> env \<Rightarrow> 'j job \<Rightarrow> 'j approval_world \<Rightarrow> (exn + release) \<times> 'j approval_world" where
  "transition_store g v jb w =
     (case rel_apply (jb_transition jb) (jb_at jb) (jb_release jb) of
        Inl e \<Rightarrow> (Inl e, w)
      | Inr (expected, r') \<Rightarrow>
          (case save_transition r' expected (ad_releases (aw_db w)) of
             None \<Rightarrow>
               (case reload (r_id r') w of
                  Inl e \<Rightarrow> (Inl e, w)
                | Inr now \<Rightarrow> (Inl (InvalidReleaseTransitionError (r_status now) expected), w))
           | Some rs \<Rightarrow>
               (case transition_step (jb_transition jb) of
                  (element, data) \<Rightarrow>
                    (case complete_step g v (aw_ticks w) element data (jb_instance jb) of
                       Inl e \<Rightarrow> (Inl e, w)
                     | Inr inst \<Rightarrow>
                         (case store_workflow inst (jb_created jb) (ad_workflows (aw_db w)) of
                            Inl e \<Rightarrow> (Inl e, w)
                          | Inr ws \<Rightarrow>
                              (let w' = a_tick (w\<lparr>aw_db := \<lparr>ad_releases = rs, ad_workflows = ws\<rparr>\<rparr>)
                               in (reload (r_id r') w', w')))))))"

definition run_transition ::
    "'j engine \<Rightarrow> env \<Rightarrow> string \<Rightarrow> transition \<Rightarrow> 'j approval_world \<Rightarrow> (exn + release) \<times> 'j approval_world" where
  "run_transition g v i t w =
     (case transition_load g v i t w of
        (Inl e, w1) \<Rightarrow> (Inl e, w1)
      | (Inr jb, w1) \<Rightarrow> transition_store g v jb w1)"

definition approve_release where "approve_release g v i who = run_transition g v i (Approve who)"

definition reject_release where "reject_release g v i who msg = run_transition g v i (Reject who msg)"

definition start_deployment where "start_deployment g v i = run_transition g v i Start"

definition finish_deployment where "finish_deployment g v i s msg = run_transition g v i (FinishWith s msg)"

subsection \<open>Creating and reading\<close>

text \<open>The release and its workflow are created in one transaction.\<close>

definition create_release ::
    "'j engine \<Rightarrow> env \<Rightarrow> string \<Rightarrow> string \<Rightarrow> string \<Rightarrow> string \<Rightarrow> string option \<Rightarrow> 'j approval_world \<Rightarrow>
     (exn + release) \<times> 'j approval_world" where
  "create_release g v repository branch sha environment message w =
     (let r = release_create (v_uuid v (aw_ticks w)) repository branch sha environment message (a_now v w);
          w1 = a_tick w
      in case repo_add r (ad_releases (aw_db w1)) of
           None \<Rightarrow> (Inl DuplicateReleaseError, w1)
         | Some rs \<Rightarrow>
             (case store_workflow (create_for_release g v (aw_ticks w1) (r_id r)) True (ad_workflows (aw_db w1)) of
                Inl e \<Rightarrow> (Inl e, w1)
              | Inr ws \<Rightarrow> (Inr r, a_tick (w1\<lparr>aw_db := \<lparr>ad_releases = rs, ad_workflows = ws\<rparr>\<rparr>))))"

definition get_release :: "string \<Rightarrow> 'j approval_world \<Rightarrow> exn + release" where
  "get_release i w = reload i w"

record workflow_step =
  wst_element_id :: string
  wst_name :: string
  wst_state :: string

record workflow_view =
  wv_release_id :: string
  wv_definition_id :: string
  wv_is_complete :: bool
  wv_current :: "string list"
  wv_completed :: "string list"
  wv_steps :: "workflow_step list"
  wv_updated_at :: time

text \<open>\<open>{task.name: task}\<close>: the last task of a name wins.\<close>

definition named_task :: "string \<Rightarrow> wf_task list \<Rightarrow> wf_task option" where
  "named_task name ts = List.find (\<lambda>t. wt_name t = name) (rev ts)"

definition task_datum :: "string \<Rightarrow> wf_task \<Rightarrow> string option" where
  "task_datum key t = map_of (wt_data t) key"

definition completed_flows :: "wf_task list \<Rightarrow> string list" where
  "completed_flows completed =
     (if named_task ''StartEvent_release_created'' completed \<noteq> None then [''Flow_start_approval''] else []) @
     (case named_task ''Task_approval_gate'' completed of None \<Rightarrow> []
      | Some t \<Rightarrow> [''Flow_approval_decision'',
          if task_datum ''decision'' t = Some ''approved'' then ''Flow_decision_approved''
          else ''Flow_decision_rejected'']) @
     (if named_task ''Task_start_deployment'' completed \<noteq> None then [''Flow_deployment_started''] else []) @
     (case named_task ''Task_execute_deployment'' completed of None \<Rightarrow> []
      | Some t \<Rightarrow> [''Flow_deployment_result'',
          if task_datum ''deployment_result'' t = Some ''success'' then ''Flow_result_success''
          else ''Flow_result_failed''])"

definition step_state :: "string list \<Rightarrow> string list \<Rightarrow> wf_task list \<Rightarrow> string \<Rightarrow> string" where
  "step_state current completed tasks element =
     (if element \<in> set current then ''ACTIVE'' else if element \<in> set completed then ''COMPLETED''
      else if named_task element tasks = None then ''SKIPPED'' else ''PENDING'')"

definition workflow_view_of :: "'j engine \<Rightarrow> string \<Rightarrow> 'j workflow_row \<Rightarrow> workflow_view" where
  "workflow_view_of g i inst =
     (let tasks = eg_tasks g (wr_state_json inst);
          current = filter (\<lambda>s. s \<in> fst ` set MILESTONE_NAMES) (ready_names g (wr_state_json inst));
          done_tasks = filter (\<lambda>t. wt_state t = COMPLETED) tasks;
          completed = filter (\<lambda>s. s \<in> fst ` set MILESTONE_NAMES) (map wt_name done_tasks) @
            completed_flows done_tasks
      in \<lparr>wv_release_id = i, wv_definition_id = wr_definition_id inst,
          wv_is_complete = eg_is_completed g (wr_state_json inst), wv_current = current,
          wv_completed = sort (remdups completed),
          wv_steps = map (\<lambda>(e, name). \<lparr>wst_element_id = e, wst_name = name,
             wst_state = step_state current completed tasks e\<rparr>) MILESTONE_NAMES,
          wv_updated_at = wr_updated_at inst\<rparr>)"

text \<open>The state of a workflow, as the route asks for it: an instance that was missing is committed.\<close>

definition get_workflow_state ::
    "'j engine \<Rightarrow> env \<Rightarrow> string \<Rightarrow> 'j approval_world \<Rightarrow> (exn + workflow_view) \<times> 'j approval_world" where
  "get_workflow_state g v i w =
     (case repo_find w i of
        None \<Rightarrow> (Inl ReleaseNotFoundError, w)
      | Some r \<Rightarrow>
          (case ensure_for_release g v r w of
             Inl e \<Rightarrow> (Inl e, w)
           | Inr (inst, created, n) \<Rightarrow>
               (if \<not> created then (Inr (workflow_view_of g i inst), w)
                else (case store_workflow inst True (ad_workflows (aw_db w)) of
                        Inl e \<Rightarrow> (Inl e, w)
                      | Inr ws \<Rightarrow> (Inr (workflow_view_of g i inst),
                          w\<lparr>aw_db := (aw_db w)\<lparr>ad_workflows := ws\<rparr>, aw_ticks := n\<rparr>)))))"

end
