(* ===== verification/Approval_Laws.thy ===== *)
theory Approval_Laws
  imports Approval
begin

section \<open>What approving releases guarantees\<close>

subsection \<open>The diagram\<close>

text \<open>
  app/workflows/bpmn/release_approval.bpmn: the sequence flows with their conditions, in the order
  of the file, and the default flow of each exclusive gateway.
\<close>

definition BPMN_FLOWS :: "(string \<times> string \<times> (string \<times> string) option) list" where
  "BPMN_FLOWS =
     [(''StartEvent_release_created'', ''Task_approval_gate'', None),
      (''Task_approval_gate'', ''Gateway_approval_decision'', None),
      (''Gateway_approval_decision'', ''Task_start_deployment'', Some (''decision'', ''approved'')),
      (''Gateway_approval_decision'', ''EndEvent_rejected'', None),
      (''Task_start_deployment'', ''Task_execute_deployment'', None),
      (''Task_execute_deployment'', ''Gateway_deployment_result'', None),
      (''Gateway_deployment_result'', ''EndEvent_success'', Some (''deployment_result'', ''success'')),
      (''Gateway_deployment_result'', ''EndEvent_failed'', None)]"

definition BPMN_GATEWAYS :: "string list" where
  "BPMN_GATEWAYS = [''Gateway_approval_decision'', ''Gateway_deployment_result'']"

definition USER_TASKS :: "string list" where
  "USER_TASKS = [''Task_approval_gate'', ''Task_start_deployment'', ''Task_execute_deployment'']"

text \<open>The first flow out of an element whose condition holds; the default is the one without.\<close>

definition flow_open :: "(string \<times> string) list \<Rightarrow> (string \<times> string) option \<Rightarrow> bool" where
  "flow_open data c = (case c of None \<Rightarrow> True | Some (key, value) \<Rightarrow> map_of data key = Some value)"

definition follow :: "(string \<times> string) list \<Rightarrow> string \<Rightarrow> string" where
  "follow data e =
     (case filter (\<lambda>(src, tgt, c). src = e \<and> flow_open data c) BPMN_FLOWS of
        [] \<Rightarrow> e | (src, tgt, c) # _ \<Rightarrow> tgt)"

definition next_element :: "(string \<times> string) list \<Rightarrow> string \<Rightarrow> string" where
  "next_element data e =
     (let tgt = follow data e in if tgt \<in> set BPMN_GATEWAYS then follow data tgt else tgt)"

text \<open>Where the workflow of a release stands.\<close>

fun position :: "release_status \<Rightarrow> string" where
  "position RS_PENDING = ''Task_approval_gate''"
| "position RS_APPROVED = ''Task_start_deployment''"
| "position RS_REJECTED = ''EndEvent_rejected''"
| "position RS_DEPLOYING = ''Task_execute_deployment''"
| "position RS_SUCCESS = ''EndEvent_success''"
| "position RS_FAILED = ''EndEvent_failed''"

lemmas diagram_defs = next_element_def follow_def flow_open_def BPMN_FLOWS_def BPMN_GATEWAYS_def

lemma next_elements [simp]:
  "next_element [] ''StartEvent_release_created'' = ''Task_approval_gate''"
  "next_element [(''decision'', ''approved'')] ''Task_approval_gate'' = ''Task_start_deployment''"
  "next_element [(''decision'', ''rejected'')] ''Task_approval_gate'' = ''EndEvent_rejected''"
  "next_element [] ''Task_start_deployment'' = ''Task_execute_deployment''"
  "next_element [(''deployment_result'', ''success'')] ''Task_execute_deployment'' = ''EndEvent_success''"
  "next_element [(''deployment_result'', ''failed'')] ''Task_execute_deployment'' = ''EndEvent_failed''"
  by code_simp+

lemma lower_results [simp]:
  "lower (rs_value RS_SUCCESS) = ''success''" "lower (rs_value RS_FAILED) = ''failed''"
  by code_simp+

subsection \<open>An engine that runs the diagram\<close>

text \<open>
  What the code relies on: a new workflow waits at the first task; a workflow whose token is at a
  user task has exactly that task ready; running it moves the token along the diagram. \<open>at p j\<close> says
  that the token of state \<open>j\<close> is at element \<open>p\<close>.
\<close>

locale bpmn_engine =
  fixes g :: "'j engine" and at :: "string \<Rightarrow> 'j \<Rightarrow> bool"
  assumes starts: "at (next_element [] ''StartEvent_release_created'') (eg_create g n)"
    and waits: "at p j \<Longrightarrow> p \<in> set USER_TASKS \<Longrightarrow> ready_names g j = [p]"
    and ends: "at p j \<Longrightarrow> p \<notin> set USER_TASKS \<Longrightarrow> ready_names g j = []"
    and runs: "at p j \<Longrightarrow> p \<in> set USER_TASKS \<Longrightarrow> at (next_element data p) (eg_run g n j p data)"
begin

lemma complete_step_at:
  assumes "at p (wr_state_json inst)" and "p \<in> set USER_TASKS"
  shows "\<exists>inst'. complete_step g v n p data inst = Inr inst' \<and> wr_release_id inst' = wr_release_id inst \<and>
    at (next_element data p) (wr_state_json inst')"
  using waits [OF assms] runs [OF assms] by (simp add: complete_step_def)

text \<open>A transition that the release allows is a step its workflow waits for.\<close>

lemma transition_step_at:
  assumes "rel_apply t now r = Inr (expected, r')" and "at (position (r_status r)) (wr_state_json inst)"
  shows "\<exists>inst'. complete_step g v n (fst (transition_step t)) (snd (transition_step t)) inst = Inr inst' \<and>
    wr_release_id inst' = wr_release_id inst \<and> at (position (r_status r')) (wr_state_json inst')"
proof -
  have "fst (transition_step t) = position (r_status r) \<and> position (r_status r) \<in> set USER_TASKS \<and>
      next_element (snd (transition_step t)) (position (r_status r)) = position (r_status r')"
    using assms(1)
    by (cases t) (auto simp: rel_defs FINISHED_STATUSES_def USER_TASKS_def simp del: rs_value.simps split: if_splits)
  then show ?thesis
    using complete_step_at [OF assms(2), of v n "snd (transition_step t)"] by simp
qed

lemma catch_up_at:
  "\<exists>inst n'. complete_steps g v n (catch_up_steps s) (create_for_release g v m i) = Inr (inst, n') \<and>
     wr_release_id inst = i \<and> at (position s) (wr_state_json inst)"
proof -
  define c where "c = create_for_release g v m i"
  have c: "at ''Task_approval_gate'' (wr_state_json c)" "wr_release_id c = i"
    using starts by (simp_all add: c_def create_for_release_def)
  have step: "\<exists>inst'. complete_step g v n p data inst = Inr inst' \<and> wr_release_id inst' = i \<and>
      at (next_element data p) (wr_state_json inst')"
    if "at p (wr_state_json inst)" "p \<in> set USER_TASKS" "wr_release_id inst = i" for p n data inst
    using complete_step_at [OF that(1,2)] that(3) by simp
  have one: "\<exists>x n'. complete_steps g v n (catch_up_steps RS_REJECTED) c = Inr (x, n') \<and> wr_release_id x = i \<and>
        at ''EndEvent_rejected'' (wr_state_json x)" for n
    using step [OF c(1) _ c(2), of n "[(''decision'', ''rejected'')]"]
    by (auto simp: catch_up_steps_def USER_TASKS_def)
  obtain a where a: "complete_step g v n ''Task_approval_gate'' [(''decision'', ''approved'')] c = Inr a"
      "wr_release_id a = i" "at ''Task_start_deployment'' (wr_state_json a)"
    using step [OF c(1) _ c(2), of n "[(''decision'', ''approved'')]"] by (auto simp: USER_TASKS_def)
  obtain b where b: "complete_step g v (Suc n) ''Task_start_deployment'' [] a = Inr b"
      "wr_release_id b = i" "at ''Task_execute_deployment'' (wr_state_json b)"
    using step [OF a(3) _ a(2), of "Suc n" "[]"] by (auto simp: USER_TASKS_def)
  have d: "\<exists>x. complete_step g v (Suc (Suc n)) ''Task_execute_deployment'' [(''deployment_result'', y)] b = Inr x \<and>
      wr_release_id x = i \<and> at (next_element [(''deployment_result'', y)] ''Task_execute_deployment'') (wr_state_json x)" for y
    using step [OF b(3) _ b(2), of "Suc (Suc n)" "[(''deployment_result'', y)]"] by (auto simp: USER_TASKS_def)
  show ?thesis
    unfolding c_def [symmetric]
    using c one [of n] a b d [of "''success''"] d [of "''failed''"]
    by (cases s) (auto simp: catch_up_steps_def)
qed

end

subsection \<open>The token game\<close>

text \<open>
  The diagram read as a token game is such an engine: its state is where the token is and which
  elements were completed, with their data.
\<close>

record token_state =
  tk_at :: string
  tk_done :: "(string \<times> (string \<times> string) list) list"

definition token_tasks :: "token_state \<Rightarrow> wf_task list" where
  "token_tasks j =
     map (\<lambda>(e, data). \<lparr>wt_name = e, wt_state = COMPLETED, wt_data = data\<rparr>) (tk_done j) @
     (if tk_at j \<in> set USER_TASKS then [\<lparr>wt_name = tk_at j, wt_state = READY, wt_data = []\<rparr>]
      else [\<lparr>wt_name = tk_at j, wt_state = COMPLETED, wt_data = []\<rparr>])"

definition token_engine :: "token_state engine" where
  "token_engine =
     \<lparr>eg_create = (\<lambda>n. \<lparr>tk_at = next_element [] ''StartEvent_release_created'',
                      tk_done = [(''StartEvent_release_created'', [])]\<rparr>),
      eg_tasks = token_tasks,
      eg_run = (\<lambda>n j e data. \<lparr>tk_at = next_element data e, tk_done = tk_done j @ [(e, data)]\<rparr>),
      eg_is_completed = (\<lambda>j. tk_at j \<notin> set USER_TASKS)\<rparr>"

interpretation token: bpmn_engine token_engine "\<lambda>p j. tk_at j = p"
proof unfold_locales
  fix p and j :: token_state
  have r: "ready_names token_engine j = (if tk_at j \<in> set USER_TASKS then [tk_at j] else [])"
    by (auto simp: ready_names_def token_engine_def token_tasks_def filter_empty_conv)
  show "tk_at j = p \<Longrightarrow> p \<in> set USER_TASKS \<Longrightarrow> ready_names token_engine j = [p]"
    "tk_at j = p \<Longrightarrow> p \<notin> set USER_TASKS \<Longrightarrow> ready_names token_engine j = []"
    using r by auto
qed (simp_all add: token_engine_def)

subsection \<open>Concurrent sessions\<close>

text \<open>
  Sessions of several clients over one database. A client arrives (the first half of a transition),
  and stores later; between the two any other step may happen. Creating a release and reading a
  workflow are single steps.
\<close>

record 'j approval_system =
  sy_world :: "'j approval_world"
  sy_jobs :: "nat \<Rightarrow> 'j job option"

inductive approval_step :: "'j engine \<Rightarrow> env \<Rightarrow> 'j approval_system \<Rightarrow> 'j approval_system \<Rightarrow> bool" for g v where
  arrive: "transition_load g v i t (sy_world s) = (Inr jb, w') \<Longrightarrow>
    approval_step g v s (s\<lparr>sy_world := w', sy_jobs := (sy_jobs s)(c \<mapsto> jb)\<rparr>)"
| refuse: "transition_load g v i t (sy_world s) = (Inl e, w') \<Longrightarrow> approval_step g v s (s\<lparr>sy_world := w'\<rparr>)"
| store: "sy_jobs s c = Some jb \<Longrightarrow> transition_store g v jb (sy_world s) = (x, w') \<Longrightarrow>
    approval_step g v s (s\<lparr>sy_world := w', sy_jobs := (sy_jobs s)(c := None)\<rparr>)"
| create: "create_release g v rp br sha en msg (sy_world s) = (x, w') \<Longrightarrow>
    approval_step g v s (s\<lparr>sy_world := w'\<rparr>)"
| observe: "get_workflow_state g v i (sy_world s) = (y, w') \<Longrightarrow> approval_step g v s (s\<lparr>sy_world := w'\<rparr>)"

subsection \<open>The invariant\<close>

text \<open>How far a release has come: every arrow of its state machine goes up.\<close>

fun progress :: "release_status \<Rightarrow> nat" where
  "progress RS_PENDING = 0"
| "progress RS_APPROVED = 1"
| "progress RS_REJECTED = 1"
| "progress RS_DEPLOYING = 2"
| "progress RS_SUCCESS = 3"
| "progress RS_FAILED = 3"

lemma rel_arrow_progress: "rel_arrow s s' \<Longrightarrow> progress s < progress s'"
  by (auto elim: rel_arrow.cases)

definition releases_inv :: "release list \<Rightarrow> bool" where
  "releases_inv rs \<longleftrightarrow> keyed r_id rs \<and> releases_unique rs \<and> (\<forall>r \<in> set rs. rel_inv r)"

definition approval_db_inv :: "(string \<Rightarrow> 'j \<Rightarrow> bool) \<Rightarrow> 'j approval_db \<Rightarrow> bool" where
  "approval_db_inv at db \<longleftrightarrow>
     releases_inv (ad_releases db) \<and> keyed wr_release_id (ad_workflows db) \<and>
     (\<forall>inst \<in> set (ad_workflows db). \<exists>r. find_row r_id (wr_release_id inst) (ad_releases db) = Some r \<and>
        at (position (r_status r)) (wr_state_json inst))"

text \<open>
  Before any client arrives the database is consistent; a release may lack a workflow, as the
  releases do that are older than the workflows.
\<close>

definition approval_start :: "(string \<Rightarrow> 'j \<Rightarrow> bool) \<Rightarrow> 'j approval_system \<Rightarrow> bool" where
  "approval_start at s \<longleftrightarrow> approval_db_inv at (aw_db (sy_world s)) \<and> sy_jobs s = (\<lambda>_. None)"

definition approval_reachable ::
    "'j engine \<Rightarrow> (string \<Rightarrow> 'j \<Rightarrow> bool) \<Rightarrow> env \<Rightarrow> 'j approval_system \<Rightarrow> bool" where
  "approval_reachable g at v s \<longleftrightarrow> (\<exists>s0. approval_start at s0 \<and> (approval_step g v)\<^sup>*\<^sup>* s0 s)"

text \<open>What a session read is still true, or the release has moved on since.\<close>

definition job_inv :: "(string \<Rightarrow> 'j \<Rightarrow> bool) \<Rightarrow> 'j approval_db \<Rightarrow> 'j job \<Rightarrow> bool" where
  "job_inv at db jb \<longleftrightarrow>
     wr_release_id (jb_instance jb) = r_id (jb_release jb) \<and>
     at (position (r_status (jb_release jb))) (wr_state_json (jb_instance jb)) \<and>
     (\<exists>cur. find_row r_id (r_id (jb_release jb)) (ad_releases db) = Some cur \<and>
        (cur = jb_release jb \<or> progress (r_status cur) > progress (r_status (jb_release jb)))) \<and>
     (jb_created jb \<or> r_id (jb_release jb) \<in> wr_release_id ` set (ad_workflows db))"

definition system_inv :: "(string \<Rightarrow> 'j \<Rightarrow> bool) \<Rightarrow> 'j approval_system \<Rightarrow> bool" where
  "system_inv at s \<longleftrightarrow>
     approval_db_inv at (aw_db (sy_world s)) \<and>
     (\<forall>c jb. sy_jobs s c = Some jb \<longrightarrow> job_inv at (aw_db (sy_world s)) jb)"

text \<open>The database moves on: releases stay, unchanged or further.\<close>

definition moves_on :: "release list \<Rightarrow> release list \<Rightarrow> bool" where
  "moves_on rs rs' \<longleftrightarrow>
     (\<forall>i r. find_row r_id i rs = Some r \<longrightarrow>
        (\<exists>r'. find_row r_id i rs' = Some r' \<and> (r' = r \<or> progress (r_status r) < progress (r_status r'))))"

lemma moves_on_refl [simp]: "moves_on rs rs"
  by (simp add: moves_on_def)

lemma moves_on_trans:
  assumes "moves_on rs rs'" and "moves_on rs' rs''"
  shows "moves_on rs rs''"
  unfolding moves_on_def
proof (intro allI impI)
  fix i r
  assume "find_row r_id i rs = Some r"
  then obtain r' where r': "find_row r_id i rs' = Some r'" "r' = r \<or> progress (r_status r) < progress (r_status r')"
    using assms(1) by (auto simp: moves_on_def)
  then obtain r'' where "find_row r_id i rs'' = Some r''" "r'' = r' \<or> progress (r_status r') < progress (r_status r'')"
    using assms(2) by (auto simp: moves_on_def)
  then show "\<exists>r''. find_row r_id i rs'' = Some r'' \<and> (r'' = r \<or> progress (r_status r) < progress (r_status r''))"
    using r'(2) by (elim disjE) auto
qed

text \<open>A database goes on when its releases move on and no workflow disappears.\<close>

definition goes_on :: "'j approval_db \<Rightarrow> 'j approval_db \<Rightarrow> bool" where
  "goes_on db db' \<longleftrightarrow> moves_on (ad_releases db) (ad_releases db') \<and>
     wr_release_id ` set (ad_workflows db) \<subseteq> wr_release_id ` set (ad_workflows db')"

lemma goes_on_refl [simp]: "goes_on db db"
  by (simp add: goes_on_def)

lemma goes_on_trans: "goes_on db db' \<Longrightarrow> goes_on db' db'' \<Longrightarrow> goes_on db db''"
  unfolding goes_on_def by (meson moves_on_trans subset_trans)

lemma job_inv_goes_on:
  assumes "job_inv at db jb" and "goes_on db db'"
  shows "job_inv at db' jb"
proof -
  obtain cur where cur: "find_row r_id (r_id (jb_release jb)) (ad_releases db) = Some cur"
      "cur = jb_release jb \<or> progress (r_status cur) > progress (r_status (jb_release jb))"
    using assms(1) by (auto simp: job_inv_def)
  obtain r' where r': "find_row r_id (r_id (jb_release jb)) (ad_releases db') = Some r'"
      "r' = cur \<or> progress (r_status cur) < progress (r_status r')"
    using assms(2) cur(1) unfolding moves_on_def goes_on_def by blast
  have "r' = jb_release jb \<or> progress (r_status r') > progress (r_status (jb_release jb))"
    using cur(2) r'(2) by (elim disjE) simp_all
  then show ?thesis using assms r'(1) by (auto simp: job_inv_def goes_on_def)
qed

subsection \<open>The compare-and-swap\<close>

lemma mutable_values_keeps [simp]:
  "r_id (mutable_values r row) = r_id row" "release_key (mutable_values r row) = release_key row"
  "r_status (mutable_values r row) = r_status r"
  by (simp_all add: mutable_values_def release_key_def)

text \<open>Written onto the row it was computed from, an entity is the new row.\<close>

lemma mutable_values_apply: "rel_apply t now r = Inr (expected, r') \<Longrightarrow> mutable_values r' r = r'"
  by (cases t) (auto simp: mutable_values_def rel_defs split: if_splits)

lemma save_transition_keyed:
  assumes "keyed r_id rs"
  shows "save_transition r expected rs =
    (case find_row r_id (r_id r) rs of
       Some row \<Rightarrow> if r_status row = expected then Some (upd_row r_id (r_id r) (mutable_values r) rs) else None
     | None \<Rightarrow> None)"
proof -
  have eq: "map (\<lambda>row. if r_id row = r_id r \<and> r_status row = expected then mutable_values r row else row) rs =
      upd_row r_id (r_id r) (mutable_values r) rs"
    if "find_row r_id (r_id r) rs = Some row" "r_status row = expected" for row
    unfolding upd_row_def
  proof (rule map_cong [OF refl])
    fix x assume "x \<in> set rs"
    then have "r_id x = r_id r \<Longrightarrow> x = row" using find_row_keyed [OF assms, of x] that(1) by simp
    then show "(if r_id x = r_id r \<and> r_status x = expected then mutable_values r x else x) =
        (if r_id x = r_id r then mutable_values r x else x)" using that(2) by auto
  qed
  show ?thesis
    using eq by (simp add: save_transition_def filter_keyed [OF assms] split: option.split)
qed

lemma upd_release_inv:
  assumes "releases_inv rs" and "find_row r_id (r_id r) rs = Some row" and "rel_inv (mutable_values r row)"
  shows "releases_inv (upd_row r_id (r_id r) (mutable_values r) rs)"
proof -
  have k: "keyed r_id rs" using assms(1) by (simp add: releases_inv_def)
  have "map release_key (upd_row r_id (r_id r) (mutable_values r) rs) = map release_key rs"
    by (simp add: upd_row_def)
  moreover have "rel_inv x" if x: "x \<in> set (upd_row r_id (r_id r) (mutable_values r) rs)" for x
  proof -
    obtain y where y: "y \<in> set rs" "x = (if r_id y = r_id r then mutable_values r y else y)"
      using x by (auto simp: upd_row_def)
    then have "r_id y = r_id r \<Longrightarrow> y = row" using find_row_keyed [OF k y(1)] assms(2) by simp
    then show ?thesis using y assms(1,3) by (auto simp: releases_inv_def split: if_splits)
  qed
  ultimately show ?thesis using assms(1) by (simp add: releases_inv_def releases_unique_def)
qed

lemma upd_moves_on:
  assumes "find_row r_id (r_id r) rs = Some row" and "progress (r_status row) < progress (r_status r)"
  shows "moves_on rs (upd_row r_id (r_id r) (mutable_values r) rs)"
  unfolding moves_on_def
proof (intro allI impI)
  fix i x assume "find_row r_id i rs = Some x"
  then show "\<exists>r'. find_row r_id i (upd_row r_id (r_id r) (mutable_values r) rs) = Some r' \<and>
      (r' = x \<or> progress (r_status x) < progress (r_status r'))"
    using assms by (cases "i = r_id r") auto
qed

lemma store_workflow_inv:
  assumes ws: "keyed wr_release_id ws" "store_workflow inst created ws = Inr ws'" and x: "x \<in> set ws'"
  shows "(wr_release_id x \<noteq> wr_release_id inst \<and> x \<in> set ws) \<or>
    (wr_release_id x = wr_release_id inst \<and> wr_state_json x = wr_state_json inst)"
  using assms by (auto simp: store_workflow_def upd_row_def image_iff split: if_splits) metis

lemma store_workflow_keyed:
  "keyed wr_release_id ws \<Longrightarrow> store_workflow inst created ws = Inr ws' \<Longrightarrow> keyed wr_release_id ws'"
  by (auto simp: store_workflow_def split: if_splits) (simp add: keyed_def)

lemma store_workflow_ids:
  "store_workflow inst created ws = Inr ws' \<Longrightarrow> wr_release_id ` set ws \<subseteq> wr_release_id ` set ws'"
  "store_workflow inst created ws = Inr ws' \<Longrightarrow> created \<or> wr_release_id inst \<in> wr_release_id ` set ws \<Longrightarrow>
     wr_release_id inst \<in> wr_release_id ` set ws'"
proof -
  have u: "wr_release_id ` set (upd_row wr_release_id k (\<lambda>row. row\<lparr>wr_state_json := a, wr_updated_at := b\<rparr>) ws) =
      wr_release_id ` set ws" for k a b
    by (simp flip: set_map)
  show "store_workflow inst created ws = Inr ws' \<Longrightarrow> wr_release_id ` set ws \<subseteq> wr_release_id ` set ws'"
    "store_workflow inst created ws = Inr ws' \<Longrightarrow> created \<or> wr_release_id inst \<in> wr_release_id ` set ws \<Longrightarrow>
       wr_release_id inst \<in> wr_release_id ` set ws'"
    using u by (auto simp: store_workflow_def split: if_splits)
qed

subsection \<open>What each step does\<close>

context bpmn_engine
begin

lemma ensure_at:
  assumes "approval_db_inv at (aw_db w)" and "find_row r_id i (ad_releases (aw_db w)) = Some r"
  shows "\<exists>inst n. ensure_for_release g v r w =
      Inr (inst, find_row wr_release_id (r_id r) (ad_workflows (aw_db w)) = None, n) \<and>
    wr_release_id inst = r_id r \<and> at (position (r_status r)) (wr_state_json inst)"
proof (cases "find_row wr_release_id (r_id r) (ad_workflows (aw_db w))")
  case None
  then show ?thesis
    using catch_up_at [of v "Suc (aw_ticks w)" "r_status r" "aw_ticks w" "r_id r"]
    by (auto simp: ensure_for_release_def)
next
  case (Some inst)
  note inst = find_row_Some [OF Some]
  have "r_id r = i" using assms(2) by (auto dest: find_row_Some)
  then have "at (position (r_status r)) (wr_state_json inst)"
    using assms inst by (auto simp: approval_db_inv_def)
  then show ?thesis using Some inst by (simp add: ensure_for_release_def)
qed

lemma load_outcome:
  assumes "approval_db_inv at (aw_db w)" and "transition_load g v i t w = (y, w')"
  shows "aw_db w' = aw_db w \<and>
    (case repo_find w i of
       None \<Rightarrow> y = Inl ReleaseNotFoundError
     | Some r \<Rightarrow> \<exists>jb. y = Inr jb \<and> jb_transition jb = t \<and> jb_at jb = a_now v w \<and> jb_release jb = r \<and>
         job_inv at (aw_db w) jb \<and> jb_created jb = (find_row wr_release_id i (ad_workflows (aw_db w)) = None))"
proof (cases "repo_find w i")
  case None
  then show ?thesis using assms(2) by (auto simp: transition_load_def a_tick_def)
next
  case (Some r)
  then have r: "find_row r_id i (ad_releases (aw_db w)) = Some r" "r_id r = i"
    by (auto simp: repo_find_def dest: find_row_Some)
  obtain inst n where e: "ensure_for_release g v r (a_tick w) =
        Inr (inst, find_row wr_release_id (r_id r) (ad_workflows (aw_db w)) = None, n)"
      "wr_release_id inst = r_id r" "at (position (r_status r)) (wr_state_json inst)"
    using ensure_at [of "a_tick w" i r v] assms(1) r(1) by (auto simp: a_tick_def)
  then show ?thesis
    using assms(2) Some r by (auto simp: transition_load_def job_inv_def find_row_None)
qed

lemma store_outcome:
  assumes db: "approval_db_inv at (aw_db w)" and j: "job_inv at (aw_db w) jb"
    and st: "transition_store g v jb w = (x, w')"
  shows "(\<exists>e. x = Inl e \<and> w' = w \<and>
       (rel_apply (jb_transition jb) (jb_at jb) (jb_release jb) = Inl e \<or>
        (\<exists>cur expected r'. rel_apply (jb_transition jb) (jb_at jb) (jb_release jb) = Inr (expected, r') \<and>
           repo_find w (r_id (jb_release jb)) = Some cur \<and> r_status cur \<noteq> expected \<and>
           e = InvalidReleaseTransitionError (r_status cur) expected) \<or>
        e = IntegrityError \<and> jb_created jb \<and>
          find_row wr_release_id (r_id (jb_release jb)) (ad_workflows (aw_db w)) \<noteq> None)) \<or>
    (\<exists>expected r' inst ws. rel_apply (jb_transition jb) (jb_at jb) (jb_release jb) = Inr (expected, r') \<and>
       repo_find w (r_id (jb_release jb)) = Some (jb_release jb) \<and> x = Inr r' \<and>
       w' = a_tick (w\<lparr>aw_db := \<lparr>ad_releases = upd_row r_id (r_id r') (mutable_values r') (ad_releases (aw_db w)),
                               ad_workflows = ws\<rparr>\<rparr>) \<and>
       wr_release_id inst = r_id r' \<and> at (position (r_status r')) (wr_state_json inst) \<and>
       store_workflow inst (jb_created jb) (ad_workflows (aw_db w)) = Inr ws)"
proof (cases "rel_apply (jb_transition jb) (jb_at jb) (jb_release jb)")
  case (Inl e)
  then show ?thesis using st by (auto simp: transition_store_def)
next
  case (Inr p)
  then obtain expected r' where ap: "rel_apply (jb_transition jb) (jb_at jb) (jb_release jb) = Inr (expected, r')"
    by (cases p) auto
  have k: "keyed r_id (ad_releases (aw_db w))" using db by (simp add: approval_db_inv_def releases_inv_def)
  have id: "r_id r' = r_id (jb_release jb)" "r_status (jb_release jb) = expected"
    using rel_apply_identity [OF ap] rel_apply_arrow [OF ap] by simp_all
  obtain cur where cur: "find_row r_id (r_id r') (ad_releases (aw_db w)) = Some cur"
      "cur = jb_release jb \<or> progress (r_status cur) > progress (r_status (jb_release jb))"
    using j id(1) by (auto simp: job_inv_def)
  show ?thesis
  proof (cases "r_status cur = expected")
    case False
    then show ?thesis
      using st ap cur id
      by (auto simp: transition_store_def save_transition_keyed [OF k] reload_def repo_find_def)
  next
    case True
    then have c: "cur = jb_release jb" using cur(2) id(2) by auto
    obtain inst where inst: "complete_step g v (aw_ticks w) (fst (transition_step (jb_transition jb)))
          (snd (transition_step (jb_transition jb))) (jb_instance jb) = Inr inst"
        "wr_release_id inst = wr_release_id (jb_instance jb)" "at (position (r_status r')) (wr_state_json inst)"
      using transition_step_at [OF ap, of "jb_instance jb"] j by (auto simp: job_inv_def)
    have wid: "wr_release_id inst = r_id r'" using inst(2) j id(1) by (simp add: job_inv_def)
    have step: "transition_store g v jb w =
        (case store_workflow inst (jb_created jb) (ad_workflows (aw_db w)) of
           Inl e \<Rightarrow> (Inl e, w)
         | Inr ws \<Rightarrow> (Inr r', a_tick (w\<lparr>aw_db := \<lparr>ad_releases =
             upd_row r_id (r_id r') (mutable_values r') (ad_releases (aw_db w)), ad_workflows = ws\<rparr>\<rparr>)))"
      using ap cur(1) True inst(1) mutable_values_apply [OF ap] c
      by (simp add: transition_store_def save_transition_keyed [OF k] case_prod_beta reload_def repo_find_def
          a_tick_def Let_def split: sum.split)
    show ?thesis
    proof (cases "store_workflow inst (jb_created jb) (ad_workflows (aw_db w))")
      case (Inl e)
      then have "e = IntegrityError \<and> jb_created jb \<and>
          find_row wr_release_id (r_id (jb_release jb)) (ad_workflows (aw_db w)) \<noteq> None"
        using wid id(1) by (auto simp: store_workflow_def find_row_None split: if_splits)
      then show ?thesis using step Inl st by simp
    next
      case (Inr ws)
      then show ?thesis
        using step st ap cur(1) c id(1) wid inst(3) by (auto simp: repo_find_def)
    qed
  qed
qed

text \<open>A workflow written at the place of its release keeps the database consistent.\<close>

lemma db_inv_store:
  assumes db: "approval_db_inv at db" and ws: "store_workflow inst created (ad_workflows db) = Inr ws"
    and rs: "releases_inv rs" "find_row r_id (wr_release_id inst) rs = Some r"
    and st: "at (position (r_status r)) (wr_state_json inst)"
    and same: "\<And>i x. i \<noteq> wr_release_id inst \<Longrightarrow> find_row r_id i (ad_releases db) = Some x \<Longrightarrow> find_row r_id i rs = Some x"
  shows "approval_db_inv at \<lparr>ad_releases = rs, ad_workflows = ws\<rparr>"
proof -
  have k: "keyed wr_release_id (ad_workflows db)" using db by (simp add: approval_db_inv_def)
  have "\<exists>r. find_row r_id (wr_release_id x) rs = Some r \<and> at (position (r_status r)) (wr_state_json x)"
    if x: "x \<in> set ws" for x
  proof (cases "wr_release_id x = wr_release_id inst")
    case True
    then show ?thesis using store_workflow_inv [OF k ws x] rs(2) st by auto
  next
    case False
    then obtain y where "find_row r_id (wr_release_id x) (ad_releases db) = Some y"
        "at (position (r_status y)) (wr_state_json x)"
      using store_workflow_inv [OF k ws x] db by (auto simp: approval_db_inv_def)
    then show ?thesis using same [OF False] by blast
  qed
  then show ?thesis using rs(1) store_workflow_keyed [OF k ws] by (simp add: approval_db_inv_def)
qed

lemma store_inv:
  assumes db: "approval_db_inv at (aw_db w)" and j: "job_inv at (aw_db w) jb"
    and st: "transition_store g v jb w = (x, w')"
  shows "approval_db_inv at (aw_db w') \<and> goes_on (aw_db w) (aw_db w')"
  using store_outcome [OF assms]
proof (elim disjE exE conjE)
  fix expected r' inst ws
  assume ap: "rel_apply (jb_transition jb) (jb_at jb) (jb_release jb) = Inr (expected, r')"
    and cur: "repo_find w (r_id (jb_release jb)) = Some (jb_release jb)"
    and w': "w' = a_tick (w\<lparr>aw_db := \<lparr>ad_releases = upd_row r_id (r_id r') (mutable_values r') (ad_releases (aw_db w)),
                               ad_workflows = ws\<rparr>\<rparr>)"
    and inst: "wr_release_id inst = r_id r'" "at (position (r_status r')) (wr_state_json inst)"
      "store_workflow inst (jb_created jb) (ad_workflows (aw_db w)) = Inr ws"
  have id: "r_id r' = r_id (jb_release jb)" using rel_apply_identity [OF ap] by simp
  have f: "find_row r_id (r_id r') (ad_releases (aw_db w)) = Some (jb_release jb)"
    using cur by (simp add: id repo_find_def)
  have pr: "progress (r_status (jb_release jb)) < progress (r_status r')"
    using rel_apply_arrow [OF ap] rel_arrow_progress by auto
  have mv: "mutable_values r' (jb_release jb) = r'" by (rule mutable_values_apply [OF ap])
  have ri: "releases_inv (ad_releases (aw_db w))" using db by (simp add: approval_db_inv_def)
  have "rel_inv (jb_release jb)" using ri find_row_Some [OF f] by (auto simp: releases_inv_def)
  then have "releases_inv (upd_row r_id (r_id r') (mutable_values r') (ad_releases (aw_db w)))"
    using upd_release_inv [OF ri f] mv rel_inv_apply [OF _ ap] by simp
  then have "approval_db_inv at \<lparr>ad_releases = upd_row r_id (r_id r') (mutable_values r') (ad_releases (aw_db w)),
      ad_workflows = ws\<rparr>"
    by (rule db_inv_store [OF db inst(3)]) (use f inst(1,2) mv in auto)
  then show ?thesis
    unfolding w' using upd_moves_on [OF f pr] store_workflow_ids(1) [OF inst(3)] by (simp add: a_tick_def goes_on_def)
qed (use db in simp_all)

lemma create_inv:
  assumes db: "approval_db_inv at (aw_db w)" and cr: "create_release g v rp br sha en msg w = (x, w')"
  shows "approval_db_inv at (aw_db w') \<and> goes_on (aw_db w) (aw_db w')"
proof -
  define r where "r = release_create (v_uuid v (aw_ticks w)) rp br sha en msg (a_now v w)"
  define inst where "inst = create_for_release g v (Suc (aw_ticks w)) (r_id r)"
  have st: "at (position (r_status r)) (wr_state_json inst)" "wr_release_id inst = r_id r"
    using starts by (simp_all add: inst_def create_for_release_def r_def release_create_def)
  show ?thesis
  proof (cases "repo_add r (ad_releases (aw_db w))")
    case None
    then show ?thesis using cr db by (auto simp: create_release_def Let_def r_def [symmetric] a_tick_def)
  next
    case (Some rs)
    then have rs: "rs = ad_releases (aw_db w) @ [r]" "keyed r_id rs" "releases_unique rs"
      by (auto simp: repo_add_def Let_def split: if_splits)
    have ri: "releases_inv (ad_releases (aw_db w))" using db by (simp add: approval_db_inv_def)
    have rsi: "releases_inv rs"
      using rs ri rel_inv_create by (auto simp: releases_inv_def r_def)
    have fresh: "find_row r_id (r_id r) (ad_releases (aw_db w)) = None"
      using rs(1,2) by (auto simp: keyed_def find_row_None)
    have old: "find_row r_id i rs = Some y" if "find_row r_id i (ad_releases (aw_db w)) = Some y" for i y
      using that by (simp add: rs(1) find_row_append)
    have new: "find_row r_id (r_id r) rs = Some r" by (simp add: rs(1) find_row_append fresh)
    show ?thesis
    proof (cases "store_workflow inst True (ad_workflows (aw_db w))")
      case (Inl e)
      then show ?thesis using cr db Some
        by (auto simp: create_release_def Let_def r_def [symmetric] inst_def [symmetric] a_tick_def)
    next
      case (Inr ws)
      have "approval_db_inv at \<lparr>ad_releases = rs, ad_workflows = ws\<rparr>"
        using db_inv_store [OF db Inr rsi, of r] new st old by simp
      moreover have "goes_on (aw_db w) \<lparr>ad_releases = rs, ad_workflows = ws\<rparr>"
        using old store_workflow_ids(1) [OF Inr] by (simp add: goes_on_def moves_on_def)
      ultimately show ?thesis using cr Some Inr
        by (auto simp: create_release_def Let_def r_def [symmetric] inst_def [symmetric] a_tick_def)
    qed
  qed
qed

lemma observe_inv:
  assumes db: "approval_db_inv at (aw_db w)" and ob: "get_workflow_state g v i w = (x, w')"
  shows "approval_db_inv at (aw_db w') \<and> goes_on (aw_db w) (aw_db w')"
proof (cases "repo_find w i")
  case None
  then show ?thesis using ob db by (auto simp: get_workflow_state_def)
next
  case (Some r)
  then have f: "find_row r_id i (ad_releases (aw_db w)) = Some r" "r_id r = i"
    by (auto simp: repo_find_def dest: find_row_Some)
  obtain inst n where e: "ensure_for_release g v r w =
        Inr (inst, find_row wr_release_id (r_id r) (ad_workflows (aw_db w)) = None, n)"
      "wr_release_id inst = r_id r" "at (position (r_status r)) (wr_state_json inst)"
    using ensure_at [OF db f(1)] by blast
  show ?thesis
  proof (cases "store_workflow inst True (ad_workflows (aw_db w))")
    case (Inl err)
    then show ?thesis using ob Some e(1) db by (auto simp: get_workflow_state_def split: if_splits)
  next
    case (Inr ws)
    have eq: "(aw_db w)\<lparr>ad_workflows := ws\<rparr> = \<lparr>ad_releases = ad_releases (aw_db w), ad_workflows = ws\<rparr>"
      by (cases "aw_db w") simp
    have inv: "approval_db_inv at ((aw_db w)\<lparr>ad_workflows := ws\<rparr>)"
      unfolding eq by (rule db_inv_store [OF db Inr]) (use db f e in \<open>auto simp: approval_db_inv_def\<close>)
    have go: "goes_on (aw_db w) ((aw_db w)\<lparr>ad_workflows := ws\<rparr>)"
      using store_workflow_ids(1) [OF Inr] by (simp add: goes_on_def)
    have "w' = w \<or> w' = w\<lparr>aw_db := (aw_db w)\<lparr>ad_workflows := ws\<rparr>, aw_ticks := n\<rparr>"
      using ob Some e(1) Inr by (auto simp: get_workflow_state_def split: if_splits)
    then show ?thesis using inv go db by (elim disjE) simp_all
  qed
qed

subsection \<open>Reachable states\<close>

lemma step_inv:
  assumes "approval_step g v s s'" and "system_inv at s"
  shows "system_inv at s' \<and> goes_on (aw_db (sy_world s)) (aw_db (sy_world s'))"
proof -
  have db: "approval_db_inv at (aw_db (sy_world s))" using assms(2) by (simp add: system_inv_def)
  have jobs: "job_inv at (aw_db (sy_world s)) jb" if "sy_jobs s c = Some jb" for c jb
    using assms(2) that by (simp add: system_inv_def)
  have keep: "system_inv at (s\<lparr>sy_world := w', sy_jobs := js\<rparr>)"
    if "approval_db_inv at (aw_db w')" "goes_on (aw_db (sy_world s)) (aw_db w')"
      "\<forall>c jb. js c = Some jb \<longrightarrow> sy_jobs s c = Some jb \<or> job_inv at (aw_db w') jb" for w' js
    using that jobs job_inv_goes_on unfolding system_inv_def by fastforce
  show ?thesis
    using assms(1)
  proof cases
    case (arrive i t jb w' c)
    have w': "aw_db w' = aw_db (sy_world s)" "job_inv at (aw_db (sy_world s)) jb"
      using load_outcome [OF db arrive(2)] by (auto split: option.splits)
    show ?thesis unfolding arrive(1) using keep [of w' "(sy_jobs s)(c \<mapsto> jb)"] w' db by auto
  next
    case (refuse i t e w')
    have w': "aw_db w' = aw_db (sy_world s)" using load_outcome [OF db refuse(2)] by simp
    show ?thesis unfolding refuse(1) using keep [of w' "sy_jobs s"] w' db by simp
  next
    case (store c jb x w')
    note si = store_inv [OF db jobs [OF store(2)] store(3)]
    show ?thesis unfolding store(1) using keep [of w' "(sy_jobs s)(c := None)"] si by simp
  next
    case (create rp br sha en msg x w')
    note ci = create_inv [OF db create(2)]
    show ?thesis unfolding create(1) using keep [of w' "sy_jobs s"] ci by simp
  next
    case (observe i y w')
    note oi = observe_inv [OF db observe(2)]
    show ?thesis unfolding observe(1) using keep [of w' "sy_jobs s"] oi by simp
  qed
qed

lemma steps_inv:
  assumes "(approval_step g v)\<^sup>*\<^sup>* s s'" and "system_inv at s"
  shows "system_inv at s' \<and> goes_on (aw_db (sy_world s)) (aw_db (sy_world s'))"
  using assms
proof (induction rule: rtranclp_induct)
  case (step y z)
  then show ?case using step_inv [OF step(2)] goes_on_trans by blast
qed simp

lemma reachable_inv: "approval_reachable g at v s \<Longrightarrow> system_inv at s"
  using steps_inv by (fastforce simp: approval_reachable_def approval_start_def system_inv_def)

end

end
