(* ===== verification/Approval_Properties.thy ===== *)
theory Approval_Properties
  imports Approval_Laws
begin

section \<open>Properties of release approval\<close>

subsection \<open>A concrete run\<close>

text \<open>The token game as engine, an environment that counts, and one client.\<close>

definition count_env :: env where
  "count_env = \<lparr>v_clock = (\<lambda>n. int n), v_uuid = (\<lambda>n. replicate (Suc n) CHR ''u''),
     v_http = (\<lambda>tr rq. HttpTimeout), v_decrypt = (\<lambda>s. None), v_digest = (\<lambda>s. []), v_retry_attempts = 1,
     v_deployment_timeout = 0, v_ci_source_wait = 0, v_publish_timeout = 0, v_schedule_claim_timeout = 0,
     v_poll_interval = 0, v_batch_size = 1, v_scheduler_batch_size = 1, v_smtp = (\<lambda>tr m. False), v_actor = None, v_actor_source = []\<rparr>"

definition empty_approval :: "token_state approval_world" where
  "empty_approval = \<lparr>aw_db = \<lparr>ad_releases = [], ad_workflows = []\<rparr>, aw_ticks = 0\<rparr>"

definition one_release :: "token_state approval_world" where
  "one_release = snd (create_release token_engine count_env ''r'' ''b'' ''s'' ''e'' None empty_approval)"

definition no_clients :: "token_state approval_world \<Rightarrow> token_state approval_system" where
  "no_clients w = \<lparr>sy_world = w, sy_jobs = (\<lambda>_. None)\<rparr>"

text \<open>Two clients have read the release while it was PENDING: one approves, the other rejects.\<close>

definition approver :: "token_state job" where
  "approver = projr (fst (transition_load token_engine count_env ''u'' (Approve None) one_release))"

definition rejecter :: "token_state job" where
  "rejecter = projr (fst (transition_load token_engine count_env ''u'' (Reject None None)
     (snd (transition_load token_engine count_env ''u'' (Approve None) one_release))))"

definition both_read :: "token_state approval_system" where
  "both_read = \<lparr>sy_world = snd (transition_load token_engine count_env ''u'' (Reject None None)
        (snd (transition_load token_engine count_env ''u'' (Approve None) one_release))),
     sy_jobs = (\<lambda>_. None)(0 \<mapsto> approver, 1 \<mapsto> rejecter)\<rparr>"

lemma both_read_reachable: "approval_reachable token_engine (\<lambda>p j. tk_at j = p) count_env both_read"
proof -
  let ?s0 = "no_clients empty_approval"
  let ?s1 = "no_clients one_release"
  obtain w2 where l1: "transition_load token_engine count_env ''u'' (Approve None) one_release = (Inr approver, w2)"
  proof -
    have "\<not> isl (fst (transition_load token_engine count_env ''u'' (Approve None) one_release))" by code_simp
    then show ?thesis using that unfolding approver_def
      by (cases "transition_load token_engine count_env ''u'' (Approve None) one_release") (auto simp: isl_def)
  qed
  obtain w3 where l2: "transition_load token_engine count_env ''u'' (Reject None None) w2 = (Inr rejecter, w3)"
  proof -
    have "\<not> isl (fst (transition_load token_engine count_env ''u'' (Reject None None)
        (snd (transition_load token_engine count_env ''u'' (Approve None) one_release))))" by code_simp
    then show ?thesis using that l1 unfolding rejecter_def
      by (cases "transition_load token_engine count_env ''u'' (Reject None None) w2") (auto simp: isl_def)
  qed
  have a: "approval_step token_engine count_env ?s0 ?s1"
    using approval_step.create [of token_engine count_env "''r''" "''b''" "''s''" "''e''" None ?s0]
    by (auto simp: no_clients_def one_release_def) (metis prod.collapse)
  have b: "approval_step token_engine count_env ?s1 (?s1\<lparr>sy_world := w2, sy_jobs := (sy_jobs ?s1)(0 \<mapsto> approver)\<rparr>)"
    by (rule approval_step.arrive [where i = "''u''" and t = "Approve None"]) (simp add: no_clients_def l1)
  let ?s2 = "?s1\<lparr>sy_world := w2, sy_jobs := (sy_jobs ?s1)(0 \<mapsto> approver)\<rparr>"
  have c: "approval_step token_engine count_env ?s2 (?s2\<lparr>sy_world := w3, sy_jobs := (sy_jobs ?s2)(1 \<mapsto> rejecter)\<rparr>)"
    by (rule approval_step.arrive [where i = "''u''" and t = "Reject None None"]) (simp add: l2)
  have e: "?s2\<lparr>sy_world := w3, sy_jobs := (sy_jobs ?s2)(1 \<mapsto> rejecter)\<rparr> = both_read"
    by (simp add: both_read_def l1 l2 no_clients_def)
  have "(approval_step token_engine count_env)\<^sup>*\<^sup>* ?s0 both_read"
    using a b c unfolding e by (meson rtranclp.rtrancl_into_rtrancl rtranclp.rtrancl_refl)
  moreover have "approval_start (\<lambda>p j. tk_at j = p) ?s0"
    by (simp add: approval_start_def no_clients_def empty_approval_def approval_db_inv_def releases_inv_def
        releases_unique_def keyed_def)
  ultimately show ?thesis unfolding approval_reachable_def by blast
qed

subsection \<open>Every stored transition is atomic\<close>


text \<open>One of the two stores: the approval goes through.\<close>

lemma approver_read: "sy_jobs both_read 0 = Some approver" "sy_jobs both_read 1 = Some rejecter"
  by (simp_all add: both_read_def)






subsection \<open>Along the arrows\<close>

text \<open>
  One arrow of the release's state machine: PENDING is approved or rejected, an APPROVED release starts
  deploying, a DEPLOYING one succeeds or fails. What identifies the release stays.
\<close>

definition one_arrow :: "release \<Rightarrow> release \<Rightarrow> bool" where
  "one_arrow r r' \<longleftrightarrow>
     (r_status r, r_status r') \<in> {(RS_PENDING, RS_APPROVED), (RS_PENDING, RS_REJECTED), (RS_APPROVED, RS_DEPLOYING),
        (RS_DEPLOYING, RS_SUCCESS), (RS_DEPLOYING, RS_FAILED)} \<and>
     (r_id r', r_repository r', r_branch r', r_commit_sha r', r_environment r', r_created_at r') =
       (r_id r, r_repository r, r_branch r, r_commit_sha r, r_environment r, r_created_at r)"

lemma rel_apply_one_arrow: "rel_apply t now r = Inr (expected, r') \<Longrightarrow> one_arrow r r'"
  using rel_apply_arrow [of t now r expected r'] rel_apply_identity [of t now r expected r']
  by (auto simp: one_arrow_def elim: rel_arrow.cases)

lemma create_keeps:
  assumes "create_release g v rp br sha en msg w = (x, w')" and "repo_find w i = Some r"
  shows "repo_find w' i = Some r"
  using assms
  by (auto simp: create_release_def Let_def repo_find_def repo_add_def a_tick_def find_row_append
      split: option.splits sum.splits if_splits)

lemma observe_keeps:
  assumes "get_workflow_state g v i w = (x, w')"
  shows "ad_releases (aw_db w') = ad_releases (aw_db w)"
  using assms by (auto simp: get_workflow_state_def split: option.splits sum.splits prod.splits if_splits)

context bpmn_engine
begin

lemma step_one_arrow:
  assumes "approval_step g v s s'" and "system_inv at s" and "repo_find (sy_world s) i = Some r"
  shows "\<exists>r'. repo_find (sy_world s') i = Some r' \<and> (r' = r \<or> one_arrow r r')"
proof -
  have db: "approval_db_inv at (aw_db (sy_world s))" using assms(2) by (simp add: system_inv_def)
  show ?thesis
    using assms(1)
  proof cases
    case (arrive k t jb w' c)
    then show ?thesis using load_outcome [OF db arrive(2)] assms(3) by (simp add: repo_find_def)
  next
    case (refuse k t e w')
    then show ?thesis using load_outcome [OF db refuse(2)] assms(3) by (simp add: repo_find_def)
  next
    case (store c jb x w')
    have j: "job_inv at (aw_db (sy_world s)) jb" using assms(2) store(2) by (simp add: system_inv_def)
    show ?thesis
      using store_outcome [OF db j store(3)]
    proof (elim disjE exE conjE)
      fix expected r' inst ws
      assume ap: "rel_apply (jb_transition jb) (jb_at jb) (jb_release jb) = Inr (expected, r')"
        and cur: "repo_find (sy_world s) (r_id (jb_release jb)) = Some (jb_release jb)"
        and w': "w' = a_tick (sy_world s\<lparr>aw_db := \<lparr>ad_releases = upd_row r_id (r_id r') (mutable_values r')
               (ad_releases (aw_db (sy_world s))), ad_workflows = ws\<rparr>\<rparr>)"
      have "r_id r' = r_id (jb_release jb)" using rel_apply_identity [OF ap] by simp
      then show ?thesis
        using assms(3) cur rel_apply_one_arrow [OF ap] mutable_values_apply [OF ap] unfolding store(1)
        by (cases "i = r_id r'") (simp_all add: repo_find_def w' a_tick_def)
    qed (use assms(3) store(1) in simp_all)
  next
    case (create rp br sha en msg x w')
    then show ?thesis using create_keeps [OF create(2) assms(3)] by simp
  next
    case (observe k y w')
    then show ?thesis using observe_keeps [OF observe(2)] assms(3) by (simp add: repo_find_def)
  qed
qed

lemma steps_one_arrow:
  assumes "(approval_step g v)\<^sup>*\<^sup>* s s'" and "system_inv at s" and "repo_find (sy_world s) i = Some r"
  shows "\<exists>r'. repo_find (sy_world s') i = Some r' \<and> one_arrow\<^sup>*\<^sup>* r r'"
  using assms(1)
proof (induction rule: rtranclp_induct)
  case (step y z)
  then obtain r1 where r1: "repo_find (sy_world y) i = Some r1" "one_arrow\<^sup>*\<^sup>* r r1" by blast
  have "system_inv at y" using steps_inv [OF step(1) assms(2)] by simp
  then obtain r' where "repo_find (sy_world z) i = Some r'" "r' = r1 \<or> one_arrow r1 r'"
    using step_one_arrow [OF step(2) _ r1(1)] by blast
  then show ?case using r1(2) by (auto intro: rtranclp.rtrancl_into_rtrancl)
qed (use assms(3) in blast)

end

text \<open>
  C31. The tables stay consistent. In every state that interleaved sessions reach, identifiers and the
  triple of repository, commit and environment are unique, the fields of every release agree with its
  status, every workflow belongs to a release, and its token stands where the status of the release says.
  A release never disappears and only moves along its state machine: any one step of any session leaves
  it as it is or takes it along one arrow (PENDING is approved or rejected, APPROVED starts deploying,
  DEPLOYING succeeds or fails) without changing what identifies it, so that from one state to any later
  one it follows a path of such arrows.
\<close>

theorem approvals_consistent:
  assumes "bpmn_engine g at" and "approval_reachable g at v s" and "(approval_step g v)\<^sup>*\<^sup>* s s'"
    and "approval_step g v s' s''"
  shows "approval_db_inv at (aw_db (sy_world s')) \<and>
    (\<forall>i r. repo_find (sy_world s) i = Some r \<longrightarrow>
       (\<exists>r'. repo_find (sy_world s') i = Some r' \<and> one_arrow\<^sup>*\<^sup>* r r')) \<and>
    (\<forall>i r. repo_find (sy_world s') i = Some r \<longrightarrow>
       (\<exists>r'. repo_find (sy_world s'') i = Some r' \<and> (r' = r \<or> one_arrow r r')))"
proof -
  have s: "system_inv at s" by (rule bpmn_engine.reachable_inv [OF assms(1,2)])
  have s': "system_inv at s'" using bpmn_engine.steps_inv [OF assms(1,3) s] by simp
  show ?thesis
    using s' bpmn_engine.steps_one_arrow [OF assms(1,3) s] bpmn_engine.step_one_arrow [OF assms(1,4) s']
    by (simp add: system_inv_def)
qed

theorem approvals_consistent_witness:
  "approval_db_inv (\<lambda>p j. tk_at j = p) (aw_db (sy_world both_read)) \<and>
   (\<exists>r r'. repo_find (sy_world both_read) ''u'' = Some r \<and> r_status r = RS_PENDING \<and>
      repo_find (snd (transition_store token_engine count_env approver (sy_world both_read))) ''u'' = Some r' \<and>
      r_status r' = RS_APPROVED \<and> one_arrow r r')"
proof -
  obtain x w1 where run: "transition_store token_engine count_env approver (sy_world both_read) = (x, w1)" by force
  let ?s1 = "both_read\<lparr>sy_world := w1, sy_jobs := (sy_jobs both_read)(0 := None)\<rparr>"
  have step: "approval_step token_engine count_env both_read ?s1"
    by (rule approval_step.store [OF approver_read(1) run])
  have st: "map_option r_status (repo_find (sy_world both_read) ''u'') = Some RS_PENDING"
    "map_option r_status (repo_find (snd (transition_store token_engine count_env approver (sy_world both_read))) ''u'') =
      Some RS_APPROVED" by code_simp+
  obtain r r' where r: "repo_find (sy_world both_read) ''u'' = Some r" "r_status r = RS_PENDING"
      "repo_find w1 ''u'' = Some r'" "r_status r' = RS_APPROVED"
    using st run by auto
  show ?thesis
    using approvals_consistent [OF token.bpmn_engine_axioms both_read_reachable rtranclp.rtrancl_refl step] r run
    by fastforce
qed

end
