(* ===== verification/Runtime_Frame.thy ===== *)
theory Runtime_Frame
  imports Session_Laws Orchestrator_Laws
begin

section \<open>Which tables the orchestrator writes\<close>

text \<open>
  The orchestrator and the deployment service write deployments, bundles and events. Any relation
  between tables that such an assignment satisfies holds across every operation: the locale extends
  \<^verbatim>\<open>table_preorder\<close>, and is interpreted on "every other table is the same".
\<close>

locale runtime_relation = table_preorder +
  assumes rel_deployments: "rel T (T\<lparr>t_deployments := ds\<rparr>)"
    and rel_bundles: "rel T (T\<lparr>t_bundles := bs\<rparr>)"
    and rel_events: "rel T (T\<lparr>t_events := es\<rparr>)"
begin

lemma after_upd_dep: "across rel w u \<Longrightarrow> across rel w (upd_dep i f u)"
  unfolding upd_dep_def by (rule after_tables) (rule rel_deployments)

lemma after_upd_bundle: "across rel w u \<Longrightarrow> across rel w (upd_bundle i g u)"
  unfolding upd_bundle_def by (rule after_tables) (rule rel_bundles)

lemma after_upd_release: "across rel w u \<Longrightarrow> across rel w (upd_release r g u)"
  by (cases r) (simp_all add: upd_release_def after_upd_bundle)

lemma after_log: "across rel w u \<Longrightarrow> across rel w (log v r d st k s c m u)"
  unfolding log_def add_event_def by (intro after_tick after_tables rel_events)

lemma after_insert_deployment: "across rel w u \<Longrightarrow> across rel w (insert_deployment d u)"
  unfolding insert_deployment_def by (rule after_tables) (rule rel_deployments)

lemma after_insert_bundle: "across rel w u \<Longrightarrow> across rel w (insert_bundle b u)"
  unfolding insert_bundle_def by (rule after_tables) (rule rel_bundles)

lemmas after_ops = after_upd_dep after_upd_bundle after_upd_release after_log after_insert_deployment
  after_insert_bundle after_tick after_commit after_rollback

lemma after_looks: "across rel w u \<Longrightarrow> looks u u' \<Longrightarrow> across rel w u'"
  using across_trans [OF _ across_still [OF _ unsaved_looks]] by (auto simp: looks_def)

lemma after_reads: "across rel w u \<Longrightarrow> reads u u' \<Longrightarrow> across rel w u'"
  by (rule across_trans [OF _ across_reads])

subsection \<open>The deployment service\<close>

lemma after_svc:
  assumes "across rel w u"
  shows "across rel w (svc_succeed v i r u)" and "across rel w (svc_fail v i st code msg r u)"
    and "across rel w (svc_cancel v i reason r u)" and "across rel w (svc_reset_for_retry v i r u)"
    and "across rel w (svc_record_promotion v i n st r u)" and "across rel w (svc_mark_unconfirmed v i code st r u)"
    and "across rel w (svc_record_poll_failure v i code st r u)" and "across rel w (svc_clear_poll_failure v i st r u)"
    and "across rel w (snd (svc_claim v i r u))"
  using assms
  by (auto simp: svc_succeed_def svc_fail_def svc_cancel_def svc_reset_for_retry_def svc_record_promotion_def
      svc_mark_unconfirmed_def svc_record_poll_failure_def svc_clear_poll_failure_def svc_claim_def Let_def
      split: option.split intro!: after_ops)

lemma after_lookup:
  assumes "across rel w u"
  shows "across rel w (snd (case for_deployment u d of Inl e \<Rightarrow> (Inl e, u)
      | Inr c \<Rightarrow> find_promotion_build v c n tg u))"
    and "across rel w (snd (case for_deployment u d of Inl e \<Rightarrow> (Inl e, u) | Inr c \<Rightarrow> get_build v c m u))"
  using assms after_reads [OF assms find_promotion_build_reads] after_reads [OF assms get_build_reads]
  by (auto split: sum.split)

lemma after_svc_reconcile:
  assumes "across rel w u"
  shows "across rel w (svc_reconcile v i st r u)"
proof (cases "find_dep u i")
  case (Some d)
  obtain x w1 where x: "(case for_deployment u d of Inl e \<Rightarrow> (Inl e, u)
      | Inr c \<Rightarrow> find_promotion_build v c (d_source_build_number d) (d_target d) u) = (x, w1)" by force
  have "across rel w w1"
    using after_lookup(1) [OF assms, where d = d and v = v] using x by (metis snd_conv)
  then show ?thesis
    by (auto simp: svc_reconcile_def Some x Let_def split: sum.split option.split intro!: after_svc after_ops)
qed (simp add: svc_reconcile_def assms)

lemma after_svc_apply_build: "across rel w u \<Longrightarrow> across rel w (svc_apply_build v i b st r u)"
  by (auto simp: svc_apply_build_def Let_def split: option.split intro!: after_svc after_ops)

lemma after_svc_poll:
  assumes "across rel w u"
  shows "across rel w (svc_poll v i n st r u)"
proof (cases "find_dep u i")
  case (Some d)
  obtain x w1 where x: "(case for_deployment u d of Inl e \<Rightarrow> (Inl e, u) | Inr c \<Rightarrow> get_build v c n u) = (x, w1)"
    by force
  have "across rel w w1" using after_lookup(2) [OF assms, where d = d and v = v] using x by (metis snd_conv)
  then show ?thesis
    by (auto simp: svc_poll_def Some x split: sum.split intro!: after_svc after_svc_apply_build)
qed (simp add: svc_poll_def assms)

lemma after_svc_refresh: "across rel w u \<Longrightarrow> across rel w (svc_refresh v i r u)"
  by (auto simp: svc_refresh_def Let_def split: option.split
      intro!: after_svc after_svc_reconcile after_svc_poll after_tick)

lemma after_dispatches: "across rel w u \<Longrightarrow> dispatches u u' \<Longrightarrow> across rel w u'"
  using across_trans [OF _ across_still [OF _ unsaved_dispatches]] by (auto simp: dispatches_def)

lemma after_outcome: "across rel w u \<Longrightarrow> across rel w (snd (svc_promote_outcome v i st r x u))"
  by (auto simp: svc_promote_outcome_def split: sum.split option.split exn.split intro!: after_svc after_commit)

lemma after_svc_promote:
  assumes "across rel w u"
  shows "across rel w (snd (svc_promote v i r u))"
proof (cases "find_dep u i")
  case (Some d)
  obtain ok w1 where c: "svc_claim v i r u = (ok, w1)" by force
  have w1: "across rel w w1" using after_svc(9) [OF assms, of v i r] c by simp
  have "across rel w (snd (svc_promote_outcome v i st r x w2))" if "svc_dispatch v d1 comp w1 = (x, w2)" for st d1 comp x w2
    using after_outcome [OF after_dispatches [OF w1 svc_dispatch_dispatches]] that by (metis snd_conv)
  then show ?thesis
    using assms w1
    by (auto simp: svc_promote_def Some c Let_def split: sum.split option.split prod.split bool.split)
qed (simp add: svc_promote_def assms)

lemma after_svc_create: "across rel w u \<Longrightarrow> across rel w (snd (svc_create v c b tg bid rq u))"
  by (auto simp: svc_create_def Let_def split: sum.split intro!: after_ops)

subsection \<open>The orchestrator\<close>

lemma after_cancel_waiting: "across rel w u \<Longrightarrow> across rel w (cancel_waiting v b reason ids u)"
  by (induction ids arbitrary: u) (auto split: option.split intro!: after_svc)

lemma after_fail_bundle: "across rel w u \<Longrightarrow> across rel w (fail_bundle v b d ids u)"
  by (auto simp: fail_bundle_def Let_def intro!: after_ops after_cancel_waiting)

lemma after_finish_success: "across rel w u \<Longrightarrow> across rel w (finish_success v b u)"
  by (auto simp: finish_success_def Let_def intro!: after_ops)

lemma after_advance_step: "across rel w u \<Longrightarrow> across rel w (snd (advance_step v b i d u))"
  by (auto simp: advance_step_def intro!: after_svc_refresh after_svc_promote)

lemma after_advance_walk: "across rel w u \<Longrightarrow> across rel w (snd (advance_walk v b steps ids u))"
proof (induction ids arbitrary: u)
  case (Cons i ids)
  show ?case
  proof (cases "find_dep u i")
    case (Some d)
    obtain x w1 where x: "advance_step v b i d u = (x, w1)" by force
    have "across rel w w1" using after_advance_step [OF Cons.prems, of v b i d] x by simp
    then show ?thesis
      using Cons.IH by (auto simp: Some x split: sum.split option.split intro!: after_fail_bundle)
  qed (simp add: Cons.prems)
qed (simp add: after_finish_success)

lemma after_advance_and_commit: "across rel w u \<Longrightarrow> across rel w (snd (advance_and_commit v b u))"
proof -
  assume u: "across rel w u"
  obtain x w1 where x: "advance v b u = (x, w1)" by force
  have "across rel w w1" using after_advance_walk [OF u] x unfolding advance_def by (metis snd_conv)
  then show ?thesis by (auto simp: advance_and_commit_def x split: sum.split intro!: after_commit)
qed

lemma after_refresh_bundle: "across rel w u \<Longrightarrow> across rel w (snd (refresh_bundle v b u))"
  by (auto simp: refresh_bundle_def split: sum.split intro!: after_advance_and_commit)

lemma after_prepare_standalone:
  assumes "across rel w u"
  shows "across rel w (snd (prepare_standalone v c b tg rq att u))"
proof -
  obtain x w1 where x: "svc_create v c b tg None rq u = (x, w1)" by force
  have "across rel w w1" using after_svc_create [OF assms, of v c b tg None rq] x by simp
  then show ?thesis
    using assms
    by (auto simp: prepare_standalone_def x Let_def set_attachment_def split: sum.split option.split intro!: after_ops)
qed

lemma after_promote_standalone:
  assumes "across rel w u"
  shows "across rel w (snd (promote_standalone v c n tg rq att u))"
proof -
  obtain x w1 where x: "validate_promotable v c n u = (x, w1)" by force
  have w1: "across rel w w1" using after_reads [OF assms validate_promotable_reads, of v c n] x by simp
  show ?thesis
  proof (cases x)
    case (Inr b)
    obtain y w2 where y: "prepare_standalone v c b (target_for c (py_or tg (project_default_target u c))) rq att w1 = (y, w2)"
      by force
    have "across rel w w2" using after_prepare_standalone [OF w1] y by (metis snd_conv)
    then have "across rel w w2" "\<And>i. across rel w (snd (svc_promote v i None (commit w2)))"
      by (auto intro!: after_svc_promote after_commit)
    then show ?thesis
      by (auto simp: promote_standalone_def Let_def x Inr y split: sum.split prod.split) (metis snd_conv)+
  qed (simp add: promote_standalone_def Let_def x w1)
qed

lemma after_refresh_standalone:
  assumes "across rel w u"
  shows "across rel w (snd (refresh_standalone v i u))"
proof (cases "find_dep u i")
  case (Some d)
  obtain x w1 where x: "(if d_status d = DS_WAITING then svc_promote v i None u
      else (Inr (), svc_refresh v i None u)) = (x, w1)" by force
  have "across rel w (snd (if d_status d = DS_WAITING then svc_promote v i None u else (Inr (), svc_refresh v i None u)))"
    using assms by (auto intro!: after_svc_promote after_svc_refresh)
  then have "across rel w w1" unfolding x by simp
  then show ?thesis
    using assms
    by (auto simp: refresh_standalone_def get_deployment_def Some x Let_def split: sum.split intro!: after_ops)
qed (simp add: refresh_standalone_def get_deployment_def assms)

lemma after_create_steps: "across rel w u \<Longrightarrow> across rel w (snd (create_steps v b tg rq sel u))"
proof (induction sel arbitrary: u)
  case (Cons s sel)
  obtain c bld where s: "s = (c, bld)" by force
  obtain x w1 where x: "svc_create v c bld (target_for c tg) (Some b) rq u = (x, w1)" by force
  have "across rel w w1" using after_svc_create [OF Cons.prems] x by (metis snd_conv)
  then show ?case by (auto simp: s x Let_def split: sum.split intro!: Cons.IH after_log)
qed simp

lemma after_create_bundle:
  assumes "across rel w u"
  shows "across rel w (snd (create_bundle v q att given ex rq u))"
proof (cases "lookup_project u (bq_project_id q)")
  case p: (Inr p)
  let ?tg = "py_or (bq_target q) (p_default_target p)"
  show ?thesis
  proof (cases "selected_components u p q")
    case sel: (Inr sel)
    obtain x w1 where x: "validate_selection v ?tg ex rq sel u = (x, w1)" by force
    have w1: "across rel w w1" using after_reads [OF assms validate_selection_reads] x by (metis snd_conv)
    show ?thesis
    proof (cases x)
      case (Inr validated)
      define w2 where "w2 = tick (tick (tick (tick w1)))"
      define b where "b = new_bundle v w1 given p ?tg (map (c_key \<circ> fst) validated) (bq_requested_by q) att"
      obtain y w3 where y: "create_steps v (b_id b) ?tg (bq_requested_by q) validated (insert_bundle b w2) = (y, w3)"
        by force
      have w2: "across rel w w2" unfolding w2_def by (intro after_tick w1)
      have "across rel w w3" using after_create_steps [OF after_insert_bundle [OF w2]] y by (metis snd_conv)
      then show ?thesis
        using w2 unfolding create_bundle_def p sum.case sel Let_def x Inr prod.case
          w2_def [symmetric] b_def [symmetric] y
        by (auto split: sum.split intro!: after_ops after_advance_and_commit)
    qed (simp add: create_bundle_def p sel x Let_def w1)
  qed (simp add: create_bundle_def p assms)
qed (simp add: create_bundle_def assms)

end

text \<open>Every other table.\<close>

definition other_tables :: "tables \<Rightarrow> tables" where
  "other_tables T = T\<lparr>t_deployments := [], t_bundles := [], t_events := []\<rparr>"

definition same_others :: "tables \<Rightarrow> tables \<Rightarrow> bool" where
  "same_others T U \<longleftrightarrow> other_tables U = other_tables T"

interpretation others: runtime_relation same_others
  by unfold_locales (auto simp: same_others_def other_tables_def)

lemma same_others_tables:
  assumes "same_others T U"
  shows "t_projects U = t_projects T" "t_components U = t_components T" "t_connections U = t_connections T"
    "t_schedules U = t_schedules T" "t_outbox U = t_outbox T" "t_plans U = t_plans T" "t_ci_jobs U = t_ci_jobs T"
    "t_ci_tokens U = t_ci_tokens T" "t_ci_policies U = t_ci_policies T" "t_ci_events U = t_ci_events T"
    "t_publish_records U = t_publish_records T"
  using assms by (cases T; cases U; simp add: same_others_def other_tables_def)+

end
