(* ===== verification/Notifications.thy ===== *)
theory Notifications
  imports Runtime_Frame Recovery "HOL-Library.List_Lexorder" "HOL-Library.Char_ord" "HOL-Library.Product_Lexorder"
begin

section \<open>Notifications\<close>

text \<open>
  app/services/notification_service.py: the outbox of mails. A schedule or an event of the
  orchestration queues a mail; the dispatcher claims a mail with a conditional UPDATE, commits the
  claim and only then talks to the SMTP server. Python strings are their UTF-8 bytes here, white
  space is ASCII white space and \<open>casefold\<close> is \<open>lower\<close> on ASCII letters.
\<close>

subsection \<open>Settings and small helpers\<close>

text \<open>
  The settings a dispatcher reads. \<open>ms_local_time\<close> stands for \<open>astimezone(ZoneInfo(name))\<close> and
  \<open>strftime\<close>, which read the time zone data base.
\<close>

record mail_settings =
  ms_host :: "string option"
  ms_managed_targets :: string
  ms_default_recipients :: string
  ms_max_attempts :: nat
  ms_retry_seconds :: int
  ms_claim_timeout :: int
  ms_local_time :: "string \<Rightarrow> time \<Rightarrow> string"

definition NOTIFIABLE_EVENT_TYPES :: "event_type list" where
  "NOTIFIABLE_EVENT_TYPES = [STAGE_FAILED, DEPLOYMENT_CANCELLED, RELEASE_COMPLETED]"

definition utf8 :: "nat list \<Rightarrow> string" where
  "utf8 = map char_of"

definition newline :: string where "newline = [CHR 0x0A]"

fun split_on :: "char \<Rightarrow> string \<Rightarrow> string list" where
  "split_on sep [] = [[]]"
| "split_on sep (c # cs) =
     (case split_on sep cs of
        [] \<Rightarrow> [[c]]
      | part # parts \<Rightarrow> if c = sep then [] # part # parts else (c # part) # parts)"

definition split_recipients :: "string option \<Rightarrow> string list" where
  "split_recipients value =
     (if \<not> py_truthy value then []
      else first_keys (filter (\<lambda>item. item \<noteq> [])
        (map strip (split_on CHR '','' (map (\<lambda>c. if c = CHR '';'' then CHR '','' else c) (the value))))))"

definition merge_recipients :: "string list list \<Rightarrow> string list" where
  "merge_recipients groups = first_keys (map lower (concat groups))"

text \<open>\<open>str.splitlines\<close> on ASCII line ends; a last line end opens no further line.\<close>

definition line_end :: "char \<Rightarrow> bool" where
  "line_end c \<longleftrightarrow> (let n = (of_char c :: nat) in (10 \<le> n \<and> n \<le> 13) \<or> (28 \<le> n \<and> n \<le> 30))"

fun split_lines :: "string \<Rightarrow> string list" where
  "split_lines [] = []"
| "split_lines (c # cs) =
     (if line_end c
      then [] # (case cs of [] \<Rightarrow> []
         | d # ds \<Rightarrow> if c = CHR 0x0D \<and> d = CHR 0x0A then split_lines ds else split_lines (d # ds))
      else (case split_lines cs of [] \<Rightarrow> [[c]] | line # lines \<Rightarrow>
              (case cs of [] \<Rightarrow> [[c]] | d # ds \<Rightarrow> (c # line) # lines)))"

definition BULLET :: string where "BULLET = utf8 [226, 128, 162]"

text \<open>\<open>lstrip("-*o ")\<close>, where the third mark is the three bytes of a bullet.\<close>

fun drop_marks :: "string \<Rightarrow> string" where
  "drop_marks (a # b # c # cs) =
     (if a \<in> {CHR ''-'', CHR ''*'', CHR '' ''} then drop_marks (b # c # cs)
      else if [a, b, c] = BULLET then drop_marks cs else a # b # c # cs)"
| "drop_marks (a # cs) = (if a \<in> {CHR ''-'', CHR ''*'', CHR '' ''} then drop_marks cs else a # cs)"
| "drop_marks [] = []"

text \<open>The Chinese constants of the module, byte by byte.\<close>

definition SUBJECT_SCHEDULE :: string where
  "SUBJECT_SCHEDULE = utf8 [227, 128, 144, 83, 77, 84, 32, 65, 115, 115, 105, 115, 116, 97, 110, 116, 227, 128, 145, 233,
     160, 144, 232, 168, 136, 230, 155, 180, 230, 150, 176, 233, 128, 154, 231, 159, 165]"

definition HEAD_LINE :: string where
  "HEAD_LINE = utf8 [83, 77, 84, 32, 65, 115, 115, 105, 115, 116, 97, 110, 116, 32, 233, 160, 144, 232, 168, 136,
     230, 155, 180, 230, 150, 176]"

definition LABEL_TIME :: string where
  "LABEL_TIME = utf8 [230, 153, 130, 233, 150, 147, 239, 188, 154]"

definition LABEL_IMPACT :: string where
  "LABEL_IMPACT = utf8 [229, 189, 177, 233, 159, 191, 239, 188, 154]"

definition IMPACT :: string where
  "IMPACT = utf8 [233, 160, 144, 232, 168, 136, 32, 51, 48, 32, 126, 32, 54, 48, 32, 229, 136, 134, 233, 144,
     152, 230, 154, 171, 229, 129, 156, 230, 156, 141, 229, 139, 153]"

definition LABEL_VERSION :: string where
  "LABEL_VERSION = utf8 [231, 137, 136, 230, 156, 172, 239, 188, 154]"

definition NOT_GIVEN :: string where
  "NOT_GIVEN = utf8 [230, 156, 170, 230, 143, 144, 228, 190, 155]"

definition LABEL_NOTES :: string where
  "LABEL_NOTES = utf8 [230, 155, 180, 230, 150, 176, 229, 133, 167, 229, 174, 185, 239, 188, 154]"

definition OPEN_PAREN :: string where
  "OPEN_PAREN = utf8 [239, 188, 136]"

definition CLOSE_PAREN :: string where
  "CLOSE_PAREN = utf8 [239, 188, 137]"

definition format_release_notes :: "string option \<Rightarrow> string list" where
  "format_release_notes value =
     (let notes = filter (\<lambda>note. note \<noteq> [])
            (map (\<lambda>line. strip (drop_marks (strip line))) (split_lines (py_or value [])))
      in if notes = [] then [''- '' @ NOT_GIVEN] else map (\<lambda>note. ''- '' @ note) notes)"

text \<open>\<open>attachment_values\<close>: a file name that is empty counts as none.\<close>

definition attachment_values :: "attachment option \<Rightarrow> attachment option" where
  "attachment_values att =
     (case att of None \<Rightarrow> None | Some a \<Rightarrow> if at_filename a = [] then None else Some a)"

subsection \<open>Queueing\<close>

text \<open>The defaults of a new row: the identifier and three readings of the clock.\<close>

definition new_mail ::
    "env \<Rightarrow> world \<Rightarrow> nat option \<Rightarrow> string option \<Rightarrow> string list \<Rightarrow> string \<Rightarrow> string \<Rightarrow> attachment option \<Rightarrow> email" where
  "new_mail v w event schedule recipients subject body att =
     \<lparr>m_id = new_uuid v w, m_workflow_event_id = event, m_schedule_id = schedule,
      m_recipients = join '','' recipients, m_subject = subject, m_body = body,
      m_attachment = attachment_values att, m_status = ES_PENDING, m_attempts = 0,
      m_next_attempt_at = now_of v w, m_claimed_at = None, m_last_error = None,
      m_created_at = now_of v (tick w), m_updated_at = now_of v (tick (tick w)), m_sent_at = None\<rparr>"

definition insert_mail :: "email \<Rightarrow> world \<Rightarrow> world" where
  "insert_mail m w = tick (tick (tick (set_tables (\<lambda>t. t\<lparr>t_outbox := t_outbox t @ [m]\<rparr>) w)))"

definition schedule_subject :: "schedule \<Rightarrow> string" where
  "schedule_subject s =
     (if py_truthy (s_release_version s)
      then SUBJECT_SCHEDULE @ OPEN_PAREN @ the (s_release_version s) @ CLOSE_PAREN else SUBJECT_SCHEDULE)"

definition schedule_body :: "mail_settings \<Rightarrow> schedule \<Rightarrow> string" where
  "schedule_body ms s = join newline
     ([HEAD_LINE, [], LABEL_TIME, ms_local_time ms (s_timezone s) (s_scheduled_for_utc s), [], LABEL_IMPACT,
       IMPACT, [], LABEL_VERSION, py_or (s_release_version s) NOT_GIVEN, [], LABEL_NOTES] @
      format_release_notes (s_release_notes s))"

definition enqueue_schedule_created :: "env \<Rightarrow> mail_settings \<Rightarrow> schedule \<Rightarrow> world \<Rightarrow> nat \<times> world" where
  "enqueue_schedule_created v ms s w =
     (if lower (s_target s) \<notin> set (map lower (split_recipients (Some (ms_managed_targets ms)))) then (0, w)
      else (let own = split_recipients (s_notification_recipients s);
                recipients = (if own = [] then split_recipients (Some (ms_default_recipients ms)) else own)
            in if recipients = [] then (0, w)
               else (1, insert_mail (new_mail v w None (Some (s_id s)) recipients (schedule_subject s)
                      (schedule_body ms s) (s_attachment s)) w)))"

text \<open>The events to tell about: past the cursor, not in the outbox yet, by time.\<close>

definition past_cursor :: "mail_cursor \<Rightarrow> nat \<Rightarrow> workflow_event \<Rightarrow> bool" where
  "past_cursor cur i e \<longleftrightarrow>
     e_created_at e > fst cur \<or> (e_created_at e = fst cur \<and> (case snd cur of None \<Rightarrow> True | Some j \<Rightarrow> i > j))"

definition events_to_tell :: "mail_cursor \<Rightarrow> world \<Rightarrow> (nat \<times> workflow_event) list" where
  "events_to_tell cur w =
     sort_key (\<lambda>(i, e). e_created_at e)
       (filter (\<lambda>(i, e). e_event_type e \<in> set NOTIFIABLE_EVENT_TYPES \<and>
            Some i \<notin> set (map m_workflow_event_id (t_outbox (w_cur w))) \<and> past_cursor cur i e)
         (enumerate 0 (t_events (w_cur w))))"

text \<open>The newest schedule that led to the release or deployment of the event.\<close>

definition linked_schedule :: "world \<Rightarrow> workflow_event \<Rightarrow> schedule option" where
  "linked_schedule w e =
     (let links = filter (\<lambda>s. (e_release_bundle_id e \<noteq> None \<and> s_release_bundle_id s = e_release_bundle_id e) \<or>
            (e_deployment_id e \<noteq> None \<and> s_deployment_id s = e_deployment_id e)) (t_schedules (w_cur w))
      in case sort_key (\<lambda>s. - s_created_at s) links of [] \<Rightarrow> None | s # _ \<Rightarrow> Some s)"

definition attachment_source :: "world \<Rightarrow> workflow_event \<Rightarrow> attachment option" where
  "attachment_source w e =
     (case linked_schedule w e of
        Some s \<Rightarrow> s_attachment s
      | None \<Rightarrow>
          (case Option.bind (e_release_bundle_id e) (find_bundle w) of
             Some b \<Rightarrow> b_attachment b
           | None \<Rightarrow> Option.bind (Option.bind (e_deployment_id e) (find_dep w)) d_attachment))"

text \<open>\<open>event.id\<close> is the position here, printed.\<close>

definition event_label :: "nat \<Rightarrow> workflow_event \<Rightarrow> string" where
  "event_label i e =
     py_or (e_release_bundle_id e) (py_or (e_deployment_id e) (py_or (e_workflow_instance_id e) (str_of_nat i)))"

definition event_subject :: "nat \<Rightarrow> workflow_event \<Rightarrow> string" where
  "event_subject i e =
     ''[Release Controller] '' @ py_or (e_status e) (et_value (e_event_type e)) @ '': '' @ event_label i e"

definition event_body :: "nat \<Rightarrow> workflow_event \<Rightarrow> string" where
  "event_body i e = join newline
     ([''Release Controller event: '' @ et_value (e_event_type e),
       ''Resource: '' @ event_label i e,
       ''Stage: '' @ e_stage e,
       ''Status: '' @ py_or (e_status e) (et_value (e_event_type e))] @
      (if py_truthy (e_error_code e) then [''Error code: '' @ the (e_error_code e)] else []) @
      (if py_truthy (e_message e) then [''Message: '' @ the (e_message e)] else []))"

definition event_recipients :: "mail_settings \<Rightarrow> world \<Rightarrow> workflow_event \<Rightarrow> string list" where
  "event_recipients ms w e =
     (let own = (case linked_schedule w e of None \<Rightarrow> [] | Some s \<Rightarrow> split_recipients (s_notification_recipients s))
      in if own = [] then split_recipients (Some (ms_default_recipients ms)) else own)"

definition set_cursor :: "mail_cursor \<Rightarrow> world \<Rightarrow> world" where
  "set_cursor cur = set_tables (\<lambda>t. t\<lparr>t_cursor := Some cur\<rparr>)"

text \<open>The savepoint: a row that breaks the unique constraint on the event is given up alone.\<close>

fun enqueue_all :: "env \<Rightarrow> mail_settings \<Rightarrow> (nat \<times> workflow_event) list \<Rightarrow> world \<Rightarrow> nat \<times> world" where
  "enqueue_all v ms [] w = (0, w)"
| "enqueue_all v ms ((i, e) # rest) w =
     (let recipients = event_recipients ms w e;
          m = new_mail v w (Some i) None recipients (event_subject i e) (event_body i e) (attachment_source w e);
          fresh = (Some i \<notin> set (map m_workflow_event_id (t_outbox (w_cur w))));
          w1 = (if recipients \<noteq> [] \<and> fresh then insert_mail m w else w)
      in case enqueue_all v ms rest (set_cursor (e_created_at e, Some i) w1) of
           (n, w2) \<Rightarrow> ((if recipients \<noteq> [] \<and> fresh then 1 else 0) + n, w2))"

definition the_cursor :: "world \<Rightarrow> mail_cursor" where
  "the_cursor w = (case t_cursor (w_cur w) of None \<Rightarrow> (0, None) | Some c \<Rightarrow> c)"

definition enqueue_new_events :: "env \<Rightarrow> mail_settings \<Rightarrow> world \<Rightarrow> nat \<times> world" where
  "enqueue_new_events v ms w =
     (let w1 = set_cursor (the_cursor w) w
      in case enqueue_all v ms (events_to_tell (the_cursor w) w1) w1 of (n, w2) \<Rightarrow> (n, commit w2))"

subsection \<open>Delivering\<close>

definition find_mail :: "world \<Rightarrow> string \<Rightarrow> email option" where
  "find_mail w i = find_row m_id i (t_outbox (w_cur w))"

definition upd_mail :: "string \<Rightarrow> (email \<Rightarrow> email) \<Rightarrow> world \<Rightarrow> world" where
  "upd_mail i f = set_tables (\<lambda>t. t\<lparr>t_outbox := upd_row m_id i f (t_outbox t)\<rparr>)"

text \<open>What both the selection and the claim ask of the row.\<close>

definition deliverable :: "time \<Rightarrow> email \<Rightarrow> bool" where
  "deliverable stale_before m \<longleftrightarrow>
     m_status m \<in> {ES_PENDING, ES_FAILED} \<or>
     (m_status m = ES_PROCESSING \<and> started_before (m_claimed_at m) stale_before)"

definition pending_mails :: "mail_settings \<Rightarrow> nat \<Rightarrow> time \<Rightarrow> time \<Rightarrow> world \<Rightarrow> string list" where
  "pending_mails ms limit stale_before now w =
     map m_id (take limit (sort_key m_created_at
       (filter (\<lambda>m. deliverable stale_before m \<and> m_attempts m < ms_max_attempts ms \<and> m_next_attempt_at m \<le> now)
         (t_outbox (w_cur w)))))"

definition claimed_mail :: "time \<Rightarrow> email \<Rightarrow> email" where
  "claimed_mail at m =
     m\<lparr>m_status := ES_PROCESSING, m_claimed_at := Some at, m_attempts := m_attempts m + 1, m_updated_at := at\<rparr>"

definition claim_mail :: "env \<Rightarrow> time \<Rightarrow> string \<Rightarrow> world \<Rightarrow> bool \<times> world" where
  "claim_mail v stale_before i w =
     (case find_mail w i of
        None \<Rightarrow> (False, commit (tick w))
      | Some m \<Rightarrow>
          (if deliverable stale_before m then (True, commit (upd_mail i (claimed_mail (now_of v w)) (tick w)))
           else (False, commit (tick w))))"

definition MAIL_FAILED_MESSAGE :: string where
  "MAIL_FAILED_MESSAGE = ''SMTP delivery failed; check SMTP configuration and server logs.''"

definition mail_sent :: "time \<Rightarrow> time \<Rightarrow> email \<Rightarrow> email" where
  "mail_sent at updated m =
     m\<lparr>m_status := ES_SENT, m_sent_at := Some at, m_last_error := None, m_claimed_at := None, m_updated_at := updated\<rparr>"

text \<open>\<open>smtp_retry_seconds * 2 ** (attempts - 1)\<close>, in microseconds.\<close>

definition retry_delay :: "mail_settings \<Rightarrow> nat \<Rightarrow> int" where
  "retry_delay ms attempts = ms_retry_seconds ms * 2 ^ (attempts - 1) * SECOND"

definition mail_failed :: "mail_settings \<Rightarrow> time \<Rightarrow> time \<Rightarrow> email \<Rightarrow> email" where
  "mail_failed ms at updated m =
     m\<lparr>m_status := ES_FAILED, m_last_error := Some MAIL_FAILED_MESSAGE, m_claimed_at := None,
       m_next_attempt_at := at + retry_delay ms (m_attempts m), m_updated_at := updated\<rparr>"

text \<open>One mail: claim, commit, send, record. The result is the number of mails sent.\<close>

definition deliver_one :: "env \<Rightarrow> mail_settings \<Rightarrow> time \<Rightarrow> string \<Rightarrow> world \<Rightarrow> nat \<times> world" where
  "deliver_one v ms stale_before i w =
     (case claim_mail v stale_before i w of
        (False, w1) \<Rightarrow> (0, w1)
      | (True, w1) \<Rightarrow>
          (case find_mail w1 i of None \<Rightarrow> (0, w1) | Some m \<Rightarrow>
             (let ok = v_smtp v (w_trace w1) m;
                  w2 = w1\<lparr>w_trace := w_trace w1 @ [Mailed m]\<rparr>;
                  at = now_of v w2; updated = now_of v (tick w2);
                  w3 = upd_mail i (if ok then mail_sent at updated else mail_failed ms at updated) (tick (tick w2))
              in (if ok then 1 else 0, commit w3))))"

fun deliver_all :: "env \<Rightarrow> mail_settings \<Rightarrow> time \<Rightarrow> string list \<Rightarrow> world \<Rightarrow> nat \<times> world" where
  "deliver_all v ms stale_before [] w = (0, w)"
| "deliver_all v ms stale_before (i # ids) w =
     (case deliver_one v ms stale_before i w of (n, w1) \<Rightarrow>
       (case deliver_all v ms stale_before ids w1 of (k, w2) \<Rightarrow> (n + k, w2)))"

definition deliver_pending :: "env \<Rightarrow> mail_settings \<Rightarrow> nat \<Rightarrow> world \<Rightarrow> nat \<times> world" where
  "deliver_pending v ms limit w =
     (if \<not> py_truthy (ms_host ms) then (0, w)
      else (let stale_before = now_of v w - ms_claim_timeout ms * SECOND
            in deliver_all v ms stale_before (pending_mails ms limit stale_before (now_of v (tick w)) w) (tick (tick w))))"

subsection \<open>Managed recipients\<close>

definition recipient_create :: "env \<Rightarrow> string \<Rightarrow> world \<Rightarrow> (exn + mail_recipient) \<times> world" where
  "recipient_create v address w =
     (let r = \<lparr>mr_id = new_uuid v w, mr_email = address, mr_created_at = now_of v w\<rparr>;
          rs = t_recipients (w_cur w) @ [r]; w1 = tick w
      in if keyed mr_id rs \<and> distinct (map mr_email rs)
         then (Inr r, commit (set_tables (\<lambda>t. t\<lparr>t_recipients := rs\<rparr>) w1))
         else (Inl DuplicateNotificationRecipientError, rollback w1))"

definition recipient_list :: "world \<Rightarrow> mail_recipient list" where
  "recipient_list w = sort_key (\<lambda>r. (mr_email r, mr_id r)) (t_recipients (w_cur w))"

definition recipient_delete :: "string \<Rightarrow> world \<Rightarrow> (exn + unit) \<times> world" where
  "recipient_delete i w =
     (case find_row mr_id i (t_recipients (w_cur w)) of
        None \<Rightarrow> (Inl NotificationRecipientNotFoundError, w)
      | Some _ \<Rightarrow> (Inr (), commit (set_tables (\<lambda>t. t\<lparr>t_recipients := filter (\<lambda>r. mr_id r \<noteq> i) (t_recipients t)\<rparr>) w)))"

end
