(* ===== verification/Notification_Laws.thy ===== *)
theory Notification_Laws
  imports Notifications
begin

section \<open>What the outbox guarantees\<close>

text \<open>
  Facts on queueing and delivery: a mail is attempted only while its row is committed as PROCESSING,
  the attempts counted in a row are the attempts in the trace, and a round leaves every mail it does
  not select alone. They are carried by one transitive relation between worlds.
\<close>

subsection \<open>Selecting a batch\<close>

lemma batch_rows:
  assumes "keyed key t"
  shows "distinct (map key (take n (sort_key k (filter P t))))" (is "distinct ?ids")
    and "i \<in> set (map key (take n (sort_key k (filter P t)))) \<Longrightarrow> \<exists>r. find_row key i t = Some r \<and> P r"
    and "length (filter P t) \<le> n \<Longrightarrow> find_row key i t = Some r \<Longrightarrow> P r \<Longrightarrow>
      i \<in> set (map key (take n (sort_key k (filter P t))))"
proof -
  have "distinct (map key (filter P t))" using assms by (simp add: keyed_def distinct_map inj_on_def)
  then have "distinct (map key (sort_key k (filter P t)))" by (simp add: distinct_map)
  then show "distinct ?ids" by (simp flip: take_map)
next
  assume "i \<in> set (map key (take n (sort_key k (filter P t))))"
  then obtain r where "r \<in> set (take n (sort_key k (filter P t)))" "key r = i" by auto
  then have "r \<in> set t" "P r" using set_take_subset [of n "sort_key k (filter P t)"] by auto
  then show "\<exists>r. find_row key i t = Some r \<and> P r" using find_row_keyed [OF assms] \<open>key r = i\<close> by auto
next
  assume "length (filter P t) \<le> n" "find_row key i t = Some r" "P r"
  then show "i \<in> set (map key (take n (sort_key k (filter P t))))" by (auto dest: find_row_Some)
qed

subsection \<open>Counting attempts\<close>

fun sent_to :: "string \<Rightarrow> effect list \<Rightarrow> nat" where
  "sent_to i [] = 0"
| "sent_to i (e # es) = (case e of Mailed m \<Rightarrow> if m_id m = i then 1 else 0 | _ \<Rightarrow> 0) + sent_to i es"

text \<open>Every attempt follows the commit that stored exactly this row as PROCESSING.\<close>

fun covered :: "effect list \<Rightarrow> bool" where
  "covered (Committed T # Mailed m # es) \<longleftrightarrow>
     find_row m_id (m_id m) (t_outbox T) = Some m \<and> m_status m = ES_PROCESSING \<and> covered es"
| "covered (Mailed m # es) \<longleftrightarrow> False"
| "covered (e # es) \<longleftrightarrow> covered es"
| "covered [] \<longleftrightarrow> True"

lemma sent_to_append [simp]: "sent_to i (es @ fs) = sent_to i es + sent_to i fs"
  by (induction es) auto

lemma covered_commit [simp]: "covered es \<Longrightarrow> covered (Committed T # es)"
  by (cases es rule: covered.cases) auto

lemma covered_append: "covered es \<Longrightarrow> covered fs \<Longrightarrow> covered (es @ fs)"
  by (induction es rule: covered.induct) auto

lemma mail_ids [simp]:
  "m_id (claimed_mail at m) = m_id m" "m_id (mail_sent at u m) = m_id m" "m_id (mail_failed ms at u m) = m_id m"
  "m_status (claimed_mail at m) = ES_PROCESSING" "m_status (mail_sent at u m) = ES_SENT"
  "m_status (mail_failed ms at u m) = ES_FAILED" "m_attempts (claimed_mail at m) = Suc (m_attempts m)"
  "m_attempts (mail_sent at u m) = m_attempts m" "m_attempts (mail_failed ms at u m) = m_attempts m"
  "m_workflow_event_id (claimed_mail at m) = m_workflow_event_id m"
  "m_workflow_event_id (mail_sent at u m) = m_workflow_event_id m"
  "m_workflow_event_id (mail_failed ms at u m) = m_workflow_event_id m"
  by (simp_all add: claimed_mail_def mail_sent_def mail_failed_def)

subsection \<open>One mail\<close>

definition settled_mail :: "mail_settings \<Rightarrow> bool \<Rightarrow> time \<Rightarrow> time \<Rightarrow> time \<Rightarrow> email \<Rightarrow> email" where
  "settled_mail ms ok claimed at updated m =
     (if ok then mail_sent at updated (claimed_mail claimed m) else mail_failed ms at updated (claimed_mail claimed m))"

lemma settled_mail_fields [simp]:
  "m_id (settled_mail ms ok c a u m) = m_id m" "m_attempts (settled_mail ms ok c a u m) = Suc (m_attempts m)"
  "m_status (settled_mail ms ok c a u m) = (if ok then ES_SENT else ES_FAILED)"
  "m_workflow_event_id (settled_mail ms ok c a u m) = m_workflow_event_id m"
  by (simp_all add: settled_mail_def)

lemma deliver_one_cases:
  assumes "deliver_one v ms st i w = (n, w')"
  obtains (skipped) "n = 0" "\<forall>m. find_mail w i = Some m \<longrightarrow> \<not> deliverable st m" "w' = commit (tick w)"
  | (attempted) m ok c a u T T' where "find_mail w i = Some m" "deliverable st m" "n = (if ok then 1 else 0)"
      "find_row m_id i (t_outbox T) = Some (claimed_mail c m)"
      "w_trace w' = w_trace w @ [Committed T, Mailed (claimed_mail c m), Committed T']"
      "w_cur w' = (w_cur w)\<lparr>t_outbox := upd_row m_id i (settled_mail ms ok c a u) (t_outbox (w_cur w))\<rparr>"
      "w_durable w' = w_cur w'" "w_ticks w' = w_ticks w + 3"
proof (cases "\<exists>m. find_mail w i = Some m \<and> deliverable st m")
  case False
  then have "claim_mail v st i w = (False, commit (tick w))"
    by (auto simp: claim_mail_def split: option.split)
  then show ?thesis using assms False by (intro skipped) (auto simp: deliver_one_def)
next
  case True
  then obtain m where m: "find_mail w i = Some m" "deliverable st m" by blast
  let ?c = "now_of v w"
  define w1 where "w1 = commit (upd_mail i (claimed_mail ?c) (tick w))"
  have c: "claim_mail v st i w = (True, w1)" using m by (simp add: claim_mail_def w1_def)
  have f: "find_mail w1 i = Some (claimed_mail ?c m)"
    using m(1) by (simp add: w1_def find_mail_def upd_mail_def)
  define ok where "ok = v_smtp v (w_trace w1) (claimed_mail ?c m)"
  define w2 where "w2 = w1\<lparr>w_trace := w_trace w1 @ [Mailed (claimed_mail ?c m)]\<rparr>"
  let ?a = "now_of v w2" and ?u = "now_of v (tick w2)"
  have r: "deliver_one v ms st i w = (if ok then 1 else 0,
      commit (upd_mail i (if ok then mail_sent ?a ?u else mail_failed ms ?a ?u) (tick (tick w2))))"
    by (simp add: deliver_one_def c f ok_def w2_def Let_def)
  have n: "n = (if ok then 1 else 0)"
    and w': "w' = commit (upd_mail i (if ok then mail_sent ?a ?u else mail_failed ms ?a ?u) (tick (tick w2)))"
    using assms r by simp_all
  have "(if ok then mail_sent ?a ?u else mail_failed ms ?a ?u) \<circ> claimed_mail ?c = settled_mail ms ok ?c ?a ?u"
    by (auto simp: settled_mail_def fun_eq_iff)
  then have out: "w_cur w' = (w_cur w)\<lparr>t_outbox := upd_row m_id i (settled_mail ms ok ?c ?a ?u) (t_outbox (w_cur w))\<rparr>"
    by (simp add: w' w2_def w1_def upd_mail_def)
  show ?thesis
    by (rule attempted [OF m n _ _ out, where T = "w_cur w1" and T' = "w_cur w'"])
      (use m(1) in \<open>simp_all add: w' w2_def w1_def upd_mail_def find_mail_def\<close>)
qed

subsection \<open>A round\<close>

text \<open>What any part of a round does to the rows and to the trace.\<close>

definition attempts_kept :: "world \<Rightarrow> world \<Rightarrow> bool" where
  "attempts_kept w w' \<longleftrightarrow>
     (\<exists>es. w_trace w' = w_trace w @ es \<and> covered es \<and>
        map m_id (t_outbox (w_cur w')) = map m_id (t_outbox (w_cur w)) \<and>
        map m_workflow_event_id (t_outbox (w_cur w')) = map m_workflow_event_id (t_outbox (w_cur w)) \<and>
        (\<forall>i. find_mail w i = None \<longrightarrow> sent_to i es = 0) \<and>
        (\<forall>i m. find_mail w i = Some m \<longrightarrow> (\<exists>m'. find_mail w' i = Some m' \<and>
           m_attempts m' = m_attempts m + sent_to i es \<and> (m_status m = ES_SENT \<longrightarrow> m' = m \<and> sent_to i es = 0)))) \<and>
     w_ticks w \<le> w_ticks w'"

lemma find_mail_ids:
  "map m_id (t_outbox (w_cur w')) = map m_id (t_outbox (w_cur w)) \<Longrightarrow>
   (find_mail w' i = None) = (find_mail w i = None)"
  unfolding find_mail_def find_row_None by (simp flip: set_map)

lemma attempts_kept_refl [simp]: "attempts_kept w w"
  by (auto simp: attempts_kept_def)

lemma attempts_kept_trans:
  assumes "attempts_kept u w" and "attempts_kept w x"
  shows "attempts_kept u x"
proof -
  obtain es where es: "w_trace w = w_trace u @ es" "covered es"
      "map m_id (t_outbox (w_cur w)) = map m_id (t_outbox (w_cur u))"
      "map m_workflow_event_id (t_outbox (w_cur w)) = map m_workflow_event_id (t_outbox (w_cur u))"
      "\<And>i. find_mail u i = None \<Longrightarrow> sent_to i es = 0"
      "\<And>i m. find_mail u i = Some m \<Longrightarrow> \<exists>m'. find_mail w i = Some m' \<and>
         m_attempts m' = m_attempts m + sent_to i es \<and> (m_status m = ES_SENT \<longrightarrow> m' = m \<and> sent_to i es = 0)"
    using assms(1) unfolding attempts_kept_def by blast
  obtain fs where fs: "w_trace x = w_trace w @ fs" "covered fs"
      "map m_id (t_outbox (w_cur x)) = map m_id (t_outbox (w_cur w))"
      "map m_workflow_event_id (t_outbox (w_cur x)) = map m_workflow_event_id (t_outbox (w_cur w))"
      "\<And>i. find_mail w i = None \<Longrightarrow> sent_to i fs = 0"
      "\<And>i m. find_mail w i = Some m \<Longrightarrow> \<exists>m'. find_mail x i = Some m' \<and>
         m_attempts m' = m_attempts m + sent_to i fs \<and> (m_status m = ES_SENT \<longrightarrow> m' = m \<and> sent_to i fs = 0)"
    using assms(2) unfolding attempts_kept_def by blast
  have none: "sent_to i (es @ fs) = 0" if "find_mail u i = None" for i
    using es(5) [OF that] fs(5) [of i] find_mail_ids [OF es(3), of i] that by simp
  have some: "\<exists>m'. find_mail x i = Some m' \<and> m_attempts m' = m_attempts m + sent_to i (es @ fs) \<and>
      (m_status m = ES_SENT \<longrightarrow> m' = m \<and> sent_to i (es @ fs) = 0)" if "find_mail u i = Some m" for i m
    using es(6) [OF that] fs(6) [of i] by fastforce
  have "w_ticks u \<le> w_ticks x" using assms by (auto simp: attempts_kept_def)
  then show ?thesis
    unfolding attempts_kept_def using es(1,3,4) fs(1,3,4) covered_append [OF es(2) fs(2)] none some
    by (intro conjI exI [of _ "es @ fs"]) auto
qed

lemma deliver_one_kept:
  assumes "deliver_one v ms st i w = (n, w')"
  shows "attempts_kept w w'"
  using assms
proof (cases rule: deliver_one_cases)
  case skipped
  then show ?thesis by (auto simp: attempts_kept_def find_mail_def)
next
  case (attempted m ok c a u T T')
  have id: "m_id m = i" using attempted(1) by (auto simp: find_mail_def dest: find_row_Some)
  have f: "find_mail w' j = (if j = i then Some (settled_mail ms ok c a u m) else find_mail w j)" for j
    using attempted(1,6) by (simp add: find_mail_def)
  have "map m_workflow_event_id (upd_row m_id i (settled_mail ms ok c a u) xs) = map m_workflow_event_id xs" for xs
    by (induction xs) auto
  moreover have "m_status m \<noteq> ES_SENT" using attempted(2) by (auto simp: deliverable_def)
  ultimately show ?thesis
    unfolding attempts_kept_def using attempted id
    by (intro conjI exI [of _ "[Committed T, Mailed (claimed_mail c m), Committed T']"]) (auto simp: f)
qed

lemma deliver_all_kept: "attempts_kept w (snd (deliver_all v ms st ids w))"
proof (induction ids arbitrary: w)
  case (Cons i ids)
  obtain n w1 where r: "deliver_one v ms st i w = (n, w1)" by force
  show ?case
    using attempts_kept_trans [OF deliver_one_kept [OF r] Cons.IH [of w1]] r by (auto split: prod.splits)
qed simp

text \<open>With distinct deliverable mails: each is attempted once and settled, and nothing else changes.\<close>

lemma deliver_all_result:
  assumes "distinct ids" and "\<forall>i \<in> set ids. \<exists>m. find_mail w i = Some m \<and> deliverable st m"
    and "deliver_all v ms st ids w = (n, w')"
  shows "(\<forall>i. i \<notin> set ids \<longrightarrow> find_mail w' i = find_mail w i) \<and>
    (\<forall>i m. i \<in> set ids \<longrightarrow> find_mail w i = Some m \<longrightarrow>
       (\<exists>ok c a u. find_mail w' i = Some (settled_mail ms ok c a u m))) \<and>
    n = length (filter (\<lambda>i. map_option m_status (find_mail w' i) = Some ES_SENT) ids) \<and>
    (\<exists>es. w_trace w' = w_trace w @ es \<and> (\<forall>i. sent_to i es = (if i \<in> set ids then 1 else 0)))"
  using assms
proof (induction ids arbitrary: w n)
  case (Cons i ids)
  obtain n1 w1 where r: "deliver_one v ms st i w = (n1, w1)" by force
  obtain k w2 where r2: "deliver_all v ms st ids w1 = (k, w2)" by force
  have all: "n = n1 + k" "w2 = w'" using Cons.prems(3) r r2 by simp_all
  have i: "i \<notin> set ids" "distinct ids" using Cons.prems(1) by auto
  from r show ?case
  proof (cases rule: deliver_one_cases)
    case skipped
    then show ?thesis using Cons.prems(2) by auto
  next
    case (attempted m ok c b u T T')
    have id: "m_id m = i" using attempted(1) by (auto simp: find_mail_def dest: find_row_Some)
    have f: "find_mail w1 j = (if j = i then Some (settled_mail ms ok c b u m) else find_mail w j)" for j
      using attempted(1,6) by (simp add: find_mail_def)
    have "\<forall>j \<in> set ids. \<exists>m. find_mail w1 j = Some m \<and> deliverable st m" using Cons.prems(2) i f by auto
    note IH = Cons.IH [OF i(2) this, unfolded all, OF r2 [unfolded all]]
    have same: "\<And>j. j \<notin> set ids \<Longrightarrow> find_mail w' j = find_mail w1 j" using IH by blast
    obtain es where es: "w_trace w' = w_trace w1 @ es" "\<forall>j. sent_to j es = (if j \<in> set ids then 1 else 0)"
      using IH by blast
    have "\<exists>es. w_trace w' = w_trace w @ es \<and> (\<forall>j. sent_to j es = (if j \<in> set (i # ids) then 1 else 0))"
      using attempted(5) es i id by (intro exI [of _ "[Committed T, Mailed (claimed_mail c m), Committed T'] @ es"]) auto
    moreover have "\<exists>ok c a u. find_mail w' j = Some (settled_mail ms ok c a u x)"
      if "j \<in> set (i # ids)" "find_mail w j = Some x" for j x
    proof (cases "j = i")
      case True
      then have "find_mail w' j = Some (settled_mail ms ok c b u x)"
        using that(2) same [OF i(1)] f [of i] attempted(1) by simp
      then show ?thesis by blast
    next
      case False
      then have "j \<in> set ids" "find_mail w1 j = Some x" using that f [of j] by simp_all
      then show ?thesis using IH by blast
    qed
    moreover have "n = length (filter (\<lambda>i. map_option m_status (find_mail w' i) = Some ES_SENT) (i # ids))"
      using all IH same [OF i(1)] f attempted(3) by simp
    ultimately show ?thesis using same f by simp
  qed
qed simp

subsection \<open>Selecting mails\<close>

lemma deliverable_rows:
  assumes "keyed m_id (t_outbox (w_cur w))"
  shows "distinct (pending_mails ms limit st now w)" and "length (pending_mails ms limit st now w) \<le> limit"
    and "i \<in> set (pending_mails ms limit st now w) \<Longrightarrow> \<exists>m. find_mail w i = Some m \<and> deliverable st m \<and>
      m_attempts m < ms_max_attempts ms \<and> m_next_attempt_at m \<le> now"
  unfolding pending_mails_def find_mail_def
  by (rule batch_rows(1) [OF assms]) (simp, erule batch_rows(2) [OF assms])

lemma find_mail_tick [simp]: "find_mail (tick w) i = find_mail w i"
  by (simp add: find_mail_def)

lemma attempts_kept_tick: "attempts_kept (tick w) x \<Longrightarrow> attempts_kept w x"
  by (auto simp: attempts_kept_def)

lemma deliver_pending_kept: "attempts_kept w (snd (deliver_pending v ms limit w))"
  by (auto simp: deliver_pending_def Let_def intro!: attempts_kept_tick deliver_all_kept)

text \<open>The mails a round selects.\<close>

definition round_of :: "env \<Rightarrow> mail_settings \<Rightarrow> nat \<Rightarrow> world \<Rightarrow> string list" where
  "round_of v ms limit w =
     (if py_truthy (ms_host ms)
      then pending_mails ms limit (now_of v w - ms_claim_timeout ms * SECOND) (now_of v (tick w)) w else [])"

lemma round_rows:
  assumes "keyed m_id (t_outbox (w_cur w))"
  shows "distinct (round_of v ms limit w)" and "length (round_of v ms limit w) \<le> limit"
    and "i \<in> set (round_of v ms limit w) \<Longrightarrow> \<exists>m. find_mail w i = Some m \<and>
      deliverable (now_of v w - ms_claim_timeout ms * SECOND) m \<and>
      m_attempts m < ms_max_attempts ms \<and> m_next_attempt_at m \<le> now_of v (tick w)"
  using deliverable_rows [OF assms] by (auto simp: round_of_def split: if_splits)

lemma deliver_pending_result:
  assumes "keyed m_id (t_outbox (w_cur w))" and "deliver_pending v ms limit w = (n, w')"
  shows "(\<forall>i. i \<notin> set (round_of v ms limit w) \<longrightarrow> find_mail w' i = find_mail w i) \<and>
    (\<forall>i m. i \<in> set (round_of v ms limit w) \<longrightarrow> find_mail w i = Some m \<longrightarrow>
       (\<exists>ok c a u. find_mail w' i = Some (settled_mail ms ok c a u m))) \<and>
    n = length (filter (\<lambda>i. map_option m_status (find_mail w' i) = Some ES_SENT) (round_of v ms limit w)) \<and>
    (\<exists>es. w_trace w' = w_trace w @ es \<and> (\<forall>i. sent_to i es = (if i \<in> set (round_of v ms limit w) then 1 else 0)))"
proof (cases "py_truthy (ms_host ms)")
  case True
  let ?st = "now_of v w - ms_claim_timeout ms * SECOND"
  have d: "deliver_all v ms ?st (round_of v ms limit w) (tick (tick w)) = (n, w')"
    using assms(2) True by (simp add: deliver_pending_def round_of_def Let_def)
  have "\<forall>i \<in> set (round_of v ms limit w). \<exists>m. find_mail (tick (tick w)) i = Some m \<and> deliverable ?st m"
    using round_rows(3) [OF assms(1)] by fastforce
  from deliver_all_result [OF round_rows(1) [OF assms(1)] this d] show ?thesis by simp
next
  case False
  then show ?thesis using assms(2) by (simp add: deliver_pending_def round_of_def)
qed

end
