(* ===== verification/Notification_Properties.thy ===== *)
theory Notification_Properties
  imports Notification_Laws Samples
begin

section \<open>Properties of the outbox\<close>

subsection \<open>Histories of one dispatcher\<close>

text \<open>
  The history of a process whose dispatcher runs in one thread: schedules and events queue mails,
  rounds deliver them, and everything else neither touches the outbox nor talks to the SMTP server.
\<close>

definition quiet :: "effect list \<Rightarrow> bool" where
  "quiet es \<longleftrightarrow> (\<forall>e \<in> set es. case e of Mailed m \<Rightarrow> False | _ \<Rightarrow> True)"

inductive mail_run :: "env \<Rightarrow> mail_settings \<Rightarrow> world \<Rightarrow> bool" for v ms where
  start: "t_outbox (w_cur w) = [] \<Longrightarrow> quiet (w_trace w) \<Longrightarrow> mail_run v ms w"
| scheduled: "mail_run v ms w \<Longrightarrow> mail_run v ms (snd (enqueue_schedule_created v ms s w))"
| announced: "mail_run v ms w \<Longrightarrow> mail_run v ms (snd (enqueue_new_events v ms w))"
| delivered: "mail_run v ms w \<Longrightarrow> mail_run v ms (snd (deliver_pending v ms limit w))"
| elsewhere: "mail_run v ms w \<Longrightarrow> t_outbox (w_cur w') = t_outbox (w_cur w) \<Longrightarrow> w_ticks w \<le> w_ticks w' \<Longrightarrow>
    w_trace w' = w_trace w @ es \<Longrightarrow> quiet es \<Longrightarrow> mail_run v ms w'"

lemma quiet_facts: "quiet es \<Longrightarrow> sent_to i es = 0" "quiet es \<Longrightarrow> covered es"
proof -
  show "quiet es \<Longrightarrow> sent_to i es = 0" by (induction es) (auto simp: quiet_def split: effect.splits)
  show "quiet es \<Longrightarrow> covered es" by (induction es rule: covered.induct) (auto simp: quiet_def)
qed

definition of_event :: "nat \<Rightarrow> email list \<Rightarrow> nat" where
  "of_event k ms = length (filter (\<lambda>m. m_workflow_event_id m = Some k) ms)"

lemma of_event_map: "of_event k ms = count_list (map m_workflow_event_id ms) (Some k)"
  unfolding of_event_def by (induction ms) auto

lemma of_event_none: "Some k \<notin> set (map m_workflow_event_id ms) \<Longrightarrow> of_event k ms = 0"
  by (simp add: of_event_map count_notin)

definition outbox_ok :: "env \<Rightarrow> mail_settings \<Rightarrow> world \<Rightarrow> bool" where
  "outbox_ok v ms w \<longleftrightarrow> keyed m_id (t_outbox (w_cur w)) \<and> covered (w_trace w) \<and>
     (\<forall>k. of_event k (t_outbox (w_cur w)) \<le> 1) \<and>
     (\<forall>i \<in> m_id ` set (t_outbox (w_cur w)). \<exists>n < w_ticks w. i = v_uuid v n) \<and>
     (\<forall>i m. find_mail w i = Some m \<longrightarrow> m_attempts m = sent_to i (w_trace w) \<and> m_attempts m \<le> ms_max_attempts ms) \<and>
     (\<forall>i. find_mail w i = None \<longrightarrow> sent_to i (w_trace w) = 0)"

lemma outbox_okD:
  assumes "outbox_ok v ms w" and "find_mail w i = Some m"
  shows "m_attempts m = sent_to i (w_trace w) \<and> m_attempts m \<le> ms_max_attempts ms"
  using assms unfolding outbox_ok_def by blast

lemma outbox_ok_cong:
  assumes "outbox_ok v ms w" and "t_outbox (w_cur w') = t_outbox (w_cur w)" "w_ticks w \<le> w_ticks w'"
    "w_trace w' = w_trace w @ es" "quiet es"
  shows "outbox_ok v ms w'"
proof -
  have t: "sent_to i (w_trace w') = sent_to i (w_trace w)" for i using assms(4,5) by (simp add: quiet_facts)
  have "find_mail w' = find_mail w" using assms(2) by (simp add: find_mail_def fun_eq_iff)
  moreover have "covered (w_trace w')"
    using assms(1,4,5) by (simp add: outbox_ok_def covered_append quiet_facts)
  moreover have "\<forall>i \<in> m_id ` set (t_outbox (w_cur w)). \<exists>n < w_ticks w'. i = v_uuid v n"
    using assms(1,3) unfolding outbox_ok_def by (meson order_less_le_trans)
  ultimately show ?thesis using assms(1) unfolding outbox_ok_def t assms(2) by metis
qed

lemma outbox_ok_insert:
  assumes ok: "outbox_ok v ms w" and inj: "inj (v_uuid v)"
    and m: "m_id m = new_uuid v w" "m_attempts m = 0"
    and e: "\<forall>k. m_workflow_event_id m = Some k \<longrightarrow> Some k \<notin> set (map m_workflow_event_id (t_outbox (w_cur w)))"
  shows "outbox_ok v ms (insert_mail m w)"
proof -
  let ?o = "t_outbox (w_cur w)" and ?i = "new_uuid v w"
  have fresh: "?i \<notin> m_id ` set ?o"
  proof
    assume "?i \<in> m_id ` set ?o"
    then obtain n where "n < w_ticks w" "?i = v_uuid v n" using ok unfolding outbox_ok_def by blast
    then show False using injD [OF inj, of "w_ticks w" n] by (simp add: new_uuid_def)
  qed
  then have none: "find_mail w ?i = None" by (simp add: find_mail_def find_row_None)
  have f: "find_mail (insert_mail m w) j = (if j = ?i then Some m else find_mail w j)" for j
    using none m(1) by (auto simp: find_mail_def insert_mail_def find_row_append split: option.split)
  have o: "t_outbox (w_cur (insert_mail m w)) = ?o @ [m]" "w_trace (insert_mail m w) = w_trace w"
      "w_ticks (insert_mail m w) = w_ticks w + 3"
    by (simp_all add: insert_mail_def)
  have ev: "of_event k (?o @ [m]) \<le> 1" for k
    using ok e of_event_none [of k ?o] by (auto simp: outbox_ok_def of_event_def)
  have "\<exists>n < w_ticks w + 3. j = v_uuid v n" if "j \<in> m_id ` set (?o @ [m])" for j
  proof (cases "j = ?i")
    case True
    then show ?thesis by (intro exI [of _ "w_ticks w"]) (simp add: new_uuid_def)
  next
    case False
    then have "j \<in> m_id ` set ?o" using that m(1) by auto
    then obtain n where "n < w_ticks w" "j = v_uuid v n" using ok unfolding outbox_ok_def by blast
    then show ?thesis by (intro exI [of _ n]) simp
  qed
  moreover have "keyed m_id (?o @ [m])" using ok fresh m(1) by (simp add: outbox_ok_def keyed_def)
  moreover have "m_attempts x = sent_to j (w_trace w) \<and> m_attempts x \<le> ms_max_attempts ms"
    if "find_mail (insert_mail m w) j = Some x" for j x
    using that outbox_okD [OF ok, of j x] ok none m(2) by (auto simp: f outbox_ok_def split: if_splits)
  moreover have "sent_to j (w_trace w) = 0" if "find_mail (insert_mail m w) j = None" for j
    using that ok unfolding f outbox_ok_def by (auto split: if_splits)
  moreover have "covered (w_trace w)" using ok by (simp add: outbox_ok_def)
  ultimately show ?thesis using ev unfolding outbox_ok_def o by blast
qed

lemma outbox_ok_same:
  assumes "outbox_ok v ms w" and "t_outbox (w_cur w') = t_outbox (w_cur w)" "w_ticks w \<le> w_ticks w'"
    "w_trace w' = w_trace w"
  shows "outbox_ok v ms w'"
  using outbox_ok_cong [OF assms(1-3), of "[]"] assms(4) by (simp add: quiet_def)

lemma set_cursor_ops [simp]:
  "t_outbox (w_cur (set_cursor c w)) = t_outbox (w_cur w)" "w_ticks (set_cursor c w) = w_ticks w"
  "w_trace (set_cursor c w) = w_trace w"
  by (simp_all add: set_cursor_def)

lemma new_mail_fields [simp]:
  "m_id (new_mail v w ev s rs sub body att) = new_uuid v w"
  "m_attempts (new_mail v w ev s rs sub body att) = 0"
  "m_workflow_event_id (new_mail v w ev s rs sub body att) = ev"
  by (simp_all add: new_mail_def)

lemma enqueue_all_ok:
  assumes "outbox_ok v ms w" and "inj (v_uuid v)"
  shows "outbox_ok v ms (snd (enqueue_all v ms es w))"
  using assms(1)
proof (induction es arbitrary: w)
  case (Cons x es)
  obtain i e where x: "x = (i, e)" by force
  define tell where "tell \<longleftrightarrow> event_recipients ms w e \<noteq> [] \<and> Some i \<notin> set (map m_workflow_event_id (t_outbox (w_cur w)))"
  define w1 where "w1 = (if tell then insert_mail (new_mail v w (Some i) None (event_recipients ms w e)
    (event_subject i e) (event_body i e) (attachment_source w e)) w else w)"
  have "outbox_ok v ms w1"
    unfolding w1_def using Cons.prems outbox_ok_insert [OF Cons.prems assms(2)] by (auto simp: tell_def)
  then have "outbox_ok v ms (set_cursor (e_created_at e, Some i) w1)" by (rule outbox_ok_same) simp_all
  from Cons.IH [OF this] show ?case
    unfolding x enqueue_all.simps Let_def tell_def [symmetric] w1_def [symmetric] by (simp add: case_prod_beta)
qed simp

lemma outbox_ok_delivered:
  assumes ok: "outbox_ok v ms w"
  shows "outbox_ok v ms (snd (deliver_pending v ms limit w))"
proof -
  obtain n w' where r: "deliver_pending v ms limit w = (n, w')" by force
  have "attempts_kept w w'" using deliver_pending_kept [of w v ms limit] r by simp
  then obtain es where es: "w_trace w' = w_trace w @ es" "covered es"
      "map m_id (t_outbox (w_cur w')) = map m_id (t_outbox (w_cur w))"
      "map m_workflow_event_id (t_outbox (w_cur w')) = map m_workflow_event_id (t_outbox (w_cur w))"
      "\<And>i. find_mail w i = None \<Longrightarrow> sent_to i es = 0"
      "\<And>i m. find_mail w i = Some m \<Longrightarrow> \<exists>m'. find_mail w' i = Some m' \<and> m_attempts m' = m_attempts m + sent_to i es"
      "w_ticks w \<le> w_ticks w'"
    unfolding attempts_kept_def by blast
  have k: "keyed m_id (t_outbox (w_cur w))" using ok by (simp add: outbox_ok_def)
  note res = deliver_pending_result [OF k r]
  have none: "(find_mail w' i = None) = (find_mail w i = None)" for i by (rule find_mail_ids [OF es(3)])
  have some: "m' = m \<and> sent_to i es = 0 \<or> m_attempts m' = Suc (m_attempts m) \<and> sent_to i es = 1 \<and>
      m_attempts m < ms_max_attempts ms"
    if h: "find_mail w' i = Some m'" "find_mail w i = Some m" for i m m'
  proof (cases "i \<in> set (round_of v ms limit w)")
    case True
    then obtain x where "find_mail w i = Some x" "m_attempts x < ms_max_attempts ms"
      using round_rows(3) [OF k] by blast
    moreover obtain ok c a u where "find_mail w' i = Some (settled_mail ms ok c a u m)"
      using res True h(2) by blast
    ultimately show ?thesis using es(6) [OF h(2)] h by auto
  next
    case False
    then have "find_mail w' i = find_mail w i" using res by blast
    then show ?thesis using es(6) [OF h(2)] h by auto
  qed
  have att: "m_attempts m' = sent_to i (w_trace w @ es) \<and> m_attempts m' \<le> ms_max_attempts ms"
    if m': "find_mail w' i = Some m'" for i m'
  proof -
    obtain m where m: "find_mail w i = Some m" using none [of i] m' by fastforce
    from outbox_okD [OF ok m] show ?thesis using some [OF m' m] by auto
  qed
  have ids: "m_id ` set (t_outbox (w_cur w')) = m_id ` set (t_outbox (w_cur w))" using es(3) by (metis set_map)
  have "\<forall>k. of_event k (t_outbox (w_cur w')) \<le> 1" using ok es(4) by (simp add: outbox_ok_def of_event_map)
  moreover have "\<forall>i \<in> m_id ` set (t_outbox (w_cur w')). \<exists>n < w_ticks w'. i = v_uuid v n"
    unfolding ids using ok es(7) unfolding outbox_ok_def by (meson order_less_le_trans)
  moreover have "keyed m_id (t_outbox (w_cur w'))" using k es(3) by (simp add: keyed_def)
  moreover have "covered (w_trace w')" using ok es(1,2) by (simp add: outbox_ok_def covered_append)
  moreover have "\<forall>i. find_mail w' i = None \<longrightarrow> sent_to i (w_trace w') = 0"
    using ok es(1,5) none by (simp add: outbox_ok_def)
  ultimately show ?thesis using att unfolding r snd_conv outbox_ok_def es(1) by blast
qed

lemma mail_run_ok:
  assumes "mail_run v ms w" and inj: "inj (v_uuid v)"
  shows "outbox_ok v ms w"
  using assms(1)
proof induction
  case (start w)
  then show ?case by (simp add: outbox_ok_def keyed_def of_event_def find_mail_def quiet_facts)
next
  case (scheduled w s)
  then show ?case
    using outbox_ok_insert [OF scheduled.IH inj] by (simp add: enqueue_schedule_created_def Let_def)
next
  case (announced w)
  let ?w1 = "set_cursor (the_cursor w) w"
  obtain n w2 where r: "enqueue_all v ms (events_to_tell (the_cursor w) ?w1) ?w1 = (n, w2)" by force
  have "outbox_ok v ms ?w1" by (rule outbox_ok_same [OF announced.IH]) simp_all
  from enqueue_all_ok [OF this inj] have "outbox_ok v ms w2" using r by (metis snd_conv)
  then have "outbox_ok v ms (commit w2)"
    by (rule outbox_ok_cong [where es = "[Committed (w_cur w2)]"]) (simp_all add: quiet_def)
  then show ?case by (simp add: enqueue_new_events_def r)
next
  case (delivered w limit)
  then show ?case by (rule_tac outbox_ok_delivered)
next
  case (elsewhere w w' es)
  show ?case by (rule outbox_ok_cong [OF elsewhere.IH elsewhere.hyps(2-5)])
qed

subsection \<open>A mail to evaluate\<close>

definition sample_settings :: mail_settings where
  "sample_settings = \<lparr>ms_host = Some ''smtp'', ms_managed_targets = ''production'',
     ms_default_recipients = ''ops@x'', ms_max_attempts = 1, ms_retry_seconds = 60, ms_claim_timeout = 300,
     ms_local_time = (\<lambda>zone t. ''2026/01/01 00:00'')\<rparr>"

definition sample_mail :: email where
  "sample_mail = \<lparr>m_id = ''m1'', m_workflow_event_id = None, m_schedule_id = None, m_recipients = ''ops@x'',
     m_subject = ''s'', m_body = ''b'', m_attachment = None, m_status = ES_PENDING, m_attempts = 0,
     m_next_attempt_at = 0, m_claimed_at = None, m_last_error = None, m_created_at = 0, m_updated_at = 0,
     m_sent_at = None\<rparr>"

definition mail_world :: world where
  "mail_world = (let T = no_tables\<lparr>t_outbox := [sample_mail]\<rparr>
     in \<lparr>w_cur = T, w_durable = T, w_ticks = 0, w_trace = []\<rparr>)"

definition failing_smtp :: env where
  "failing_smtp = (sample_env HttpTimeout HttpTimeout)\<lparr>v_smtp := (\<lambda>tr m. False)\<rparr>"

subsection \<open>A round delivers what is due, once each\<close>

text \<open>
  A round of the dispatcher attempts each mail it selects exactly once and no other. The mails
  selected are at most \<open>limit\<close> and each was deliverable, due and below the attempt bound; afterwards it is
  SENT or FAILED with one attempt more, and the number returned is the number of SENT ones. A mail that
  was not selected, a SENT one in particular, is unchanged and is not sent again. Every attempt follows
  the commit that stored the mail as PROCESSING.
\<close>

theorem delivery_round:
  assumes "keyed m_id (t_outbox (w_cur w))" and "deliver_pending v ms limit w = (n, w')"
  shows "length (round_of v ms limit w) \<le> limit \<and>
    (\<forall>i \<in> set (round_of v ms limit w). \<exists>m ok claimed at updated. find_mail w i = Some m \<and>
       m_status m \<noteq> ES_SENT \<and> m_attempts m < ms_max_attempts ms \<and> m_next_attempt_at m \<le> now_of v (tick w) \<and>
       find_mail w' i = Some (settled_mail ms ok claimed at updated m)) \<and>
    (\<forall>i. i \<notin> set (round_of v ms limit w) \<longrightarrow> find_mail w' i = find_mail w i) \<and>
    n = length (filter (\<lambda>i. map_option m_status (find_mail w' i) = Some ES_SENT) (round_of v ms limit w)) \<and>
    (\<exists>es. w_trace w' = w_trace w @ es \<and> covered es \<and>
       (\<forall>i. sent_to i es = (if i \<in> set (round_of v ms limit w) then 1 else 0)))"
proof -
  note res = deliver_pending_result [OF assms]
  have sel: "\<exists>m ok claimed at updated. find_mail w i = Some m \<and> m_status m \<noteq> ES_SENT \<and>
      m_attempts m < ms_max_attempts ms \<and> m_next_attempt_at m \<le> now_of v (tick w) \<and>
      find_mail w' i = Some (settled_mail ms ok claimed at updated m)"
    if i: "i \<in> set (round_of v ms limit w)" for i
  proof -
    obtain m where m: "find_mail w i = Some m" "deliverable (now_of v w - ms_claim_timeout ms * SECOND) m"
        "m_attempts m < ms_max_attempts ms" "m_next_attempt_at m \<le> now_of v (tick w)"
      using round_rows(3) [OF assms(1) i] by blast
    have "m_status m \<noteq> ES_SENT" using m(2) by (auto simp: deliverable_def)
    then show ?thesis using m res i by blast
  qed
  obtain es where es: "w_trace w' = w_trace w @ es"
      "\<forall>i. sent_to i es = (if i \<in> set (round_of v ms limit w) then 1 else 0)"
    using res by blast
  have "covered es"
    using deliver_pending_kept [of w v ms limit] assms(2) es(1) by (auto simp: attempts_kept_def)
  then show ?thesis using res sel es round_rows(2) [OF assms(1)] by blast
qed

theorem delivery_round_witness:
  "map_option m_status (find_mail (snd (deliver_pending failing_smtp sample_settings 5 mail_world)) ''m1'') = Some ES_FAILED
   \<and> length (round_of failing_smtp sample_settings 5 mail_world) \<le> 5"
proof -
  have "keyed m_id (t_outbox (w_cur mail_world))" by code_simp
  moreover have "map_option m_status
      (find_mail (snd (deliver_pending failing_smtp sample_settings 5 mail_world)) ''m1'') = Some ES_FAILED"
    by code_simp
  ultimately show ?thesis
    using delivery_round [of mail_world failing_smtp sample_settings 5
        "fst (deliver_pending failing_smtp sample_settings 5 mail_world)"
        "snd (deliver_pending failing_smtp sample_settings 5 mail_world)"] by simp
qed

subsection \<open>The attempts are bounded\<close>

text \<open>
  C39. However a process with one dispatcher runs, and whatever the SMTP server answers, a mail is
  attempted at most \<open>smtp_max_attempts\<close> times over its whole life, the counter in its row is the number of
  attempts made, every attempt was covered by a committed claim, and an event of the orchestration has
  at most one mail. Identifiers are assumed not to repeat.
\<close>

theorem attempts_bounded:
  assumes "mail_run v ms w" and "inj (v_uuid v)"
  shows "sent_to i (w_trace w) \<le> ms_max_attempts ms \<and> covered (w_trace w) \<and>
    (\<forall>m. find_mail w i = Some m \<longrightarrow> m_attempts m = sent_to i (w_trace w)) \<and>
    of_event k (t_outbox (w_cur w)) \<le> 1"
proof -
  have ok: "outbox_ok v ms w" by (rule mail_run_ok [OF assms])
  have "sent_to i (w_trace w) \<le> ms_max_attempts ms"
    using ok outbox_okD [OF ok, of i] by (cases "find_mail w i") (auto simp: outbox_ok_def)
  then show ?thesis using ok outbox_okD [OF ok, of i] by (auto simp: outbox_ok_def)
qed

definition told_world :: world where
  "told_world = (let T = no_tables\<lparr>t_events := [\<lparr>e_release_bundle_id = Some ''b'', e_deployment_id = None,
       e_workflow_instance_id = None, e_stage = ''release'', e_event_type = RELEASE_COMPLETED, e_status = None,
       e_error_code = None, e_message = None, e_actor = ''a'', e_actor_source = ''system'', e_component = None,
       e_target = None, e_created_at = 5\<rparr>]\<rparr>
     in \<lparr>w_cur = T, w_durable = T, w_ticks = 0, w_trace = []\<rparr>)"

definition queued_once :: world where
  "queued_once = snd (deliver_pending failing_smtp sample_settings 5
     (snd (enqueue_new_events failing_smtp sample_settings told_world)))"

theorem attempts_bounded_witness:
  "sent_to ''u'' (w_trace queued_once) = 1 \<and> sent_to ''u'' (w_trace queued_once) \<le> ms_max_attempts sample_settings"
proof -
  have "mail_run failing_smtp sample_settings queued_once"
    unfolding queued_once_def by (intro mail_run.delivered mail_run.announced mail_run.start)
      (simp_all add: told_world_def Let_def no_tables_def quiet_def)
  moreover have "inj (v_uuid failing_smtp)"
    by (rule injI) (simp add: failing_smtp_def sample_env_def replicate_eq_replicate)
  moreover have "sent_to ''u'' (w_trace queued_once) = 1" by code_simp
  ultimately show ?thesis using attempts_bounded [of failing_smtp sample_settings queued_once "''u''"] by simp
qed

subsection \<open>Two dispatchers\<close>

text \<open>
  A dispatcher that selected a mail before another one tried and failed it claims it as well: the claim
  asks neither for the attempts nor for the time of the next attempt, so the back-off and the bound of the
  selection are passed over.
\<close>

definition stale_selection :: world where
  "stale_selection =
     (let st = now_of failing_smtp mail_world - ms_claim_timeout sample_settings * SECOND;
          ids = pending_mails sample_settings 5 st 1 mail_world
      in snd (deliver_all failing_smtp sample_settings st ids
           (snd (deliver_pending failing_smtp sample_settings 5 mail_world))))"

lemma stale_selection_resends:
  "ms_max_attempts sample_settings = 1 \<and> sent_to ''m1'' (w_trace stale_selection) = 2"
  by code_simp

end
