(* ===== verification/Schedules.thy ===== *)
theory Schedules
  imports Notifications
begin

section \<open>Schedules\<close>

text \<open>
  app/schemas/scheduling.py and app/services/schedule_service.py: the request for a scheduled
  release, the row it becomes, cancelling it, and the runner that claims what is due and hands it to
  the orchestrator. Strings are UTF-8 bytes, so \<open>len\<close> counts the bytes that open a character.
\<close>

subsection \<open>The request\<close>

text \<open>\<open>scheduled_for\<close>: an instant, or a local time in the zone named beside it.\<close>

datatype moment = Instant time | Local_Time int

record schedule_payload =
  sc_project_id :: "string option"
  sc_components :: "(string \<times> int) list"
  sc_mode :: "release_mode option"
  sc_frontend_build_number :: "int option"
  sc_backend_build_number :: "int option"
  sc_target :: "string option"
  sc_scheduled_for :: moment
  sc_timezone :: string
  sc_requested_by :: "string option"
  sc_notification_recipients :: "string list"
  sc_release_version :: "string option"
  sc_release_notes :: "string option"

definition text_len :: "string \<Rightarrow> nat" where
  "text_len s = length (filter (\<lambda>c. let n = (of_char c :: nat) in n < 128 \<or> 192 \<le> n) s)"

definition at_most :: "nat \<Rightarrow> string option \<Rightarrow> bool" where
  "at_most n s \<longleftrightarrow> (case s of None \<Rightarrow> True | Some t \<Rightarrow> text_len t \<le> n)"

definition positive :: "int option \<Rightarrow> bool" where
  "positive n \<longleftrightarrow> (case n of None \<Rightarrow> True | Some k \<Rightarrow> k > 0)"

text \<open>\<open>NonEmptyString\<close> with a greatest length: stripped, then checked.\<close>

definition non_empty_string :: "nat \<Rightarrow> string \<Rightarrow> exn + string" where
  "non_empty_string n s =
     (let t = strip s in if t = [] \<or> text_len t > n then Inl ValidationError else Inr t)"

fun each_ok :: "('a \<Rightarrow> exn + 'b) \<Rightarrow> 'a list \<Rightarrow> exn + 'b list" where
  "each_ok f [] = Inr []"
| "each_ok f (x # xs) =
     (case f x of Inl e \<Rightarrow> Inl e | Inr y \<Rightarrow> (case each_ok f xs of Inl e \<Rightarrow> Inl e | Inr ys \<Rightarrow> Inr (y # ys)))"

definition optional_ok :: "('a \<Rightarrow> exn + 'b) \<Rightarrow> 'a option \<Rightarrow> exn + 'b option" where
  "optional_ok f x =
     (case x of None \<Rightarrow> Inr None | Some y \<Rightarrow> (case f y of Inl e \<Rightarrow> Inl e | Inr z \<Rightarrow> Inr (Some z)))"

text \<open>\<open>ComponentBuildSelection\<close> of schemas/orchestration.py.\<close>

definition component_build :: "string \<times> int \<Rightarrow> exn + (string \<times> int)" where
  "component_build s =
     (case non_empty_string 50 (fst s) of
        Inl e \<Rightarrow> Inl e
      | Inr key \<Rightarrow> if snd s > 0 then Inr (key, snd s) else Inl ValidationError)"

definition has_line_break :: "string \<Rightarrow> bool" where
  "has_line_break s \<longleftrightarrow> CHR 0x0D \<in> set s \<or> CHR 0x0A \<in> set s"

definition strip_release_details :: "bool \<Rightarrow> string \<Rightarrow> exn + string option" where
  "strip_release_details single_line s =
     (let t = strip s
      in if t = [] then Inr None
         else if single_line \<and> has_line_break t then Inl ValidationError else Inr (Some t))"

definition release_detail :: "nat \<Rightarrow> bool \<Rightarrow> string option \<Rightarrow> exn + string option" where
  "release_detail n single_line s =
     (case s of
        None \<Rightarrow> Inr None
      | Some t \<Rightarrow> if text_len t > n then Inl ValidationError else strip_release_details single_line t)"

definition valid_recipient :: "string \<Rightarrow> bool" where
  "valid_recipient s \<longleftrightarrow> s \<noteq> [] \<and> CHR ''@'' \<in> set s \<and> \<not> has_line_break s \<and> CHR '','' \<notin> set s"

definition validate_recipients :: "string list \<Rightarrow> exn + string list" where
  "validate_recipients rs =
     (let cs = map strip rs
      in if length rs > 50 \<or> \<not> list_all valid_recipient cs then Inl ValidationError else Inr (first_keys cs))"

text \<open>The mode follows from the selection, or must fit the two named builds.\<close>

definition derived_mode :: "schedule_payload \<Rightarrow> exn + release_mode" where
  "derived_mode q =
     (if sc_components q \<noteq> []
      then (let derived = (if length (sc_components q) = 1 then RM_SINGLE else RM_BUNDLE)
            in if \<not> distinct (map fst (sc_components q)) \<or> (sc_mode q \<noteq> None \<and> sc_mode q \<noteq> Some derived)
               then Inl ValidationError else Inr derived)
      else (case sc_mode q of
         None \<Rightarrow> Inl ValidationError
       | Some RM_FRONTEND_ONLY \<Rightarrow>
           (if sc_frontend_build_number q = None \<or> sc_backend_build_number q \<noteq> None
            then Inl ValidationError else Inr RM_FRONTEND_ONLY)
       | Some RM_BACKEND_ONLY \<Rightarrow>
           (if sc_backend_build_number q = None \<or> sc_frontend_build_number q \<noteq> None
            then Inl ValidationError else Inr RM_BACKEND_ONLY)
       | Some m \<Rightarrow>
           (if sc_frontend_build_number q = None \<or> sc_backend_build_number q = None
            then Inl ValidationError else Inr m)))"

definition production_incomplete :: "schedule_payload \<Rightarrow> bool" where
  "production_incomplete q \<longleftrightarrow>
     (case sc_target q of None \<Rightarrow> False
      | Some t \<Rightarrow> t \<noteq> [] \<and> lower t = ''production'' \<and> (sc_release_version q = None \<or> sc_release_notes q = None))"

text \<open>
  \<open>validate_builds_and_time\<close>. \<open>zones name\<close> is the time zone data base: None for an unknown name,
  else what a local time of that zone is as an instant.
\<close>

definition validate_builds_and_time ::
    "(string \<Rightarrow> (int \<Rightarrow> time) option) \<Rightarrow> schedule_payload \<Rightarrow> exn + schedule_payload" where
  "validate_builds_and_time zones q =
     (if production_incomplete q then Inl ValidationError
      else (case derived_mode q of
         Inl e \<Rightarrow> Inl e
       | Inr m \<Rightarrow>
           (case zones (sc_timezone q) of
              None \<Rightarrow> Inl ValidationError
            | Some zone \<Rightarrow>
                Inr (q\<lparr>sc_mode := Some m,
                  sc_scheduled_for := (case sc_scheduled_for q of Local_Time t \<Rightarrow> Instant (zone t) | i \<Rightarrow> i)\<rparr>))))"

definition schedule_create ::
    "(string \<Rightarrow> (int \<Rightarrow> time) option) \<Rightarrow> schedule_payload \<Rightarrow> exn + schedule_payload" where
  "schedule_create zones q =
     (if \<not> (at_most 100 (sc_project_id q) \<and> positive (sc_frontend_build_number q) \<and>
            positive (sc_backend_build_number q) \<and> sc_timezone q \<noteq> [] \<and> text_len (sc_timezone q) \<le> 100 \<and>
            at_most 255 (sc_requested_by q)) then Inl ValidationError
      else case each_ok component_build (sc_components q) of Inl e \<Rightarrow> Inl e | Inr components \<Rightarrow>
           (case optional_ok (non_empty_string 100) (sc_target q) of Inl e \<Rightarrow> Inl e | Inr target \<Rightarrow>
           (case validate_recipients (sc_notification_recipients q) of Inl e \<Rightarrow> Inl e | Inr recipients \<Rightarrow>
           (case release_detail 100 True (sc_release_version q) of Inl e \<Rightarrow> Inl e | Inr version \<Rightarrow>
           (case release_detail 4000 False (sc_release_notes q) of Inl e \<Rightarrow> Inl e | Inr notes \<Rightarrow>
             validate_builds_and_time zones
               (q\<lparr>sc_components := components, sc_target := target, sc_notification_recipients := recipients,
                  sc_release_version := version, sc_release_notes := notes\<rparr>))))))"

subsection \<open>Creating a schedule\<close>

fun resolve_keys ::
    "world \<Rightarrow> project_row \<Rightarrow> (string \<times> int) list \<Rightarrow> exn + (component_row \<times> int) list" where
  "resolve_keys w p [] = Inr []"
| "resolve_keys w p ((key, build_number) # rest) =
     (case for_key w key p of
        Inl e \<Rightarrow> Inl e
      | Inr c \<Rightarrow> (case resolve_keys w p rest of Inl e \<Rightarrow> Inl e | Inr sel \<Rightarrow> Inr ((c, build_number) # sel)))"

definition schedule_components ::
    "world \<Rightarrow> project_row \<Rightarrow> schedule_payload \<Rightarrow> exn + (component_row \<times> int) list" where
  "schedule_components w p q =
     (case resolve_keys w p
             (requested_pairs (sc_components q) (sc_backend_build_number q) (sc_frontend_build_number q)) of
        Inl e \<Rightarrow> Inl e
      | Inr sel \<Rightarrow> Inr (sort_key (\<lambda>s. c_position (fst s)) sel))"

text \<open>An instant is already in UTC here; a body that was not validated has no local time converted.\<close>

definition instant_of :: "moment \<Rightarrow> time" where
  "instant_of m = (case m of Instant t \<Rightarrow> t | Local_Time t \<Rightarrow> t)"

text \<open>The flush draws the identifier and reads the clock for the two column defaults.\<close>

definition new_schedule ::
    "env \<Rightarrow> world \<Rightarrow> project_row \<Rightarrow> (component_row \<times> int) list \<Rightarrow> schedule_payload \<Rightarrow> attachment option \<Rightarrow> schedule" where
  "new_schedule v w p sel q att =
     \<lparr>s_id = new_uuid v w, s_project_id = Some (p_id p),
      s_mode = (case sc_mode q of None \<Rightarrow> RM_SINGLE | Some m \<Rightarrow> m),
      s_selected_component_keys = Some (join '','' (map (c_key \<circ> fst) sel)),
      s_frontend_build_number = None, s_backend_build_number = None,
      s_target = py_or (sc_target q) (p_default_target p),
      s_scheduled_for_utc = instant_of (sc_scheduled_for q), s_timezone = sc_timezone q,
      s_status = SS_PENDING, s_requested_by = sc_requested_by q,
      s_notification_recipients =
        (let rs = join '','' (sc_notification_recipients q) in if rs = [] then None else Some rs),
      s_release_version = sc_release_version q, s_release_notes = sc_release_notes q, s_attachment = att,
      s_deployment_id = None, s_release_bundle_id = None, s_error_message = None,
      s_created_at = now_of v (tick w), s_updated_at = now_of v (tick (tick w)),
      s_started_at = None, s_finished_at = None,
      s_component_builds = map (\<lambda>(c, n). \<lparr>sb_component_id = c_id c, sb_component_key = c_key c,
        sb_build_number = n\<rparr>) sel\<rparr>"

definition insert_schedule :: "schedule \<Rightarrow> world \<Rightarrow> world" where
  "insert_schedule s = set_tables (\<lambda>t. t\<lparr>t_schedules := t_schedules t @ [s]\<rparr>)"

definition schedule_keys_ok :: "schedule list \<Rightarrow> bool" where
  "schedule_keys_ok ss \<longleftrightarrow> keyed s_id ss \<and> list_all (\<lambda>s. keyed sb_component_id (s_component_builds s)) ss"

definition create_schedule ::
    "env \<Rightarrow> mail_settings \<Rightarrow> schedule_payload \<Rightarrow> attachment option \<Rightarrow> world \<Rightarrow> (exn + schedule) \<times> world" where
  "create_schedule v ms q att w =
     (case lookup_project w (sc_project_id q) of
        Inl e \<Rightarrow> (Inl e, w)
      | Inr p \<Rightarrow>
          (case schedule_components w p q of
             Inl e \<Rightarrow> (Inl e, w)
           | Inr sel \<Rightarrow>
               (let s = new_schedule v w p sel q att;
                    w1 = insert_schedule s (tick (tick (tick w)))
                in if \<not> schedule_keys_ok (t_schedules (w_cur w1)) then (Inl IntegrityError, rollback w1)
                   else (Inr s, commit (snd (enqueue_schedule_created v ms s w1))))))"

subsection \<open>Reading and cancelling\<close>

definition get_schedule :: "string \<Rightarrow> world \<Rightarrow> exn + schedule" where
  "get_schedule i w = (case find_schedule w i of None \<Rightarrow> Inl ScheduleNotFoundError | Some s \<Rightarrow> Inr s)"

definition list_schedules ::
    "schedule_status option \<Rightarrow> nat \<Rightarrow> nat \<Rightarrow> world \<Rightarrow> schedule list \<times> nat" where
  "list_schedules status limit offset w =
     (let items = filter (\<lambda>s. status = None \<or> status = Some (s_status s)) (t_schedules (w_cur w))
      in (take limit (drop offset (rev (sort_key (\<lambda>s. (s_scheduled_for_utc s, s_id s)) items))), length items))"

definition schedule_cancelled :: "time \<Rightarrow> schedule \<Rightarrow> schedule" where
  "schedule_cancelled at s = s\<lparr>s_status := SS_CANCELLED, s_updated_at := at, s_finished_at := Some at\<rparr>"

text \<open>The read with its check, and the write that follows it in the same request.\<close>

definition cancel_check :: "string \<Rightarrow> world \<Rightarrow> exn + schedule" where
  "cancel_check i w =
     (case get_schedule i w of
        Inl e \<Rightarrow> Inl e
      | Inr s \<Rightarrow> (if s_status s \<noteq> SS_PENDING
          then Inl (InvalidScheduleTransitionError ''Only pending schedules can be cancelled'') else Inr s))"

definition cancel_write :: "env \<Rightarrow> string \<Rightarrow> world \<Rightarrow> world" where
  "cancel_write v i w = commit (upd_schedule i (schedule_cancelled (now_of v w)) (tick w))"

definition cancel_schedule :: "env \<Rightarrow> string \<Rightarrow> world \<Rightarrow> (exn + schedule) \<times> world" where
  "cancel_schedule v i w =
     (case cancel_check i w of
        Inl e \<Rightarrow> (Inl e, w)
      | Inr _ \<Rightarrow> (let w1 = cancel_write v i w in (get_schedule i w1, w1)))"

subsection \<open>Running what is due\<close>

text \<open>\<open>_selection_for\<close>: the child rows by key, else the two columns of a v2.x schedule.\<close>

definition selection_for :: "schedule \<Rightarrow> (string \<times> int) list" where
  "selection_for s =
     (if s_component_builds s \<noteq> []
      then map (\<lambda>b. (sb_component_key b, sb_build_number b)) (sort_key sb_component_key (s_component_builds s))
      else (let backend = (BACKEND_KEY, s_backend_build_number s); frontend = (FRONTEND_KEY, s_frontend_build_number s);
                legacy = (case s_mode s of RM_FRONTEND_ONLY \<Rightarrow> [frontend] | RM_BACKEND_ONLY \<Rightarrow> [backend]
                          | _ \<Rightarrow> [backend, frontend])
            in map (\<lambda>(k, n). (k, the n)) (filter (\<lambda>(k, n). n \<noteq> None) legacy)))"

definition schedule_claimed :: "time \<Rightarrow> schedule \<Rightarrow> schedule" where
  "schedule_claimed at s = s\<lparr>s_status := SS_RUNNING, s_started_at := Some at, s_updated_at := at\<rparr>"

definition claim_schedule :: "env \<Rightarrow> string \<Rightarrow> world \<Rightarrow> bool \<times> world" where
  "claim_schedule v i w =
     (case find_schedule w i of
        None \<Rightarrow> (False, commit (tick w))
      | Some s \<Rightarrow>
          (if s_status s = SS_PENDING
           then (True, commit (upd_schedule i (schedule_claimed (now_of v w)) (tick w)))
           else (False, commit (tick w))))"

text \<open>\<open>BundlePromoteRequest\<close> of schemas/orchestration.py, for a selection by component.\<close>

definition bundle_promote_request ::
    "string option \<Rightarrow> (string \<times> int) list \<Rightarrow> string \<Rightarrow> string option \<Rightarrow> exn + bundle_request" where
  "bundle_promote_request project_id selection target requested_by =
     (case each_ok component_build selection of
        Inl e \<Rightarrow> Inl e
      | Inr components \<Rightarrow>
          (case non_empty_string 100 target of
             Inl e \<Rightarrow> Inl e
           | Inr t \<Rightarrow>
               (if components = [] \<or> \<not> distinct (map fst components) \<or> \<not> at_most 100 project_id \<or> \<not> at_most 255 requested_by
                then Inl ValidationError
                else Inr \<lparr>bq_project_id = project_id, bq_components = components,
                       bq_frontend_build_number = None, bq_backend_build_number = None,
                       bq_target = Some t, bq_requested_by = requested_by\<rparr>)))"

text \<open>The two request bodies of a run, validated again by their models.\<close>

definition scheduled_bundle_request :: "schedule \<Rightarrow> (string \<times> int) list \<Rightarrow> exn + bundle_request" where
  "scheduled_bundle_request s selection =
     bundle_promote_request (s_project_id s) selection (s_target s) (s_requested_by s)"

definition promote_request_ok :: "schedule \<Rightarrow> bool" where
  "promote_request_ok s \<longleftrightarrow> s_target s \<noteq> [] \<and> text_len (s_target s) \<le> 100 \<and> at_most 255 (s_requested_by s)"

text \<open>What the run links the schedule to.\<close>

datatype run_link = ToBundle string | ToDeployment string

definition schedule_env :: "env \<Rightarrow> schedule \<Rightarrow> env" where
  "schedule_env v s = v\<lparr>v_actor := s_requested_by s, v_actor_source := as_value AS_SCHEDULE\<rparr>"

definition run_schedule :: "env \<Rightarrow> schedule \<Rightarrow> world \<Rightarrow> (exn + run_link) \<times> world" where
  "run_schedule v s w =
     (let v1 = schedule_env v s
      in case selection_for s of
           [] \<Rightarrow> (Inl IndexError, w)
         | [(key, build_number)] \<Rightarrow>
             (case lookup_project w (s_project_id s) of
                Inl e \<Rightarrow> (Inl e, w)
              | Inr p \<Rightarrow> (case for_key w key p of
                  Inl e \<Rightarrow> (Inl e, w)
                | Inr c \<Rightarrow>
                    (if \<not> promote_request_ok s then (Inl ValidationError, w)
                     else (case promote_standalone v1 c build_number (Some (s_target s)) (s_requested_by s) None w of
                             (Inl e, w1) \<Rightarrow> (Inl e, w1)
                           | (Inr d, w1) \<Rightarrow> (Inr (ToDeployment (d_id d)), w1)))))
         | selection \<Rightarrow>
             (case scheduled_bundle_request s selection of
                Inl e \<Rightarrow> (Inl e, w)
              | Inr q \<Rightarrow>
                  (case create_bundle v1 q None None None None w of
                     (Inl e, w1) \<Rightarrow> (Inl e, w1)
                   | (Inr b, w1) \<Rightarrow> (Inr (ToBundle (b_id b)), w1))))"

definition RUN_FAILED_MESSAGE :: string where
  "RUN_FAILED_MESSAGE = ''Scheduled deployment failed; inspect the deployment history.''"

fun schedule_linked :: "run_link \<Rightarrow> schedule \<Rightarrow> schedule" where
  "schedule_linked (ToBundle b) s = s\<lparr>s_release_bundle_id := Some b\<rparr>"
| "schedule_linked (ToDeployment d) s = s\<lparr>s_deployment_id := Some d\<rparr>"

fun schedule_outcome :: "exn + run_link \<Rightarrow> schedule \<Rightarrow> schedule" where
  "schedule_outcome (Inr l) s = (schedule_linked l s)\<lparr>s_status := SS_SUCCEEDED, s_error_message := None\<rparr>"
| "schedule_outcome (Inl e) s = s\<lparr>s_status := SS_FAILED, s_error_message := Some RUN_FAILED_MESSAGE\<rparr>"

definition schedule_finished :: "exn + run_link \<Rightarrow> time \<Rightarrow> schedule \<Rightarrow> schedule" where
  "schedule_finished r at s = (schedule_outcome r s)\<lparr>s_finished_at := Some at, s_updated_at := at\<rparr>"

text \<open>An exception is rolled back first; the verdict is assigned whatever the row says by now.\<close>

definition finish_schedule :: "env \<Rightarrow> string \<Rightarrow> exn + run_link \<Rightarrow> world \<Rightarrow> world" where
  "finish_schedule v i r w =
     (let w1 = (if isl r then rollback w else w)
      in commit (upd_schedule i (schedule_finished r (now_of v w1)) (tick w1)))"

definition run_one :: "env \<Rightarrow> string \<Rightarrow> world \<Rightarrow> world" where
  "run_one v i w0 =
     (case claim_schedule v i (open_session w0) of
        (False, w) \<Rightarrow> w
      | (True, w) \<Rightarrow>
          (case find_schedule w i of
             None \<Rightarrow> w
           | Some s \<Rightarrow> (case run_schedule v s w of (r, w1) \<Rightarrow> finish_schedule v i r w1)))"

definition due_schedules :: "env \<Rightarrow> time \<Rightarrow> world \<Rightarrow> string list" where
  "due_schedules v now w =
     map s_id (take (v_scheduler_batch_size v) (sort_key s_scheduled_for_utc
       (filter (\<lambda>s. s_status s = SS_PENDING \<and> s_scheduled_for_utc s \<le> now) (t_schedules (w_cur w)))))"

fun run_each :: "env \<Rightarrow> string list \<Rightarrow> world \<Rightarrow> world" where
  "run_each v [] w = w"
| "run_each v (i # rest) w = run_each v rest (run_one v i w)"

definition run_due :: "env \<Rightarrow> world \<Rightarrow> nat \<times> world" where
  "run_due v w0 =
     (let w = open_session w0; ids = due_schedules v (now_of v w) w
      in (length ids, run_each v ids (tick w)))"

subsection \<open>Refreshing what schedules started\<close>

text \<open>SQLite sorts NULL first.\<close>

definition refreshable_schedules :: "env \<Rightarrow> world \<Rightarrow> string list" where
  "refreshable_schedules v w =
     map s_id (take (v_scheduler_batch_size v)
       (sort_key (\<lambda>s. case s_finished_at s of None \<Rightarrow> (0::nat, 0) | Some t \<Rightarrow> (1, t))
         (filter (\<lambda>s. s_status s = SS_SUCCEEDED \<and> (s_deployment_id s \<noteq> None \<or> s_release_bundle_id s \<noteq> None))
           (t_schedules (w_cur w)))))"

definition poll_env :: "env \<Rightarrow> schedule \<Rightarrow> env" where
  "poll_env v s = v\<lparr>v_actor := s_requested_by s, v_actor_source := as_value AS_SYSTEM\<rparr>"

text \<open>Whether the schedule was refreshed; a schedule that vanished raises AttributeError.\<close>

definition refresh_linked :: "env \<Rightarrow> string \<Rightarrow> world \<Rightarrow> (exn + bool) \<times> world" where
  "refresh_linked v i w =
     (case find_schedule w i of
        None \<Rightarrow> (Inl AttributeError, w)
      | Some s \<Rightarrow>
          (if py_truthy (s_release_bundle_id s)
           then (case get_bundle (the (s_release_bundle_id s)) w of
                   Inl e \<Rightarrow> (Inl e, w)
                 | Inr b \<Rightarrow>
                     (if b_status b \<in> {BS_SUCCESS, BS_FAILED, BS_PARTIAL_FAILURE} then (Inr False, w)
                      else (case refresh_bundle (poll_env v s) (b_id b) w of
                              (Inl e, w1) \<Rightarrow> (Inl e, w1) | (Inr _, w1) \<Rightarrow> (Inr True, w1))))
           else if py_truthy (s_deployment_id s)
           then (case get_deployment (the (s_deployment_id s)) w of
                   Inl e \<Rightarrow> (Inl e, w)
                 | Inr d \<Rightarrow>
                     (if d_status d \<in> {DS_SUCCESS, DS_FAILED, DS_CANCELLED} then (Inr False, w)
                      else (case refresh_standalone (poll_env v s) (d_id d) w of
                              (Inl e, w1) \<Rightarrow> (Inl e, w1) | (Inr _, w1) \<Rightarrow> (Inr True, w1))))
           else (Inr False, w)))"

definition refresh_one :: "env \<Rightarrow> string \<Rightarrow> world \<Rightarrow> nat \<times> world" where
  "refresh_one v i w =
     (let r = refresh_linked v i (open_session w)
      in (case fst r of Inr True \<Rightarrow> 1 | _ \<Rightarrow> 0, end_request r))"

definition refresh_scheduled_deployments :: "env \<Rightarrow> world \<Rightarrow> nat \<times> world" where
  "refresh_scheduled_deployments v w0 =
     (let w = open_session w0 in sweep (refresh_one v) (refreshable_schedules v w) w)"

end
