(* ===== verification/Schedule_Laws.thy ===== *)
theory Schedule_Laws
  imports Schedules Notification_Laws
begin

section \<open>What schedules rest on\<close>

subsection \<open>Exclusive claims\<close>

text \<open>
  The interface of a claim by conditional UPDATE of one row among many: a claim that succeeds finds
  its row free and leaves it taken, and no claim frees a row. As long as nothing else frees a row that
  was claimed, each is claimed at most once. The list of \<open>claims_run\<close> holds the rows claimed so far.
\<close>

inductive claims_run :: "('a \<Rightarrow> 'k \<Rightarrow> 's \<Rightarrow> bool \<times> 's) \<Rightarrow> ('k \<Rightarrow> 's \<Rightarrow> bool) \<Rightarrow> 's \<Rightarrow> 'k list \<Rightarrow> bool"
  for claim free where
  start: "claims_run claim free w []"
| won: "claims_run claim free w L \<Longrightarrow> claim a i w = (True, w') \<Longrightarrow> claims_run claim free w' (i # L)"
| lost: "claims_run claim free w L \<Longrightarrow> claim a i w = (False, w') \<Longrightarrow> claims_run claim free w' L"
| other: "claims_run claim free w L \<Longrightarrow> (\<And>i. i \<in> set L \<Longrightarrow> free i w' \<Longrightarrow> free i w) \<Longrightarrow> claims_run claim free w' L"

locale exclusive_claim =
  fixes claim :: "'a \<Rightarrow> 'k \<Rightarrow> 's \<Rightarrow> bool \<times> 's" and free :: "'k \<Rightarrow> 's \<Rightarrow> bool"
  assumes claim_wins: "claim a i w = (True, w') \<Longrightarrow> free i w \<and> \<not> free i w'"
    and claim_frees: "claim a i w = (won, w') \<Longrightarrow> free j w' \<Longrightarrow> free j w"
begin

lemma claimed_at_most_once: "claims_run claim free w L \<Longrightarrow> distinct L \<and> (\<forall>i \<in> set L. \<not> free i w)"
proof (induction rule: claims_run.induct)
  case (won w L a i w')
  then show ?case using claim_wins [of a i w w'] claim_frees [of a i w True w'] by auto
next
  case (lost w L a i w')
  then show ?case using claim_frees [of a i w False w'] by auto
qed auto

end

definition schedule_at :: "world \<Rightarrow> string \<Rightarrow> schedule option" where
  "schedule_at w i = find_row s_id i (t_schedules (w_durable w))"

definition schedule_free :: "string \<Rightarrow> world \<Rightarrow> bool" where
  "schedule_free i w \<longleftrightarrow> (\<exists>s. schedule_at w i = Some s \<and> s_status s = SS_PENDING)"

lemma find_open_session [simp]: "find_schedule (open_session w) i = schedule_at w i"
  by (simp add: find_schedule_def schedule_at_def open_session_def)

lemma schedule_ops [simp]:
  "s_id (schedule_claimed at s) = s_id s" "s_id (schedule_cancelled at s) = s_id s"
  "s_id (schedule_interrupted at s) = s_id s" "s_id (schedule_finished r at s) = s_id s"
  "s_status (schedule_claimed at s) = SS_RUNNING" "s_status (schedule_cancelled at s) = SS_CANCELLED"
  "s_status (schedule_interrupted at s) = SS_FAILED"
  "s_status (schedule_finished r at s) = (if isl r then SS_FAILED else SS_SUCCEEDED)"
proof -
  show "s_id (schedule_finished r at s) = s_id s"
    "s_status (schedule_finished r at s) = (if isl r then SS_FAILED else SS_SUCCEEDED)"
    by (cases r; cases "projr r"; auto simp: schedule_finished_def)+
qed (simp_all add: schedule_claimed_def schedule_cancelled_def schedule_interrupted_def)

lemma upd_schedule_at [simp]:
  assumes "\<And>s. s_id (f s) = s_id s"
  shows "schedule_at (commit (upd_schedule i f w)) j =
    (if j = i then map_option f (find_schedule w i) else find_schedule w j)"
  using assms by (simp add: schedule_at_def find_schedule_def upd_schedule_def)

lemma claim_schedule_cases:
  obtains (won) s where "find_schedule w i = Some s" "s_status s = SS_PENDING"
      "claim_schedule v i w = (True, commit (upd_schedule i (schedule_claimed (now_of v w)) (tick w)))"
  | (lost) "\<forall>s. find_schedule w i = Some s \<longrightarrow> s_status s \<noteq> SS_PENDING"
      "claim_schedule v i w = (False, commit (tick w))"
  by (cases "find_schedule w i"; cases "\<exists>s. find_schedule w i = Some s \<and> s_status s = SS_PENDING")
    (auto simp: claim_schedule_def)

lemma find_schedule_tick [simp]: "find_schedule (tick w) i = find_schedule w i"
  by (simp add: find_schedule_def)

lemma schedule_at_tick [simp]: "schedule_at (commit (tick (open_session w))) i = schedule_at w i"
  by (simp add: schedule_at_def open_session_def)

lemma find_schedule_session [simp]: "find_schedule (tick (open_session w)) i = schedule_at w i"
  by simp

abbreviation claim_in_session :: "env \<Rightarrow> unit \<Rightarrow> string \<Rightarrow> world \<Rightarrow> bool \<times> world" where
  "claim_in_session v u i w \<equiv> claim_schedule v i (open_session w)"

interpretation schedule_claim: exclusive_claim "claim_in_session v" schedule_free
proof
  fix u :: unit and i j w won w'
  show "schedule_free i w \<and> \<not> schedule_free i w'" if "claim_schedule v i (open_session w) = (True, w')"
    using that by (cases rule: claim_schedule_cases [of "open_session w" i v])
      (auto simp: schedule_free_def schedule_at_def find_schedule_def upd_schedule_def open_session_def)
  show "schedule_free j w" if "claim_schedule v i (open_session w) = (won, w')" "schedule_free j w'"
    using that by (cases rule: claim_schedule_cases [of "open_session w" i v])
      (auto simp: schedule_free_def split: if_splits)
qed

subsection \<open>A run leaves the schedules alone\<close>

lemma run_schedule_frame: "across same_others w (snd (run_schedule v s w))"
proof -
  note b = others.after_create_bundle [OF others.across_refl [of w]]
  note p = others.after_promote_standalone [OF others.across_refl [of w]]
  show ?thesis
  proof (cases "selection_for s" rule: remdups_adj.cases)
    case 1
    then show ?thesis by (simp add: run_schedule_def others.across_refl)
  next
    case (2 x)
    obtain key n where x: "x = (key, n)" by force
    show ?thesis
      using p by (auto simp: run_schedule_def 2 x Let_def others.across_refl split: sum.split prod.split)
        (metis snd_conv)+
  next
    case (3 x y xs)
    then show ?thesis
      using b by (auto simp: run_schedule_def Let_def others.across_refl split: sum.split prod.split)
        (metis snd_conv)+
  qed
qed

lemma run_schedule_schedules:
  assumes "run_schedule v s w = (r, w')" and "w_durable w = w_cur w"
  shows "t_schedules (w_cur w') = t_schedules (w_cur w)" and "t_schedules (w_durable w') = t_schedules (w_cur w)"
proof -
  have "same_others (w_cur w) (w_cur w') \<and> same_others (w_cur w) (w_durable w')"
    using acrossD [OF run_schedule_frame [of w v s], of "w_cur w"] assms by (simp add: same_others_def)
  then show "t_schedules (w_cur w') = t_schedules (w_cur w)" "t_schedules (w_durable w') = t_schedules (w_cur w)"
    by (simp_all add: same_others_tables)
qed

lemma finish_schedule_at:
  assumes "t_schedules (w_cur w) = t_schedules (w_durable w)"
  shows "\<exists>at. t_schedules (w_durable (finish_schedule v i r w)) =
      upd_row s_id i (schedule_finished r at) (t_schedules (w_durable w)) \<and>
    w_cur (finish_schedule v i r w) = w_durable (finish_schedule v i r w)"
  using assms by (auto simp: finish_schedule_def Let_def upd_schedule_def)

text \<open>One run, from the claim to the verdict.\<close>

lemma run_one_outcome:
  assumes "schedule_at w i = Some s"
  shows "if s_status s = SS_PENDING
    then \<exists>x started at. t_schedules (w_durable (run_one v i w)) =
      upd_row s_id i (schedule_finished (fst (run_schedule v (schedule_claimed started s) x)) at \<circ>
        schedule_claimed started) (t_schedules (w_durable w))
    else t_schedules (w_durable (run_one v i w)) = t_schedules (w_durable w)"
proof (cases "s_status s = SS_PENDING")
  case True
  let ?w = "open_session w"
  let ?f = "schedule_claimed (now_of v ?w)"
  define w1 where "w1 = commit (upd_schedule i ?f (tick ?w))"
  have f: "find_schedule ?w i = Some s" using assms by simp
  have c: "claim_schedule v i ?w = (True, w1)" using f True by (simp add: claim_schedule_def w1_def)
  have w1: "w_durable w1 = w_cur w1" "t_schedules (w_cur w1) = upd_row s_id i ?f (t_schedules (w_durable w))"
    by (simp_all add: w1_def upd_schedule_def open_session_def)
  have f1: "find_schedule w1 i = Some (?f s)"
    using f w1(2) by (simp add: find_schedule_def open_session_def)
  obtain r w2 where r: "run_schedule v (?f s) w1 = (r, w2)" by force
  obtain at where "t_schedules (w_durable (finish_schedule v i r w2)) =
      upd_row s_id i (schedule_finished r at) (t_schedules (w_cur w1))"
    using finish_schedule_at [of w2 v i r] run_schedule_schedules [OF r w1(1)] by auto
  then have "t_schedules (w_durable (run_one v i w)) =
      upd_row s_id i (schedule_finished (fst (run_schedule v (?f s) w1)) at \<circ> ?f) (t_schedules (w_durable w))"
    using c f1 r w1(2) by (simp add: run_one_def)
  then show ?thesis unfolding if_P [OF True] by blast
next
  case False
  then have "run_one v i w = commit (tick (open_session w))"
    using assms by (simp add: run_one_def claim_schedule_def)
  then show ?thesis using False by (simp add: open_session_def)
qed

subsection \<open>Histories of schedules\<close>

text \<open>
  What any number of processes do to the schedules, in any order: runners claim and finish, with
  whatever result the orchestrator had; requests create and cancel, the write of a cancellation
  coming at any time after its check; recovery releases claims; everything else leaves the schedules
  alone. The list holds the claims that succeeded.
\<close>

inductive schedule_history :: "env \<Rightarrow> mail_settings \<Rightarrow> world \<Rightarrow> string list \<Rightarrow> bool" for v ms where
  start: "keyed s_id (t_schedules (w_durable w)) \<Longrightarrow> t_schedules (w_cur w) = t_schedules (w_durable w) \<Longrightarrow>
    schedule_history v ms w []"
| claimed: "schedule_history v ms w L \<Longrightarrow> claim_schedule v i (open_session w) = (True, w') \<Longrightarrow>
    schedule_history v ms w' (i # L)"
| missed: "schedule_history v ms w L \<Longrightarrow> claim_schedule v i (open_session w) = (False, w') \<Longrightarrow>
    schedule_history v ms w' L"
| finished: "schedule_history v ms w L \<Longrightarrow> schedule_history v ms (finish_schedule v i r w) L"
| cancelled: "schedule_history v ms w L \<Longrightarrow> schedule_history v ms (cancel_write v i (open_session w)) L"
| recovered: "schedule_history v ms w L \<Longrightarrow> schedule_history v ms (snd (release_claim v i w)) L"
| created: "schedule_history v ms w L \<Longrightarrow>
    schedule_history v ms (end_request (create_schedule v ms q att (open_session w))) L"
| elsewhere: "schedule_history v ms w L \<Longrightarrow> t_schedules (w_durable w') = t_schedules (w_durable w) \<Longrightarrow>
    t_schedules (w_cur w') = t_schedules (w_durable w) \<Longrightarrow> schedule_history v ms w' L"

text \<open>A change after which no row that was there is newly PENDING.\<close>

definition schedules_step :: "schedule list \<Rightarrow> schedule list \<Rightarrow> bool" where
  "schedules_step ss ss' \<longleftrightarrow> (keyed s_id ss \<longrightarrow> keyed s_id ss') \<and>
     (\<forall>i s. find_row s_id i ss = Some s \<longrightarrow> (\<exists>s'. find_row s_id i ss' = Some s' \<and>
        (s_status s' = SS_PENDING \<longrightarrow> s_status s = SS_PENDING)))"

lemma schedules_step_refl [simp]: "schedules_step ss ss"
  by (simp add: schedules_step_def)

lemma schedules_step_upd:
  assumes "\<And>s. s_id (f s) = s_id s" and "\<And>s. s_status (f s) \<noteq> SS_PENDING"
  shows "schedules_step ss (upd_row s_id i f ss)"
proof -
  have "find_row s_id j (upd_row s_id i f ss) =
      (if j = i then map_option f (find_row s_id j ss) else find_row s_id j ss)" for j
    using assms(1) by simp
  then show ?thesis using assms by (auto simp: schedules_step_def)
qed

lemma enqueue_schedule_created_schedules [simp]:
  "t_schedules (w_cur (snd (enqueue_schedule_created v ms s w))) = t_schedules (w_cur w)"
  by (simp add: enqueue_schedule_created_def Let_def insert_mail_def)

lemma create_schedule_step:
  assumes "w_cur w = w_durable w" and "u = end_request (create_schedule v ms q att w)"
  shows "schedules_step (t_schedules (w_durable w)) (t_schedules (w_durable u)) \<and>
    t_schedules (w_cur u) = t_schedules (w_durable u)"
proof -
  have app: "schedules_step ss (ss @ [s])" if "schedule_keys_ok (ss @ [s])" for ss s
    using that by (auto simp: schedules_step_def schedule_keys_ok_def find_row_append)
  show ?thesis
    unfolding assms(2) using assms(1) app
    by (auto simp: create_schedule_def end_request_def Let_def insert_schedule_def split: sum.split)
qed

definition claims_at :: "env \<Rightarrow> string list \<Rightarrow> world \<Rightarrow> bool" where
  "claims_at v L w \<longleftrightarrow> keyed s_id (t_schedules (w_durable w)) \<and>
     t_schedules (w_cur w) = t_schedules (w_durable w) \<and> (\<forall>i \<in> set L. schedule_at w i \<noteq> None) \<and>
     claims_run (claim_in_session v) schedule_free w L"

lemma claims_at_step:
  assumes "claims_at v L w" and "schedules_step (t_schedules (w_durable w)) (t_schedules (w_durable w'))"
    and "t_schedules (w_cur w') = t_schedules (w_durable w')"
  shows "claims_at v L w'"
proof -
  have at: "\<forall>i \<in> set L. schedule_at w' i \<noteq> None"
    using assms(1,2) by (force simp: claims_at_def schedules_step_def schedule_at_def)
  have "schedule_free i w" if "i \<in> set L" "schedule_free i w'" for i
    using assms(1,2) that by (force simp: claims_at_def schedules_step_def schedule_free_def schedule_at_def)
  then have "claims_run (claim_in_session v) schedule_free w' L"
    using assms(1) by (auto simp: claims_at_def intro: claims_run.other)
  then show ?thesis using assms at by (auto simp: claims_at_def schedules_step_def)
qed

lemma claims_at_claimed:
  assumes "claims_at v L w" and "claim_schedule v i (open_session w) = (True, w')"
  shows "claims_at v (i # L) w'"
proof -
  obtain s where s: "schedule_at w i = Some s" "w' = commit (upd_schedule i
      (schedule_claimed (now_of v (open_session w))) (tick (open_session w)))"
    using assms(2) by (auto simp: claim_schedule_def split: option.splits if_splits)
  have st: "schedules_step (t_schedules (w_durable w)) (t_schedules (w_durable w'))"
    unfolding s(2) by (simp add: upd_schedule_def open_session_def schedules_step_upd)
  have c: "claims_at v L w'"
    by (rule claims_at_step [OF assms(1) st]) (simp add: s(2))
  have "schedule_at w' i \<noteq> None" using st s(1) by (force simp: schedules_step_def schedule_at_def)
  moreover have "claims_run (claim_in_session v) schedule_free w' (i # L)"
    using assms by (auto simp: claims_at_def intro: claims_run.won)
  ultimately show ?thesis using c by (auto simp: claims_at_def)
qed

lemma history_claims:
  assumes "schedule_history v ms w L"
  shows "claims_at v L w"
  using assms
proof induction
  case (start w)
  then show ?case by (auto simp: claims_at_def intro: claims_run.start)
next
  case (claimed w L i w')
  then show ?case by (meson claims_at_claimed)
next
  case (missed w L i w')
  then have "w' = commit (tick (open_session w))"
    by (auto simp: claim_schedule_def split: option.splits if_splits)
  then show ?case using missed.IH claims_at_step [where w' = w'] by (fastforce simp: open_session_def)
next
  case (finished w L i r)
  note c = this(2)
  then have "t_schedules (w_cur w) = t_schedules (w_durable w)" by (simp add: claims_at_def)
  from finish_schedule_at [OF this, of v i r] show ?case
    using claims_at_step [OF c, of "finish_schedule v i r w"] schedules_step_upd [of "schedule_finished r _"]
    by (metis schedule_ops(4,8) schedule_status.distinct(3,5))
next
  case (cancelled w L i)
  note c = this(2)
  have "schedules_step (t_schedules (w_durable w)) (t_schedules (w_durable (cancel_write v i (open_session w))))"
    by (simp add: cancel_write_def upd_schedule_def open_session_def schedules_step_upd)
  from claims_at_step [OF c this] show ?case by (auto simp: cancel_write_def)
next
  case (recovered w L i)
  note c = this(2)
  have "schedules_step (t_schedules (w_durable w)) (t_schedules (w_durable (snd (release_claim v i w)))) \<and>
      t_schedules (w_cur (snd (release_claim v i w))) = t_schedules (w_durable (snd (release_claim v i w)))"
    by (auto simp: release_claim_def Let_def upd_schedule_def open_session_def schedules_step_upd split: option.split)
  then show ?case using claims_at_step [OF c] by blast
next
  case (created w L q att)
  note c = this(2)
  have "w_cur (open_session w) = w_durable (open_session w)" "w_durable (open_session w) = w_durable w"
    by (simp_all add: open_session_def)
  from create_schedule_step [OF this(1) refl, of v ms q att] this(2) show ?case
    using claims_at_step [OF c] by metis
next
  case (elsewhere w L w')
  then show ?case by (metis claims_at_step schedules_step_refl)
qed

subsection \<open>A round of the runner\<close>

lemma run_one_history:
  assumes "schedule_history v ms w L"
  shows "\<exists>L'. set L' \<subseteq> {i} \<and> schedule_history v ms (run_one v i w) (L' @ L)"
proof (cases "claim_schedule v i (open_session w)")
  case (Pair won w1)
  show ?thesis
  proof (cases won)
    case False
    then have "schedule_history v ms (run_one v i w) L"
      using Pair schedule_history.missed [OF assms] by (simp add: run_one_def)
    then show ?thesis by (intro exI [of _ "[]"]) simp
  next
    case True
    have "claim_schedule v i (open_session w) = (True, w1)" using Pair True by simp
    then have h: "schedule_history v ms w1 (i # L)" by (rule schedule_history.claimed [OF assms])
    have w1: "w_durable w1 = w_cur w1"
      using Pair True by (auto simp: claim_schedule_def split: option.splits if_splits)
    have "schedule_history v ms (run_one v i w) (i # L)"
    proof (cases "find_schedule w1 i")
      case None
      then show ?thesis using h Pair True by (simp add: run_one_def)
    next
      case (Some s)
      obtain r w2 where r: "run_schedule v s w1 = (r, w2)" by force
      have "schedule_history v ms w2 (i # L)"
        using schedule_history.elsewhere [OF h] run_schedule_schedules [OF r w1] w1 by simp
      then show ?thesis
        using schedule_history.finished Pair True Some r by (simp add: run_one_def)
    qed
    then show ?thesis by (intro exI [of _ "[i]"]) simp
  qed
qed

lemma run_each_history:
  assumes "schedule_history v ms w L"
  shows "\<exists>L'. set L' \<subseteq> set ids \<and> schedule_history v ms (run_each v ids w) (L' @ L)"
  using assms
proof (induction ids arbitrary: w L)
  case Nil
  then show ?case by (intro exI [of _ "[]"]) simp
next
  case (Cons i ids)
  obtain L1 where L1: "set L1 \<subseteq> {i}" "schedule_history v ms (run_one v i w) (L1 @ L)"
    using run_one_history [OF Cons.prems] by blast
  obtain L2 where "set L2 \<subseteq> set ids" "schedule_history v ms (run_each v ids (run_one v i w)) (L2 @ L1 @ L)"
    using Cons.IH [OF L1(2)] by blast
  then show ?case using L1(1) by (intro exI [of _ "L2 @ L1"]) auto
qed

lemma run_each_append: "run_each v (is @ js) w = run_each v js (run_each v is w)"
  by (induction "is" arbitrary: w) simp_all

lemma run_each_others:
  assumes "distinct ids" and "\<forall>i \<in> set ids. schedule_free i w" and "k \<notin> set ids"
  shows "schedule_at (run_each v ids w) k = schedule_at w k"
  using assms
proof (induction ids arbitrary: w)
  case (Cons j ids)
  obtain s where s: "schedule_at w j = Some s" "s_status s = SS_PENDING"
    using Cons.prems(2) by (auto simp: schedule_free_def)
  obtain x st at where x: "t_schedules (w_durable (run_one v j w)) = upd_row s_id j (schedule_finished
      (fst (run_schedule v (schedule_claimed st s) x)) at \<circ> schedule_claimed st) (t_schedules (w_durable w))"
    using run_one_outcome [OF s(1), of v] s(2) by auto
  then have at: "schedule_at (run_one v j w) k = schedule_at w k" if "k \<noteq> j" for k
    using s(1) that by (simp add: schedule_at_def)
  have "\<forall>i \<in> set ids. i \<noteq> j" using Cons.prems(1) by auto
  then have "\<forall>i \<in> set ids. schedule_free i (run_one v j w)"
    using Cons.prems(2) at by (simp add: schedule_free_def)
  then show ?case using Cons.IH [of "run_one v j w"] Cons.prems(1,3) at [of k] by simp
qed simp

subsection \<open>One run, told by what the orchestrator did\<close>

text \<open>The orchestrator promoted the only component of the schedule, and returned that deployment.\<close>

definition ran_alone :: "env \<Rightarrow> schedule \<Rightarrow> world \<Rightarrow> dep_row \<Rightarrow> world \<Rightarrow> bool" where
  "ran_alone v s w d w' \<longleftrightarrow> (\<exists>key build p c.
     selection_for s = [(key, build)] \<and> lookup_project w (s_project_id s) = Inr p \<and> for_key w key p = Inr c \<and>
     s_target s \<noteq> [] \<and> text_len (s_target s) \<le> 100 \<and> at_most 255 (s_requested_by s) \<and>
     promote_standalone (v\<lparr>v_actor := s_requested_by s, v_actor_source := ''schedule''\<rparr>) c build
       (Some (s_target s)) (s_requested_by s) None w = (Inr d, w'))"

text \<open>The orchestrator created a release of the schedule's components, and returned it.\<close>

definition ran_together :: "env \<Rightarrow> schedule \<Rightarrow> world \<Rightarrow> bundle_row \<Rightarrow> world \<Rightarrow> bool" where
  "ran_together v s w b w' \<longleftrightarrow> (\<exists>q. length (selection_for s) > 1 \<and>
     bundle_promote_request (s_project_id s) (selection_for s) (s_target s) (s_requested_by s) = Inr q \<and>
     create_bundle (v\<lparr>v_actor := s_requested_by s, v_actor_source := ''schedule''\<rparr>) q None None None None w = (Inr b, w'))"

text \<open>
  What a run leaves of a schedule: linked to the deployment or to the release that the orchestrator
  returned and SUCCEEDED without a message, or, when it returned neither, FAILED with the message.
\<close>

definition run_left :: "env \<Rightarrow> schedule \<Rightarrow> world \<Rightarrow> schedule \<Rightarrow> bool" where
  "run_left v s w s' \<longleftrightarrow> (\<exists>at.
     (\<exists>d w'. ran_alone v s w d w' \<and> s' = s\<lparr>s_deployment_id := Some (d_id d), s_status := SS_SUCCEEDED,
        s_error_message := None, s_finished_at := Some at, s_updated_at := at\<rparr>) \<or>
     (\<exists>b w'. ran_together v s w b w' \<and> s' = s\<lparr>s_release_bundle_id := Some (b_id b), s_status := SS_SUCCEEDED,
        s_error_message := None, s_finished_at := Some at, s_updated_at := at\<rparr>) \<or>
     ((\<nexists>d w'. ran_alone v s w d w') \<and> (\<nexists>b w'. ran_together v s w b w') \<and>
      s' = s\<lparr>s_status := SS_FAILED,
        s_error_message := Some ''Scheduled deployment failed; inspect the deployment history.'',
        s_finished_at := Some at, s_updated_at := at\<rparr>))"

lemma run_schedule_left: "run_left v s w (schedule_finished (fst (run_schedule v s w)) at s)"
proof -
  have src: "as_value AS_SCHEDULE = ''schedule''" by simp
  have fin: "schedule_finished (Inr (ToDeployment d)) at s = s\<lparr>s_deployment_id := Some d, s_status := SS_SUCCEEDED,
        s_error_message := None, s_finished_at := Some at, s_updated_at := at\<rparr>"
      "schedule_finished (Inr (ToBundle b)) at s = s\<lparr>s_release_bundle_id := Some b, s_status := SS_SUCCEEDED,
        s_error_message := None, s_finished_at := Some at, s_updated_at := at\<rparr>"
      "schedule_finished (Inl e) at s = s\<lparr>s_status := SS_FAILED,
        s_error_message := Some ''Scheduled deployment failed; inspect the deployment history.'',
        s_finished_at := Some at, s_updated_at := at\<rparr>" for d b e
    by (simp_all add: schedule_finished_def RUN_FAILED_MESSAGE_def)
  have cases: "(\<exists>d w'. fst (run_schedule v s w) = Inr (ToDeployment (d_id d)) \<and> ran_alone v s w d w') \<or>
      (\<exists>b w'. fst (run_schedule v s w) = Inr (ToBundle (b_id b)) \<and> ran_together v s w b w') \<or>
      ((\<exists>e. fst (run_schedule v s w) = Inl e) \<and> (\<nexists>d w'. ran_alone v s w d w') \<and> (\<nexists>b w'. ran_together v s w b w'))"
  proof (cases "selection_for s" rule: remdups_adj.cases)
    case 1
    then show ?thesis by (simp add: run_schedule_def Let_def ran_alone_def ran_together_def)
  next
    case (2 x)
    obtain key build where x: "x = (key, build)" by force
    show ?thesis
      by (auto simp: run_schedule_def Let_def ran_alone_def ran_together_def 2 x schedule_env_def src
          promote_request_ok_def split: sum.split prod.split)
  next
    case (3 x y xs)
    show ?thesis
      by (auto simp: run_schedule_def Let_def ran_alone_def ran_together_def 3 schedule_env_def src
          scheduled_bundle_request_def split: sum.split prod.split)
  qed
  show ?thesis
    using cases unfolding run_left_def by (elim disjE exE conjE) (simp_all only: fin, blast+)
qed

lemma run_one_left:
  assumes "schedule_at w i = Some s" and "s_status s = SS_PENDING"
  shows "\<exists>w1 s1 started s'. claim_schedule v i (open_session w) = (True, w1) \<and> find_schedule w1 i = Some s1 \<and>
    s1 = s\<lparr>s_status := SS_RUNNING, s_started_at := Some started, s_updated_at := started\<rparr> \<and>
    schedule_at (run_one v i w) i = Some s' \<and> run_left v s1 w1 s'"
proof -
  let ?w = "open_session w"
  let ?f = "schedule_claimed (now_of v ?w)"
  define w1 where "w1 = commit (upd_schedule i ?f (tick ?w))"
  have f: "find_schedule ?w i = Some s" using assms by simp
  have c: "claim_schedule v i ?w = (True, w1)" using f assms(2) by (simp add: claim_schedule_def w1_def)
  have w1: "w_durable w1 = w_cur w1" "t_schedules (w_cur w1) = upd_row s_id i ?f (t_schedules (w_durable w))"
    by (simp_all add: w1_def upd_schedule_def open_session_def)
  have f1: "find_schedule w1 i = Some (?f s)"
    using f w1(2) by (simp add: find_schedule_def open_session_def)
  obtain r w2 where r: "run_schedule v (?f s) w1 = (r, w2)" by force
  obtain at where "t_schedules (w_durable (finish_schedule v i r w2)) =
      upd_row s_id i (schedule_finished r at) (t_schedules (w_cur w1))"
    using finish_schedule_at [of w2 v i r] run_schedule_schedules [OF r w1(1)] by auto
  then have "schedule_at (run_one v i w) i = Some (schedule_finished (fst (run_schedule v (?f s) w1)) at (?f s))"
    using c f1 r by (simp add: run_one_def schedule_at_def find_schedule_def)
  then show ?thesis using c f1 run_schedule_left [of v "?f s" w1 at] unfolding schedule_claimed_def by blast
qed

lemma run_each_left:
  assumes "distinct (pre @ i # post)" and "\<forall>j \<in> set (pre @ i # post). schedule_free j w" and "schedule_at w i = Some s"
  shows "\<exists>w1 s1 started s'. claim_schedule v i (open_session (run_each v pre w)) = (True, w1) \<and>
    find_schedule w1 i = Some s1 \<and>
    s1 = s\<lparr>s_status := SS_RUNNING, s_started_at := Some started, s_updated_at := started\<rparr> \<and>
    schedule_at (run_each v (pre @ i # post) w) i = Some s' \<and> run_left v s1 w1 s'"
proof -
  have same: "schedule_at (run_each v pre w) k = schedule_at w k" if "k \<notin> set pre" for k
    by (rule run_each_others) (use assms that in auto)
  have i: "schedule_at (run_each v pre w) i = Some s" "s_status s = SS_PENDING"
    using same [of i] assms by (auto simp: schedule_free_def)
  have next_at: "schedule_at (run_each v (pre @ [i]) w) k = schedule_at w k" if "k \<notin> set (pre @ [i])" for k
    by (rule run_each_others) (use assms that in auto)
  have free: "\<forall>j \<in> set post. schedule_free j (run_each v (pre @ [i]) w)"
  proof
    fix j assume j: "j \<in> set post"
    then have "j \<notin> set (pre @ [i])" using assms(1) by auto
    from next_at [OF this] show "schedule_free j (run_each v (pre @ [i]) w)"
      using assms(2) j by (simp add: schedule_free_def)
  qed
  have "run_each v (pre @ i # post) w = run_each v post (run_each v (pre @ [i]) w)"
    by (simp add: run_each_append)
  then have "schedule_at (run_each v (pre @ i # post) w) i = schedule_at (run_each v (pre @ [i]) w) i"
    using run_each_others [OF _ free, of i v] assms(1) by simp
  moreover have "schedule_at (run_each v (pre @ [i]) w) i = schedule_at (run_one v i (run_each v pre w)) i"
    by (simp add: run_each_append)
  ultimately show ?thesis using run_one_left [OF i, of v] by simp
qed

end
