(* ===== verification/Schedule_Properties.thy ===== *)
theory Schedule_Properties
  imports Schedule_Laws Notification_Properties "HOL-Library.Multiset"
begin

section \<open>Properties of schedules\<close>

subsection \<open>A schedule to evaluate\<close>

definition sample_schedule :: schedule where
  "sample_schedule = \<lparr>s_id = ''s1'', s_project_id = Some ''p1'', s_mode = RM_SINGLE,
     s_selected_component_keys = Some ''backend'', s_frontend_build_number = None, s_backend_build_number = None,
     s_target = ''staging'', s_scheduled_for_utc = 0, s_timezone = ''UTC'', s_status = SS_PENDING,
     s_requested_by = None, s_notification_recipients = None, s_release_version = None, s_release_notes = None,
     s_attachment = None, s_deployment_id = None, s_release_bundle_id = None, s_error_message = None,
     s_created_at = 0, s_updated_at = 0, s_started_at = None, s_finished_at = None,
     s_component_builds = [\<lparr>sb_component_id = ''c1'', sb_component_key = ''backend'', sb_build_number = 7\<rparr>]\<rparr>"

definition scheduled_world :: world where
  "scheduled_world = (let T = (tables_with [] [])\<lparr>t_schedules := [sample_schedule]\<rparr>
     in \<lparr>w_cur = T, w_durable = T, w_ticks = 0, w_trace = []\<rparr>)"

definition drone_env :: env where
  "drone_env = sample_env (ok_build 7 ''success'' ''push'') (ok_build 9 ''pending'' ''promote'')"

definition utc_only :: "string \<Rightarrow> (int \<Rightarrow> time) option" where
  "utc_only name = (if name = ''UTC'' then Some (\<lambda>t. t) else None)"

definition sample_body :: schedule_payload where
  "sample_body = \<lparr>sc_project_id = None, sc_components = [('' backend'', 7)], sc_mode = None,
     sc_frontend_build_number = None, sc_backend_build_number = None, sc_target = Some ''staging'',
     sc_scheduled_for = Local_Time 5, sc_timezone = ''UTC'', sc_requested_by = None,
     sc_notification_recipients = [''a@x'', ''b@x'', ''a@x ''], sc_release_version = None, sc_release_notes = None\<rparr>"

definition accepted_body :: schedule_payload where
  "accepted_body = sample_body\<lparr>sc_components := [(''backend'', 7)], sc_mode := Some RM_SINGLE,
     sc_scheduled_for := Instant 5, sc_notification_recipients := [''a@x'', ''b@x'']\<rparr>"

lemma sample_accepted: "schedule_create utc_only sample_body = Inr accepted_body"
  by code_simp

subsection \<open>A due schedule runs once\<close>

text \<open>
  C8. No schedule is ever claimed twice, however runners, requests and recovery interleave: whatever
  a run ends with, whenever the write of a cancellation lands, and whichever claims recovery releases,
  a claimed schedule never becomes PENDING again. What a round of the runner selects as due has
  therefore not been claimed before, and the round itself is such a history, claiming only what it selected.
\<close>

theorem schedules_run_once:
  assumes "schedule_history v ms w L"
  shows "distinct L \<and> (\<forall>i \<in> set L. \<not> schedule_free i w) \<and>
    set (due_schedules v now (open_session w)) \<inter> set L = {} \<and>
    (\<exists>L'. set L' \<subseteq> set (due_schedules v (now_of v w) (open_session w)) \<and>
       schedule_history v ms (snd (run_due v w)) (L' @ L))"
proof -
  have c: "claims_at v L w" by (rule history_claims [OF assms])
  then have "distinct L \<and> (\<forall>i \<in> set L. \<not> schedule_free i w)"
    by (intro schedule_claim.claimed_at_most_once [where v = v]) (simp add: claims_at_def)
  moreover have "schedule_free i w" if "i \<in> set (due_schedules v now (open_session w))" for i
  proof -
    have "keyed s_id (t_schedules (w_durable w))" using c by (simp add: claims_at_def)
    from batch_rows(2) [OF this] that show ?thesis
      unfolding due_schedules_def schedule_free_def schedule_at_def open_session_def by fastforce
  qed
  moreover have "schedule_history v ms (tick (open_session w)) L"
    by (rule schedule_history.elsewhere [OF assms]) (simp_all add: open_session_def)
  then have "\<exists>L'. set L' \<subseteq> set (due_schedules v (now_of v w) (open_session w)) \<and>
      schedule_history v ms (snd (run_due v w)) (L' @ L)"
    using run_each_history by (simp add: run_due_def Let_def open_session_def now_of_def)
  ultimately show ?thesis by blast
qed

theorem schedules_run_once_witness:
  "\<not> schedule_free ''s1'' (snd (claim_schedule drone_env ''s1'' (open_session scheduled_world)))"
proof -
  have "schedule_history drone_env sample_settings scheduled_world []"
    by (rule schedule_history.start) (simp_all add: scheduled_world_def Let_def tables_with_def no_tables_def keyed_def)
  moreover have "fst (claim_schedule drone_env ''s1'' (open_session scheduled_world))" by code_simp
  then have "claim_schedule drone_env ''s1'' (open_session scheduled_world) =
      (True, snd (claim_schedule drone_env ''s1'' (open_session scheduled_world)))"
    by (simp add: prod_eq_iff)
  ultimately have "schedule_history drone_env sample_settings
      (snd (claim_schedule drone_env ''s1'' (open_session scheduled_world))) [''s1'']"
    by (rule schedule_history.claimed)
  from schedules_run_once [OF this] show ?thesis by simp
qed

subsection \<open>What a round of the runner leaves\<close>

text \<open>
  C34. A round runs every schedule it selects to a verdict. The selection holds only schedules that are
  PENDING and due, and all of those when they fit in one batch; no other schedule changes. Each selected
  one is claimed when its turn comes, after those before it were run, and the orchestrator is called on
  the session that claimed it, for what that schedule selects. If it returns a deployment (one component)
  or a release (several), the schedule ends SUCCEEDED, linked to exactly that one and without a message;
  otherwise it ends FAILED with the message that says where to look, and with no new link.
\<close>

theorem run_due_outcome:
  assumes "keyed s_id (t_schedules (w_durable w))" and "run_due v w = (n, w')"
  shows "let ids = due_schedules v (now_of v w) (open_session w);
      due = (\<lambda>s. s_status s = SS_PENDING \<and> s_scheduled_for_utc s \<le> now_of v w) in
    n = length ids \<and> n \<le> v_scheduler_batch_size v \<and>
    (\<forall>pre i post. ids = pre @ i # post \<longrightarrow> (\<exists>s s1 s' w1 started at. schedule_at w i = Some s \<and> due s \<and>
       claim_schedule v i (open_session (run_each v pre (tick (open_session w)))) = (True, w1) \<and>
       find_schedule w1 i = Some s1 \<and>
       s1 = s\<lparr>s_status := SS_RUNNING, s_started_at := Some started, s_updated_at := started\<rparr> \<and>
       schedule_at w' i = Some s' \<and>
       ((\<exists>d w2. ran_alone v s1 w1 d w2 \<and> s' = s1\<lparr>s_deployment_id := Some (d_id d), s_status := SS_SUCCEEDED,
            s_error_message := None, s_finished_at := Some at, s_updated_at := at\<rparr>) \<or>
        (\<exists>b w2. ran_together v s1 w1 b w2 \<and> s' = s1\<lparr>s_release_bundle_id := Some (b_id b), s_status := SS_SUCCEEDED,
            s_error_message := None, s_finished_at := Some at, s_updated_at := at\<rparr>) \<or>
        ((\<nexists>d w2. ran_alone v s1 w1 d w2) \<and> (\<nexists>b w2. ran_together v s1 w1 b w2) \<and>
         s' = s1\<lparr>s_status := SS_FAILED,
            s_error_message := Some ''Scheduled deployment failed; inspect the deployment history.'',
            s_finished_at := Some at, s_updated_at := at\<rparr>)))) \<and>
    (\<forall>i. i \<notin> set ids \<longrightarrow> schedule_at w' i = schedule_at w i) \<and>
    (length (filter due (t_schedules (w_durable w))) \<le> v_scheduler_batch_size v \<longrightarrow>
       (\<forall>i s. schedule_at w i = Some s \<longrightarrow> due s \<longrightarrow> i \<in> set ids))"
proof -
  define due where "due s \<longleftrightarrow> s_status s = SS_PENDING \<and> s_scheduled_for_utc s \<le> now_of v w" for s :: schedule
  define ids where "ids = due_schedules v (now_of v w) (open_session w)"
  have ids: "ids = map s_id (take (v_scheduler_batch_size v) (sort_key s_scheduled_for_utc
      (filter due (t_schedules (w_durable w)))))"
    by (simp add: ids_def due_schedules_def due_def [abs_def] open_session_def)
  note rows = batch_rows [OF assms(1), where n = "v_scheduler_batch_size v" and k = s_scheduled_for_utc and P = due,
    folded ids]
  have run: "n = length ids" "w' = run_each v ids (tick (open_session w))"
    using assms(2) by (auto simp: run_due_def Let_def ids_def now_of_def open_session_def)
  have at: "schedule_at (tick (open_session w)) i = schedule_at w i" for i
    by (simp add: schedule_at_def open_session_def)
  have sel: "\<exists>s. schedule_at w i = Some s \<and> due s" if "i \<in> set ids" for i
    using rows(2) [OF that] by (simp add: schedule_at_def)
  have free: "\<forall>i \<in> set ids. schedule_free i (tick (open_session w))"
    using sel at by (fastforce simp: schedule_free_def due_def)
  have others: "schedule_at w' i = schedule_at w i" if "i \<notin> set ids" for i
    using run_each_others [OF rows(1) free that, of v] by (simp add: run(2) at)
  let ?done = "\<lambda>s1 w1 s' at. (\<exists>d w2. ran_alone v s1 w1 d w2 \<and> s' = s1\<lparr>s_deployment_id := Some (d_id d), s_status := SS_SUCCEEDED,
            s_error_message := None, s_finished_at := Some at, s_updated_at := at\<rparr>) \<or>
        (\<exists>b w2. ran_together v s1 w1 b w2 \<and> s' = s1\<lparr>s_release_bundle_id := Some (b_id b), s_status := SS_SUCCEEDED,
            s_error_message := None, s_finished_at := Some at, s_updated_at := at\<rparr>) \<or>
        ((\<nexists>d w2. ran_alone v s1 w1 d w2) \<and> (\<nexists>b w2. ran_together v s1 w1 b w2) \<and>
         s' = s1\<lparr>s_status := SS_FAILED,
            s_error_message := Some ''Scheduled deployment failed; inspect the deployment history.'',
            s_finished_at := Some at, s_updated_at := at\<rparr>)"
  have left: "\<exists>s s1 s' w1 started at. schedule_at w i = Some s \<and> due s \<and>
       claim_schedule v i (open_session (run_each v pre (tick (open_session w)))) = (True, w1) \<and>
       find_schedule w1 i = Some s1 \<and>
       s1 = s\<lparr>s_status := SS_RUNNING, s_started_at := Some started, s_updated_at := started\<rparr> \<and>
       schedule_at w' i = Some s' \<and> ?done s1 w1 s' at" if i: "ids = pre @ i # post" for pre i post
  proof -
    obtain s where s: "schedule_at w i = Some s" "due s" using sel [of i] i by auto
    have d: "distinct (pre @ i # post)" using rows(1) unfolding i .
    have f: "\<forall>j \<in> set (pre @ i # post). schedule_free j (tick (open_session w))" using free unfolding i .
    have a: "schedule_at (tick (open_session w)) i = Some s" using s(1) at by simp
    obtain w1 s1 started s' where
      "claim_schedule v i (open_session (run_each v pre (tick (open_session w)))) = (True, w1)"
      "find_schedule w1 i = Some s1"
      "s1 = s\<lparr>s_status := SS_RUNNING, s_started_at := Some started, s_updated_at := started\<rparr>"
      "schedule_at w' i = Some s'" "run_left v s1 w1 s'"
      using run_each_left [OF d f a, of v] unfolding i [symmetric] run(2) [symmetric] by (elim exE conjE) (rule that)
    moreover from \<open>run_left v s1 w1 s'\<close> obtain at where "?done s1 w1 s' at" unfolding run_left_def by (rule exE)
    ultimately show ?thesis using s by (intro exI conjI)
  qed
  have "n \<le> v_scheduler_batch_size v" by (simp add: run(1) ids)
  moreover have "i \<in> set ids" if "length (filter due (t_schedules (w_durable w))) \<le> v_scheduler_batch_size v"
    "schedule_at w i = Some s" "due s" for i s
    using rows(3) [OF that(1)] that(2,3) by (simp add: schedule_at_def)
  ultimately show ?thesis
    using left others run(1) unfolding Let_def ids_def [symmetric] due_def [symmetric]
    by (intro conjI allI impI) (assumption | simp only:)+
qed

theorem run_due_outcome_witness:
  "map_option (\<lambda>s. (s_status s, s_deployment_id s \<noteq> None)) (schedule_at (snd (run_due drone_env scheduled_world)) ''s1'')
     = Some (SS_SUCCEEDED, True) \<and> fst (run_due drone_env scheduled_world) \<le> 20 \<and>
   (\<exists>s1 d w1 w2. find_schedule w1 ''s1'' = Some s1 \<and> ran_alone drone_env s1 w1 d w2 \<and>
      map_option s_deployment_id (schedule_at (snd (run_due drone_env scheduled_world)) ''s1'') = Some (Some (d_id d)))"
proof -
  have "keyed s_id (t_schedules (w_durable scheduled_world))" by code_simp
  note out = run_due_outcome [OF this, of drone_env "fst (run_due drone_env scheduled_world)"
      "snd (run_due drone_env scheduled_world)", unfolded Let_def, simplified prod.collapse, OF refl]
  have ids: "due_schedules drone_env (now_of drone_env scheduled_world) (open_session scheduled_world) = [] @ ''s1'' # []"
    by code_simp
  have st: "map_option (\<lambda>s. (s_status s, s_deployment_id s \<noteq> None))
      (schedule_at (snd (run_due drone_env scheduled_world)) ''s1'') = Some (SS_SUCCEEDED, True)" by code_simp
  have v: "v_scheduler_batch_size drone_env = 20" by (simp add: drone_env_def sample_env_def)
  have s: "schedule_at scheduled_world ''s1'' = Some sample_schedule" by code_simp
  note at = out [THEN conjunct2, THEN conjunct2, THEN conjunct1, rule_format, OF ids]
  obtain s1 s' w1 started at where run: "find_schedule w1 ''s1'' = Some s1"
      "s1 = sample_schedule\<lparr>s_status := SS_RUNNING, s_started_at := Some started, s_updated_at := started\<rparr>"
      "schedule_at (snd (run_due drone_env scheduled_world)) ''s1'' = Some s'"
    and outcome: "(\<exists>d w2. ran_alone drone_env s1 w1 d w2 \<and> s' = s1\<lparr>s_deployment_id := Some (d_id d), s_status := SS_SUCCEEDED,
            s_error_message := None, s_finished_at := Some at, s_updated_at := at\<rparr>) \<or>
        (\<exists>b w2. ran_together drone_env s1 w1 b w2 \<and> s' = s1\<lparr>s_release_bundle_id := Some (b_id b), s_status := SS_SUCCEEDED,
            s_error_message := None, s_finished_at := Some at, s_updated_at := at\<rparr>) \<or>
        (s' = s1\<lparr>s_status := SS_FAILED,
            s_error_message := Some ''Scheduled deployment failed; inspect the deployment history.'',
            s_finished_at := Some at, s_updated_at := at\<rparr>)"
    using at unfolding s option.inject by (elim exE conjE) (rule that, assumption, simp only:, assumption, blast)
  have "s_status s' = SS_SUCCEEDED" "s_deployment_id s' \<noteq> None" using st run(3) by simp_all
  moreover have "s_deployment_id s1 = None" using run(2) by (simp add: sample_schedule_def)
  ultimately obtain d w2 where "ran_alone drone_env s1 w1 d w2" "s_deployment_id s' = Some (d_id d)"
    using outcome by (elim disjE exE conjE) simp_all
  then show ?thesis using st run(1,3) out [THEN conjunct2, THEN conjunct1] unfolding v by auto
qed

subsection \<open>What an accepted request is\<close>

definition requested :: "schedule_payload \<Rightarrow> (string \<times> int) list" where
  "requested q = requested_pairs (sc_components q) (sc_backend_build_number q) (sc_frontend_build_number q)"

lemma dropWhile_idem: "dropWhile P (dropWhile P xs) = dropWhile P xs"
  by (induction xs) auto

lemma strip_hd: "strip s \<noteq> [] \<Longrightarrow> \<not> is_space (hd (strip s))"
proof -
  assume ne: "strip s \<noteq> []"
  let ?t = "dropWhile is_space s"
  have "?t = rev (takeWhile is_space (rev ?t) @ dropWhile is_space (rev ?t))" by simp
  then have t: "?t = strip s @ rev (takeWhile is_space (rev ?t))"
    by (simp only: strip_def rev_append)
  then have "hd ?t = hd (strip s)" using ne by (metis hd_append)
  moreover have "?t \<noteq> []" using t ne by (metis append_is_Nil_conv)
  ultimately show ?thesis using hd_dropWhile [of is_space s] by simp
qed

lemma strip_idem [simp]: "strip (strip s) = strip s"
proof (cases "strip s = []")
  case False
  then have "dropWhile is_space (strip s) = strip s"
    using strip_hd [OF False] by (cases "strip s") auto
  then show ?thesis
    unfolding strip_def [of "strip s"] by (simp add: strip_def dropWhile_idem)
next
  case True
  then show ?thesis by (simp add: strip_def [of "[]"])
qed

lemma non_empty_string_Inr:
  "non_empty_string n s = Inr t \<Longrightarrow> t \<noteq> [] \<and> text_len t \<le> n \<and> strip t = t"
  by (auto simp: non_empty_string_def Let_def split: if_splits)

lemma each_ok_Inr: "each_ok f xs = Inr ys \<Longrightarrow> list_all2 (\<lambda>x y. f x = Inr y) xs ys"
  by (induction xs arbitrary: ys) (auto split: sum.splits)

lemma component_builds_Inr:
  assumes "each_ok component_build xs = Inr ys"
  shows "\<forall>(k, n) \<in> set ys. k \<noteq> [] \<and> strip k = k \<and> n > 0"
  using each_ok_Inr [OF assms]
  by (induction xs ys rule: list_all2_induct)
    (auto simp: component_build_def dest: non_empty_string_Inr split: sum.splits if_splits)

lemma validate_recipients_Inr:
  assumes "validate_recipients rs = Inr cs"
  shows "distinct cs \<and> (\<forall>c \<in> set cs. valid_recipient c \<and> strip c = c)"
  using assms by (auto simp: validate_recipients_def Let_def list_all_iff split: if_splits)

lemma release_detail_Inr:
  assumes "release_detail n single s = Inr (Some t)"
  shows "t \<noteq> [] \<and> (single \<longrightarrow> \<not> has_line_break t)"
  using assms
  by (auto simp: release_detail_def strip_release_details_def Let_def split: option.splits if_splits)

lemma schedule_create_Inr:
  assumes "schedule_create zones q = Inr r"
  obtains q1 where "validate_builds_and_time zones q1 = Inr r"
    "\<forall>(k, n) \<in> set (sc_components q1). k \<noteq> [] \<and> strip k = k \<and> n > 0"
    "positive (sc_frontend_build_number q1)" "positive (sc_backend_build_number q1)"
    "\<forall>t. sc_target q1 = Some t \<longrightarrow> t \<noteq> [] \<and> strip t = t"
    "distinct (sc_notification_recipients q1)"
    "\<forall>c \<in> set (sc_notification_recipients q1). valid_recipient c \<and> strip c = c"
    "\<forall>t. sc_release_version q1 = Some t \<longrightarrow> t \<noteq> [] \<and> \<not> has_line_break t"
proof -
  obtain components target recipients version details where
    c: "each_ok component_build (sc_components q) = Inr components"
    and t: "optional_ok (non_empty_string 100) (sc_target q) = Inr target"
    and rs: "validate_recipients (sc_notification_recipients q) = Inr recipients"
    and ver: "release_detail 100 True (sc_release_version q) = Inr version"
    and p: "positive (sc_frontend_build_number q)" "positive (sc_backend_build_number q)"
    and val: "validate_builds_and_time zones (q\<lparr>sc_components := components, sc_target := target,
      sc_notification_recipients := recipients, sc_release_version := version, sc_release_notes := details\<rparr>) = Inr r"
    using assms unfolding schedule_create_def by (auto split: sum.splits if_splits)
  have "\<forall>x. target = Some x \<longrightarrow> x \<noteq> [] \<and> strip x = x"
    using t by (auto simp: optional_ok_def dest: non_empty_string_Inr split: option.splits sum.splits)
  then show ?thesis
    using that [OF val] component_builds_Inr [OF c] validate_recipients_Inr [OF rs] p
      release_detail_Inr [of 100 True "sc_release_version q"] ver by auto
qed

text \<open>The mode that is derived agrees with the builds that are requested.\<close>

definition mode_fits :: "release_mode \<Rightarrow> schedule_payload \<Rightarrow> bool" where
  "mode_fits m q \<longleftrightarrow> (case m of
     RM_BUNDLE \<Rightarrow> length (requested q) > 1
   | RM_FRONTEND_ONLY \<Rightarrow> map fst (requested q) = [FRONTEND_KEY]
   | RM_BACKEND_ONLY \<Rightarrow> map fst (requested q) = [BACKEND_KEY]
   | RM_SINGLE \<Rightarrow> length (requested q) = 1 \<or> sc_components q = [])"

lemma component_keys [simp]: "BACKEND_KEY \<noteq> []" "FRONTEND_KEY \<noteq> []" "BACKEND_KEY \<noteq> FRONTEND_KEY"
    "FRONTEND_KEY \<noteq> BACKEND_KEY"
  by (simp_all add: BACKEND_KEY_def FRONTEND_KEY_def)

lemma derived_selection:
  assumes "derived_mode q = Inr m"
  shows "requested q \<noteq> [] \<and> distinct (map fst (requested q)) \<and> mode_fits m q"
proof (cases "sc_components q = []")
  case True
  then show ?thesis
    using assms by (auto simp: derived_mode_def requested_def requested_pairs_def mode_fits_def
        split: option.splits release_mode.splits if_splits)
next
  case False
  then have "0 < length (sc_components q)" by simp
  then show ?thesis
    using assms False by (auto simp: derived_mode_def requested_def requested_pairs_def mode_fits_def Let_def
        split: if_splits intro: Suc_lessI)
qed

lemma validated_body:
  assumes "validate_builds_and_time zones q = Inr r"
  obtains m zone where "derived_mode q = Inr m" "\<not> production_incomplete q"
    "r = q\<lparr>sc_mode := Some m,
       sc_scheduled_for := (case sc_scheduled_for q of Local_Time t \<Rightarrow> Instant (zone t) | i \<Rightarrow> i)\<rparr>"
  using assms unfolding validate_builds_and_time_def
  by (auto split: sum.splits if_splits option.splits)

lemma requested_fields [simp]: "requested (q\<lparr>sc_mode := m, sc_scheduled_for := t\<rparr>) = requested q"
  by (simp add: requested_def)

lemma mode_fits_fields [simp]: "mode_fits n (q\<lparr>sc_mode := m, sc_scheduled_for := t\<rparr>) = mode_fits n q"
  by (cases n) (simp_all add: mode_fits_def)

text \<open>
  C35. A request for a schedule that is accepted is well formed. It names an instant and a mode; it
  requests at least one build, of distinct components, with positive numbers and stripped keys; the mode
  agrees with the selection, with one exception, a v2.x body whose mode is SINGLE; the recipients are
  distinct and hold neither commas nor line breaks; the version is one line; and a request that names
  production names the version and the notes.
\<close>

theorem accepted_schedule_sound:
  assumes "schedule_create zones q = Inr r"
  shows "(\<exists>t. sc_scheduled_for r = Instant t) \<and> requested r \<noteq> [] \<and> distinct (map fst (requested r)) \<and>
    (\<forall>(k, n) \<in> set (requested r). k \<noteq> [] \<and> strip k = k \<and> n > 0) \<and>
    (\<exists>m. sc_mode r = Some m \<and> mode_fits m r) \<and>
    distinct (sc_notification_recipients r) \<and> (\<forall>c \<in> set (sc_notification_recipients r). valid_recipient c) \<and>
    (\<forall>t. sc_release_version r = Some t \<longrightarrow> t \<noteq> [] \<and> \<not> has_line_break t) \<and>
    (\<forall>t. sc_target r = Some t \<longrightarrow> t \<noteq> [] \<and>
       (lower t = ''production'' \<longrightarrow> sc_release_version r \<noteq> None \<and> sc_release_notes r \<noteq> None))"
proof -
  obtain q1 where q1: "validate_builds_and_time zones q1 = Inr r"
    "\<forall>(k, n) \<in> set (sc_components q1). k \<noteq> [] \<and> strip k = k \<and> n > 0"
    "positive (sc_frontend_build_number q1)" "positive (sc_backend_build_number q1)"
    "\<forall>t. sc_target q1 = Some t \<longrightarrow> t \<noteq> [] \<and> strip t = t"
    "distinct (sc_notification_recipients q1)"
    "\<forall>c \<in> set (sc_notification_recipients q1). valid_recipient c \<and> strip c = c"
    "\<forall>t. sc_release_version q1 = Some t \<longrightarrow> t \<noteq> [] \<and> \<not> has_line_break t"
    using schedule_create_Inr [OF assms] by blast
  obtain m zone where m: "derived_mode q1 = Inr m" "\<not> production_incomplete q1"
      "r = q1\<lparr>sc_mode := Some m,
         sc_scheduled_for := (case sc_scheduled_for q1 of Local_Time t \<Rightarrow> Instant (zone t) | i \<Rightarrow> i)\<rparr>"
    using validated_body [OF q1(1)] by blast
  note sel = derived_selection [OF m(1)]
  have legacy: "strip BACKEND_KEY = BACKEND_KEY" "strip FRONTEND_KEY = FRONTEND_KEY" by code_simp+
  have pos: "\<forall>(k, n) \<in> set (requested q1). k \<noteq> [] \<and> strip k = k \<and> n > 0"
    using q1(2,3,4) legacy by (auto simp: requested_def requested_pairs_def positive_def split: option.splits if_splits)
  have "\<exists>t. sc_scheduled_for r = Instant t" by (simp add: m(3) split: moment.split)
  moreover have "\<forall>t. sc_target q1 = Some t \<longrightarrow> lower t = ''production'' \<longrightarrow>
      sc_release_version q1 \<noteq> None \<and> sc_release_notes q1 \<noteq> None"
    using m(2) q1(5) by (auto simp: production_incomplete_def)
  ultimately show ?thesis using sel pos q1(5-8) by (simp add: m(3)) 
qed

theorem accepted_schedule_sound_witness:
  "requested accepted_body \<noteq> [] \<and> distinct (sc_notification_recipients accepted_body)"
  using accepted_schedule_sound [OF sample_accepted] by blast

subsection \<open>What is stored is what was asked for\<close>

lemma split_on_unsplit: "sep \<notin> set s \<Longrightarrow> split_on sep s = [s]"
  by (induction s) auto

lemma split_on_ne: "split_on sep s \<noteq> []"
  by (cases s) (auto split: list.split)

lemma split_on_append: "sep \<notin> set s \<Longrightarrow> split_on sep (s @ sep # t) = s # split_on sep t"
  by (induction s) (auto simp: split_on_ne split: list.split)

lemma split_on_join:
  assumes "rs \<noteq> []" and "\<forall>r \<in> set rs. sep \<notin> set r"
  shows "split_on sep (join [sep] rs) = rs"
  using assms by (induction "[sep]" rs rule: join.induct) (auto simp: split_on_unsplit split_on_append)

lemma set_join: "set (join sep rs) \<subseteq> set sep \<union> \<Union> (set ` set rs)"
  by (induction sep rs rule: join.induct) auto

lemma first_keys_distinct: "distinct xs \<Longrightarrow> first_keys xs = xs"
  by (induction xs) (auto simp: filter_id_conv)

lemma recipients_round_trip:
  assumes "distinct rs" and "\<forall>r \<in> set rs. valid_recipient r \<and> strip r = r" and "\<forall>r \<in> set rs. CHR '';'' \<notin> set r"
  shows "split_recipients (let s = join '','' rs in if s = [] then None else Some s) = rs"
proof (cases "rs = []")
  case True
  then show ?thesis by (simp add: split_recipients_def)
next
  case False
  have ne: "join '','' rs \<noteq> []"
    using False assms(2) by (cases rs rule: remdups_adj.cases) (auto simp: valid_recipient_def)
  have "CHR '';'' \<notin> set (join '','' rs)" using set_join [of "'',''" rs] assms(3) by auto
  then have m: "map (\<lambda>c. if c = CHR '';'' then CHR '','' else c) (join '','' rs) = join '','' rs"
    by (intro map_idI) auto
  have "split_on CHR '','' (join '','' rs) = rs"
    using split_on_join [OF False] assms(2) by (simp add: valid_recipient_def)
  moreover have "map strip rs = rs" using assms(2) by (simp add: map_idI)
  moreover have "filter (\<lambda>r. r \<noteq> []) rs = rs" using assms(2) by (auto simp: filter_id_conv valid_recipient_def)
  ultimately show ?thesis using ne m first_keys_distinct [OF assms(1)] by (simp add: split_recipients_def)
qed

lemma resolve_keys_pairs:
  "resolve_keys w p ks = Inr sel \<Longrightarrow> map (\<lambda>(c, n). (c_key c, n)) sel = ks \<and>
     (\<forall>(c, n) \<in> set sel. c \<in> set (t_components (w_cur w)) \<and> c_project_id c = p_id p)"
  by (induction ks arbitrary: sel) (fastforce split: sum.splits dest!: for_key_Inr)+

lemma scheduled_selection:
  assumes "s_component_builds s = map (\<lambda>(c, n). \<lparr>sb_component_id = c_id c, sb_component_key = c_key c,
      sb_build_number = n\<rparr>) (sort_key k sel)"
    and "map (\<lambda>(c, n). (c_key c, n)) sel = ks" and "distinct (map fst ks)" and "ks \<noteq> []"
  shows "selection_for s = sort_key fst ks"
proof -
  let ?b = "\<lambda>(c, n). \<lparr>sb_component_id = c_id c, sb_component_key = c_key c, sb_build_number = n\<rparr>"
  let ?g = "\<lambda>b. (sb_component_key b, sb_build_number b)"
  have "sel \<noteq> []" using assms(2,4) by auto
  then have s: "selection_for s = map ?g (sort_key sb_component_key (map ?b (sort_key k sel)))"
    using assms(1) by (simp add: selection_for_def) (metis length_0_conv length_sort)
  have "mset (selection_for s) = image_mset (?g \<circ> ?b) (mset sel)"
    unfolding s by (simp add: multiset.map_comp)
  also have "?g \<circ> ?b = (\<lambda>(c, n). (c_key c, n))" by auto
  finally have "mset ks = mset (selection_for s)" using assms(2) by (metis mset_map)
  moreover have "inj_on fst (set ks)" using assms(3) by (simp add: distinct_map)
  moreover have "sorted (map fst (selection_for s))" unfolding s by (simp add: comp_def)
  ultimately show ?thesis by (metis sort_key_inj_key_eq)
qed

text \<open>
  C36. A schedule made from an accepted request is stored, PENDING, with what was asked for: the runner
  reads back exactly the requested builds, in the order of the keys, all of components of the project
  that was named; the target is the one asked for, or the default of the project; and the mailer reads
  back exactly the recipients, as long as none holds a semicolon.
\<close>

theorem stored_schedule_reads_back:
  assumes "schedule_create zones q = Inr r" and "create_schedule v ms r att w = (Inr s, w')"
  shows "schedule_at w' (s_id s) = Some s \<and> s_status s = SS_PENDING \<and>
    selection_for s = sort_key fst (requested r) \<and>
    (\<exists>p. lookup_project w (sc_project_id r) = Inr p \<and> s_project_id s = Some (p_id p) \<and>
       s_target s = py_or (sc_target r) (p_default_target p) \<and>
       (\<forall>b \<in> set (s_component_builds s). \<exists>c \<in> set (t_components (w_cur w)).
          c_id c = sb_component_id b \<and> c_key c = sb_component_key b \<and> c_project_id c = p_id p)) \<and>
    ((\<forall>x \<in> set (sc_notification_recipients r). CHR '';'' \<notin> set x) \<longrightarrow>
       split_recipients (s_notification_recipients s) = sc_notification_recipients r)"
proof -
  obtain q1 where q1: "validate_builds_and_time zones q1 = Inr r" "distinct (sc_notification_recipients q1)"
    "\<forall>c \<in> set (sc_notification_recipients q1). valid_recipient c \<and> strip c = c"
    by (rule schedule_create_Inr [OF assms(1)], rule that)
  obtain m zone where m: "derived_mode q1 = Inr m"
      "r = q1\<lparr>sc_mode := Some m,
         sc_scheduled_for := (case sc_scheduled_for q1 of Local_Time t \<Rightarrow> Instant (zone t) | i \<Rightarrow> i)\<rparr>"
    using validated_body [OF q1(1)] by blast
  have req: "requested r \<noteq> [] \<and> distinct (map fst (requested r))"
    using derived_selection [OF m(1)] by (simp add: m(2))
  have recipients: "distinct (sc_notification_recipients r) \<and>
      (\<forall>c \<in> set (sc_notification_recipients r). valid_recipient c \<and> strip c = c)"
    using q1(2,3) by (simp add: m(2))
  obtain p sel where p: "lookup_project w (sc_project_id r) = Inr p"
    and sel: "resolve_keys w p (requested r) = Inr sel"
    and s: "s = new_schedule v w p (sort_key (\<lambda>s. c_position (fst s)) sel) r att"
    and ok: "schedule_keys_ok (t_schedules (w_cur w) @ [s])"
    and w': "w' = commit (snd (enqueue_schedule_created v ms s (insert_schedule s (tick (tick (tick w))))))"
    using assms(2)
    by (auto simp: create_schedule_def schedule_components_def requested_def Let_def insert_schedule_def
        split: sum.splits if_splits)
  note pairs = resolve_keys_pairs [OF sel]
  have "selection_for s = sort_key fst (requested r)"
    by (rule scheduled_selection [OF _ conjunct1 [OF pairs]]) (use req in \<open>simp_all add: s new_schedule_def\<close>)
  moreover have "schedule_at w' (s_id s) = Some s"
    using ok find_row_keyed [of s_id "t_schedules (w_cur w) @ [s]" s]
    by (simp add: w' schedule_at_def insert_schedule_def schedule_keys_ok_def)
  moreover have "\<forall>b \<in> set (s_component_builds s). \<exists>c \<in> set (t_components (w_cur w)).
      c_id c = sb_component_id b \<and> c_key c = sb_component_key b \<and> c_project_id c = p_id p"
    using pairs by (auto simp: s new_schedule_def)
  moreover have "split_recipients (s_notification_recipients s) = sc_notification_recipients r"
    if "\<forall>x \<in> set (sc_notification_recipients r). CHR '';'' \<notin> set x"
    using recipients_round_trip [of "sc_notification_recipients r"] recipients that
    by (simp add: s new_schedule_def)
  ultimately show ?thesis using p by (simp add: s new_schedule_def)
qed

theorem stored_schedule_reads_back_witness:
  "\<exists>s w'. create_schedule drone_env (sample_settings\<lparr>ms_managed_targets := []\<rparr>) accepted_body None scheduled_world
     = (Inr s, w') \<and> schedule_at w' (s_id s) = Some s"
proof -
  have "\<not> isl (fst (create_schedule drone_env (sample_settings\<lparr>ms_managed_targets := []\<rparr>)
      accepted_body None scheduled_world))"
    by code_simp
  then obtain s w' where c: "create_schedule drone_env (sample_settings\<lparr>ms_managed_targets := []\<rparr>)
      accepted_body None scheduled_world = (Inr s, w')"
    by (metis prod.collapse sum.collapse(2))
  from stored_schedule_reads_back [OF sample_accepted c] c show ?thesis by blast
qed

subsection \<open>What the program lets through\<close>

text \<open>
  A request that leaves the target out is checked as if it named no production target, although the
  default of the project is what the schedule gets.
\<close>

lemma default_target_not_checked:
  "\<not> isl (schedule_create utc_only (sample_body\<lparr>sc_target := None\<rparr>)) \<and>
   schedule_create utc_only (sample_body\<lparr>sc_target := Some ''production''\<rparr>) = Inl ValidationError \<and>
   map_sum id (\<lambda>s. (s_target s, s_release_version s))
     (fst (create_schedule drone_env (sample_settings\<lparr>ms_managed_targets := []\<rparr>)
       (accepted_body\<lparr>sc_target := None\<rparr>) None scheduled_world)) = Inr (''production'', None)"
  by code_simp

text \<open>
  A runner that claims between the check of a cancellation and its write runs the schedule although the
  request was answered with CANCELLED, and then overwrites the row.
\<close>

definition cancelled_meanwhile :: world where
  "cancelled_meanwhile =
     (let w1 = snd (claim_schedule drone_env ''s1'' scheduled_world)
      in cancel_write drone_env ''s1'' w1)"

lemma cancelled_schedule_runs:
  "\<not> isl (cancel_check ''s1'' scheduled_world) \<and>
   map_option s_status (find_schedule cancelled_meanwhile ''s1'') = Some SS_CANCELLED \<and>
   map_option s_status (find_schedule (finish_schedule drone_env ''s1'' (Inr (ToDeployment ''d1'')) cancelled_meanwhile) ''s1'')
     = Some SS_SUCCEEDED"
  by code_simp

text \<open>A recipient with a semicolon is accepted as one address and read back as two.\<close>

lemma recipient_with_semicolon:
  "validate_recipients [''a;b@x''] = Inr [''a;b@x''] \<and> split_recipients (Some ''a;b@x'') = [''a'', ''b@x'']"
  by code_simp

text \<open>A v2.x body whose mode is SINGLE is accepted with two builds.\<close>

lemma single_with_two_builds:
  "map_sum id (\<lambda>q. (sc_mode q, requested q)) (schedule_create utc_only (sample_body\<lparr>sc_components := [],
     sc_mode := Some RM_SINGLE, sc_backend_build_number := Some 7, sc_frontend_build_number := Some 8\<rparr>))
   = Inr (Some RM_SINGLE, [(''backend'', 7), (''frontend'', 8)])"
  by code_simp

text \<open>
  A schedule of one component is promoted although the component was made inactive meanwhile; only a
  release of several asks.
\<close>

definition inactive_world :: world where
  "inactive_world = (let T = (w_cur scheduled_world)\<lparr>t_components := [backend_component\<lparr>c_is_active := False\<rparr>]\<rparr>
     in \<lparr>w_cur = T, w_durable = T, w_ticks = 0, w_trace = []\<rparr>)"

lemma inactive_component_promoted:
  "map_option s_status (schedule_at (snd (run_due drone_env inactive_world)) ''s1'') = Some SS_SUCCEEDED"
  by code_simp

end
