(* ===== verification/CI_Deployment.thy ===== *)
theory CI_Deployment
  imports Runtime_Frame Recovery
begin

section \<open>The CI inbox\<close>

text \<open>
  app/services/ci_deployment_service.py. Accepting a request only records it; a runner leases the
  requests that are not finished, one at a time, checks the source build, links a deployment to the
  request in the same commit that makes the deployment durable, and from then on only tracks it.
\<close>

definition CI_TERMINAL :: "string list" where
  "CI_TERMINAL = [''SUCCESS'', ''FAILED'']"

subsection \<open>Accepting a request\<close>

definition resolve_component :: "world \<Rightarrow> string \<Rightarrow> string \<Rightarrow> exn + component_row" where
  "resolve_component w project_key component_key =
     (case List.find (\<lambda>p. p_key p = project_key) (t_projects (w_cur w)) of
        None \<Rightarrow> Inl (CIError ''PROJECT_NOT_FOUND'' 404)
      | Some p \<Rightarrow>
          (case List.find (\<lambda>c. c_project_id c = p_id p \<and> c_key c = component_key) (t_components (w_cur w)) of
             None \<Rightarrow> Inl (CIError ''COMPONENT_NOT_FOUND'' 404)
           | Some c \<Rightarrow> (if p_is_archived p \<or> \<not> c_is_active c
               then Inl (CIError ''PROJECT_OR_COMPONENT_DISABLED'' 409) else Inr c)))"

definition policy_for :: "world \<Rightarrow> string \<Rightarrow> string \<Rightarrow> exn + ci_policy" where
  "policy_for w component_id target =
     (case List.find (\<lambda>y. y_component_id y = component_id \<and> y_target y = target) (t_ci_policies (w_cur w)) of
        None \<Rightarrow> Inl (CIError ''CI_POLICY_NOT_CONFIGURED'' 409)
      | Some y \<Rightarrow> (if y_source_stages y = [] \<or> y_promotion_stages y = []
          then Inl (CIError ''CI_POLICY_NOT_CONFIGURED'' 409) else Inr y))"

definition authorize :: "ci_token \<Rightarrow> string \<Rightarrow> string \<Rightarrow> string \<Rightarrow> string \<Rightarrow> exn + unit" where
  "authorize k project_id component_id target branch =
     (if (k_project_id k, k_component_id k, k_target k, k_branch k) \<noteq> (project_id, component_id, target, branch)
      then Inl (CIError ''CI_SCOPE_FORBIDDEN'' 403) else Inr ())"

definition authorize_job :: "ci_token \<Rightarrow> ci_job \<Rightarrow> exn + ci_job" where
  "authorize_job k j =
     (case authorize k (j_project_id j) (j_component_id j) (j_target j) (j_branch j) of
        Inl e \<Rightarrow> Inl e | Inr _ \<Rightarrow> Inr j)"

definition find_intent :: "world \<Rightarrow> string \<Rightarrow> int \<Rightarrow> string \<Rightarrow> ci_job option" where
  "find_intent w component_id build_number target =
     List.find (\<lambda>j. (j_component_id j, j_source_build_number j, j_target j) = (component_id, build_number, target))
       (t_ci_jobs (w_cur w))"

text \<open>uq_ci_intent and the primary key.\<close>

definition jobs_unique :: "ci_job list \<Rightarrow> bool" where
  "jobs_unique js \<longleftrightarrow> keyed j_id js \<and> keyed (\<lambda>j. (j_component_id j, j_source_build_number j, j_target j)) js"

definition ci_event_for :: "string \<Rightarrow> string \<Rightarrow> string option \<Rightarrow> ci_event" where
  "ci_event_for i status code = \<lparr>ce_request_id = i, ce_status = status, ce_error_code = code\<rparr>"

definition add_ci_event :: "ci_event \<Rightarrow> world \<Rightarrow> world" where
  "add_ci_event e = set_tables (\<lambda>t. t\<lparr>t_ci_events := t_ci_events t @ [e]\<rparr>)"

definition new_job ::
    "env \<Rightarrow> world \<Rightarrow> ci_token \<Rightarrow> component_row \<Rightarrow> ci_policy \<Rightarrow> connection \<Rightarrow> int \<Rightarrow> string \<Rightarrow> ci_job" where
  "new_job v w k c y n build_number target =
     \<lparr>j_id = new_uuid v (tick w), j_service_token_id = k_id k, j_project_id = c_project_id c,
      j_component_id = c_id c, j_target = target, j_branch = y_branch y, j_source_build_number = build_number,
      j_drone_connection_id = n_id n, j_drone_owner = c_drone_owner c, j_drone_repository = c_drone_repo c,
      j_source_stages = y_source_stages y, j_promotion_stages = y_promotion_stages y, j_commit_sha = None,
      j_deployment_id = None, j_status = ''WAITING_SOURCE'', j_error_code = None,
      j_created_at = now_of v (tick (tick w)), j_updated_at = now_of v (tick (tick (tick w))),
      j_deadline_at = now_of v w + v_ci_source_wait v * SECOND,
      j_finished_at = None, j_lease_id = None, j_lease_until = None\<rparr>"

text \<open>What the reads of a request decide: an answer, or the row to insert.\<close>

definition accept_check ::
    "env \<Rightarrow> ci_token \<Rightarrow> string \<Rightarrow> string \<Rightarrow> int \<Rightarrow> string \<Rightarrow> world \<Rightarrow> (exn + ci_job) + ci_job" where
  "accept_check v k project_key component_key build_number target w =
     (case resolve_component w project_key component_key of
        Inl e \<Rightarrow> Inl (Inl e)
      | Inr c \<Rightarrow> (case authorize k (c_project_id c) (c_id c) target (k_branch k) of
          Inl e \<Rightarrow> Inl (Inl e)
        | Inr _ \<Rightarrow> (case policy_for w (c_id c) target of
            Inl e \<Rightarrow> Inl (Inl e)
          | Inr y \<Rightarrow> (case authorize k (c_project_id c) (c_id c) target (y_branch y) of
              Inl e \<Rightarrow> Inl (Inl e)
            | Inr _ \<Rightarrow> (case find_intent w (c_id c) build_number target of
                Some j \<Rightarrow> Inl (authorize_job k j)
              | None \<Rightarrow> (case drone_connection w c of
                  Inl e \<Rightarrow> Inl (Inl (CIError ''DRONE_CONNECTION_NOT_CONFIGURED'' 409))
                | Inr n \<Rightarrow> (if \<not> override_ok c target
                    then Inl (Inl (CIError ''TARGET_CONFIGURATION_MISMATCH'' 409))
                    else Inr (new_job v w k c y n build_number target))))))))"

text \<open>The insertion, which another request may have overtaken: then the row that won is read back.\<close>

definition accept_insert :: "env \<Rightarrow> ci_token \<Rightarrow> ci_job \<Rightarrow> world \<Rightarrow> (exn + ci_job) \<times> world" where
  "accept_insert v k j w =
     (let w1 = set_tables (\<lambda>t. t\<lparr>t_ci_jobs := t_ci_jobs t @ [j]\<rparr>) (tick (tick (tick (tick w))))
      in if jobs_unique (t_ci_jobs (w_cur w1))
         then (authorize_job k j, commit (add_ci_event (ci_event_for (j_id j) ''WAITING_SOURCE'' None) w1))
         else (let w2 = rollback w1
               in (case find_intent w2 (j_component_id j) (j_source_build_number j) (j_target j) of
                     None \<Rightarrow> Inl (CIError ''CI_ACCEPT_CONFLICT'' 409)
                   | Some j' \<Rightarrow> authorize_job k j', w2)))"

definition accept ::
    "env \<Rightarrow> ci_token \<Rightarrow> string \<Rightarrow> string \<Rightarrow> int \<Rightarrow> string \<Rightarrow> world \<Rightarrow> (exn + ci_job) \<times> world" where
  "accept v k project_key component_key build_number target w =
     (case accept_check v k project_key component_key build_number target w of
        Inl r \<Rightarrow> (r, w)
      | Inr j \<Rightarrow> accept_insert v k j w)"

subsection \<open>Transitions\<close>

definition find_job :: "world \<Rightarrow> string \<Rightarrow> ci_job option" where
  "find_job w i = find_row j_id i (t_ci_jobs (w_cur w))"

definition upd_job :: "string \<Rightarrow> (ci_job \<Rightarrow> ci_job) \<Rightarrow> world \<Rightarrow> world" where
  "upd_job i f = set_tables (\<lambda>t. t\<lparr>t_ci_jobs := upd_row j_id i f (t_ci_jobs t)\<rparr>)"

definition ci_transition :: "env \<Rightarrow> string \<Rightarrow> string \<Rightarrow> string option \<Rightarrow> world \<Rightarrow> world" where
  "ci_transition v i status code w =
     (case find_job w i of
        None \<Rightarrow> w
      | Some j \<Rightarrow>
          (if j_status j = status \<and> j_error_code j = code then w
           else (let w1 = upd_job i (\<lambda>j. j\<lparr>j_status := status, j_error_code := code, j_updated_at := now_of v w\<rparr>) (tick w);
                     w2 = (if status \<in> set CI_TERMINAL
                           then upd_job i (\<lambda>j. j\<lparr>j_finished_at := Some (now_of v w1)\<rparr>) (tick w1) else w1)
                 in add_ci_event (ci_event_for i status code) w2)))"

subsection \<open>Judging the source build\<close>

definition is_hex :: "char \<Rightarrow> bool" where
  "is_hex c \<longleftrightarrow> (let n = (of_char c :: nat) in (48 \<le> n \<and> n \<le> 57) \<or> (65 \<le> n \<and> n \<le> 70) \<or> (97 \<le> n \<and> n \<le> 102))"

definition is_sha :: "string \<Rightarrow> bool" where
  "is_sha s \<longleftrightarrow> (length s = 40 \<or> length s = 64) \<and> list_all is_hex s"

text \<open>The request is given a status and this pass ends, or the build may be deployed.\<close>

datatype source_verdict = Settle string "string option" | Deploy component_row drone_build

definition ci_env :: "env \<Rightarrow> ci_job \<Rightarrow> env" where
  "ci_env v j = v\<lparr>v_actor := Some (requested_by_token (j_service_token_id j)), v_actor_source := ''ci''\<rparr>"

definition route_matches :: "repository_info \<Rightarrow> ci_job \<Rightarrow> bool" where
  "route_matches r j \<longleftrightarrow> (ri_owner r, ri_name r, ri_slug r) =
     (j_drone_owner j, j_drone_repository j, j_drone_owner j @ ''/'' @ j_drone_repository j)"

text \<open>The repository and the build as Drone has them; Drone failures keep the request waiting.\<close>

definition read_failure :: "exn \<Rightarrow> exn + source_verdict" where
  "read_failure e =
     (case e of
        BuildNotFoundError \<Rightarrow> Inr (Settle ''FAILED'' (Some ''SOURCE_BUILD_NOT_FOUND''))
      | DroneError k m \<Rightarrow> Inr (Settle ''WAITING_SOURCE'' (Some ''SOURCE_UPSTREAM_UNAVAILABLE''))
      | _ \<Rightarrow> Inl e)"

definition source_read ::
    "env \<Rightarrow> component_row \<Rightarrow> ci_job \<Rightarrow> world \<Rightarrow> (exn + source_verdict) \<times> world" where
  "source_read v c j w =
     (case get_repository_info v c w of
        (Inl e, w1) \<Rightarrow> (read_failure e, w1)
      | (Inr r, w1) \<Rightarrow>
          (if \<not> route_matches r j then (Inr (Settle ''FAILED'' (Some ''SOURCE_REPOSITORY_MISMATCH'')), w1)
           else (case get_build v c (j_source_build_number j) w1 of
                   (Inl e, w2) \<Rightarrow> (read_failure e, w2)
                 | (Inr b, w2) \<Rightarrow> (Inr (Deploy c b), w2))))"

definition build_verdict :: "ci_job \<Rightarrow> component_row \<Rightarrow> drone_build \<Rightarrow> source_verdict" where
  "build_verdict j c b =
     (if bd_number b \<noteq> j_source_build_number j \<or> bd_event b \<noteq> ''push'' \<or> bd_branch b \<noteq> j_branch j
      then Settle ''FAILED'' (Some ''SOURCE_IDENTITY_REJECTED'')
      else if bd_status b \<in> {''pending'', ''running'', ''blocked'', ''waiting''} then Settle ''WAITING_SOURCE'' None
      else if bd_status b \<noteq> ''success'' then Settle ''FAILED'' (Some ''SOURCE_BUILD_FAILED'')
      else if \<not> is_sha (bd_commit_sha b) \<or> \<not> stages_succeeded b (j_source_stages j) False
      then Settle ''FAILED'' (Some ''SOURCE_STAGES_REJECTED'')
      else Deploy c b)"

text \<open>A valid commit is kept even when the build is rejected; the deadline is read again at the end.\<close>

definition source_judged ::
    "env \<Rightarrow> ci_job \<Rightarrow> component_row \<Rightarrow> drone_build \<Rightarrow> world \<Rightarrow> source_verdict \<times> world" where
  "source_judged v j c b w =
     (let w1 = (if is_sha (bd_commit_sha b) then upd_job (j_id j) (\<lambda>j. j\<lparr>j_commit_sha := Some (bd_commit_sha b)\<rparr>) w else w)
      in case build_verdict j c b of
           Settle s code \<Rightarrow> (Settle s code, w1)
         | Deploy c' b' \<Rightarrow>
             (if j_deadline_at j \<le> now_of v w1 then (Settle ''FAILED'' (Some ''SOURCE_WAIT_TIMEOUT''), tick w1)
              else (Deploy c' b', tick w1)))"

definition component_verdict :: "env \<Rightarrow> ci_job \<Rightarrow> component_row \<Rightarrow> world \<Rightarrow> (exn + source_verdict) \<times> world" where
  "component_verdict v j c w =
     (case source_read v c j w of
        (Inl e, w1) \<Rightarrow> (Inl e, w1)
      | (Inr (Settle s code), w1) \<Rightarrow> (Inr (Settle s code), w1)
      | (Inr (Deploy c' b), w1) \<Rightarrow> (case source_judged v j c' b w1 of (s, w2) \<Rightarrow> (Inr s, w2)))"

definition source_verdict :: "env \<Rightarrow> ci_job \<Rightarrow> world \<Rightarrow> (exn + source_verdict) \<times> world" where
  "source_verdict v j w =
     (let w1 = tick w in
      if j_deadline_at j \<le> now_of v w then (Inr (Settle ''FAILED'' (Some ''SOURCE_WAIT_TIMEOUT'')), w1)
      else case token_active v (find_row k_id (j_service_token_id j) (t_ci_tokens (w_cur w1))) w1 of
        (False, w2) \<Rightarrow> (Inr (Settle ''FAILED'' (Some ''CI_TOKEN_INACTIVE'')), w2)
      | (True, w2) \<Rightarrow>
          (case find_row c_id (j_component_id j) (t_components (w_cur w2)) of
             None \<Rightarrow> (Inl AttributeError, w2)
           | Some c \<Rightarrow>
               (if archived w2 c \<or> \<not> c_is_active c
                then (Inr (Settle ''FAILED'' (Some ''PROJECT_OR_COMPONENT_DISABLED'')), w2)
                else (case drone_connection w2 c of
                   Inl e \<Rightarrow> (Inl e, w2)
                 | Inr n \<Rightarrow>
                     (if \<not> same_route c (n_id n) j \<or> \<not> override_ok c (j_target j)
                      then (Inr (Settle ''FAILED'' (Some ''COMPONENT_CONFIGURATION_CHANGED'')), w2)
                      else component_verdict v j c w2)))))"

subsection \<open>Linking a deployment\<close>

definition linked_job :: "string \<Rightarrow> string \<Rightarrow> ci_job \<Rightarrow> ci_job" where
  "linked_job sha d j = j\<lparr>j_commit_sha := Some sha, j_deployment_id := Some d\<rparr>"

text \<open>An active deployment in the slot of the request.\<close>

definition slot_deployment :: "world \<Rightarrow> ci_job \<Rightarrow> dep_row option" where
  "slot_deployment w j =
     List.find (\<lambda>d. promotion_slot d = (j_drone_connection_id j, j_drone_owner j, j_drone_repository j,
         j_source_build_number j, j_target j) \<and> slot_active d) (t_deployments (w_cur w))"

text \<open>Whether the request was linked; its link, status and deployment become durable together.\<close>

definition adopt_deployment :: "env \<Rightarrow> ci_job \<Rightarrow> drone_build \<Rightarrow> world \<Rightarrow> bool \<times> world" where
  "adopt_deployment v j b w =
     (case slot_deployment w j of
        None \<Rightarrow> (False, w)
      | Some d \<Rightarrow>
          (if d_commit_sha d \<noteq> bd_commit_sha b \<or> d_branch d \<noteq> j_branch j
           then (False, ci_transition v (j_id j) ''FAILED'' (Some ''EXISTING_DEPLOYMENT_MISMATCH'') w)
           else (True, commit (ci_transition v (j_id j) ''DEPLOYING'' None
                   (upd_job (j_id j) (linked_job (bd_commit_sha b) (d_id d)) w)))))"

definition link_deployment ::
    "env \<Rightarrow> component_row \<Rightarrow> ci_job \<Rightarrow> drone_build \<Rightarrow> world \<Rightarrow> (exn + bool) \<times> world" where
  "link_deployment v c j b w =
     (case prepare_standalone (ci_env v j) c b (j_target j) (Some (requested_by_token (j_service_token_id j))) None
             (upd_job (j_id j) (\<lambda>j. j\<lparr>j_commit_sha := Some (bd_commit_sha b)\<rparr>) w) of
        (Inr i, w1) \<Rightarrow>
          (Inr True, commit (ci_transition v (j_id j) ''DEPLOYING'' None
             (upd_job (j_id j) (linked_job (bd_commit_sha b) i)
               (upd_dep i (\<lambda>d. d\<lparr>d_required_promotion_stages := Some (j_promotion_stages j)\<rparr>) w1))))
      | (Inl (DuplicatePromotionError m), w1) \<Rightarrow>
          (case adopt_deployment v j b (rollback w1) of (linked, w2) \<Rightarrow> (Inr linked, w2))
      | (Inl e, w1) \<Rightarrow> (Inl e, w1))"

subsection \<open>Tracking\<close>

text \<open>\<open>get_build\<close> with a number that may be None, which is printed as such into the path.\<close>

definition get_promotion_build ::
    "env \<Rightarrow> component_row \<Rightarrow> int option \<Rightarrow> world \<Rightarrow> (exn + drone_build) \<times> world" where
  "get_promotion_build v c n w =
     (case n of
        Some k \<Rightarrow> get_build v c k w
      | None \<Rightarrow>
          (case with_client v c (\<lambda>cl ow rp. expect (\<lambda>j. case j of JObj kvs \<Rightarrow> from_drone kvs
                    | _ \<Rightarrow> Inl (DroneError DroneUnexpectedResponseError ''Drone returned an invalid build''))
                  \<circ> drone_read v cl (repo_path ow rp @ ''/builds/None'') []) w of
             (Inl (DroneError DroneNotFoundError m), w1) \<Rightarrow> (Inl BuildNotFoundError, w1)
           | r \<Rightarrow> r))"

definition promotion_evidence :: "ci_job \<Rightarrow> drone_build \<Rightarrow> bool" where
  "promotion_evidence j b \<longleftrightarrow> is_promotion_of (j_source_build_number j) (j_target j) b \<and>
     Some (bd_commit_sha b) = j_commit_sha j \<and> stages_succeeded b (j_promotion_stages j) True"

definition track_success :: "env \<Rightarrow> string \<Rightarrow> dep_row \<Rightarrow> world \<Rightarrow> (exn + unit) \<times> world" where
  "track_success v i d w =
     (case for_deployment w d of
        Inl e \<Rightarrow> (Inl e, w)
      | Inr c \<Rightarrow>
          (let unavailable = (\<lambda>w1. (Inr (),
                 if now_of v w1 \<ge> (case d_started_at d of None \<Rightarrow> d_created_at d | Some t \<Rightarrow> t) + v_deployment_timeout v * SECOND
                 then ci_transition v i ''FAILED'' (Some ''PROMOTION_VERIFICATION_TIMEOUT'') (tick w1)
                 else ci_transition v i ''DEPLOYING'' (Some ''PROMOTION_UPSTREAM_UNAVAILABLE'') (tick w1)))
           in case get_promotion_build v c (d_promotion_build_number d) w of
                (Inl (DroneError k m), w1) \<Rightarrow> unavailable w1
              | (Inl BuildNotFoundError, w1) \<Rightarrow> unavailable w1
              | (Inl e, w1) \<Rightarrow> (Inl e, w1)
              | (Inr b, w1) \<Rightarrow>
                  (case find_job w1 i of
                     None \<Rightarrow> (Inl AttributeError, w1)
                   | Some j \<Rightarrow>
                       (Inr (), if promotion_evidence j b then ci_transition v i ''SUCCESS'' None w1
                                else ci_transition v i ''FAILED'' (Some ''PROMOTION_STAGES_REJECTED'') w1))))"

definition failure_code :: "dep_row \<Rightarrow> string" where
  "failure_code d =
     (case d_error_code d of
        Some code \<Rightarrow> (if code \<in> {''PROMOTION_STAGES_REJECTED'', ''CI_DISPATCH_REJECTED'', ''WORKFLOW_TIMEOUT''}
                      then code else ''DEPLOYMENT_FAILED'')
      | None \<Rightarrow> ''DEPLOYMENT_FAILED'')"

definition poll_linked :: "env \<Rightarrow> dep_row \<Rightarrow> world \<Rightarrow> (exn + unit) \<times> world" where
  "poll_linked v d w =
     (if py_truthy (d_release_bundle_id d)
      then (case refresh_bundle v (the (d_release_bundle_id d)) w of (Inl e, w1) \<Rightarrow> (Inl e, w1) | (Inr _, w1) \<Rightarrow> (Inr (), w1))
      else (case refresh_standalone v (d_id d) w of (Inl e, w1) \<Rightarrow> (Inl e, w1) | (Inr _, w1) \<Rightarrow> (Inr (), w1)))"

definition ci_track :: "env \<Rightarrow> ci_job \<Rightarrow> string \<Rightarrow> world \<Rightarrow> (exn + unit) \<times> world" where
  "ci_track v j d_ref w =
     (case find_dep w d_ref of
        None \<Rightarrow> (Inl AttributeError, w)
      | Some d0 \<Rightarrow>
          (case poll_linked (ci_env v j) d0 w of
             (Inl e, w1) \<Rightarrow> (Inl e, w1)
           | (Inr _, w1) \<Rightarrow>
               (case find_dep w1 d_ref of
                  None \<Rightarrow> (Inl AttributeError, w1)
                | Some d \<Rightarrow>
                    (if d_status d = DS_SUCCESS then track_success v (j_id j) d w1
                     else if d_status d \<in> {DS_FAILED, DS_CANCELLED}
                     then (Inr (), ci_transition v (j_id j) ''FAILED'' (Some (failure_code d)) w1)
                     else (Inr (), ci_transition v (j_id j) ''DEPLOYING'' None w1)))))"

subsection \<open>The runner\<close>

definition ci_advance :: "env \<Rightarrow> ci_job \<Rightarrow> world \<Rightarrow> (exn + unit) \<times> world" where
  "ci_advance v j w =
     (if py_truthy (j_deployment_id j) then ci_track v j (the (j_deployment_id j)) w
      else (case source_verdict v j w of
         (Inl e, w1) \<Rightarrow> (Inl e, w1)
       | (Inr (Settle s code), w1) \<Rightarrow> (Inr (), ci_transition v (j_id j) s code w1)
       | (Inr (Deploy c b), w1) \<Rightarrow>
           (case link_deployment v c j b w1 of
              (Inl e, w2) \<Rightarrow> (Inl e, w2)
            | (Inr False, w2) \<Rightarrow> (Inr (), w2)
            | (Inr True, w2) \<Rightarrow>
                (case Option.bind (find_job w2 (j_id j)) j_deployment_id of
                   None \<Rightarrow> (Inl AttributeError, w2)
                 | Some d \<Rightarrow> ci_track v j d w2))))"

definition lease_free :: "time \<Rightarrow> ci_job \<Rightarrow> bool" where
  "lease_free now j \<longleftrightarrow> j_status j \<notin> set CI_TERMINAL \<and> started_before (j_lease_until j) now"

definition leased :: "string \<Rightarrow> time \<Rightarrow> ci_job \<Rightarrow> ci_job" where
  "leased lease now j = j\<lparr>j_lease_id := Some lease, j_lease_until := Some (now + 300 * SECOND)\<rparr>"

definition release_lease :: "env \<Rightarrow> string \<Rightarrow> string \<Rightarrow> world \<Rightarrow> world" where
  "release_lease v i lease w =
     commit (upd_job i (\<lambda>j. if j_lease_id j = Some lease
         then j\<lparr>j_lease_id := None, j_lease_until := None, j_updated_at := now_of v w\<rparr> else j) (tick w))"

definition ci_retry :: "env \<Rightarrow> string \<Rightarrow> world \<Rightarrow> world" where
  "ci_retry v i w =
     (case find_job w i of None \<Rightarrow> w | Some j \<Rightarrow> ci_transition v i (j_status j) (Some ''CI_WORKER_RETRY'') w)"

definition ci_run_one :: "env \<Rightarrow> string \<Rightarrow> world \<Rightarrow> world" where
  "ci_run_one v i w0 =
     (let lease = new_uuid v w0; now = now_of v (tick w0); w = open_session (tick (tick w0))
      in case find_job w i of
           None \<Rightarrow> commit w
         | Some j \<Rightarrow>
             (if \<not> lease_free now j then commit w
              else (let w1 = commit (upd_job i (leased lease now) w)
                    in case ci_advance v (leased lease now j) w1 of
                         (Inr _, w2) \<Rightarrow> release_lease v i lease (commit w2)
                       | (Inl _, w2) \<Rightarrow> release_lease v i lease (commit (ci_retry v i (rollback w2))))))"

definition ci_pending :: "env \<Rightarrow> time \<Rightarrow> world \<Rightarrow> string list" where
  "ci_pending v now w =
     map j_id (take (v_batch_size v) (sort_key j_updated_at (filter (lease_free now) (t_ci_jobs (w_cur w)))))"

fun ci_run_each :: "env \<Rightarrow> string list \<Rightarrow> world \<Rightarrow> world" where
  "ci_run_each v [] w = w"
| "ci_run_each v (i # rest) w = ci_run_each v rest (ci_run_one v i w)"

definition ci_run :: "env \<Rightarrow> world \<Rightarrow> nat \<times> world" where
  "ci_run v w0 =
     (let w = open_session (tick w0); ids = ci_pending v (now_of v w0) w
      in (length ids, ci_run_each v ids w))"

subsection \<open>Credentials\<close>

text \<open>app/services/ci_tokens.py; \<open>digest\<close> is the SHA-256 of the token, \<open>secret\<close> the random text drawn.\<close>

definition authenticate :: "env \<Rightarrow> (string \<Rightarrow> string) \<Rightarrow> string \<Rightarrow> world \<Rightarrow> ci_token option \<times> world" where
  "authenticate v digest raw w =
     (let k = List.find (\<lambda>k. k_token_hash k = digest raw) (t_ci_tokens (w_cur w))
      in case token_active v k w of (ok, w1) \<Rightarrow> (if ok then k else None, w1))"

definition TOKEN_PREFIX :: string where "TOKEN_PREFIX = ''rc_ci_''"

definition create_token ::
    "env \<Rightarrow> (string \<Rightarrow> string) \<Rightarrow> string \<Rightarrow> string \<Rightarrow> string \<times> string \<times> string \<times> string \<Rightarrow> time \<Rightarrow>
     world \<Rightarrow> (exn + ci_token \<times> string) \<times> world" where
  "create_token v digest secret name scope expires_at w =
     (if expires_at \<le> now_of v w then (Inl (ValueError ''Token expiry must be in the future''), tick w)
      else (case scope of (project_id, component_id, target, branch) \<Rightarrow>
        (let w1 = tick w; raw = TOKEN_PREFIX @ secret;
             k = \<lparr>k_id = new_uuid v w1, k_name = name, k_token_hash = digest raw, k_project_id = project_id,
                  k_component_id = component_id, k_target = target, k_branch = branch,
                  k_created_at = now_of v (tick w1), k_expires_at = expires_at, k_revoked_at = None\<rparr>;
             w2 = set_tables (\<lambda>t. t\<lparr>t_ci_tokens := t_ci_tokens t @ [k]\<rparr>) (tick (tick w1))
         in if keyed k_id (t_ci_tokens (w_cur w2)) \<and> keyed k_token_hash (t_ci_tokens (w_cur w2))
            then (Inr (k, raw), commit w2) else (Inl IntegrityError, rollback w2))))"

end
