(* ===== verification/CI_Laws.thy ===== *)
theory CI_Laws
  imports CI_Deployment Bundle_Laws
begin

section \<open>What the CI inbox rests on\<close>

subsection \<open>Transitions and quiet stretches\<close>

text \<open>A stretch of a run that sends no promotion.\<close>

definition no_posts :: "world \<Rightarrow> world \<Rightarrow> bool" where
  "no_posts w w' \<longleftrightarrow> (\<exists>es. w_trace w' = w_trace w @ es \<and> filter is_post es = [])"

lemma no_posts_refl [simp]: "no_posts w w"
  by (simp add: no_posts_def)

lemma no_posts_trans: "no_posts u v \<Longrightarrow> no_posts v w \<Longrightarrow> no_posts u w"
  by (auto simp: no_posts_def)

lemma no_posts_same: "w_trace w' = w_trace w \<Longrightarrow> no_posts w w'"
  by (simp add: no_posts_def)

lemma no_posts_session [simp]: "no_posts w (commit w)" "no_posts w (rollback w)" "no_posts w (tick w)"
  by (auto simp: no_posts_def is_post_def)

lemma no_posts_reads: "reads w w' \<Longrightarrow> no_posts w w'"
  by (auto simp: reads_def no_posts_def only_gets_no_post)

lemma upd_job_ops [simp]:
  "w_trace (upd_job i f w) = w_trace w" "w_durable (upd_job i f w) = w_durable w"
  "t_deployments (w_cur (upd_job i f w)) = t_deployments (w_cur w)"
  "t_ci_tokens (w_cur (upd_job i f w)) = t_ci_tokens (w_cur w)"
  "t_components (w_cur (upd_job i f w)) = t_components (w_cur w)"
  "t_projects (w_cur (upd_job i f w)) = t_projects (w_cur w)"
  "t_connections (w_cur (upd_job i f w)) = t_connections (w_cur w)"
  by (simp_all add: upd_job_def)

lemma find_job_ops [simp]: "find_job (tick w) i = find_job w i" "find_job (commit w) i = find_job w i"
  "find_job (add_ci_event e w) i = find_job w i"
  by (simp_all add: find_job_def add_ci_event_def)

lemma find_upd_job:
  "(\<And>j. j_id (f j) = j_id j) \<Longrightarrow> find_job (upd_job i f w) k = (if k = i then map_option f (find_job w k) else find_job w k)"
  by (simp add: find_job_def upd_job_def)

lemma ci_transition_ops [simp]:
  "w_trace (ci_transition v i s c w) = w_trace w" "w_durable (ci_transition v i s c w) = w_durable w"
  "t_deployments (w_cur (ci_transition v i s c w)) = t_deployments (w_cur w)"
  by (auto simp: ci_transition_def Let_def add_ci_event_def split: option.split)

text \<open>The link and the identity of a request, which a transition keeps.\<close>

definition link_of :: "world \<Rightarrow> string \<Rightarrow> string option option" where
  "link_of w i = map_option j_deployment_id (find_job w i)"

lemma link_upd_job:
  assumes "\<And>j. j_id (f j) = j_id j" and "\<And>j. j_deployment_id (f j) = j_deployment_id j"
  shows "link_of (upd_job i f w) k = link_of w k"
  using assms by (auto simp: link_of_def find_upd_job option.map_comp comp_def intro!: arg_cong2 [where f = map_option])

lemma link_ops [simp]: "link_of (tick w) i = link_of w i" "link_of (commit w) i = link_of w i"
  "link_of (add_ci_event e w) i = link_of w i"
  by (simp_all add: link_of_def)

lemma link_transition [simp]: "link_of (ci_transition v i s c w) k = link_of w k"
  by (simp add: ci_transition_def Let_def link_upd_job split: option.split)

lemma link_retry [simp]: "link_of (ci_retry v i w) k = link_of w k"
  by (simp add: ci_retry_def split: option.split)

lemma link_release [simp]: "link_of (release_lease v i l w) k = link_of w k"
  by (simp add: release_lease_def link_upd_job)

lemma retry_ops [simp]: "w_trace (ci_retry v i w) = w_trace w" "w_durable (ci_retry v i w) = w_durable w"
  by (simp_all add: ci_retry_def split: option.split)

lemma release_trace [simp]:
  "w_trace (release_lease v i l w) = w_trace w @ [Committed (w_cur (release_lease v i l w))]"
  "w_durable (release_lease v i l w) = w_cur (release_lease v i l w)"
  by (simp_all add: release_lease_def)

subsection \<open>Judging a source build changes nothing else\<close>

text \<open>Only the row of the request may differ, and only by the commit it records.\<close>

definition judges :: "world \<Rightarrow> world \<Rightarrow> bool" where
  "judges w w' \<longleftrightarrow> no_posts w w' \<and> unsaved w w' \<and> (\<exists>js. w_cur w' = (w_cur w)\<lparr>t_ci_jobs := js\<rparr>) \<and>
     (\<forall>i. link_of w' i = link_of w i)"

lemma judges_refl [simp]: "judges w w"
  unfolding judges_def by (auto simp: unsaved_same intro: exI [of _ "t_ci_jobs (w_cur w)"])

lemma judges_trans: "judges u v \<Longrightarrow> judges v w \<Longrightarrow> judges u w"
  unfolding judges_def using no_posts_trans unsaved_trans by fastforce

lemma judges_tick [simp]: "judges w (tick w)"
  unfolding judges_def by (auto simp: unsaved_same intro: exI [of _ "t_ci_jobs (w_cur w)"])

lemma judges_reads: "reads w w' \<Longrightarrow> judges w w'"
  unfolding judges_def using no_posts_reads unsaved_reads
  by (auto simp: reads_def link_of_def find_job_def intro!: exI [of _ "t_ci_jobs (w_cur w)"])

lemma judges_upd_job:
  "(\<And>j. j_id (f j) = j_id j) \<Longrightarrow> (\<And>j. j_deployment_id (f j) = j_deployment_id j) \<Longrightarrow> judges w (upd_job i f w)"
  by (auto simp: judges_def no_posts_def unsaved_same link_upd_job) (auto simp: upd_job_def)

lemma token_active_cases: "snd (token_active v k w) = w \<or> snd (token_active v k w) = tick w"
  by (auto simp: token_active_def split: option.split)

lemma source_read_reads: "source_read v c j w = (r, w') \<Longrightarrow> reads w w'"
proof -
  assume r: "source_read v c j w = (r, w')"
  obtain x w1 where x: "get_repository_info v c w = (x, w1)" by force
  obtain y w2 where y: "get_build v c (j_source_build_number j) w1 = (y, w2)" by force
  have "reads w w1" "reads w1 w2"
    using service_reads(2) [of w v c] x get_build_reads [of w1 v c "j_source_build_number j"] y by simp_all
  then show ?thesis
    using r reads_trans by (auto simp: source_read_def Let_def x y split: sum.splits if_splits)
qed

lemma source_judged_judges: "source_judged v j c b w = (s, w') \<Longrightarrow> judges w w'"
proof -
  assume r: "source_judged v j c b w = (s, w')"
  let ?w1 = "if is_sha (bd_commit_sha b)
    then upd_job (j_id j) (\<lambda>j. j\<lparr>j_commit_sha := Some (bd_commit_sha b)\<rparr>) w else w"
  have "judges w ?w1" by (simp add: judges_upd_job)
  then have "judges w ?w1 \<and> judges w (tick ?w1)" using judges_trans judges_tick by blast
  then show ?thesis using r by (auto simp: source_judged_def Let_def split: source_verdict.splits if_splits)
qed

lemma component_verdict_judges:
  assumes "component_verdict v j c w = (r, w')"
  shows "judges w w'"
proof -
  obtain x w1 where x: "source_read v c j w = (x, w1)" by force
  have w1: "judges w w1" by (rule judges_reads [OF source_read_reads [OF x]])
  have "judges w w2" if "source_judged v j c' b w1 = (s, w2)" for c' b s w2
    using judges_trans [OF w1 source_judged_judges [OF that]] .
  then show ?thesis
    using assms w1 by (auto simp: component_verdict_def x split: sum.splits prod.splits source_verdict.splits)
qed

lemma source_verdict_judges:
  assumes "source_verdict v j w = (r, w')"
  shows "judges w w'"
proof -
  obtain act w2 where a: "token_active v (find_row k_id (j_service_token_id j) (t_ci_tokens (w_cur w))) (tick w) = (act, w2)"
    by force
  have "w2 = tick w \<or> w2 = tick (tick w)"
    using token_active_cases [of v "find_row k_id (j_service_token_id j) (t_ci_tokens (w_cur w))" "tick w"] a by simp
  then have w2: "judges w w2" using judges_trans judges_tick by blast
  have "judges w w3" if "component_verdict v j c w2 = (x, w3)" for c x w3
    using judges_trans [OF w2 component_verdict_judges [OF that]] .
  then show ?thesis
    using assms w2 by (auto simp: source_verdict_def Let_def a split: if_splits bool.splits option.splits sum.splits)
qed

subsection \<open>The evidence behind a deployment\<close>

text \<open>
  What a run finds before it links: in the tables it starts from, and in the two answers of Drone that it
  asks for on that session, the repository first and then the build. The last argument is the session after
  those readings.
\<close>

definition source_evidence :: "env \<Rightarrow> ci_job \<Rightarrow> world \<Rightarrow> component_row \<Rightarrow> drone_build \<Rightarrow> world \<Rightarrow> bool" where
  "source_evidence v j w c b w' \<longleftrightarrow>
     (\<exists>k \<in> set (t_ci_tokens (w_cur w)). k_id k = j_service_token_id j \<and> k_revoked_at k = None \<and>
        k_expires_at k > now_of v (tick w)) \<and>
     c \<in> set (t_components (w_cur w)) \<and> c_id c = j_component_id j \<and> c_is_active c \<and> \<not> archived w c \<and>
     (\<exists>n. drone_connection w c = Inr n \<and> same_route c (n_id n) j) \<and> override_ok c (j_target j) \<and>
     (\<exists>r u. get_repository_info v c (tick (tick w)) = (Inr r, u) \<and> route_matches r j \<and>
        get_build v c (j_source_build_number j) u = (Inr b, w')) \<and>
     j_deadline_at j > now_of v w \<and> bd_number b = j_source_build_number j \<and> bd_event b = ''push'' \<and>
     bd_branch b = j_branch j \<and> bd_status b = ''success'' \<and> is_sha (bd_commit_sha b) \<and>
     stages_succeeded b (j_source_stages j) False"

lemma read_failure_Deploy [simp]: "read_failure e \<noteq> Inr (Deploy c b)"
  by (cases e) (simp_all add: read_failure_def)

lemma source_read_Deploy:
  assumes "source_read v c j w = (Inr (Deploy c' b), w')"
  shows "c' = c \<and> (\<exists>r u. get_repository_info v c w = (Inr r, u) \<and> route_matches r j \<and>
    get_build v c (j_source_build_number j) u = (Inr b, w'))"
proof -
  obtain x w1 where x: "get_repository_info v c w = (x, w1)" by force
  obtain y w2 where y: "get_build v c (j_source_build_number j) w1 = (y, w2)" by force
  show ?thesis
    using assms by (auto simp: source_read_def x y split: sum.splits if_splits)
qed

lemma source_evidence_looks: "source_evidence v j w c b w' \<Longrightarrow> looks w w'"
proof -
  assume "source_evidence v j w c b w'"
  then obtain r u where r: "get_repository_info v c (tick (tick w)) = (Inr r, u)"
      "get_build v c (j_source_build_number j) u = (Inr b, w')"
    by (auto simp: source_evidence_def)
  have "looks (tick (tick w)) u" "looks u w'"
    using reads_looks service_reads(2) [of "tick (tick w)" v c] get_build_reads [of u v c "j_source_build_number j"] r by fastforce+
  then show ?thesis by (auto simp: looks_def)
qed

lemma source_judged_Deploy:
  assumes "source_judged v j c b w = (Deploy c' b', w')"
  shows "c' = c \<and> b' = b \<and> bd_number b = j_source_build_number j \<and> bd_event b = ''push'' \<and>
     bd_branch b = j_branch j \<and> bd_status b = ''success'' \<and> is_sha (bd_commit_sha b) \<and>
     stages_succeeded b (j_source_stages j) False"
  using assms
  by (auto simp: source_judged_def build_verdict_def Let_def split: source_verdict.splits if_splits)

lemma source_verdict_Deploy:
  assumes "source_verdict v j w = (Inr (Deploy c b), w')"
  shows "\<exists>u. source_evidence v j w c b u \<and> judges u w'"
proof -
  let ?k = "find_row k_id (j_service_token_id j) (t_ci_tokens (w_cur w))"
  have dl: "\<not> j_deadline_at j \<le> now_of v w"
    using assms by (auto simp: source_verdict_def Let_def split: if_splits)
  obtain act w2 where a: "token_active v ?k (tick w) = (act, w2)" by force
  have act: act using assms dl a by (auto simp: source_verdict_def Let_def split: bool.splits)
  then have k: "\<exists>k. ?k = Some k \<and> k_revoked_at k = None \<and> k_expires_at k > now_of v (tick w)" and w2: "w2 = tick (tick w)"
    using a by (auto simp: token_active_def split: option.splits if_splits)
  have reg: "same_registry w2 w" by (simp add: w2 same_registry_def)
  obtain c0 n where c0: "find_row c_id (j_component_id j) (t_components (w_cur w)) = Some c0"
      "\<not> archived w2 c0" "c_is_active c0" "drone_connection w2 c0 = Inr n" "same_route c0 (n_id n) j"
      "override_ok c0 (j_target j)" and rest: "component_verdict v j c0 w2 = (Inr (Deploy c b), w')"
    using assms dl a act w2 by (auto simp: source_verdict_def Let_def split: option.splits sum.splits if_splits)
  obtain c1 b1 w3 where r: "source_read v c0 j w2 = (Inr (Deploy c1 b1), w3)"
      "source_judged v j c1 b1 w3 = (Deploy c b, w')"
    using rest by (auto simp: component_verdict_def split: prod.splits sum.splits source_verdict.splits)
  note read = source_read_Deploy [OF r(1)]
  note judged = source_judged_Deploy [OF r(2)] source_judged_judges [OF r(2)]
  have "archived w2 c0 = archived w c0" by (simp add: archived_def project_of_def w2)
  moreover have "drone_connection w c0 = Inr n" using c0(4) unfolding registry_cong(1) [OF reg, where c = c0] .
  moreover obtain k where "?k = Some k" "k_revoked_at k = None" "k_expires_at k > now_of v (tick w)"
    using k by blast
  moreover have "k \<in> set (t_ci_tokens (w_cur w)) \<and> k_id k = j_service_token_id j" using \<open>?k = Some k\<close> by (rule find_row_Some)
  ultimately show ?thesis
    unfolding source_evidence_def w2 [symmetric]
    using dl c0(2,3,5,6) read judged find_row_Some [OF c0(1)]
    by (intro exI [of _ w3] conjI bexI [of _ k] exI [of _ n]) (auto simp: not_le)
qed

end
