(* ===== verification/CI_Link_Laws.thy ===== *)
theory CI_Link_Laws
  imports CI_Laws
begin

section \<open>How a CI request is linked\<close>

text \<open>
  The run of one request: preparing and adopting a deployment, the commit that links it, and what can
  come after it.
\<close>

subsection \<open>Linking\<close>

lemma link_prepared:
  assumes "prepare_standalone v c b tg rq att w = (r, w')"
  shows "no_posts w w' \<and> w_durable w' = w_durable w \<and>
    (\<forall>i. r = Inr i \<longrightarrow> link_of w' k = link_of w k \<and> find_dep w' i \<noteq> None)"
proof -
  obtain x w1 where x: "svc_create v c b tg None rq w = (x, w1)" by force
  have c: "(w_trace w1 = w_trace w \<or> w_trace w1 = w_trace w @ [RolledBack]) \<and> w_durable w1 = w_durable w \<and>
      (\<forall>i. x = Inr i \<longrightarrow> t_ci_jobs (w_cur w1) = t_ci_jobs (w_cur w) \<and> find_dep w1 i \<noteq> None)"
    using x by (auto simp: svc_create_def Let_def insert_deployment_def find_dep_def find_row_append
        split: sum.splits if_splits option.splits)
  have q: "no_posts w w1" using c by (auto simp: no_posts_def is_post_def)
  have log: "w_trace (log v r' dd st kd ss cd ms u) = w_trace u" "w_durable (log v r' dd st kd ss cd ms u) = w_durable u"
    "t_ci_jobs (w_cur (log v r' dd st kd ss cd ms u)) = t_ci_jobs (w_cur u)"
    "find_dep (log v r' dd st kd ss cd ms u) i = find_dep u i" for r' dd st kd ss cd ms u i
    by (simp_all add: log_def add_event_def find_dep_def)
  have att: "w_trace (set_attachment i a u) = w_trace u" "w_durable (set_attachment i a u) = w_durable u"
    "t_ci_jobs (w_cur (set_attachment i a u)) = t_ci_jobs (w_cur u)"
    "(\<exists>y. find_dep (set_attachment i a u) i = Some y) \<longleftrightarrow> (\<exists>y. find_dep u i = Some y)" for i a u
    by (auto simp: set_attachment_def upd_dep_def find_dep_def split: option.split)
  show ?thesis
    using assms c q
    by (auto simp: prepare_standalone_def x Let_def log att link_of_def find_job_def no_posts_def split: sum.splits)
qed

text \<open>The commit that links a request: its row and the deployment are durable in it.\<close>

definition linked_in :: "string \<Rightarrow> tables \<Rightarrow> bool" where
  "linked_in i T \<longleftrightarrow> (\<exists>j d. find_row j_id i (t_ci_jobs T) = Some j \<and> j_deployment_id j = Some d \<and>
     find_row d_id d (t_deployments T) \<noteq> None)"

definition links :: "string \<Rightarrow> world \<Rightarrow> world \<Rightarrow> bool" where
  "links i w w' \<longleftrightarrow> (\<exists>es T. w_trace w' = w_trace w @ es @ [Committed T] \<and> filter is_post es = [] \<and> linked_in i T)"

lemma link_of_linked:
  assumes "link_of w i = Some (Some d)" and "find_dep w d \<noteq> None"
  shows "linked_in i (w_cur w)"
  using assms by (auto simp: link_of_def find_job_def linked_in_def find_dep_def)

lemma link_committed:
  assumes "no_posts w u" and "find_job u i \<noteq> None" and "find_dep u d \<noteq> None"
  shows "links i w (commit (ci_transition v i s code (upd_job i (linked_job sha d) u)))"
proof -
  let ?u = "ci_transition v i s code (upd_job i (linked_job sha d) u)"
  have "link_of (upd_job i (linked_job sha d) u) i = Some (Some d)"
    using assms(2) by (auto simp: link_of_def find_upd_job linked_job_def)
  then have "link_of ?u i = Some (Some d)" by simp
  moreover have "find_dep ?u d \<noteq> None" using assms(3) by (simp add: find_dep_def)
  ultimately have "linked_in i (w_cur ?u)" by (rule link_of_linked)
  then show ?thesis using assms(1) by (auto simp: links_def no_posts_def)
qed

lemma link_deployment_links:
  assumes "link_deployment v c j b w = (r, w')"
    and "find_job w (j_id j) \<noteq> None" and "find_row j_id (j_id j) (t_ci_jobs (w_durable w)) \<noteq> None"
  shows "(r = Inr True \<longrightarrow> links (j_id j) w w') \<and>
    (r \<noteq> Inr True \<longrightarrow> no_posts w w' \<and> w_durable w' = w_durable w \<and>
       (r = Inr False \<longrightarrow> link_of w' (j_id j) = map_option j_deployment_id (find_row j_id (j_id j) (t_ci_jobs (w_durable w)))))"
proof -
  let ?u = "upd_job (j_id j) (\<lambda>j. j\<lparr>j_commit_sha := Some (bd_commit_sha b)\<rparr>) w"
  obtain x w1 where x: "prepare_standalone (ci_env v j) c b (j_target j)
      (Some (requested_by_token (j_service_token_id j))) None ?u = (x, w1)" by force
  note p = link_prepared [OF x, of "j_id j"]
  have q: "no_posts w w1" "w_durable w1 = w_durable w"
    using p no_posts_trans [of w ?u w1] no_posts_same [of ?u w] by simp_all
  have l: "link_of ?u (j_id j) = link_of w (j_id j)" by (rule link_upd_job) simp_all
  show ?thesis
  proof (cases x)
    case (Inr i)
    let ?w2 = "upd_dep i (\<lambda>d. d\<lparr>d_required_promotion_stages := Some (j_promotion_stages j)\<rparr>) w1"
    have d: "find_dep ?w2 i \<noteq> None" using p Inr by (auto simp: upd_dep_def find_dep_def)
    have "find_job ?w2 (j_id j) \<noteq> None"
      using p Inr l assms(2) by (auto simp: link_of_def find_job_def upd_dep_def)
    moreover have "no_posts w ?w2" using q(1) by (simp add: no_posts_def upd_dep_def)
    ultimately have "links (j_id j) w (commit (ci_transition v (j_id j) ''DEPLOYING'' None
        (upd_job (j_id j) (linked_job (bd_commit_sha b) i) ?w2)))"
      using link_committed d by blast
    then show ?thesis using assms(1) by (auto simp: link_deployment_def x Inr)
  next
    case (Inl e)
    have rb: "no_posts w (rollback w1)" using no_posts_trans [OF q(1)] by simp
    have find: "find_job (rollback w1) (j_id j) = find_row j_id (j_id j) (t_ci_jobs (w_durable w))"
      by (simp add: find_job_def q(2))
    obtain linked w2 where ad: "adopt_deployment v j b (rollback w1) = (linked, w2)" by force
    have "(linked \<longrightarrow> links (j_id j) w w2) \<and> (\<not> linked \<longrightarrow> no_posts w w2 \<and> w_durable w2 = w_durable w \<and>
        link_of w2 (j_id j) = link_of (rollback w1) (j_id j))"
    proof (cases "slot_deployment (rollback w1) j")
      case None
      then show ?thesis using ad rb q(2) by (auto simp: adopt_deployment_def)
    next
      case (Some d)
      then have "d \<in> set (t_deployments (w_cur (rollback w1)))"
        by (auto simp: slot_deployment_def find_Some_iff)
      then have "find_dep (rollback w1) (d_id d) \<noteq> None" by (auto simp: find_dep_def find_row_None)
      then have "links (j_id j) w (commit (ci_transition v (j_id j) ''DEPLOYING'' None
          (upd_job (j_id j) (linked_job (bd_commit_sha b) (d_id d)) (rollback w1))))"
        using link_committed [OF rb] find assms(3) by metis
      moreover have "no_posts w (ci_transition v (j_id j) s code (rollback w1))" for s code
        using rb by (simp add: no_posts_def)
      ultimately show ?thesis using ad Some q(2) by (auto simp: adopt_deployment_def split: if_splits)
    qed
    then show ?thesis
      using assms(1) ad q find
      by (auto simp: link_deployment_def x Inl link_of_def split: exn.splits)
  qed
qed

subsection \<open>A run\<close>

lemma extends_poll_linked: "extends_trace w (snd (poll_linked v d w))"
proof -
  have "extends_trace w (snd (refresh_bundle v b w))" for b
    using advance_and_commit_extends by (simp add: refresh_bundle_def split: sum.split)
  moreover have "extends_trace w (snd (refresh_standalone v i w))" for i
  proof (cases "find_dep w i")
    case (Some d)
    obtain x w1 where x: "(if d_status d = DS_WAITING then svc_promote v i None w
        else (Inr (), svc_refresh v i None w)) = (x, w1)" by force
    have "extends_trace w (snd (if d_status d = DS_WAITING then svc_promote v i None w
        else (Inr (), svc_refresh v i None w)))"
      using extends_trace_promote extends_trace_polls [OF svc_refresh_polls] by simp
    then have "extends_trace w w1" by (simp add: x)
    then show ?thesis
      by (auto simp: refresh_standalone_def get_deployment_def Some x Let_def extends_trace_def log_def
          add_event_def split: sum.split)
  qed (simp add: refresh_standalone_def get_deployment_def)
  ultimately show ?thesis by (auto simp: poll_linked_def split: prod.split sum.split) (metis snd_conv)+
qed

lemma snd_not_found [simp]:
  "snd (case r of (Inl (DroneError DroneNotFoundError m), w1) \<Rightarrow> (Inl BuildNotFoundError, w1) | r' \<Rightarrow> r') = snd r"
  by (auto split: prod.split sum.split exn.split drone_error.split)

lemma get_promotion_build_reads: "reads w (snd (get_promotion_build v c n w))"
proof -
  have "reads w (snd (with_client v c (\<lambda>cl ow rp. expect f \<circ> drone_read v cl (repo_path ow rp @ p) []) w))" for f p
    by (rule with_client_reads) (simp add: drone_read_reads)
  then show ?thesis
    using get_build_reads unfolding get_promotion_build_def by (cases n) simp_all
qed

lemma extends_reading: "reads w w' \<Longrightarrow> extends_trace w w'"
  by (auto simp: reads_def extends_trace_def)

lemma extends_same: "w_trace w' = w_trace w \<Longrightarrow> extends_trace w w'"
  by (simp add: extends_trace_def)

lemma extends_track: "extends_trace w (snd (ci_track v j d w))"
proof (cases "find_dep w d")
  case (Some d0)
  obtain x w1 where x: "poll_linked (ci_env v j) d0 w = (x, w1)" by force
  have w1: "extends_trace w w1" using extends_poll_linked [of w "ci_env v j" d0] x by simp
  have "extends_trace w1 (snd (track_success v i d1 w1))" for i d1
  proof (cases "for_deployment w1 d1")
    case (Inr c)
    obtain y w2 where y: "get_promotion_build v c (d_promotion_build_number d1) w1 = (y, w2)" by force
    have w2: "extends_trace w1 w2"
      using extends_reading [OF get_promotion_build_reads [of w1 v c "d_promotion_build_number d1"]] y by simp
    have same: "extends_trace w1 u" if "w_trace u = w_trace w2" for u
      using w2 that by (simp add: extends_trace_def)
    show ?thesis
    proof (cases y)
      case (Inl e)
      then show ?thesis
        by (cases e) (auto simp: track_success_def Inr y Let_def intro!: same)
    qed (auto simp: track_success_def Inr y Let_def intro!: same split: option.split)
  qed (simp add: track_success_def)
  then have t: "extends_trace w (snd (track_success v i d1 w1))" for i d1 using extends_trace_trans [OF w1] by blast
  have "extends_trace w u" if "w_trace u = w_trace w1" for u using w1 that by (simp add: extends_trace_def)
  then show ?thesis using w1 t by (auto simp: ci_track_def Some x split: sum.split option.split)
qed (simp add: ci_track_def)

lemma links_after: "judges w u \<Longrightarrow> links i u w' \<Longrightarrow> links i w w'"
  by (fastforce simp: judges_def no_posts_def links_def unsaved_def)

lemma judges_found:
  assumes "judges w u"
  shows "(find_job u i = None) = (find_job w i = None)" and "w_durable u = w_durable w"
proof -
  have "link_of u i = link_of w i" "w_durable u = w_durable w" using assms by (auto simp: judges_def unsaved_def)
  then show "(find_job u i = None) = (find_job w i = None)" "w_durable u = w_durable w"
    by (auto simp: link_of_def)
qed

text \<open>An unlinked request either is linked, on evidence, by a commit that precedes every promotion, or nothing is sent.\<close>

lemma ci_advance_unlinked:
  assumes "ci_advance v j w = (r, w')" and "\<not> py_truthy (j_deployment_id j)"
    and "w_durable w = w_cur w" and "find_job w (j_id j) \<noteq> None"
  shows "(\<exists>c b x u. source_evidence v j w c b x \<and> links (j_id j) w u \<and> links (j_id j) x u \<and> extends_trace u w') \<or>
    (no_posts w w' \<and> w_durable w' = w_durable w \<and> (isl r \<or> link_of w' (j_id j) = link_of w (j_id j)))"
proof -
  obtain x w1 where x: "source_verdict v j w = (x, w1)" by force
  note w1 = source_verdict_judges [OF x]
  have q: "no_posts w w1" "link_of w1 (j_id j) = link_of w (j_id j)" using w1 by (auto simp: judges_def)
  have step: "ci_advance v j w = (case x of Inl e \<Rightarrow> (Inl e, w1)
      | Inr (Settle s code) \<Rightarrow> (Inr (), ci_transition v (j_id j) s code w1)
      | Inr (Deploy c b) \<Rightarrow> (case link_deployment v c j b w1 of
          (Inl e, w2) \<Rightarrow> (Inl e, w2) | (Inr False, w2) \<Rightarrow> (Inr (), w2)
        | (Inr True, w2) \<Rightarrow> (case Option.bind (find_job w2 (j_id j)) j_deployment_id of
            None \<Rightarrow> (Inl AttributeError, w2) | Some d \<Rightarrow> ci_track v j d w2)))"
    using assms(2) by (simp add: ci_advance_def x split: sum.split source_verdict.split)
  show ?thesis
  proof (cases "\<exists>c b. x = Inr (Deploy c b)")
    case False
    then show ?thesis
      using assms(1) q judges_found(2) [OF w1] unfolding step
      by (auto simp: no_posts_def split: sum.splits source_verdict.splits)
  next
    case True
    then obtain c b where cb: "x = Inr (Deploy c b)" by blast
    obtain y w2 where y: "link_deployment v c j b w1 = (y, w2)" by force
    have f: "find_job w1 (j_id j) \<noteq> None" "find_row j_id (j_id j) (t_ci_jobs (w_durable w1)) \<noteq> None"
      using assms(3,4) judges_found [OF w1] by (simp_all add: find_job_def)
    note link = link_deployment_links [OF y f]
    show ?thesis
    proof (cases "y = Inr True")
      case True
      then have l: "links (j_id j) w1 w2" using link by blast
      obtain x' where x': "source_evidence v j w c b x'" "judges x' w1"
        using source_verdict_Deploy [of v j w c b w1] x cb by blast
      have "extends_trace w2 w'"
        using assms(1) extends_track unfolding step by (auto simp: cb y True split: option.splits) (metis snd_conv)
      then show ?thesis using x' links_after [OF w1 l] links_after [OF x'(2) l] by blast
    next
      case False
      then have "no_posts w w2" "w_durable w2 = w_durable w"
        using link no_posts_trans [OF q(1)] judges_found(2) [OF w1] by auto
      moreover have "w' = w2" "r = Inr () \<longrightarrow> y = Inr False"
        using assms(1) False unfolding step by (auto simp: cb y split: sum.splits bool.splits)
      moreover have "y = Inr False \<longrightarrow> link_of w2 (j_id j) = link_of w (j_id j)"
        using link judges_found(2) [OF w1] assms(3) by (simp add: link_of_def find_job_def)
      ultimately show ?thesis by (cases r) auto
    qed
  qed
qed

text \<open>The whole pass over one request that is not linked yet.\<close>

definition after_lease :: "env \<Rightarrow> string \<Rightarrow> world \<Rightarrow> world" where
  "after_lease v i w =
     commit (upd_job i (leased (new_uuid v w) (now_of v (tick w))) (open_session (tick (tick w))))"

lemma ci_run_one_unlinked:
  assumes j: "find_row j_id i (t_ci_jobs (w_durable w)) = Some j" and "\<not> py_truthy (j_deployment_id j)"
  shows "(\<exists>c b x u. source_evidence v j (after_lease v i w) c b x \<and> links i w u \<and> links i x u \<and>
      extends_trace u (ci_run_one v i w)) \<or>
    (no_posts w (ci_run_one v i w) \<and>
     map_option j_deployment_id (find_row j_id i (t_ci_jobs (w_durable (ci_run_one v i w)))) = Some (j_deployment_id j))"
proof -
  let ?lease = "new_uuid v w" and ?now = "now_of v (tick w)" and ?w = "open_session (tick (tick w))"
  define w1 where "w1 = after_lease v i w"
  have f: "find_job ?w i = Some j" "j_id j = i"
    using j by (auto simp: find_job_def open_session_def dest: find_row_Some)
  have w1: "w_durable w1 = w_cur w1" "find_job w1 i = Some (leased ?lease ?now j)" "no_posts w w1"
    "link_of w1 i = Some (j_deployment_id j)"
    using f by (auto simp: w1_def after_lease_def find_upd_job leased_def no_posts_def is_post_def link_of_def open_session_def)
  show ?thesis
  proof (cases "lease_free ?now j")
    case False
    then have "ci_run_one v i w = commit ?w" using f by (simp add: ci_run_one_def)
    then show ?thesis using j by (auto simp: no_posts_def is_post_def open_session_def)
  next
    case True
    obtain r w2 where r: "ci_advance v (leased ?lease ?now j) w1 = (r, w2)" by force
    have run: "ci_run_one v i w = release_lease v i ?lease (commit (if isl r then ci_retry v i (rollback w2) else w2))"
      using f True r by (auto simp: ci_run_one_def Let_def w1_def after_lease_def split: sum.split)
    let ?w3 = "commit (if isl r then ci_retry v i (rollback w2) else w2)"
    have tail: "extends_trace w2 (ci_run_one v i w)" "no_posts w2 (ci_run_one v i w)"
      unfolding run by (auto simp: extends_trace_def no_posts_def is_post_def)
    have same: "j_id (leased ?lease ?now j) = i" "\<not> py_truthy (j_deployment_id (leased ?lease ?now j))"
      "source_evidence v (leased ?lease ?now j) w1 c b x = source_evidence v j w1 c b x" for c b x
      using f(2) assms(2) by (simp_all add: leased_def source_evidence_def same_route_def route_matches_def)
    have dur: "map_option j_deployment_id (find_row j_id i (t_ci_jobs (w_durable (ci_run_one v i w)))) = link_of ?w3 i"
      unfolding run using link_release [of v i ?lease ?w3 i] by (simp add: link_of_def find_job_def)
    from ci_advance_unlinked [OF r same(2) w1(1), unfolded same(1)] w1(2)
    consider c b x u where "source_evidence v j w1 c b x" "links i w1 u" "extends_trace u w2" "links i x u"
      | "no_posts w1 w2" "w_durable w2 = w_durable w1" "isl r \<or> link_of w2 i = link_of w1 i"
      unfolding same(3) by auto
    then show ?thesis
    proof cases
      case 1
      have "links i w u" using 1(2) w1(3) by (fastforce simp: no_posts_def links_def)
      then show ?thesis using 1(1,4) extends_trace_trans [OF 1(3) tail(1)] unfolding w1_def by blast
    next
      case 2
      have "link_of (rollback w2) i = link_of w1 i" using 2(2) w1(1) by (simp add: link_of_def find_job_def)
      then have "link_of ?w3 i = Some (j_deployment_id j)" using 2(3) w1(4) by auto
      then show ?thesis using dur no_posts_trans [OF no_posts_trans [OF w1(3) 2(1)] tail(2)] by simp
    qed
  qed
qed

end
