(* ===== verification/CI_Properties.thy ===== *)
theory CI_Properties
  imports CI_Link_Laws Samples
begin

section \<open>Properties of the CI inbox\<close>

subsection \<open>A request to evaluate\<close>

definition ci_sample_token :: ci_token where
  "ci_sample_token = \<lparr>k_id = ''k1'', k_name = ''ci'', k_token_hash = ''h'', k_project_id = ''p1'',
     k_component_id = ''c1'', k_target = ''staging'', k_branch = ''main'', k_created_at = 0,
     k_expires_at = 1000, k_revoked_at = None\<rparr>"

definition ci_sample_policy :: ci_policy where
  "ci_sample_policy = \<lparr>y_component_id = ''c1'', y_target = ''staging'', y_branch = ''main'',
     y_source_stages = [''build''], y_promotion_stages = [''deploy'']\<rparr>"

definition ci_sample_job :: ci_job where
  "ci_sample_job = \<lparr>j_id = ''j1'', j_service_token_id = ''k1'', j_project_id = ''p1'', j_component_id = ''c1'',
     j_target = ''staging'', j_branch = ''main'', j_source_build_number = 7, j_drone_connection_id = ''n1'',
     j_drone_owner = ''acme'', j_drone_repository = ''backend'', j_source_stages = [''build''],
     j_promotion_stages = [''deploy''], j_commit_sha = None, j_deployment_id = None, j_status = ''WAITING_SOURCE'',
     j_error_code = None, j_created_at = 0, j_updated_at = 0, j_deadline_at = 1000, j_finished_at = None,
     j_lease_id = None, j_lease_until = None\<rparr>"

definition ci_world :: "ci_job list \<Rightarrow> world" where
  "ci_world js = (let T = (tables_with [] [])\<lparr>t_components := [backend_component], t_ci_tokens := [ci_sample_token],
       t_ci_policies := [ci_sample_policy], t_ci_jobs := js\<rparr>
     in \<lparr>w_cur = T, w_durable = T, w_ticks = 0, w_trace = []\<rparr>)"

definition ci_sample_build :: json where
  "ci_sample_build = JObj [(''number'', JInt 7), (''status'', JStr ''success''), (''event'', JStr ''push''),
     (''branch'', JStr ''main''), (''target'', JStr ''main''), (''after'', JStr (replicate 40 CHR ''a'')),
     (''stages'', JList [JObj [(''number'', JInt 1), (''name'', JStr ''build''), (''status'', JStr ''success'')]])]"

definition ci_sample_repo :: json where
  "ci_sample_repo = JObj [(''namespace'', JStr ''acme''), (''name'', JStr ''backend''), (''slug'', JStr ''acme/backend'')]"

definition ci_sample_env :: env where
  "ci_sample_env = (sample_env HttpTimeout (ok_build 9 ''pending'' ''promote''))\<lparr>v_http := (\<lambda>tr rq.
     if h_method rq = POST then ok_build 9 ''pending'' ''promote''
     else HttpResponse 200 (Some (if h_path rq = repo_path ''acme'' ''backend'' then ci_sample_repo else ci_sample_build)))\<rparr>"

subsection \<open>One request per build and target\<close>




lemma insert_conflict:
  assumes "jobs_unique js" and "List.find (\<lambda>j. (j_component_id j, j_source_build_number j, j_target j) = key) js = None"
    and "(j_component_id j, j_source_build_number j, j_target j) = key"
  shows "jobs_unique (js @ [j]) \<longleftrightarrow> j_id j \<notin> j_id ` set js"
  using assms by (auto simp: jobs_unique_def keyed_def find_None_iff)



subsection \<open>The link comes first\<close>



subsection \<open>The evidence behind a link\<close>

text \<open>
  C38. A CI request is linked to a deployment only on evidence gathered in the same run, after its lease
  was committed and before the link is. On the session of the lease, its token is unrevoked and unexpired
  and its deadline has not passed, and its component is active, in a project that is not archived, and
  still has the repository, connection and target of the request. On that same session Drone is then asked,
  and reports that repository and a build with the number asked for, a successful push build of the allowed
  branch with a well-formed commit, in which every required stage ran once and succeeded. Those readings
  send GETs only and change no table, and the commit that links the request comes after them in the run,
  with no promotion request sent in between.
\<close>

theorem ci_link_needs_evidence:
  assumes "find_row j_id i (t_ci_jobs (w_durable w)) = Some j" and "\<not> py_truthy (j_deployment_id j)"
    and "find_row j_id i (t_ci_jobs (w_durable (ci_run_one v i w))) = Some j'" and "j_deployment_id j' \<noteq> j_deployment_id j"
  shows "\<exists>c b x reads es T rest. source_evidence v j (after_lease v i w) c b x \<and>
    w_cur x = w_cur (after_lease v i w) \<and> w_durable x = w_durable (after_lease v i w) \<and>
    w_trace x = w_trace (after_lease v i w) @ reads \<and> only_gets reads \<and>
    w_trace (ci_run_one v i w) = w_trace x @ es @ Committed T # rest \<and> filter is_post es = [] \<and> linked_in i T"
proof -
  obtain c b x u where ev: "source_evidence v j (after_lease v i w) c b x" and l: "links i x u"
    and u: "extends_trace u (ci_run_one v i w)"
    using ci_run_one_unlinked [OF assms(1,2), of v] assms(3,4) by auto
  obtain es T where es: "w_trace u = w_trace x @ es @ [Committed T]" "filter is_post es = []" "linked_in i T"
    using l by (auto simp: links_def)
  obtain rest where "w_trace (ci_run_one v i w) = w_trace x @ es @ Committed T # rest"
    using u es(1) by (auto simp: extends_trace_def)
  then show ?thesis using ev es(2,3) source_evidence_looks [OF ev] unfolding looks_def by blast
qed

theorem ci_link_needs_evidence_witness:
  "\<exists>c b x es T rest. source_evidence ci_sample_env ci_sample_job (after_lease ci_sample_env ''j1'' (ci_world [ci_sample_job])) c b x \<and>
     w_trace (ci_run_one ci_sample_env ''j1'' (ci_world [ci_sample_job])) = w_trace x @ es @ Committed T # rest \<and> linked_in ''j1'' T"
proof -
  let ?w = "ci_world [ci_sample_job]"
  let ?r = "find_row j_id ''j1'' (t_ci_jobs (w_durable (ci_run_one ci_sample_env ''j1'' ?w)))"
  have j: "find_row j_id ''j1'' (t_ci_jobs (w_durable ?w)) = Some ci_sample_job" "\<not> py_truthy (j_deployment_id ci_sample_job)"
    by code_simp+
  have "map_option j_deployment_id ?r = Some (Some ''uuuuuu'')" by code_simp
  then obtain j' where "?r = Some j'" "j_deployment_id j' \<noteq> j_deployment_id ci_sample_job"
    by (auto simp: ci_sample_job_def)
  from ci_link_needs_evidence [OF j this] show ?thesis by (elim exE conjE) (intro exI conjI)
qed

end
