(* ===== verification/Release_Plans.thy ===== *)
theory Release_Plans
  imports Schedules CI_Policy
begin

section \<open>Release plans\<close>

text \<open>
  app/services/release_operations_service.py (what an environment holds), release_plan_service.py (what
  a release would do, its approval, its one execution) and the error mapping of
  release_operations_errors.py. A plan is a snapshot with its digest; approving it and executing it both
  compare the snapshot with a fresh one, and both change the status with a conditional UPDATE.
\<close>

subsection \<open>Settings, errors and lookups\<close>

record plan_settings =
  mcp_enabled :: bool
  mcp_mode :: string
  mcp_project :: "string option"
  mcp_staging_target :: string
  mcp_production_target :: string
  mcp_actor :: string
  mcp_plan_ttl :: int
  auth_enabled :: bool

definition NOT_FOUND :: string where "NOT_FOUND = ''NOT_FOUND''"
definition INVALID_ARGUMENT :: string where "INVALID_ARGUMENT = ''INVALID_ARGUMENT''"
definition PERMISSION_DENIED :: string where "PERMISSION_DENIED = ''PERMISSION_DENIED''"
definition PIPELINE_FAILED :: string where "PIPELINE_FAILED = ''PIPELINE_FAILED''"
definition DEPLOYMENT_FAILED :: string where "DEPLOYMENT_FAILED = ''DEPLOYMENT_FAILED''"
definition EXTERNAL_SERVICE_ERROR :: string where "EXTERNAL_SERVICE_ERROR = ''EXTERNAL_SERVICE_ERROR''"

text \<open>\<open>safe_error\<close>: what an exception becomes before it leaves the service.\<close>

definition safe_error :: "exn \<Rightarrow> string \<times> string" where
  "safe_error e =
     (case e of
        MCPToolError code message \<Rightarrow> (code, message)
      | ValidationError \<Rightarrow> (INVALID_ARGUMENT, ''Invalid tool arguments.'')
      | BuildNotFoundError \<Rightarrow> (NOT_FOUND, ''Requested record or configured component was not found.'')
      | BundleNotFoundError \<Rightarrow> (NOT_FOUND, ''Requested record or configured component was not found.'')
      | DeploymentNotFoundError \<Rightarrow> (NOT_FOUND, ''Requested record or configured component was not found.'')
      | ComponentNotRegisteredError _ \<Rightarrow> (NOT_FOUND, ''Requested record or configured component was not found.'')
      | NoDefaultProjectError _ \<Rightarrow> (NOT_FOUND, ''Requested record or configured component was not found.'')
      | ProjectNotRegisteredError _ \<Rightarrow> (NOT_FOUND, ''Requested record or configured component was not found.'')
      | BuildNotPromotableError _ \<Rightarrow> (PIPELINE_FAILED, ''Source build is not promotable.'')
      | DuplicatePromotionError _ \<Rightarrow> (CONFLICT, ''Deployment conflicts with current state or configuration.'')
      | ComponentNotSelectableError _ \<Rightarrow> (CONFLICT, ''Deployment conflicts with current state or configuration.'')
      | DroneError _ _ \<Rightarrow> (EXTERNAL_SERVICE_ERROR, ''An upstream service could not complete the request.'')
      | GiteaError _ _ \<Rightarrow> (EXTERNAL_SERVICE_ERROR, ''An upstream service could not complete the request.'')
      | _ \<Rightarrow> (DEPLOYMENT_FAILED, ''Operation could not complete; inspect server audit.''))"

definition release_version :: "dep_row option \<Rightarrow> string option" where
  "release_version d = map_option (\<lambda>d. py_or (d_gitea_release_tag d) (py_or (d_version d) (d_commit_sha d))) d"

definition ops_project :: "plan_settings \<Rightarrow> world \<Rightarrow> exn + project_row" where
  "ops_project ps w = lookup_project w (mcp_project ps)"

definition ops_component :: "plan_settings \<Rightarrow> string \<Rightarrow> world \<Rightarrow> exn + component_row" where
  "ops_component ps key w = (case ops_project ps w of Inl e \<Rightarrow> Inl e | Inr p \<Rightarrow> for_key w key p)"

definition ops_target :: "plan_settings \<Rightarrow> string \<Rightarrow> exn + string" where
  "ops_target ps environment =
     (if environment = ''staging'' then Inr (mcp_staging_target ps)
      else if environment = ''production'' then Inr (mcp_production_target ps)
      else Inl (MCPToolError INVALID_ARGUMENT ''Unknown environment.''))"

definition latest_deployment ::
    "plan_settings \<Rightarrow> component_row \<Rightarrow> string \<Rightarrow> bool \<Rightarrow> world \<Rightarrow> exn + dep_row option" where
  "latest_deployment ps c environment successful w =
     (case ops_project ps w of
        Inl e \<Rightarrow> Inl e
      | Inr p \<Rightarrow> (case ops_target ps environment of
          Inl e \<Rightarrow> Inl e
        | Inr target \<Rightarrow>
            (case rev (sort_key (\<lambda>d. (d_created_at d, d_id d))
                    (filter (\<lambda>d. d_project_id d = p_id p \<and> d_component_id d = c_id c \<and> d_target d = target \<and>
                       (successful \<longrightarrow> d_status d = DS_SUCCESS)) (t_deployments (w_cur w)))) of
               [] \<Rightarrow> Inr None | d # _ \<Rightarrow> Inr (Some d))))"

subsection \<open>What an environment holds\<close>

record component_state =
  cs_version :: "string option"
  cs_commit_sha :: "string option"
  cs_deployment_id :: "string option"
  cs_status :: string
  cs_latest_attempt_id :: "string option"

definition not_configured :: component_state where
  "not_configured = \<lparr>cs_version = None, cs_commit_sha = None, cs_deployment_id = None,
     cs_status = ''not_configured'', cs_latest_attempt_id = None\<rparr>"

definition component_state_of :: "dep_row option \<Rightarrow> dep_row option \<Rightarrow> component_state" where
  "component_state_of latest deployed =
     \<lparr>cs_version = release_version deployed, cs_commit_sha = map_option d_commit_sha deployed,
      cs_deployment_id = map_option d_id deployed,
      cs_status = (case latest of None \<Rightarrow> ''unknown'' | Some d \<Rightarrow> ds_value (d_status d)),
      cs_latest_attempt_id = map_option d_id latest\<rparr>"

text \<open>One component, with the time its latest attempt was created; an unknown component is not an error.\<close>

definition component_status ::
    "plan_settings \<Rightarrow> string \<Rightarrow> string \<Rightarrow> world \<Rightarrow> exn + component_state \<times> time option" where
  "component_status ps environment key w =
     (case ops_component ps key w of
        Inl (ComponentNotRegisteredError _) \<Rightarrow> Inr (not_configured, None)
      | Inl e \<Rightarrow> Inl e
      | Inr c \<Rightarrow>
          (case latest_deployment ps c environment False w of
             Inl e \<Rightarrow> Inl e
           | Inr latest \<Rightarrow> (case latest_deployment ps c environment True w of
               Inl e \<Rightarrow> Inl e
             | Inr deployed \<Rightarrow> Inr (component_state_of latest deployed, map_option d_created_at latest))))"

text \<open>The frontend, the backend and the time of the last deployment of either.\<close>

definition get_environment_status ::
    "plan_settings \<Rightarrow> string \<Rightarrow> world \<Rightarrow> exn + component_state \<times> component_state \<times> time option" where
  "get_environment_status ps environment w =
     (case ops_project ps w of
        Inl e \<Rightarrow> Inl e
      | Inr p \<Rightarrow> (case component_status ps environment FRONTEND_KEY w of
          Inl e \<Rightarrow> Inl e
        | Inr (f, tf) \<Rightarrow> (case component_status ps environment BACKEND_KEY w of
            Inl e \<Rightarrow> Inl e
          | Inr (b, tb) \<Rightarrow>
              Inr (f, b, (case (tf, tb) of (None, t) \<Rightarrow> t | (t, None) \<Rightarrow> t | (Some s, Some t) \<Rightarrow> Some (max s t))))))"

definition same_commit :: "component_state \<Rightarrow> component_state \<Rightarrow> bool option" where
  "same_commit l r =
     (if py_truthy (cs_commit_sha l) \<and> py_truthy (cs_commit_sha r) then Some (cs_commit_sha l = cs_commit_sha r) else None)"

definition compare_environments ::
    "plan_settings \<Rightarrow> world \<Rightarrow> exn + (string option \<times> string option \<times> bool option) list" where
  "compare_environments ps w =
     (case get_environment_status ps ''staging'' w of
        Inl e \<Rightarrow> Inl e
      | Inr (sf, sb, _) \<Rightarrow> (case get_environment_status ps ''production'' w of
          Inl e \<Rightarrow> Inl e
        | Inr (pf, pb, _) \<Rightarrow>
            Inr (map (\<lambda>(l, r). (cs_version l, cs_version r, same_commit l r)) [(sf, pf), (sb, pb)])))"

subsection \<open>The snapshot of a plan\<close>

definition plan_route :: "component_row \<Rightarrow> world \<Rightarrow> exn + plan_route" where
  "plan_route c w = (case drone_connection w c of Inl e \<Rightarrow> Inl e | Inr n \<Rightarrow> Inr (plan_route_of c n))"

record release_candidate =
  rc_candidate :: "string option"
  rc_commit_sha :: "string option"
  rc_build_number :: "int option"
  rc_pipeline_passed :: bool
  rc_in_staging :: bool
  rc_in_production :: bool
  rc_staging_succeeded :: bool
  rc_staging_deployment_id :: "string option"

definition candidate_of ::
    "dep_row option \<Rightarrow> dep_row option \<Rightarrow> dep_row option \<Rightarrow> drone_build option \<Rightarrow> release_candidate" where
  "candidate_of staged latest production build =
     \<lparr>rc_candidate = release_version staged, rc_commit_sha = map_option d_commit_sha staged,
      rc_build_number = map_option d_source_build_number staged,
      rc_pipeline_passed = (case (build, staged) of (Some b, Some d) \<Rightarrow> is_promotable b \<and> bd_commit_sha b = d_commit_sha d | _ \<Rightarrow> False),
      rc_in_staging = (staged \<noteq> None),
      rc_in_production = (case (staged, production) of (Some s, Some p) \<Rightarrow> d_commit_sha s = d_commit_sha p | _ \<Rightarrow> False),
      rc_staging_succeeded = (case latest of None \<Rightarrow> False | Some d \<Rightarrow> d_status d = DS_SUCCESS),
      rc_staging_deployment_id = map_option d_id staged\<rparr>"

definition candidate ::
    "env \<Rightarrow> plan_settings \<Rightarrow> string \<Rightarrow> world \<Rightarrow> (exn + release_candidate) \<times> world" where
  "candidate v ps key w =
     (case ops_component ps key w of Inl e \<Rightarrow> (Inl e, w) | Inr c \<Rightarrow>
      (case latest_deployment ps c ''staging'' True w of Inl e \<Rightarrow> (Inl e, w) | Inr staged \<Rightarrow>
      (case latest_deployment ps c ''staging'' False w of Inl e \<Rightarrow> (Inl e, w) | Inr latest \<Rightarrow>
      (case latest_deployment ps c ''production'' True w of Inl e \<Rightarrow> (Inl e, w) | Inr production \<Rightarrow>
        (case staged of
           None \<Rightarrow> (Inr (candidate_of None latest production None), w)
         | Some d \<Rightarrow>
             (case get_build v c (d_source_build_number d) w of
                (Inl e, w1) \<Rightarrow> (Inl e, w1)
              | (Inr b, w1) \<Rightarrow> (Inr (candidate_of staged latest production (Some b)), w1)))))))"

text \<open>Where the release comes from: number, commit, destination, passed, source deployment, staging check.\<close>

record plan_source =
  so_number :: "int option"
  so_commit :: "string option"
  so_destination :: "string option"
  so_passed :: bool
  so_deployment :: "string option"
  so_staging_ok :: "bool option"

definition source_of_candidate :: "release_candidate \<Rightarrow> plan_source" where
  "source_of_candidate r =
     \<lparr>so_number = rc_build_number r, so_commit = rc_commit_sha r, so_destination = rc_candidate r,
      so_passed = rc_pipeline_passed r, so_deployment = rc_staging_deployment_id r,
      so_staging_ok = Some (rc_staging_succeeded r)\<rparr>"

definition source_of_build :: "drone_build option \<Rightarrow> plan_source" where
  "source_of_build b =
     \<lparr>so_number = map_option bd_number b, so_commit = map_option bd_commit_sha b,
      so_destination = map_option bd_commit_sha b,
      so_passed = (case b of None \<Rightarrow> False | Some x \<Rightarrow> is_promotable x), so_deployment = None, so_staging_ok = None\<rparr>"

text \<open>For staging: the newest push build of the default branch among the last fifty.\<close>

definition default_branch_build :: "repository_info \<Rightarrow> drone_build list \<Rightarrow> drone_build option" where
  "default_branch_build info builds =
     List.find (\<lambda>b. bd_event b = ''push'' \<and> py_truthy (ri_default_branch info) \<and>
        Some (bd_branch b) = ri_default_branch info) builds"

definition plan_source_for ::
    "env \<Rightarrow> plan_settings \<Rightarrow> string \<Rightarrow> string \<Rightarrow> component_row \<Rightarrow> world \<Rightarrow> (exn + plan_source) \<times> world" where
  "plan_source_for v ps environment key c w =
     (if environment = ''production''
      then (case candidate v ps key w of (Inl e, w1) \<Rightarrow> (Inl e, w1) | (Inr r, w1) \<Rightarrow> (Inr (source_of_candidate r), w1))
      else (case get_repository_info v c w of
         (Inl e, w1) \<Rightarrow> (Inl e, w1)
       | (Inr info, w1) \<Rightarrow> (case list_builds v c 50 w1 of
           (Inl e, w2) \<Rightarrow> (Inl e, w2)
         | (Inr builds, w2) \<Rightarrow> (Inr (source_of_build (default_branch_build info builds)), w2))))"

definition component_blockers ::
    "string \<Rightarrow> string \<Rightarrow> component_row \<Rightarrow> plan_source \<Rightarrow> dep_row option \<Rightarrow> string list" where
  "component_blockers key target c src previous =
     (if c_is_active c then [] else [key @ '': component is inactive.'']) @
     (if override_ok c target then [] else [key @ '': target override differs from the requested environment.'']) @
     (if so_staging_ok src = Some False then [key @ '': latest staging deployment has not succeeded.''] else []) @
     (if so_passed src \<and> py_truthy (so_commit src) then []
      else [key @ '': no successful source build with a verified commit.'']) @
     (case previous of None \<Rightarrow> []
      | Some d \<Rightarrow> if Some (d_commit_sha d) = so_commit src then [key @ '': target already has this commit.''] else [])"

definition component_checks :: "string \<Rightarrow> plan_source \<Rightarrow> (string \<times> bool) list" where
  "component_checks key src =
     (case so_staging_ok src of None \<Rightarrow> [] | Some ok \<Rightarrow> [(key @ ''_staging_deployment_succeeded'', ok)]) @
     [(key @ ''_pipeline_passed'', so_passed src)]"

definition component_action :: "string \<Rightarrow> plan_source \<Rightarrow> dep_row option \<Rightarrow> plan_route \<Rightarrow> plan_action" where
  "component_action key src previous route =
     \<lparr>pa_component = key, pa_from = release_version previous, pa_to = so_destination src,
      pa_from_deployment_id = map_option d_id previous, pa_source_deployment_id = so_deployment src,
      pa_build_number = so_number src, pa_commit_sha = so_commit src, pa_route = route\<rparr>"

fun plan_components ::
    "env \<Rightarrow> plan_settings \<Rightarrow> string \<Rightarrow> string \<Rightarrow> string list \<Rightarrow> world \<Rightarrow>
     (exn + plan_action list \<times> (string \<times> bool) list \<times> string list) \<times> world" where
  "plan_components v ps environment target [] w = (Inr ([], [], []), w)"
| "plan_components v ps environment target (key # keys) w =
     (case ops_component ps key w of Inl e \<Rightarrow> (Inl e, w) | Inr c \<Rightarrow>
      (case plan_route c w of Inl e \<Rightarrow> (Inl e, w) | Inr route \<Rightarrow>
      (case latest_deployment ps c environment True w of Inl e \<Rightarrow> (Inl e, w) | Inr previous \<Rightarrow>
      (case plan_source_for v ps environment key c w of
         (Inl e, w1) \<Rightarrow> (Inl e, w1)
       | (Inr src, w1) \<Rightarrow>
           (case plan_components v ps environment target keys w1 of
              (Inl e, w2) \<Rightarrow> (Inl e, w2)
            | (Inr (actions, checks, blockers), w2) \<Rightarrow>
                (Inr (component_action key src previous route # actions, component_checks key src @ checks,
                      component_blockers key target c src previous @ blockers), w2))))))"

definition selected_keys :: "bool \<Rightarrow> bool \<Rightarrow> string list" where
  "selected_keys frontend backend = (if frontend then [FRONTEND_KEY] else []) @ (if backend then [BACKEND_KEY] else [])"

definition snapshot ::
    "env \<Rightarrow> plan_settings \<Rightarrow> string \<Rightarrow> bool \<Rightarrow> bool \<Rightarrow> world \<Rightarrow> (exn + plan_snapshot) \<times> world" where
  "snapshot v ps environment frontend backend w =
     (case ops_target ps environment of Inl e \<Rightarrow> (Inl e, w) | Inr target \<Rightarrow>
      (case ops_project ps w of Inl e \<Rightarrow> (Inl e, w) | Inr p \<Rightarrow>
      (case plan_components v ps environment target (selected_keys frontend backend) w of
         (Inl e, w1) \<Rightarrow> (Inl e, w1)
       | (Inr (actions, checks, bs), w1) \<Rightarrow>
           (let blockers = (if p_is_archived p then [''Project is archived.''] else []) @ bs
            in if actions = [] then (Inl (MCPToolError INVALID_ARGUMENT ''Select at least one component.''), w1)
               else (Inr \<lparr>ps_project_id = p_id p, ps_target_environment = environment, ps_target = target,
                       ps_actions = actions, ps_checks = checks,
                       ps_requires_approval = (environment = ''production''),
                       ps_executable = (blockers = []), ps_blockers = blockers\<rparr>, w1)))))"

subsection \<open>Creating and reading plans\<close>

definition find_plan :: "world \<Rightarrow> string \<Rightarrow> release_plan option" where
  "find_plan w i = find_row pl_id i (t_plans (w_cur w))"

definition upd_plan :: "string \<Rightarrow> (release_plan \<Rightarrow> release_plan) \<Rightarrow> world \<Rightarrow> world" where
  "upd_plan i f = set_tables (\<lambda>t. t\<lparr>t_plans := upd_row pl_id i f (t_plans t)\<rparr>)"

definition create_release_plan ::
    "env \<Rightarrow> plan_settings \<Rightarrow> string \<Rightarrow> bool \<Rightarrow> bool \<Rightarrow> world \<Rightarrow> (exn + release_plan) \<times> world" where
  "create_release_plan v ps environment frontend backend w =
     (case snapshot v ps environment frontend backend w of
        (Inl e, w1) \<Rightarrow> (Inl e, w1)
      | (Inr s, w1) \<Rightarrow>
          (let w2 = tick w1;
               plan = \<lparr>pl_id = new_uuid v w2, pl_project_id = ps_project_id s, pl_snapshot = s,
                 pl_digest = v_digest v s, pl_status = ''pending'', pl_created_by = mcp_actor ps,
                 pl_approved_by = None, pl_created_at = now_of v (tick w2),
                 pl_expires_at = now_of v w1 + mcp_plan_ttl ps * SECOND, pl_approved_at = None,
                 pl_claimed_at = None, pl_release_id = None\<rparr>;
               w3 = set_tables (\<lambda>t. t\<lparr>t_plans := t_plans t @ [plan]\<rparr>) (tick (tick w2))
           in if keyed pl_id (t_plans (w_cur w3)) then (Inr plan, commit w3) else (Inl IntegrityError, rollback w3)))"

definition get_plan :: "plan_settings \<Rightarrow> string \<Rightarrow> world \<Rightarrow> exn + release_plan" where
  "get_plan ps i w =
     (case find_plan w i of
        None \<Rightarrow> Inl (MCPToolError NOT_FOUND ''Release plan not found.'')
      | Some plan \<Rightarrow> (case ops_project ps w of
          Inl e \<Rightarrow> Inl e
        | Inr p \<Rightarrow> (if pl_project_id plan \<noteq> p_id p then Inl (MCPToolError NOT_FOUND ''Release plan not found.'')
                    else Inr plan)))"

definition validate_current :: "env \<Rightarrow> plan_settings \<Rightarrow> release_plan \<Rightarrow> world \<Rightarrow> (exn + unit) \<times> world" where
  "validate_current v ps plan w =
     (let w1 = tick w; s = pl_snapshot plan; keys = map pa_component (ps_actions s) in
      if pl_expires_at plan \<le> now_of v w
      then (Inl (MCPToolError CONFLICT ''Release plan expired. Create a new plan.''), w1)
      else if v_digest v s \<noteq> pl_digest plan
      then (Inl (MCPToolError CONFLICT ''Release plan integrity check failed.''), w1)
      else (case snapshot v ps (ps_target_environment s) (FRONTEND_KEY \<in> set keys) (BACKEND_KEY \<in> set keys) w1 of
         (Inl e, w2) \<Rightarrow> (Inl e, w2)
       | (Inr current, w2) \<Rightarrow>
           (if current \<noteq> s
            then (Inl (MCPToolError CONFLICT ''Versions or configuration changed. Create a new plan.''), w2)
            else if \<not> ps_executable current
            then (Inl (MCPToolError PIPELINE_FAILED ''Release plan has unresolved blockers.''), w2)
            else (Inr (), w2))))"

subsection \<open>Approving\<close>

record plan_user =
  us_login :: string
  us_is_admin :: bool

definition may_approve :: "plan_settings \<Rightarrow> plan_user \<Rightarrow> bool" where
  "may_approve ps user \<longleftrightarrow> auth_enabled ps \<and> us_is_admin user \<and> us_login user \<noteq> ''authentication-disabled''"

definition approvable :: "string \<Rightarrow> time \<Rightarrow> release_plan \<Rightarrow> bool" where
  "approvable digest now plan \<longleftrightarrow> pl_status plan = ''pending'' \<and> pl_digest plan = digest \<and> pl_expires_at plan > now"

definition plan_approved :: "string \<Rightarrow> time \<Rightarrow> release_plan \<Rightarrow> release_plan" where
  "plan_approved login at plan =
     plan\<lparr>pl_status := ''approved'', pl_approved_by := Some login, pl_approved_at := Some at\<rparr>"

text \<open>The conditional UPDATE; the clock is read for its condition and for the time it records.\<close>

definition approve_update :: "env \<Rightarrow> string \<Rightarrow> string \<Rightarrow> string \<Rightarrow> world \<Rightarrow> bool \<times> world" where
  "approve_update v i digest login w =
     (case find_plan w i of
        None \<Rightarrow> (False, rollback (tick (tick w)))
      | Some plan \<Rightarrow>
          (if approvable digest (now_of v w) plan
           then (True, commit (upd_plan i (plan_approved login (now_of v (tick w))) (tick (tick w))))
           else (False, rollback (tick (tick w)))))"

definition approve_plan ::
    "env \<Rightarrow> plan_settings \<Rightarrow> string \<Rightarrow> string \<Rightarrow> plan_user \<Rightarrow> world \<Rightarrow> (exn + release_plan) \<times> world" where
  "approve_plan v ps i digest user w =
     (if \<not> may_approve ps user
      then (Inl (MCPToolError PERMISSION_DENIED ''An authenticated administrator must approve the plan.''), w)
      else (case get_plan ps i w of
         Inl e \<Rightarrow> (Inl e, w)
       | Inr plan \<Rightarrow>
           (if ps_target_environment (pl_snapshot plan) \<noteq> ''production'' \<or> digest \<noteq> pl_digest plan
            then (Inl (MCPToolError CONFLICT ''Review the exact production plan digest before approval.''), w)
            else (case validate_current v ps plan w of
               (Inl e, w1) \<Rightarrow> (Inl e, w1)
             | (Inr _, w1) \<Rightarrow>
                 (case approve_update v i digest (us_login user) w1 of
                    (False, w2) \<Rightarrow> (Inl (MCPToolError CONFLICT ''Plan is no longer awaiting approval.''), w2)
                  | (True, w2) \<Rightarrow> (case find_plan w2 i of None \<Rightarrow> (Inl AttributeError, w2) | Some p \<Rightarrow> (Inr p, w2)))))))"

subsection \<open>Executing\<close>

definition mcp_env :: "env \<Rightarrow> plan_settings \<Rightarrow> env" where
  "mcp_env v ps = v\<lparr>v_actor := Some (mcp_actor ps), v_actor_source := ''mcp''\<rparr>"

definition planned_commit :: "plan_snapshot \<Rightarrow> string \<Rightarrow> string option" where
  "planned_commit s key = Option.bind (List.find (\<lambda>a. pa_component a = key) (rev (ps_actions s))) pa_commit_sha"

text \<open>An action without a build number does not pass the request model.\<close>

definition plan_request :: "plan_settings \<Rightarrow> plan_snapshot \<Rightarrow> exn + bundle_request" where
  "plan_request ps s =
     (if list_all (\<lambda>a. pa_build_number a \<noteq> None) (ps_actions s)
      then bundle_promote_request (Some (ps_project_id s))
             (map (\<lambda>a. (pa_component a, the (pa_build_number a))) (ps_actions s)) (ps_target s) (Some (mcp_actor ps))
      else Inl ValidationError)"

definition execute_plan ::
    "env \<Rightarrow> plan_settings \<Rightarrow> plan_snapshot \<Rightarrow> string option \<Rightarrow> world \<Rightarrow> (exn + bundle_row) \<times> world" where
  "execute_plan v ps s given w =
     (case plan_request ps s of
        Inl e \<Rightarrow> (Inl e, w)
      | Inr q \<Rightarrow> create_bundle (mcp_env v ps) q None given (Some (planned_commit s)) (Some (ps_target s)) w)"

definition deploy_staging ::
    "env \<Rightarrow> plan_settings \<Rightarrow> bool \<Rightarrow> bool \<Rightarrow> world \<Rightarrow> (exn + bundle_row) \<times> world" where
  "deploy_staging v ps frontend backend w =
     (if \<not> mcp_enabled ps \<or> mcp_mode ps \<notin> {''staging'', ''full''}
      then (Inl (MCPToolError PERMISSION_DENIED ''Staging deployment is not permitted.''), w)
      else (case snapshot v ps ''staging'' frontend backend w of
         (Inl e, w1) \<Rightarrow> (Inl e, w1)
       | (Inr s, w1) \<Rightarrow>
           (if \<not> ps_executable s then (Inl (MCPToolError CONFLICT ''Staging plan has unresolved blockers.''), w1)
            else execute_plan v ps s None w1)))"

definition claimable :: "string \<Rightarrow> time \<Rightarrow> release_plan \<Rightarrow> bool" where
  "claimable digest now plan \<longleftrightarrow> pl_status plan = ''approved'' \<and> pl_digest plan = digest \<and> pl_expires_at plan > now"

definition plan_claimed :: "string \<Rightarrow> time \<Rightarrow> release_plan \<Rightarrow> release_plan" where
  "plan_claimed release at plan =
     plan\<lparr>pl_status := ''executing'', pl_claimed_at := Some at, pl_release_id := Some release\<rparr>"

definition claim_plan :: "env \<Rightarrow> string \<Rightarrow> string \<Rightarrow> string \<Rightarrow> world \<Rightarrow> bool \<times> world" where
  "claim_plan v i digest release w =
     (case find_plan w i of
        None \<Rightarrow> (False, rollback (tick (tick w)))
      | Some plan \<Rightarrow>
          (if claimable digest (now_of v w) plan
           then (True, commit (upd_plan i (plan_claimed release (now_of v (tick w))) (tick (tick w))))
           else (False, rollback (tick (tick w)))))"

definition mark_plan :: "string \<Rightarrow> string \<Rightarrow> world \<Rightarrow> world" where
  "mark_plan i status w = commit (upd_plan i (\<lambda>p. p\<lparr>pl_status := status\<rparr>) w)"

definition promotable_plan :: "release_plan \<Rightarrow> exn + unit" where
  "promotable_plan plan =
     (if pl_status plan \<noteq> ''approved'' \<or> \<not> py_truthy (pl_approved_by plan)
      then Inl (MCPToolError PERMISSION_DENIED ''Production requires a server-side approved plan.'')
      else if ps_target_environment (pl_snapshot plan) \<noteq> ''production''
      then Inl (MCPToolError PERMISSION_DENIED ''Only production plans can be promoted.'')
      else Inr ())"

text \<open>The plan is claimed and the claim is durable before anything is sent upstream.\<close>

definition run_plan :: "env \<Rightarrow> plan_settings \<Rightarrow> release_plan \<Rightarrow> world \<Rightarrow> (exn + bundle_row) \<times> world" where
  "run_plan v ps plan w =
     (let release = new_uuid v w in
      case claim_plan v (pl_id plan) (pl_digest plan) release (tick w) of
        (False, w1) \<Rightarrow> (Inl (MCPToolError CONFLICT ''Approval has already been consumed.''), w1)
      | (True, w1) \<Rightarrow>
          (case execute_plan v ps (pl_snapshot plan) (Some release) w1 of
             (Inl e, w2) \<Rightarrow> (Inl e, mark_plan (pl_id plan) ''execution_failed'' (rollback w2))
           | (Inr b, w2) \<Rightarrow> (Inr b, mark_plan (pl_id plan) ''executed'' w2)))"

definition promote_to_production ::
    "env \<Rightarrow> plan_settings \<Rightarrow> string \<Rightarrow> world \<Rightarrow> (exn + bundle_row) \<times> world" where
  "promote_to_production v ps i w =
     (if \<not> mcp_enabled ps \<or> mcp_mode ps \<noteq> ''full''
      then (Inl (MCPToolError PERMISSION_DENIED ''Production requires full mode.''), w)
      else (case get_plan ps i w of
         Inl e \<Rightarrow> (Inl e, w)
       | Inr plan \<Rightarrow> (case promotable_plan plan of
           Inl e \<Rightarrow> (Inl e, w)
         | Inr _ \<Rightarrow> (case validate_current v ps plan w of
             (Inl e, w1) \<Rightarrow> (Inl e, w1)
           | (Inr _, w1) \<Rightarrow> run_plan v ps plan w1))))"

end
