(* ===== verification/Plan_Laws.thy ===== *)
theory Plan_Laws
  imports Release_Plans Schedule_Laws CI_Link_Laws
begin

section \<open>What release plans rest on\<close>

subsection \<open>Looking at environments\<close>

text \<open>A snapshot reads Drone and changes nothing.\<close>

lemma candidate_reads:
  assumes "candidate v ps key w = (r, w')"
  shows "reads w w'"
proof -
  have "reads w w1" if "get_build v c n w = (x, w1)" for c n x w1
    using get_build_reads [of w v c n] that by simp
  then show ?thesis
    using assms unfolding candidate_def by (auto split: sum.splits option.splits prod.splits)
qed

lemma plan_source_reads:
  assumes "plan_source_for v ps environment key c w = (r, w')"
  shows "reads w w'"
proof (cases "environment = ''production''")
  case True
  then show ?thesis using assms candidate_reads by (auto simp: plan_source_for_def split: prod.splits sum.splits)
next
  case False
  obtain x w1 where x: "get_repository_info v c w = (x, w1)" by force
  obtain y w2 where y: "list_builds v c 50 w1 = (y, w2)" by force
  have "reads w w1" "reads w1 w2"
    using service_reads(2) [of w v c] service_reads(1) [of w1 v c 50] x y by simp_all
  then show ?thesis
    using assms False reads_trans by (auto simp: plan_source_for_def x y split: sum.splits)
qed

lemma plan_components_reads: "plan_components v ps environment target keys w = (r, w') \<Longrightarrow> reads w w'"
proof (induction keys arbitrary: w r w')
  case (Cons key keys)
  have src: "reads w w1" if "plan_source_for v ps environment key c w = (x, w1)" for c x w1
    by (rule plan_source_reads [OF that])
  have rest: "reads w w2" if "plan_source_for v ps environment key c w = (x, w1)"
      "plan_components v ps environment target keys w1 = (y, w2)" for c x w1 y w2
    using reads_trans [OF src [OF that(1)] Cons.IH [OF that(2)]] .
  show ?case
    using Cons.prems src rest by (auto split: sum.splits prod.splits)
qed simp

lemma snapshot_reads: "snapshot v ps environment f b w = (r, w') \<Longrightarrow> reads w w'"
  using plan_components_reads
  by (fastforce simp: snapshot_def Let_def split: sum.splits prod.splits if_splits)

lemma validate_current_cases:
  assumes "validate_current v ps plan w = (r, w')"
  shows "looks w w'"
    and "r = Inr () \<Longrightarrow> pl_expires_at plan > now_of v w \<and> v_digest v (pl_snapshot plan) = pl_digest plan \<and>
      ps_executable (pl_snapshot plan) \<and>
      (let keys = set (map pa_component (ps_actions (pl_snapshot plan)))
       in fst (snapshot v ps (ps_target_environment (pl_snapshot plan)) (FRONTEND_KEY \<in> keys)
            (BACKEND_KEY \<in> keys) (tick w)) = Inr (pl_snapshot plan))"
proof -
  have s: "looks w w1" if "snapshot v ps e f b (tick w) = (x, w1)" for e f b x w1
    using looks_trans [OF looks_tick reads_looks [OF snapshot_reads [OF that]]] .
  show "looks w w'"
    using assms s by (auto simp: validate_current_def Let_def split: sum.splits prod.splits if_splits)
  show "pl_expires_at plan > now_of v w \<and> v_digest v (pl_snapshot plan) = pl_digest plan \<and>
      ps_executable (pl_snapshot plan) \<and>
      (let keys = set (map pa_component (ps_actions (pl_snapshot plan)))
       in fst (snapshot v ps (ps_target_environment (pl_snapshot plan)) (FRONTEND_KEY \<in> keys)
            (BACKEND_KEY \<in> keys) (tick w)) = Inr (pl_snapshot plan))" if "r = Inr ()"
    using assms that by (auto simp: validate_current_def Let_def split: sum.splits prod.splits if_splits)
qed

subsection \<open>A plan is claimed once\<close>

definition plan_at :: "world \<Rightarrow> string \<Rightarrow> release_plan option" where
  "plan_at w i = find_row pl_id i (t_plans (w_durable w))"

definition open_plan :: "release_plan \<Rightarrow> bool" where
  "open_plan p \<longleftrightarrow> pl_status p \<in> {''pending'', ''approved''}"

text \<open>
  A plan that was claimed, told by the approved plan it was and the release it was claimed for: all of
  it is as it was, but that it is executing or has been executed, and carries the claim.
\<close>

definition spent_as :: "release_plan \<Rightarrow> string \<Rightarrow> release_plan \<Rightarrow> bool" where
  "spent_as q release p \<longleftrightarrow> (\<exists>status at. status \<in> {''executing'', ''executed'', ''execution_failed''} \<and>
     p = q\<lparr>pl_status := status, pl_claimed_at := Some at, pl_release_id := Some release\<rparr>)"

definition spent_plan :: "release_plan \<Rightarrow> bool" where
  "spent_plan p \<longleftrightarrow> pl_status p \<in> {''executing'', ''executed'', ''execution_failed''}"

lemma spent_as_spent: "spent_as q release p \<Longrightarrow> spent_plan p"
  by (auto simp: spent_as_def spent_plan_def)

lemma spent_as_marked:
  assumes "spent_as q release p" and "p' = p\<lparr>pl_status := pl_status p'\<rparr>" and "spent_plan p'"
  shows "spent_as q release p'"
proof -
  obtain status at where p: "p = q\<lparr>pl_status := status, pl_claimed_at := Some at, pl_release_id := Some release\<rparr>"
    using assms(1) by (auto simp: spent_as_def)
  have "p' = q\<lparr>pl_status := pl_status p', pl_claimed_at := Some at, pl_release_id := Some release\<rparr>"
    by (subst assms(2)) (simp add: p)
  then show ?thesis using assms(3) unfolding spent_as_def spent_plan_def by blast
qed

definition plan_free :: "string \<Rightarrow> world \<Rightarrow> bool" where
  "plan_free i w \<longleftrightarrow> (\<exists>p. plan_at w i = Some p \<and> open_plan p)"

lemma plan_ops [simp]:
  "pl_id (plan_approved login at p) = pl_id p" "pl_id (plan_claimed release at p) = pl_id p"
  "pl_status (plan_approved login at p) = ''approved''" "pl_status (plan_claimed release at p) = ''executing''"
  "pl_approved_by (plan_approved login at p) = Some login" "pl_approved_by (plan_claimed release at p) = pl_approved_by p"
  "pl_release_id (plan_approved login at p) = pl_release_id p" "pl_release_id (plan_claimed release at p) = Some release"
  by (simp_all add: plan_approved_def plan_claimed_def)

lemma find_plan_ops [simp]:
  "find_plan (open_session w) i = plan_at w i" "find_plan (tick w) i = find_plan w i"
  "looks w w' \<Longrightarrow> find_plan w' i = find_plan w i"
  by (simp_all add: find_plan_def plan_at_def open_session_def looks_def)

lemma plan_at_ops [simp]:
  "plan_at (rollback w) i = plan_at w i" "plan_at (tick w) i = plan_at w i" "plan_at (open_session w) i = plan_at w i"
  "looks w w' \<Longrightarrow> plan_at w' i = plan_at w i"
  by (simp_all add: plan_at_def looks_def open_session_def)

lemma upd_plan_at:
  "(\<And>p. pl_id (f p) = pl_id p) \<Longrightarrow>
    plan_at (commit (upd_plan i f w)) j = (if j = i then map_option f (find_plan w i) else find_plan w j)"
  by (simp add: plan_at_def find_plan_def upd_plan_def)

lemma claim_plan_cases:
  assumes "claim_plan v i digest release w = (won, w')"
  obtains (won) p at where "won" "find_plan w i = Some p" "claimable digest (now_of v w) p"
      "w' = commit (upd_plan i (plan_claimed release at) (tick (tick w)))"
  | (lost) "\<not> won" "w' = rollback (tick (tick w))"
  using assms by (auto simp: claim_plan_def split: option.splits if_splits)

abbreviation plan_claim_in_session :: "env \<Rightarrow> string \<times> string \<Rightarrow> string \<Rightarrow> world \<Rightarrow> bool \<times> world" where
  "plan_claim_in_session v a i w \<equiv> claim_plan v i (fst a) (snd a) (open_session w)"

interpretation plan_claim: exclusive_claim "plan_claim_in_session v" plan_free
proof
  fix a i j w won w'
  show "plan_free i w \<and> \<not> plan_free i w'" if "plan_claim_in_session v a i w = (True, w')"
    using that by (cases rule: claim_plan_cases)
      (auto simp: plan_free_def upd_plan_at open_plan_def claimable_def)
  show "plan_free j w" if "plan_claim_in_session v a i w = (won, w')" "plan_free j w'"
    using that by (cases rule: claim_plan_cases)
      (auto simp: plan_free_def upd_plan_at open_plan_def split: if_splits)
qed

subsection \<open>Histories of plans\<close>

text \<open>
  What any number of processes do to the plans, in any order: a plan is created, an administrator
  approves, a promotion claims, and whoever claimed marks the plan with the result. The list holds the
  claims that succeeded: the plan as it was claimed, and the release it was claimed for.
\<close>

definition plan_rows_ok :: "release_plan list \<Rightarrow> bool" where
  "plan_rows_ok ps \<longleftrightarrow> keyed pl_id ps \<and>
     (\<forall>i p. find_row pl_id i ps = Some p \<longrightarrow> pl_status p = ''approved'' \<longrightarrow> pl_approved_by p \<noteq> None)"

inductive plan_history :: "env \<Rightarrow> plan_settings \<Rightarrow> world \<Rightarrow> (release_plan \<times> string) list \<Rightarrow> bool" for v ps where
  start: "plan_rows_ok (t_plans (w_durable w)) \<Longrightarrow> t_plans (w_cur w) = t_plans (w_durable w) \<Longrightarrow> plan_history v ps w []"
| created: "plan_history v ps w L \<Longrightarrow>
    plan_history v ps (end_request (create_release_plan v ps environment f b (open_session w))) L"
| approved: "plan_history v ps w L \<Longrightarrow> may_approve ps user \<Longrightarrow>
    plan_history v ps (snd (approve_update v i digest (us_login user) (open_session w))) L"
| claimed: "plan_history v ps w L \<Longrightarrow> find_plan (open_session w) i = Some q \<Longrightarrow>
    claim_plan v i digest release (open_session w) = (True, w') \<Longrightarrow> plan_history v ps w' ((q, release) # L)"
| refused: "plan_history v ps w L \<Longrightarrow> claim_plan v i digest release (open_session w) = (False, w') \<Longrightarrow>
    plan_history v ps w' L"
| marked: "plan_history v ps w L \<Longrightarrow> i \<in> (pl_id \<circ> fst) ` set L \<Longrightarrow> status \<in> {''executed'', ''execution_failed''} \<Longrightarrow>
    plan_history v ps (mark_plan i status w) L"
| elsewhere: "plan_history v ps w L \<Longrightarrow> t_plans (w_durable w') = t_plans (w_durable w) \<Longrightarrow>
    t_plans (w_cur w') = t_plans (w_durable w) \<Longrightarrow> plan_history v ps w' L"

text \<open>A change after which spent plans are still spent and no plan is newly open.\<close>

definition plans_step :: "release_plan list \<Rightarrow> release_plan list \<Rightarrow> bool" where
  "plans_step ps ps' \<longleftrightarrow> (plan_rows_ok ps \<longrightarrow> plan_rows_ok ps') \<and>
     (\<forall>i p. find_row pl_id i ps = Some p \<longrightarrow> (\<exists>p'. find_row pl_id i ps' = Some p' \<and>
        (spent_plan p \<longrightarrow> spent_plan p' \<and> p' = p\<lparr>pl_status := pl_status p'\<rparr>) \<and> (open_plan p' \<longrightarrow> open_plan p)))"

lemma plans_step_refl [simp]: "plans_step ps ps"
  by (simp add: plans_step_def)

lemma plans_step_upd:
  assumes "find_row pl_id i ps = Some p" and "\<And>q. pl_id (f q) = pl_id q"
    and "spent_plan p \<Longrightarrow> spent_plan (f p) \<and> f p = p\<lparr>pl_status := pl_status (f p)\<rparr>" and "open_plan (f p) \<Longrightarrow> open_plan p"
    and "pl_status (f p) = ''approved'' \<Longrightarrow> pl_approved_by (f p) \<noteq> None"
  shows "plans_step ps (upd_row pl_id i f ps)"
proof -
  have at: "find_row pl_id j (upd_row pl_id i f ps) = (if j = i then Some (f p) else find_row pl_id j ps)" for j
    using assms(1,2) by simp
  then show ?thesis using assms by (auto simp: plans_step_def plan_rows_ok_def)
qed

definition plans_at :: "env \<Rightarrow> (release_plan \<times> string) list \<Rightarrow> world \<Rightarrow> bool" where
  "plans_at v L w \<longleftrightarrow> plan_rows_ok (t_plans (w_durable w)) \<and> t_plans (w_cur w) = t_plans (w_durable w) \<and>
     (\<forall>(q, release) \<in> set L. pl_status q = ''approved'' \<and> pl_approved_by q \<noteq> None \<and>
        (\<exists>p. plan_at w (pl_id q) = Some p \<and> spent_as q release p)) \<and>
     claims_run (plan_claim_in_session v) plan_free w (map (pl_id \<circ> fst) L)"

lemma plans_at_step:
  assumes "plans_at v L w" and "plans_step (t_plans (w_durable w)) (t_plans (w_durable w'))"
    and "t_plans (w_cur w') = t_plans (w_durable w')"
  shows "plans_at v L w'"
proof -
  have kept: "\<exists>p'. plan_at w' i = Some p' \<and> spent_as q release p'"
    if "plan_at w i = Some p" "spent_as q release p" for i p q release
    using assms(2) that spent_as_spent [OF that(2)] spent_as_marked [OF that(2)]
    unfolding plans_step_def plan_at_def by metis
  then have spent: "\<forall>(q, release) \<in> set L. pl_status q = ''approved'' \<and> pl_approved_by q \<noteq> None \<and>
      (\<exists>p. plan_at w' (pl_id q) = Some p \<and> spent_as q release p)"
    using assms(1) unfolding plans_at_def by blast
  have "plan_free i w" if "i \<in> (pl_id \<circ> fst) ` set L" "plan_free i w'" for i
    using assms(1,2) that by (force simp: plans_at_def plans_step_def plan_free_def plan_at_def)
  then have "claims_run (plan_claim_in_session v) plan_free w' (map (pl_id \<circ> fst) L)"
    using assms(1) by (auto simp: plans_at_def intro: claims_run.other)
  then show ?thesis using assms spent by (auto simp: plans_at_def plans_step_def)
qed

lemma session_tables [simp]: "w_cur (open_session w) = w_durable w" "w_durable (open_session w) = w_durable w"
  by (simp_all add: open_session_def)

lemma create_plan_step:
  assumes "w_cur w = w_durable w" and "u = end_request (create_release_plan v ps environment f b w)"
  shows "plans_step (t_plans (w_durable w)) (t_plans (w_durable u)) \<and> t_plans (w_cur u) = t_plans (w_durable u)"
proof -
  obtain x w1 where x: "snapshot v ps environment f b w = (x, w1)" by force
  have w1: "w_cur w1 = w_cur w" "w_durable w1 = w_durable w"
    using readsD [OF snapshot_reads [OF x]] by simp_all
  have app: "plans_step qs (qs @ [p])" if "keyed pl_id (qs @ [p])" "pl_status p = ''pending''" for qs p
    using that by (auto simp: plans_step_def plan_rows_ok_def find_row_append split: option.splits if_splits)
  show ?thesis
    unfolding assms(2) using assms(1) w1 app
    by (auto simp: create_release_plan_def x end_request_def Let_def split: sum.split)
qed

lemma approve_update_step:
  assumes "w_cur w = w_durable w" and "u = snd (approve_update v i digest login w)"
  shows "plans_step (t_plans (w_durable w)) (t_plans (w_durable u)) \<and> t_plans (w_cur u) = t_plans (w_durable u)"
proof (cases "\<exists>p. find_plan w i = Some p \<and> approvable digest (now_of v w) p")
  case True
  then obtain p where p: "find_row pl_id i (t_plans (w_durable w)) = Some p" "find_plan w i = Some p"
      "approvable digest (now_of v w) p"
    using assms(1) by (auto simp: find_plan_def)
  have "plans_step (t_plans (w_durable w))
      (upd_row pl_id i (plan_approved login (now_of v (tick w))) (t_plans (w_durable w)))"
    by (rule plans_step_upd [OF p(1)]) (use p(3) in \<open>simp_all add: approvable_def spent_plan_def open_plan_def\<close>)
  then show ?thesis using assms p by (simp add: approve_update_def upd_plan_def)
next
  case False
  then show ?thesis using assms by (auto simp: approve_update_def split: option.split)
qed

lemma claim_plan_step:
  assumes "claim_plan v i digest release w = (won, w')" and "w_cur w = w_durable w"
    and "plan_rows_ok (t_plans (w_durable w))"
  shows "plans_step (t_plans (w_durable w)) (t_plans (w_durable w')) \<and> t_plans (w_cur w') = t_plans (w_durable w') \<and>
    (won \<longrightarrow> (\<exists>q p. find_plan w i = Some q \<and> pl_id q = i \<and> pl_status q = ''approved'' \<and> pl_approved_by q \<noteq> None \<and>
       plan_at w' i = Some p \<and> spent_as q release p))"
  using assms(1)
proof (cases rule: claim_plan_cases)
  case (won p at)
  have a: "find_row pl_id i (t_plans (w_durable w)) = Some p" "pl_status p = ''approved''"
    using won(2,3) assms(2) by (simp_all add: find_plan_def claimable_def)
  have i: "pl_id p = i" using a(1) by (auto dest: find_row_Some)
  have ap: "pl_approved_by p \<noteq> None" using a assms(3) by (auto simp: plan_rows_ok_def)
  have "plans_step (t_plans (w_durable w)) (upd_row pl_id i (plan_claimed release at) (t_plans (w_durable w)))"
    by (rule plans_step_upd [OF a(1)]) (use a(2) in \<open>auto simp: spent_plan_def open_plan_def\<close>)
  moreover have "plan_at w' i = Some (plan_claimed release at p)"
    using won(2,4) by (simp add: upd_plan_at)
  moreover have "spent_as p release (plan_claimed release at p)"
    unfolding spent_as_def plan_claimed_def by blast
  ultimately show ?thesis using assms(2) won(2,4) a(2) i ap by (simp add: upd_plan_def)
next
  case lost
  then show ?thesis using assms(2) by simp
qed

lemma history_plans:
  assumes "plan_history v ps w L"
  shows "plans_at v L w"
  using assms
proof induction
  case (start w)
  then show ?case by (auto simp: plans_at_def intro: claims_run.start)
next
  case (created w L environment f b)
  show ?case
    using plans_at_step [OF created.IH] create_plan_step [of "open_session w", OF _ refl] by simp
next
  case (approved w L user i digest)
  show ?case
    using plans_at_step [OF approved.IH] approve_update_step [of "open_session w", OF _ refl] by simp
next
  case (claimed w L i q digest release w')
  have s: "plans_step (t_plans (w_durable w)) (t_plans (w_durable w'))" "t_plans (w_cur w') = t_plans (w_durable w')"
    "pl_id q = i" "pl_status q = ''approved''" "pl_approved_by q \<noteq> None" "\<exists>p. plan_at w' i = Some p \<and> spent_as q release p"
    using claim_plan_step [OF claimed.hyps(3)] claimed.IH claimed.hyps(2) by (simp_all add: plans_at_def)
  have "claims_run (plan_claim_in_session v) plan_free w (map (pl_id \<circ> fst) L)" using claimed.IH by (simp add: plans_at_def)
  then have "claims_run (plan_claim_in_session v) plan_free w' (i # map (pl_id \<circ> fst) L)"
    by (rule claims_run.won [where a = "(digest, release)"]) (use claimed.hyps(3) in simp)
  then show ?case using plans_at_step [OF claimed.IH s(1,2)] s(3-) by (auto simp: plans_at_def)
next
  case (refused w L i digest release w')
  show ?case
    using plans_at_step [OF refused.IH] claim_plan_step [OF refused.hyps(2)] refused.IH by (simp add: plans_at_def)
next
  case (marked w L i status)
  then obtain p where p: "find_row pl_id i (t_plans (w_durable w)) = Some p" "spent_plan p"
    using spent_as_spent by (fastforce simp: plans_at_def plan_at_def)
  have "plans_step (t_plans (w_durable w)) (upd_row pl_id i (\<lambda>p. p\<lparr>pl_status := status\<rparr>) (t_plans (w_durable w)))"
    by (rule plans_step_upd [OF p(1)]) (use p(2) marked.hyps(3) in \<open>auto simp: spent_plan_def open_plan_def\<close>)
  moreover have "t_plans (w_cur w) = t_plans (w_durable w)" using marked.IH by (simp add: plans_at_def)
  ultimately have "plans_step (t_plans (w_durable w)) (t_plans (w_durable (mark_plan i status w)))"
    by (simp add: mark_plan_def upd_plan_def)
  then show ?case by (rule plans_at_step [OF marked.IH]) (simp add: mark_plan_def)
next
  case (elsewhere w L w')
  then show ?case by (metis plans_at_step plans_step_refl)
qed

subsection \<open>A promotion to production\<close>

lemma execute_plan_frame: "across same_others w (snd (execute_plan v ps s given w))"
  by (simp add: execute_plan_def others.across_refl others.after_create_bundle split: sum.split)

lemma execute_plan_plans:
  assumes "execute_plan v ps s given w = (r, w')" and "w_durable w = w_cur w"
  shows "t_plans (w_cur w') = t_plans (w_cur w)" and "t_plans (w_durable w') = t_plans (w_cur w)"
proof -
  have "same_others (w_cur w) (w_cur w') \<and> same_others (w_cur w) (w_durable w')"
    using acrossD [OF execute_plan_frame [of w v ps s given], of "w_cur w"] assms by (simp add: same_others_def)
  then show "t_plans (w_cur w') = t_plans (w_cur w)" "t_plans (w_durable w') = t_plans (w_cur w)"
    by (simp_all add: same_others_tables)
qed

lemma promote_to_production_cases:
  obtains (refused) "isl (fst (promote_to_production v ps i w))" "looks w (snd (promote_to_production v ps i w))"
  | (run) plan w1 where "mcp_enabled ps" "mcp_mode ps = ''full''" "find_plan w i = Some plan" "pl_id plan = i"
      "promotable_plan plan = Inr ()" "validate_current v ps plan w = (Inr (), w1)"
      "promote_to_production v ps i w = run_plan v ps plan w1"
proof (cases "mcp_enabled ps \<and> mcp_mode ps = ''full''")
  case mode: True
  show ?thesis
  proof (cases "get_plan ps i w")
    case (Inr plan)
    then have f: "find_plan w i = Some plan" by (auto simp: get_plan_def split: option.splits sum.splits if_splits)
    then have "pl_id plan = i" by (auto simp: find_plan_def dest: find_row_Some)
    obtain x w1 where x: "validate_current v ps plan w = (x, w1)" by force
    show ?thesis
    proof (cases "promotable_plan plan = Inr () \<and> x = Inr ()")
      case True
      then show ?thesis using run mode f \<open>pl_id plan = i\<close> x Inr by (simp add: promote_to_production_def)
    next
      case False
      then show ?thesis
        using mode Inr x validate_current_cases(1) [OF x]
        by (intro refused) (auto simp: promote_to_production_def split: sum.splits)
    qed
  next
    case (Inl e)
    then show ?thesis using mode by (intro refused) (simp_all add: promote_to_production_def)
  qed
next
  case False
  then show ?thesis by (intro refused) (auto simp: promote_to_production_def)
qed

lemma plan_history_looks:
  assumes "plan_history v ps w L" and "looks (open_session w) w'"
  shows "plan_history v ps w' L"
  by (rule plan_history.elsewhere [OF assms(1)]) (use assms(2) in \<open>simp_all add: looks_def\<close>)

lemma promotion_history:
  assumes "plan_history v ps w L"
  shows "\<exists>L'. (pl_id \<circ> fst) ` set L' \<subseteq> {i} \<and>
    plan_history v ps (end_request (promote_to_production v ps i (open_session w))) (L' @ L)"
proof (cases rule: promote_to_production_cases [of v ps i "open_session w"])
  case refused
  then have "plan_history v ps (end_request (promote_to_production v ps i (open_session w))) L"
    by (cases "promote_to_production v ps i (open_session w)")
      (auto simp: end_request_def looks_def split: sum.split intro!: plan_history.elsewhere [OF assms])
  then show ?thesis by (intro exI [of _ "[]"]) simp
next
  case (run plan w1)
  have l: "looks (open_session w) (tick w1)"
    using looks_then_tick validate_current_cases(1) [OF run(6)] by blast
  have o: "open_session (tick w1) = tick w1" using l by (simp add: looks_def open_session_def)
  note h = plan_history_looks [OF assms l]
  have f: "find_plan (open_session (tick w1)) i = Some plan"
    using run(3) find_plan_ops(3) [OF l, of i] unfolding o by simp
  obtain won w2 where c: "claim_plan v i (pl_digest plan) (new_uuid v w1) (tick w1) = (won, w2)" by force
  show ?thesis
  proof (cases won)
    case False
    then have "plan_history v ps w2 L" using plan_history.refused [OF h] c o by simp
    then have "plan_history v ps (rollback w2) L" by (rule plan_history.elsewhere) simp_all
    then have "plan_history v ps (end_request (promote_to_production v ps i (open_session w))) L"
      using run False c by (simp add: run_plan_def Let_def end_request_def)
    then show ?thesis by (intro exI [of _ "[]"]) simp
  next
    case True
    let ?L = "(plan, new_uuid v w1) # L"
    have h2: "plan_history v ps w2 ?L" using plan_history.claimed [OF h f] c True unfolding o by simp
    obtain r w3 where e: "execute_plan v ps (pl_snapshot plan) (Some (new_uuid v w1)) w2 = (r, w3)" by force
    have clean: "w_durable w2 = w_cur w2" using c True by (cases rule: claim_plan_cases) simp_all
    note p = execute_plan_plans [OF e clean]
    have h3: "plan_history v ps w3 ?L" "plan_history v ps (rollback w3) ?L"
      using p clean by (auto intro: plan_history.elsewhere [OF h2])
    have "plan_history v ps (end_request (run_plan v ps plan w1)) ?L"
    proof (cases r)
      case (Inl x)
      have "plan_history v ps (mark_plan i ''execution_failed'' (rollback w3)) ?L"
        by (rule plan_history.marked [OF h3(2)]) (simp_all add: run(4))
      then have "plan_history v ps (rollback (mark_plan i ''execution_failed'' (rollback w3))) ?L"
        by (rule plan_history.elsewhere) (simp_all add: mark_plan_def)
      then show ?thesis using run(4) c True e Inl by (simp add: run_plan_def Let_def end_request_def)
    next
      case (Inr b)
      have "plan_history v ps (mark_plan i ''executed'' w3) ?L"
        by (rule plan_history.marked [OF h3(1)]) (simp_all add: run(4))
      then show ?thesis using run(4) c True e Inr by (simp add: run_plan_def Let_def end_request_def)
    qed
    then show ?thesis using run(4,7) by (intro exI [of _ "[(plan, new_uuid v w1)]"]) simp
  qed
qed

end
