(* ===== verification/Plan_Properties.thy ===== *)
theory Plan_Properties
  imports Plan_Laws Samples
begin

section \<open>Properties of release plans\<close>

subsection \<open>A plan to evaluate\<close>

definition plan_sample_settings :: plan_settings where
  "plan_sample_settings = \<lparr>mcp_enabled = True, mcp_mode = ''full'', mcp_project = Some ''default'',
     mcp_staging_target = ''staging'', mcp_production_target = ''production'', mcp_actor = ''mcp'',
     mcp_plan_ttl = 600, auth_enabled = True\<rparr>"

definition plan_sample_env :: env where
  "plan_sample_env = sample_env (ok_build 7 ''success'' ''push'') (ok_build 9 ''pending'' ''promote'')"

definition staged_row :: dep_row where
  "staged_row = (success_row backend_component ''d1'' None)\<lparr>d_target := ''staging''\<rparr>"

definition plan_world :: "release_plan list \<Rightarrow> world" where
  "plan_world plans = (let T = (tables_with [staged_row] [])\<lparr>t_components := [backend_component], t_plans := plans\<rparr>
     in \<lparr>w_cur = T, w_durable = T, w_ticks = 0, w_trace = []\<rparr>)"

definition sample_snapshot :: plan_snapshot where
  "sample_snapshot = \<lparr>ps_project_id = ''p1'', ps_target_environment = ''production'', ps_target = ''production'',
     ps_actions = [\<lparr>pa_component = ''backend'', pa_from = None, pa_to = Some ''sha'', pa_from_deployment_id = None,
       pa_source_deployment_id = Some ''d1'', pa_build_number = Some 7, pa_commit_sha = Some ''sha'',
       pa_route = plan_route_of backend_component sample_connection\<rparr>],
     ps_checks = [(''backend_staging_deployment_succeeded'', True), (''backend_pipeline_passed'', True)],
     ps_requires_approval = True, ps_executable = True, ps_blockers = []\<rparr>"

definition sample_plan :: "string \<Rightarrow> string option \<Rightarrow> release_plan" where
  "sample_plan status approver = \<lparr>pl_id = ''r1'', pl_project_id = ''p1'', pl_snapshot = sample_snapshot,
     pl_digest = ''digest'', pl_status = status, pl_created_by = ''mcp'', pl_approved_by = approver,
     pl_created_at = 0, pl_expires_at = 600, pl_approved_at = None, pl_claimed_at = None, pl_release_id = None\<rparr>"

subsection \<open>Execution at most once\<close>



subsection \<open>What production needs\<close>

definition authorised :: "env \<Rightarrow> plan_settings \<Rightarrow> release_plan \<Rightarrow> world \<Rightarrow> bool" where
  "authorised v ps plan w \<longleftrightarrow> pl_status plan = ''approved'' \<and> py_truthy (pl_approved_by plan) \<and>
     ps_target_environment (pl_snapshot plan) = ''production'' \<and> pl_expires_at plan > now_of v w \<and>
     v_digest v (pl_snapshot plan) = pl_digest plan \<and> ps_executable (pl_snapshot plan) \<and>
     (let keys = set (map pa_component (ps_actions (pl_snapshot plan)))
      in fst (snapshot v ps ''production'' (FRONTEND_KEY \<in> keys) (BACKEND_KEY \<in> keys) (tick w)) = Inr (pl_snapshot plan))"

lemma filter_post_in: "k < length es \<Longrightarrow> is_post (es ! k) \<Longrightarrow> filter is_post es \<noteq> []"
  by (auto simp: filter_empty_conv)

lemma run_plan_posts:
  assumes "posts (snd (run_plan v ps plan w)) \<noteq> posts w"
  shows "\<exists>T p rest. w_trace (snd (run_plan v ps plan w)) = w_trace w @ Committed T # rest \<and>
     find_row pl_id (pl_id plan) (t_plans T) = Some p \<and> pl_status p = ''executing'' \<and> pl_release_id p \<noteq> None"
proof -
  let ?release = "new_uuid v w"
  obtain won w1 where c: "claim_plan v (pl_id plan) (pl_digest plan) ?release (tick w) = (won, w1)" by force
  show ?thesis
    using c
  proof (cases rule: claim_plan_cases)
    case (won p at)
    obtain r w2 where e: "execute_plan v ps (pl_snapshot plan) (Some ?release) w1 = (r, w2)" by force
    have run: "snd (run_plan v ps plan w) = mark_plan (pl_id plan) ''execution_failed'' (rollback w2) \<or>
        snd (run_plan v ps plan w) = mark_plan (pl_id plan) ''executed'' w2"
      using c won(1) e by (simp add: run_plan_def Let_def split: sum.split)
    have w1: "w_trace w1 = w_trace w @ [Committed (w_durable w1)]" by (simp add: won(4) upd_plan_def)
    have "posts w2 \<noteq> posts w1"
      using assms run w1 by (auto simp: posts_def mark_plan_def upd_plan_def is_post_def)
    then have "extends_trace w1 w2"
      using create_bundle_whole [OF refl, of "mcp_env v ps"] e
      by (auto simp: execute_plan_def extends_trace_def split: sum.splits) (metis snd_conv)
    then obtain rest where "w_trace (snd (run_plan v ps plan w)) = w_trace w @ Committed (w_durable w1) # rest"
      using run w1 by (auto simp: extends_trace_def mark_plan_def upd_plan_def)
    moreover have "plan_at w1 (pl_id plan) = Some (plan_claimed ?release at p)"
      using won(2,4) by (simp add: upd_plan_at)
    ultimately show ?thesis unfolding plan_at_def by fastforce
  next
    case lost
    then have "w_trace (snd (run_plan v ps plan w)) = w_trace w @ [RolledBack]"
      using c by (simp add: run_plan_def Let_def)
    then show ?thesis using assms by (simp add: posts_def is_post_def)
  qed
qed

text \<open>
  C9. Nothing is promoted to production without an approved, current plan. If a promotion to production
  sends any promotion request, then full mode is enabled and the plan it names is approved by somebody,
  not expired, unaltered since it was reviewed, equal to a snapshot taken again just before, and free of
  blockers; and before the request is sent, the one-use claim of that plan, with its release, is durable.
\<close>

theorem production_promotion_guarded:
  assumes "w_trace (snd (promote_to_production v ps i w)) = w_trace w @ es" and "k < length es" and "is_post (es ! k)"
  shows "mcp_enabled ps \<and> mcp_mode ps = ''full'' \<and> (\<exists>plan. find_plan w i = Some plan \<and> authorised v ps plan w) \<and>
    (\<exists>m < k. \<exists>T p. es ! m = Committed T \<and> find_row pl_id i (t_plans T) = Some p \<and>
       pl_status p = ''executing'' \<and> pl_release_id p \<noteq> None)"
proof (cases rule: promote_to_production_cases [of v ps i w])
  case refused
  then have "filter is_post es = []" using assms(1) by (auto simp: looks_def only_gets_no_post)
  then show ?thesis using filter_post_in [OF assms(2,3)] by simp
next
  case (run plan w1)
  have l: "looks w w1" by (rule validate_current_cases(1) [OF run(6)])
  then obtain gets where g: "w_trace w1 = w_trace w @ gets" "only_gets gets" by (auto simp: looks_def)
  have p: "pl_status plan = ''approved'' \<and> py_truthy (pl_approved_by plan) \<and>
      ps_target_environment (pl_snapshot plan) = ''production''"
    using run(5) by (simp add: promotable_plan_def split: if_splits)
  have a: "authorised v ps plan w"
    using p validate_current_cases(2) [OF run(6) refl] by (simp add: authorised_def)
  have "filter is_post es \<noteq> []" using filter_post_in [OF assms(2,3)] .
  then have "posts (snd (run_plan v ps plan w1)) \<noteq> posts w1"
    using assms(1) run(7) g only_gets_no_post [OF g(2)] by (simp add: posts_def)
  from run_plan_posts [OF this] obtain T q rest where T: "es = gets @ Committed T # rest"
      "find_row pl_id i (t_plans T) = Some q" "pl_status q = ''executing''" "pl_release_id q \<noteq> None"
    using run(4,7) assms(1) g(1) by auto
  have "\<not> is_post (es ! n)" if "n \<le> length gets" for n
    using that filter_post_in [of n gets] only_gets_no_post [OF g(2)]
    by (cases "n < length gets") (auto simp: T(1) nth_append is_post_def)
  then have "length gets < k" using assms(3) by (meson not_le_imp_less)
  moreover have "es ! length gets = Committed T" by (simp add: T(1))
  ultimately show ?thesis using run(1-3) a T(2-4) by blast
qed

text \<open>A promotion that reaches Drone, stage by stage.\<close>

lemma create_bundle_runs:
  assumes "lookup_project w (bq_project_id q) = Inr p" and "selected_components w p q = Inr sel"
    and "py_or (bq_target q) (p_default_target p) = target"
    and "validate_selection v target expected required sel w = (Inr validated, w1)"
    and "new_bundle v w1 given p target (map (c_key \<circ> fst) validated) (bq_requested_by q) att = b"
    and "find_bundle (tick (tick (tick (tick w1)))) (b_id b) = None"
    and "create_steps v (b_id b) target (bq_requested_by q) validated (insert_bundle b (tick (tick (tick (tick w1))))) = (Inr u, w3)"
  shows "create_bundle v q att given expected required w = advance_and_commit v (b_id b) (commit
    (log v (Some (b_id b)) None (ws_value CREATE_RELEASE_BUNDLE) STAGE_SUCCEEDED None None None
      (log v (Some (b_id b)) None (ws_value CREATE_RELEASE_BUNDLE) STAGE_STARTED None None None w3)))"
  unfolding create_bundle_def assms(1,2) sum.case Let_def assms(3,4,5) prod.case assms(7) if_not_P [OF assms(6) [THEN not_not [THEN iffD2]]]
  using assms(6) by simp

definition approved_world :: world where
  "approved_world = plan_world [sample_plan ''approved'' (Some ''ann'')]"

definition claimed_tables :: tables where
  "claimed_tables = w_cur (plan_world [plan_claimed ''uu'' 3 (sample_plan ''approved'' (Some ''ann''))])"

definition claimed_world :: "effect list \<Rightarrow> world" where
  "claimed_world tr = \<lparr>w_cur = claimed_tables, w_durable = claimed_tables, w_ticks = 4, w_trace = tr\<rparr>"

definition production_request :: bundle_request where
  "production_request = \<lparr>bq_project_id = Some ''p1'', bq_components = [(''backend'', 7)], bq_frontend_build_number = None,
     bq_backend_build_number = None, bq_target = Some ''production'', bq_requested_by = Some ''mcp''\<rparr>"

abbreviation production_bundle :: "effect list \<Rightarrow> (exn + bundle_row) \<times> world" where
  "production_bundle tr \<equiv> create_bundle (mcp_env plan_sample_env plan_sample_settings) production_request None
     (Some ''uu'') (Some (planned_commit sample_snapshot)) (Some ''production'') (claimed_world tr)"

lemma production_bundle_sends: "filter is_post (w_trace (snd (production_bundle tr))) \<noteq> []"
proof -
  let ?V = "mcp_env plan_sample_env plan_sample_settings"
  let ?checked = "validate_selection ?V ''production'' (Some (planned_commit sample_snapshot)) (Some ''production'')
      [(backend_component, 7)] (claimed_world tr)"
  let ?b = "new_bundle ?V (snd ?checked) (Some ''uu'') sample_project ''production'' [''backend''] (Some ''mcp'') None"
  let ?made = "create_steps ?V (b_id ?b) ''production'' (Some ''mcp'') [(backend_component, sample_build 7)]
      (insert_bundle ?b (tick (tick (tick (tick (snd ?checked))))))"
  let ?logged = "commit (log ?V (Some (b_id ?b)) None (ws_value CREATE_RELEASE_BUNDLE) STAGE_SUCCEEDED None None None
      (log ?V (Some (b_id ?b)) None (ws_value CREATE_RELEASE_BUNDLE) STAGE_STARTED None None None (snd ?made)))"
  have checked: "?checked = (Inr [(backend_component, sample_build 7)], snd ?checked)"
    unfolding prod_eq_iff by code_simp
  have made: "?made = (Inr (), snd ?made)" unfolding prod_eq_iff by code_simp
  have pre: "lookup_project (claimed_world tr) (bq_project_id production_request) = Inr sample_project"
    "selected_components (claimed_world tr) sample_project production_request = Inr [(backend_component, 7)]"
    "py_or (bq_target production_request) (p_default_target sample_project) = ''production''"
    "map (c_key \<circ> fst) [(backend_component, sample_build 7)] = [''backend'']"
    "bq_requested_by production_request = Some ''mcp''"
    by code_simp+
  have new: "find_bundle (tick (tick (tick (tick (snd ?checked))))) (b_id ?b) = None" by code_simp
  have runs: "production_bundle tr = advance_and_commit ?V (b_id ?b) ?logged"
    using create_bundle_runs [OF pre(1-3) checked _ new] made pre(4,5) by simp
  show ?thesis unfolding runs by (code_simp, simp add: is_post_def)
qed

lemma promotion_reaches_drone:
  "filter is_post (w_trace (snd (promote_to_production plan_sample_env plan_sample_settings ''r1'' approved_world))) \<noteq> []"
proof -
  let ?v = "plan_sample_env" and ?s = "plan_sample_settings" and ?p = "sample_plan ''approved'' (Some ''ann'')"
  obtain x w1 where x: "validate_current ?v ?s ?p approved_world = (x, w1)" by force
  have "fst (validate_current ?v ?s ?p approved_world) = Inr () \<and> w_ticks (snd (validate_current ?v ?s ?p approved_world)) = 1"
    by code_simp
  then have valid: "validate_current ?v ?s ?p approved_world = (Inr (), w1)" "w_ticks w1 = 1" using x by simp_all
  have w1: "w1 = approved_world\<lparr>w_ticks := 1, w_trace := w_trace w1\<rparr>"
    using valid validate_current_cases(1) [OF x] by (cases w1) (simp add: looks_def approved_world_def plan_world_def Let_def)
  have plan: "get_plan ?s ''r1'' approved_world = Inr ?p" "promotable_plan ?p = Inr ()"
    "pl_id ?p = ''r1''" "pl_digest ?p = ''digest''" "pl_snapshot ?p = sample_snapshot" "ps_target sample_snapshot = ''production''"
    "plan_request ?s sample_snapshot = Inr production_request" by code_simp+
  have mode: "(\<not> mcp_enabled ?s \<or> mcp_mode ?s \<noteq> ''full'') = False" by code_simp
  have "claim_plan ?v ''r1'' ''digest'' ''uu'' (tick (approved_world\<lparr>w_ticks := 1, w_trace := tr\<rparr>)) =
      (True, claimed_world (tr @ [Committed claimed_tables]))" for tr by code_simp
  then obtain tr where claimed: "claim_plan ?v ''r1'' ''digest'' ''uu'' (tick w1) = (True, claimed_world tr)" using w1 by metis
  have release: "new_uuid ?v w1 = ''uu''" by (simp add: new_uuid_def valid(2) plan_sample_env_def sample_env_def)
  obtain r w9 where adv: "production_bundle tr = (r, w9)" by force
  have exe: "execute_plan ?v ?s sample_snapshot (Some ''uu'') (claimed_world tr) = (r, w9)"
    unfolding execute_plan_def plan(6,7) sum.case by (rule adv)
  have "filter is_post (w_trace (snd (run_plan ?v ?s ?p w1))) = filter is_post (w_trace w9)"
    unfolding run_plan_def Let_def plan(3-5) release claimed prod.case exe
    by (simp add: mark_plan_def upd_plan_def is_post_def split: sum.split)
  moreover have "promote_to_production ?v ?s ''r1'' approved_world = run_plan ?v ?s ?p w1"
    unfolding promote_to_production_def mode if_False plan(1,2) sum.case valid(1) prod.case by (rule refl)
  ultimately show ?thesis using production_bundle_sends [of tr] adv by simp
qed

theorem production_promotion_guarded_witness:
  "\<exists>k m T p. let es = w_trace (snd (promote_to_production plan_sample_env plan_sample_settings ''r1'' approved_world))
   in m < k \<and> k < length es \<and> is_post (es ! k) \<and> es ! m = Committed T \<and> find_row pl_id ''r1'' (t_plans T) = Some p \<and>
     pl_status p = ''executing'' \<and> (\<exists>plan. authorised plan_sample_env plan_sample_settings plan approved_world)"
proof -
  let ?es = "w_trace (snd (promote_to_production plan_sample_env plan_sample_settings ''r1'' approved_world))"
  have tr: "?es = w_trace approved_world @ ?es" by (simp add: approved_world_def plan_world_def Let_def)
  have "filter is_post ?es \<noteq> []" by (rule promotion_reaches_drone)
  then obtain k where k: "k < length ?es" "is_post (?es ! k)" by (auto simp: filter_empty_conv in_set_conv_nth)
  from production_promotion_guarded [OF tr k] show ?thesis unfolding Let_def using k by blast
qed

subsection \<open>Approving\<close>

text \<open>
  Approving a plan. An approval sends nothing but reads. It succeeds only for an administrator who
  signed in, on a production plan that is pending, unexpired, unaltered, current and free of blockers,
  and only with the digest of exactly that plan; then it records who approved and when in that one row.
  When it fails, no plan changes.
\<close>

theorem plan_approval:
  assumes "approve_plan v ps i digest user w = (r, w')" and "w_durable w = w_cur w"
  shows "posts w' = posts w \<and>
    (case r of
       Inl e \<Rightarrow> t_plans (w_durable w') = t_plans (w_durable w)
     | Inr p \<Rightarrow> may_approve ps user \<and>
         (\<exists>q at. plan_at w i = Some q \<and> pl_status q = ''pending'' \<and> pl_digest q = digest \<and>
            v_digest v (pl_snapshot q) = digest \<and> ps_target_environment (pl_snapshot q) = ''production'' \<and>
            pl_expires_at q > now_of v w \<and> ps_executable (pl_snapshot q) \<and>
            p = plan_approved (us_login user) at q \<and>
            t_plans (w_durable w') = upd_row pl_id i (plan_approved (us_login user) at) (t_plans (w_durable w))))"
proof (cases "may_approve ps user \<and> (\<exists>q. get_plan ps i w = Inr q \<and>
    ps_target_environment (pl_snapshot q) = ''production'' \<and> digest = pl_digest q)")
  case False
  then have "\<exists>e. approve_plan v ps i digest user w = (Inl e, w)"
    by (cases "get_plan ps i w") (auto simp: approve_plan_def)
  then show ?thesis using assms(1) by auto
next
  case True
  then obtain q where q: "get_plan ps i w = Inr q" "ps_target_environment (pl_snapshot q) = ''production''"
      "digest = pl_digest q" "may_approve ps user" by blast
  have f: "find_plan w i = Some q" using q(1) by (auto simp: get_plan_def split: option.splits sum.splits if_splits)
  obtain x w1 where x: "validate_current v ps q w = (x, w1)" by force
  have l: "looks w w1" by (rule validate_current_cases(1) [OF x])
  note same = looks_posts [OF l]
  have pl: "t_plans (w_durable w1) = t_plans (w_durable w)" "w_cur w1 = w_durable w1"
    using l assms(2) by (simp_all add: looks_def)
  show ?thesis
  proof (cases x)
    case (Inl e)
    then have "r = Inl e \<and> w' = w1" using assms(1) q x by (auto simp: approve_plan_def)
    then show ?thesis using same pl by simp
  next
    case (Inr u)
    then have ok: "pl_expires_at q > now_of v w \<and> v_digest v (pl_snapshot q) = pl_digest q \<and> ps_executable (pl_snapshot q)"
      using validate_current_cases(2) [OF x] by simp
    show ?thesis
    proof (cases "approvable digest (now_of v w1) q")
      case True
      let ?f = "plan_approved (us_login user) (now_of v (tick w1))"
      have "approve_update v i digest (us_login user) w1 = (True, commit (upd_plan i ?f (tick (tick w1))))"
        using True f l by (simp add: approve_update_def)
      then have run: "r = Inr (?f q)" "w' = commit (upd_plan i ?f (tick (tick w1)))"
        using assms(1) q x Inr f l by (simp_all add: approve_plan_def find_plan_def upd_plan_def looks_def)
      have "plan_at w i = Some q" using f assms(2) by (simp add: find_plan_def plan_at_def)
      then show ?thesis
        unfolding run using True q ok same pl
        by (auto simp: approvable_def posts_def upd_plan_def is_post_def)
    next
      case False
      then have "approve_update v i digest (us_login user) w1 = (False, rollback (tick (tick w1)))"
        using f l by (simp add: approve_update_def)
      then have "(\<exists>e. r = Inl e) \<and> w' = rollback (tick (tick w1))" using assms(1) q x Inr by (auto simp: approve_plan_def)
      then show ?thesis using same pl by (auto simp: posts_def is_post_def split: sum.split)
    qed
  qed
qed

theorem plan_approval_witness:
  "let w = plan_world [sample_plan ''pending'' None];
       r = approve_plan plan_sample_env plan_sample_settings ''r1'' ''digest'' \<lparr>us_login = ''ann'', us_is_admin = True\<rparr> w
   in posts (snd r) = posts w \<and> (\<exists>p q at. fst r = Inr p \<and> p = plan_approved ''ann'' at q \<and> pl_status q = ''pending'')"
proof -
  let ?w = "plan_world [sample_plan ''pending'' None]"
  let ?r = "approve_plan plan_sample_env plan_sample_settings ''r1'' ''digest'' \<lparr>us_login = ''ann'', us_is_admin = True\<rparr> ?w"
  have "\<not> isl (fst ?r)" by code_simp
  then obtain p where p: "?r = (Inr p, snd ?r)" by (metis isl_def prod.collapse sum.exhaust)
  have c: "w_durable ?w = w_cur ?w" by (simp add: plan_world_def Let_def)
  show ?thesis
    unfolding Let_def using plan_approval [OF p c] arg_cong [OF p, of fst] by auto
qed

subsection \<open>What stands behind an executable plan\<close>

lemma latest_is_successful:
  assumes "latest_deployment ps c e True w = Inr (Some d)" and "latest_deployment ps c e False w = Inr (Some d')"
    and "d_status d' = DS_SUCCESS"
  shows "d' = d"
proof -
  obtain p target where p: "ops_project ps w = Inr p" "ops_target ps e = Inr target"
    using assms(1) by (auto simp: latest_deployment_def split: sum.splits)
  define ds where "ds = rev (sort_key (\<lambda>d. (d_created_at d, d_id d)) (filter (\<lambda>d. d_project_id d = p_id p \<and>
      d_component_id d = c_id c \<and> d_target d = target) (t_deployments (w_cur w))))"
  have "rev (sort_key (\<lambda>d. (d_created_at d, d_id d)) (filter (\<lambda>d. d_project_id d = p_id p \<and> d_component_id d = c_id c \<and>
      d_target d = target \<and> d_status d = DS_SUCCESS) (t_deployments (w_cur w)))) =
      filter (\<lambda>d. d_status d = DS_SUCCESS) ds"
    by (simp add: ds_def filter_sort [symmetric] rev_filter conj_ac)
  moreover obtain rest where "ds = d' # rest"
    using assms(2) p by (auto simp: latest_deployment_def ds_def split: list.splits)
  ultimately show ?thesis using assms(1,3) p by (simp add: latest_deployment_def)
qed

lemma ops_cong:
  assumes "w_cur u = w_cur w"
  shows "ops_component ps key u = ops_component ps key w" "plan_route c u = plan_route c w"
    "latest_deployment ps c e s u = latest_deployment ps c e s w"
proof -
  have reg: "same_registry u w" using assms by (simp add: same_registry_def)
  show "ops_component ps key u = ops_component ps key w" "plan_route c u = plan_route c w"
    "latest_deployment ps c e s u = latest_deployment ps c e s w"
    unfolding ops_component_def ops_project_def plan_route_def latest_deployment_def registry_cong [OF reg] assms
    by (rule refl)+
qed

text \<open>The source of one component, as it was read.\<close>

definition source_of ::
    "env \<Rightarrow> plan_settings \<Rightarrow> string \<Rightarrow> component_row \<Rightarrow> world \<Rightarrow> plan_source \<Rightarrow> drone_build \<Rightarrow> bool" where
  "source_of v ps environment c w src b \<longleftrightarrow> is_promotable b \<and> so_commit src = Some (bd_commit_sha b) \<and>
     (if environment = ''production''
      then (\<exists>d x. latest_deployment ps c ''staging'' False w = Inr (Some d) \<and> d_status d = DS_SUCCESS \<and>
              d_commit_sha d = bd_commit_sha b \<and> so_deployment src = Some (d_id d) \<and>
              so_number src = Some (d_source_build_number d) \<and> fst (get_build v c (d_source_build_number d) x) = Inr b)
      else so_number src = Some (bd_number b) \<and>
        (\<exists>info builds x y. fst (get_repository_info v c x) = Inr info \<and> fst (list_builds v c 50 y) = Inr builds \<and>
           default_branch_build info builds = Some b))"

lemma candidate_source:
  assumes "candidate v ps key w = (Inr r, w')" and "ops_component ps key w = Inr c"
    and "rc_staging_succeeded r" and "rc_pipeline_passed r"
  shows "\<exists>b. source_of v ps ''production'' c w (source_of_candidate r) b"
proof -
  obtain staged latest production where l: "latest_deployment ps c ''staging'' True w = Inr staged"
      "latest_deployment ps c ''staging'' False w = Inr latest"
      "latest_deployment ps c ''production'' True w = Inr production"
    using assms(1,2) by (auto simp: candidate_def split: sum.splits)
  obtain d where d: "staged = Some d"
    using assms l by (cases staged) (auto simp: candidate_def candidate_of_def)
  obtain x w1 where x: "get_build v c (d_source_build_number d) w = (x, w1)" by force
  obtain b where b: "x = Inr b" "r = candidate_of staged latest production (Some b)"
    using assms(1,2) l d x by (auto simp: candidate_def split: sum.splits)
  obtain d' where d': "latest = Some d'" "d_status d' = DS_SUCCESS"
    using assms(3) b(2) by (cases latest) (auto simp: candidate_of_def)
  have "d' = d" by (rule latest_is_successful [OF _ _ d'(2)]) (use l d d' in simp_all)
  then show ?thesis
    using assms(4) b l d d' arg_cong [OF x, of fst]
    by (auto simp: source_of_def candidate_of_def source_of_candidate_def)
qed

lemma plan_source_found:
  assumes "plan_source_for v ps environment key c w = (Inr src, w')" and "ops_component ps key w = Inr c"
    and "component_blockers key target c src previous = []"
  shows "\<exists>b. source_of v ps environment c w src b"
proof (cases "environment = ''production''")
  case True
  then obtain r where r: "candidate v ps key w = (Inr r, w')" "src = source_of_candidate r"
    using assms(1) by (auto simp: plan_source_for_def split: prod.splits sum.splits)
  have "rc_staging_succeeded r" "rc_pipeline_passed r"
    using assms(3) r(2) by (auto simp: component_blockers_def source_of_candidate_def split: if_splits)
  then show ?thesis using candidate_source [OF r(1) assms(2)] r(2) True by simp
next
  case False
  obtain x w1 where x: "get_repository_info v c w = (x, w1)" by force
  obtain y w2 where y: "list_builds v c 50 w1 = (y, w2)" by force
  obtain info builds where i: "x = Inr info" "y = Inr builds" "src = source_of_build (default_branch_build info builds)"
    using assms(1) False by (auto simp: plan_source_for_def x y split: sum.splits)
  obtain b where b: "default_branch_build info builds = Some b"
    using assms(3) i(3) by (cases "default_branch_build info builds")
      (auto simp: component_blockers_def source_of_build_def split: if_splits)
  have "is_promotable b" using assms(3) i(3) b by (auto simp: component_blockers_def source_of_build_def split: if_splits)
  moreover have "fst (get_repository_info v c w) = Inr info" "fst (list_builds v c 50 w1) = Inr builds"
    using x y i by simp_all
  ultimately show ?thesis using False b i(3) by (auto simp: source_of_def source_of_build_def)
qed

definition action_backed :: "env \<Rightarrow> plan_settings \<Rightarrow> string \<Rightarrow> string \<Rightarrow> world \<Rightarrow> plan_action \<Rightarrow> bool" where
  "action_backed v ps environment target w a \<longleftrightarrow>
     (\<exists>c previous src b. ops_component ps (pa_component a) w = Inr c \<and> c_is_active c \<and> override_ok c target \<and>
        plan_route c w = Inr (pa_route a) \<and> latest_deployment ps c environment True w = Inr previous \<and>
        (\<forall>d. previous = Some d \<longrightarrow> d_commit_sha d \<noteq> bd_commit_sha b) \<and> source_of v ps environment c w src b \<and>
        pa_commit_sha a = so_commit src \<and> pa_build_number a = so_number src \<and>
        pa_source_deployment_id a = so_deployment src)"

lemma plan_components_backed:
  "plan_components v ps environment target keys w = (Inr (actions, checks, []), w') \<Longrightarrow>
     map pa_component actions = keys \<and> (\<forall>a \<in> set actions. action_backed v ps environment target w a)"
proof (induction keys arbitrary: w w' actions checks)
  case (Cons key keys)
  obtain c route previous where c: "ops_component ps key w = Inr c" "plan_route c w = Inr route"
      "latest_deployment ps c environment True w = Inr previous"
    using Cons.prems by (auto split: sum.splits)
  obtain src w1 where s: "plan_source_for v ps environment key c w = (Inr src, w1)"
    using Cons.prems c by (auto split: sum.splits prod.splits)
  obtain as cs where rest: "plan_components v ps environment target keys w1 = (Inr (as, cs, []), w')"
      "component_blockers key target c src previous = []" "actions = component_action key src previous route # as"
    using Cons.prems c s by (auto split: sum.splits prod.splits)
  obtain b where b: "source_of v ps environment c w src b"
    using plan_source_found [OF s c(1) rest(2)] by blast
  have blocked: "c_is_active c \<and> override_ok c target \<and> (\<forall>d. previous = Some d \<longrightarrow> d_commit_sha d \<noteq> bd_commit_sha b)"
    using rest(2) b by (auto simp: component_blockers_def source_of_def split: if_splits option.splits)
  have "action_backed v ps environment target w (component_action key src previous route)"
    unfolding action_backed_def
    by (intro exI [of _ c] exI [of _ previous] exI [of _ src] exI [of _ b])
      (use c b blocked in \<open>simp add: component_action_def\<close>)
  moreover have cur: "w_cur w1 = w_cur w" using readsD [OF plan_source_reads [OF s]] by simp
  have "action_backed v ps environment target w1 a = action_backed v ps environment target w a" for a
    unfolding action_backed_def source_of_def ops_cong [OF cur] by (rule refl)
  ultimately show ?case using Cons.IH [OF rest(1)] rest(3) by (simp add: component_action_def)
qed simp

text \<open>
  C40. What stands behind an executable plan. Creating a plan promotes nothing and stores it pending with
  the digest of its snapshot. If the snapshot is executable, the project is not archived and every action,
  one per selected component, is backed: the component is active and goes to the requested target, the
  commit is that of a successful push build Drone returned and is not already deployed there, and for
  production the latest deployment to staging succeeded with exactly that commit and build.
\<close>

theorem executable_plan_backed:
  assumes "create_release_plan v ps environment f b w = (Inr plan, w')" and "ps_executable (pl_snapshot plan)"
  shows "posts w' = posts w \<and> plan_at w' (pl_id plan) = Some plan \<and> pl_status plan = ''pending'' \<and>
    pl_digest plan = v_digest v (pl_snapshot plan) \<and>
    (\<exists>p. ops_project ps w = Inr p \<and> \<not> p_is_archived p \<and> ps_project_id (pl_snapshot plan) = p_id p) \<and>
    map pa_component (ps_actions (pl_snapshot plan)) = selected_keys f b \<and>
    (\<forall>a \<in> set (ps_actions (pl_snapshot plan)).
       action_backed v ps environment (ps_target (pl_snapshot plan)) w a)"
proof -
  obtain x w1 where x: "snapshot v ps environment f b w = (x, w1)" by force
  have l: "looks w w1" by (rule reads_looks [OF snapshot_reads [OF x]])
  obtain s where s: "x = Inr s" "pl_snapshot plan = s" "pl_status plan = ''pending''" "pl_digest plan = v_digest v s"
      "posts w' = posts w1" "keyed pl_id (t_plans (w_durable w'))" "plan \<in> set (t_plans (w_durable w'))"
    using assms(1) by (auto simp: create_release_plan_def x Let_def posts_def is_post_def split: sum.splits if_splits)
  have stored: "plan_at w' (pl_id plan) = Some plan"
    unfolding plan_at_def by (rule find_row_keyed [OF s(6,7)])
  obtain p target where p: "ops_project ps w = Inr p" "ops_target ps environment = Inr target"
    using x s(1) by (auto simp: snapshot_def split: sum.splits)
  obtain actions checks blockers w2 where c: "plan_components v ps environment target (selected_keys f b) w =
      (Inr (actions, checks, blockers), w2)"
    using x s(1) p by (auto simp: snapshot_def split: sum.splits prod.splits)
  have sn: "ps_actions s = actions" "ps_target s = target" "ps_project_id s = p_id p"
    "ps_executable s \<longleftrightarrow> \<not> p_is_archived p \<and> blockers = []"
    using x s(1) p c by (auto simp: snapshot_def Let_def split: if_splits)
  then show ?thesis
    using assms(2) s(2-5) stored p plan_components_backed [of v ps environment target "selected_keys f b" w actions checks w2] c
      looks_posts [OF l] by auto
qed

theorem executable_plan_backed_witness:
  "let r = create_release_plan plan_sample_env plan_sample_settings ''production'' False True (plan_world [])
   in \<exists>plan. fst r = Inr plan \<and> (\<exists>a. ps_actions (pl_snapshot plan) = [a] \<and>
        action_backed plan_sample_env plan_sample_settings ''production'' (ps_target (pl_snapshot plan)) (plan_world []) a)"
proof -
  let ?r = "create_release_plan plan_sample_env plan_sample_settings ''production'' False True (plan_world [])"
  have "case fst ?r of Inl e \<Rightarrow> False | Inr plan \<Rightarrow> ps_executable (pl_snapshot plan) \<and> length (ps_actions (pl_snapshot plan)) = 1"
    by code_simp
  then obtain plan where p: "fst ?r = Inr plan" "ps_executable (pl_snapshot plan)" "length (ps_actions (pl_snapshot plan)) = 1"
    by (auto split: sum.splits)
  have r: "?r = (Inr plan, snd ?r)" using p(1) by (simp add: prod_eq_iff)
  obtain a where "ps_actions (pl_snapshot plan) = [a]" using p(3) by (cases "ps_actions (pl_snapshot plan)") auto
  then show ?thesis unfolding Let_def using executable_plan_backed [OF r p(2)] p(1) by auto
qed

end
