(* ===== verification/Promotion_Ports.thy ===== *)
theory Promotion_Ports
  imports Deployment_Service_Laws
begin

section \<open>The ports of the promotion layer and their adapters\<close>

text \<open>
  app/domain/orchestration/repositories declares what the use cases of _promotion.py ask for;
  app/infrastructure/sqlite/orchestration (rows, repositories, event recorder) and
  app/infrastructure/upstream/build_gateway.py implement it. An entity lives in memory until its
  repository saves it. The contract the two repositories share is the locale
  \<^verbatim>\<open>entity_repository\<close>.
\<close>

subsection \<open>Rows and entities\<close>

text \<open>deployment_dto.py. The attachment and the required stages of a row are not in the entity.\<close>

definition to_entity :: "'a deployment_scheme \<Rightarrow> deployment" where
  "to_entity r =
     \<lparr>d_id = d_id r, d_project_id = d_project_id r, d_component_id = d_component_id r,
      d_component = d_component r, d_drone_connection_id = d_drone_connection_id r,
      d_drone_owner = d_drone_owner r, d_drone_repository = d_drone_repository r,
      d_source_build_number = d_source_build_number r, d_commit_sha = d_commit_sha r,
      d_branch = d_branch r, d_target = d_target r, d_status = d_status r,
      d_created_at = d_created_at r, d_updated_at = d_updated_at r,
      d_release_bundle_id = d_release_bundle_id r,
      d_promotion_build_number = d_promotion_build_number r,
      d_publish_status = d_publish_status r, d_version = d_version r,
      d_gitea_release_id = d_gitea_release_id r, d_gitea_release_tag = d_gitea_release_tag r,
      d_gitea_release_url = d_gitea_release_url r, d_current_stage = d_current_stage r,
      d_failed_stage = d_failed_stage r, d_error_code = d_error_code r,
      d_error_message = d_error_message r, d_cancel_reason = d_cancel_reason r,
      d_poll_error_code = d_poll_error_code r, d_poll_error_message = d_poll_error_message r,
      d_poll_failure_count = d_poll_failure_count r, d_requested_by = d_requested_by r,
      d_started_at = d_started_at r, d_failed_at = d_failed_at r,
      d_cancelled_at = d_cancelled_at r, d_finished_at = d_finished_at r,
      d_publish_started_at = d_publish_started_at r, d_published_at = d_published_at r,
      d_publish_failed_at = d_publish_failed_at r,
      d_publish_error_code = d_publish_error_code r,
      d_publish_error_message = d_publish_error_message r\<rparr>"

text \<open>LIFECYCLE_FIELDS, copied one by one onto the row.\<close>

definition apply_lifecycle :: "deployment \<Rightarrow> 'a deployment_scheme \<Rightarrow> 'a deployment_scheme" where
  "apply_lifecycle d r =
     r\<lparr>d_status := d_status d, d_promotion_build_number := d_promotion_build_number d,
       d_current_stage := d_current_stage d, d_failed_stage := d_failed_stage d,
       d_error_code := d_error_code d, d_error_message := d_error_message d,
       d_cancel_reason := d_cancel_reason d, d_poll_error_code := d_poll_error_code d,
       d_poll_error_message := d_poll_error_message d,
       d_poll_failure_count := d_poll_failure_count d, d_started_at := d_started_at d,
       d_failed_at := d_failed_at d, d_cancelled_at := d_cancelled_at d,
       d_finished_at := d_finished_at d, d_updated_at := d_updated_at d\<rparr>"

text \<open>What \<open>new_row\<close> does not name keeps the default of its column.\<close>

definition new_row :: "deployment \<Rightarrow> dep_row" where
  "new_row d = apply_lifecycle d
     \<lparr>d_id = d_id d, d_project_id = d_project_id d, d_component_id = d_component_id d,
      d_component = d_component d, d_drone_connection_id = d_drone_connection_id d,
      d_drone_owner = d_drone_owner d, d_drone_repository = d_drone_repository d,
      d_source_build_number = d_source_build_number d, d_commit_sha = d_commit_sha d,
      d_branch = d_branch d, d_target = d_target d, d_status = DS_WAITING,
      d_created_at = d_created_at d, d_updated_at = d_created_at d,
      d_release_bundle_id = d_release_bundle_id d, d_promotion_build_number = None,
      d_publish_status = d_publish_status d, d_version = None, d_gitea_release_id = None,
      d_gitea_release_tag = None, d_gitea_release_url = None, d_current_stage = None,
      d_failed_stage = None, d_error_code = None, d_error_message = None,
      d_cancel_reason = None, d_poll_error_code = None, d_poll_error_message = None,
      d_poll_failure_count = 0, d_requested_by = d_requested_by d, d_started_at = None,
      d_failed_at = None, d_cancelled_at = None, d_finished_at = None,
      d_publish_started_at = None, d_published_at = None, d_publish_failed_at = None,
      d_publish_error_code = None, d_publish_error_message = None,
      d_required_promotion_stages = None, d_attachment = None\<rparr>"

text \<open>release_bundle_dto.py; the entity's list of deployments is not read by this layer.\<close>

definition bundle_to_entity :: "'a release_bundle_scheme \<Rightarrow> release_bundle" where
  "bundle_to_entity r =
     \<lparr>b_id = b_id r, b_mode = b_mode r, b_target = b_target r, b_status = b_status r,
      b_deployment_status = b_deployment_status r, b_created_at = b_created_at r,
      b_updated_at = b_updated_at r, b_project_id = b_project_id r,
      b_selected_component_keys = b_selected_component_keys r,
      b_publish_status = b_publish_status r, b_version = b_version r,
      b_release_name = b_release_name r, b_release_notes = b_release_notes r,
      b_workflow_instance_id = b_workflow_instance_id r, b_current_stage = b_current_stage r,
      b_failed_stage = b_failed_stage r, b_error_code = b_error_code r,
      b_error_message = b_error_message r, b_requested_by = b_requested_by r,
      b_started_at = b_started_at r, b_failed_at = b_failed_at r,
      b_finished_at = b_finished_at r, b_publish_started_at = b_publish_started_at r,
      b_published_at = b_published_at r, b_publish_failed_at = b_publish_failed_at r,
      b_publish_error_code = b_publish_error_code r,
      b_publish_error_message = b_publish_error_message r\<rparr>"

definition apply_bundle_lifecycle ::
    "release_bundle \<Rightarrow> 'a release_bundle_scheme \<Rightarrow> 'a release_bundle_scheme" where
  "apply_bundle_lifecycle b r =
     r\<lparr>b_status := b_status b, b_deployment_status := b_deployment_status b,
       b_current_stage := b_current_stage b, b_failed_stage := b_failed_stage b,
       b_error_code := b_error_code b, b_error_message := b_error_message b,
       b_started_at := b_started_at b, b_failed_at := b_failed_at b,
       b_finished_at := b_finished_at b, b_updated_at := b_updated_at b\<rparr>"

definition new_bundle_row :: "release_bundle \<Rightarrow> attachment option \<Rightarrow> bundle_row" where
  "new_bundle_row b att = apply_bundle_lifecycle b
     \<lparr>b_id = b_id b, b_mode = b_mode b, b_target = b_target b, b_status = BS_PENDING,
      b_deployment_status = BS_PENDING, b_created_at = b_created_at b,
      b_updated_at = b_created_at b, b_project_id = b_project_id b,
      b_selected_component_keys = b_selected_component_keys b,
      b_publish_status = b_publish_status b, b_version = None, b_release_name = None,
      b_release_notes = None, b_workflow_instance_id = b_workflow_instance_id b,
      b_current_stage = None, b_failed_stage = None, b_error_code = None,
      b_error_message = None, b_requested_by = b_requested_by b, b_started_at = None,
      b_failed_at = None, b_finished_at = None, b_publish_started_at = None,
      b_published_at = None, b_publish_failed_at = None, b_publish_error_code = None,
      b_publish_error_message = None, b_attachment = att\<rparr>"

subsection \<open>The repositories\<close>

definition dep_add :: "deployment \<Rightarrow> world \<Rightarrow> (exn + unit) \<times> world" where
  "dep_add d w =
     (let w1 = set_tables (\<lambda>t. t\<lparr>t_deployments := t_deployments t @ [new_row d]\<rparr>) w
      in if keyed d_id (t_deployments (w_cur w1)) \<and> slots_unique (t_deployments (w_cur w1))
         then (Inr (), w1)
         else (Inl (DuplicatePromotionError ''This build has already been promoted to this target''),
               rollback w1))"

definition dep_save :: "deployment \<Rightarrow> world \<Rightarrow> world" where
  "dep_save d w =
     (case find_dep w (d_id d) of None \<Rightarrow> w | Some _ \<Rightarrow> upd_dep (d_id d) (apply_lifecycle d) w)"

definition dep_by_id :: "world \<Rightarrow> string \<Rightarrow> deployment option" where
  "dep_by_id w i = map_option to_entity (find_dep w i)"

text \<open>The primary key of the row that holds the slot, for a readable message.\<close>

definition find_active_promotion ::
    "world \<Rightarrow> string \<Rightarrow> string \<Rightarrow> string \<Rightarrow> int \<Rightarrow> string \<Rightarrow> string option" where
  "find_active_promotion w connection_id owner repository build_number target =
     map_option d_id (List.find (same_promotion connection_id owner repository build_number target)
       (t_deployments (w_cur w)))"

text \<open>
  The UPDATE with its expected status. The values are those the entity has given itself; only
  \<open>started_at\<close> is coalesced with the column.
\<close>

definition claim_values :: "deployment \<Rightarrow> dep_row \<Rightarrow> dep_row" where
  "claim_values d r =
     r\<lparr>d_status := d_status d, d_current_stage := d_current_stage d,
       d_started_at := (case d_started_at r of None \<Rightarrow> d_started_at d | Some t \<Rightarrow> Some t),
       d_updated_at := d_updated_at d\<rparr>"

definition claim_matches :: "deployment \<Rightarrow> dep_row \<Rightarrow> bool" where
  "claim_matches d r \<longleftrightarrow> d_id r = d_id d \<and> d_status r \<in> set CLAIMABLE_FOR_PROMOTION"

definition dep_claim :: "deployment \<Rightarrow> world \<Rightarrow> bool \<times> world" where
  "dep_claim d w =
     (length (filter (claim_matches d) (t_deployments (w_cur w))) = 1,
      set_tables (\<lambda>t. t\<lparr>t_deployments :=
        map (\<lambda>r. if claim_matches d r then claim_values d r else r) (t_deployments t)\<rparr>) w)"

record deployment_filters =
  df_component :: "string option"
  df_status :: "deployment_status option"
  df_target :: "string option"
  df_release_bundle_id :: "string option"

definition asks :: "string option \<Rightarrow> string option \<Rightarrow> bool" where
  "asks wanted actual \<longleftrightarrow> (py_truthy wanted \<longrightarrow> actual = wanted)"

definition dep_filter :: "deployment_filters \<Rightarrow> dep_row \<Rightarrow> bool" where
  "dep_filter f d \<longleftrightarrow>
     asks (df_component f) (Some (d_component d)) \<and>
     (case df_status f of None \<Rightarrow> True | Some s \<Rightarrow> d_status d = s) \<and>
     asks (df_target f) (Some (d_target d)) \<and>
     asks (df_release_bundle_id f) (d_release_bundle_id d)"

text \<open>Newest first, one page of it, with the number of rows that match.\<close>

definition page :: "nat \<Rightarrow> nat \<Rightarrow> 'r list \<Rightarrow> 'r list" where
  "page limit offset rs = take limit (drop offset rs)"

definition dep_search ::
    "world \<Rightarrow> deployment_filters \<Rightarrow> nat \<Rightarrow> nat \<Rightarrow> deployment list \<times> nat" where
  "dep_search w f limit offset =
     (let rs = filter (dep_filter f) (t_deployments (w_cur w))
      in (map to_entity (page limit offset (rev (sort_key (\<lambda>d. (d_created_at d, d_id d)) rs))),
          length rs))"

text \<open>A flush that meets the primary key raises and ends the transaction; nothing catches it here.\<close>

definition bundle_add ::
    "release_bundle \<Rightarrow> attachment option \<Rightarrow> world \<Rightarrow> (exn + unit) \<times> world" where
  "bundle_add b att w =
     (let w1 = set_tables (\<lambda>t. t\<lparr>t_bundles := t_bundles t @ [new_bundle_row b att]\<rparr>) w
      in if keyed b_id (t_bundles (w_cur w1)) then (Inr (), w1) else (Inl IntegrityError, rollback w1))"

definition bundle_save :: "release_bundle \<Rightarrow> world \<Rightarrow> world" where
  "bundle_save b w =
     (case find_bundle w (b_id b) of
        None \<Rightarrow> w | Some _ \<Rightarrow> upd_bundle (b_id b) (apply_bundle_lifecycle b) w)"

definition bundle_by_id :: "world \<Rightarrow> string \<Rightarrow> release_bundle option" where
  "bundle_by_id w i = map_option bundle_to_entity (find_bundle w i)"

definition ordered_deployments :: "world \<Rightarrow> release_bundle \<Rightarrow> deployment list" where
  "ordered_deployments w b =
     map to_entity (ordered_by_component w
       (filter (\<lambda>d. d_release_bundle_id d = Some (b_id b)) (t_deployments (w_cur w))))"

definition bundle_search ::
    "world \<Rightarrow> bundle_status option \<Rightarrow> string option \<Rightarrow> nat \<Rightarrow> nat \<Rightarrow> release_bundle list \<times> nat" where
  "bundle_search w status target limit offset =
     (let rs = filter (\<lambda>b. (case status of None \<Rightarrow> True | Some s \<Rightarrow> b_status b = s) \<and>
               asks target (Some (b_target b))) (t_bundles (w_cur w))
      in (map bundle_to_entity (page limit offset (rev (sort_key (\<lambda>b. (b_created_at b, b_id b)) rs))),
          length rs))"

subsection \<open>The event recorder\<close>

text \<open>A deployment given alone still carries the bundle it belongs to, if that row exists.\<close>

definition recorded_release ::
    "world \<Rightarrow> release_bundle option \<Rightarrow> deployment option \<Rightarrow> string option" where
  "recorded_release w release dep =
     (case Option.bind release (\<lambda>b. find_bundle w (b_id b)) of
        Some r \<Rightarrow> Some (b_id r)
      | None \<Rightarrow> (case dep of
          None \<Rightarrow> None
        | Some d \<Rightarrow> (if find_dep w (d_id d) \<noteq> None \<and> py_truthy (d_release_bundle_id d)
                     then d_release_bundle_id d else None)))"

definition record_event ::
    "env \<Rightarrow> release_bundle option \<Rightarrow> deployment option \<Rightarrow> string \<Rightarrow> event_type \<Rightarrow> string option \<Rightarrow>
     string option \<Rightarrow> string option \<Rightarrow> world \<Rightarrow> world" where
  "record_event v release dep stage kind status code message w =
     log v (recorded_release w release dep) (map_option d_id dep) stage kind status code message w"

subsection \<open>The gateway to Drone\<close>

text \<open>
  What \<open>Orchestration\<close> is built with besides the ports: the configured timeout; and, since an
  exception is a value here, what Python's \<open>str\<close> and class name give for it.
\<close>

record orchestration =
  o_env :: env
  o_timeout_seconds :: int
  o_str :: "exn \<Rightarrow> string"
  o_class_name :: "exn \<Rightarrow> string"

definition gateway_promote ::
    "orchestration \<Rightarrow> component_row \<Rightarrow> int \<Rightarrow> string \<Rightarrow> world \<Rightarrow> (exn + drone_build) \<times> world" where
  "gateway_promote x c n target w =
     (case drone_promote (o_env x) c n target w of
        (Inl (DroneError k m), w1) \<Rightarrow>
          (Inl (UpstreamPromotionError (drone_error_code k) (o_str x (DroneError k m))
             (drone_error_code k \<notin> set UNCONFIRMED_PROMOTE_ERROR_CODES)), w1)
      | r \<Rightarrow> r)"

definition unavailable :: "orchestration \<Rightarrow> exn \<Rightarrow> exn" where
  "unavailable x e = UpstreamUnavailable (poll_error_code e)
     (if o_str x e \<noteq> [] then o_str x e else o_class_name x e)"

definition gateway_get_build ::
    "orchestration \<Rightarrow> component_row \<Rightarrow> int \<Rightarrow> world \<Rightarrow> (exn + drone_build) \<times> world" where
  "gateway_get_build x c n w =
     (case get_build (o_env x) c n w of
        (Inl e, w1) \<Rightarrow> (Inl (unavailable x e), w1) | (Inr b, w1) \<Rightarrow> (Inr b, w1))"

definition gateway_find_promotion ::
    "orchestration \<Rightarrow> component_row \<Rightarrow> int \<Rightarrow> string \<Rightarrow> world \<Rightarrow> (exn + drone_build option) \<times> world" where
  "gateway_find_promotion x c n target w =
     (case find_promotion_build (o_env x) c n target w of
        (Inl e, w1) \<Rightarrow> (Inl (unavailable x e), w1) | (Inr b, w1) \<Rightarrow> (Inr b, w1))"

subsection \<open>The contract of a repository\<close>

text \<open>
  A save writes the lifecycle of an entity onto its own row and nothing else: what is read back is
  the entity, provided the row agrees with it on the \<open>fixed\<close> part a save does not write.
\<close>

locale entity_repository =
  fixes by_id :: "world \<Rightarrow> string \<Rightarrow> 'e option"
    and save :: "'e \<Rightarrow> world \<Rightarrow> world"
    and ident :: "'e \<Rightarrow> string"
    and fixed :: "'e \<Rightarrow> 'f"
  assumes ident_found: "by_id w i = Some e \<Longrightarrow> ident e = i"
    and save_found: "by_id w (ident e) = Some e0 \<Longrightarrow> fixed e = fixed e0 \<Longrightarrow> by_id (save e w) (ident e) = Some e"
    and save_missing: "by_id w (ident e) = None \<Longrightarrow> save e w = w"
    and save_other: "i \<noteq> ident e \<Longrightarrow> by_id (save e w) i = by_id w i"
    and save_kept: "by_id w (ident e) = Some e0 \<Longrightarrow> \<exists>e1. by_id (save e w) (ident e) = Some e1 \<and> fixed e1 = fixed e0"
    and save_last: "ident e = ident f \<Longrightarrow> save f (save e w) = save f w"
begin

lemma save_again: "save e (save e w) = save e w"
  by (rule save_last) (rule refl)

lemma saved_exists: "by_id (save e w) i = None \<longleftrightarrow> by_id w i = None"
proof (cases "i = ident e")
  case True
  then show ?thesis using save_missing save_kept by (cases "by_id w i") fastforce+
qed (simp add: save_other)

lemma saved_fixed: "map_option fixed (by_id (save e w) i) = map_option fixed (by_id w i)"
proof (cases "i = ident e")
  case True
  then show ?thesis using save_missing save_kept by (cases "by_id w i") fastforce+
qed (simp add: save_other)

text \<open>A run of saves of one entity leaves the last one, whatever came before.\<close>

lemma saves_last:
  assumes "\<And>e. e \<in> set es \<Longrightarrow> ident e = i" and "ident f = i"
  shows "save f (fold save es w) = save f w"
  using assms
proof (induction es arbitrary: w)
  case (Cons e es)
  then have "save f (fold save es (save e w)) = save f (save e w)" by simp
  then show ?case using Cons.prems save_last by simp
qed simp

end

text \<open>What a save does not write: identity, coordinates, the publish side, who asked.\<close>

definition dep_fixed ::
    "deployment \<Rightarrow> ((string list \<times> int \<times> string option) \<times> time) \<times>
       (publish_status \<times> string option list \<times> time option list) \<times> string option" where
  "dep_fixed d = (dep_identity d, dep_publish_side d, d_requested_by d)"

definition bundle_fixed ::
    "release_bundle \<Rightarrow> (string \<times> release_mode \<times> string \<times> time \<times> publish_status) \<times>
       string option list \<times> time option list" where
  "bundle_fixed b =
     ((b_id b, b_mode b, b_target b, b_created_at b, b_publish_status b),
      [b_project_id b, b_selected_component_keys b, b_version b, b_release_name b,
       b_release_notes b, b_workflow_instance_id b, b_requested_by b, b_publish_error_code b,
       b_publish_error_message b],
      [b_publish_started_at b, b_published_at b, b_publish_failed_at b])"

lemma to_entity_truncate: "to_entity r = deployment.truncate r"
  by (simp add: to_entity_def deployment.truncate_def)

lemma bundle_to_entity_truncate: "bundle_to_entity r = release_bundle.truncate r"
  by (simp add: bundle_to_entity_def release_bundle.truncate_def)

lemma to_entity_id [simp]: "d_id (to_entity r) = d_id r"
  by (simp add: to_entity_def)

lemma bundle_to_entity_id [simp]: "b_id (bundle_to_entity r) = b_id r"
  by (simp add: bundle_to_entity_def)

lemma apply_lifecycle_id [simp]: "d_id (apply_lifecycle d r) = d_id r" "keeps_id (apply_lifecycle d)"
  by (simp_all add: apply_lifecycle_def keeps_id_def)

lemma apply_bundle_lifecycle_id [simp]:
  "b_id (apply_bundle_lifecycle b r) = b_id r" "keeps_bid (apply_bundle_lifecycle b)"
  by (simp_all add: apply_bundle_lifecycle_def keeps_bid_def)

lemma apply_lifecycle_last [simp]: "apply_lifecycle e (apply_lifecycle d r) = apply_lifecycle e r"
  by (simp add: apply_lifecycle_def)

lemma apply_bundle_lifecycle_last [simp]:
  "apply_bundle_lifecycle c (apply_bundle_lifecycle b r) = apply_bundle_lifecycle c r"
  by (simp add: apply_bundle_lifecycle_def)

text \<open>The row is the entity and its two further columns.\<close>

lemma apply_lifecycle_own [simp]: "apply_lifecycle (to_entity r) r = r"
  by (simp add: apply_lifecycle_def to_entity_def)

lemma apply_bundle_lifecycle_own [simp]: "apply_bundle_lifecycle (bundle_to_entity r) r = r"
  by (simp add: apply_bundle_lifecycle_def bundle_to_entity_def)

lemma to_entity_lifecycle:
  fixes d :: deployment and r :: dep_row
  shows "to_entity (apply_lifecycle d r) = d \<longleftrightarrow> dep_fixed (to_entity r) = dep_fixed d"
  by (cases d; cases r)
    (auto simp: to_entity_def apply_lifecycle_def dep_fixed_def dep_identity_def dep_publish_side_def)

lemma bundle_to_entity_lifecycle:
  fixes b :: release_bundle and r :: bundle_row
  shows "bundle_to_entity (apply_bundle_lifecycle b r) = b \<longleftrightarrow>
     bundle_fixed (bundle_to_entity r) = bundle_fixed b"
  by (cases b; cases r)
    (auto simp: bundle_to_entity_def apply_bundle_lifecycle_def bundle_fixed_def)

lemma dep_fixed_lifecycle [simp]: "dep_fixed (to_entity (apply_lifecycle d r)) = dep_fixed (to_entity r)"
  by (simp add: dep_fixed_def to_entity_def apply_lifecycle_def dep_identity_def dep_publish_side_def)

lemma bundle_fixed_lifecycle [simp]:
  "bundle_fixed (bundle_to_entity (apply_bundle_lifecycle b r)) = bundle_fixed (bundle_to_entity r)"
  by (simp add: bundle_fixed_def bundle_to_entity_def apply_bundle_lifecycle_def)

lemma find_dep_save:
  "find_dep (dep_save d w) i =
     (if i = d_id d then map_option (apply_lifecycle d) (find_dep w i) else find_dep w i)"
  by (cases "find_dep w (d_id d)") (auto simp: dep_save_def)

lemma find_bundle_save:
  "find_bundle (bundle_save b w) i =
     (if i = b_id b then map_option (apply_bundle_lifecycle b) (find_bundle w i) else find_bundle w i)"
  by (cases "find_bundle w (b_id b)") (auto simp: bundle_save_def find_bundle_def upd_bundle_def)

lemma upd_dep_twice: "keeps_id f \<Longrightarrow> upd_dep i g (upd_dep i f w) = upd_dep i (g \<circ> f) w"
  by (simp add: upd_dep_def set_tables_def keeps_id_def)

lemma upd_bundle_twice: "keeps_bid f \<Longrightarrow> upd_bundle i g (upd_bundle i f w) = upd_bundle i (g \<circ> f) w"
  by (simp add: upd_bundle_def set_tables_def keeps_bid_def)

lemma dep_save_last: "d_id d = d_id e \<Longrightarrow> dep_save e (dep_save d w) = dep_save e w"
  by (cases "find_dep w (d_id e)") (simp_all add: dep_save_def upd_dep_twice comp_def)

lemma bundle_save_last: "b_id b = b_id c \<Longrightarrow> bundle_save c (bundle_save b w) = bundle_save c w"
  by (cases "find_bundle w (b_id c)") (simp_all add: bundle_save_def upd_bundle_twice comp_def)

interpretation deployments: entity_repository dep_by_id dep_save d_id dep_fixed
proof unfold_locales
  fix w i and e e0 f :: deployment
  show "dep_by_id w i = Some e \<Longrightarrow> d_id e = i"
    by (auto simp: dep_by_id_def find_dep_def dest: find_row_Some)
  show "dep_by_id w (d_id e) = Some e0 \<Longrightarrow> dep_fixed e = dep_fixed e0 \<Longrightarrow>
      dep_by_id (dep_save e w) (d_id e) = Some e"
    by (auto simp: dep_by_id_def find_dep_save to_entity_lifecycle)
  show "dep_by_id w (d_id e) = Some e0 \<Longrightarrow>
      \<exists>e1. dep_by_id (dep_save e w) (d_id e) = Some e1 \<and> dep_fixed e1 = dep_fixed e0"
    by (auto simp: dep_by_id_def find_dep_save)
qed (simp_all add: dep_by_id_def find_dep_save dep_save_last, simp add: dep_save_def)

interpretation bundles: entity_repository bundle_by_id bundle_save b_id bundle_fixed
proof unfold_locales
  fix w i and e e0 f :: release_bundle
  show "bundle_by_id w i = Some e \<Longrightarrow> b_id e = i"
    by (auto simp: bundle_by_id_def find_bundle_def dest: find_row_Some)
  show "bundle_by_id w (b_id e) = Some e0 \<Longrightarrow> bundle_fixed e = bundle_fixed e0 \<Longrightarrow>
      bundle_by_id (bundle_save e w) (b_id e) = Some e"
    by (auto simp: bundle_by_id_def find_bundle_save bundle_to_entity_lifecycle)
  show "bundle_by_id w (b_id e) = Some e0 \<Longrightarrow>
      \<exists>e1. bundle_by_id (bundle_save e w) (b_id e) = Some e1 \<and> bundle_fixed e1 = bundle_fixed e0"
    by (auto simp: bundle_by_id_def find_bundle_save)
qed (simp_all add: bundle_by_id_def find_bundle_save bundle_save_last, simp add: bundle_save_def)

end
