(* ===== verification/Promotion_Layer.thy ===== *)
theory Promotion_Layer
  imports Promotion_Ports
begin

section \<open>The promotion use-case layer: entities over ports\<close>

text \<open>
  app/usecase/orchestration/_promotion.py: the promotion and the polling of the deployment
  service and the advance of the orchestrator, written over entities; no route uses it yet.
  \<^verbatim>\<open>Promotion_Simulation\<close> relates it to the service that is live.
\<close>

subsection \<open>The state of a use case\<close>

text \<open>
  The two entities in memory, which the use case mutates, beside the session. Nothing of an
  entity is in the session before a repository saves it.
\<close>

record drive =
  g_dep :: deployment
  g_bundle :: "release_bundle option"
  g_world :: world

definition emit ::
    "orchestration \<Rightarrow> string \<Rightarrow> event_type \<Rightarrow> string \<Rightarrow> string option \<Rightarrow> string option \<Rightarrow>
     drive \<Rightarrow> drive" where
  "emit x stage kind status code message s =
     s\<lparr>g_world := record_event (o_env x) (g_bundle s) (Some (g_dep s)) stage kind (Some status)
         code message (g_world s)\<rparr>"

definition status_now :: "drive \<Rightarrow> string" where
  "status_now s = ds_value (d_status (g_dep s))"

text \<open>A method of the entity called with \<open>at=utc_now()\<close>.\<close>

definition on_dep ::
    "orchestration \<Rightarrow> (time \<Rightarrow> deployment \<Rightarrow> deployment) \<Rightarrow> drive \<Rightarrow> drive" where
  "on_dep x f s =
     s\<lparr>g_dep := f (now_of (o_env x) (g_world s)) (g_dep s), g_world := tick (g_world s)\<rparr>"

definition mirror_bundle :: "bundle_status \<Rightarrow> string option \<Rightarrow> time \<Rightarrow> drive \<Rightarrow> drive" where
  "mirror_bundle status stage at s =
     (case g_bundle s of
        None \<Rightarrow> s
      | Some b \<Rightarrow> (let b1 = bundle_mirror status stage at b
                  in s\<lparr>g_bundle := Some b1, g_world := bundle_save b1 (g_world s)\<rparr>))"

definition save_dep :: "drive \<Rightarrow> drive" where
  "save_dep s = s\<lparr>g_world := dep_save (g_dep s) (g_world s)\<rparr>"

definition commit_uow :: "drive \<Rightarrow> drive" where
  "commit_uow s = s\<lparr>g_world := commit (g_world s)\<rparr>"

subsection \<open>Terminal transitions\<close>

definition uc_succeed :: "orchestration \<Rightarrow> drive \<Rightarrow> drive" where
  "uc_succeed x s =
     (let s1 = on_dep x (\<lambda>at d. snd (dep_succeed at d)) s
      in emit x (active_stage (g_dep s)) STAGE_SUCCEEDED (status_now s1) None None s1)"

definition uc_fail :: "orchestration \<Rightarrow> string \<Rightarrow> string \<Rightarrow> string \<Rightarrow> drive \<Rightarrow> drive" where
  "uc_fail x stage code message s =
     (let s1 = on_dep x (dep_fail stage code message) s
      in emit x stage STAGE_FAILED (status_now s1) (Some code) (Some message) s1)"

definition uc_cancel :: "orchestration \<Rightarrow> string \<Rightarrow> drive \<Rightarrow> drive" where
  "uc_cancel x reason s =
     (let s1 = on_dep x (dep_cancel reason) s
      in save_dep (emit x (dep_promote_stage (g_dep s1)) DEPLOYMENT_CANCELLED (status_now s1) None
           (Some reason) s1))"

definition uc_reset_for_retry :: "orchestration \<Rightarrow> drive \<Rightarrow> drive" where
  "uc_reset_for_retry x s =
     (let s1 = on_dep x (\<lambda>at d. snd (dep_reset_for_retry at d)) s
      in save_dep (emit x (dep_promote_stage (g_dep s1)) DEPLOYMENT_RETRIED (status_now s1) None
           (Some (retry_message (d_status (g_dep s)) (d_error_code (g_dep s)))) s1))"

subsection \<open>Promotion\<close>

text \<open>
  A lost claim leaves the entity in memory saying PROMOTING; the caller reads the row again.
\<close>

definition uc_claim :: "orchestration \<Rightarrow> drive \<Rightarrow> bool \<times> drive" where
  "uc_claim x s =
     (let now = now_of (o_env x) (g_world s);
          stage = fst (claim_for_promotion now (g_dep s));
          d = snd (claim_for_promotion now (g_dep s));
          won = fst (dep_claim d (tick (g_world s)));
          s1 = s\<lparr>g_dep := d, g_world := snd (dep_claim d (tick (g_world s)))\<rparr>
      in if \<not> won then (False, s1)
         else (let s2 = mirror_bundle BS_PROMOTING (Some stage) now s1
               in (True, commit_uow (emit x stage STAGE_STARTED (status_now s2) None None s2))))"

definition uc_record_promotion :: "orchestration \<Rightarrow> int \<Rightarrow> string \<Rightarrow> drive \<Rightarrow> drive" where
  "uc_record_promotion x number stage s =
     (let now = now_of (o_env x) (g_world s);
          s1 = on_dep x (record_promotion number) s;
          s2 = mirror_bundle BS_DEPLOYING (d_current_stage (g_dep s1)) now s1;
          s3 = emit x stage STAGE_SUCCEEDED (status_now s2) None None s2;
          s4 = emit x stage PROMOTION_CREATED (status_now s3) None (Some (msg_created number)) s3
      in emit x (the (d_current_stage (g_dep s4))) STAGE_STARTED (status_now s4) None None s4)"

definition uc_mark_unconfirmed :: "orchestration \<Rightarrow> string \<Rightarrow> string \<Rightarrow> string \<Rightarrow> drive \<Rightarrow> drive" where
  "uc_mark_unconfirmed x code message stage s =
     (let s1 = on_dep x (mark_promotion_unconfirmed code) s
      in emit x stage PROMOTION_UNCONFIRMED (status_now s1) (Some code) (Some message) s1)"

definition reread :: "drive \<Rightarrow> (exn + deployment option) \<times> drive" where
  "reread s = (Inr (dep_by_id (g_world s) (d_id (g_dep s))), s)"

text \<open>From the request on. Any other exception of the gateway leaves the use case as it is.\<close>

definition uc_dispatch ::
    "orchestration \<Rightarrow> string \<Rightarrow> component_row \<Rightarrow> drive \<Rightarrow> (exn + deployment option) \<times> drive" where
  "uc_dispatch x stage c s =
     (case gateway_promote x c (d_source_build_number (g_dep s)) (d_target (g_dep s)) (g_world s) of
        (Inl (UpstreamPromotionError code message confirmed), w) \<Rightarrow>
          reread (commit_uow (save_dep
            (if confirmed then uc_fail x stage code message (s\<lparr>g_world := w\<rparr>)
             else uc_mark_unconfirmed x code message stage (s\<lparr>g_world := w\<rparr>))))
      | (Inl e, w) \<Rightarrow> (Inl e, s\<lparr>g_world := w\<rparr>)
      | (Inr promotion, w) \<Rightarrow>
          reread (commit_uow (save_dep
            (uc_record_promotion x (bd_number promotion) stage (s\<lparr>g_world := w\<rparr>)))))"

definition uc_promote :: "orchestration \<Rightarrow> drive \<Rightarrow> (exn + deployment option) \<times> drive" where
  "uc_promote x s =
     (case for_deployment (g_world s) (g_dep s) of
        Inl e \<Rightarrow> (Inl e, s)
      | Inr c \<Rightarrow>
          (case uc_claim x s of
             (False, s1) \<Rightarrow> reread s1
           | (True, s1) \<Rightarrow> uc_dispatch x (dep_promote_stage (g_dep s)) c s1))"

subsection \<open>Polling\<close>

definition uc_record_poll_failure :: "orchestration \<Rightarrow> string \<Rightarrow> string \<Rightarrow> string \<Rightarrow> drive \<Rightarrow> drive" where
  "uc_record_poll_failure x code message stage s =
     (let first_occurrence = fst (record_poll_failure code message (now_of (o_env x) (g_world s)) (g_dep s));
          s1 = on_dep x (\<lambda>at d. snd (record_poll_failure code message at d)) s
      in if first_occurrence
         then emit x stage UPSTREAM_UNAVAILABLE (status_now s1) (Some code) (Some message) s1
         else s1)"

definition uc_clear_poll_failure :: "orchestration \<Rightarrow> string \<Rightarrow> drive \<Rightarrow> drive" where
  "uc_clear_poll_failure x stage s =
     (let s1 = on_dep x (\<lambda>at d. snd (clear_poll_failure at d)) s
      in case fst (clear_poll_failure (now_of (o_env x) (g_world s)) (g_dep s)) of
           None \<Rightarrow> s1
         | Some recovered_from \<Rightarrow>
             emit x stage UPSTREAM_RECOVERED (status_now s1) None (Some (msg_recovered recovered_from)) s1)"

definition NO_PROMOTION_BUILD :: string where
  "NO_PROMOTION_BUILD = ''No promotion build found for this deployment yet''"

definition uc_reconcile :: "orchestration \<Rightarrow> string \<Rightarrow> drive \<Rightarrow> (exn + unit) \<times> drive" where
  "uc_reconcile x stage s =
     (case for_deployment (g_world s) (g_dep s) of
        Inl e \<Rightarrow> (Inl e, s)
      | Inr c \<Rightarrow>
          (case gateway_find_promotion x c (d_source_build_number (g_dep s)) (d_target (g_dep s))
                  (g_world s) of
             (Inl (UpstreamUnavailable code message), w) \<Rightarrow>
               (Inr (), uc_record_poll_failure x code message stage (s\<lparr>g_world := w\<rparr>))
           | (Inl e, w) \<Rightarrow> (Inl e, s\<lparr>g_world := w\<rparr>)
           | (Inr None, w) \<Rightarrow>
               (Inr (), uc_record_poll_failure x PROMOTION_UNCONFIRMED_CODE NO_PROMOTION_BUILD stage
                  (s\<lparr>g_world := w\<rparr>))
           | (Inr (Some promotion), w) \<Rightarrow>
               (let s1 = uc_clear_poll_failure x stage (s\<lparr>g_world := w\<rparr>);
                    s2 = emit x stage PROMOTION_RECONCILED (status_now s1) None
                           (Some (msg_adopted (bd_number promotion))) s1
                in (Inr (), uc_record_promotion x (bd_number promotion) stage s2))))"

definition uc_apply_build :: "orchestration \<Rightarrow> drone_build \<Rightarrow> string \<Rightarrow> drive \<Rightarrow> drive" where
  "uc_apply_build x build stage s =
     (let s1 = uc_clear_poll_failure x stage s;
          status = lower (bd_status build);
          number = bd_number build;
          s2 = emit x stage DRONE_STATUS_CHANGED status None (Some (msg_is number status)) s1
      in if status \<in> set RUNNING_BUILD_STATUSES then on_dep x keep_deploying s2
         else if status = ''success'' then uc_succeed x s2
         else uc_fail x stage
                (if status = ''killed'' then ''DRONE_BUILD_KILLED'' else ''DRONE_BUILD_FAILED'')
                (msg_verdict number status) s2)"

definition TIMEOUT_MESSAGE :: string where
  "TIMEOUT_MESSAGE = ''Deployment exceeded the configured workflow timeout''"

text \<open>One poll. It does not commit: the caller bounds the transaction.\<close>

definition uc_refresh :: "orchestration \<Rightarrow> drive \<Rightarrow> (exn + unit) \<times> drive" where
  "uc_refresh x s =
     (if is_terminal (g_dep s) then (Inr (), s)
      else (let stage = active_stage (g_dep s);
                now = now_of (o_env x) (g_world s);
                s0 = s\<lparr>g_world := tick (g_world s)\<rparr>
            in if has_timed_out (g_dep s) now (o_timeout_seconds x)
               then (Inr (), save_dep (uc_fail x stage ''WORKFLOW_TIMEOUT'' TIMEOUT_MESSAGE s0))
               else case d_promotion_build_number (g_dep s) of
                 None \<Rightarrow>
                   (case uc_reconcile x stage s0 of
                      (Inl e, s1) \<Rightarrow> (Inl e, s1) | (Inr _, s1) \<Rightarrow> (Inr (), save_dep s1))
               | Some number \<Rightarrow>
                   (case for_deployment (g_world s0) (g_dep s0) of
                      Inl e \<Rightarrow> (Inl e, s0)
                    | Inr c \<Rightarrow>
                        (case gateway_get_build x c number (g_world s0) of
                           (Inl (UpstreamUnavailable code message), w) \<Rightarrow>
                             (Inr (), save_dep (uc_record_poll_failure x code message stage
                                (s0\<lparr>g_world := w\<rparr>)))
                         | (Inl e, w) \<Rightarrow> (Inl e, s0\<lparr>g_world := w\<rparr>)
                         | (Inr build, w) \<Rightarrow>
                             (Inr (), save_dep (uc_apply_build x build stage (s0\<lparr>g_world := w\<rparr>)))))))"

subsection \<open>Advancing a bundle\<close>

fun uc_cancel_waiting ::
    "orchestration \<Rightarrow> string \<Rightarrow> release_bundle \<Rightarrow> deployment list \<Rightarrow> world \<Rightarrow> deployment list \<times> world" where
  "uc_cancel_waiting x reason b [] w = ([], w)"
| "uc_cancel_waiting x reason b (later # steps) w =
     (let s = (if d_status later = DS_WAITING
               then uc_cancel x reason \<lparr>g_dep = later, g_bundle = Some b, g_world = w\<rparr>
               else \<lparr>g_dep = later, g_bundle = Some b, g_world = w\<rparr>);
          rest = uc_cancel_waiting x reason b steps (g_world s)
      in (g_dep s # fst rest, snd rest))"

definition uc_fail_bundle ::
    "orchestration \<Rightarrow> release_bundle \<Rightarrow> deployment \<Rightarrow> deployment list \<Rightarrow> world \<Rightarrow> release_bundle \<times> world" where
  "uc_fail_bundle x b failed steps w =
     (let cancelled = uc_cancel_waiting x (cancellation_reason failed) b steps w;
          succeeded = (\<exists>step \<in> set (fst cancelled). d_status step = DS_SUCCESS);
          w1 = snd cancelled;
          b1 = snd (bundle_fail failed succeeded (now_of (o_env x) w1) b)
      in (b1, bundle_save b1 (tick w1)))"

definition uc_finish_bundle :: "orchestration \<Rightarrow> release_bundle \<Rightarrow> world \<Rightarrow> release_bundle \<times> world" where
  "uc_finish_bundle x b w =
     (let b1 = bundle_finish_success (now_of (o_env x) w) b;
          w1 = bundle_save b1 (tick w);
          s = Some (bs_value (b_status b1));
          w2 = record_event (o_env x) (Some b1) None (ws_value COMPLETE_DEPLOYMENT) RELEASE_COMPLETED
                 s None None w1
      in (b1, record_event (o_env x) (Some b1) None (ws_value WAIT_PUBLISH_REQUEST) STAGE_STARTED
                s None None w2))"

text \<open>How a pass ends: it settled, or the bound on its rounds was reached.\<close>

datatype pass_end = Settled | GaveUp

fun uc_rounds ::
    "nat \<Rightarrow> orchestration \<Rightarrow> release_bundle \<Rightarrow> world \<Rightarrow> (exn + pass_end) \<times> release_bundle \<times> world" where
  "uc_rounds 0 x b w = (Inr GaveUp, b, w)"
| "uc_rounds (Suc n) x b w =
     (let ordered = ordered_deployments w b;
          after = (\<lambda>acted_on s.
            (let b1 = the (g_bundle s); w1 = g_world s
             in case dep_by_id w1 acted_on of
                  None \<Rightarrow> (Inr Settled, b1, w1)
                | Some d \<Rightarrow>
                    (if d_status d = DS_FAILED
                     then (Inr Settled, uc_fail_bundle x b1 d (ordered_deployments w1 b1) w1)
                     else if d_status d \<noteq> DS_SUCCESS then (Inr Settled, b1, w1)
                     else uc_rounds n x b1 w1)))
      in case next_decision ordered of
           Finish \<Rightarrow> (Inr Settled, uc_finish_bundle x b w)
         | Fail d \<Rightarrow> (Inr Settled, uc_fail_bundle x b d ordered w)
         | Wait d \<Rightarrow> (Inr Settled, b, w)
         | Refresh d \<Rightarrow>
             (case uc_refresh x \<lparr>g_dep = d, g_bundle = Some b, g_world = w\<rparr> of
                (Inl e, s) \<Rightarrow> (Inl e, the (g_bundle s), g_world s)
              | (Inr _, s) \<Rightarrow> after (d_id d) s)
         | Promote d \<Rightarrow>
             (case uc_promote x \<lparr>g_dep = d, g_bundle = Some b, g_world = w\<rparr> of
                (Inl e, s) \<Rightarrow> (Inl e, the (g_bundle s), g_world s)
              | (Inr _, s) \<Rightarrow> after (d_id d) s))"

definition uc_advance ::
    "orchestration \<Rightarrow> release_bundle \<Rightarrow> world \<Rightarrow> (exn + pass_end) \<times> release_bundle \<times> world" where
  "uc_advance x b w = uc_rounds (length (ordered_deployments w b) + 1) x b w"

end
