(* ===== verification/Promotion_Simulation.thy ===== *)
theory Promotion_Simulation
  imports Promotion_Layer Promotion_Laws
begin

section \<open>The promotion layer does what the live service does\<close>

text \<open>
  A simulation between the use cases of \<^verbatim>\<open>Promotion_Layer\<close> and the deployment service. The two
  agree up to what an observer of the tables does not depend on: how often the clock was read and
  how an error is worded. \<open>seen\<close> forgets those; \<open>flush\<close> writes the entity in memory onto its row,
  which is what relates a use case in progress to a service that has no entity.
\<close>

subsection \<open>Forgetting instants and wordings\<close>

definition stamp :: "time option \<Rightarrow> time option" where
  "stamp t = map_option (\<lambda>_. 0) t"

definition hush :: "string option \<Rightarrow> string option" where
  "hush m = map_option (\<lambda>_. []) m"

definition blank_dep :: "dep_row \<Rightarrow> dep_row" where
  "blank_dep d =
     d\<lparr>d_updated_at := 0, d_error_message := hush (d_error_message d),
       d_poll_error_message := hush (d_poll_error_message d), d_started_at := stamp (d_started_at d),
       d_failed_at := stamp (d_failed_at d), d_cancelled_at := stamp (d_cancelled_at d),
       d_finished_at := stamp (d_finished_at d)\<rparr>"

definition blank_bundle :: "bundle_row \<Rightarrow> bundle_row" where
  "blank_bundle b =
     b\<lparr>b_updated_at := 0, b_error_message := hush (b_error_message b),
       b_started_at := stamp (b_started_at b), b_failed_at := stamp (b_failed_at b),
       b_finished_at := stamp (b_finished_at b)\<rparr>"

definition blank_event :: "workflow_event \<Rightarrow> workflow_event" where
  "blank_event e = e\<lparr>e_message := hush (e_message e), e_created_at := 0\<rparr>"

definition blank_tables :: "tables \<Rightarrow> tables" where
  "blank_tables t =
     t\<lparr>t_deployments := map blank_dep (t_deployments t), t_bundles := map blank_bundle (t_bundles t),
       t_events := map blank_event (t_events t)\<rparr>"

fun blank_effect :: "effect \<Rightarrow> effect" where
  "blank_effect (Committed t) = Committed (blank_tables t)"
| "blank_effect e = e"

definition seen :: "world \<Rightarrow> world" where
  "seen w = \<lparr>w_cur = blank_tables (w_cur w), w_durable = blank_tables (w_durable w), w_ticks = 0,
     w_trace = map blank_effect (w_trace w)\<rparr>"

lemma hush_simps [simp]: "hush None = None" "hush (Some m) = Some []" "hush (hush n) = hush n"
  by (simp_all add: hush_def option.map_comp comp_def)

lemma stamp_simps [simp]: "stamp None = None" "stamp (Some t) = Some 0" "stamp (stamp u) = stamp u"
  by (simp_all add: stamp_def option.map_comp comp_def)

lemma stamp_or [simp]: "stamp (time_or t at) = Some 0"
  by (cases t) simp_all

lemma blank_dep_fields [simp]:
  "d_id (blank_dep d) = d_id d" "d_status (blank_dep d) = d_status d"
  "d_component (blank_dep d) = d_component d" "d_target (blank_dep d) = d_target d"
  "d_release_bundle_id (blank_dep d) = d_release_bundle_id d"
  "d_poll_error_code (blank_dep d) = d_poll_error_code d"
  "d_current_stage (blank_dep d) = d_current_stage d"
  by (simp_all add: blank_dep_def)

lemma blank_bundle_fields [simp]:
  "b_id (blank_bundle b) = b_id b" "b_target (blank_bundle b) = b_target b"
  "b_workflow_instance_id (blank_bundle b) = b_workflow_instance_id b"
  by (simp_all add: blank_bundle_def)

text \<open>A transition seen: it may as well start from the blank row, at any instant.\<close>

lemma blank_transitions:
  "blank_dep (dep_fail st code msg at d) = blank_dep (dep_fail st code [] 0 (blank_dep d))"
  "blank_dep (dep_cancel reason at d) = blank_dep (dep_cancel reason 0 (blank_dep d))"
  "blank_dep (snd (dep_succeed at d)) = blank_dep (snd (dep_succeed 0 (blank_dep d)))"
  "blank_dep (keep_deploying at d) = blank_dep (keep_deploying 0 (blank_dep d))"
  "blank_dep (record_promotion n at d) = blank_dep (record_promotion n 0 (blank_dep d))"
  "blank_dep (mark_promotion_unconfirmed code at d) = blank_dep (mark_promotion_unconfirmed code 0 (blank_dep d))"
  "blank_dep (snd (record_poll_failure code msg at d)) = blank_dep (snd (record_poll_failure code [] 0 (blank_dep d)))"
  "blank_dep (snd (clear_poll_failure at d)) = blank_dep (snd (clear_poll_failure 0 (blank_dep d)))"
  "blank_dep (snd (claim_for_promotion at d)) = blank_dep (snd (claim_for_promotion 0 (blank_dep d)))"
  "blank_dep (snd (dep_reset_for_retry at d)) = blank_dep (snd (dep_reset_for_retry 0 (blank_dep d)))"
  by (simp_all add: blank_dep_def dep_transition_defs dep_wait_stage_def dep_promote_stage_def
      split: option.split)

lemma map_upd_row_blank:
  assumes "map h T = map h U" and "\<And>r. key (h r) = key r"
    and "\<And>r r'. h r = h r' \<Longrightarrow> h (f r) = h (g r')"
  shows "map h (upd_row key k f T) = map h (upd_row key k g U)"
  using assms(1)
proof (induction T arbitrary: U)
  case (Cons r T)
  then obtain r' U' where U: "U = r' # U'" "h r = h r'" "map h T = map h U'" by (cases U) auto
  then have "key r = key r'" using assms(2) by metis
  then show ?case using Cons.IH [OF U(3)] U assms(3) by simp
qed simp

lemma find_row_blank:
  assumes "map h T = map h U" and "\<And>r. key (h r) = key r"
  shows "map_option h (find_row key k T) = map_option h (find_row key k U)"
  using assms(1)
proof (induction T arbitrary: U)
  case (Cons r T)
  then obtain r' U' where U: "U = r' # U'" "h r = h r'" "map h T = map h U'" by (cases U) auto
  then have "key r = key r'" using assms(2) by metis
  then show ?case using Cons.IH [OF U(3)] U by simp
qed simp

subsection \<open>Looking alike is kept by every primitive\<close>

abbreviation alike :: "world \<Rightarrow> world \<Rightarrow> bool" where
  "alike u w \<equiv> seen u = seen w"

lemma alike_tick [simp]: "seen (tick w) = seen w"
  by (simp add: seen_def)

lemma alike_commit: "alike u w \<Longrightarrow> alike (commit u) (commit w)"
  by (simp add: seen_def)

lemma alike_tables:
  assumes "alike u w" and "blank_tables (f (w_cur u)) = blank_tables (g (w_cur w))"
  shows "alike (set_tables f u) (set_tables g w)"
  using assms by (simp add: seen_def)

lemma alike_rows:
  assumes "alike u w"
  shows "map blank_dep (t_deployments (w_cur u)) = map blank_dep (t_deployments (w_cur w))"
    and "map blank_bundle (t_bundles (w_cur u)) = map blank_bundle (t_bundles (w_cur w))"
    and "map blank_event (t_events (w_cur u)) = map blank_event (t_events (w_cur w))"
proof -
  have b: "blank_tables (w_cur u) = blank_tables (w_cur w)"
    using assms by (simp add: seen_def)
  show "map blank_dep (t_deployments (w_cur u)) = map blank_dep (t_deployments (w_cur w))"
    using arg_cong [OF b, of t_deployments] by (simp add: blank_tables_def)
  show "map blank_bundle (t_bundles (w_cur u)) = map blank_bundle (t_bundles (w_cur w))"
    using arg_cong [OF b, of t_bundles] by (simp add: blank_tables_def)
  show "map blank_event (t_events (w_cur u)) = map blank_event (t_events (w_cur w))"
    using arg_cong [OF b, of t_events] by (simp add: blank_tables_def)
qed

text \<open>The tables in which only one kind of row is replaced.\<close>

lemma blank_tables_update:
  assumes "blank_tables T = blank_tables U"
  shows "map blank_dep ds = map blank_dep es \<Longrightarrow>
      blank_tables (T\<lparr>t_deployments := ds\<rparr>) = blank_tables (U\<lparr>t_deployments := es\<rparr>)"
    and "map blank_bundle bs = map blank_bundle cs \<Longrightarrow>
      blank_tables (T\<lparr>t_bundles := bs\<rparr>) = blank_tables (U\<lparr>t_bundles := cs\<rparr>)"
    and "map blank_event es' = map blank_event fs \<Longrightarrow>
      blank_tables (T\<lparr>t_events := es'\<rparr>) = blank_tables (U\<lparr>t_events := fs\<rparr>)"
  using assms by (cases T; cases U; simp add: blank_tables_def)+

lemma alike_cur: "alike u w \<Longrightarrow> blank_tables (w_cur u) = blank_tables (w_cur w)"
  by (simp add: seen_def)

lemma alike_upd_dep:
  assumes "alike u w" and "\<And>r r'. blank_dep r = blank_dep r' \<Longrightarrow> blank_dep (f r) = blank_dep (g r')"
  shows "alike (upd_dep i f u) (upd_dep i g w)"
  unfolding upd_dep_def
  by (rule alike_tables [OF assms(1)], rule blank_tables_update(1) [OF alike_cur [OF assms(1)]],
      rule map_upd_row_blank [OF alike_rows(1) [OF assms(1)]]) (simp, rule assms(2))

lemma alike_upd_bundle:
  assumes "alike u w"
    and "\<And>r r'. blank_bundle r = blank_bundle r' \<Longrightarrow> blank_bundle (f r) = blank_bundle (g r')"
  shows "alike (upd_bundle i f u) (upd_bundle i g w)"
  unfolding upd_bundle_def
  by (rule alike_tables [OF assms(1)], rule blank_tables_update(2) [OF alike_cur [OF assms(1)]],
      rule map_upd_row_blank [OF alike_rows(2) [OF assms(1)]]) (simp, rule assms(2))

lemma alike_find:
  assumes "alike u w"
  shows "map_option blank_dep (find_dep u i) = map_option blank_dep (find_dep w i)"
    and "map_option blank_bundle (find_bundle u i) = map_option blank_bundle (find_bundle w i)"
  unfolding find_dep_def find_bundle_def
  by (rule find_row_blank [OF alike_rows(1) [OF assms]] find_row_blank [OF alike_rows(2) [OF assms]], simp)+

lemma alike_status:
  assumes "alike u w"
  shows "map_option d_status (find_dep u i) = map_option d_status (find_dep w i)"
  using arg_cong [OF alike_find(1) [OF assms, of i], of "map_option d_status"]
  by (simp add: option.map_comp comp_def)

text \<open>An event depends on the fields of its rows that nothing forgets.\<close>

lemma the_event_blank:
  assumes "alike u w" and "map_option blank_bundle rel = map_option blank_bundle rel'"
    and "map_option blank_dep dep = map_option blank_dep dep'" and "hush m = hush m'"
  shows "blank_event (the_event v u rel dep st k s c m) = blank_event (the_event v w rel' dep' st k s c m')"
proof -
  have b: "map_option b_id rel = map_option b_id rel'" "map_option b_target rel = map_option b_target rel'"
      "map_option b_workflow_instance_id rel = map_option b_workflow_instance_id rel'"
    using assms(2) by (cases rel; cases rel'; simp; metis blank_bundle_fields)+
  have d: "map_option d_id dep = map_option d_id dep'" "map_option d_component dep = map_option d_component dep'"
      "map_option d_target dep = map_option d_target dep'"
      "map_option d_release_bundle_id dep = map_option d_release_bundle_id dep'"
    using assms(3) by (cases dep; cases dep'; simp; metis blank_dep_fields)+
  have f: "map_option b_workflow_instance_id (find_bundle u i) = map_option b_workflow_instance_id (find_bundle w i)" for i
    using alike_find(2) [OF assms(1), of i]
    by (cases "find_bundle u i"; cases "find_bundle w i"; simp; metis blank_bundle_fields)
  have f': "(case find_bundle u i of None \<Rightarrow> None | Some b \<Rightarrow> b_workflow_instance_id b) =
      (case find_bundle w i of None \<Rightarrow> None | Some b \<Rightarrow> b_workflow_instance_id b)" for i
    using f [of i] by (cases "find_bundle u i"; cases "find_bundle w i"; simp)
  show ?thesis
    using b d assms(4) f'
    by (cases rel; cases rel'; cases dep; cases dep') (auto simp: the_event_def blank_event_def split: option.split)
qed

lemma alike_log:
  assumes "alike u w" and "hush m = hush m'"
  shows "alike (log v r d st k s c m u) (log v r d st k s c m' w)"
proof -
  have rel: "map_option blank_bundle (Option.bind r (find_bundle u)) = map_option blank_bundle (Option.bind r (find_bundle w))"
    using alike_find(2) [OF assms(1)] by (cases r) auto
  have dep: "map_option blank_dep (Option.bind d (find_dep u)) = map_option blank_dep (Option.bind d (find_dep w))"
    using alike_find(1) [OF assms(1)] by (cases d) auto
  have e: "blank_event (the_event v u (Option.bind r (find_bundle u)) (Option.bind d (find_dep u)) st k s c m) =
      blank_event (the_event v w (Option.bind r (find_bundle w)) (Option.bind d (find_dep w)) st k s c m')"
    by (rule the_event_blank [OF assms(1) rel dep assms(2)])
  show ?thesis
    unfolding log_def alike_tick add_event_def
    by (rule alike_tables [OF assms(1)], rule blank_tables_update(3) [OF alike_cur [OF assms(1)]])
      (simp add: alike_rows(3) [OF assms(1)] e)
qed

subsection \<open>An entity and its row\<close>

lemma upd_dep_at:
  assumes "keyed d_id (t_deployments (w_cur w))" and "find_dep w i = Some r" and "f r = g r"
  shows "upd_dep i f w = upd_dep i g w"
proof -
  have "upd_row d_id i f (t_deployments (w_cur w)) = upd_row d_id i g (t_deployments (w_cur w))"
    using assms find_row_keyed [OF assms(1)] unfolding find_dep_def upd_row_def
    by (intro map_cong refl) (metis (no_types, lifting) option.inject)
  then show ?thesis by (simp add: upd_dep_def set_tables_def)
qed

lemma upd_bundle_at:
  assumes "keyed b_id (t_bundles (w_cur w))" and "find_bundle w i = Some r" and "f r = g r"
  shows "upd_bundle i f w = upd_bundle i g w"
proof -
  have "upd_row b_id i f (t_bundles (w_cur w)) = upd_row b_id i g (t_bundles (w_cur w))"
    using assms find_row_keyed [OF assms(1)] unfolding find_bundle_def upd_row_def
    by (intro map_cong refl) (metis (no_types, lifting) option.inject)
  then show ?thesis by (simp add: upd_bundle_def set_tables_def)
qed

lemma lifecycle_transitions:
  "apply_lifecycle (dep_fail st code msg at (to_entity r)) r = dep_fail st code msg at r"
  "apply_lifecycle (dep_cancel reason at (to_entity r)) r = dep_cancel reason at r"
  "apply_lifecycle (snd (dep_succeed at (to_entity r))) r = snd (dep_succeed at r)"
  "apply_lifecycle (keep_deploying at (to_entity r)) r = keep_deploying at r"
  "apply_lifecycle (record_promotion n at (to_entity r)) r = record_promotion n at r"
  "apply_lifecycle (mark_promotion_unconfirmed code at (to_entity r)) r = mark_promotion_unconfirmed code at r"
  "apply_lifecycle (snd (record_poll_failure code msg at (to_entity r))) r = snd (record_poll_failure code msg at r)"
  "apply_lifecycle (snd (clear_poll_failure at (to_entity r))) r = snd (clear_poll_failure at r)"
  "apply_lifecycle (snd (claim_for_promotion at (to_entity r))) r = snd (claim_for_promotion at r)"
  "apply_lifecycle (snd (dep_reset_for_retry at (to_entity r))) r = snd (dep_reset_for_retry at r)"
  by (simp_all add: apply_lifecycle_def to_entity_def dep_transition_defs dep_wait_stage_def
      dep_promote_stage_def split: option.split)

lemma dep_fixed_transitions [simp]:
  "dep_fixed (dep_fail st code msg at d) = dep_fixed d" "dep_fixed (dep_cancel reason at d) = dep_fixed d"
  "dep_fixed (snd (dep_succeed at d)) = dep_fixed d" "dep_fixed (keep_deploying at d) = dep_fixed d"
  "dep_fixed (record_promotion n at d) = dep_fixed d"
  "dep_fixed (mark_promotion_unconfirmed code at d) = dep_fixed d"
  "dep_fixed (snd (record_poll_failure code msg at d)) = dep_fixed d"
  "dep_fixed (snd (clear_poll_failure at d)) = dep_fixed d"
  "dep_fixed (snd (claim_for_promotion at d)) = dep_fixed d"
  "dep_fixed (snd (dep_reset_for_retry at d)) = dep_fixed d"
  by (simp_all add: dep_fixed_def dep_identity_def dep_publish_side_def dep_transition_defs split: option.split)

lemma dep_fixed_fields:
  assumes "dep_fixed d = dep_fixed e"
  shows "d_id d = d_id e" and "d_component d = d_component e" and "d_release_bundle_id d = d_release_bundle_id e"
  using assms by (simp_all add: dep_fixed_def dep_identity_def)

text \<open>A method of the entity and an assignment to the row that look alike.\<close>

definition follows :: "(time \<Rightarrow> deployment \<Rightarrow> deployment) \<Rightarrow> (time \<Rightarrow> dep_row \<Rightarrow> dep_row) \<Rightarrow> bool" where
  "follows f g \<longleftrightarrow> (\<forall>at d. dep_fixed (f at d) = dep_fixed d) \<and>
     (\<forall>at at' r r'. blank_dep r = blank_dep r' \<longrightarrow>
        blank_dep (apply_lifecycle (f at (to_entity r)) r) = blank_dep (g at' r'))"

lemma followsI:
  assumes "\<And>at d. dep_fixed (f at d) = dep_fixed d"
    and "\<And>at r. apply_lifecycle (f at (to_entity r)) r = h at r"
    and "\<And>at r. blank_dep (h at r) = k (blank_dep r)" and "\<And>at r. blank_dep (g at r) = k (blank_dep r)"
  shows "follows f g"
  using assms by (auto simp: follows_def)

lemma follows_transitions:
  "follows (dep_fail st code msg) (dep_fail st code msg')"
  "follows (dep_cancel reason) (dep_cancel reason)"
  "follows (\<lambda>at d. snd (dep_succeed at d)) (\<lambda>at d. snd (dep_succeed at d))"
  "follows keep_deploying keep_deploying" "follows (record_promotion n) (record_promotion n)"
  "follows (mark_promotion_unconfirmed code) (mark_promotion_unconfirmed code)"
  "follows (\<lambda>at d. snd (record_poll_failure code msg at d)) (\<lambda>at d. snd (record_poll_failure code msg' at d))"
  "follows (\<lambda>at d. snd (clear_poll_failure at d)) (\<lambda>at d. snd (clear_poll_failure at d))"
  "follows (\<lambda>at d. snd (dep_reset_for_retry at d)) (\<lambda>at d. snd (dep_reset_for_retry at d))"
  by (rule followsI [OF dep_fixed_transitions(1) lifecycle_transitions(1) blank_transitions(1) blank_transitions(1)]
      followsI [OF dep_fixed_transitions(2) lifecycle_transitions(2) blank_transitions(2) blank_transitions(2)]
      followsI [OF dep_fixed_transitions(3) lifecycle_transitions(3) blank_transitions(3) blank_transitions(3)]
      followsI [OF dep_fixed_transitions(4) lifecycle_transitions(4) blank_transitions(4) blank_transitions(4)]
      followsI [OF dep_fixed_transitions(5) lifecycle_transitions(5) blank_transitions(5) blank_transitions(5)]
      followsI [OF dep_fixed_transitions(6) lifecycle_transitions(6) blank_transitions(6) blank_transitions(6)]
      followsI [OF dep_fixed_transitions(7) lifecycle_transitions(7) blank_transitions(7) blank_transitions(7)]
      followsI [OF dep_fixed_transitions(8) lifecycle_transitions(8) blank_transitions(8) blank_transitions(8)]
      followsI [OF dep_fixed_transitions(10) lifecycle_transitions(10) blank_transitions(10) blank_transitions(10)])+

subsection \<open>The simulation relation\<close>

definition flush :: "drive \<Rightarrow> world" where
  "flush s = dep_save (g_dep s) (g_world s)"

text \<open>
  A use case in progress and the session of the service: the entity is row \<open>i\<close>, the bundle in
  memory is its row, and once the entity is flushed the two sessions look alike.
\<close>

definition tracks :: "string \<Rightarrow> string option \<Rightarrow> drive \<Rightarrow> world \<Rightarrow> bool" where
  "tracks i rel s u \<longleftrightarrow>
     d_id (g_dep s) = i \<and> keyed d_id (t_deployments (w_cur (g_world s))) \<and>
     keyed b_id (t_bundles (w_cur (g_world s))) \<and>
     map_option dep_fixed (dep_by_id (g_world s) i) = Some (dep_fixed (g_dep s)) \<and>
     (case g_bundle s of
        None \<Rightarrow> rel = None \<and> \<not> py_truthy (d_release_bundle_id (g_dep s))
      | Some b \<Rightarrow> rel = Some (b_id b) \<and> b_started_at b \<noteq> None \<and> bundle_by_id (g_world s) (b_id b) = Some b) \<and>
     alike (flush s) u"

lemma tracks_row:
  assumes "tracks i rel s u"
  obtains r where "find_dep (g_world s) i = Some r" "to_entity (apply_lifecycle (g_dep s) r) = g_dep s"
    "flush s = upd_dep i (apply_lifecycle (g_dep s)) (g_world s)"
    "find_dep (flush s) i = Some (apply_lifecycle (g_dep s) r)"
proof -
  have d: "d_id (g_dep s) = i" using assms by (simp add: tracks_def)
  obtain r where r: "find_dep (g_world s) i = Some r" "dep_fixed (to_entity r) = dep_fixed (g_dep s)"
    using assms by (auto simp: tracks_def dep_by_id_def)
  show thesis
    by (rule that [OF r(1)]) (use r d in \<open>simp_all add: to_entity_lifecycle flush_def dep_save_def\<close>)
qed

lemma to_entity_fields [simp]:
  "d_status (to_entity r) = d_status r" "d_component (to_entity r) = d_component r"
  "d_current_stage (to_entity r) = d_current_stage r" "d_poll_error_code (to_entity r) = d_poll_error_code r"
  "d_promotion_build_number (to_entity r) = d_promotion_build_number r"
  "d_source_build_number (to_entity r) = d_source_build_number r" "d_target (to_entity r) = d_target r"
  "d_component_id (to_entity r) = d_component_id r" "d_started_at (to_entity r) = d_started_at r"
  "d_release_bundle_id (to_entity r) = d_release_bundle_id r"
  by (simp_all add: to_entity_def)

lemma tracks_find:
  assumes "tracks i rel s u"
  obtains r where "find_dep u i = Some r" "d_status r = d_status (g_dep s)"
    "d_component r = d_component (g_dep s)" "d_current_stage r = d_current_stage (g_dep s)"
    "d_poll_error_code r = d_poll_error_code (g_dep s)"
proof -
  obtain q where q: "to_entity (apply_lifecycle (g_dep s) q) = g_dep s"
      "find_dep (flush s) i = Some (apply_lifecycle (g_dep s) q)"
    using tracks_row [OF assms] by metis
  have "alike (flush s) u" using assms by (simp add: tracks_def)
  then obtain r where r: "find_dep u i = Some r" "blank_dep r = blank_dep (apply_lifecycle (g_dep s) q)"
    using alike_find(1) [of "flush s" u i] q(2) by (cases "find_dep u i") auto
  show thesis
    by (rule that [OF r(1)]) (metis r(2) q(1) blank_dep_fields to_entity_fields)+
qed

lemma tracks_status: "tracks i rel s u \<Longrightarrow> dep_status u i = Some (status_now s)"
  by (erule tracks_find) (simp add: dep_status_def status_now_def)

lemma recorded_release_tracks:
  assumes "tracks i rel s u"
  shows "recorded_release (g_world s) (g_bundle s) (Some (g_dep s)) = rel"
  using assms
  by (auto simp: tracks_def recorded_release_def bundle_by_id_def split: option.splits)

subsection \<open>Primitives\<close>

text \<open>An event of a deployment is the same before and after a save of its entity.\<close>

lemma log_dep_save: "log v r (Some i) st k c cd m (dep_save d w) = dep_save d (log v r (Some i) st k c cd m w)"
proof (cases "find_dep w (d_id d)")
  case (Some q)
  have now: "now_of v (upd_dep j f w) = now_of v w" for j f by (simp add: now_of_def upd_dep_def)
  have fb: "find_bundle (upd_dep j f w) = find_bundle w" for j f by (rule ext) simp
  have fields: "d_component (apply_lifecycle d q) = d_component q" "d_target (apply_lifecycle d q) = d_target q"
      "d_release_bundle_id (apply_lifecycle d q) = d_release_bundle_id q"
    by (simp_all add: apply_lifecycle_def)
  have e: "the_event v (upd_dep (d_id d) (apply_lifecycle d) w) rel (find_dep (upd_dep (d_id d) (apply_lifecycle d) w) i)
      st k c cd m = the_event v w rel (find_dep w i) st k c cd m" for rel
    unfolding the_event_def now fb by (cases "i = d_id d"; cases rel) (simp_all add: Some fields)
  show ?thesis
    unfolding dep_save_def Some find_frame option.case log_def fb bind.bind_lunit e
    by (simp add: add_event_def upd_dep_def set_tables_def tick_def)
qed (simp add: dep_save_def)

lemma dep_save_upd_bundle: "dep_save d (upd_bundle j g w) = upd_bundle j g (dep_save d w)"
  by (simp add: dep_save_def upd_dep_def upd_bundle_def set_tables_def find_dep_def split: option.split)

lemma dep_save_tick: "dep_save d (tick w) = tick (dep_save d w)"
  by (cases "find_dep w (d_id d)")
    (simp_all add: dep_save_def, simp add: upd_dep_def set_tables_def tick_def)

lemma bundles_frame [simp]:
  "t_bundles (w_cur (log v r dd st k ss cd ms w)) = t_bundles (w_cur w)"
  "t_bundles (w_cur (upd_dep i f w)) = t_bundles (w_cur w)"
  by (simp_all add: log_def add_event_def upd_dep_def)

lemma tracks_emit:
  assumes "tracks i rel s u" and "hush m = hush m'"
  shows "tracks i rel (emit x st k c cd m s) (log (o_env x) rel (Some i) st k (Some c) cd m' u)"
proof -
  have i: "d_id (g_dep s) = i" using assms(1) by (simp add: tracks_def)
  have g: "g_world (emit x st k c cd m s) = log (o_env x) rel (Some i) st k (Some c) cd m (g_world s)"
    by (simp add: emit_def record_event_def recorded_release_tracks [OF assms(1)] i)
  have f: "flush (emit x st k c cd m s) = log (o_env x) rel (Some i) st k (Some c) cd m (flush s)"
    by (simp add: flush_def g log_dep_save) (simp add: emit_def)
  have "alike (flush s) u" using assms(1) by (simp add: tracks_def)
  then have "alike (flush (emit x st k c cd m s)) (log (o_env x) rel (Some i) st k (Some c) cd m' u)"
    unfolding f by (rule alike_log) (rule assms(2))
  moreover have "g_dep (emit x st k c cd m s) = g_dep s" "g_bundle (emit x st k c cd m s) = g_bundle s"
    by (simp_all add: emit_def)
  ultimately show ?thesis
    using assms(1) by (auto simp: tracks_def g dep_by_id_def bundle_by_id_def split: option.splits)
qed

lemma tracks_on_dep:
  assumes "tracks i rel s u" and "follows f g"
  shows "tracks i rel (on_dep x f s) (upd_dep i (g at) (tick u))"
proof -
  define now where "now = now_of (o_env x) (g_world s)"
  obtain r where r: "find_dep (g_world s) i = Some r" "to_entity (apply_lifecycle (g_dep s) r) = g_dep s"
      "flush s = upd_dep i (apply_lifecycle (g_dep s)) (g_world s)"
    using tracks_row [OF assms(1)] by metis
  have fx: "dep_fixed (f now (g_dep s)) = dep_fixed (g_dep s)" using assms(2) by (simp add: follows_def)
  have ids: "d_id (g_dep s) = i" "d_id (f now (g_dep s)) = i"
    using assms(1) dep_fixed_fields(1) [OF fx] by (simp_all add: tracks_def)
  have k: "keyed d_id (t_deployments (w_cur (tick (g_world s))))" "find_dep (tick (g_world s)) i = Some r"
    using assms(1) r(1) by (simp_all add: tracks_def)
  have "flush (on_dep x f s) = upd_dep i (apply_lifecycle (f now (g_dep s))) (tick (g_world s))"
    by (simp add: flush_def on_dep_def dep_save_def ids r(1) now_def [symmetric])
  also have "\<dots> = upd_dep i ((\<lambda>q. apply_lifecycle (f now (to_entity q)) q) \<circ> apply_lifecycle (g_dep s)) (tick (g_world s))"
    by (rule upd_dep_at [OF k]) (simp add: r(2))
  also have "\<dots> = upd_dep i (\<lambda>q. apply_lifecycle (f now (to_entity q)) q) (tick (flush s))"
    by (simp add: r(3) upd_dep_twice [symmetric]) (simp add: upd_dep_def set_tables_def tick_def)
  finally have fl: "flush (on_dep x f s) = upd_dep i (\<lambda>q. apply_lifecycle (f now (to_entity q)) q) (tick (flush s))" .
  have "alike (tick (flush s)) (tick u)" using assms(1) by (simp add: tracks_def)
  then have "alike (flush (on_dep x f s)) (upd_dep i (g at) (tick u))"
    unfolding fl using assms(2) by (intro alike_upd_dep) (auto simp: follows_def)
  then show ?thesis
    using assms(1) fx ids dep_fixed_fields(3) [OF fx]
    by (auto simp: tracks_def on_dep_def now_def [symmetric] dep_by_id_def bundle_by_id_def split: option.splits)
qed

lemma tracks_tick: "tracks i rel s u \<Longrightarrow> tracks i rel s (tick u)"
  by (simp add: tracks_def)

lemma tracks_save: "tracks i rel s u \<Longrightarrow> alike (g_world (save_dep s)) u"
  by (simp add: tracks_def save_dep_def flush_def)

text \<open>A release that has started follows its step the same way in both.\<close>

lemma bundle_save_at:
  assumes "keyed b_id (t_bundles (w_cur w))" and "bundle_by_id w (b_id b) = Some b"
    and "\<And>r. bundle_to_entity r = b \<Longrightarrow> apply_bundle_lifecycle b' r = f r" and "b_id b' = b_id b"
  shows "bundle_save b' w = upd_bundle (b_id b) f w"
proof -
  obtain r where r: "find_bundle w (b_id b) = Some r" "bundle_to_entity r = b"
    using assms(2) by (auto simp: bundle_by_id_def)
  show ?thesis
    by (simp add: bundle_save_def assms(4) r(1)) (rule upd_bundle_at [where r = r], simp_all add: assms r)
qed

lemma mirrored_row:
  "bundle_to_entity r = b \<Longrightarrow> apply_bundle_lifecycle (bundle_mirror st stage at b) r = bundle_mirror st stage at r"
  by (auto simp: apply_bundle_lifecycle_def bundle_mirror_def bundle_to_entity_def)

lemma deploying_mirrors:
  "b_started_at b \<noteq> None \<Longrightarrow> bundle_mirror BS_DEPLOYING stage at b = bundle_deploying stage at b"
  by (auto simp: bundle_mirror_def bundle_deploying_def)

lemma bundle_mirror_fixed [simp]:
  "b_id (bundle_mirror st stage at b) = b_id b" "bundle_fixed (bundle_mirror st stage at b) = bundle_fixed b"
  "b_started_at (bundle_mirror st stage at b) = time_or (b_started_at b) at"
  by (simp_all add: bundle_mirror_def bundle_fixed_def)

lemma blank_deploying: "blank_bundle (bundle_deploying stage at r) = bundle_deploying stage 0 (blank_bundle r)"
  by (simp add: bundle_deploying_def blank_bundle_def)

lemma tracks_mirror:
  assumes "tracks i rel s u"
  shows "tracks i rel (mirror_bundle BS_DEPLOYING stage at s) (upd_release rel (bundle_deploying stage at') u)"
proof (cases "g_bundle s")
  case None
  then show ?thesis using assms by (auto simp: mirror_bundle_def tracks_def upd_release_def)
next
  case (Some b)
  define b' where "b' = bundle_mirror BS_DEPLOYING stage at b"
  have b: "rel = Some (b_id b)" "b_started_at b \<noteq> None" "bundle_by_id (g_world s) (b_id b) = Some b"
      "keyed b_id (t_bundles (w_cur (g_world s)))" "alike (flush s) u"
    using assms by (simp_all add: tracks_def Some)
  have row: "apply_bundle_lifecycle b' r = bundle_deploying stage at r" if "bundle_to_entity r = b" for r
    using mirrored_row [OF that] b(2) that deploying_mirrors [of r] unfolding b'_def
    by (auto simp: bundle_to_entity_def)
  have w: "bundle_save b' (g_world s) = upd_bundle (b_id b) (bundle_deploying stage at) (g_world s)"
    by (rule bundle_save_at [OF b(4) b(3) row]) (simp_all add: b'_def)
  have f: "flush (mirror_bundle BS_DEPLOYING stage at s) = upd_bundle (b_id b) (bundle_deploying stage at) (flush s)"
    by (simp add: mirror_bundle_def Some Let_def b'_def [symmetric] flush_def w dep_save_upd_bundle)
  have k: "keyed b_id (t_bundles (w_cur (upd_bundle (b_id b) (bundle_deploying stage at) (g_world s))))"
    using b(4) by (simp add: upd_bundle_def bundle_deploying_def)
  have e: "bundle_by_id (bundle_save b' (g_world s)) (b_id b) = Some b'"
    using bundles.save_found [of "g_world s" b' b] b(3) by (simp add: b'_def)
  have b': "b_id b' = b_id b" "b_started_at b' \<noteq> None"
    by (simp_all add: b'_def)
  have "alike (flush (mirror_bundle BS_DEPLOYING stage at s)) (upd_bundle (b_id b) (bundle_deploying stage at') u)"
    unfolding f by (rule alike_upd_bundle [OF b(5)]) (simp add: blank_deploying)
  then show ?thesis
    using assms k e b(1,2) b'
    by (auto simp: tracks_def mirror_bundle_def Some Let_def b'_def [symmetric] w upd_release_def dep_by_id_def)
qed

subsection \<open>Operations\<close>

lemma tracks_fail:
  assumes "tracks i rel s u"
  shows "tracks i rel (uc_fail x st code m s) (svc_fail (o_env x) i st code m' rel u)"
proof -
  note t1 = tracks_on_dep [OF assms follows_transitions(1) [of st code m m'], of x "now_of (o_env x) u"]
  show ?thesis
    unfolding uc_fail_def svc_fail_def Let_def tracks_status [OF t1] by (rule tracks_emit [OF t1]) simp
qed

lemma tracks_succeed:
  assumes "tracks i rel s u"
  shows "tracks i rel (uc_succeed x s) (svc_succeed (o_env x) i rel u)"
proof -
  note t1 = tracks_on_dep [OF assms follows_transitions(3), of x "now_of (o_env x) u"]
  obtain r where r: "find_dep u i = Some r" "d_component r = d_component (g_dep s)"
      "d_current_stage r = d_current_stage (g_dep s)"
    using tracks_find [OF assms] by metis
  have "active_stage r = active_stage (g_dep s)"
    by (simp add: active_stage_def dep_wait_stage_def r)
  then show ?thesis
    unfolding uc_succeed_def svc_succeed_def r(1) option.case Let_def tracks_status [OF t1]
    by (simp only:) (rule tracks_emit [OF t1], simp)
qed

lemma tracks_mark_unconfirmed:
  assumes "tracks i rel s u"
  shows "tracks i rel (uc_mark_unconfirmed x code m st s) (svc_mark_unconfirmed (o_env x) i code st rel u)"
proof -
  note t1 = tracks_on_dep [OF assms follows_transitions(6), of x code "now_of (o_env x) u"]
  show ?thesis
    unfolding uc_mark_unconfirmed_def svc_mark_unconfirmed_def Let_def tracks_status [OF t1]
    by (rule tracks_emit [OF t1]) simp
qed

lemma tracks_record_promotion:
  assumes "tracks i rel s u"
  shows "tracks i rel (uc_record_promotion x n st s) (svc_record_promotion (o_env x) i n st rel u)"
proof -
  obtain r where r: "find_dep u i = Some r" "d_component r = d_component (g_dep s)"
    using tracks_find [OF assms] by metis
  define now where "now = now_of (o_env x) (g_world s)"
  define s1 where "s1 = on_dep x (record_promotion n) s"
  define s2 where "s2 = mirror_bundle BS_DEPLOYING (d_current_stage (g_dep s1)) now s1"
  define u1 where "u1 = upd_dep i (record_promotion n (now_of (o_env x) u)) (tick u)"
  define u2 where "u2 = upd_release rel (bundle_deploying (Some (dep_wait_stage r)) (now_of (o_env x) u)) u1"
  have st: "d_current_stage (g_dep s1) = Some (dep_wait_stage r)"
    by (simp add: s1_def on_dep_def record_promotion_def dep_wait_stage_def r(2))
  have g: "g_dep s2 = g_dep s1" by (simp add: s2_def mirror_bundle_def Let_def split: option.split)
  have gst: "d_current_stage (g_dep s2) = Some (dep_wait_stage r)" by (simp add: g st)
  have t2: "tracks i rel s2 u2"
    unfolding s2_def u2_def st unfolding s1_def u1_def
    by (intro tracks_mirror tracks_on_dep [OF assms] follows_transitions(5))
  have now: "g_dep (emit x a k c cd m s) = g_dep s" "status_now (emit x a k c cd m s) = status_now s" for a k c cd m s
    by (simp_all add: emit_def status_now_def)
  show ?thesis
    unfolding uc_record_promotion_def svc_record_promotion_def r(1) option.case Let_def
      now_def [symmetric] s1_def [symmetric] s2_def [symmetric] u1_def [symmetric] u2_def [symmetric]
      tracks_status [OF t2] now gst option.sel
    by (intro tracks_emit t2 refl)
qed

lemma tracks_record_poll_failure:
  assumes "tracks i rel s u"
  shows "tracks i rel (uc_record_poll_failure x code m st s) (svc_record_poll_failure (o_env x) i code st rel u)"
proof -
  obtain r where r: "find_dep u i = Some r" "d_poll_error_code r = d_poll_error_code (g_dep s)"
    using tracks_find [OF assms] by metis
  note t1 = tracks_on_dep [OF assms follows_transitions(7) [of code m POLL_FAILURE_MESSAGE], of x "now_of (o_env x) u"]
  have "fst (record_poll_failure code m at (g_dep s)) \<longleftrightarrow> d_poll_error_code r \<noteq> Some code" for at
    by (simp add: record_poll_failure_def r(2))
  then show ?thesis
    unfolding uc_record_poll_failure_def svc_record_poll_failure_def r(1) option.case Let_def tracks_status [OF t1]
    by (auto intro: t1 tracks_emit [OF t1])
qed

lemma tracks_clear_poll_failure:
  assumes "tracks i rel s u"
  shows "tracks i rel (uc_clear_poll_failure x st s) (svc_clear_poll_failure (o_env x) i st rel u)"
proof -
  obtain r where r: "find_dep u i = Some r" "d_poll_error_code r = d_poll_error_code (g_dep s)"
    using tracks_find [OF assms] by metis
  show ?thesis
  proof (cases "d_poll_error_code r")
    case None
    then have "on_dep x (\<lambda>at d. snd (clear_poll_failure at d)) s = s\<lparr>g_world := tick (g_world s)\<rparr>"
      by (simp add: on_dep_def clear_poll_failure_def r(2) [symmetric])
    moreover have "tracks i rel (s\<lparr>g_world := tick (g_world s)\<rparr>) u"
      using assms by (auto simp: tracks_def flush_def dep_save_tick dep_by_id_def bundle_by_id_def split: option.splits)
    ultimately show ?thesis
      unfolding uc_clear_poll_failure_def svc_clear_poll_failure_def Let_def r(1) None
      using None r(2) by (simp add: clear_poll_failure_def)
  next
    case (Some c)
    note t1 = tracks_on_dep [OF assms follows_transitions(8), of x "now_of (o_env x) u"]
    have "fst (clear_poll_failure at (g_dep s)) = Some c" for at
      using Some r(2) by (simp add: clear_poll_failure_def)
    then show ?thesis
      unfolding uc_clear_poll_failure_def svc_clear_poll_failure_def Let_def r(1) Some option.case tracks_status [OF t1]
      by (simp only: option.case) (rule tracks_emit [OF t1], simp)
  qed
qed

lemma tracks_if:
  "tracks i rel s u \<Longrightarrow> tracks i rel t w \<Longrightarrow> tracks i rel (if c then s else t) (if c then u else w)"
  by simp

lemma tracks_apply_build:
  assumes "tracks i rel s u" and "find_dep u i = Some r" and "d_required_promotion_stages r = None"
  shows "tracks i rel (uc_apply_build x build st s) (svc_apply_build (o_env x) i build st rel u)"
proof -
  note t1 = tracks_clear_poll_failure [OF assms(1), of x st]
  note t2 = tracks_emit [OF t1 refl, of x st DRONE_STATUS_CHANGED "lower (bd_status build)" None
      "Some (msg_is (bd_number build) (lower (bd_status build)))"]
  have v: "(\<not> promotion_verified r build) = False" by (simp add: promotion_verified_def assms(3))
  show ?thesis
    unfolding uc_apply_build_def svc_apply_build_def assms(2) option.case Let_def v if_False
    by (intro tracks_if tracks_fail [OF t2] tracks_succeed [OF t2] tracks_on_dep [OF t2 follows_transitions(4)])
qed

subsection \<open>Loading, reading, polling\<close>

text \<open>The state a use case starts in: the entities it was given are what the repositories return.\<close>

definition loaded :: "string \<Rightarrow> string option \<Rightarrow> drive \<Rightarrow> bool" where
  "loaded i rel s \<longleftrightarrow>
     dep_by_id (g_world s) i = Some (g_dep s) \<and>
     keyed d_id (t_deployments (w_cur (g_world s))) \<and> keyed b_id (t_bundles (w_cur (g_world s))) \<and>
     (case g_bundle s of
        None \<Rightarrow> rel = None \<and> \<not> py_truthy (d_release_bundle_id (g_dep s))
      | Some b \<Rightarrow> rel = Some (b_id b) \<and> b_started_at b \<noteq> None \<and> bundle_by_id (g_world s) (b_id b) = Some b)"

lemma upd_dep_same: "keyed d_id (t_deployments (w_cur w)) \<Longrightarrow> find_dep w i = Some r \<Longrightarrow> f r = r \<Longrightarrow> upd_dep i f w = w"
  by (subst upd_dep_at [where g = "\<lambda>r. r"]) (simp_all add: upd_dep_def set_tables_def upd_row_def)

lemma loaded_row:
  assumes "loaded i rel s"
  obtains r where "find_dep (g_world s) i = Some r" "g_dep s = to_entity r" "d_id r = i"
proof -
  obtain r where r: "find_dep (g_world s) i = Some r" "to_entity r = g_dep s"
    using assms by (auto simp: loaded_def dep_by_id_def)
  have "d_id (g_dep s) = i"
    using assms by (intro deployments.ident_found [of "g_world s"]) (simp add: loaded_def)
  then show thesis using that r by (metis to_entity_id)
qed

lemma loaded_tracks:
  assumes "loaded i rel s"
  shows "tracks i rel s (g_world s)"
proof -
  obtain r where r: "find_dep (g_world s) i = Some r" "g_dep s = to_entity r" "d_id r = i"
    using loaded_row [OF assms] by metis
  have "keyed d_id (t_deployments (w_cur (g_world s)))" using assms by (simp add: loaded_def)
  then have "flush s = g_world s"
    by (simp add: flush_def dep_save_def r upd_dep_same [OF _ r(1)])
  then show ?thesis
    using assms r by (auto simp: loaded_def tracks_def dep_by_id_def)
qed

lemma loaded_world:
  assumes "loaded i rel s" and "w_cur w = w_cur (g_world s)"
  shows "loaded i rel (s\<lparr>g_world := w\<rparr>)"
  using assms by (auto simp: loaded_def dep_by_id_def bundle_by_id_def find_dep_def find_bundle_def split: option.splits)

lemma entity_reads [simp]:
  "for_deployment w (to_entity r) = for_deployment w r" "is_terminal (to_entity r) = is_terminal r"
  "active_stage (to_entity r) = active_stage r" "dep_promote_stage (to_entity r) = dep_promote_stage r"
  "has_timed_out (to_entity r) now t = has_timed_out r now t"
  unfolding for_deployment_def is_terminal_def active_stage_def dep_wait_stage_def dep_promote_stage_def
    has_timed_out_def to_entity_fields to_entity_id by (rule refl)+

lemma reads_cur: "reads w w' \<Longrightarrow> w_cur w' = w_cur w"
  by (simp add: reads_def)

lemma reconcile_alike:
  assumes "loaded i rel s" and "for_deployment (g_world s) (g_dep s) = Inr c"
  shows "fst (uc_reconcile x st s) = Inr () \<and>
     tracks i rel (snd (uc_reconcile x st s)) (svc_reconcile (o_env x) i st rel (g_world s))"
proof -
  obtain r where r: "find_dep (g_world s) i = Some r" "g_dep s = to_entity r"
    using loaded_row [OF assms(1)] by metis
  have c: "for_deployment (g_world s) r = Inr c" using assms(2) r(2) by simp
  obtain y w where y: "find_promotion_build (o_env x) c (d_source_build_number r) (d_target r) (g_world s) = (y, w)"
    by force
  have "w_cur w = w_cur (g_world s)"
    using reads_cur [OF find_promotion_build_reads [of "g_world s" "o_env x" c "d_source_build_number r" "d_target r"]] y by simp
  then have l: "loaded i rel (s\<lparr>g_world := w\<rparr>)" by (rule loaded_world [OF assms(1)])
  have t: "tracks i rel (s\<lparr>g_world := w\<rparr>) w" using loaded_tracks [OF l] by simp
  show ?thesis
  proof (cases y)
    case (Inl e)
    show ?thesis
      using tracks_record_poll_failure [OF t]
      by (simp add: uc_reconcile_def svc_reconcile_def r c y Inl gateway_find_promotion_def unavailable_def)
  next
    case (Inr p)
    show ?thesis
    proof (cases p)
      case None
      show ?thesis
        using tracks_record_poll_failure [OF t]
        by (simp add: uc_reconcile_def svc_reconcile_def r c y Inr None gateway_find_promotion_def)
    next
      case (Some b)
      note t1 = tracks_clear_poll_failure [OF t, of x st]
      note t2 = tracks_emit [OF t1 refl, of x st PROMOTION_RECONCILED
          "status_now (uc_clear_poll_failure x st (s\<lparr>g_world := w\<rparr>))" None "Some (msg_adopted (bd_number b))"]
      show ?thesis
        using tracks_record_promotion [OF t2]
        by (simp add: uc_reconcile_def svc_reconcile_def r c y Inr Some gateway_find_promotion_def Let_def
            tracks_status [OF t1])
    qed
  qed
qed

lemma poll_alike:
  assumes "loaded i rel s" and "for_deployment (g_world s) (g_dep s) = Inr c"
    and "\<And>r. find_dep (g_world s) i = Some r \<Longrightarrow> d_required_promotion_stages r = None"
    and "gateway_get_build x c n (g_world s) = (y, w)"
  shows "tracks i rel
     (case y of Inl (UpstreamUnavailable code m) \<Rightarrow> uc_record_poll_failure x code m st (s\<lparr>g_world := w\<rparr>)
      | Inl e \<Rightarrow> s\<lparr>g_world := w\<rparr> | Inr build \<Rightarrow> uc_apply_build x build st (s\<lparr>g_world := w\<rparr>))
     (svc_poll (o_env x) i n st rel (g_world s)) \<and> (\<forall>e. y = Inl e \<longrightarrow> (\<exists>code m. e = UpstreamUnavailable code m))"
proof -
  obtain r where r: "find_dep (g_world s) i = Some r" "g_dep s = to_entity r"
    using loaded_row [OF assms(1)] by metis
  have c: "for_deployment (g_world s) r = Inr c" using assms(2) r(2) by simp
  obtain z where z: "get_build (o_env x) c n (g_world s) = (z, w)"
    using assms(4) by (auto simp: gateway_get_build_def split: prod.splits sum.splits)
  have cur: "w_cur w = w_cur (g_world s)"
    using reads_cur [OF get_build_reads [of "g_world s" "o_env x" c n]] z by simp
  have t: "tracks i rel (s\<lparr>g_world := w\<rparr>) w"
    using loaded_tracks [OF loaded_world [OF assms(1) cur]] by simp
  have f: "find_dep w i = Some r" using r(1) cur by (simp add: find_dep_def)
  show ?thesis
  proof (cases z)
    case (Inl e)
    then have "y = Inl (unavailable x e)" using assms(4) z by (simp add: gateway_get_build_def)
    then show ?thesis
      using tracks_record_poll_failure [OF t] by (simp add: svc_poll_def r c z Inl unavailable_def)
  next
    case (Inr b)
    then have "y = Inr b" using assms(4) z by (simp add: gateway_get_build_def)
    then show ?thesis
      using tracks_apply_build [OF t f assms(3) [OF r(1)]] by (simp add: svc_poll_def r c z Inr)
  qed
qed

lemma refresh_alike:
  assumes l: "loaded i rel s" and c: "for_deployment (g_world s) (g_dep s) = Inr c"
    and req: "\<And>r. find_dep (g_world s) i = Some r \<Longrightarrow> d_required_promotion_stages r = None"
    and timeout: "o_timeout_seconds x = v_deployment_timeout (o_env x)"
  shows "fst (uc_refresh x s) = Inr () \<and>
     alike (g_world (snd (uc_refresh x s))) (svc_refresh (o_env x) i rel (g_world s))"
proof -
  obtain r where r: "find_dep (g_world s) i = Some r" "g_dep s = to_entity r"
    using loaded_row [OF l] by metis
  define s0 where "s0 = s\<lparr>g_world := tick (g_world s)\<rparr>"
  have l0: "loaded i rel s0" unfolding s0_def by (rule loaded_world [OF l]) simp
  have d0: "g_dep s0 = to_entity r" "g_world s0 = tick (g_world s)" "find_dep (tick (g_world s)) i = Some r"
    by (simp_all add: s0_def r)
  have c0: "for_deployment (g_world s0) (g_dep s0) = Inr c" and c1: "for_deployment (tick (g_world s)) r = Inr c"
    using c r(2) by (simp_all add: s0_def)
  show ?thesis
  proof (cases "is_terminal r \<or> has_timed_out r (now_of (o_env x) (g_world s)) (o_timeout_seconds x)")
    case True
    have "tracks i rel s0 (tick (g_world s))" using loaded_tracks [OF l0] by (simp add: d0)
    then show ?thesis
      using True tracks_save [OF tracks_fail [of i rel s0 "tick (g_world s)"]]
      by (auto simp: uc_refresh_def svc_refresh_def r Let_def timeout s0_def [symmetric])
  next
    case False
    show ?thesis
    proof (cases "d_promotion_build_number r")
      case None
      obtain s1 where s1: "uc_reconcile x (active_stage r) s0 = (Inr (), s1)"
          "tracks i rel s1 (svc_reconcile (o_env x) i (active_stage r) rel (tick (g_world s)))"
        using reconcile_alike [OF l0 c0, of x "active_stage r"] by (metis d0(2) prod.collapse)
      then show ?thesis
        using False tracks_save [OF s1(2)]
        by (simp add: uc_refresh_def svc_refresh_def r Let_def timeout s0_def [symmetric] None)
    next
      case (Some n)
      obtain y w where y: "gateway_get_build x c n (tick (g_world s)) = (y, w)" by force
      have req0: "\<And>r. find_dep (g_world s0) i = Some r \<Longrightarrow> d_required_promotion_stages r = None"
        using req by (simp add: d0)
      note p = poll_alike [OF l0 c0 req0, of x n y w "active_stage r", unfolded d0(2), OF _ y]
      show ?thesis
      proof (cases y)
        case (Inl e)
        with p obtain code m where e: "e = UpstreamUnavailable code m" by blast
        then have "tracks i rel (uc_record_poll_failure x code m (active_stage r) (s0\<lparr>g_world := w\<rparr>))
            (svc_poll (o_env x) i n (active_stage r) rel (tick (g_world s)))"
          using p Inl by simp
        from tracks_save [OF this] show ?thesis
          using False
          by (simp add: uc_refresh_def svc_refresh_def r Let_def timeout s0_def [symmetric] Some d0 c1 [simplified] y Inl e)
      next
        case (Inr b)
        then have "tracks i rel (uc_apply_build x b (active_stage r) (s0\<lparr>g_world := w\<rparr>))
            (svc_poll (o_env x) i n (active_stage r) rel (tick (g_world s)))"
          using p by simp
        from tracks_save [OF this] show ?thesis
          using False
          by (simp add: uc_refresh_def svc_refresh_def r Let_def timeout s0_def [symmetric] Some d0 c1 [simplified] y Inr)
      qed
    qed
  qed
qed

end
