(* ===== verification/Promotion_Layer_Laws.thy ===== *)
theory Promotion_Layer_Laws
  imports Promotion_Simulation
begin

section \<open>Promotion and advance of the use-case layer\<close>

text \<open>
  The claim of the repository is the claim of the service; what follows it is simulated as a poll
  is.
\<close>

subsection \<open>The claim\<close>

lemma claim_updates:
  assumes "keyed d_id (t_deployments (w_cur w))" and "find_dep w (d_id d) = Some r"
  shows "fst (dep_claim d w) = is_claimable r"
    and "snd (dep_claim d w) = (if is_claimable r then upd_dep (d_id d) (claim_values d) w else w)"
proof -
  let ?t = "t_deployments (w_cur w)"
  have r: "find_row d_id (d_id d) ?t = Some r" using assms(2) by (simp add: find_dep_def)
  show "fst (dep_claim d w) = is_claimable r"
    using filter_keyed [OF assms(1), of "d_id d" "\<lambda>q. d_status q \<in> set CLAIMABLE_FOR_PROMOTION"] r
    by (simp add: dep_claim_def claim_matches_def [abs_def] is_claimable_def)
  have own: "q = r" if "q \<in> set ?t" "d_id q = d_id d" for q
    using find_row_keyed [OF assms(1) that(1)] that(2) r by simp
  have "map (\<lambda>q. if claim_matches d q then claim_values d q else q) ?t =
      (if is_claimable r then upd_row d_id (d_id d) (claim_values d) ?t else ?t)"
    using own by (auto simp: upd_row_def claim_matches_def is_claimable_def intro!: map_idI map_cong)
  then show "snd (dep_claim d w) = (if is_claimable r then upd_dep (d_id d) (claim_values d) w else w)"
    by (simp add: dep_claim_def upd_dep_def set_tables_def)
qed

lemma claim_values_claim:
  "claim_values (snd (claim_for_promotion at (to_entity r))) r = snd (claim_for_promotion at r)"
  by (simp add: claim_values_def claim_for_promotion_def Let_def dep_promote_stage_def to_entity_def
      split: option.split)

lemma to_entity_claim [simp]:
  "to_entity (snd (claim_for_promotion at r)) = snd (claim_for_promotion at (to_entity r))"
  by (simp add: claim_for_promotion_def Let_def dep_promote_stage_def to_entity_def)

lemma claim_fields [simp]:
  "fst (claim_for_promotion at d) = dep_promote_stage d" "d_id (snd (claim_for_promotion at d)) = d_id d"
  "d_release_bundle_id (snd (claim_for_promotion at d)) = d_release_bundle_id d"
  "d_component_id (snd (claim_for_promotion at d)) = d_component_id d"
  "d_source_build_number (snd (claim_for_promotion at d)) = d_source_build_number d"
  "d_target (snd (claim_for_promotion at d)) = d_target d"
  "d_requested_by (snd (claim_for_promotion at d)) = d_requested_by d"
  by (simp_all add: claim_for_promotion_def Let_def)

text \<open>The release follows the claim in both, as rows and as entities.\<close>

lemma loaded_mirror:
  assumes l: "loaded i rel s"
  shows "g_world (mirror_bundle st stage at s) = upd_release rel (bundle_mirror st stage at) (g_world s)"
    and "loaded i rel (mirror_bundle st stage at s)" and "g_dep (mirror_bundle st stage at s) = g_dep s"
proof -
  show "g_dep (mirror_bundle st stage at s) = g_dep s"
    by (simp add: mirror_bundle_def Let_def split: option.split)
  have "g_world (mirror_bundle st stage at s) = upd_release rel (bundle_mirror st stage at) (g_world s) \<and>
      loaded i rel (mirror_bundle st stage at s)"
  proof (cases "g_bundle s")
    case None
    then show ?thesis using l by (simp add: mirror_bundle_def upd_release_def loaded_def)
  next
    case (Some b)
    define b' where "b' = bundle_mirror st stage at b"
    have b': "b_id b' = b_id b" "b_started_at b' \<noteq> None" "bundle_fixed b' = bundle_fixed b"
      by (simp_all add: b'_def del: not_None_eq)
    have b: "rel = Some (b_id b)" "bundle_by_id (g_world s) (b_id b) = Some b"
        "keyed b_id (t_bundles (w_cur (g_world s)))"
      using l Some by (simp_all add: loaded_def)
    have sv: "bundle_save b' (g_world s) = upd_release rel (bundle_mirror st stage at) (g_world s)"
      unfolding b(1) upd_release_def option.case
      by (rule bundle_save_at [OF b(3,2)]) (simp_all add: b'_def mirrored_row)
    have "bundle_by_id (bundle_save b' (g_world s)) (b_id b) = Some b'"
      using bundles.save_found [of "g_world s" b' b] b(2) b' by simp
    moreover have "keyed b_id (t_bundles (w_cur (bundle_save b' (g_world s))))"
      using b(3) by (simp add: sv b(1) upd_release_def upd_bundle_def bundle_mirror_def)
    moreover have "keyed d_id (t_deployments (w_cur (bundle_save b' (g_world s))))"
        "dep_by_id (bundle_save b' (g_world s)) i = Some (g_dep s)"
      using l by (simp_all add: sv loaded_def dep_by_id_def)
    ultimately show ?thesis
      using b' b(1) sv by (simp add: mirror_bundle_def Some Let_def b'_def [symmetric] loaded_def)
  qed
  then show "g_world (mirror_bundle st stage at s) = upd_release rel (bundle_mirror st stage at) (g_world s)"
    and "loaded i rel (mirror_bundle st stage at s)" by simp_all
qed

lemma loaded_claimed:
  assumes l: "loaded i rel s" and r: "find_dep (g_world s) i = Some r"
  shows "loaded i rel (s\<lparr>g_dep := snd (claim_for_promotion now (to_entity r)),
           g_world := upd_dep i (\<lambda>d. snd (claim_for_promotion now d)) (tick (g_world s))\<rparr>)"
proof -
  have "g_dep s = to_entity r" using l r by (simp add: loaded_def dep_by_id_def)
  then show ?thesis
    using l r keeps_id_transitions(9) [unfolded keeps_id_def]
    by (auto simp: loaded_def dep_by_id_def bundle_by_id_def split: option.splits)
qed

lemma loaded_emit:
  assumes "loaded i rel s"
  shows "g_world (emit x st k c cd m s) = log (o_env x) rel (Some i) st k (Some c) cd m (g_world s)"
    and "loaded i rel (emit x st k c cd m s)" and "dep_status (g_world s) i = Some (status_now s)"
proof -
  have i: "d_id (g_dep s) = i" using loaded_tracks [OF assms] by (simp add: tracks_def)
  show g: "g_world (emit x st k c cd m s) = log (o_env x) rel (Some i) st k (Some c) cd m (g_world s)"
    by (simp add: emit_def record_event_def recorded_release_tracks [OF loaded_tracks [OF assms]] i)
  show "loaded i rel (emit x st k c cd m s)"
    using assms by (auto simp: emit_def record_event_def loaded_def dep_by_id_def bundle_by_id_def split: option.splits)
  show "dep_status (g_world s) i = Some (status_now s)"
    by (rule tracks_status [OF loaded_tracks [OF assms]])
qed

text \<open>Both claims leave the very same session, and a won claim leaves the entity loaded again.\<close>

lemma claim_same:
  assumes l: "loaded i rel s"
  shows "fst (uc_claim x s) = fst (svc_claim (o_env x) i rel (g_world s))"
    and "g_world (snd (uc_claim x s)) = snd (svc_claim (o_env x) i rel (g_world s))"
    and "fst (uc_claim x s) \<Longrightarrow> loaded i rel (snd (uc_claim x s))"
    and "g_dep (snd (uc_claim x s)) = snd (claim_for_promotion (now_of (o_env x) (g_world s)) (g_dep s))"
proof -
  define now where "now = now_of (o_env x) (g_world s)"
  obtain r where r: "find_dep (g_world s) i = Some r" "g_dep s = to_entity r" "d_id r = i"
    using loaded_row [OF l] by metis
  define d where "d = snd (claim_for_promotion now (to_entity r))"
  have k: "keyed d_id (t_deployments (w_cur (tick (g_world s))))" using l by (simp add: loaded_def)
  have f: "find_dep (tick (g_world s)) i = Some r" and i: "d_id d = i" by (simp_all add: d_def r)
  note cl = claim_updates [OF k, of d r, unfolded i, OF f]
  show "g_dep (snd (uc_claim x s)) = snd (claim_for_promotion (now_of (o_env x) (g_world s)) (g_dep s))"
    by (simp add: uc_claim_def Let_def commit_uow_def emit_def mirror_bundle_def split: option.split)
  define w1 where "w1 = upd_dep i (\<lambda>d. snd (claim_for_promotion now d)) (tick (g_world s))"
  define s1 where "s1 = s\<lparr>g_dep := d, g_world := w1\<rparr>"
  define s2 where "s2 = mirror_bundle BS_PROMOTING (Some (dep_promote_stage r)) now s1"
  define s3 where "s3 = emit x (dep_promote_stage r) STAGE_STARTED (status_now s2) None None s2"
  have l1: "loaded i rel s1"
    using loaded_claimed [OF l r(1), of now] by (simp add: s1_def w1_def d_def)
  note m = loaded_mirror [OF l1, of BS_PROMOTING "Some (dep_promote_stage r)" now, folded s2_def]
  have row: "upd_dep i (claim_values d) (tick (g_world s)) = w1"
    unfolding w1_def d_def by (rule upd_dep_at [OF k f claim_values_claim])
  have uc: "uc_claim x s = (if is_claimable r then (True, commit_uow s3) else (False, s\<lparr>g_dep := d, g_world := tick (g_world s)\<rparr>))"
    by (simp add: uc_claim_def Let_def r now_def [symmetric] d_def [symmetric] cl row s3_def s2_def s1_def)
  have st: "dep_status (g_world s2) i = Some (status_now s2)" by (rule loaded_emit(3) [OF m(2)])
  have "g_world s1 = w1" by (simp add: s1_def)
  then have svc: "svc_claim (o_env x) i rel (g_world s) =
      (if is_claimable r then (True, commit (g_world s3)) else (False, tick (g_world s)))"
    using st by (simp add: svc_claim_def Let_def r now_def [symmetric] w1_def [symmetric] m(1) s3_def loaded_emit(1) [OF m(2)])
  show "fst (uc_claim x s) = fst (svc_claim (o_env x) i rel (g_world s))"
    "g_world (snd (uc_claim x s)) = snd (svc_claim (o_env x) i rel (g_world s))"
    by (simp_all add: uc svc commit_uow_def)
  show "loaded i rel (snd (uc_claim x s))" if "fst (uc_claim x s)"
    using that loaded_world [OF loaded_emit(2) [OF m(2)], of "commit (g_world s3)"]
    by (simp add: uc commit_uow_def s3_def split: if_splits)
qed

subsection \<open>The whole promotion\<close>

text \<open>What the Drone service raises is never one of the errors the guards or the gateway make.\<close>

fun guard_error :: "exn \<Rightarrow> bool" where
  "guard_error (MCPToolError _ _) \<longleftrightarrow> True"
| "guard_error (BuildNotPromotableError _) \<longleftrightarrow> True"
| "guard_error (UpstreamPromotionError _ _ _) \<longleftrightarrow> True"
| "guard_error _ \<longleftrightarrow> False"

lemma drone_connection_errors: "drone_connection w c = Inl e \<Longrightarrow> \<not> guard_error e"
  by (auto simp: drone_connection_def resolve_default_def split: if_splits option.splits)

lemma promote_payload_errors: "promote_payload j = Inl e \<Longrightarrow> \<not> guard_error e"
  by (auto simp: promote_payload_def from_drone_def branch_value_def
      split: json.splits if_splits sum.splits option.splits)

lemma drone_classify_errors: "drone_classify r = Inl e \<Longrightarrow> \<exists>k m. e = DroneError k m"
  by (auto simp: drone_classify_def split: http_result.splits if_splits option.splits)

lemma client_promote_errors:
  assumes "client_promote_build v cl ow rp n tg w = (Inl e, w')"
  shows "\<not> guard_error e"
proof (cases "drone_classify (fst (send v (promote_rq cl ow rp n tg) w))")
  case (Inl e')
  then obtain k m where "e' = DroneError k m" using drone_classify_errors by blast
  then show ?thesis
    using assms Inl by (cases k) (auto simp: client_promote_build_def split: prod.splits)
next
  case (Inr j)
  then show ?thesis
    using assms promote_payload_errors by (auto simp: client_promote_build_def split: prod.splits)
qed

lemma drone_promote_errors: "drone_promote v c n tg w = (Inl e, w') \<Longrightarrow> \<not> guard_error e"
  by (auto simp: drone_promote_def with_client_def client_for_def drone_repo_def
      split: option.splits sum.splits if_splits dest: client_promote_errors drone_connection_errors)

lemma svc_claim_others:
  "t_ci_jobs (w_cur (snd (svc_claim v i rel w))) = t_ci_jobs (w_cur w)"
  "t_plans (w_cur (snd (svc_claim v i rel w))) = t_plans (w_cur w)"
  "t_components (w_cur (snd (svc_claim v i rel w))) = t_components (w_cur w)"
  by (cases rel; simp add: svc_claim_def Let_def upd_dep_def upd_release_def upd_bundle_def log_def add_event_def
      split: option.split)+

text \<open>
  No CI request owns the deployment, and it belongs to no release or to one that no plan was claimed
  for: then both guards of the service return early.
\<close>

definition unguarded :: "world \<Rightarrow> dep_row \<Rightarrow> bool" where
  "unguarded w d \<longleftrightarrow> owning_job w d = None \<and>
     (py_truthy (d_release_bundle_id d) \<longrightarrow> (\<forall>p \<in> set (t_plans (w_cur w)). pl_release_id p \<noteq> d_release_bundle_id d))"

lemma unguarded_dispatch:
  assumes "unguarded w d"
  shows "svc_dispatch v d c w =
     (case drone_promote v c (d_source_build_number d) (d_target d) w of
        (Inl e, w1) \<Rightarrow> (Inl e, w1) | (Inr b, w1) \<Rightarrow> (Inr (Some b), w1))"
proof -
  have "List.find (\<lambda>p. pl_release_id p = d_release_bundle_id d) (t_plans (w_cur w)) = None"
    if "py_truthy (d_release_bundle_id d)"
    using assms that by (auto simp: unguarded_def find_None_iff)
  then have "verify_planned_deployment v d c w = (Inr (), w)"
    by (simp add: verify_planned_deployment_def)
  then show ?thesis
    using assms by (simp add: svc_dispatch_def ci_dispatch_allowed_def unguarded_def)
qed

lemma unguarded_claimed:
  "unguarded w d \<Longrightarrow> unguarded (snd (svc_claim v i rel w)) (snd (claim_for_promotion at d))"
  unfolding unguarded_def owning_job_def svc_claim_others claim_fields .

text \<open>The outcome of the request, recorded in memory and saved, or recorded on the row.\<close>

lemma outcome_alike:
  assumes t: "tracks i rel s u"
  shows "alike (g_world (commit_uow (save_dep (uc_record_promotion x (bd_number b) st s))))
      (snd (svc_promote_outcome (o_env x) i st rel (Inr (Some b)) u))"
    and "e = DroneError k m \<Longrightarrow> drone_error_code k \<notin> set UNCONFIRMED_PROMOTE_ERROR_CODES \<Longrightarrow>
      alike (g_world (commit_uow (save_dep (uc_fail x st (drone_error_code k) msg s))))
        (snd (svc_promote_outcome (o_env x) i st rel (Inl e) u))"
    and "e = DroneError k m \<Longrightarrow> drone_error_code k \<in> set UNCONFIRMED_PROMOTE_ERROR_CODES \<Longrightarrow>
      alike (g_world (commit_uow (save_dep (uc_mark_unconfirmed x (drone_error_code k) msg st s))))
        (snd (svc_promote_outcome (o_env x) i st rel (Inl e) u))"
  using tracks_save [OF tracks_record_promotion [OF t]] tracks_save [OF tracks_fail [OF t]]
    tracks_save [OF tracks_mark_unconfirmed [OF t]]
  by (auto simp: svc_promote_outcome_def commit_uow_def intro: alike_commit)

text \<open>From the request on, in the state a won claim leaves.\<close>

lemma dispatch_alike:
  assumes l: "loaded i rel s" and d: "find_dep (g_world s) i = Some d" and ung: "unguarded (g_world s) d"
    and disp: "svc_dispatch (o_env x) d c (g_world s) = (y, w)"
  shows "map_sum id (\<lambda>_. ()) (fst (uc_dispatch x st c s)) = fst (svc_promote_outcome (o_env x) i st rel y w) \<and>
     alike (g_world (snd (uc_dispatch x st c s))) (snd (svc_promote_outcome (o_env x) i st rel y w))"
proof -
  have g: "g_dep s = to_entity d" using l d by (simp add: loaded_def dep_by_id_def)
  obtain z where z: "drone_promote (o_env x) c (d_source_build_number d) (d_target d) (g_world s) = (z, w)"
      "y = map_sum id Some z"
    using disp unfolding unguarded_dispatch [OF ung] by (auto split: prod.splits sum.splits)
  have "w_cur w = w_cur (g_world s)"
    using drone_promote_once [of "g_world s" "o_env x" c "d_source_build_number d" "d_target d"] z(1)
    by (auto simp: sends_once_def)
  then have t: "tracks i rel (s\<lparr>g_world := w\<rparr>) w" using loaded_tracks [OF loaded_world [OF l]] by simp
  show ?thesis
  proof (cases z)
    case (Inr b)
    show ?thesis
      using outcome_alike(1) [OF t, of x b st]
      by (simp add: uc_dispatch_def reread_def g z Inr gateway_promote_def Let_def) (simp add: svc_promote_outcome_def)
  next
    case (Inl e)
    have e: "\<not> guard_error e" using drone_promote_errors z(1) Inl by metis
    show ?thesis
    proof (cases "\<exists>k m. e = DroneError k m")
      case True
      then obtain k m where k: "e = DroneError k m" by blast
      show ?thesis
        using outcome_alike(2,3) [OF t k, where x = x and st = st and msg = "o_str x e"]
        by (cases "drone_error_code k \<in> set UNCONFIRMED_PROMOTE_ERROR_CODES")
          (simp_all add: uc_dispatch_def reread_def g z Inl gateway_promote_def k Let_def, simp_all add: svc_promote_outcome_def)
    next
      case False
      then have "svc_promote_outcome (o_env x) i st rel (Inl e) w = (Inl e, w)"
        using e by (cases e) (simp_all add: svc_promote_outcome_def)
      moreover have "uc_dispatch x st c s = (Inl e, s\<lparr>g_world := w\<rparr>)"
        using False e by (cases e) (simp_all add: uc_dispatch_def reread_def g z Inl gateway_promote_def)
      ultimately show ?thesis by (simp add: z Inl)
    qed
  qed
qed

lemma promote_alike:
  assumes l: "loaded i rel s" and ung: "\<And>r. find_dep (g_world s) i = Some r \<Longrightarrow> unguarded (g_world s) r"
  shows "map_sum id (\<lambda>_. ()) (fst (uc_promote x s)) = fst (svc_promote (o_env x) i rel (g_world s)) \<and>
     alike (g_world (snd (uc_promote x s))) (snd (svc_promote (o_env x) i rel (g_world s)))"
proof -
  obtain r where r: "find_dep (g_world s) i = Some r" "g_dep s = to_entity r" "d_id r = i"
    using loaded_row [OF l] by metis
  show ?thesis
  proof (cases "for_deployment (g_world s) r")
    case (Inl e)
    then show ?thesis by (simp add: uc_promote_def svc_promote_def r)
  next
    case (Inr c)
    obtain won s1 where uc: "uc_claim x s = (won, s1)" by force
    note same = claim_same [OF l, of x, unfolded uc fst_conv snd_conv]
    have svc: "svc_claim (o_env x) i rel (g_world s) = (won, g_world s1)"
      using same(1,2) by (simp add: prod_eq_iff)
    show ?thesis
    proof (cases won)
      case False
      then show ?thesis using uc svc by (simp add: uc_promote_def reread_def svc_promote_def r Inr Let_def)
    next
      case True
      define d where "d = snd (claim_for_promotion (now_of (o_env x) (g_world s)) r)"
      have svc: "svc_claim (o_env x) i rel (g_world s) = (True, g_world s1)" using svc True by simp
      have d: "find_dep (g_world s1) i = Some d"
        by (rule svc_claim_True [OF svc]) (simp add: d_def r(1))
      have l1: "loaded i rel s1" and uc: "uc_claim x s = (True, s1)" using same(3) uc True by simp_all
      have "unguarded (g_world s1) d"
        using unguarded_claimed [OF ung [OF r(1)], of "o_env x" i rel] svc by (simp add: d_def)
      moreover obtain y w where y: "svc_dispatch (o_env x) d c (g_world s1) = (y, w)" by force
      ultimately show ?thesis
        using dispatch_alike [OF l1 d _ y, of "dep_promote_stage r"] Inr
        by (simp add: uc_promote_def uc svc_promote_def r Let_def svc d y)
    qed
  qed
qed

end
