(* ===== verification/Promotion_Advance.thy ===== *)
theory Promotion_Advance
  imports Promotion_Layer_Laws
begin

section \<open>What a promotion sends, and why an advance ends\<close>

text \<open>
  The order of a promotion as its trace shows it, and the bound on the rounds of \<open>advance\<close>: each
  round that goes on has moved one step of the release to SUCCESS and none away from it.
\<close>

subsection \<open>What a use case writes before it saves\<close>

text \<open>
  Until \<open>save\<close> and \<open>commit\<close> no operation touches a deployment row, the durable tables or the
  outside world; the two entities stay the same ones.
\<close>

definition quiet :: "drive \<Rightarrow> drive \<Rightarrow> bool" where
  "quiet s s' \<longleftrightarrow> w_trace (g_world s') = w_trace (g_world s) \<and> w_durable (g_world s') = w_durable (g_world s) \<and>
     t_deployments (w_cur (g_world s')) = t_deployments (w_cur (g_world s)) \<and>
     d_id (g_dep s') = d_id (g_dep s) \<and> map_option b_id (g_bundle s') = map_option b_id (g_bundle s)"

lemma quiet_refl [simp, intro]: "quiet s s" by (simp add: quiet_def)

lemma quiet_trans: "quiet s t \<Longrightarrow> quiet t u \<Longrightarrow> quiet s u" by (simp add: quiet_def)

lemma bundle_save_quiet:
  "w_trace (bundle_save b w) = w_trace w" "w_durable (bundle_save b w) = w_durable w"
  "t_deployments (w_cur (bundle_save b w)) = t_deployments (w_cur w)"
  by (simp_all add: bundle_save_def split: option.split)

lemma quiet_emit: "quiet s t \<Longrightarrow> quiet s (emit x st k c cd m t)"
  by (simp add: quiet_def emit_def record_event_def)

lemma quiet_on_dep:
  assumes "quiet s t" and "\<And>at d. d_id (f at d) = d_id d"
  shows "quiet s (on_dep x f t)"
  using assms by (simp add: quiet_def on_dep_def)

lemma quiet_mirror: "quiet s t \<Longrightarrow> quiet s (mirror_bundle st stage at t)"
  by (auto simp: quiet_def mirror_bundle_def Let_def bundle_save_quiet split: option.split)

lemma dep_id_transitions [simp]:
  "d_id (dep_fail st code msg at d) = d_id d" "d_id (dep_cancel reason at d) = d_id d"
  "d_id (snd (dep_succeed at d)) = d_id d" "d_id (keep_deploying at d) = d_id d"
  "d_id (record_promotion n at d) = d_id d" "d_id (mark_promotion_unconfirmed code at d) = d_id d"
  "d_id (snd (record_poll_failure code msg at d)) = d_id d" "d_id (snd (clear_poll_failure at d)) = d_id d"
  by (simp_all add: dep_transition_defs split: option.split)

lemmas quiet_steps = quiet_emit quiet_mirror quiet_on_dep

lemma quiet_ops:
  assumes "quiet s t"
  shows "quiet s (uc_fail x st code m t)" and "quiet s (uc_succeed x t)"
    and "quiet s (uc_mark_unconfirmed x code m st t)" and "quiet s (uc_record_promotion x n st t)"
    and "quiet s (uc_record_poll_failure x code m st t)" and "quiet s (uc_clear_poll_failure x st t)"
  unfolding uc_fail_def uc_succeed_def uc_mark_unconfirmed_def uc_record_promotion_def
    uc_record_poll_failure_def uc_clear_poll_failure_def Let_def
  by (simp_all add: quiet_steps assms split: option.split)

lemma quiet_if: "quiet s t \<Longrightarrow> quiet s u \<Longrightarrow> quiet s (if c then t else u)" by simp

lemma quiet_apply_build: "quiet s t \<Longrightarrow> quiet s (uc_apply_build x b st t)"
  unfolding uc_apply_build_def Let_def by (simp add: quiet_ops quiet_steps)

subsection \<open>One row is written\<close>

text \<open>A poll or a promotion writes the row it is about, and moves no row between releases.\<close>

definition writes_row :: "string \<Rightarrow> world \<Rightarrow> world \<Rightarrow> bool" where
  "writes_row i w w' \<longleftrightarrow> (\<exists>f. (\<forall>r. d_id (f r) = d_id r \<and> d_release_bundle_id (f r) = d_release_bundle_id r) \<and>
     t_deployments (w_cur w') = upd_row d_id i f (t_deployments (w_cur w)))"

lemma writes_none: "t_deployments (w_cur w') = t_deployments (w_cur w) \<Longrightarrow> writes_row i w w'"
  unfolding writes_row_def by (intro exI [of _ "\<lambda>r. r"]) (simp add: upd_row_def)

lemma writes_trans:
  assumes "writes_row i u v" and "writes_row i v w"
  shows "writes_row i u w"
proof -
  obtain f g where fg: "\<forall>r. d_id (f r) = d_id r \<and> d_release_bundle_id (f r) = d_release_bundle_id r"
      "t_deployments (w_cur v) = upd_row d_id i f (t_deployments (w_cur u))"
      "\<forall>r. d_id (g r) = d_id r \<and> d_release_bundle_id (g r) = d_release_bundle_id r"
      "t_deployments (w_cur w) = upd_row d_id i g (t_deployments (w_cur v))"
    using assms by (auto simp: writes_row_def)
  then have "t_deployments (w_cur w) = upd_row d_id i (g \<circ> f) (t_deployments (w_cur u))" by simp
  then show ?thesis unfolding writes_row_def using fg by (intro exI [of _ "g \<circ> f"]) simp
qed

lemma writes_save: "writes_row (d_id d) w (dep_save d w)"
proof (cases "find_dep w (d_id d)")
  case (Some r)
  then show ?thesis
    unfolding writes_row_def dep_save_def
    by (intro exI [of _ "apply_lifecycle d"]) (simp, simp add: apply_lifecycle_def)
qed (simp add: dep_save_def writes_none)

lemma writes_claim: "writes_row (d_id d) w (snd (dep_claim d w))"
  unfolding writes_row_def dep_claim_def
  by (intro exI [of _ "\<lambda>r. if d_status r \<in> set CLAIMABLE_FOR_PROMOTION then claim_values d r else r"])
    (auto simp: upd_row_def claim_matches_def claim_values_def)

lemma writes_quiet_save:
  assumes "quiet s t" and "d_id (g_dep s) = i" and "t_deployments (w_cur (g_world s)) = t_deployments (w_cur w)"
  shows "writes_row i w (g_world (save_dep t))"
  using assms writes_save [of "g_dep t" "g_world t"] writes_trans [OF writes_none, of "g_world t" w i]
  by (simp add: quiet_def save_dep_def)

text \<open>A poll: what Drone was asked, then operations in memory, then at most the save.\<close>

lemma gateway_reads:
  "reads w (snd (gateway_find_promotion x c n tg w))" "reads w (snd (gateway_get_build x c n w))"
  using find_promotion_build_reads [of w "o_env x" c n tg] get_build_reads [of w "o_env x" c n]
  by (auto simp: gateway_find_promotion_def gateway_get_build_def split: prod.split sum.split)

definition polled :: "drive \<Rightarrow> drive \<Rightarrow> bool" where
  "polled s t \<longleftrightarrow> (\<exists>w. looks (g_world s) w \<and> quiet (s\<lparr>g_world := w\<rparr>) t)"

lemma polledI: "looks (g_world s) w \<Longrightarrow> quiet (s\<lparr>g_world := w\<rparr>) t \<Longrightarrow> polled s t"
  by (auto simp: polled_def)

lemma reconcile_polled: "polled s (snd (uc_reconcile x st s))"
proof (cases "for_deployment (g_world s) (g_dep s)")
  case (Inl e)
  then show ?thesis by (auto simp: uc_reconcile_def intro: polledI [of s "g_world s"])
next
  case (Inr c)
  obtain y w where y: "gateway_find_promotion x c (d_source_build_number (g_dep s)) (d_target (g_dep s)) (g_world s) = (y, w)"
    by force
  have "looks (g_world s) w"
    using reads_looks [OF gateway_reads(1) [of "g_world s" x c "d_source_build_number (g_dep s)" "d_target (g_dep s)"]] y by simp
  then show ?thesis
    by (intro polledI) (auto simp: uc_reconcile_def Inr y Let_def quiet_ops quiet_steps
        split: sum.split exn.split option.split)
qed

lemma polled_tick: "polled (s\<lparr>g_world := tick (g_world s)\<rparr>) t \<Longrightarrow> polled s t"
  by (auto simp: polled_def intro: looks_trans [OF looks_tick])

definition refreshed :: "drive \<Rightarrow> drive \<Rightarrow> bool" where
  "refreshed s u \<longleftrightarrow> (\<exists>t. polled s t \<and> (u = t \<or> u = save_dep t))"

lemma refreshedI: "polled s t \<Longrightarrow> refreshed s t" "polled s t \<Longrightarrow> refreshed s (save_dep t)"
  by (auto simp: refreshed_def)

lemma refresh_refreshed: "refreshed s (snd (uc_refresh x s))"
proof -
  define s0 where "s0 = s\<lparr>g_world := tick (g_world s)\<rparr>"
  have p0: "polled s t" if "polled s0 t" for t using polled_tick [of s t] that by (simp add: s0_def)
  have self: "polled s s" "polled s0 s0"
    using polledI [of s "g_world s" s] polledI [of s0 "g_world s0" s0] by simp_all
  have fail: "polled s0 (uc_fail x st code m s0)" for st code m
    by (rule polledI [of s0 "g_world s0"]) (simp_all add: quiet_ops)
  show ?thesis
  proof (cases "is_terminal (g_dep s) \<or> has_timed_out (g_dep s) (now_of (o_env x) (g_world s)) (o_timeout_seconds x)")
    case True
    then show ?thesis
      using refreshedI(1) [OF self(1)] refreshedI(2) [OF p0 [OF fail]] by (auto simp: uc_refresh_def Let_def s0_def [symmetric])
  next
    case False
    show ?thesis
    proof (cases "d_promotion_build_number (g_dep s)")
      case None
      obtain y t where y: "uc_reconcile x (active_stage (g_dep s)) s0 = (y, t)" by force
      then have "polled s0 t" using reconcile_polled [of s0 x "active_stage (g_dep s)"] by simp
      then show ?thesis
        using False None refreshedI [OF p0] by (auto simp: uc_refresh_def Let_def s0_def [symmetric] y split: sum.split)
    next
      case (Some n)
      show ?thesis
      proof (cases "for_deployment (g_world s0) (g_dep s0)")
        case (Inl e)
        then show ?thesis
          using False Some refreshedI(1) [OF p0 [OF self(2)]] by (auto simp: uc_refresh_def Let_def s0_def [symmetric])
      next
        case (Inr c)
        obtain y w where y: "gateway_get_build x c n (g_world s0) = (y, w)" by force
        have l: "looks (g_world s0) w" using reads_looks [OF gateway_reads(2) [of "g_world s0" x c n]] y by simp
        have t: "polled s t" if "quiet (s0\<lparr>g_world := w\<rparr>) t" for t by (rule p0 [OF polledI [OF l that]])
        show ?thesis
          using False Some refreshedI(1) [OF t [OF quiet_refl]]
            refreshedI(2) [OF t [OF quiet_ops(5) [OF quiet_refl]]] refreshedI(2) [OF t [OF quiet_apply_build [OF quiet_refl]]]
          by (auto simp: uc_refresh_def Let_def s0_def [symmetric] Inr y split: sum.split exn.split)
      qed
    qed
  qed
qed

lemma refresh_writes:
  "writes_row (d_id (g_dep s)) (g_world s) (g_world (snd (uc_refresh x s))) \<and>
     map_option b_id (g_bundle (snd (uc_refresh x s))) = map_option b_id (g_bundle s)"
proof -
  obtain t w where t: "looks (g_world s) w" "quiet (s\<lparr>g_world := w\<rparr>) t"
      "snd (uc_refresh x s) = t \<or> snd (uc_refresh x s) = save_dep t"
    using refresh_refreshed [of s x] by (auto simp: refreshed_def polled_def)
  have "w_cur w = w_cur (g_world s)" using t(1) by (simp add: looks_def)
  then show ?thesis
    using t(2,3) writes_quiet_save [OF t(2), of "d_id (g_dep s)" "g_world s"]
    by (auto simp: quiet_def save_dep_def intro: writes_none)
qed

subsection \<open>A promotion\<close>

lemma dep_claim_frame [simp]:
  "w_trace (snd (dep_claim d w)) = w_trace w" "w_durable (snd (dep_claim d w)) = w_durable w"
  by (simp_all add: dep_claim_def)

lemma dep_save_frame [simp]: "w_trace (dep_save d w) = w_trace w" "w_durable (dep_save d w) = w_durable w"
  by (simp_all add: dep_save_def split: option.split)

text \<open>The claim writes the row and, when it is won, commits what it wrote and nothing else.\<close>

lemma claim_writes:
  "writes_row (d_id (g_dep s)) (g_world s) (g_world (snd (uc_claim x s)))"
  "d_id (g_dep (snd (uc_claim x s))) = d_id (g_dep s)"
  "map_option b_id (g_bundle (snd (uc_claim x s))) = map_option b_id (g_bundle s)"
proof -
  define d where "d = snd (claim_for_promotion (now_of (o_env x) (g_world s)) (g_dep s))"
  define s1 where "s1 = s\<lparr>g_dep := d, g_world := snd (dep_claim d (tick (g_world s)))\<rparr>"
  have w1: "writes_row (d_id (g_dep s)) (g_world s) (g_world s1)"
    using writes_trans [OF writes_none writes_claim [of d "tick (g_world s)"], of "g_world s"]
    by (simp add: s1_def d_def)
  have ids: "d_id (g_dep s1) = d_id (g_dep s)" "g_bundle s1 = g_bundle s" by (simp_all add: s1_def d_def)
  have q: "quiet s1 (emit x st STAGE_STARTED c None None (mirror_bundle BS_PROMOTING stage at s1))" for st c stage at
    by (intro quiet_emit quiet_mirror quiet_refl)
  define s2 where "s2 = mirror_bundle BS_PROMOTING (Some (dep_promote_stage (g_dep s))) (now_of (o_env x) (g_world s)) s1"
  have "snd (uc_claim x s) = s1 \<or>
      snd (uc_claim x s) = commit_uow (emit x (dep_promote_stage (g_dep s)) STAGE_STARTED (status_now s2) None None s2)"
    by (simp add: uc_claim_def Let_def s2_def s1_def d_def)
  then have "snd (uc_claim x s) = s1 \<or> (\<exists>t. quiet s1 t \<and> snd (uc_claim x s) = commit_uow t)"
    unfolding s2_def using q by blast
  then show "writes_row (d_id (g_dep s)) (g_world s) (g_world (snd (uc_claim x s)))"
    "d_id (g_dep (snd (uc_claim x s))) = d_id (g_dep s)"
    "map_option b_id (g_bundle (snd (uc_claim x s))) = map_option b_id (g_bundle s)"
    using w1 writes_trans [OF w1 writes_none] ids by (auto simp: quiet_def commit_uow_def)
qed

text \<open>After the claim: one request, then operations in memory, then a save with its commit.\<close>

lemma gateway_promote_once: "sends_once w (snd (gateway_promote x c n tg w))"
  using drone_promote_once [of w "o_env x" c n tg]
  by (auto simp: gateway_promote_def split: prod.split sum.split exn.split)

definition recorded :: "drive \<Rightarrow> drive \<Rightarrow> bool" where
  "recorded s u \<longleftrightarrow> (\<exists>t. quiet s t \<and> u = commit_uow (save_dep t))"

lemma recordedI: "quiet s t \<Longrightarrow> recorded s (commit_uow (save_dep t))"
  by (auto simp: recorded_def)

lemma promote_shapes:
  obtains (idle) "snd (uc_promote x s) = s"
  | (lost) "uc_claim x s = (False, snd (uc_promote x s))"
  | (raised) s1 w where "uc_claim x s = (True, s1)" "sends_once (g_world s1) w" "snd (uc_promote x s) = s1\<lparr>g_world := w\<rparr>"
  | (saved) s1 w t where "uc_claim x s = (True, s1)" "sends_once (g_world s1) w" "quiet (s1\<lparr>g_world := w\<rparr>) t"
      "snd (uc_promote x s) = commit_uow (save_dep t)"
proof (cases "for_deployment (g_world s) (g_dep s)")
  case (Inl e)
  then show thesis by (intro idle) (simp add: uc_promote_def)
next
  case (Inr c)
  obtain won s1 where cl: "uc_claim x s = (won, s1)" by force
  show thesis
  proof (cases won)
    case False
    then show thesis by (intro lost) (simp add: uc_promote_def reread_def Inr cl)
  next
    case True
    then have cl: "uc_claim x s = (True, s1)" using cl by simp
    obtain y w where y: "gateway_promote x c (d_source_build_number (g_dep s1)) (d_target (g_dep s1)) (g_world s1) = (y, w)"
      by force
    have one: "sends_once (g_world s1) w"
      using gateway_promote_once [of "g_world s1" x c "d_source_build_number (g_dep s1)" "d_target (g_dep s1)"] y by simp
    have "snd (uc_promote x s) = s1\<lparr>g_world := w\<rparr> \<or> recorded (s1\<lparr>g_world := w\<rparr>) (snd (uc_promote x s))"
      using recordedI [OF quiet_ops(1) [OF quiet_refl]] recordedI [OF quiet_ops(3) [OF quiet_refl]]
        recordedI [OF quiet_ops(4) [OF quiet_refl]]
      by (simp add: uc_promote_def uc_dispatch_def reread_def Inr cl y split: sum.split exn.split)
    then show thesis using raised [OF cl one] saved [OF cl one] unfolding recorded_def by blast
  qed
qed

lemma promote_writes:
  "writes_row (d_id (g_dep s)) (g_world s) (g_world (snd (uc_promote x s))) \<and>
     map_option b_id (g_bundle (snd (uc_promote x s))) = map_option b_id (g_bundle s)"
proof (rule promote_shapes [of x s])
  assume "snd (uc_promote x s) = s"
  then show ?thesis by (simp add: writes_none)
next
  assume "uc_claim x s = (False, snd (uc_promote x s))"
  then show ?thesis using claim_writes [where s = s and x = x] by simp
next
  fix s1 w assume a: "uc_claim x s = (True, s1)" "sends_once (g_world s1) w" "snd (uc_promote x s) = s1\<lparr>g_world := w\<rparr>"
  have "w_cur w = w_cur (g_world s1)" using a(2) by (auto simp: sends_once_def)
  then show ?thesis
    using a claim_writes [where s = s and x = x] writes_trans [OF _ writes_none, of "d_id (g_dep s)" "g_world s" "g_world s1" w] by simp
next
  fix s1 w t assume a: "uc_claim x s = (True, s1)" "sends_once (g_world s1) w" "quiet (s1\<lparr>g_world := w\<rparr>) t"
    "snd (uc_promote x s) = commit_uow (save_dep t)"
  have cur: "w_cur w = w_cur (g_world s1)" using a(2) by (auto simp: sends_once_def)
  have "writes_row (d_id (g_dep s)) (g_world s1) (g_world (save_dep t))"
    using writes_quiet_save [OF a(3), of "d_id (g_dep s)" "g_world s1"] claim_writes(2) [of x s] cur a(1) by simp
  then have "writes_row (d_id (g_dep s)) (g_world s) (g_world (commit_uow (save_dep t)))"
    using claim_writes(1) [of s x] a(1) writes_trans writes_none by (simp add: commit_uow_def)
  then show ?thesis using a claim_writes(3) [of x s] by (simp add: quiet_def commit_uow_def save_dep_def)
qed

text \<open>What a promotion of a loaded deployment leaves in the trace.\<close>

lemma promote_trace:
  assumes l: "loaded i rel s"
  shows "w_trace (g_world (snd (uc_promote x s))) = w_trace (g_world s) \<or>
    (\<exists>T e posts rest. w_trace (g_world (snd (uc_promote x s))) = w_trace (g_world s) @ Committed T # posts @ rest \<and>
       find_row d_id i (t_deployments T) = Some e \<and> d_status e = DS_PROMOTING \<and>
       (posts = [] \<or> (\<exists>rq. h_method rq = POST \<and> posts = [Sent rq])) \<and> (rest = [] \<or> (\<exists>T'. rest = [Committed T'])))"
proof -
  have won: "\<exists>e. find_row d_id i (t_deployments (w_cur (g_world s1))) = Some e \<and> d_status e = DS_PROMOTING \<and>
      w_trace (g_world s1) = w_trace (g_world s) @ [Committed (w_cur (g_world s1))]"
    if "uc_claim x s = (True, s1)" for s1
  proof -
    have c: "svc_claim (o_env x) i rel (g_world s) = (True, g_world s1)"
      using claim_same(1,2) [OF l, of x] that by (simp add: prod_eq_iff)
    show ?thesis using svc_claim_status [OF c] svc_claim_trace [OF c] by (auto simp: find_dep_def)
  qed
  have sent: "\<exists>posts. w_trace w' = w_trace w @ posts \<and> (posts = [] \<or> (\<exists>rq. h_method rq = POST \<and> posts = [Sent rq]))"
    if "sends_once w w'" for w w'
    using that by (auto simp: sends_once_def)
  show ?thesis
  proof (rule promote_shapes [of x s])
    assume "uc_claim x s = (False, snd (uc_promote x s))"
    then have "svc_claim (o_env x) i rel (g_world s) = (False, g_world (snd (uc_promote x s)))"
      using claim_same(1,2) [OF l, of x] by (simp add: prod_eq_iff)
    then show ?thesis using svc_claim_False by fastforce
  next
    fix s1 w assume a: "uc_claim x s = (True, s1)" "sends_once (g_world s1) w" "snd (uc_promote x s) = s1\<lparr>g_world := w\<rparr>"
    obtain e posts where "find_row d_id i (t_deployments (w_cur (g_world s1))) = Some e" "d_status e = DS_PROMOTING"
        "w_trace w = w_trace (g_world s) @ Committed (w_cur (g_world s1)) # posts"
        "posts = [] \<or> (\<exists>rq. h_method rq = POST \<and> posts = [Sent rq])"
      using won [OF a(1)] sent [OF a(2)] by auto
    then show ?thesis using a(3) by (intro disjI2 exI [of _ "w_cur (g_world s1)"] exI [of _ e] exI [of _ posts] exI [of _ "[]"]) simp
  next
    fix s1 w t assume a: "uc_claim x s = (True, s1)" "sends_once (g_world s1) w" "quiet (s1\<lparr>g_world := w\<rparr>) t"
      "snd (uc_promote x s) = commit_uow (save_dep t)"
    obtain e posts where e: "find_row d_id i (t_deployments (w_cur (g_world s1))) = Some e" "d_status e = DS_PROMOTING"
        "w_trace w = w_trace (g_world s) @ Committed (w_cur (g_world s1)) # posts"
        "posts = [] \<or> (\<exists>rq. h_method rq = POST \<and> posts = [Sent rq])"
      using won [OF a(1)] sent [OF a(2)] by auto
    then show ?thesis
      using a(3,4) by (intro disjI2 exI [of _ "w_cur (g_world s1)"] exI [of _ e] exI [of _ posts]
          exI [of _ "[Committed (w_cur (g_world (save_dep t)))]"]) (simp add: quiet_def commit_uow_def save_dep_def)
  qed simp
qed

subsection \<open>The rounds of an advance\<close>

text \<open>The steps of a release that have not succeeded: what each round that goes on makes fewer.\<close>

definition unfinished :: "world \<Rightarrow> string \<Rightarrow> nat" where
  "unfinished w b = length (filter (\<lambda>d. d_release_bundle_id d = Some b \<and> d_status d \<noteq> DS_SUCCESS)
     (t_deployments (w_cur w)))"

lemma next_decision_member:
  "next_decision ds = Refresh d \<or> next_decision ds = Promote d \<Longrightarrow> d \<in> set ds \<and> d_status d \<noteq> DS_SUCCESS"
  by (induction ds) (auto simp: IN_FLIGHT_STATUSES_def split: if_splits)

lemma ordered_member:
  assumes "d \<in> set (ordered_deployments w b)"
  obtains r where "r \<in> set (t_deployments (w_cur w))" "d = to_entity r" "d_release_bundle_id r = Some (b_id b)"
  using assms by (auto simp: ordered_deployments_def)

lemma unfinished_le_ordered: "unfinished w (b_id b) \<le> length (ordered_deployments w b)"
proof -
  have "length (filter (\<lambda>d. d_release_bundle_id d = Some (b_id b) \<and> d_status d \<noteq> DS_SUCCESS) t) \<le>
      length (filter (\<lambda>d. d_release_bundle_id d = Some (b_id b)) t)" for t :: "dep_row list"
    by (induction t) auto
  moreover have "length (ordered_deployments w b) =
      length (filter (\<lambda>d. d_release_bundle_id d = Some (b_id b)) (t_deployments (w_cur w)))"
    by (simp add: ordered_deployments_def ordered_by_component_def)
  ultimately show ?thesis by (simp add: unfinished_def)
qed

lemma writes_keyed:
  assumes "writes_row i w w'" and "keyed d_id (t_deployments (w_cur w))"
  shows "keyed d_id (t_deployments (w_cur w'))"
  using assms by (auto simp: writes_row_def)

lemma length_filter_upd_less:
  assumes "keyed key t" and "r \<in> set t" and "P r" and "\<not> P (f r)" and "\<And>q. key (f q) = key q"
  shows "length (filter P (upd_row key (key r) f t)) < length (filter P t)"
  using assms(1,2)
proof (induction t)
  case (Cons q t)
  show ?case
  proof (cases "q = r")
    case True
    then have "upd_row key (key r) f t = t"
      using Cons.prems(1) by (intro upd_row_id) (auto simp: keyed_def find_row_None)
    then show ?thesis using True assms(3,4) by simp
  next
    case False
    then have "r \<in> set t" "key q \<noteq> key r" using Cons.prems by (auto simp: keyed_def)
    then show ?thesis using Cons by (auto simp: keyed_def)
  qed
qed simp

lemma unfinished_less:
  assumes w: "writes_row (d_id r) w w'" and k: "keyed d_id (t_deployments (w_cur w))"
    and r: "r \<in> set (t_deployments (w_cur w))" "d_release_bundle_id r = Some b" "d_status r \<noteq> DS_SUCCESS"
    and e: "dep_by_id w' (d_id r) = Some e" "d_status e = DS_SUCCESS"
  shows "unfinished w' b < unfinished w b"
proof -
  obtain f where f: "\<And>q. d_id (f q) = d_id q" "t_deployments (w_cur w') = upd_row d_id (d_id r) f (t_deployments (w_cur w))"
    using w by (auto simp: writes_row_def)
  have "find_dep w (d_id r) = Some r" using find_row_keyed [OF k r(1)] by (simp add: find_dep_def)
  then have "find_dep w' (d_id r) = Some (f r)" using f by (simp add: find_dep_def)
  then have "d_status (f r) = DS_SUCCESS" using e by (auto simp: dep_by_id_def)
  then show ?thesis
    unfolding unfinished_def f(2) using r by (intro length_filter_upd_less [OF k r(1)]) (simp_all add: f(1))
qed

text \<open>One round that acted on a step: whatever comes next, the bound is kept.\<close>

lemma rounds_settle:
  assumes "keyed d_id (t_deployments (w_cur w))" and "unfinished w (b_id b) < n"
  shows "fst (uc_rounds n x b w) \<noteq> Inr GaveUp"
  using assms
proof (induction n arbitrary: b w)
  case (Suc n)
  have goes_on: "fst (uc_rounds n x (the (g_bundle s)) (g_world s)) \<noteq> Inr GaveUp"
    if d: "next_decision (ordered_deployments w b) = Refresh d \<or> next_decision (ordered_deployments w b) = Promote d"
      and s: "writes_row (d_id d) w (g_world s)" "map_option b_id (g_bundle s) = Some (b_id b)"
      and e: "dep_by_id (g_world s) (d_id d) = Some e" "d_status e = DS_SUCCESS" for d s e
  proof -
    obtain r where r: "r \<in> set (t_deployments (w_cur w))" "d = to_entity r" "d_release_bundle_id r = Some (b_id b)"
        "d_status r \<noteq> DS_SUCCESS"
      using next_decision_member [OF d] by (auto elim: ordered_member)
    have "unfinished (g_world s) (b_id b) < unfinished w (b_id b)"
      using unfinished_less [OF _ Suc.prems(1) r(1,3,4)] s(1) e r(2) by simp
    moreover have "b_id (the (g_bundle s)) = b_id b" using s(2) by auto
    ultimately show ?thesis
      using Suc.IH [of "g_world s" "the (g_bundle s)"] writes_keyed [OF s(1) Suc.prems(1)] Suc.prems(2) by simp
  qed
  show ?case
  proof (cases "next_decision (ordered_deployments w b)")
    case (Refresh d)
    define s where "s = \<lparr>g_dep = d, g_bundle = Some b, g_world = w\<rparr>"
    obtain y t where y: "uc_refresh x s = (y, t)" by force
    have "writes_row (d_id d) w (g_world t)" "map_option b_id (g_bundle t) = Some (b_id b)"
      using refresh_writes [of s x] y by (simp_all add: s_def)
    then show ?thesis
      using goes_on [of d t] Refresh by (auto simp: s_def [symmetric] y Let_def split: sum.splits option.splits if_splits)
  next
    case (Promote d)
    define s where "s = \<lparr>g_dep = d, g_bundle = Some b, g_world = w\<rparr>"
    obtain y t where y: "uc_promote x s = (y, t)" by force
    have "writes_row (d_id d) w (g_world t)" "map_option b_id (g_bundle t) = Some (b_id b)"
      using promote_writes [of s x] y by (simp_all add: s_def)
    then show ?thesis
      using goes_on [of d t] Promote by (auto simp: s_def [symmetric] y Let_def split: sum.splits option.splits if_splits)
  qed simp_all
qed simp

end
