(* ===== verification/Promotion_Properties.thy ===== *)
theory Promotion_Properties
  imports Promotion_Advance Samples
begin

section \<open>Properties of the promotion use-case layer\<close>

text \<open>
  The layer and the live service agree on every deployment no guard covers, an advance always
  settles within its bound, and the points where the two differ.
\<close>

subsection \<open>Sample states\<close>

definition sample_orchestration :: "http_result \<Rightarrow> http_result \<Rightarrow> orchestration" where
  "sample_orchestration on_get on_post =
     \<lparr>o_env = sample_env on_get on_post, o_timeout_seconds = 3600, o_str = (\<lambda>_. ''failed''),
      o_class_name = (\<lambda>_. ''Error'')\<rparr>"

definition sample_drive :: "dep_row \<Rightarrow> drive" where
  "sample_drive d =
     \<lparr>g_dep = to_entity d, g_bundle = Some (bundle_to_entity (sample_bundle BS_PROMOTING)),
      g_world = world_with [d] [sample_bundle BS_PROMOTING]\<rparr>"

lemma sample_loaded:
  "loaded ''d1'' (Some ''b1'') (sample_drive (fresh_row backend_component ''d1'' (Some ''b1'')))"
  "loaded ''d1'' (Some ''b1'') (sample_drive (deploying_row backend_component ''d1'' (Some ''b1'')))"
  by code_simp+

text \<open>
  C16. The promotion use case does what the live service does. For a deployment that no CI request owns,
  and that belongs to no release or to one no plan was claimed for, given to both as the repositories
  return it, the two raise the same error or none, and leave the same deployments, bundles and events, committed at the same points and
  after the same requests, up to the instants read from the clock and the wording of messages.
\<close>

theorem usecase_promotes_like_service:
  assumes "loaded i rel s" and "\<And>r. find_dep (g_world s) i = Some r \<Longrightarrow> unguarded (g_world s) r"
  shows "map_sum id (\<lambda>_. ()) (fst (uc_promote x s)) = fst (svc_promote (o_env x) i rel (g_world s)) \<and>
     seen (g_world (snd (uc_promote x s))) = seen (snd (svc_promote (o_env x) i rel (g_world s)))"
  by (rule promote_alike [OF assms])

text \<open>Of a release no plan was claimed for, and on its own beside a plan that waits for its approval.\<close>

definition waiting_plan :: release_plan where
  "waiting_plan = \<lparr>pl_id = ''r1'', pl_project_id = ''p1'',
     pl_snapshot = \<lparr>ps_project_id = ''p1'', ps_target_environment = ''production'', ps_target = ''production'',
       ps_actions = [], ps_checks = [], ps_requires_approval = True, ps_executable = False, ps_blockers = []\<rparr>,
     pl_digest = ''digest'', pl_status = ''pending'', pl_created_by = ''mcp'', pl_approved_by = None,
     pl_created_at = 0, pl_expires_at = 600, pl_approved_at = None, pl_claimed_at = None, pl_release_id = None\<rparr>"

definition lone_drive :: drive where
  "lone_drive = (let d = fresh_row backend_component ''d1'' None; T = (tables_with [d] [])\<lparr>t_plans := [waiting_plan]\<rparr>
     in \<lparr>g_dep = to_entity d, g_bundle = None, g_world = \<lparr>w_cur = T, w_durable = T, w_ticks = 0, w_trace = []\<rparr>\<rparr>)"

theorem usecase_promotes_like_service_witness:
  "let s = sample_drive (fresh_row backend_component ''d1'' (Some ''b1''));
       x = sample_orchestration HttpTimeout (ok_build 9 ''pending'' ''promote'')
   in seen (g_world (snd (uc_promote x s))) = seen (snd (svc_promote (o_env x) ''d1'' (Some ''b1'') (g_world s))) \<and>
      map_option d_status (find_dep (g_world (snd (uc_promote x s))) ''d1'') = Some DS_DEPLOYING \<and>
      seen (g_world (snd (uc_promote x lone_drive))) = seen (snd (svc_promote (o_env x) ''d1'' None (g_world lone_drive)))"
proof -
  let ?s = "sample_drive (fresh_row backend_component ''d1'' (Some ''b1''))"
  let ?x = "sample_orchestration HttpTimeout (ok_build 9 ''pending'' ''promote'')"
  have "unguarded (g_world ?s) (fresh_row backend_component ''d1'' (Some ''b1''))"
       "find_dep (g_world ?s) ''d1'' = Some (fresh_row backend_component ''d1'' (Some ''b1''))" by code_simp+
  then have like: "seen (g_world (snd (uc_promote ?x ?s))) =
      seen (snd (svc_promote (o_env ?x) ''d1'' (Some ''b1'') (g_world ?s)))"
    using usecase_promotes_like_service [OF sample_loaded(1), of ?x] by simp
  have "map_option d_status (find_dep (snd (svc_promote (o_env ?x) ''d1'' (Some ''b1'') (g_world ?s))) ''d1'') =
      Some DS_DEPLOYING" by code_simp
  then have st: "map_option d_status (find_dep (g_world (snd (uc_promote ?x ?s))) ''d1'') = Some DS_DEPLOYING"
    unfolding alike_status [OF like] .
  have l: "loaded ''d1'' None lone_drive" by code_simp
  have "unguarded (g_world lone_drive) (fresh_row backend_component ''d1'' None)"
       "find_dep (g_world lone_drive) ''d1'' = Some (fresh_row backend_component ''d1'' None)" by code_simp+
  then have "seen (g_world (snd (uc_promote ?x lone_drive))) =
      seen (snd (svc_promote (o_env ?x) ''d1'' None (g_world lone_drive)))"
    using usecase_promotes_like_service [OF l, of ?x] by simp
  with like st show ?thesis unfolding Let_def by (intro conjI)
qed

text \<open>
  C17. The polling use case does what the live service does. For a deployment whose component resolves,
  with no required promotion stages and the same timeout, one poll raises nothing and leaves the
  same deployments, bundles and events after the same requests, up to instants and wording: timeout,
  reconciliation, failure and recovery of a poll, and every verdict of Drone.
\<close>

theorem usecase_polls_like_service:
  assumes "loaded i rel s" and "for_deployment (g_world s) (g_dep s) = Inr c"
    and "\<And>r. find_dep (g_world s) i = Some r \<Longrightarrow> d_required_promotion_stages r = None"
    and "o_timeout_seconds x = v_deployment_timeout (o_env x)"
  shows "fst (uc_refresh x s) = Inr () \<and>
     seen (g_world (snd (uc_refresh x s))) = seen (svc_refresh (o_env x) i rel (g_world s))"
  by (rule refresh_alike [OF assms])

theorem usecase_polls_like_service_witness:
  "let s = sample_drive (deploying_row backend_component ''d1'' (Some ''b1''));
       x = sample_orchestration (ok_build 9 ''success'' ''promote'') HttpTimeout
   in seen (g_world (snd (uc_refresh x s))) = seen (svc_refresh (o_env x) ''d1'' (Some ''b1'') (g_world s)) \<and>
      map_option d_status (find_dep (g_world (snd (uc_refresh x s))) ''d1'') = Some DS_SUCCESS"
proof -
  let ?d = "deploying_row backend_component ''d1'' (Some ''b1'')"
  let ?x = "sample_orchestration (ok_build 9 ''success'' ''promote'') HttpTimeout"
  have f: "find_dep (g_world (sample_drive ?d)) ''d1'' = Some ?d"
    and c: "for_deployment (g_world (sample_drive ?d)) (g_dep (sample_drive ?d)) = Inr backend_component"
    and q: "d_required_promotion_stages ?d = None" "o_timeout_seconds ?x = v_deployment_timeout (o_env ?x)" by code_simp+
  have like: "seen (g_world (snd (uc_refresh ?x (sample_drive ?d)))) =
      seen (svc_refresh (o_env ?x) ''d1'' (Some ''b1'') (g_world (sample_drive ?d)))"
    using usecase_polls_like_service [OF sample_loaded(2) c _ q(2)] f q(1) by simp
  have "map_option d_status (find_dep (svc_refresh (o_env ?x) ''d1'' (Some ''b1'') (g_world (sample_drive ?d))) ''d1'') =
      Some DS_SUCCESS" by code_simp
  then show ?thesis unfolding Let_def alike_status [OF like] using like by (intro conjI)
qed

text \<open>
  C18. Advancing a bundle always settles. Whatever Drone answers and whatever the rows hold, the loop of
  the use case never runs into its bound of one round more than the bundle has steps: a round that
  goes on has moved a step to SUCCESS and no other step away from it.
\<close>

theorem usecase_advance_settles:
  assumes "keyed d_id (t_deployments (w_cur w))"
  shows "fst (uc_advance x b w) \<noteq> Inr GaveUp"
  unfolding uc_advance_def using unfinished_le_ordered [of w b] by (intro rounds_settle [OF assms]) simp

theorem usecase_advance_settles_witness:
  "let w = world_with [deploying_row backend_component ''d1'' (Some ''b1''), fresh_row frontend_component ''d2'' (Some ''b1'')]
         [sample_bundle BS_DEPLOYING]
   in fst (uc_advance (sample_orchestration (ok_build 9 ''success'' ''promote'') HttpTimeout)
        (bundle_to_entity (sample_bundle BS_DEPLOYING)) w) \<noteq> Inr GaveUp"
proof -
  let ?w = "world_with [deploying_row backend_component ''d1'' (Some ''b1''), fresh_row frontend_component ''d2'' (Some ''b1'')]
    [sample_bundle BS_DEPLOYING]"
  have "keyed d_id (t_deployments (w_cur ?w))" by code_simp
  then show ?thesis using usecase_advance_settles by (simp add: Let_def)
qed

subsection \<open>Where the layer differs from the service\<close>

text \<open>A component that no longer resolves: the service records a failed poll, the use case raises.\<close>

lemma usecase_refresh_raises:
  assumes "\<not> is_terminal (g_dep s)" and "for_deployment (g_world s) (g_dep s) = Inl e"
    and "\<not> has_timed_out (g_dep s) (now_of (o_env x) (g_world s)) (o_timeout_seconds x)"
  shows "fst (uc_refresh x s) = Inl e"
  using assms by (simp add: uc_refresh_def uc_reconcile_def Let_def split: option.split)

text \<open>Required promotion stages: the service refuses a build that did not run them, the use case does not ask.\<close>

lemma usecase_ignores_required_stages:
  assumes "lower (bd_status b) = ''success''"
  shows "d_status (g_dep (uc_apply_build x b st s)) = DS_SUCCESS"
    and "find_dep w i = Some d \<Longrightarrow> \<not> promotion_verified d b \<Longrightarrow>
      map_option d_status (find_dep (svc_apply_build v i b st rel w) i) = Some DS_FAILED"
proof -
  have s: "d_status (g_dep (uc_succeed x t)) = DS_SUCCESS" for t
    by (simp add: uc_succeed_def emit_def on_dep_def dep_succeed_def Let_def)
  have "lower (bd_status b) \<notin> set RUNNING_BUILD_STATUSES" by (simp add: assms RUNNING_BUILD_STATUSES_def)
  then show "d_status (g_dep (uc_apply_build x b st s)) = DS_SUCCESS"
    and "find_dep w i = Some d \<Longrightarrow> \<not> promotion_verified d b \<Longrightarrow>
      map_option d_status (find_dep (svc_apply_build v i b st rel w) i) = Some DS_FAILED"
    using assms s
    by (simp_all add: uc_apply_build_def svc_apply_build_def Let_def svc_fail_def svc_clear_poll_failure_def
        dep_fail_def split: option.split)
qed

end
