(* ===== verification/Settling.thy ===== *)
theory Settling
  imports Samples Orchestrator_Order
begin

section \<open>Deployments come to rest\<close>

text \<open>
  Statuses are preordered by the steps a deployment may still take. Polling moves every deployment
  forward in this order, so only finitely many polls change anything: the sum of what is left bounds
  them. Only a retry, which is no poll, goes back.
\<close>

fun steps_left :: "deployment_status \<Rightarrow> nat" where
  "steps_left DS_WAITING = 3"
| "steps_left DS_PROMOTING = 2"
| "steps_left DS_DEPLOYING = 1"
| "steps_left DS_SUCCESS = 0"
| "steps_left DS_FAILED = 0"
| "steps_left DS_CANCELLED = 0"

instantiation deployment_status :: preorder
begin

definition less_eq_deployment_status :: "deployment_status \<Rightarrow> deployment_status \<Rightarrow> bool" where
  "s \<le> t \<longleftrightarrow> steps_left t \<le> steps_left s"

definition less_deployment_status :: "deployment_status \<Rightarrow> deployment_status \<Rightarrow> bool" where
  "s < t \<longleftrightarrow> steps_left t < steps_left s"

instance
  by standard (auto simp: less_eq_deployment_status_def less_deployment_status_def)

end

lemma row_step_forward: "row_step d e \<Longrightarrow> d_status e = d_status d \<or> d_status d < d_status e"
proof -
  assume r: "row_step d e"
  then have "dep_arrow (d_status d) (d_status e)" "slot_active e \<longrightarrow> slot_active d"
    using dep_step_arrow [of "entity_of d" "entity_of e"] by (auto simp: row_step_def)
  then show ?thesis
    by (cases "d_status d"; cases "d_status e")
      (simp_all add: dep_arrow_def less_deployment_status_def slot_active_def ACTIVE_PROMOTION_STATUSES_def)
qed

lemma row_steps_forward: "row_steps d e \<Longrightarrow> d_status e = d_status d \<or> d_status d < d_status e"
proof (induction rule: rtranclp_induct)
  case (step e f)
  show ?case
    using step.IH row_step_forward [OF step.hyps(2)] by (elim disjE) (simp_all add: less_deployment_status_def)
qed simp

text \<open>What the deployments of a world may still do.\<close>

definition statuses :: "world \<Rightarrow> deployment_status list" where
  "statuses w = map d_status (t_deployments (w_cur w))"

definition work_left :: "world \<Rightarrow> nat" where
  "work_left w = sum_list (map steps_left (statuses w))"

lemma work_left_bound: "work_left w \<le> 3 * length (t_deployments (w_cur w))"
proof -
  have "steps_left s \<le> 3" for s by (cases s) simp_all
  then have "sum_list (map steps_left ss) \<le> 3 * length ss" for ss by (induction ss) (simp_all add: add_mono)
  then show ?thesis by (metis length_map statuses_def work_left_def)
qed

lemma sum_list_forward:
  fixes ss ts :: "deployment_status list"
  assumes "list_all2 (\<lambda>s t. t = s \<or> s < t) ss ts"
  shows "sum_list (map steps_left ts) + (if ts = ss then 0 else 1) \<le> sum_list (map steps_left ss)"
  using assms by (induction rule: list_all2_induct) (auto simp: less_deployment_status_def split: if_splits)

lemma evolves_statuses:
  assumes "evolves w w'" and "good w"
  shows "list_all2 (\<lambda>s t. t = s \<or> s < t) (statuses w) (statuses w')"
proof -
  let ?D = "t_deployments (w_cur w)" and ?E = "t_deployments (w_cur w')"
  have ids: "map d_id ?E = map d_id ?D" using assms(1) by (simp add: evolves_def)
  have k: "keyed d_id ?D" using assms(2) by (simp add: good_def good_rows_def)
  then have k': "keyed d_id ?E" using ids by (simp add: keyed_def)
  have "d_status (?E ! n) = d_status (?D ! n) \<or> d_status (?D ! n) < d_status (?E ! n)" if n: "n < length ?D" for n
  proof -
    have len: "n < length ?E" using n ids by (metis length_map)
    have same: "d_id (?E ! n) = d_id (?D ! n)" using n len ids by (metis nth_map)
    have "find_dep w (d_id (?D ! n)) = Some (?D ! n)"
      unfolding find_dep_def by (rule find_row_keyed [OF k]) (simp add: n)
    moreover have "find_dep w' (d_id (?D ! n)) = Some (?E ! n)"
      unfolding find_dep_def same [symmetric] by (rule find_row_keyed [OF k']) (simp add: len)
    ultimately have "row_steps (?D ! n) (?E ! n)" using assms(1) by (force simp: evolves_def)
    then show ?thesis by (rule row_steps_forward)
  qed
  moreover have "length ?E = length ?D" using ids by (metis length_map)
  ultimately show ?thesis by (auto simp: statuses_def list_all2_conv_all_nth)
qed

text \<open>How many polls of a sequence changed the status of some deployment.\<close>

fun changing_polls :: "env \<Rightarrow> poll list \<Rightarrow> world \<Rightarrow> nat" where
  "changing_polls v [] w = 0"
| "changing_polls v (p # ps) w =
     (if statuses (poll_once v p w) = statuses w then 0 else 1) + changing_polls v ps (poll_once v p w)"

lemma poll_once_work:
  assumes "good w" and "clean w"
  shows "work_left (poll_once v p w) + (if statuses (poll_once v p w) = statuses w then 0 else 1) \<le> work_left w"
proof -
  have s: "in_session (evolves w) w" by (rule origin.session_sync [OF evolves_refl assms(2)])
  then have "evolves w (poll_once v p w)"
    using origin.poll_once_session [OF assms s, of v p] by (simp add: in_session_def)
  from sum_list_forward [OF evolves_statuses [OF this assms(1)]] show ?thesis by (simp add: work_left_def)
qed

text \<open>
  C15. Polling comes to rest. In any sequence of polls of deployments and releases, however long and
  whatever Drone answers, at most as many polls change the status of some deployment as there are steps
  left at the start, which is at most three for each deployment; so all but finitely many polls of an
  endless sequence leave every status as it is.
\<close>

theorem polling_comes_to_rest:
  assumes "good w" and "w_durable w = w_cur w"
  shows "changing_polls v ps w + work_left (fold (poll_once v) ps w) \<le> work_left w \<and>
    work_left w \<le> 3 * length (t_deployments (w_cur w))"
proof -
  have "changing_polls v ps w + work_left (fold (poll_once v) ps w) \<le> work_left w"
    using assms
  proof (induction ps arbitrary: w)
    case (Cons p ps)
    have c: "clean w" using Cons.prems(2) by (simp add: clean_def)
    have "good (poll_once v p w)" "clean (poll_once v p w)"
      using origin.poll_once_session [OF Cons.prems(1) c origin.session_sync [OF evolves_refl c]] by auto
    then show ?case using Cons.IH [of "poll_once v p w"] poll_once_work [OF Cons.prems(1) c, of v p]
      by (simp add: clean_def)
  qed simp
  then show ?thesis using work_left_bound by blast
qed

theorem polling_comes_to_rest_witness:
  "let w = world_with [success_row backend_component ''d1'' (Some ''b1''),
         fresh_row frontend_component ''d2'' (Some ''b1'')] [sample_bundle BS_DEPLOYING];
       ps = [PollBundle ''b1'', PollBundle ''b1'', PollDeployment ''d1''];
       v = sample_env HttpTimeout HttpTimeout
   in changing_polls v ps w + work_left (fold (poll_once v) ps w) \<le> 3 \<and> changing_polls v ps w = 1 \<and>
      work_left (fold (poll_once v) ps w) = 2"
proof -
  let ?w = "world_with [success_row backend_component ''d1'' (Some ''b1''),
         fresh_row frontend_component ''d2'' (Some ''b1'')] [sample_bundle BS_DEPLOYING]"
  let ?ps = "[PollBundle ''b1'', PollBundle ''b1'', PollDeployment ''d1'']"
  let ?v = "sample_env HttpTimeout HttpTimeout"
  have c: "w_durable ?w = w_cur ?w" by (simp add: world_with_def)
  have n: "changing_polls ?v ?ps ?w = 1" "work_left (fold (poll_once ?v) ?ps ?w) = 2" "work_left ?w = 3"
    by code_simp+
  show ?thesis
    unfolding Let_def
    by (intro conjI n polling_comes_to_rest [OF sample_good(4) c, of ?v ?ps, THEN conjunct1, unfolded n(3)])
qed

end
