(* ===== verification/Worker.thy ===== *)
theory Worker
  imports Recovery_Laws Schedule_Laws CI_Link_Laws Plan_Laws Notification_Laws
begin

section \<open>The background worker\<close>

text \<open>
  app/services/background_worker.py. The worker calls the sweeps of the other components in a fixed
  order, each with sessions of its own: once when the service starts, then at every tick. An
  exception that escapes a tick is logged and the next tick starts over; the modelled sweeps handle
  theirs inside. A setting that decides what is called is an argument.
\<close>

definition DELIVERY_LIMIT :: nat where
  "DELIVERY_LIMIT = 20"

definition reconcile_on_startup :: "env \<Rightarrow> bool \<Rightarrow> world \<Rightarrow> (nat \<times> nat \<times> nat) option \<times> world" where
  "reconcile_on_startup v recovery_enabled w =
     (let w1 = snd (ci_run v w)
      in if \<not> recovery_enabled then (None, w1)
         else (Some (fst (recovery_run v w1)), snd (recovery_run v w1)))"

text \<open>The notifications of a tick share one session.\<close>

definition notify :: "env \<Rightarrow> mail_settings \<Rightarrow> world \<Rightarrow> world" where
  "notify v ms w =
     (let w1 = snd (enqueue_new_events v ms (open_session w))
      in snd (deliver_pending v ms DELIVERY_LIMIT w1))"

definition worker_tick :: "env \<Rightarrow> mail_settings \<Rightarrow> bool \<Rightarrow> world \<Rightarrow> world" where
  "worker_tick v ms recovery_enabled w =
     (let w1 = snd (ci_run v w);
          w2 = snd (run_due v w1);
          w3 = (if recovery_enabled then snd (recovery_run v w2)
                else snd (refresh_scheduled_deployments v w2))
      in notify v ms w3)"

text \<open>The loop, cut off after \<open>n\<close> ticks.\<close>

primrec worker_run :: "nat \<Rightarrow> env \<Rightarrow> mail_settings \<Rightarrow> bool \<Rightarrow> world \<Rightarrow> world" where
  "worker_run 0 v ms recovery_enabled w = w"
| "worker_run (Suc n) v ms recovery_enabled w =
     worker_run n v ms recovery_enabled (worker_tick v ms recovery_enabled w)"

end
