(* ===== verification/Worker_Laws.thy ===== *)
theory Worker_Laws
  imports Worker
begin

section \<open>What every entry point keeps of the deployments\<close>

text \<open>
  \<^verbatim>\<open>settles\<close> says that good tables stay good and that every deployment lasts. A component that does
  not write deployments keeps it for free; the others by the lemmas of the orchestrator.
\<close>

lemma slots_keptI: "t_deployments U = t_deployments T \<Longrightarrow> slots_kept T U"
  by (simp add: slots_kept_def)

lemma settled_tick [intro]: "settles u w \<Longrightarrow> settles u (tick w)"
  unfolding settles_def by (rule slots.after_tick)

lemma settled_commit [intro]: "settles u w \<Longrightarrow> settles u (commit w)"
  unfolding settles_def by (rule slots.after_commit)

lemma settled_rollback [intro]: "settles u w \<Longrightarrow> settles u (rollback w)"
  unfolding settles_def by (rule slots.after_rollback)

lemma settled_tables:
  "(\<And>T. t_deployments (f T) = t_deployments T) \<Longrightarrow> settles u w \<Longrightarrow> settles u (set_tables f w)"
  unfolding settles_def by (rule slots.after_tables) (rule slots_keptI)

lemma settled_session [intro]: "settles u w \<Longrightarrow> settles u (open_session w)"
  by (erule settles_trans) (simp add: settles_def across_def)

lemma settled_end: "settles u (snd r) \<Longrightarrow> settles u (end_request r)"
  by (cases r) (auto simp: end_request_def split: sum.split)

lemma settled_mailed: "settles u w \<Longrightarrow> settles u (w\<lparr>w_trace := w_trace w @ [Mailed m]\<rparr>)"
  by (erule settles_trans) (simp add: settles_def across_def)

text \<open>Leaving the tables of deployments as they were.\<close>

lemma settles_same:
  assumes "t_deployments (w_cur w') = t_deployments (w_cur w)" and "unsaved w w'"
  shows "settles w w'"
  by (rule settles_step) (simp_all add: assms slots_kept_def unsaved_saves)

subsection \<open>Assignments to other tables\<close>

lemma settled_other:
  assumes "settles u w"
  shows "settles u (upd_schedule i fs w)" and "settles u (upd_job i fj w)" and "settles u (upd_plan i fp w)"
    and "settles u (upd_mail i fm w)" and "settles u (add_ci_event ev w)" and "settles u (set_cursor cur w)"
    and "settles u (insert_mail ml w)"
  using assms
  unfolding upd_schedule_def upd_job_def upd_plan_def upd_mail_def add_ci_event_def set_cursor_def insert_mail_def
  by (intro settled_tick settled_tables; simp)+

lemmas settled = settled_tick settled_commit settled_rollback settled_session settled_end settled_mailed
  settled_other

lemma settled_sweep:
  assumes "\<And>i w. settles w (snd (step i w))"
  shows "settles w (snd (sweep step is w))"
proof -
  have "sweep_step step settles"
    by unfold_locales (auto simp: assms intro: settles_trans)
  then show ?thesis by (rule sweep_step.sweep_R)
qed

subsection \<open>CI requests\<close>

lemma settled_transition: "settles u w \<Longrightarrow> settles u (ci_transition v i s c w)"
  by (auto simp: ci_transition_def Let_def split: option.split intro!: settled)

lemma settled_retry: "settles u w \<Longrightarrow> settles u (ci_retry v i w)"
  by (simp add: ci_retry_def settled_transition split: option.split)

lemma settles_judges: "judges w w' \<Longrightarrow> settles w w'"
  by (rule settles_same) (auto simp: judges_def)

lemma settled_reads: "settles u w \<Longrightarrow> reads w w' \<Longrightarrow> settles u w'"
  by (rule settles_trans [OF _ reads_settles])

lemma adopt_settled: "settles u w \<Longrightarrow> settles u (snd (adopt_deployment v j b w))"
  by (auto simp: adopt_deployment_def split: option.split intro!: settled settled_transition)

lemma link_settled:
  assumes "settles u w"
  shows "settles u (snd (link_deployment v c j b w))"
proof -
  obtain x w1 where x: "prepare_standalone (ci_env v j) c b (j_target j) (Some (requested_by_token (j_service_token_id j)))
      None (upd_job (j_id j) (\<lambda>j. j\<lparr>j_commit_sha := Some (bd_commit_sha b)\<rparr>) w) = (x, w1)" by force
  have w1: "settles u w1"
    using settles_trans [OF settled_other(2) [OF assms] prepare_standalone_settles] x by (metis snd_conv)
  then show ?thesis
    by (auto simp: link_deployment_def x split: sum.split exn.split prod.split
        intro!: settled settled_transition settles_trans [OF _ required_stages_settles])
      (metis adopt_settled settled_rollback snd_conv)
qed

lemma get_promotion_build_settled: "settles u w \<Longrightarrow> settles u (snd (get_promotion_build v c n w))"
  by (rule settled_reads [OF _ get_promotion_build_reads])

lemma track_success_settled:
  assumes "settles u w"
  shows "settles u (snd (track_success v i d w))"
proof -
  have "settles u w1" if "get_promotion_build v c (d_promotion_build_number d) w = (x, w1)" for c x w1
    using get_promotion_build_settled [OF assms] that by (metis snd_conv)
  then show ?thesis
    using assms
    by (auto simp: track_success_def Let_def split: sum.split exn.split option.split prod.split
        intro!: settled settled_transition)
qed

lemma poll_linked_settled: "settles u w \<Longrightarrow> settles u (snd (poll_linked v d w))"
  using settles_trans [OF _ refresh_bundle_settles] settles_trans [OF _ refresh_standalone_settles]
  by (auto simp: poll_linked_def split: sum.split prod.split) (metis snd_conv)+

lemma ci_track_settled:
  assumes "settles u w"
  shows "settles u (snd (ci_track v j d w))"
proof -
  have "settles u w1" if "poll_linked (ci_env v j) d0 w = (x, w1)" for d0 x w1
    using poll_linked_settled [OF assms] that by (metis snd_conv)
  then show ?thesis
    using assms
    by (auto simp: ci_track_def split: sum.split option.split prod.split
        intro!: settled_transition track_success_settled)
qed

lemma ci_advance_settled:
  assumes "settles u w"
  shows "settles u (snd (ci_advance v j w))"
proof -
  obtain x w1 where x: "source_verdict v j w = (x, w1)" by force
  have w1: "settles u w1" by (rule settles_trans [OF assms settles_judges [OF source_verdict_judges [OF x]]])
  have "settles u w2" if "link_deployment v c j b w1 = (y, w2)" for c b y w2
    using link_settled [OF w1] that by (metis snd_conv)
  then show ?thesis
    using assms w1
    by (auto simp: ci_advance_def x split: sum.split source_verdict.split option.split prod.split bool.split
        intro!: settled_transition ci_track_settled)
qed

lemma ci_run_one_settled:
  assumes "settles u w"
  shows "settles u (ci_run_one v i w)"
proof -
  have "settles u w2" if "ci_advance v j (commit (upd_job i f (open_session (tick (tick w))))) = (x, w2)" for j f x w2
    using ci_advance_settled that assms by (metis settled snd_conv)
  then show ?thesis
    using assms
    by (auto simp: ci_run_one_def Let_def release_lease_def split: sum.split option.split prod.split
        intro!: settled settled_retry)
qed

lemma ci_run_settled: "settles u w \<Longrightarrow> settles u (snd (ci_run v w))"
proof -
  have "settles u w \<Longrightarrow> settles u (ci_run_each v is w)" for "is" w
    by (induction "is" arbitrary: w) (simp_all add: ci_run_one_settled)
  then show "settles u w \<Longrightarrow> settles u (snd (ci_run v w))"
    by (simp add: ci_run_def Let_def settled)
qed

subsection \<open>Schedules\<close>

lemma promote_settled: "settles u w \<Longrightarrow> settles u (snd (promote_standalone v c n tg rq att w))"
  by (rule settles_trans [OF _ promote_standalone_settles])

lemma create_settled: "settles u w \<Longrightarrow> settles u (snd (create_bundle v q att given ex rq w))"
  by (rule settles_trans [OF _ create_bundle_settles])

lemma claim_schedule_settled: "settles u w \<Longrightarrow> settles u (snd (claim_schedule v i w))"
  by (auto simp: claim_schedule_def split: option.split intro!: settled)

lemma run_schedule_settled:
  assumes "settles u w"
  shows "settles u (snd (run_schedule v s w))"
proof -
  have "settles u w1" if "promote_standalone v' c n tg rq att w = (x, w1)" for v' c n tg rq att x w1
    using promote_settled [OF assms] that by (metis snd_conv)
  moreover have "settles u w1" if "create_bundle v' q att given ex rq w = (x, w1)" for v' q att given ex rq x w1
    using create_settled [OF assms] that by (metis snd_conv)
  ultimately show ?thesis
    using assms by (auto simp: run_schedule_def Let_def split: list.split sum.split prod.split)
qed

lemma run_one_settled:
  assumes "settles u w"
  shows "settles u (run_one v i w)"
proof -
  obtain won w1 where c: "claim_schedule v i (open_session w) = (won, w1)" by force
  have w1: "settles u w1" using claim_schedule_settled [OF settled_session [OF assms]] c by (metis snd_conv)
  have "settles u w2" if "run_schedule v s w1 = (r, w2)" for s r w2
    using run_schedule_settled [OF w1] that by (metis snd_conv)
  then show ?thesis
    using w1 by (auto simp: run_one_def c finish_schedule_def Let_def split: bool.split option.split prod.split
        intro!: settled)
qed

lemma run_due_settled: "settles u w \<Longrightarrow> settles u (snd (run_due v w))"
proof -
  have "settles u w \<Longrightarrow> settles u (run_each v is w)" for "is" w
    by (induction "is" arbitrary: w) (simp_all add: run_one_settled)
  then show "settles u w \<Longrightarrow> settles u (snd (run_due v w))"
    by (simp add: run_due_def Let_def settled)
qed

lemma refresh_linked_settles: "settles w (snd (refresh_linked v i w))"
proof -
  have "settles w w1" if "refresh_bundle v' b w = (x, w1)" for v' b x w1
    using refresh_bundle_settles that by (metis snd_conv)
  moreover have "settles w w1" if "refresh_standalone v' d w = (x, w1)" for v' d x w1
    using refresh_standalone_settles that by (metis snd_conv)
  ultimately show ?thesis
    by (auto simp: refresh_linked_def split: option.split sum.split prod.split)
qed

lemma refresh_scheduled_settled: "settles u w \<Longrightarrow> settles u (snd (refresh_scheduled_deployments v w))"
  unfolding refresh_scheduled_deployments_def Let_def
  by (rule settles_trans [OF settled_session settled_sweep])
    (auto simp: refresh_one_def Let_def intro!: settled_end intro: settles_trans [OF _ refresh_linked_settles])

subsection \<open>Recovery\<close>

lemma resume_one_settles: "settles w (snd (resume_one v p w))"
  by (cases p) (auto simp: Let_def intro!: settled_end
      intro: settles_trans [OF _ refresh_standalone_settles] settles_trans [OF _ refresh_bundle_settles])

lemma resume_all_settled: "settles u w \<Longrightarrow> settles u (snd (resume_all v ps w))"
proof (induction ps arbitrary: w)
  case (Cons p ps)
  obtain n w1 where r: "resume_one v p w = (n, w1)" by force
  have "settles u w1" using settles_trans [OF Cons.prems resume_one_settles, of v p] r by simp
  then show ?case using Cons.IH [of w1] by (auto simp: r split: prod.split)
qed simp

text \<open>What keeps the promotion side of every row keeps the tables good and the deployments.\<close>

lemma promotion_side_lasting: "dep_promotion_side e = dep_promotion_side d \<Longrightarrow> lasting d e"
proof -
  assume s: "dep_promotion_side e = dep_promotion_side d"
  have "dep_identity (dep_promotion_side x) = dep_identity x" "d_status (dep_promotion_side x) = d_status x"
    "dep_result (dep_promotion_side x) = dep_result x" for x
    by (simp_all add: dep_promotion_side_def dep_identity_def dep_result_def)
  then show "lasting d e" using s unfolding lasting_def by metis
qed

lemma promotion_sides_kept: "promotion_sides U = promotion_sides T \<Longrightarrow> slots_kept T U"
proof -
  assume s: "promotion_sides U = promotion_sides T"
  have "\<exists>e \<in> set (t_deployments U). lasting d e" if "d \<in> set (t_deployments T)" for d
  proof -
    have "dep_promotion_side d \<in> set (promotion_sides T)" using that by (simp add: promotion_sides_def)
    then have "dep_promotion_side d \<in> set (promotion_sides U)" by (simp only: s)
    then show ?thesis using promotion_side_lasting unfolding promotion_sides_def by (metis imageE image_set)
  qed
  then show "slots_kept T U"
    using good_rows_sides s by (metis lasting_rows_def promotion_sides_def slots_kept_def)
qed

lemma verdict_settled:
  assumes "settles u w"
  shows "settles u (upd_dep i (dep_verdict s msg at) w)" and "settles u (upd_bundle b g w)"
proof -
  have "promotion_sides (w_cur (upd_dep i (dep_verdict s msg at) w)) = promotion_sides (w_cur w)"
    by (simp add: promotion_sides_def upd_dep_def map_upd_row_same verdict_sides)
  then have "settles w (upd_dep i (dep_verdict s msg at) w)"
    by (intro settles_step promotion_sides_kept) (simp_all add: upd_dep_def unsaved_saves unsaved_same)
  then show "settles u (upd_dep i (dep_verdict s msg at) w)" by (rule settles_trans [OF assms])
  show "settles u (upd_bundle b g w)"
    unfolding upd_bundle_def by (rule settled_tables [OF _ assms]) simp
qed

lemma sweep_steps_settle:
  "settles w (snd (reconcile_bundle_publish v b w))" "settles w (snd (reconcile_deployment_publish v i w))"
  "settles w (snd (release_claim v i w))"
  by (auto simp: reconcile_bundle_publish_def reconcile_deployment_publish_def release_claim_def Let_def
      split: option.split prod.split intro!: settled settles_log verdict_settled)

lemma recovery_run_settled:
  assumes "settles u w"
  shows "settles u (snd (recovery_run v w))"
proof -
  have resume: "settles u (snd (resume_deployments v w))"
    by (simp add: resume_deployments_def Let_def resume_all_settled settled assms)
  have publishes: "settles u (snd (reconcile_publishes v w1))" if "settles u w1" for w1
  proof -
    let ?w = "open_session w1"
    obtain n w2 where n: "sweep (reconcile_bundle_publish v) (interrupted_bundles v ?w) (tick ?w) = (n, w2)" by force
    have "settles u (snd (sweep (reconcile_bundle_publish v) (interrupted_bundles v ?w) (tick ?w)))"
      by (rule settles_trans [OF settled_tick [OF settled_session [OF that]] settled_sweep [OF sweep_steps_settle(1)]])
    then have "settles u w2" by (simp add: n)
    then have "settles u (snd (sweep (reconcile_deployment_publish v) (interrupted_deployments v ?w) w2))"
      by (rule settles_trans [OF _ settled_sweep [OF sweep_steps_settle(2)]])
    then show ?thesis by (simp add: reconcile_publishes_def Let_def n case_prod_beta)
  qed
  have claims: "settles u (snd (release_stale_schedule_claims v w1))" if "settles u w1" for w1
    unfolding release_stale_schedule_claims_def Let_def
    by (rule settles_trans [OF settled_tick [OF settled_session [OF that]] settled_sweep [OF sweep_steps_settle(3)]])
  obtain n w1 where r1: "resume_deployments v w = (n, w1)" by force
  obtain m w2 where r2: "reconcile_publishes v w1 = (m, w2)" by force
  obtain k w3 where r3: "release_stale_schedule_claims v w2 = (k, w3)" by force
  have "settles u w3" using resume publishes claims r1 r2 r3 by (metis snd_conv)
  then show ?thesis by (simp add: recovery_run_def r1 r2 r3)
qed

subsection \<open>Publishing\<close>

text \<open>A publish starts from a session of its own, whose tables are the durable ones.\<close>

lemma publishes_settled:
  assumes "settles u w" and "across tables_publish (open_session w) w'"
  shows "settles u w'"
proof (rule settles_trans [OF assms(1)])
  let ?T = "w_durable w"
  obtain es where es: "w_trace w' = w_trace w @ es" "\<forall>U \<in> snapshots es. tables_publish ?T U"
      "tables_publish ?T (w_cur w')" "tables_publish ?T (w_durable w')"
    using across_clean [OF assms(2)] publishing.rel_refl by auto
  then have "slots_kept ?T (w_cur w')" "slots_kept ?T (w_durable w')" "\<forall>U \<in> snapshots es. slots_kept ?T U"
    by (simp_all add: tables_publish_def promotion_sides_kept)
  then have "slots_kept T (w_cur w') \<and> slots_kept T (w_durable w') \<and> (\<forall>U \<in> snapshots es. slots_kept T U)"
    if "slots_kept T ?T" for T
    using slots.rel_trans [OF that] by blast
  then show "settles w w'"
    unfolding settles_def across_def using es(1) by (intro exI [of _ es]) simp
qed

subsection \<open>Notifications\<close>

lemma enqueue_all_settled: "settles u w \<Longrightarrow> settles u (snd (enqueue_all v ms es w))"
proof (induction es arbitrary: w)
  case (Cons e es)
  obtain i ev where e: "e = (i, ev)" by force
  have "settles u (set_cursor cur (if c then insert_mail m w else w))" for cur c m
    using Cons.prems by (simp add: settled)
  then have "settles u (snd (enqueue_all v ms es (set_cursor cur (if c then insert_mail m w else w))))" for cur c m
    by (rule Cons.IH)
  then show ?case by (simp add: e Let_def split: prod.split) (metis snd_conv)
qed simp

lemma enqueue_new_settled:
  assumes "settles u w"
  shows "settles u (snd (enqueue_new_events v ms w))"
proof -
  let ?w1 = "set_cursor (the_cursor w) w"
  obtain n w2 where r: "enqueue_all v ms (events_to_tell (the_cursor w) ?w1) ?w1 = (n, w2)" by force
  have "settles u w2" using enqueue_all_settled [OF settled_other(6) [OF assms]] r by (metis snd_conv)
  then show ?thesis by (simp add: enqueue_new_events_def r settled)
qed

lemma deliver_one_settled:
  assumes "settles u w"
  shows "settles u (snd (deliver_one v ms st i w))"
proof -
  obtain won w1 where c: "claim_mail v st i w = (won, w1)" by force
  have "settles u w1"
    using c assms by (auto simp: claim_mail_def split: option.splits if_splits intro!: settled)
  then show ?thesis
    by (auto simp: deliver_one_def c Let_def split: option.split bool.split intro!: settled)
qed

lemma deliver_settled: "settles u w \<Longrightarrow> settles u (snd (deliver_pending v ms limit w))"
proof -
  have "settles u w \<Longrightarrow> settles u (snd (deliver_all v ms st is w))" for st "is" w
  proof (induction "is" arbitrary: w)
    case (Cons i "is")
    obtain n w1 where r: "deliver_one v ms st i w = (n, w1)" by force
    have "settles u w1" using deliver_one_settled [OF Cons.prems] r by (metis snd_conv)
    then show ?case using Cons.IH [of w1] by (auto simp: r split: prod.split)
  qed simp
  then show "settles u w \<Longrightarrow> settles u (snd (deliver_pending v ms limit w))"
    by (simp add: deliver_pending_def Let_def settled)
qed

subsection \<open>The worker\<close>

lemma worker_tick_settled: "settles u w \<Longrightarrow> settles u (worker_tick v ms enabled w)"
  unfolding worker_tick_def notify_def Let_def
  by (intro deliver_settled enqueue_new_settled settled_session)
    (simp add: recovery_run_settled refresh_scheduled_settled run_due_settled ci_run_settled)

lemma worker_run_settled: "settles u w \<Longrightarrow> settles u (worker_run n v ms enabled w)"
  by (induction n arbitrary: w) (simp_all add: worker_tick_settled)

lemma startup_settled: "settles u w \<Longrightarrow> settles u (snd (reconcile_on_startup v enabled w))"
  by (simp add: reconcile_on_startup_def Let_def recovery_run_settled ci_run_settled)

end
