(* ===== verification/Program.thy ===== *)
theory Program
  imports Worker_Laws Registry_Store_Laws
begin

section \<open>The program: requests and the worker, in any order\<close>

text \<open>
  Every entry point of the service that writes the main tables: a request has a session of its own,
  which its owner rolls back when the request raised; the worker starts and ticks; the process stops
  between two of them, or in the middle of one, right after any of its commits, and what was not
  committed is gone. Who asks and what Drone, Gitea and the clock answer is different at
  every step.
\<close>

abbreviation served :: "(world \<Rightarrow> (exn + 'a) \<times> world) \<Rightarrow> world \<Rightarrow> world" where
  "served f w \<equiv> end_request (f (open_session w))"

inductive program_step :: "world \<Rightarrow> world \<Rightarrow> bool" where
  promote_build: "program_step w (served (promote_standalone v c n tg rq att) w)"
| refresh_deployment: "program_step w (served (refresh_standalone v i) w)"
| create_release_bundle: "program_step w (served (create_bundle v q batt given ex rq) w)"
| refresh_release: "program_step w (served (refresh_bundle v b) w)"
| retry_release: "program_step w (served (retry_bundle v b) w)"
| publish_deployment: "program_step w (served (publish_standalone v i pq) w)"
| publish_release: "program_step w (served (publish_bundle v b pq) w)"
| add_schedule: "program_step w (served (create_schedule v ms sq satt) w)"
| stop_schedule: "program_step w (served (cancel_schedule v i) w)"
| run_schedules: "program_step w (snd (run_due v w))"
| dispatch_mails: "program_step w (notify v ms w)"
| accept_ci: "program_step w (served (accept v k pk ck n tg') w)"
| plan_release: "program_step w (served (create_release_plan v ps en fe be) w)"
| approve_release_plan: "program_step w (served (approve_plan v ps i digest user) w)"
| stage_release: "program_step w (served (deploy_staging v ps fe be) w)"
| release_to_production: "program_step w (served (promote_to_production v ps i) w)"
| add_recipient: "program_step w (served (recipient_create v address) w)"
| remove_recipient: "program_step w (served (recipient_delete i) w)"
| add_connection: "program_step w (served (create_connection v encrypt kind name url token dflt) w)"
| change_connection: "program_step w (served (update_connection v encrypt i cp) w)"
| remove_connection: "program_step w (served (delete_connection i) w)"
| check_connection: "program_step w (served (test_connection v i) w)"
| add_project: "program_step w (served (create_project v np) w)"
| change_project: "program_step w (served (update_project_usecase v ref pp) w)"
| archive_project: "program_step w (served (set_archived_usecase v ref off) w)"
| order_components: "program_step w (served (reorder_components ref ids) w)"
| add_project_component: "program_step w (served (add_component_usecase v ref nc) w)"
| change_component: "program_step w (served (update_component_usecase v ref cref cu) w)"
| remove_project_component: "program_step w (served (delete_component_usecase ref cref) w)"
| start_worker: "program_step w (snd (reconcile_on_startup v enabled w))"
| tick_worker: "program_step w (worker_tick v ms enabled w)"
| stop_process: "program_step w (open_session w)"
| crash: "program_step w w' \<Longrightarrow> w_trace w' = w_trace w @ es @ Committed T # rest \<Longrightarrow>
    program_step w (w'\<lparr>w_cur := T, w_durable := T, w_trace := w_trace w @ es @ [Committed T]\<rparr>)"

abbreviation program_run :: "world \<Rightarrow> world \<Rightarrow> bool" where
  "program_run \<equiv> program_step\<^sup>*\<^sup>*"

subsection \<open>Requests that do not write deployments\<close>

lemma settled_recipients:
  assumes "settles u w"
  shows "settles u (snd (recipient_create v address w))" and "settles u (snd (recipient_delete i w))"
  using assms
  by (auto simp: recipient_create_def recipient_delete_def Let_def split: option.split
      intro!: settled settled_tables)

lemma settled_schedules:
  assumes "settles u w"
  shows "settles u (snd (create_schedule v ms q att w))" and "settles u (snd (cancel_schedule v i w))"
proof -
  have e: "settles u (snd (enqueue_schedule_created v ms s w1))" if "settles u w1" for s w1
    using that by (auto simp: enqueue_schedule_created_def Let_def intro!: settled)
  have i: "settles u (insert_schedule s w1)" if "settles u w1" for s w1
    unfolding insert_schedule_def by (rule settled_tables [OF _ that]) simp
  show "settles u (snd (create_schedule v ms q att w))"
    using assms by (simp add: create_schedule_def Let_def settled e i split: sum.split)
  show "settles u (snd (cancel_schedule v i w))"
    using assms by (auto simp: cancel_schedule_def cancel_write_def Let_def split: sum.split intro!: settled)
qed

lemma settled_accept: "settles u w \<Longrightarrow> settles u (snd (accept v k pk ck n tg w))"
  by (auto simp: accept_def accept_insert_def Let_def split: sum.split intro!: settled settled_tables)

subsection \<open>Plans\<close>

lemma settled_looks: "settles u w \<Longrightarrow> looks w w' \<Longrightarrow> settles u w'"
  using settles_trans [OF _ settles_same [OF _ unsaved_looks]] by (auto simp: looks_def)

lemma settled_snapshot: "settles u w \<Longrightarrow> snapshot v ps en f b w = (r, w') \<Longrightarrow> settles u w'"
  by (rule settled_reads [OF _ snapshot_reads])

lemma settled_validate: "settles u w \<Longrightarrow> validate_current v ps plan w = (r, w') \<Longrightarrow> settles u w'"
  by (rule settled_looks [OF _ validate_current_cases(1)])

lemma settled_create_plan: "settles u w \<Longrightarrow> settles u (snd (create_release_plan v ps en f b w))"
  by (auto simp: create_release_plan_def Let_def split: sum.split prod.split
      intro!: settled settled_tables dest: settled_snapshot)

lemma settled_approve_plan:
  assumes "settles u w"
  shows "settles u (snd (approve_plan v ps i digest user w))"
proof -
  have a: "settles u w2" if "approve_update v i digest l w1 = (r, w2)" "settles u w1" for l w1 r w2
    using that by (auto simp: approve_update_def split: option.splits if_splits intro!: settled)
  then show ?thesis
    using assms settled_validate [OF assms]
    by (auto simp: approve_plan_def split: sum.split prod.split bool.split option.split)
qed

lemma settled_execute: "settles u w \<Longrightarrow> settles u (snd (execute_plan v ps s given w))"
  by (simp add: execute_plan_def create_settled split: sum.split)

lemma settled_deploy_staging: "settles u w \<Longrightarrow> settles u (snd (deploy_staging v ps f b w))"
  by (auto simp: deploy_staging_def split: sum.split prod.split dest: settled_snapshot intro: settled_execute)

lemma settled_run_plan:
  assumes "settles u w"
  shows "settles u (snd (run_plan v ps plan w))"
proof -
  obtain won w1 where c: "claim_plan v (pl_id plan) (pl_digest plan) (new_uuid v w) (tick w) = (won, w1)" by force
  have w1: "settles u w1"
    using c assms by (cases rule: claim_plan_cases) (auto intro!: settled)
  obtain r w2 where x: "execute_plan v ps (pl_snapshot plan) (Some (new_uuid v w)) w1 = (r, w2)" by force
  have "settles u w2" using settled_execute [OF w1] x by (metis snd_conv)
  then show ?thesis
    using w1 by (auto simp: run_plan_def Let_def c x mark_plan_def split: bool.split sum.split intro!: settled)
qed

lemma settled_production: "settles u w \<Longrightarrow> settles u (snd (promote_to_production v ps i w))"
  by (cases rule: promote_to_production_cases [of v ps i w])
    (auto intro: settled_looks settled_run_plan settled_validate)

subsection \<open>The registry\<close>

lemma settled_registry_tables:
  assumes "settles u w"
  shows "settles u (set_connections ns w)" and "settles u (set_projects prs w)" and "settles u (set_components rs w)"
  using assms unfolding set_connections_def set_projects_def set_components_def by (auto intro: settled_tables)

lemma settled_repositories:
  assumes "settles u w"
  shows "settles u (snd (conn_add n w))" and "settles u (snd (conn_save n w))" and "settles u (snd (conn_delete i w))"
    and "settles u (conn_clear_default kind ex w)" and "settles u (snd (sync_components p w))"
  using assms
  by (auto simp: conn_add_def conn_save_def conn_delete_def conn_clear_default_def flush_connections_def
      sync_components_def Let_def split: option.split intro!: settled settled_registry_tables)

lemma settled_bind:
  assumes "settles u (snd r)" and "\<And>x w. r = (Inr x, w) \<Longrightarrow> settles u w \<Longrightarrow> settles u (snd (f x w))"
  shows "settles u (snd (bind_exn r f))"
  using assms by (cases r) (auto simp: bind_exn_def split: sum.split)

lemma settled_projects:
  assumes "settles u w"
  shows "settles u (snd (proj_add p w))" and "settles u (snd (proj_save p w))"
  using assms
  by (auto simp: proj_add_def proj_save_def Let_def split: option.split
      intro!: settled settled_registry_tables settled_repositories)

lemma settled_saves:
  assumes "settles u w"
  shows "settles u (snd (save_project p w))" and "settles u (snd (save_unchecked p w))"
  using assms
  by (auto simp: save_project_def save_unchecked_def split: sum.split
      intro!: settled_bind settled_projects settled)

lemma settled_connections:
  assumes "settles u w"
  shows "settles u (snd (create_connection v encrypt kind name url token dflt w))"
    and "settles u (snd (update_connection v encrypt i cp w))"
    and "settles u (snd (delete_connection i w))"
  using assms
  by (auto simp: create_connection_def update_connection_def delete_connection_def Let_def split: option.split
      intro!: settled_bind settled_repositories settled)

lemma probe_reads: "reads w (snd (probe v n w))"
proof -
  have d: "reads w (snd (client_status v cl w))" for cl by (simp add: client_status_def drone_read_reads)
  have "reads w (snd (gitea_health v cl w))" for cl
    using reads_send [of "health_rq cl" w v]
    by (auto simp: gitea_health_def health_rq_def split: prod.split)
  with d show ?thesis by (auto simp: probe_def split: sum.split prod.split) (metis snd_conv)+
qed

lemma settled_test_connection: "settles u w \<Longrightarrow> settles u (snd (test_connection v i w))"
  by (auto simp: test_connection_def split: option.split
      intro!: settled_bind settled_repositories settled settled_reads [OF _ probe_reads])

lemma settled_notify: "settles u w \<Longrightarrow> settles u (notify v ms w)"
  unfolding notify_def Let_def by (intro deliver_settled enqueue_new_settled settled_session)

lemma settled_add_components: "settles u w \<Longrightarrow> settles u (snd (add_components v now n cs p w))"
  by (induction v now n cs p w rule: add_components.induct) (auto split: sum.split intro!: settled)

lemma settled_create_project: "settles u w \<Longrightarrow> settles u (snd (create_project v np w))"
  by (auto simp: create_project_def Let_def split: sum.split
      intro!: settled_bind settled_add_components settled_projects settled)

lemma settled_project_usecases:
  assumes "settles u w"
  shows "settles u (snd (update_project_usecase v ref pp w))"
    and "settles u (snd (set_archived_usecase v ref off w))"
    and "settles u (snd (reorder_components ref ids w))"
    and "settles u (snd (delete_component_usecase ref cref w))"
  using assms
  by (auto simp: update_project_usecase_def set_archived_usecase_def reorder_components_def
      delete_component_usecase_def split: sum.split
      intro!: settled_saves settled_bind settled_projects settled)

lemma settled_component_usecases:
  assumes "settles u w"
  shows "settles u (snd (add_component_usecase v ref nc w))"
    and "settles u (snd (update_component_usecase v ref cref cu w))"
proof -
  have "settles u w1" if "save_project p (tick w) = (r, w1)" for p r w1
    using settled_saves(1) [OF settled_tick [OF assms]] that by (metis snd_conv)
  then show "settles u (snd (add_component_usecase v ref nc w))"
    and "settles u (snd (update_component_usecase v ref cref cu w))"
    using assms
    by (auto simp: add_component_usecase_def update_component_usecase_def split: sum.split prod.split
        intro!: settled)
qed

subsection \<open>Every entry point\<close>

lemma settled_orchestrator:
  assumes "settles u w"
  shows "settles u (snd (promote_standalone v c n tg rq att w))" and "settles u (snd (refresh_standalone v i w))"
    and "settles u (snd (create_bundle v q batt given ex rq w))" and "settles u (snd (refresh_bundle v b w))"
    and "settles u (snd (retry_bundle v b w))"
  by (rule settles_trans [OF assms promote_standalone_settles] settles_trans [OF assms refresh_standalone_settles]
      settles_trans [OF assms create_bundle_settles] settles_trans [OF assms refresh_bundle_settles]
      settles_trans [OF assms retry_bundle_settles])+

lemma settled_publishing:
  "settles w (snd (publish_standalone v i pq (open_session w)))"
  "settles w (snd (publish_bundle v b pq (open_session w)))"
  using publishes_settled [OF settles_refl] publish_standalone_across publish_bundle_across
  by (metis prod.collapse)+

lemmas settled_requests = settled_test_connection settled_notify run_due_settled settled_recipients settled_schedules settled_accept settled_create_plan
  settled_approve_plan settled_deploy_staging settled_production settled_connections settled_create_project
  settled_project_usecases settled_component_usecases settled_orchestrator

lemma settled_crash:
  assumes "settles w w'" and "w_trace w' = w_trace w @ es @ Committed T # rest"
  shows "settles w (w'\<lparr>w_cur := T, w_durable := T, w_trace := w_trace w @ es @ [Committed T]\<rparr>)"
proof -
  obtain fs where fs: "w_trace w' = w_trace w @ fs" "\<And>S U. slots_kept S (w_cur w) \<Longrightarrow>
      slots_kept S (w_durable w) \<Longrightarrow> U \<in> snapshots fs \<Longrightarrow> slots_kept S U"
    using assms(1) unfolding settles_def across_def by blast
  have "fs = es @ Committed T # rest" using fs(1) assms(2) by simp
  then have s: "snapshots fs = insert T (snapshots es \<union> snapshots rest)" by simp
  have "slots_kept S T \<and> (\<forall>U \<in> snapshots es. slots_kept S U)"
    if "slots_kept S (w_cur w)" "slots_kept S (w_durable w)" for S
    using fs(2) [OF that] unfolding s by blast
  then show ?thesis
    unfolding settles_def across_def by (intro exI [of _ "es @ [Committed T]"]) (simp add: ball_Un)
qed

lemma program_step_settles: "program_step w w' \<Longrightarrow> settles w w'"
proof (induction rule: program_step.induct)
  case (crash w w' es T rest)
  show ?case by (rule settled_crash [OF crash.IH crash.hyps(2)])
qed (intro settled_end settled_requests settled_publishing settled_session settles_refl worker_tick_settled
      startup_settled)+

lemma program_run_settles: "program_run w w' \<Longrightarrow> settles w w'"
  by (induction rule: rtranclp_induct) (auto intro: settles_trans program_step_settles)

end
