(* ===== verification/Program_Properties.thy ===== *)
theory Program_Properties
  imports Program Samples
begin

section \<open>Properties of the whole program\<close>


definition quiet_mail :: mail_settings where
  "quiet_mail = \<lparr>ms_host = None, ms_managed_targets = [], ms_default_recipients = [], ms_max_attempts = 5,
     ms_retry_seconds = 60, ms_claim_timeout = 300, ms_local_time = (\<lambda>_ _. [])\<rparr>"

definition later_env :: env where
  "later_env = (sample_env HttpTimeout HttpTimeout)\<lparr>v_clock := (\<lambda>n. 10 * SECOND + int n)\<rparr>"


text \<open>
  C2. History is never rewritten. Whatever the service, its worker and a crash at any commit do: a
  durable deployment is still there, with the component, repository, source build, commit, branch, target,
  release and time of creation it was made with; and one that had succeeded is still a success, with the
  promotion build and the times it had.
\<close>

theorem program_keeps_history:
  assumes "program_run w w'" and "good w" and "w_durable w = w_cur w"
    and "d \<in> set (t_deployments (w_durable w))"
  shows "\<exists>e \<in> set (t_deployments (w_durable w')). dep_identity e = dep_identity d \<and>
    (d_status d = DS_SUCCESS \<longrightarrow> d_status e = DS_SUCCESS \<and> dep_result e = dep_result d)"
proof -
  have "lasting_rows (t_deployments (w_durable w)) (t_deployments (w_durable w'))"
    using settles_kept [OF program_run_settles [OF assms(1)] assms(2)] assms(2,3) by (simp add: good_def)
  then show ?thesis using assms(4) by (auto simp: lasting_rows_def lasting_def)
qed

theorem program_keeps_history_witness:
  "let w = world_with [success_row backend_component ''d1'' None] []
   in \<exists>e \<in> set (t_deployments (w_durable (worker_tick later_env quiet_mail True
          (served (refresh_standalone later_env ''d1'') w)))). d_status e = DS_SUCCESS"
proof -
  let ?d = "success_row backend_component ''d1'' None"
  let ?w = "world_with [?d] []"
  let ?u = "served (refresh_standalone later_env ''d1'') ?w"
  have run: "program_run ?w (worker_tick later_env quiet_mail True ?u)"
    using program_step.refresh_deployment [of ?w later_env "''d1''"] program_step.tick_worker [of ?u later_env quiet_mail True]
    by (meson r_into_rtranclp rtranclp.rtrancl_into_rtrancl)
  have g: "good ?w" "w_durable ?w = w_cur ?w" "?d \<in> set (t_deployments (w_durable ?w))" "d_status ?d = DS_SUCCESS"
    by code_simp+
  show ?thesis using program_keeps_history [OF run g(1-3)] g(4) by (auto simp: Let_def)
qed

end
