(* ===== verification/Findings.thy ===== *)
theory Findings
  imports Samples Bundle_Laws Registry_Usecases
begin

section \<open>What modelling showed\<close>

text \<open>Concrete runs and short lemmas behind the points the manifest records.\<close>

subsection \<open>Refreshing a finished deployment announces it again\<close>

text \<open>
  \<open>refresh_standalone\<close> appends RELEASE_COMPLETED and STAGE_STARTED whenever the deployment is
  SUCCESS, not only when it has just become so; every later refresh adds both again.
\<close>

lemma refresh_reannounces_success:
  assumes "find_dep w i = Some d" and "d_status d = DS_SUCCESS" and "d_release_bundle_id d = None"
  shows "\<exists>e1 e2. t_events (w_cur (snd (refresh_standalone v i w))) = t_events (w_cur w) @ [e1, e2] \<and>
    e_event_type e1 = RELEASE_COMPLETED \<and> e_event_type e2 = STAGE_STARTED"
  using assms
  by (simp add: refresh_standalone_def get_deployment_def svc_refresh_def dep_judgement_defs Let_def
      dep_status_def log_def the_event_def)

subsection \<open>A retry can collide with a promotion made meanwhile\<close>

text \<open>
  The failed step of a release gave its slot back, another request promoted the same build, and the
  retry takes the slot again without looking: the commit raises IntegrityError.
\<close>

definition slot_taken :: world where
  "slot_taken = world_with [failed_row backend_component ''d1'' (Some ''b1''),
     success_row backend_component ''d3'' None] [sample_bundle BS_FAILED]"

lemma slot_taken_good: "good slot_taken"
  by code_simp

lemma retry_collides: "fst (retry_bundle (sample_env HttpTimeout HttpTimeout) ''b1'' slot_taken) = Inl IntegrityError"
  by code_simp

subsection \<open>Reordering components during a release can strand a deployment\<close>

text \<open>
  The order is read from the components' present positions. When the component that is still
  deploying is moved behind one that has not started, the next pass promotes the latter beside it;
  if that one then fails, the release ends while the first is in flight, and no refresh of the
  release looks at it again.
\<close>

definition reordered :: world where
  "reordered = (let w = world_with [deploying_row backend_component ''d1'' (Some ''b1''),
       fresh_row frontend_component ''d2'' (Some ''b1'')] [sample_bundle BS_DEPLOYING];
     t = (w_cur w)\<lparr>t_components := [backend_component\<lparr>c_position := 2\<rparr>, frontend_component\<lparr>c_position := 1\<rparr>]\<rparr>
   in w\<lparr>w_cur := t, w_durable := t\<rparr>)"

definition failing_env :: env where
  "failing_env = sample_env (ok_build 9 ''failure'' ''promote'') (ok_build 9 ''pending'' ''promote'')"

definition stranded :: world where
  "stranded = fold (poll_once failing_env) [PollBundle ''b1'', PollBundle ''b1''] reordered"

lemma reorder_strands_deployment:
  "status_in stranded ''d1'' = Some DS_DEPLOYING \<and> status_in stranded ''d2'' = Some DS_FAILED \<and>
   bstatus_in stranded ''b1'' = Some BS_FAILED \<and>
   status_in (poll_once failing_env (PollBundle ''b1'') stranded) ''d1'' = Some DS_DEPLOYING"
  by code_simp

lemma finished_release_is_not_polled:
  "find_bundle w b = Some r \<Longrightarrow> bundle_terminal r \<Longrightarrow> refresh_bundle v b w = (Inr r, w)"
  by (simp add: refresh_bundle_def get_bundle_def)

subsection \<open>A failed read in the plan guard is taken for an unconfirmed promotion\<close>

text \<open>
  The guard reads the source build from Drone inside the try block of the promotion. A timeout of
  that read has the error code of an unanswered promotion, so the deployment is left PROMOTING and
  marked unconfirmed although no promotion was ever sent; only the workflow timeout ends it.
\<close>

lemma guard_read_error_unconfirmed:
  assumes "find_dep w i = Some d" and "for_deployment w d = Inr c" and "svc_claim v i rel w = (True, w1)"
    and "ci_dispatch_allowed v (snd (claim_for_promotion (now_of v w) d)) c w1 = (Inr True, w2)"
    and "verify_planned_deployment v (snd (claim_for_promotion (now_of v w) d)) c w2 =
      (Inl (DroneError DroneTimeoutError m), w3)"
  shows "posts (snd (svc_promote v i rel w)) = posts w \<and>
    (\<exists>e. find_dep (snd (svc_promote v i rel w)) i = Some e \<and> d_status e = DS_PROMOTING \<and>
       d_poll_error_code e = Some PROMOTION_UNCONFIRMED_CODE)"
proof -
  let ?e = "snd (claim_for_promotion (now_of v w) d)"
  have e: "find_dep w1 i = Some ?e" by (rule claim_find [OF assms(1,3)])
  have l2: "looks w1 w2" using ci_dispatch_looks [of w1 v ?e c] assms(4) by simp
  have l3: "looks w1 w3" using verify_planned_looks [of w2 v ?e c] assms(5) looks_trans [OF l2] by simp
  have e3: "find_dep w3 i = Some ?e" using e looks_find [OF l3] by simp
  have disp: "svc_dispatch v ?e c w1 = (Inl (DroneError DroneTimeoutError m), w3)"
    by (simp add: svc_dispatch_def assms(4,5))
  have run: "svc_promote v i rel w = svc_promote_outcome v i (dep_promote_stage d) rel
      (Inl (DroneError DroneTimeoutError m)) w3"
    by (simp add: svc_promote_def assms(1,2) Let_def assms(3) e disp)
  have "posts (snd (svc_promote v i rel w)) = posts w"
    using claim_posts [OF assms(3)] looks_posts [OF l3] by (simp add: run outcome_posts)
  moreover have "find_dep (snd (svc_promote v i rel w)) i =
      Some (mark_promotion_unconfirmed ''DRONE_TIMEOUT'' (now_of v w3) ?e)"
    by (simp add: run svc_promote_outcome_def UNCONFIRMED_PROMOTE_ERROR_CODES_def svc_mark_unconfirmed_def
        Let_def e3)
  ultimately show ?thesis by (simp add: mark_promotion_unconfirmed_def)
qed

subsection \<open>Adopting the promotion of an earlier attempt\<close>

text \<open>
  After a retry whose promotion was not confirmed, the build looked for is identified by source
  build and target only: a failed promotion of the first attempt matches just as well.
\<close>

lemma old_attempt_is_adopted:
  assumes "is_promotion_of n tg old" and "bd_status old = ''failure''"
    and "\<forall>b \<in> set builds. is_promotion_of n tg b \<longrightarrow> b = old" and "old \<in> set builds"
  shows "pick_promotion n tg builds = Some old"
proof (cases "pick_promotion n tg builds")
  case None
  then show ?thesis using assms(1,4) by (simp add: pick_promotion_None)
next
  case (Some b)
  then show ?thesis using pick_promotion_spec(1,2) [OF Some] assms(3) by blast
qed

subsection \<open>Two readings of the same repository\<close>

text \<open>The registry compares repositories without regard to case, the promotion slot does not.\<close>

definition upper_twin :: "component_row \<Rightarrow> component_row" where
  "upper_twin c = c\<lparr>c_id := ''c9'', c_drone_owner := ''ACME''\<rparr>"

lemma slot_case_differs:
  "slot_key ''n1'' (component_row.extend (upper_twin backend_component) (component.fields ''production'' None None)) =
     slot_key ''n1'' (component_row.extend backend_component (component.fields ''production'' None None)) \<and>
   isl (assert_not_duplicate (upper_twin backend_component) 7 ''production''
     (world_with [fresh_row backend_component ''d1'' None] [])) = False"
  by code_simp

subsection \<open>A connection only history uses cannot be deleted cleanly\<close>

text \<open>
  The component was pointed to another Drone connection after it had been deployed: no project and
  no component names the old one, but the deployment does, through a foreign key that restricts.
\<close>

definition history_only :: world where
  "history_only = world_with [success_row backend_component ''d1'' None] []"

lemma referenced_connection_deleted:
  "\<not> is_referenced history_only ''n1'' \<and> fst (delete_connection ''n1'' history_only) = Inl IntegrityError"
  by code_simp

subsection \<open>A Gitea connection is probed without its token\<close>

lemma wrong_gitea_token_passes:
  assumes "n_kind n = CK_GITEA" and "n_kind m = CK_GITEA" and "n_base_url m = n_base_url n"
    and "v_decrypt v (n_token_encrypted n) = Some t" and "v_decrypt v (n_token_encrypted m) = Some u"
  shows "probe v n w = probe v m w"
  using assms by (simp add: probe_def client_of_def gitea_health_def health_rq_def)

end
