(* ===== verification/Spec2Isabelle.thy ===== *)
theory Spec2Isabelle
  imports Deployment_Properties Orchestrator_Properties Registry_Properties Registry_Store_Properties
    Publish_Properties Recovery_Properties Approval_Properties Notification_Properties Schedule_Properties
    CI_Properties Plan_Properties Promotion_Properties
    Settling Program_Properties Findings
begin

text \<open>
  Release Controller: a verification library

  The program (src/app) is a service that promotes Drone CI builds of a project's components
  to an environment. A user, a schedule, a CI job or an approved plan asks for a promotion; the
  service records a deployment, claims it, asks Drone to create a promotion build, and polls
  that build until it has a verdict. A release bundle promotes several components in order.

  Layers and theories, in the order the code has them.

  \<^item> RC_Prelude: Python truthiness and strings, tables of rows with a primary key.
  \<^item> Orch_Types: the string enumerations of app/domain, each an interpretation of the locale
    \<^verbatim>\<open>str_enum\<close>, and the stage names of a component key.
  \<^item> Deployment_Entity, Bundle_Entity: app/domain/orchestration/entities. Records, transitions, the
    state machine of a deployment as a step relation, the decision of a bundle.
  \<^item> Registry_Project, Registry_Project_Laws, Registry_Connection: app/domain/registry/entities.
  \<^item> Release_Entity: app/domain/release/entities, the approval state machine.
  \<^item> RC_Errors: the exception classes as one datatype.
  \<^item> World: the database rows (app/db/models), the session with commit and rollback, the clock and
    Drone as oracles, and the trace of commits and requests that others can observe.
  \<^item> Orch_Store, Registry_Lookup: reads and assignments on rows, the event log
    (app/services/workflow_service.py), the deployment order and the lookups of
    app/services/component_registry.py.
  \<^item> Drone_Client, Drone_Client_Laws: app/integrations/retry.py, app/integrations/drone and
    app/services/drone_build_service.py. The locale \<^verbatim>\<open>read_operation\<close> states what a retried
    operation may do to the world; it is interpreted on the Drone request.
  \<^item> CI_Policy: app/services/ci_policy.py, ci_tokens.py and planned_deployment_guard.py.
  \<^item> Deployment_Service, Deployment_Service_Laws, Promotion_Laws, Dispatch_Laws:
    app/services/deployment_service.py.
  \<^item> Release_Orchestrator, Orchestrator_Laws, Orchestrator_Order, Bundle_Laws:
    app/services/release_orchestrator.py.
  \<^item> Pass_Laws: what one promotion sends and on which readings, which step of a release a pass promotes
    and what becomes of the steps before and after it, and how the status of a step shows on its release.
  \<^item> Gitea_Client: app/integrations/gitea, the percent encoding of its paths, and the client of a component
    (app/services/upstream_clients.py). It interprets \<^verbatim>\<open>read_operation\<close> a second time.
  \<^item> Publish_Service: app/schemas/publish.py and app/services/publish_service.py.
  \<^item> Publish_Orchestrator: app/services/publish_orchestrator.py.
  \<^item> Session_Laws, Publish_Laws, Publish_Verdict: relations kept across requests, for what a run leaves and
    for everything it commits on its way (the locale \<^verbatim>\<open>table_preorder\<close>), what a publish may do to the
    tables and to Gitea, and the verdict of a release.
  \<^item> Recovery, Recovery_Laws: app/services/recovery_service.py. The locale \<^verbatim>\<open>settling\<close> states what a sweep
    does to the rows it selects; it is interpreted on the three kinds of row.
  \<^item> Approval, Approval_Laws: app/usecase/release, app/infrastructure/sqlite/release and the workflow of
    app/services/workflow_service.py. The BPMN engine is third-party: it is an argument of the
    definitions, what the code relies on is the locale \<^verbatim>\<open>bpmn_engine\<close>, interpreted on a token game over
    the diagram of app/workflows/bpmn. A transition is two steps (read, write) that other requests
    interleave with: the relation \<^verbatim>\<open>approval_step\<close>.
  \<^item> Registry_Store, Registry_Usecases: app/infrastructure/sqlite/registry, app/usecase/registry and the
    probes of app/infrastructure/upstream. Registry_Store_Laws, Registry_Connection_Laws and
    Registry_Refinement show that saving never meets a unique constraint half-way, what is written is
    what is read, and that a use case is an operation on one aggregate of the map \<^verbatim>\<open>stored\<close>.
  \<^item> Runtime_Frame: which tables the orchestrator writes. The locale \<^verbatim>\<open>runtime_relation\<close> extends
    \<^verbatim>\<open>table_preorder\<close>, and is interpreted on "every other table is the same".
  \<^item> Notifications, Notification_Laws: app/services/notification_service.py: what is queued for a new
    schedule and for the events of a release, the dispatcher with its claim, attempts and delays, and the
    managed recipients. SMTP is an oracle of the environment that answers whether a mail was taken.
  \<^item> Schedules, Schedule_Laws: app/schemas/scheduling.py and app/services/schedule_service.py. The locale
    \<^verbatim>\<open>exclusive_claim\<close> is a claim by conditional UPDATE; it is interpreted on the claim of a schedule and
    on the claim of a release plan.
  \<^item> CI_Deployment, CI_Laws, CI_Link_Laws: app/services/ci_deployment_service.py and ci_tokens.py: the
    inbox, the worker with its leases, the checks of a source build, the link to a deployment.
  \<^item> Release_Plans, Plan_Laws: app/services/release_plan_service.py, release_operations_service.py and
    release_operations_errors.py: the state of the environments, the snapshot of a release, its approval
    and its one execution.
  \<^item> Promotion_Ports, Promotion_Layer: app/usecase/orchestration/_promotion.py over its ports, with their
    adapters in app/infrastructure/sqlite/orchestration and app/infrastructure/upstream/build_gateway.py.
    An entity lives in memory until its repository saves it; the locale \<^verbatim>\<open>entity_repository\<close> is the
    contract of the two repositories and is interpreted on both. The loop of advance has the bound the
    code gives it, one round more than the release has steps.
  \<^item> Promotion_Simulation, Promotion_Layer_Laws, Promotion_Advance: the layer and the live service agree
    on what they leave behind, up to instants and the wording of messages (the function \<^verbatim>\<open>seen\<close>), and
    the bound of advance is never reached.
  \<^item> Settling: statuses preordered by what a deployment may still do; polling comes to rest.
  \<^item> Worker, Worker_Laws: app/services/background_worker.py, the order in which a start and a tick call the
    sweeps of the other components. Its loop does not end: \<^verbatim>\<open>worker_run\<close> is any number of ticks.
  \<^item> Program: the step relation \<^verbatim>\<open>program_step\<close>: every request of the service that writes the main
    tables, each in a session of its own, the worker, and a crash right after any commit, in any order.
    What a request committed on its way is thus durable too; two requests that overlap between their
    commits are not interleaved here (the claims that protect them are: \<^verbatim>\<open>exclusive_claim\<close>,
    \<^verbatim>\<open>approval_step\<close>). The three requests that do by hand what the worker does, or that only record a
    probe (schedules/run-due, notifications/dispatch, connections/test), are steps too. The relation \<^verbatim>\<open>settles\<close> of
    Orchestrator_Laws, an instance of \<^verbatim>\<open>table_preorder\<close>, is kept by every one of them.
  \<^item> Samples: one concrete world for the companions of the properties.
  \<^item> Deployment_Properties, Orchestrator_Properties, Registry_Properties, Registry_Store_Properties,
    Publish_Properties, Recovery_Properties, Approval_Properties, Notification_Properties,
    Schedule_Properties, CI_Properties, Plan_Properties, Promotion_Properties,
    Program_Properties and Settling: the properties C1, C2, ...
  \<^item> Findings: concrete runs behind the points where the code does not do what it says.

  Modelling choices. A time is an integer number of microseconds. A service method that can raise
  returns a sum of an exception and a value, with the world after it. An ORM object is its row in
  the current tables, read again where the code reads the attribute. HTTP answers are an arbitrary
  function of everything that happened before, so every theorem holds whatever Drone answers.
  Fernet decryption and the SHA-256 digest of a plan are parameters of the environment.

  Every loop of the modelled code is structural (over a list of steps, over the number of attempts left,
  or over the bound the code itself gives it), so no fuel is added and every definition is executable.

  Not modelled: HTTP routing, OAuth, configuration and logging; the SMTP conversation with its MIME
  headers; the MCP server with its audit log, redaction and diagnostics. The column option
  \<^verbatim>\<open>onupdate\<close>, which stamps \<^verbatim>\<open>updated_at\<close> on a row a flush writes, is not modelled: only the
  assignments of the services are. A SELECT without ORDER BY returns the rows in table order.
  The cursor of the notifications compares the position of an event in the log, where the code compares its
  time and then its id; and the read half of an approval transition reads the release and its workflow at
  once, where the code reads one after the other.
\<close>

end
